(* ===== verification/Prelude.thy ===== *)
theory Prelude
  imports Complex_Main "HOL-Library.Word" "HOL-Library.Monad_Syntax"
begin

text \<open>
  Shared vocabulary of the development: C machine types, C strings, the list operations that
  the queue macros of include/queue.h implement, and option-monad traversals for the loops of
  the code that may fail.  A result \<open>None\<close> of a function of option type always means that the C
  function does not return normally: it dereferences NULL, fails an assertion, or runs out of
  the fuel that bounds a loop (and the development proves that the fuel is enough).
\<close>

named_theorems con_simps \<open>frame equations of the container heap\<close>
named_theorems wf_intros \<open>operations that preserve the tree invariant\<close>
named_theorems wf_dests \<open>consequences of the tree invariant\<close>

type_synonym u32 = "32 word"
type_synonym u8 = "8 word"
type_synonym cstr = "string option"

section \<open>Options\<close>

lemma bind_SomeE:
  assumes "Option.bind m f = Some y"
  obtains x where "m = Some x" and "f x = Some y"
  using assms by (cases m) auto

lemma bind_eq_Some: "Option.bind m f = Some y \<longleftrightarrow> (\<exists>x. m = Some x \<and> f x = Some y)"
  by (cases m) auto

fun fold_opt :: "('a \<Rightarrow> 's \<Rightarrow> 's option) \<Rightarrow> 'a list \<Rightarrow> 's \<Rightarrow> 's option" where
  "fold_opt f [] s = Some s"
| "fold_opt f (x # xs) s = Option.bind (f x s) (fold_opt f xs)"

fun exists_opt :: "('a \<Rightarrow> bool option) \<Rightarrow> 'a list \<Rightarrow> bool option" where
  "exists_opt f [] = Some False"
| "exists_opt f (x # xs) =
     Option.bind (f x) (\<lambda>b. if b then Some True else exists_opt f xs)"

fun first_opt :: "('a \<Rightarrow> 'b option option) \<Rightarrow> 'a list \<Rightarrow> 'b option option" where
  "first_opt f [] = Some None"
| "first_opt f (x # xs) =
     Option.bind (f x) (\<lambda>r. case r of Some y \<Rightarrow> Some (Some y) | None \<Rightarrow> first_opt f xs)"

fun sum_opt :: "('a \<Rightarrow> nat option) \<Rightarrow> 'a list \<Rightarrow> nat option" where
  "sum_opt f [] = Some 0"
| "sum_opt f (x # xs) =
     Option.bind (f x) (\<lambda>a. Option.bind (sum_opt f xs) (\<lambda>b. Some (a + b)))"

fun map_opt :: "('a \<Rightarrow> 'b option) \<Rightarrow> 'a list \<Rightarrow> 'b list option" where
  "map_opt f [] = Some []"
| "map_opt f (x # xs) =
     Option.bind (f x) (\<lambda>y. Option.bind (map_opt f xs) (\<lambda>ys. Some (y # ys)))"

text \<open>
  Partial correctness: \<open>after P m\<close> says that \<open>m\<close> fails or its result satisfies \<open>P\<close>.  The rules take a
  program in the option monad apart along its syntax.
\<close>

definition after :: "('a \<Rightarrow> bool) \<Rightarrow> 'a option \<Rightarrow> bool" where
  "after P m \<longleftrightarrow> (\<forall>x. m = Some x \<longrightarrow> P x)"

lemma afterI: "(\<And>x. m = Some x \<Longrightarrow> P x) \<Longrightarrow> after P m" by (simp add: after_def)

lemma afterD: "after P m \<Longrightarrow> m = Some x \<Longrightarrow> P x" by (simp add: after_def)

lemma after_Some: "P x \<Longrightarrow> after P (Some x)" by (simp add: after_def)

lemma after_None: "after P None" by (simp add: after_def)

lemma after_bind: "(\<And>x. m = Some x \<Longrightarrow> after P (f x)) \<Longrightarrow> after P (Option.bind m f)"
  by (cases m) (simp_all add: after_def)

lemma after_map: "(\<And>x. m = Some x \<Longrightarrow> P (f x)) \<Longrightarrow> after P (map_option f m)"
  by (cases m) (simp_all add: after_def)

lemma after_if: "(b \<Longrightarrow> after P m) \<Longrightarrow> (\<not> b \<Longrightarrow> after P n) \<Longrightarrow> after P (if b then m else n)" by simp

lemma after_option: "(r = None \<Longrightarrow> after P m) \<Longrightarrow> (\<And>x. r = Some x \<Longrightarrow> after P (f x)) \<Longrightarrow>
    after P (case r of None \<Rightarrow> m | Some x \<Rightarrow> f x)" by (cases r) simp_all

lemma after_prod: "(\<And>x y. p = (x, y) \<Longrightarrow> after P (f x y)) \<Longrightarrow> after P (case p of (x, y) \<Rightarrow> f x y)"
  by (cases p) simp

lemma after_let: "after P (f x) \<Longrightarrow> after P (let y = x in f y)" by simp

lemmas after_rules = after_Some after_None after_bind after_map after_if after_option after_prod after_let

lemma exists_opt_total:
  assumes "\<And>x. x \<in> set xs \<Longrightarrow> f x = Some (P x)"
  shows "exists_opt f xs = Some (\<exists>x\<in>set xs. P x)"
  using assms by (induction xs) auto

lemma sum_opt_total:
  assumes "\<And>x. x \<in> set xs \<Longrightarrow> f x = Some (g x)"
  shows "sum_opt f xs = Some (sum_list (map g xs))"
  using assms by (induction xs) auto

lemma map_opt_total:
  assumes "\<And>x. x \<in> set xs \<Longrightarrow> f x = Some (g x)"
  shows "map_opt f xs = Some (map g xs)"
  using assms by (induction xs) auto

lemma first_opt_total:
  assumes "\<And>x. x \<in> set xs \<Longrightarrow> f x = Some (g x)"
  shows "first_opt f xs = Some (List.find (\<lambda>x. g x \<noteq> None) xs \<bind> g)"
  using assms by (induction xs) (auto split: option.splits)

lemma first_opt_Some_iff:
  assumes "\<And>x. x \<in> set xs \<Longrightarrow> f x \<noteq> None"
  shows "\<exists>r. first_opt f xs = Some r"
  using assms
proof (induction xs)
  case (Cons x xs)
  then obtain r where "f x = Some r" by fastforce
  with Cons show ?case by (cases r) auto
qed simp

lemma fold_opt_invariant:
  assumes "fold_opt f xs s = Some t" and "P s"
    and "\<And>x s t. x \<in> set xs \<Longrightarrow> P s \<Longrightarrow> f x s = Some t \<Longrightarrow> P t"
  shows "P t"
  using assms
proof (induction xs arbitrary: s)
  case (Cons x xs)
  from Cons.prems(1) obtain u where u: "f x s = Some u" "fold_opt f xs u = Some t"
    by (auto elim: bind_SomeE)
  have "P u" using Cons.prems(3)[OF _ Cons.prems(2) u(1)] by simp
  then show ?case using Cons.prems(3) by (intro Cons.IH[OF u(2)]) auto
qed simp

lemma fold_opt_append:
  "fold_opt f (xs @ ys) s = Option.bind (fold_opt f xs s) (fold_opt f ys)"
  by (induction xs arbitrary: s) (auto simp: Option.bind_assoc cong: Option.bind_cong)

section \<open>List operations behind the TAILQ macros\<close>

text \<open>
  A tail queue is modelled by the list of its elements; an element occurs at most once in the
  queue of a given link field.  Theory \<open>Tailq\<close> proves that the pointer manipulations of
  include/queue.h implement these functions.
\<close>

definition list_first :: "'a list \<Rightarrow> 'a option" where
  "list_first xs = (case xs of [] \<Rightarrow> None | x # _ \<Rightarrow> Some x)"

definition list_last :: "'a list \<Rightarrow> 'a option" where
  "list_last xs = (if xs = [] then None else Some (last xs))"

fun next_of :: "'a \<Rightarrow> 'a list \<Rightarrow> 'a option" where
  "next_of x [] = None"
| "next_of x (y # ys) = (if x = y then list_first ys else next_of x ys)"

fun prev_of :: "'a \<Rightarrow> 'a list \<Rightarrow> 'a option" where
  "prev_of x [] = None"
| "prev_of x [y] = None"
| "prev_of x (y # z # zs) = (if x = z then Some y else prev_of x (z # zs))"

fun insert_before :: "'a \<Rightarrow> 'a \<Rightarrow> 'a list \<Rightarrow> 'a list" where
  "insert_before ref x [] = []"
| "insert_before ref x (y # ys) =
     (if y = ref then x # y # ys else y # insert_before ref x ys)"

fun insert_after :: "'a \<Rightarrow> 'a \<Rightarrow> 'a list \<Rightarrow> 'a list" where
  "insert_after ref x [] = []"
| "insert_after ref x (y # ys) =
     (if y = ref then y # x # ys else y # insert_after ref x ys)"

text \<open>
  The same operations where the code relies on an element being in the queue: unlinking an
  element that is not there, or linking next to one, is undefined behaviour.
\<close>

definition unlink :: "'a \<Rightarrow> 'a list \<Rightarrow> 'a list option" where
  "unlink x xs = (if x \<in> set xs then Some (remove1 x xs) else None)"

definition link_before :: "'a \<Rightarrow> 'a \<Rightarrow> 'a list \<Rightarrow> 'a list option" where
  "link_before r x xs = (if r \<in> set xs then Some (insert_before r x xs) else None)"

definition link_after :: "'a \<Rightarrow> 'a \<Rightarrow> 'a list \<Rightarrow> 'a list option" where
  "link_after r x xs = (if r \<in> set xs then Some (insert_after r x xs) else None)"

definition replace_elem :: "'a \<Rightarrow> 'a \<Rightarrow> 'a list \<Rightarrow> 'a list" where
  "replace_elem x y xs = map (\<lambda>z. if z = x then y else z) xs"

lemma list_first_simps [simp]:
  "list_first [] = None" "list_first (x # xs) = Some x"
  by (simp_all add: list_first_def)

lemma list_first_None [simp]: "list_first xs = None \<longleftrightarrow> xs = []"
  by (cases xs) simp_all

lemma list_first_in: "list_first xs = Some x \<Longrightarrow> x \<in> set xs"
  by (cases xs) auto

lemma list_last_simps [simp]:
  "list_last [] = None" "list_last (xs @ [x]) = Some x"
  by (simp_all add: list_last_def)

lemma list_last_None [simp]: "list_last xs = None \<longleftrightarrow> xs = []"
  by (simp add: list_last_def)

lemma list_last_in: "list_last xs = Some x \<Longrightarrow> x \<in> set xs"
  by (auto simp: list_last_def split: if_splits)

lemma next_of_append: "x \<notin> set xs \<Longrightarrow> next_of x (xs @ x # ys) = list_first ys"
  by (induction xs) auto

lemma prev_of_notin: "x \<notin> set xs \<Longrightarrow> prev_of x xs = None"
  by (induction x xs rule: prev_of.induct) auto

lemma prev_of_append:
  "x \<notin> set xs \<Longrightarrow> x \<notin> set ys \<Longrightarrow> prev_of x (xs @ x # ys) = list_last xs"
proof (induction xs)
  case Nil
  then show ?case by (cases ys) (auto simp: prev_of_notin)
next
  case (Cons a xs)
  then show ?case by (cases xs) (auto simp: list_last_def)
qed

lemma prev_of_first [simp]: "x \<notin> set ys \<Longrightarrow> prev_of x (x # ys) = None"
  using prev_of_append[of x "[]" ys] by simp

lemma next_of_in: "next_of x xs = Some y \<Longrightarrow> y \<in> set xs"
  by (induction xs) (auto split: if_splits dest: list_first_in)

lemma prev_of_in: "prev_of x xs = Some y \<Longrightarrow> y \<in> set xs"
  by (induction x xs rule: prev_of.induct) (auto split: if_splits)

lemma next_of_neq: "distinct xs \<Longrightarrow> next_of x xs = Some y \<Longrightarrow> y \<noteq> x"
  by (induction xs) (auto split: if_splits dest: list_first_in next_of_in)

lemma insert_before_append:
  "r \<notin> set xs \<Longrightarrow> insert_before r x (xs @ r # ys) = xs @ x # r # ys"
  by (induction xs) auto

lemma insert_after_append:
  "r \<notin> set xs \<Longrightarrow> insert_after r x (xs @ r # ys) = xs @ r # x # ys"
  by (induction xs) auto

lemma set_insert_before:
  "set (insert_before r x xs) = (if r \<in> set xs then insert x (set xs) else set xs)"
  by (induction xs) auto

lemma set_insert_after:
  "set (insert_after r x xs) = (if r \<in> set xs then insert x (set xs) else set xs)"
  by (induction xs) auto

lemma distinct_insert_before:
  "distinct xs \<Longrightarrow> x \<notin> set xs \<Longrightarrow> distinct (insert_before r x xs)"
  by (induction xs) (auto simp: set_insert_before split: if_splits)

lemma distinct_insert_after:
  "distinct xs \<Longrightarrow> x \<notin> set xs \<Longrightarrow> distinct (insert_after r x xs)"
  by (induction xs) (auto simp: set_insert_after split: if_splits)

lemma remove1_insert_before:
  "x \<notin> set xs \<Longrightarrow> remove1 x (insert_before r x xs) = xs"
  by (induction xs) auto

lemma remove1_insert_after:
  "x \<notin> set xs \<Longrightarrow> remove1 x (insert_after r x xs) = xs"
  by (induction xs) auto

lemma set_replace_elem:
  "set (replace_elem x y xs) = (if x \<in> set xs then insert y (set xs - {x}) else set xs)"
  by (auto simp: replace_elem_def)

lemma distinct_replace_elem:
  "distinct xs \<Longrightarrow> y \<notin> set xs \<Longrightarrow> distinct (replace_elem x y xs)"
  by (induction xs) (auto simp: replace_elem_def)

lemma length_replace_elem [simp]: "length (replace_elem x y xs) = length xs"
  by (simp add: replace_elem_def)

lemma find_SomeD: "List.find P xs = Some x \<Longrightarrow> x \<in> set xs \<and> P x"
  by (induction xs) (auto split: if_splits)

lemma length_filter_eq: "length (filter P xs) = length xs \<longleftrightarrow> (\<forall>x \<in> set xs. P x)"
proof (induction xs)
  case (Cons x xs)
  have "length (filter P xs) \<noteq> Suc (length xs)"
    by (metis Suc_n_not_le_n length_filter_le)
  with Cons show ?case by auto
qed simp

lemma split_list_distinct:
  assumes "x \<in> set xs" and "distinct xs"
  obtains ys zs where "xs = ys @ x # zs" "x \<notin> set ys" "x \<notin> set zs"
  using assms by (metis split_list distinct.simps(2) distinct_append not_distinct_conv_prefix
      split_list_first)

section \<open>C strings\<close>

text \<open>
  A C string is the list of its bytes without the terminating NUL; \<open>cstr\<close> adds the NULL
  pointer.  Case folding is that of the C locale, as in \<open>strcasecmp\<close>.
\<close>

definition char_code :: "char \<Rightarrow> nat" where
  "char_code c = of_char c"

definition to_lower :: "char \<Rightarrow> char" where
  "to_lower c = (if 65 \<le> char_code c \<and> char_code c \<le> 90 then char_of (char_code c + 32) else c)"

definition is_digit :: "char \<Rightarrow> bool" where
  "is_digit c \<longleftrightarrow> 48 \<le> char_code c \<and> char_code c \<le> 57"

definition digit_val :: "char \<Rightarrow> nat" where
  "digit_val c = char_code c - 48"

definition is_space :: "char \<Rightarrow> bool" where
  "is_space c \<longleftrightarrow> char_code c = 32 \<or> (9 \<le> char_code c \<and> char_code c \<le> 13)"

fun strcmp :: "string \<Rightarrow> string \<Rightarrow> int" where
  "strcmp [] [] = 0"
| "strcmp [] (y # ys) = - int (char_code y)"
| "strcmp (x # xs) [] = int (char_code x)"
| "strcmp (x # xs) (y # ys) =
     (if x = y then strcmp xs ys else int (char_code x) - int (char_code y))"

definition strcasecmp :: "string \<Rightarrow> string \<Rightarrow> int" where
  "strcasecmp xs ys = strcmp (map to_lower xs) (map to_lower ys)"

fun strcasecmp_nullable :: "cstr \<Rightarrow> cstr \<Rightarrow> int" where
  "strcasecmp_nullable None None = 0"
| "strcasecmp_nullable None (Some b) = -1"
| "strcasecmp_nullable (Some a) None = 1"
| "strcasecmp_nullable (Some a) (Some b) = strcasecmp a b"

definition nul_free :: "string \<Rightarrow> bool" where
  "nul_free xs \<longleftrightarrow> (\<forall>c \<in> set xs. char_code c \<noteq> 0)"

definition starts_with :: "string \<Rightarrow> string \<Rightarrow> bool" where
  "starts_with p s \<longleftrightarrow> take (length p) s = p"

lemma char_code_inj [simp]: "char_code x = char_code y \<longleftrightarrow> x = y"
  by (simp add: char_code_def)

lemma strcmp_refl [simp]: "strcmp xs xs = 0"
  by (induction xs) auto

lemma strcmp_eq_0:
  assumes "nul_free xs" and "nul_free ys"
  shows "strcmp xs ys = 0 \<longleftrightarrow> xs = ys"
  using assms
  by (induction xs ys rule: strcmp.induct) (auto simp: nul_free_def)

lemma strcmp_antisym: "strcmp ys xs = - strcmp xs ys"
  by (induction xs ys rule: strcmp.induct) auto

lemma strcasecmp_refl [simp]: "strcasecmp xs xs = 0"
  by (simp add: strcasecmp_def)

lemma strcasecmp_antisym: "strcasecmp ys xs = - strcasecmp xs ys"
  unfolding strcasecmp_def by (rule strcmp_antisym)

lemma starts_with_append [simp]: "starts_with p (p @ s)"
  by (simp add: starts_with_def)

lemma starts_withE:
  assumes "starts_with p s"
  obtains t where "s = p @ t"
  using assms by (metis append_take_drop_id starts_with_def)

end
