(* ===== verification/Con_Data.thy ===== *)
theory Con_Data
  imports Prelude
begin

text \<open>
  The data structures of include/data.h: enumerations as datatypes, structs as records with the
  fields of the source, 32-bit unsigned coordinates as words.  Pointers to containers are
  identifiers (\<open>con_id\<close>), with NULL as \<open>None\<close>; the three queues of a container are the lists of
  their elements; the links \<open>nodes\<close>, \<open>focused\<close>, \<open>floating_windows\<close> are implied by the lists.
  X11 handles (frames, pixmaps, colormaps) are not represented, the cached decoration
  parameters only by whether they are present.  The \<open>double\<close> fields are exact rationals, so
  statements about them are up to floating-point rounding.
\<close>

section \<open>Enumerations\<close>

datatype direction = D_LEFT | D_RIGHT | D_UP | D_DOWN
datatype orientation = NO_ORIENTATION | HORIZ | VERT
datatype position = BEFORE | AFTER
datatype border_style = BS_NONE | BS_PIXEL | BS_NORMAL
datatype kill_window = DONT_KILL_WINDOW | KILL_WINDOW | KILL_CLIENT
datatype layout = L_DEFAULT | L_STACKED | L_TABBED | L_DOCKAREA | L_OUTPUT | L_SPLITV | L_SPLITH
datatype smart_gaps = SMART_GAPS_OFF | SMART_GAPS_ON | SMART_GAPS_INVERSE_OUTER
datatype hide_edge_borders =
  HEBM_NONE | HEBM_VERTICAL | HEBM_HORIZONTAL | HEBM_BOTH | HEBM_SMART | HEBM_SMART_NO_GAPS
datatype mark_mode = MM_REPLACE | MM_ADD
datatype focus_wrapping = FOCUS_WRAPPING_OFF | FOCUS_WRAPPING_ON | FOCUS_WRAPPING_FORCE
  | FOCUS_WRAPPING_WORKSPACE
datatype popup_during_fullscreen = PDF_SMART | PDF_LEAVE_FULLSCREEN | PDF_IGNORE | PDF_ALL
datatype fullscreen_mode = CF_NONE | CF_OUTPUT | CF_GLOBAL
datatype con_type = CT_ROOT | CT_OUTPUT | CT_CON | CT_FLOATING_CON | CT_WORKSPACE | CT_DOCKAREA
datatype floating = FLOATING_AUTO_OFF | FLOATING_USER_OFF | FLOATING_AUTO_ON | FLOATING_USER_ON
datatype scratchpad = SCRATCHPAD_NONE | SCRATCHPAD_FRESH | SCRATCHPAD_CHANGED
datatype focus_on_window_activation = FOWA_SMART | FOWA_URGENT | FOWA_FOCUS | FOWA_NONE
datatype dock = W_NODOCK | W_DOCK_TOP | W_DOCK_BOTTOM

text \<open>The C enumerations are compared by value in a few places; their numeric values.\<close>

fun border_style_value :: "border_style \<Rightarrow> nat" where
  "border_style_value BS_NONE = 0"
| "border_style_value BS_PIXEL = 1"
| "border_style_value BS_NORMAL = 2"

fun floating_on :: "floating \<Rightarrow> bool" where
  "floating_on FLOATING_AUTO_OFF = False"
| "floating_on FLOATING_USER_OFF = False"
| "floating_on FLOATING_AUTO_ON = True"
| "floating_on FLOATING_USER_ON = True"

instantiation border_style :: linorder
begin

definition less_eq_border_style :: "border_style \<Rightarrow> border_style \<Rightarrow> bool" where
  "less_eq_border_style a b \<longleftrightarrow> border_style_value a \<le> border_style_value b"

definition less_border_style :: "border_style \<Rightarrow> border_style \<Rightarrow> bool" where
  "less_border_style a b \<longleftrightarrow> border_style_value a < border_style_value b"

lemma border_style_value_inj: "border_style_value a = border_style_value b \<longleftrightarrow> a = b"
  by (cases a; cases b) simp_all

instance
proof
  fix x y :: border_style
  assume "x \<le> y" and "y \<le> x"
  then show "x = y"
    unfolding less_eq_border_style_def using border_style_value_inj by fastforce
qed (auto simp: less_eq_border_style_def less_border_style_def)

end

section \<open>Geometry and gaps\<close>

record rect =
  rx :: u32
  ry :: u32
  rwidth :: u32
  rheight :: u32

definition mk_rect :: "u32 \<Rightarrow> u32 \<Rightarrow> u32 \<Rightarrow> u32 \<Rightarrow> rect" where
  "mk_rect x y w h = \<lparr>rx = x, ry = y, rwidth = w, rheight = h\<rparr>"

lemma mk_rect_sel [simp]:
  "rx (mk_rect x y w h) = x" "ry (mk_rect x y w h) = y"
  "rwidth (mk_rect x y w h) = w" "rheight (mk_rect x y w h) = h"
  by (simp_all add: mk_rect_def)

lemma rect_eqI:
  "rx a = rx b \<Longrightarrow> ry a = ry b \<Longrightarrow> rwidth a = rwidth b \<Longrightarrow> rheight a = rheight b \<Longrightarrow> (a :: rect) = b"
  by simp

record gaps =
  g_inner :: int
  g_top :: int
  g_right :: int
  g_bottom :: int
  g_left :: int

section \<open>Windows and containers\<close>

type_synonym con_id = nat
type_synonym window_id = nat

record reservedpx =
  res_left :: u32
  res_right :: u32
  res_top :: u32
  res_bottom :: u32

record window =
  win_id :: window_id
  leader :: window_id
  transient_for :: window_id
  win_class :: cstr
  win_instance :: cstr
  win_name :: cstr
  win_role :: cstr
  machine :: cstr
  window_type :: nat
  win_dock :: dock
  urgent_time :: "nat \<times> nat"
  base_width :: int
  base_height :: int
  width_increment :: int
  height_increment :: int
  min_width :: int
  min_height :: int
  max_width :: int
  max_height :: int
  min_aspect_ratio :: rat
  max_aspect_ratio :: rat
  name_x_changed :: bool
  needs_take_focus :: bool
  doesnt_accept_focus :: bool
  ran_assignments :: "nat list"
  uses_net_wm_name :: bool
  wm_desktop :: u32
  reserved :: reservedpx
  win_depth :: nat
  win_icon :: "(u32 \<times> u32 \<times> u32 list) option"
  shaped :: bool
  managed_since :: nat
  swallowed :: bool

text \<open>
  A criteria match.  A compiled regular expression is represented by its pattern; matching it is
  left to the PCRE2 library, which the definitions that need it take as an argument.
\<close>

datatype match_urgent = U_DONTCHECK | U_LATEST | U_OLDEST
datatype match_dock = M_DONTCHECK | M_NODOCK | M_DOCK_ANY | M_DOCK_TOP | M_DOCK_BOTTOM
datatype window_mode = WM_ANY | WM_TILING_AUTO | WM_TILING_USER | WM_TILING | WM_FLOATING_AUTO
  | WM_FLOATING_USER | WM_FLOATING
datatype insert_where = M_HERE | M_ASSIGN_WS | M_BELOW

record match =
  m_error :: cstr
  m_title :: cstr
  m_application :: cstr
  m_class :: cstr
  m_instance :: cstr
  m_mark :: cstr
  m_window_role :: cstr
  m_workspace :: cstr
  m_machine :: cstr
  m_window_type :: nat
  m_urgent :: match_urgent
  m_dock :: match_dock
  m_id :: window_id
  m_window_mode :: window_mode
  m_con_id :: "con_id option"
  match_all_windows :: bool
  insert_where :: insert_where
  restart_mode :: bool

record con =
  mapped :: bool
  urgent :: bool
  con_type :: con_type
  ws_num :: int
  con_gaps :: gaps
  parent :: "con_id option"
  con_rect :: rect
  window_rect :: rect
  deco_rect :: rect
  con_geometry :: rect
  con_name :: cstr
  title_format :: cstr
  sticky_group :: cstr
  marks :: "string list"
  mark_changed :: bool
  percent :: rat
  border_width :: int
  current_border_width :: int
  con_window :: "window option"
  urgency_timer :: bool
  deco_params :: bool
  floating_head :: "con_id list"
  nodes_head :: "con_id list"
  focus_head :: "con_id list"
  swallow_head :: "match list"
  fullscreen_mode :: fullscreen_mode
  sticky :: bool
  layout :: layout
  last_split_layout :: layout
  workspace_layout :: layout
  con_border_style_field :: border_style
  max_user_border_style :: border_style
  con_floating :: floating
  scratchpad_state :: scratchpad
  window_icon_padding :: int
  ignore_unmap :: int
  con_depth :: "nat option"

section \<open>Configuration\<close>

record config =
  default_layout :: layout
  default_orientation :: orientation
  default_border :: border_style
  default_floating_border :: border_style
  default_border_width :: int
  default_floating_border_width :: int
  cfg_hide_edge_borders :: hide_edge_borders
  cfg_focus_wrapping :: focus_wrapping
  cfg_gaps :: gaps
  cfg_smart_gaps :: smart_gaps
  workspace_urgency_timer :: rat
  font_height :: int
  cfg_popup_during_fullscreen :: popup_during_fullscreen
  floating_maximum_width :: int
  floating_maximum_height :: int
  floating_minimum_width :: int
  floating_minimum_height :: int
  workspace_auto_back_and_forth :: bool
  disable_focus_follows_mouse :: bool
  focus_on_window_activation :: focus_on_window_activation

end
