(* ===== verification/Con_Heap.thy ===== *)
theory Con_Heap
  imports Con_Data
begin

text \<open>
  The window manager's state: the containers (a store from identifiers to records), the global
  variables that point into it (\<open>all_cons\<close>, \<open>croot\<close>, \<open>focused\<close>), the name of the workspace shown
  before, the configuration and the trace of messages sent to IPC clients and the X server.  The theory defines the tree invariant and
  proves the generic facts about parent chains and about rewriting one container's record.
\<close>

section \<open>State\<close>

datatype effect =
    Ipc_Window string con_id
  | Ipc_Workspace string con_id "con_id option"
  | X_Con_Init con_id
  | X_Add_Fullscreen_Atom window_id
  | X_Remove_Fullscreen_Atom window_id
  | X_Set_Name con_id string
  | X_Raise_Con con_id
  | X_Window_Kill window_id kill_window
  | X_Window_Withdraw window_id
  | X_Con_Kill con_id
  | X_Push_Changes
  | X_Set_Warp_To "rect option"
  | X_Move_Win con_id con_id
  | X_Reparent_Child con_id con_id
  | Ewmh_Update_Current_Desktop
  | Ewmh_Update_Wm_Desktop
  | Startup_Sequence_Delete window_id
  | X_Floating_Hint window_id bool
  | X_Push_Node con_id
  | Ipc_Mode string
  | Ipc_Tick string bool
  | Ipc_Shutdown string
  | Exec string bool
  | Reload_Config
  | Ewmh_Update_Desktop_Properties
  | Ewmh_Update_Sticky window_id bool
  | Ewmh_Update_Visible_Name window_id cstr
  | Ipc_Barconfig_Update string
  | Startup_Rename_Workspace string string
  | Switch_Mode string
  | Restart
  | Update_Shmlog int
  | X_Con_Reframe con_id
  | X_Reinit con_id
  | X_Reparent_Window window_id con_id
  | X_Destroy_Frame con_id
  | X_Set_Wm_Desktop window_id "u32 option"
  | X_Set_Focused_Id "window_id option"
  | X_Fake_Configure_Notify con_id
  | X_Configure_Window window_id "(string \<times> int) list"
  | X_Delete_State window_id
  | X_Set_Frame_Extents window_id "int list"
  | X_Set_Wm_State_Normal window_id
  | X_Copy_Frame con_id
  | X_Set_Shape con_id bool bool
  | X_Regrab_Keys bool
  | X_Allow_Events bool
  | Sync_Respond window_id u32
  | Drag_Floating con_id
  | Resize_Floating con_id
  | Ipc_Output string
  | Ipc_Binding string
  | Exit

record i3 =
  heap :: "con_id \<Rightarrow> con"
  all_cons :: "con_id list"
  next_id :: con_id
  croot :: con_id
  focused :: "con_id option"
  cfg :: config
  clock :: "nat \<times> nat"
  previous_workspace :: cstr
  effects :: "effect list"

definition upd :: "con_id \<Rightarrow> (con \<Rightarrow> con) \<Rightarrow> i3 \<Rightarrow> i3" where
  "upd c f s = s\<lparr>heap := (heap s)(c := f (heap s c))\<rparr>"

definition emit :: "effect \<Rightarrow> i3 \<Rightarrow> i3" where
  "emit e s = s\<lparr>effects := effects s @ [e]\<rparr>"

lemma upd_simps [simp]:
  "heap (upd c f s) d = (if d = c then f (heap s c) else heap s d)"
  "all_cons (upd c f s) = all_cons s" "next_id (upd c f s) = next_id s"
  "croot (upd c f s) = croot s" "focused (upd c f s) = focused s"
  "cfg (upd c f s) = cfg s" "clock (upd c f s) = clock s"
  "previous_workspace (upd c f s) = previous_workspace s" "effects (upd c f s) = effects s"
  by (simp_all add: upd_def)

lemma emit_simps [simp]:
  "heap (emit e s) = heap s" "all_cons (emit e s) = all_cons s" "next_id (emit e s) = next_id s"
  "croot (emit e s) = croot s" "focused (emit e s) = focused s" "cfg (emit e s) = cfg s"
  "clock (emit e s) = clock s" "previous_workspace (emit e s) = previous_workspace s" "effects (emit e s) = effects s @ [e]"
  by (simp_all add: emit_def)

definition live :: "i3 \<Rightarrow> con_id set" where
  "live s = set (all_cons s)"

definition children :: "i3 \<Rightarrow> con_id \<Rightarrow> con_id set" where
  "children s c = set (nodes_head (heap s c)) \<union> set (floating_head (heap s c))"

lemma live_upd [simp]: "live (upd c f s) = live s" by (simp add: live_def)
lemma live_emit [simp]: "live (emit e s) = live s" by (simp add: live_def)
lemma children_emit [simp]: "children (emit e s) = children s"
  by (simp add: children_def fun_eq_iff)

section \<open>The tree invariant\<close>

text \<open>
  \<open>child_rel s\<close> holds the pairs of a container and the container whose queues list it.  The
  invariant \<open>wf_tree D s\<close> says that the live containers form a forest in which the queues, the
  parent pointers and the focus stacks agree, except that the containers in \<open>D\<close> are currently
  detached (between \<open>con_detach\<close> and \<open>con_attach\<close>): no queue lists them and their parent pointer
  is not constrained.
\<close>

definition child_rel :: "i3 \<Rightarrow> (con_id \<times> con_id) set" where
  "child_rel s = {(c, p). p \<in> live s \<and> c \<in> children s p}"

definition wf_con :: "i3 \<Rightarrow> con_id \<Rightarrow> bool" where
  "wf_con s p \<longleftrightarrow>
     distinct (nodes_head (heap s p)) \<and> distinct (floating_head (heap s p)) \<and>
     distinct (focus_head (heap s p)) \<and>
     set (focus_head (heap s p)) = children s p \<and>
     (\<forall>c \<in> children s p. c \<in> live s \<and> parent (heap s c) = Some p) \<and>
     (\<forall>c \<in> set (nodes_head (heap s p)). con_type (heap s c) \<noteq> CT_FLOATING_CON) \<and>
     (\<forall>c \<in> set (floating_head (heap s p)). con_type (heap s c) = CT_FLOATING_CON)"

definition wf_tree :: "con_id set \<Rightarrow> i3 \<Rightarrow> bool" where
  "wf_tree D s \<longleftrightarrow>
     distinct (all_cons s) \<and> (\<forall>c \<in> live s. c < next_id s) \<and>
     croot s \<in> live s \<and> parent (heap s (croot s)) = None \<and> croot s \<notin> D \<and> D \<subseteq> live s \<and>
     (\<forall>p \<in> live s. wf_con s p) \<and>
     (\<forall>c \<in> live s - D - {croot s}. \<exists>p \<in> live s. parent (heap s c) = Some p \<and> c \<in> children s p) \<and>
     (\<forall>c \<in> D. \<forall>p \<in> live s. c \<notin> children s p) \<and>
     acyclic (child_rel s)"

text \<open>The invariant without exceptions, and with a focused container.\<close>

definition wf_i3 :: "i3 \<Rightarrow> bool" where
  "wf_i3 s \<longleftrightarrow> wf_tree {} s \<and> (\<exists>f \<in> live s. focused s = Some f)"

lemma wf_treeD [wf_dests]:
  assumes "wf_tree D s"
  shows "distinct (all_cons s)" "croot s \<in> live s" "parent (heap s (croot s)) = None"
    "croot s \<notin> D" "D \<subseteq> live s" "acyclic (child_rel s)"
    "p \<in> live s \<Longrightarrow> wf_con s p"
    "c \<in> live s \<Longrightarrow> c \<notin> D \<Longrightarrow> c \<noteq> croot s \<Longrightarrow>
       \<exists>p \<in> live s. parent (heap s c) = Some p \<and> c \<in> children s p"
    "c \<in> D \<Longrightarrow> p \<in> live s \<Longrightarrow> c \<notin> children s p"
    "c \<in> live s \<Longrightarrow> c < next_id s"
  using assms by (auto simp: wf_tree_def)

lemma wf_conD:
  assumes "wf_con s p"
  shows "distinct (nodes_head (heap s p))" "distinct (floating_head (heap s p))"
    "distinct (focus_head (heap s p))" "set (focus_head (heap s p)) = children s p"
    "c \<in> children s p \<Longrightarrow> c \<in> live s" "c \<in> children s p \<Longrightarrow> parent (heap s c) = Some p"
    "c \<in> set (nodes_head (heap s p)) \<Longrightarrow> con_type (heap s c) \<noteq> CT_FLOATING_CON"
    "c \<in> set (floating_head (heap s p)) \<Longrightarrow> con_type (heap s c) = CT_FLOATING_CON"
  using assms by (auto simp: wf_con_def)

lemma finite_live [simp]: "finite (live s)" by (simp add: live_def)

lemma card_live: "wf_tree D s \<Longrightarrow> card (live s) = length (all_cons s)"
  by (simp add: live_def wf_treeD(1) distinct_card)

text \<open>Who the parent of a container is, read off the queues.\<close>

lemma child_parent:
  assumes "wf_tree D s" and "p \<in> live s" and "c \<in> children s p"
  shows "parent (heap s c) = Some p" and "c \<in> live s" and "c \<notin> D" and "c \<noteq> croot s"
proof -
  from wf_treeD(7)[OF assms(1,2)] assms(3) show "parent (heap s c) = Some p" "c \<in> live s"
    by (auto dest: wf_conD)
  then show "c \<notin> D" "c \<noteq> croot s"
    using assms wf_treeD(3,9)[OF assms(1)] by force+
qed

lemma parent_linked:
  assumes "wf_tree D s" and "c \<in> live s" and "c \<notin> D" and "parent (heap s c) = Some p"
  shows "p \<in> live s" and "c \<in> children s p"
proof -
  have "c \<noteq> croot s" using assms(4) wf_treeD(3)[OF assms(1)] by auto
  with wf_treeD(8)[OF assms(1-3)] assms(4) show "p \<in> live s" "c \<in> children s p" by auto
qed

lemma parent_exists:
  assumes "wf_tree D s" and "c \<in> live s" and "c \<notin> D" and "c \<noteq> croot s"
  obtains p where "parent (heap s c) = Some p" "p \<in> live s" "c \<in> children s p"
  using wf_treeD(8)[OF assms(1-4)] by blast

lemma child_rel_live:
  assumes "wf_tree D s" and "(c, p) \<in> child_rel s"
  shows "c \<in> live s" and "p \<in> live s" and "parent (heap s c) = Some p"
  using assms child_parent[OF assms(1), of p c] by (auto simp: child_rel_def)

lemma finite_child_rel: "wf_tree D s \<Longrightarrow> finite (child_rel s)"
  by (rule finite_subset[of _ "live s \<times> live s"]) (auto dest: child_rel_live)

lemma wf_child_rel: "wf_tree D s \<Longrightarrow> wf (child_rel s)"
  by (intro finite_acyclic_wf finite_child_rel wf_treeD(6))

lemma wf_child_rel_converse: "wf_tree D s \<Longrightarrow> wf ((child_rel s)\<inverse>)"
  by (intro finite_acyclic_wf_converse finite_child_rel wf_treeD(6))

section \<open>Parent chains and their length\<close>

text \<open>
  The chain from a container to the top of its tree.  Loops that ascend by the parent pointer
  are run with \<open>up_fuel s\<close> steps; the chain of a live container is never longer.
\<close>

inductive up_chain :: "i3 \<Rightarrow> con_id \<Rightarrow> con_id list \<Rightarrow> bool" for s where
  top: "parent (heap s c) = None \<Longrightarrow> up_chain s c [c]"
| up: "parent (heap s c) = Some p \<Longrightarrow> up_chain s p xs \<Longrightarrow> up_chain s c (c # xs)"

inductive_cases up_chainE: "up_chain s c xs"

definition up_fuel :: "i3 \<Rightarrow> nat" where
  "up_fuel s = Suc (length (all_cons s))"

lemma up_fuel_upd [simp]: "up_fuel (upd c f s) = up_fuel s" by (simp add: up_fuel_def)
lemma up_fuel_emit [simp]: "up_fuel (emit e s) = up_fuel s" by (simp add: up_fuel_def)

lemma up_chain_unique:
  assumes "up_chain s c xs" and "up_chain s c ys"
  shows "xs = ys"
  using assms
proof (induction arbitrary: ys rule: up_chain.induct)
  case (top c)
  from top.prems top.hyps show ?case by cases simp_all
next
  case (up c p xs)
  from up.prems show ?case
  proof cases
    case (up q zs)
    with \<open>parent (heap s c) = Some p\<close> have "up_chain s p zs" by simp
    from \<open>ys = c # zs\<close> \<open>\<And>ys. up_chain s p ys \<Longrightarrow> xs = ys\<close>[OF this] show ?thesis by simp
  qed (use up.hyps in simp)
qed

lemma up_chain_hd: "up_chain s c xs \<Longrightarrow> \<exists>ys. xs = c # ys"
  by (erule up_chain.cases) simp_all

lemma up_chain_suffix:
  "up_chain s c xs \<Longrightarrow> x \<in> set xs \<Longrightarrow> \<exists>ys zs. xs = ys @ zs \<and> up_chain s x zs"
proof (induction rule: up_chain.induct)
  case (top c)
  then show ?case using up_chain.top[of s c] by force
next
  case (up c p xs)
  show ?case
  proof (cases "x = c")
    case True
    have "up_chain s c (c # xs)" by (rule up_chain.up[OF up.hyps])
    with True show ?thesis by force
  next
    case False
    with up obtain ys zs where "xs = ys @ zs" "up_chain s x zs" by auto
    then show ?thesis by (metis append_Cons)
  qed
qed

lemma up_chain_distinct: "up_chain s c xs \<Longrightarrow> distinct xs"
proof (induction rule: up_chain.induct)
  case (up c p xs)
  have "c \<notin> set xs"
  proof
    assume "c \<in> set xs"
    then obtain ys zs where "xs = ys @ zs" "up_chain s c zs"
      using up_chain_suffix[OF up.hyps(2)] by blast
    moreover have "up_chain s c (c # xs)" by (rule up_chain.up[OF up.hyps])
    ultimately have "length zs = Suc (length xs)" "length zs \<le> length xs"
      by (auto dest: up_chain_unique)
    then show False by simp
  qed
  with up show ?case by simp
qed simp

lemma up_chain_exists:
  assumes "wf_tree {} s" and "c \<in> live s"
  shows "\<exists>xs. up_chain s c xs \<and> set xs \<subseteq> live s"
  using assms(2)
proof (induction c rule: wf_induct_rule[OF wf_child_rel_converse[OF assms(1)]])
  case (1 c)
  show ?case
  proof (cases "c = croot s")
    case True
    with assms 1 show ?thesis
      by (auto intro!: exI[of _ "[c]"] up_chain.top simp: wf_treeD(3))
  next
    case False
    then obtain p where p: "parent (heap s c) = Some p" "p \<in> live s" "c \<in> children s p"
      using parent_exists[OF assms(1) "1.prems"] by blast
    then have "(p, c) \<in> (child_rel s)\<inverse>" by (simp add: child_rel_def)
    from "1.IH"[OF this p(2)] obtain xs where "up_chain s p xs" "set xs \<subseteq> live s" by blast
    with p "1.prems" show ?thesis by (auto intro!: exI[of _ "c # xs"] up_chain.up)
  qed
qed

lemma up_chain_length:
  assumes "wf_tree {} s" and "c \<in> live s" and "up_chain s c xs"
  shows "length xs < up_fuel s"
proof -
  have "set xs \<subseteq> live s"
    using up_chain_exists[OF assms(1,2)] up_chain_unique[OF assms(3)] by blast
  then have "card (set xs) \<le> card (live s)" by (simp add: card_mono)
  then show ?thesis
    using distinct_card[OF up_chain_distinct[OF assms(3)]] card_live[OF assms(1)]
    by (simp add: up_fuel_def)
qed

text \<open>The top of every chain is the root container.\<close>

lemma up_chain_last:
  assumes "wf_tree {} s" and "up_chain s c xs" and "c \<in> live s"
  shows "last xs = croot s"
  using assms(2,3)
proof (induction rule: up_chain.induct)
  case (top c)
  show ?case
  proof (rule ccontr)
    assume "last [c] \<noteq> croot s"
    with parent_exists[OF assms(1) top.prems] top.hyps show False by auto
  qed
next
  case (up c p xs)
  then have "p \<in> live s" using parent_linked(1)[OF assms(1)] by blast
  with up show ?case by (auto dest: up_chain_hd)
qed

text \<open>Strict ancestors, as the transitive closure of the parent pointers.\<close>

definition ancestor :: "i3 \<Rightarrow> con_id \<Rightarrow> con_id \<Rightarrow> bool" where
  "ancestor s c p \<longleftrightarrow> (\<lambda>x y. parent (heap s x) = Some y)\<^sup>+\<^sup>+ c p"

lemma ancestor_step: "parent (heap s c) = Some p \<Longrightarrow> ancestor s c p"
  by (auto simp: ancestor_def)

lemma ancestor_unfold:
  "ancestor s c q \<longleftrightarrow>
     (\<exists>p. parent (heap s c) = Some p \<and> (p = q \<or> ancestor s p q))"
  unfolding ancestor_def by (auto elim: converse_tranclpE intro: tranclp_into_tranclp2)

end
