(* ===== verification/Con_Query.thy ===== *)
theory Con_Query
  imports Con_Heap
begin

text \<open>
  The questions src/con.c asks of a container without changing anything, first those answered
  from its own record and its parent's, then those that ascend the tree.  Each ascending loop is
  run with \<open>up_fuel\<close> steps and its answer is characterised on the chain of ancestors, which also
  shows that it terminates in a well-formed tree.
\<close>

section \<open>Local queries\<close>

definition con_is_leaf :: "i3 \<Rightarrow> con_id \<Rightarrow> bool" where
  "con_is_leaf s c \<longleftrightarrow> nodes_head (heap s c) = []"

definition con_has_children :: "i3 \<Rightarrow> con_id \<Rightarrow> bool" where
  "con_has_children s c \<longleftrightarrow> \<not> con_is_leaf s c \<or> floating_head (heap s c) \<noteq> []"

definition con_is_split :: "i3 \<Rightarrow> con_id \<Rightarrow> bool" where
  "con_is_split s c \<longleftrightarrow>
     (if con_is_leaf s c then False
      else case layout (heap s c) of L_DOCKAREA \<Rightarrow> False | L_OUTPUT \<Rightarrow> False | _ \<Rightarrow> True)"

definition con_accepts_window :: "i3 \<Rightarrow> con_id \<Rightarrow> bool" where
  "con_accepts_window s c \<longleftrightarrow>
     (if con_type (heap s c) = CT_WORKSPACE then False
      else if con_is_split s c then False
      else con_window (heap s c) = None)"

definition con_num_children :: "i3 \<Rightarrow> con_id \<Rightarrow> nat" where
  "con_num_children s c = length (nodes_head (heap s c))"

definition con_is_floating :: "i3 \<Rightarrow> con_id \<Rightarrow> bool" where
  "con_is_floating s c \<longleftrightarrow> floating_on (con_floating (heap s c))"

text \<open>The name is dereferenced: a container without a name makes the function crash.\<close>

definition con_is_internal :: "i3 \<Rightarrow> con_id \<Rightarrow> bool option" where
  "con_is_internal s c = map_option (starts_with ''__'') (con_name (heap s c))"

text \<open>Layouts without an orientation fail an assertion.\<close>

fun layout_orientation :: "layout \<Rightarrow> orientation option" where
  "layout_orientation L_SPLITV = Some VERT"
| "layout_orientation L_STACKED = Some VERT"
| "layout_orientation L_SPLITH = Some HORIZ"
| "layout_orientation L_TABBED = Some HORIZ"
| "layout_orientation L_DEFAULT = None"
| "layout_orientation L_DOCKAREA = None"
| "layout_orientation L_OUTPUT = None"

definition con_orientation :: "i3 \<Rightarrow> con_id \<Rightarrow> orientation option" where
  "con_orientation s c = layout_orientation (layout (heap s c))"

definition con_rect_size_in_orientation :: "i3 \<Rightarrow> con_id \<Rightarrow> u32 option" where
  "con_rect_size_in_orientation s c =
     map_option (\<lambda>o'. if o' = HORIZ then rwidth (con_rect (heap s c))
                      else rheight (con_rect (heap s c))) (con_orientation s c)"

definition stacked_or_tabbed :: "layout \<Rightarrow> bool" where
  "stacked_or_tabbed l \<longleftrightarrow> l = L_STACKED \<or> l = L_TABBED"

definition con_border_style :: "i3 \<Rightarrow> con_id \<Rightarrow> border_style" where
  "con_border_style s c =
     (let n = heap s c in
      if fullscreen_mode n = CF_OUTPUT \<or> fullscreen_mode n = CF_GLOBAL then BS_NONE
      else case parent n of
        None \<Rightarrow> con_border_style_field n
      | Some p \<Rightarrow>
          if layout (heap s p) = L_STACKED then
            (if con_num_children s p = 1 then con_border_style_field n else BS_NORMAL)
          else if layout (heap s p) = L_TABBED \<and> con_border_style_field n \<noteq> BS_NORMAL then
            (if con_num_children s p = 1 then con_border_style_field n else BS_NORMAL)
          else if con_type (heap s p) = CT_DOCKAREA then BS_NONE
          else con_border_style_field n)"

definition con_draw_decoration_into_frame :: "i3 \<Rightarrow> con_id \<Rightarrow> bool" where
  "con_draw_decoration_into_frame s c \<longleftrightarrow>
     con_is_leaf s c \<and> con_border_style s c = BS_NORMAL \<and>
     (case parent (heap s c) of None \<Rightarrow> True
      | Some p \<Rightarrow> layout (heap s p) \<noteq> L_TABBED \<and> layout (heap s p) \<noteq> L_STACKED)"

lemma con_is_split_not_leaf: "con_is_split s c \<Longrightarrow> \<not> con_is_leaf s c"
  by (auto simp: con_is_split_def split: if_splits)

lemma con_num_children_0: "con_num_children s c = 0 \<longleftrightarrow> con_is_leaf s c"
  by (simp add: con_num_children_def con_is_leaf_def)

text \<open>
  A lone tab keeps its own border; with siblings, every window of a stack or tab group draws a
  title bar, and a fullscreen window never has a border.
\<close>

lemma con_border_style_fullscreen:
  "fullscreen_mode (heap s c) \<noteq> CF_NONE \<Longrightarrow> con_border_style s c = BS_NONE"
  by (cases "fullscreen_mode (heap s c)") (auto simp: con_border_style_def Let_def)

lemma con_border_style_stacked:
  assumes "fullscreen_mode (heap s c) = CF_NONE" and "parent (heap s c) = Some p"
    and "stacked_or_tabbed (layout (heap s p))" and "con_num_children s p \<noteq> 1"
    and "con_type (heap s p) \<noteq> CT_DOCKAREA"
  shows "con_border_style s c = BS_NORMAL"
  using assms
  by (cases "con_border_style_field (heap s c)")
    (auto simp: con_border_style_def stacked_or_tabbed_def Let_def)

section \<open>Ascending loops\<close>

text \<open>The loop shared by several functions: ascend until a container satisfies \<open>stop\<close>.\<close>

fun climb :: "nat \<Rightarrow> i3 \<Rightarrow> (con \<Rightarrow> bool) \<Rightarrow> con_id option \<Rightarrow> con_id option option" where
  "climb n s stop None = Some None"
| "climb 0 s stop (Some c) = None"
| "climb (Suc n) s stop (Some c) =
     (if stop (heap s c) then Some (Some c) else climb n s stop (parent (heap s c)))"

lemma climb_chain:
  "up_chain s c xs \<Longrightarrow> length xs \<le> n \<Longrightarrow>
   climb n s stop (Some c) = Some (List.find (\<lambda>x. stop (heap s x)) xs)"
proof (induction arbitrary: n rule: up_chain.induct)
  case (top c)
  then show ?case by (cases n) auto
next
  case (up c p xs)
  then show ?case by (cases n) auto
qed

definition con_get_workspace :: "i3 \<Rightarrow> con_id \<Rightarrow> con_id option option" where
  "con_get_workspace s c = climb (up_fuel s) s (\<lambda>n. con_type n = CT_WORKSPACE) (Some c)"

text \<open>The result is asserted not to be NULL.\<close>

definition con_get_output :: "i3 \<Rightarrow> con_id \<Rightarrow> con_id option" where
  "con_get_output s c =
     Option.bind (climb (up_fuel s) s (\<lambda>n. con_type n = CT_OUTPUT) (Some c)) (\<lambda>r. r)"

definition con_has_managed_window :: "i3 \<Rightarrow> con_id option \<Rightarrow> bool option" where
  "con_has_managed_window s c =
     (case c of None \<Rightarrow> Some False
      | Some c \<Rightarrow>
         (case con_window (heap s c) of None \<Rightarrow> Some False
          | Some w \<Rightarrow> if win_id w = 0 then Some False
                      else map_option (\<lambda>r. r \<noteq> None) (con_get_workspace s c)))"

fun has_parent_loop :: "nat \<Rightarrow> i3 \<Rightarrow> con_id \<Rightarrow> con_id \<Rightarrow> bool option" where
  "has_parent_loop 0 s c p = None"
| "has_parent_loop (Suc n) s c p =
     (case parent (heap s c) of
        None \<Rightarrow> Some False
      | Some q \<Rightarrow> if q = p then Some True else has_parent_loop n s q p)"

definition con_has_parent :: "i3 \<Rightarrow> con_id \<Rightarrow> con_id \<Rightarrow> bool option" where
  "con_has_parent s c p = has_parent_loop (up_fuel s) s c p"

fun docked_loop :: "nat \<Rightarrow> i3 \<Rightarrow> con_id \<Rightarrow> bool option" where
  "docked_loop 0 s c = None"
| "docked_loop (Suc n) s c =
     (case parent (heap s c) of
        None \<Rightarrow> Some False
      | Some p \<Rightarrow> if con_type (heap s p) = CT_DOCKAREA then Some True else docked_loop n s p)"

definition con_is_docked :: "i3 \<Rightarrow> con_id \<Rightarrow> bool option" where
  "con_is_docked s c = docked_loop (up_fuel s) s c"

fun inside_floating_loop :: "nat \<Rightarrow> i3 \<Rightarrow> con_id option \<Rightarrow> con_id option option" where
  "inside_floating_loop n s None = Some None"
| "inside_floating_loop 0 s (Some c) = None"
| "inside_floating_loop (Suc n) s (Some c) =
     (if con_type (heap s c) = CT_FLOATING_CON then Some (Some c)
      else if floating_on (con_floating (heap s c)) then Some (parent (heap s c))
      else if con_type (heap s c) = CT_WORKSPACE \<or> con_type (heap s c) = CT_OUTPUT then Some None
      else inside_floating_loop n s (parent (heap s c)))"

definition con_inside_floating :: "i3 \<Rightarrow> con_id \<Rightarrow> con_id option option" where
  "con_inside_floating s c = inside_floating_loop (up_fuel s) s (Some c)"

fun inside_focused_loop :: "nat \<Rightarrow> i3 \<Rightarrow> con_id \<Rightarrow> bool option" where
  "inside_focused_loop 0 s c = None"
| "inside_focused_loop (Suc n) s c =
     (if focused s = Some c then Some True
      else case parent (heap s c) of None \<Rightarrow> Some False | Some p \<Rightarrow> inside_focused_loop n s p)"

definition con_inside_focused :: "i3 \<Rightarrow> con_id \<Rightarrow> bool option" where
  "con_inside_focused s c = inside_focused_loop (up_fuel s) s c"

fun inside_stacked_loop :: "nat \<Rightarrow> i3 \<Rightarrow> con_id \<Rightarrow> bool option" where
  "inside_stacked_loop 0 s c = None"
| "inside_stacked_loop (Suc n) s c =
     (case parent (heap s c) of
        None \<Rightarrow> Some False
      | Some p \<Rightarrow> if stacked_or_tabbed (layout (heap s p)) then Some True
                  else inside_stacked_loop n s p)"

definition con_inside_stacked_or_tabbed :: "i3 \<Rightarrow> con_id \<Rightarrow> bool option" where
  "con_inside_stacked_or_tabbed s c = inside_stacked_loop (up_fuel s) s c"

text \<open>\<open>con_is_hidden\<close>: some container below the workspace is a tab that is not the focused one.\<close>

fun hidden_loop :: "nat \<Rightarrow> i3 \<Rightarrow> con_id option \<Rightarrow> bool option" where
  "hidden_loop n s None = Some False"
| "hidden_loop 0 s (Some c) = None"
| "hidden_loop (Suc n) s (Some c) =
     (if con_type (heap s c) = CT_WORKSPACE then Some False
      else case parent (heap s c) of
        None \<Rightarrow> hidden_loop n s None
      | Some p \<Rightarrow>
          if stacked_or_tabbed (layout (heap s p)) \<and> list_first (focus_head (heap s p)) \<noteq> Some c
          then Some True
          else hidden_loop n s (Some p))"

definition con_is_hidden :: "i3 \<Rightarrow> con_id \<Rightarrow> bool option" where
  "con_is_hidden s c = hidden_loop (up_fuel s) s (Some c)"

fun maximized_loop :: "nat \<Rightarrow> i3 \<Rightarrow> layout \<Rightarrow> con_id \<Rightarrow> bool option" where
  "maximized_loop 0 s l c = None"
| "maximized_loop (Suc n) s l c =
     (case parent (heap s c) of
        None \<Rightarrow> Some True
      | Some p \<Rightarrow>
          if con_type (heap s c) = CT_WORKSPACE then Some True
          else if layout (heap s p) = l \<and> con_num_children s p > 1 then Some False
          else if con_type (heap s p) = CT_FLOATING_CON then Some False
          else maximized_loop n s l p)"

definition con_is_maximized :: "i3 \<Rightarrow> con_id \<Rightarrow> orientation \<Rightarrow> bool option" where
  "con_is_maximized s c ori =
     (if fullscreen_mode (heap s c) \<noteq> CF_NONE then Some True
      else case ori of
        HORIZ \<Rightarrow> maximized_loop (up_fuel s) s L_SPLITH c
      | VERT \<Rightarrow> maximized_loop (up_fuel s) s L_SPLITV c
      | NO_ORIENTATION \<Rightarrow> None)"

text \<open>
  \<open>con_parent_with_orientation\<close>: the first ancestor with the orientation; the search gives up
  at a floating container, at an output and at the children of an output.
\<close>

definition orientation_search_stops :: "i3 \<Rightarrow> con_id \<Rightarrow> bool" where
  "orientation_search_stops s p \<longleftrightarrow>
     con_type (heap s p) = CT_FLOATING_CON \<or> con_type (heap s p) = CT_OUTPUT \<or>
     (case parent (heap s p) of None \<Rightarrow> False | Some q \<Rightarrow> con_type (heap s q) = CT_OUTPUT)"

fun orientation_loop :: "nat \<Rightarrow> i3 \<Rightarrow> orientation \<Rightarrow> con_id \<Rightarrow> con_id option option" where
  "orientation_loop 0 s ori p = None"
| "orientation_loop (Suc n) s ori p =
     Option.bind (con_orientation s p) (\<lambda>o'.
       if o' = ori then Some (Some p)
       else case parent (heap s p) of
         None \<Rightarrow> Some None
       | Some q \<Rightarrow> if orientation_search_stops s q then Some None
                   else orientation_loop n s ori q)"

definition con_parent_with_orientation ::
  "i3 \<Rightarrow> con_id \<Rightarrow> orientation \<Rightarrow> con_id option option" where
  "con_parent_with_orientation s c ori =
     Option.bind (parent (heap s c)) (\<lambda>p.
       if con_type (heap s p) = CT_FLOATING_CON then Some None
       else orientation_loop (up_fuel s) s ori p)"

text \<open>\<open>con_force_split_parents_redraw\<close> drops the cached decoration parameters of the split parents.\<close>

fun redraw_loop :: "nat \<Rightarrow> con_id option \<Rightarrow> i3 \<Rightarrow> i3 option" where
  "redraw_loop n None s = Some s"
| "redraw_loop 0 (Some c) s = None"
| "redraw_loop (Suc n) (Some c) s =
     (if con_type (heap s c) = CT_WORKSPACE \<or> con_type (heap s c) = CT_DOCKAREA then Some s
      else let s' = (if con_is_leaf s c then s else upd c (\<lambda>n. n\<lparr>deco_params := False\<rparr>) s)
           in redraw_loop n (parent (heap s' c)) s')"

definition con_force_split_parents_redraw :: "con_id \<Rightarrow> i3 \<Rightarrow> i3 option" where
  "con_force_split_parents_redraw c s = redraw_loop (up_fuel s) (Some c) s"

text \<open>\<open>con_fullscreen_permits_focusing\<close>, with its assertions.\<close>

definition con_fullscreen_permits_focusing :: "i3 \<Rightarrow> con_id \<Rightarrow> bool option" where
  "con_fullscreen_permits_focusing s c =
     (case focused s of None \<Rightarrow> Some True
      | Some f \<Rightarrow> do {
          r \<leftarrow> climb (up_fuel s) s (\<lambda>n. fullscreen_mode n \<noteq> CF_NONE) (Some f);
          fs \<leftarrow> r;
          if con_type (heap s fs) = CT_WORKSPACE then Some True
          else if c = fs then Some True
          else do {
            w1 \<leftarrow> (if fullscreen_mode (heap s fs) = CF_OUTPUT then con_get_workspace s c else Some None);
            w2 \<leftarrow> (if fullscreen_mode (heap s fs) = CF_OUTPUT then con_get_workspace s fs else Some None);
            if fullscreen_mode (heap s fs) = CF_OUTPUT \<and> w1 \<noteq> w2 then Some True
            else con_has_parent s c fs
          }
        })"

section \<open>The answers on the chain of ancestors\<close>

lemma has_parent_chain:
  "up_chain s c xs \<Longrightarrow> length xs \<le> n \<Longrightarrow> has_parent_loop n s c p = Some (p \<in> set (tl xs))"
proof (induction arbitrary: n rule: up_chain.induct)
  case (top c)
  then show ?case by (cases n) auto
next
  case (up c q xs)
  then obtain m where "n = Suc m" by (cases n) auto
  moreover obtain ys where "xs = q # ys" using up_chain_hd[OF up.hyps(2)] by blast
  ultimately show ?case using up by auto
qed

lemma docked_chain:
  "up_chain s c xs \<Longrightarrow> length xs \<le> n \<Longrightarrow>
   docked_loop n s c = Some (\<exists>p \<in> set (tl xs). con_type (heap s p) = CT_DOCKAREA)"
proof (induction arbitrary: n rule: up_chain.induct)
  case (top c)
  then show ?case by (cases n) auto
next
  case (up c q xs)
  then obtain m where "n = Suc m" by (cases n) auto
  moreover obtain ys where "xs = q # ys" using up_chain_hd[OF up.hyps(2)] by blast
  ultimately show ?case using up by auto
qed

lemma inside_focused_chain:
  "up_chain s c xs \<Longrightarrow> length xs \<le> n \<Longrightarrow>
   inside_focused_loop n s c = Some (focused s \<in> Some ` set xs)"
proof (induction arbitrary: n rule: up_chain.induct)
  case (top c)
  then show ?case by (cases n) auto
next
  case (up c q xs)
  then show ?case by (cases n) auto
qed

lemma inside_stacked_chain:
  "up_chain s c xs \<Longrightarrow> length xs \<le> n \<Longrightarrow>
   inside_stacked_loop n s c = Some (\<exists>p \<in> set (tl xs). stacked_or_tabbed (layout (heap s p)))"
proof (induction arbitrary: n rule: up_chain.induct)
  case (top c)
  then show ?case by (cases n) auto
next
  case (up c q xs)
  then obtain m where "n = Suc m" by (cases n) auto
  moreover obtain ys where "xs = q # ys" using up_chain_hd[OF up.hyps(2)] by blast
  ultimately show ?case using up by auto
qed

text \<open>The part of the chain strictly below the workspace.\<close>

definition below_ws :: "i3 \<Rightarrow> con_id list \<Rightarrow> con_id list" where
  "below_ws s xs = takeWhile (\<lambda>x. con_type (heap s x) \<noteq> CT_WORKSPACE) xs"

definition hidden_at :: "i3 \<Rightarrow> con_id \<Rightarrow> bool" where
  "hidden_at s x \<longleftrightarrow>
     (\<exists>p. parent (heap s x) = Some p \<and> stacked_or_tabbed (layout (heap s p)) \<and>
          list_first (focus_head (heap s p)) \<noteq> Some x)"

definition shares_space :: "i3 \<Rightarrow> layout \<Rightarrow> con_id \<Rightarrow> bool" where
  "shares_space s l x \<longleftrightarrow>
     (\<exists>p. parent (heap s x) = Some p \<and>
          (layout (heap s p) = l \<and> con_num_children s p > 1
           \<or> con_type (heap s p) = CT_FLOATING_CON))"

lemma below_ws_simps [simp]:
  "below_ws s [] = []"
  "below_ws s (x # xs) = (if con_type (heap s x) = CT_WORKSPACE then [] else x # below_ws s xs)"
  by (simp_all add: below_ws_def)

lemma hidden_chain:
  "up_chain s c xs \<Longrightarrow> length xs \<le> n \<Longrightarrow>
   hidden_loop n s (Some c) = Some (\<exists>x \<in> set (below_ws s xs). hidden_at s x)"
proof (induction arbitrary: n rule: up_chain.induct)
  case (top c)
  then show ?case by (cases n) (auto simp: hidden_at_def)
next
  case (up c q xs)
  then show ?case by (cases n) (auto simp: hidden_at_def)
qed

lemma maximized_chain:
  "up_chain s c xs \<Longrightarrow> length xs \<le> n \<Longrightarrow>
   maximized_loop n s l c = Some (\<not> (\<exists>x \<in> set (below_ws s xs). shares_space s l x))"
proof (induction arbitrary: n rule: up_chain.induct)
  case (top c)
  then show ?case by (cases n) (auto simp: shares_space_def)
next
  case (up c q xs)
  then show ?case by (cases n) (auto simp: shares_space_def)
qed

lemma inside_floating_chain:
  "up_chain s c xs \<Longrightarrow> length xs \<le> n \<Longrightarrow> \<exists>r. inside_floating_loop n s (Some c) = Some r"
proof (induction arbitrary: n rule: up_chain.induct)
  case (top c)
  then show ?case by (cases n) auto
next
  case (up c q xs)
  then show ?case by (cases n) auto
qed

text \<open>The redraw loop keeps everything but the cached decoration parameters.\<close>

definition same_but_deco :: "i3 \<Rightarrow> i3 \<Rightarrow> bool" where
  "same_but_deco s t \<longleftrightarrow>
     t = s\<lparr>heap := heap t\<rparr> \<and>
     (\<forall>c. heap t c = (heap s c)\<lparr>deco_params := deco_params (heap t c)\<rparr>)"

lemma same_but_deco_refl [simp]: "same_but_deco s s"
  by (simp add: same_but_deco_def)

lemma same_but_deco_trans: "same_but_deco s t \<Longrightarrow> same_but_deco t u \<Longrightarrow> same_but_deco s u"
  unfolding same_but_deco_def
proof (elim conjE, intro conjI allI)
  assume h: "t = s\<lparr>heap := heap t\<rparr>" "u = t\<lparr>heap := heap u\<rparr>"
  from h(2) have "u = s\<lparr>heap := heap u\<rparr>" by (subst (asm) h(1)) simp
  then show "u = s\<lparr>heap := heap u\<rparr>" .
  fix c
  assume a: "\<forall>c. heap t c = heap s c\<lparr>deco_params := deco_params (heap t c)\<rparr>"
    "\<forall>c. heap u c = heap t c\<lparr>deco_params := deco_params (heap u c)\<rparr>"
  have "heap u c = (heap t c)\<lparr>deco_params := deco_params (heap u c)\<rparr>" using a(2) by blast
  also have "\<dots> = (heap s c)\<lparr>deco_params := deco_params (heap u c)\<rparr>"
    by (subst a(1)[rule_format]) simp
  finally show "heap u c = heap s c\<lparr>deco_params := deco_params (heap u c)\<rparr>" .
qed

lemma same_but_deco_upd: "same_but_deco s (upd c (\<lambda>n. n\<lparr>deco_params := b\<rparr>) s)"
  by (auto simp: same_but_deco_def upd_def)

lemma same_but_deco_heap:
  assumes "same_but_deco s t"
  shows "parent (heap t c) = parent (heap s c)" "con_type (heap t c) = con_type (heap s c)"
    "nodes_head (heap t c) = nodes_head (heap s c)"
    "floating_head (heap t c) = floating_head (heap s c)"
    "focus_head (heap t c) = focus_head (heap s c)"
    "all_cons t = all_cons s" "next_id t = next_id s" "croot t = croot s" "focused t = focused s"
    "cfg t = cfg s" "clock t = clock s" "effects t = effects s"
proof -
  from assms have t: "t = s\<lparr>heap := heap t\<rparr>"
    and h: "heap t c = heap s c\<lparr>deco_params := deco_params (heap t c)\<rparr>"
    by (auto simp: same_but_deco_def)
  show "parent (heap t c) = parent (heap s c)" "con_type (heap t c) = con_type (heap s c)"
    "nodes_head (heap t c) = nodes_head (heap s c)"
    "floating_head (heap t c) = floating_head (heap s c)"
    "focus_head (heap t c) = focus_head (heap s c)"
    by (subst h, simp)+
  show "all_cons t = all_cons s" "next_id t = next_id s" "croot t = croot s" "focused t = focused s"
    "cfg t = cfg s" "clock t = clock s" "effects t = effects s"
    by (subst t, simp)+
qed

lemma redraw_loop_same: "redraw_loop n c s = Some t \<Longrightarrow> same_but_deco s t"
proof (induction n c s rule: redraw_loop.induct)
  case (3 n c s)
  show ?case
  proof (cases "con_type (heap s c) = CT_WORKSPACE \<or> con_type (heap s c) = CT_DOCKAREA")
    case True
    with 3 show ?thesis by simp
  next
    case False
    let ?s = "if con_is_leaf s c then s else upd c (\<lambda>n. n\<lparr>deco_params := False\<rparr>) s"
    have "same_but_deco s ?s" by (simp add: same_but_deco_upd)
    moreover have "same_but_deco ?s t"
      using 3 False by (simp add: Let_def)
    ultimately show ?thesis by (rule same_but_deco_trans)
  qed
qed simp_all

lemma up_chain_cong:
  assumes "up_chain s c xs" and "\<And>x. parent (heap t x) = parent (heap s x)"
  shows "up_chain t c xs"
  using assms by (induction rule: up_chain.induct) (auto intro: up_chain.intros)

lemma redraw_loop_total:
  "up_chain s c xs \<Longrightarrow> length xs \<le> n \<Longrightarrow> \<exists>t. redraw_loop n (Some c) s = Some t"
proof (induction n arbitrary: s c xs)
  case 0
  then show ?case by (auto dest: up_chain_hd)
next
  case (Suc n)
  let ?s = "if con_is_leaf s c then s else upd c (\<lambda>n. n\<lparr>deco_params := False\<rparr>) s"
  have p: "parent (heap ?s x) = parent (heap s x)" for x by simp
  from Suc.prems(1) show ?case
  proof cases
    case top
    with p show ?thesis by (cases n) (auto simp: Let_def)
  next
    case (up q ys)
    have "up_chain ?s q ys" by (rule up_chain_cong[OF up(3) p])
    moreover have "length ys \<le> n" using up Suc.prems(2) by simp
    ultimately obtain t where "redraw_loop n (Some q) ?s = Some t" using Suc.IH by blast
    with up show ?thesis by (auto simp: Let_def)
  qed
qed

lemma force_redraw_same:
  "con_force_split_parents_redraw c s = Some t \<Longrightarrow> same_but_deco s t"
  unfolding con_force_split_parents_redraw_def by (rule redraw_loop_same)

section \<open>In a well-formed tree every ascending query answers\<close>

lemma chain_of_live:
  assumes "wf_tree {} s" and "c \<in> live s"
  obtains xs where "up_chain s c xs" "length xs \<le> up_fuel s" "set xs \<subseteq> live s"
    "last xs = croot s"
proof -
  obtain xs where xs: "up_chain s c xs" "set xs \<subseteq> live s"
    using up_chain_exists[OF assms] by blast
  show thesis
  proof (rule that[OF xs(1) _ xs(2)])
    show "length xs \<le> up_fuel s" using up_chain_length[OF assms xs(1)] by simp
    show "last xs = croot s" by (rule up_chain_last[OF assms(1) xs(1) assms(2)])
  qed
qed

lemma con_get_workspace_total:
  assumes "wf_tree {} s" and "c \<in> live s"
  shows "\<exists>r. con_get_workspace s c = Some r \<and>
    (\<forall>w. r = Some w \<longrightarrow> w \<in> live s \<and> con_type (heap s w) = CT_WORKSPACE)"
proof -
  obtain xs where xs: "up_chain s c xs" "length xs \<le> up_fuel s" "set xs \<subseteq> live s"
    by (rule chain_of_live[OF assms])
  have "con_get_workspace s c = Some (List.find (\<lambda>x. con_type (heap s x) = CT_WORKSPACE) xs)"
    unfolding con_get_workspace_def by (rule climb_chain[OF xs(1,2)])
  with xs(3) show ?thesis by (auto dest!: find_SomeD)
qed

lemma con_has_parent_total:
  assumes "wf_tree {} s" and "c \<in> live s"
  shows "\<exists>b. con_has_parent s c p = Some b"
proof -
  obtain xs where "up_chain s c xs" "length xs \<le> up_fuel s"
    by (rule chain_of_live[OF assms])
  then show ?thesis unfolding con_has_parent_def by (simp add: has_parent_chain)
qed

lemma force_redraw_total:
  assumes "wf_tree {} s" and "c \<in> live s"
  shows "\<exists>t. con_force_split_parents_redraw c s = Some t"
proof -
  obtain xs where "up_chain s c xs" "length xs \<le> up_fuel s"
    by (rule chain_of_live[OF assms])
  then show ?thesis unfolding con_force_split_parents_redraw_def by (rule redraw_loop_total)
qed

end
