(* ===== verification/Con_Down.thy ===== *)
theory Con_Down
  imports Con_Query
begin

text \<open>
  The questions of src/con.c, src/workspace.c and src/tree.c that descend the tree.  Recursive C
  functions become recursion on fuel; \<open>up_fuel\<close> bounds the depth of the tree as it bounds the
  chains of ancestors, so every descent of a well-formed tree returns.  The answers are stated
  over the descendants of a container.
\<close>

section \<open>Descendants\<close>

definition tiling_rel :: "i3 \<Rightarrow> (con_id \<times> con_id) set" where
  "tiling_rel s = {(c, p). p \<in> live s \<and> c \<in> set (nodes_head (heap s p))}"

definition subtree :: "i3 \<Rightarrow> con_id \<Rightarrow> con_id set" where
  "subtree s c = {d. (d, c) \<in> (child_rel s)\<^sup>*}"

definition tiling_subtree :: "i3 \<Rightarrow> con_id \<Rightarrow> con_id set" where
  "tiling_subtree s c = {d. (d, c) \<in> (tiling_rel s)\<^sup>*}"

lemma tiling_child: "(c, p) \<in> tiling_rel s \<Longrightarrow> (c, p) \<in> child_rel s"
  by (auto simp: tiling_rel_def child_rel_def children_def)

lemma subtree_self [simp]: "c \<in> subtree s c" by (simp add: subtree_def)
lemma tiling_subtree_self [simp]: "c \<in> tiling_subtree s c" by (simp add: tiling_subtree_def)

lemma subtree_unfold:
  assumes "c \<in> live s"
  shows "subtree s c = insert c (\<Union>d \<in> children s c. subtree s d)"
  unfolding subtree_def
proof (intro set_eqI iffI)
  fix x assume "x \<in> {d. (d, c) \<in> (child_rel s)\<^sup>*}"
  then have "(x, c) \<in> (child_rel s)\<^sup>*" by simp
  then show "x \<in> insert c (\<Union>d \<in> children s c. {x. (x, d) \<in> (child_rel s)\<^sup>*})"
    by (cases rule: rtranclE) (auto simp: child_rel_def)
next
  fix x assume "x \<in> insert c (\<Union>d \<in> children s c. {x. (x, d) \<in> (child_rel s)\<^sup>*})"
  moreover have "(d, c) \<in> child_rel s" if "d \<in> children s c" for d
    using that assms by (simp add: child_rel_def)
  ultimately show "x \<in> {d. (d, c) \<in> (child_rel s)\<^sup>*}"
    by (auto intro: rtrancl_into_rtrancl)
qed

lemma tiling_subtree_unfold:
  assumes "c \<in> live s"
  shows "tiling_subtree s c = insert c (\<Union>d \<in> set (nodes_head (heap s c)). tiling_subtree s d)"
  unfolding tiling_subtree_def
proof (intro set_eqI iffI)
  fix x assume "x \<in> {d. (d, c) \<in> (tiling_rel s)\<^sup>*}"
  then have "(x, c) \<in> (tiling_rel s)\<^sup>*" by simp
  then show "x \<in> insert c (\<Union>d \<in> set (nodes_head (heap s c)). {x. (x, d) \<in> (tiling_rel s)\<^sup>*})"
    by (cases rule: rtranclE) (auto simp: tiling_rel_def)
next
  fix x assume "x \<in> insert c (\<Union>d \<in> set (nodes_head (heap s c)). {x. (x, d) \<in> (tiling_rel s)\<^sup>*})"
  moreover have "(d, c) \<in> tiling_rel s" if "d \<in> set (nodes_head (heap s c))" for d
    using that assms by (simp add: tiling_rel_def)
  ultimately show "x \<in> {d. (d, c) \<in> (tiling_rel s)\<^sup>*}"
    by (auto intro: rtrancl_into_rtrancl)
qed

lemma subtree_live:
  assumes "wf_tree D s" and "c \<in> live s"
  shows "subtree s c \<subseteq> live s"
proof
  fix x assume "x \<in> subtree s c"
  then have "(x, c) \<in> (child_rel s)\<^sup>*" by (simp add: subtree_def)
  then show "x \<in> live s"
    using assms(2) by (cases rule: converse_rtranclE) (auto dest: child_rel_live[OF assms(1)])
qed

lemma finite_subtree: "wf_tree D s \<Longrightarrow> c \<in> live s \<Longrightarrow> finite (subtree s c)"
  using subtree_live finite_subset finite_live by metis

text \<open>Every container has one parent, so the subtrees of different children are disjoint.\<close>

lemma child_rel_functional:
  assumes "wf_tree D s" and "(c, p) \<in> child_rel s" and "(c, q) \<in> child_rel s"
  shows "p = q"
  using child_rel_live(3)[OF assms(1,2)] child_rel_live(3)[OF assms(1,3)] by simp

lemma common_descendant_comparable:
  assumes "wf_tree D s" and "(x, c) \<in> (child_rel s)\<^sup>*" and "(x, d) \<in> (child_rel s)\<^sup>*"
  shows "(c, d) \<in> (child_rel s)\<^sup>* \<or> (d, c) \<in> (child_rel s)\<^sup>*"
  using assms(2,3)
proof (induction rule: converse_rtrancl_induct)
  case (step y z)
  from step.prems show ?case
  proof (cases rule: converse_rtranclE)
    case base
    with step.hyps show ?thesis by (auto intro: converse_rtrancl_into_rtrancl)
  next
    case (step w)
    with child_rel_functional[OF assms(1) \<open>(y, z) \<in> child_rel s\<close>] \<open>(z, d) \<in> _ \<Longrightarrow> _\<close>
    show ?thesis by blast
  qed
qed simp

lemma sibling_not_below:
  assumes "wf_tree D s" and "(c, p) \<in> child_rel s" and "(d, p) \<in> child_rel s" and "c \<noteq> d"
  shows "(c, d) \<notin> (child_rel s)\<^sup>*"
proof
  assume "(c, d) \<in> (child_rel s)\<^sup>*"
  then show False
  proof (cases rule: converse_rtranclE)
    case base
    with assms(4) show False by simp
  next
    case (step y)
    then have "y = p" using child_rel_functional[OF assms(1)] assms(2) by blast
    with step assms(3) have "(p, p) \<in> (child_rel s)\<^sup>+" by (meson rtrancl_into_trancl1)
    with wf_treeD(6)[OF assms(1)] show False by (simp add: acyclic_def)
  qed
qed

lemma sibling_subtrees_disjoint:
  assumes "wf_tree D s" and "(c, p) \<in> child_rel s" and "(d, p) \<in> child_rel s" and "c \<noteq> d"
  shows "subtree s c \<inter> subtree s d = {}"
proof (rule ccontr)
  assume "subtree s c \<inter> subtree s d \<noteq> {}"
  then obtain x where "(x, c) \<in> (child_rel s)\<^sup>*" "(x, d) \<in> (child_rel s)\<^sup>*"
    by (auto simp: subtree_def)
  from common_descendant_comparable[OF assms(1) this] sibling_not_below[OF assms]
    sibling_not_below[OF assms(1,3,2)] assms(4)
  show False by blast
qed

lemma not_below_child:
  assumes "wf_tree D s" and "(d, c) \<in> child_rel s"
  shows "c \<notin> subtree s d"
proof
  assume "c \<in> subtree s d"
  with assms(2) have "(c, c) \<in> (child_rel s)\<^sup>+"
    unfolding subtree_def by (simp add: rtrancl_into_trancl1)
  with wf_treeD(6)[OF assms(1)] show False by (simp add: acyclic_def)
qed

lemma nodes_floats_disjoint:
  assumes "wf_con s p"
  shows "set (nodes_head (heap s p)) \<inter> set (floating_head (heap s p)) = {}"
  using wf_conD(7,8)[OF assms] by auto

lemma distinct_children_list:
  "wf_con s p \<Longrightarrow> distinct (nodes_head (heap s p) @ floating_head (heap s p))"
  using nodes_floats_disjoint wf_conD(1,2) by auto

lemma subtree_disjoint_sum:
  assumes wf: "wf_tree D s" and c: "c \<in> live s"
  shows "card (subtree s c) =
    Suc (sum_list (map (\<lambda>d. card (subtree s d)) (nodes_head (heap s c) @ floating_head (heap s c))))"
proof -
  let ?ds = "nodes_head (heap s c) @ floating_head (heap s c)"
  have ds: "set ?ds = children s c" by (simp add: children_def)
  have dis: "distinct ?ds" by (rule distinct_children_list[OF wf_treeD(7)[OF wf c]])
  have rel: "(d, c) \<in> child_rel s" if "d \<in> set ?ds" for d
    using that c by (auto simp: child_rel_def children_def)
  have fin: "finite (subtree s d)" if "d \<in> set ?ds" for d
    using finite_subtree[OF wf] child_rel_live(1)[OF wf rel[OF that]] by blast
  have "card (\<Union>d \<in> set ?ds. subtree s d) = (\<Sum>d \<in> set ?ds. card (subtree s d))"
  proof (rule card_UN_disjoint)
    show "\<forall>d \<in> set ?ds. finite (subtree s d)" using fin by (intro ballI)
    show "\<forall>d \<in> set ?ds. \<forall>e \<in> set ?ds. d \<noteq> e \<longrightarrow> subtree s d \<inter> subtree s e = {}"
      by (intro ballI impI sibling_subtrees_disjoint[OF wf, of _ c] rel)
  qed simp
  also have "\<dots> = sum_list (map (\<lambda>d. card (subtree s d)) ?ds)"
    by (rule sum_list_distinct_conv_sum_set[OF dis, symmetric])
  finally have U: "card (\<Union>d \<in> set ?ds. subtree s d) = sum_list (map (\<lambda>d. card (subtree s d)) ?ds)" .
  have "c \<notin> (\<Union>d \<in> set ?ds. subtree s d)" using not_below_child[OF wf rel] by blast
  moreover have "finite (\<Union>d \<in> set ?ds. subtree s d)" using fin by blast
  ultimately show ?thesis unfolding subtree_unfold[OF c] ds[symmetric] using U by simp
qed

section \<open>Induction along a descent\<close>

text \<open>
  A recursive function that has \<open>n\<close> steps left at a container whose chain of ancestors has
  \<open>length xs\<close> elements never runs out: both together exceed the number of containers.
\<close>

lemma down_induct [consumes 2, case_names step]:
  assumes wf: "wf_tree {} s" and c: "c \<in> live s"
    and step: "\<And>n c. c \<in> live s \<Longrightarrow> (\<And>d. d \<in> children s c \<Longrightarrow> P n d) \<Longrightarrow> P (Suc n) c"
  shows "P (up_fuel s) c"
proof -
  have main: "P n c"
    if "up_chain s c xs" "c \<in> live s" "up_fuel s < n + length xs" for n c xs
    using that
  proof (induction n arbitrary: c xs)
    case 0
    with up_chain_length[OF wf] show ?case by fastforce
  next
    case (Suc n)
    show ?case
    proof (rule step[OF \<open>c \<in> live s\<close>])
      fix d assume d: "d \<in> children s c"
      note p = child_parent(1,2)[OF wf \<open>c \<in> live s\<close> d]
      have "up_chain s d (d # xs)" by (rule up_chain.up[OF p(1) Suc.prems(1)])
      then show "P n d" using Suc p(2) by (auto intro: Suc.IH)
    qed
  qed
  obtain xs where "up_chain s c xs" using up_chain_exists[OF wf c] by blast
  moreover from this have "xs \<noteq> []" by (auto dest: up_chain_hd)
  ultimately show ?thesis using c by (intro main[of c xs]) auto
qed

section \<open>Sticky, urgent\<close>

fun sticky_loop :: "nat \<Rightarrow> i3 \<Rightarrow> con_id \<Rightarrow> bool option" where
  "sticky_loop 0 s c = None"
| "sticky_loop (Suc n) s c =
     (if sticky (heap s c) then Some True else exists_opt (sticky_loop n s) (nodes_head (heap s c)))"

definition con_is_sticky :: "i3 \<Rightarrow> con_id \<Rightarrow> bool option" where
  "con_is_sticky s c = sticky_loop (up_fuel s) s c"

fun urgent_child_loop :: "nat \<Rightarrow> i3 \<Rightarrow> con_id \<Rightarrow> bool option" where
  "urgent_child_loop 0 s c = None"
| "urgent_child_loop (Suc n) s c =
     (if con_is_leaf s c then Some (urgent (heap s c))
      else exists_opt (urgent_child_loop n s) (nodes_head (heap s c)))"

definition con_has_urgent_child :: "i3 \<Rightarrow> con_id \<Rightarrow> bool option" where
  "con_has_urgent_child s c = urgent_child_loop (up_fuel s) s c"

fun urgency_flag_loop :: "nat \<Rightarrow> i3 \<Rightarrow> con_id \<Rightarrow> bool option" where
  "urgency_flag_loop 0 s c = None"
| "urgency_flag_loop (Suc n) s c =
     exists_opt (\<lambda>d. if urgent (heap s d) then Some True else urgency_flag_loop n s d)
       (nodes_head (heap s c) @ floating_head (heap s c))"

definition get_urgency_flag :: "i3 \<Rightarrow> con_id \<Rightarrow> bool option" where
  "get_urgency_flag s c = urgency_flag_loop (up_fuel s) s c"

lemma con_is_sticky_spec:
  assumes "wf_tree {} s" and "c \<in> live s"
  shows "con_is_sticky s c = Some (\<exists>d \<in> tiling_subtree s c. sticky (heap s d))"
  unfolding con_is_sticky_def using assms
proof (induction rule: down_induct)
  case (step n c)
  have "exists_opt (sticky_loop n s) (nodes_head (heap s c)) =
    Some (\<exists>d \<in> set (nodes_head (heap s c)). \<exists>e \<in> tiling_subtree s d. sticky (heap s e))"
    by (rule exists_opt_total) (use step in \<open>auto simp: children_def\<close>)
  then show ?case by (simp add: tiling_subtree_unfold[OF step(1)])
qed

lemma con_has_urgent_child_spec:
  assumes "wf_tree {} s" and "c \<in> live s"
  shows "con_has_urgent_child s c =
    Some (\<exists>d \<in> tiling_subtree s c. con_is_leaf s d \<and> urgent (heap s d))"
  unfolding con_has_urgent_child_def using assms
proof (induction rule: down_induct)
  case (step n c)
  have "exists_opt (urgent_child_loop n s) (nodes_head (heap s c)) =
    Some (\<exists>d \<in> set (nodes_head (heap s c)). \<exists>e \<in> tiling_subtree s d. con_is_leaf s e \<and> urgent (heap s e))"
    by (rule exists_opt_total) (use step in \<open>auto simp: children_def\<close>)
  then show ?case
    by (cases "con_is_leaf s c") (simp_all add: tiling_subtree_unfold[OF step(1)] con_is_leaf_def)
qed

lemma strict_subtree_children:
  assumes "wf_tree D s" and "c \<in> live s"
  shows "subtree s c - {c} = (\<Union>d \<in> children s c. subtree s d)"
proof -
  have "c \<notin> (\<Union>d \<in> children s c. subtree s d)"
    using not_below_child[OF assms(1)] assms(2) by (auto simp: child_rel_def)
  then show ?thesis unfolding subtree_unfold[OF assms(2)] by blast
qed

lemma get_urgency_flag_spec:
  assumes "wf_tree {} s" and "c \<in> live s"
  shows "get_urgency_flag s c = Some (\<exists>d \<in> subtree s c - {c}. urgent (heap s d))"
  unfolding get_urgency_flag_def using assms
proof (induction rule: down_induct)
  case (step n c)
  have "urgency_flag_loop (Suc n) s c =
    Some (\<exists>d \<in> set (nodes_head (heap s c) @ floating_head (heap s c)).
            \<exists>e \<in> subtree s d. urgent (heap s e))"
    unfolding urgency_flag_loop.simps
  proof (rule exists_opt_total)
    fix d assume "d \<in> set (nodes_head (heap s c) @ floating_head (heap s c))"
    then have d: "d \<in> children s c" by (simp add: children_def)
    have "d \<in> live s" by (rule child_parent(2)[OF assms(1) step(1) d])
    have "subtree s d = insert d (subtree s d - {d})" by auto
    with step(2)[OF d] show "(if urgent (heap s d) then Some True else urgency_flag_loop n s d) =
      Some (\<exists>e \<in> subtree s d. urgent (heap s e))"
      by (auto split: if_splits)
  qed
  moreover have "(\<exists>d \<in> set (nodes_head (heap s c) @ floating_head (heap s c)).
      \<exists>e \<in> subtree s d. urgent (heap s e)) = (\<exists>d \<in> subtree s c - {c}. urgent (heap s d))"
    unfolding strict_subtree_children[OF assms(1) step(1)] children_def by auto
  ultimately show ?case by (simp only:)
qed

section \<open>Counting windows\<close>

fun num_windows_loop :: "nat \<Rightarrow> i3 \<Rightarrow> con_id \<Rightarrow> nat option" where
  "num_windows_loop 0 s c = None"
| "num_windows_loop (Suc n) s c =
     Option.bind (con_has_managed_window s (Some c)) (\<lambda>m.
       if m then Some 1
       else sum_opt (num_windows_loop n s) (nodes_head (heap s c) @ floating_head (heap s c)))"

definition con_num_windows :: "i3 \<Rightarrow> con_id option \<Rightarrow> nat option" where
  "con_num_windows s c = (case c of None \<Rightarrow> Some 0 | Some c \<Rightarrow> num_windows_loop (up_fuel s) s c)"

fun visible_children_loop :: "nat \<Rightarrow> i3 \<Rightarrow> con_id \<Rightarrow> nat option" where
  "visible_children_loop 0 s c = None"
| "visible_children_loop (Suc n) s c =
     sum_opt (\<lambda>d. Option.bind (con_is_hidden s d) (\<lambda>h.
        if \<not> h \<and> con_is_leaf s d then Some 1 else visible_children_loop n s d))
       (nodes_head (heap s c))"

definition con_num_visible_children :: "i3 \<Rightarrow> con_id option \<Rightarrow> nat option" where
  "con_num_visible_children s c =
     (case c of None \<Rightarrow> Some 0 | Some c \<Rightarrow> visible_children_loop (up_fuel s) s c)"

definition managed :: "i3 \<Rightarrow> con_id \<Rightarrow> bool" where
  "managed s c \<longleftrightarrow> con_has_managed_window s (Some c) = Some True"

text \<open>Windows sit in leaves: the shape all code that manages windows keeps.\<close>

definition windows_in_leaves :: "i3 \<Rightarrow> bool" where
  "windows_in_leaves s \<longleftrightarrow> (\<forall>c \<in> live s. con_window (heap s c) \<noteq> None \<longrightarrow> children s c = {})"

lemma managed_total:
  assumes "wf_tree {} s" and "c \<in> live s"
  shows "con_has_managed_window s (Some c) = Some (managed s c)"
proof -
  obtain r where "con_get_workspace s c = Some r" using con_get_workspace_total[OF assms] by blast
  then have "\<exists>b. con_has_managed_window s (Some c) = Some b"
    by (auto simp: con_has_managed_window_def split: option.splits)
  then show ?thesis by (auto simp: managed_def)
qed

lemma managed_window: "managed s c \<Longrightarrow> con_window (heap s c) \<noteq> None"
  by (auto simp: managed_def con_has_managed_window_def split: option.splits)

lemma con_num_windows_spec:
  assumes wf: "wf_tree {} s" and c: "c \<in> live s" and wl: "windows_in_leaves s"
  shows "con_num_windows s (Some c) = Some (card {d \<in> subtree s c. managed s d})"
  unfolding con_num_windows_def option.case using wf c
proof (induction rule: down_induct)
  case (step n c)
  let ?ds = "nodes_head (heap s c) @ floating_head (heap s c)"
  let ?M = "\<lambda>d. {e \<in> subtree s d. managed s e}"
  have ds: "set ?ds = children s c" by (simp add: children_def)
  have rel: "(d, c) \<in> child_rel s" if "d \<in> set ?ds" for d
    using that step(1) by (auto simp: child_rel_def children_def)
  show ?case
  proof (cases "managed s c")
    case True
    then have "children s c = {}" using managed_window step(1) wl
      by (auto simp: windows_in_leaves_def)
    then have "?M c = {c}" using True by (auto simp: subtree_unfold[OF step(1)])
    then show ?thesis using True managed_total[OF wf step(1)] by simp
  next
    case False
    have M: "?M c = (\<Union>d \<in> set ?ds. ?M d)"
      using False unfolding subtree_unfold[OF step(1)] ds by auto
    have "card (\<Union>d \<in> set ?ds. ?M d) = (\<Sum>d \<in> set ?ds. card (?M d))"
    proof (rule card_UN_disjoint)
      have "finite (subtree s d)" if "d \<in> set ?ds" for d
        using finite_subtree[OF wf] child_rel_live(1)[OF wf rel[OF that]] by blast
      then show "\<forall>d \<in> set ?ds. finite (?M d)" by (intro ballI finite_subset[of "?M _"]) auto
      have "subtree s d \<inter> subtree s e = {}" if "d \<in> set ?ds" "e \<in> set ?ds" "d \<noteq> e" for d e
        by (rule sibling_subtrees_disjoint[OF wf rel[OF that(1)] rel[OF that(2)] that(3)])
      then show "\<forall>d \<in> set ?ds. \<forall>e \<in> set ?ds. d \<noteq> e \<longrightarrow> ?M d \<inter> ?M e = {}"
        by (intro ballI impI) fast
    qed simp
    also have "\<dots> = sum_list (map (\<lambda>d. card (?M d)) ?ds)"
      by (rule sum_list_distinct_conv_sum_set[symmetric])
        (rule distinct_children_list[OF wf_treeD(7)[OF wf step(1)]])
    finally have "card (?M c) = sum_list (map (\<lambda>d. card (?M d)) ?ds)" using M by simp
    moreover have "sum_opt (num_windows_loop n s) ?ds = Some (sum_list (map (\<lambda>d. card (?M d)) ?ds))"
      by (rule sum_opt_total) (use step(2) ds in auto)
    ultimately show ?thesis using False managed_total[OF wf step(1)] by simp
  qed
qed

end
