(* ===== verification/Con_Descend.thy ===== *)
theory Con_Descend
  imports Con_Down
begin

text \<open>
  Searching below a container: the breadth-first search for fullscreen containers, and the
  descents along the focus stacks that find the container to be focused (src/con.c,
  src/output.c).
\<close>

section \<open>The search for a fullscreen container\<close>

text \<open>The queue of \<open>con_get_fullscreen_con\<close>; the fuel bounds the number of dequeued containers.\<close>

fun fullscreen_bfs ::
  "nat \<Rightarrow> i3 \<Rightarrow> con_id \<Rightarrow> fullscreen_mode \<Rightarrow> con_id list \<Rightarrow> con_id option option" where
  "fullscreen_bfs n s c m [] = Some None"
| "fullscreen_bfs 0 s c m (x # q) = None"
| "fullscreen_bfs (Suc n) s c m (x # q) =
     (if x \<noteq> c \<and> fullscreen_mode (heap s x) = m then Some (Some x)
      else fullscreen_bfs n s c m (q @ nodes_head (heap s x) @ floating_head (heap s x)))"

definition con_get_fullscreen_con ::
  "i3 \<Rightarrow> con_id \<Rightarrow> fullscreen_mode \<Rightarrow> con_id option option" where
  "con_get_fullscreen_con s c m = fullscreen_bfs (up_fuel s) s c m [c]"

definition con_get_fullscreen_covering_ws :: "i3 \<Rightarrow> con_id option \<Rightarrow> con_id option option" where
  "con_get_fullscreen_covering_ws s ws =
     (case ws of None \<Rightarrow> Some None
      | Some ws \<Rightarrow> do {
          fs \<leftarrow> con_get_fullscreen_con s (croot s) CF_GLOBAL;
          case fs of None \<Rightarrow> con_get_fullscreen_con s ws CF_OUTPUT | Some f \<Rightarrow> Some (Some f)
        })"

text \<open>The work left: the sizes of the subtrees of the queued containers.\<close>

definition queue_size :: "i3 \<Rightarrow> con_id list \<Rightarrow> nat" where
  "queue_size s q = sum_list (map (\<lambda>d. card (subtree s d)) q)"

lemma fullscreen_bfs_spec:
  assumes wf: "wf_tree {} s" and "set q \<subseteq> live s" and "queue_size s q \<le> n"
  shows "\<exists>r. fullscreen_bfs n s c m q = Some r \<and>
    (case r of
       None \<Rightarrow> \<forall>d \<in> (\<Union>x \<in> set q. subtree s x). d \<noteq> c \<longrightarrow> fullscreen_mode (heap s d) \<noteq> m
     | Some d \<Rightarrow> d \<in> (\<Union>x \<in> set q. subtree s x) \<and> d \<noteq> c \<and> fullscreen_mode (heap s d) = m)"
  using assms(2,3)
proof (induction n arbitrary: q)
  case 0
  show ?case
  proof (cases q)
    case (Cons x q')
    with 0 have "card (subtree s x) = 0" by (simp add: queue_size_def)
    with subtree_disjoint_sum[OF wf, of x] 0 Cons show ?thesis by simp
  qed simp
next
  case (Suc n)
  show ?case
  proof (cases q)
    case (Cons x q')
    with Suc.prems have x: "x \<in> live s" and q': "set q' \<subseteq> live s" by auto
    let ?cs = "nodes_head (heap s x) @ floating_head (heap s x)"
    have cs: "set ?cs = children s x" by (simp add: children_def)
    have sub: "subtree s x = insert x (\<Union>d \<in> set ?cs. subtree s d)"
      unfolding cs by (rule subtree_unfold[OF x])
    show ?thesis
    proof (cases "x \<noteq> c \<and> fullscreen_mode (heap s x) = m")
      case True
      with Cons show ?thesis by auto
    next
      case False
      have "set (q' @ ?cs) \<subseteq> live s"
        using q' child_parent(2)[OF wf x] cs by (metis Un_subset_iff set_append subsetI)
      moreover have "queue_size s (q' @ ?cs) \<le> n"
        using Suc.prems(2) Cons subtree_disjoint_sum[OF wf x] by (simp add: queue_size_def)
      ultimately obtain r where r: "fullscreen_bfs n s c m (q' @ ?cs) = Some r"
        "case r of
           None \<Rightarrow> \<forall>d \<in> (\<Union>y \<in> set (q' @ ?cs). subtree s y). d \<noteq> c \<longrightarrow> fullscreen_mode (heap s d) \<noteq> m
         | Some d \<Rightarrow> d \<in> (\<Union>y \<in> set (q' @ ?cs). subtree s y) \<and> d \<noteq> c \<and> fullscreen_mode (heap s d) = m"
        using Suc.IH by blast
      have "(\<Union>y \<in> set q. subtree s y) = insert x (\<Union>y \<in> set (q' @ ?cs). subtree s y)"
        using Cons sub by auto
      with r False Cons show ?thesis by (cases r) auto
    qed
  qed simp
qed

lemma card_subtree_fuel:
  assumes "wf_tree {} s" and "c \<in> live s"
  shows "card (subtree s c) < up_fuel s"
  using card_mono[OF finite_live subtree_live[OF assms]] card_live[OF assms(1)]
  by (simp add: up_fuel_def)

lemma con_get_fullscreen_con_spec:
  assumes "wf_tree {} s" and "c \<in> live s"
  shows "\<exists>r. con_get_fullscreen_con s c m = Some r \<and>
    (case r of
       None \<Rightarrow> \<forall>d \<in> subtree s c - {c}. fullscreen_mode (heap s d) \<noteq> m
     | Some d \<Rightarrow> d \<in> subtree s c - {c} \<and> fullscreen_mode (heap s d) = m)"
proof -
  obtain r where r: "fullscreen_bfs (up_fuel s) s c m [c] = Some r"
    "case r of
       None \<Rightarrow> \<forall>d \<in> (\<Union>x \<in> set [c]. subtree s x). d \<noteq> c \<longrightarrow> fullscreen_mode (heap s d) \<noteq> m
     | Some d \<Rightarrow> d \<in> (\<Union>x \<in> set [c]. subtree s x) \<and> d \<noteq> c \<and> fullscreen_mode (heap s d) = m"
    using fullscreen_bfs_spec[OF assms(1), of "[c]" "up_fuel s" c m] assms(2)
      card_subtree_fuel[OF assms] by (auto simp: queue_size_def)
  then show ?thesis unfolding con_get_fullscreen_con_def by (cases r) auto
qed

section \<open>Descending along the focus stacks\<close>

text \<open>\<open>con_descend_focused\<close> stops at the focused container or where the focus stack is empty.\<close>

fun descend_loop :: "nat \<Rightarrow> i3 \<Rightarrow> con_id \<Rightarrow> con_id option" where
  "descend_loop 0 s c = None"
| "descend_loop (Suc n) s c =
     (if focused s = Some c then Some c
      else case focus_head (heap s c) of [] \<Rightarrow> Some c | d # _ \<Rightarrow> descend_loop n s d)"

definition con_descend_focused :: "i3 \<Rightarrow> con_id \<Rightarrow> con_id option" where
  "con_descend_focused s c = descend_loop (up_fuel s) s c"

text \<open>The same for tiling containers only.\<close>

definition first_tiling_focus :: "i3 \<Rightarrow> con_id \<Rightarrow> con_id option" where
  "first_tiling_focus s c =
     List.find (\<lambda>d. con_type (heap s d) \<noteq> CT_FLOATING_CON) (focus_head (heap s c))"

fun descend_tiling_loop :: "nat \<Rightarrow> i3 \<Rightarrow> con_id \<Rightarrow> con_id option" where
  "descend_tiling_loop 0 s c = None"
| "descend_tiling_loop (Suc n) s c =
     (case first_tiling_focus s c of
        None \<Rightarrow> Some c
      | Some d \<Rightarrow> if focused s = Some d then Some d else descend_tiling_loop n s d)"

definition con_descend_tiling_focused :: "i3 \<Rightarrow> con_id \<Rightarrow> con_id option" where
  "con_descend_tiling_focused s c =
     (if focused s = Some c then Some c else descend_tiling_loop (up_fuel s) s c)"

text \<open>
  \<open>con_descend_direction\<close>: the first or last child when the container is split along the
  direction, the focused tiling child otherwise.
\<close>

definition horizontal :: "direction \<Rightarrow> bool" where
  "horizontal d \<longleftrightarrow> d = D_LEFT \<or> d = D_RIGHT"

definition descend_candidate :: "i3 \<Rightarrow> direction \<Rightarrow> orientation \<Rightarrow> con_id \<Rightarrow> con_id option" where
  "descend_candidate s d ori c =
     (if (ori = HORIZ) = horizontal d then
        (if d = D_RIGHT \<or> d = D_DOWN then list_first (nodes_head (heap s c))
         else list_last (nodes_head (heap s c)))
      else first_tiling_focus s c)"

fun descend_direction_loop :: "nat \<Rightarrow> i3 \<Rightarrow> direction \<Rightarrow> con_id \<Rightarrow> con_id option" where
  "descend_direction_loop 0 s d c = None"
| "descend_direction_loop (Suc n) s d c =
     Option.bind (con_orientation s c) (\<lambda>ori.
       case descend_candidate s d ori c of
         None \<Rightarrow> Some c
       | Some m \<Rightarrow> descend_direction_loop n s d m)"

definition con_descend_direction :: "i3 \<Rightarrow> con_id \<Rightarrow> direction \<Rightarrow> con_id option" where
  "con_descend_direction s c d = descend_direction_loop (up_fuel s) s d c"

text \<open>\<open>output_get_content\<close>: the first child of an output that is a plain container.\<close>

definition output_get_content :: "i3 \<Rightarrow> con_id \<Rightarrow> con_id option" where
  "output_get_content s out =
     List.find (\<lambda>d. con_type (heap s d) = CT_CON) (nodes_head (heap s out))"

text \<open>
  \<open>con_next_focused\<close>: what gets the focus when a container goes away.  Dock clients hand the
  focus to the content of their output; a missing content would be dereferenced.
\<close>

fun next_focused_descend :: "nat \<Rightarrow> i3 \<Rightarrow> con_id \<Rightarrow> con_id \<Rightarrow> con_id option" where
  "next_focused_descend 0 s c nxt = None"
| "next_focused_descend (Suc n) s c nxt =
     (case focus_head (heap s nxt) of
        [] \<Rightarrow> Some nxt
      | d # _ \<Rightarrow> if d = c then Some nxt else next_focused_descend n s c d)"

definition con_next_focused :: "i3 \<Rightarrow> con_id \<Rightarrow> con_id option" where
  "con_next_focused s c = do {
     p \<leftarrow> parent (heap s c);
     if con_type (heap s p) = CT_DOCKAREA then do {
       out \<leftarrow> parent (heap s p);
       content \<leftarrow> output_get_content s out;
       con_descend_focused s content
     } else do {
       c \<leftarrow> (if con_is_floating s c then parent (heap s c) else Some c);
       p \<leftarrow> parent (heap s c);
       let fh = focus_head (heap s p);
       let nxt = (if list_first fh \<noteq> Some c then list_first fh
                  else case next_of c fh of Some d \<Rightarrow> Some d | None \<Rightarrow> Some p);
       nxt \<leftarrow> nxt;
       nxt \<leftarrow> next_focused_descend (up_fuel s) s c nxt;
       if con_type (heap s c) = CT_FLOATING_CON \<and> parent (heap s c) \<noteq> Some nxt
       then con_descend_focused s nxt
       else Some nxt
     }
   }"

section \<open>What the descents find\<close>

text \<open>The path of the focus stacks: from each container to the head of its focus stack.\<close>

definition focus_step :: "i3 \<Rightarrow> con_id \<Rightarrow> con_id \<Rightarrow> bool" where
  "focus_step s c d \<longleftrightarrow> list_first (focus_head (heap s c)) = Some d"

lemma focus_step_child:
  assumes "wf_tree D s" and "c \<in> live s" and "focus_step s c d"
  shows "d \<in> children s c"
  using assms wf_conD(4)[OF wf_treeD(7)[OF assms(1,2)]]
  by (auto simp: focus_step_def dest!: list_first_in)

lemma descend_loop_spec:
  assumes wf: "wf_tree {} s" and c: "c \<in> live s"
  shows "\<exists>r. con_descend_focused s c = Some r \<and> (focus_step s)\<^sup>*\<^sup>* c r \<and>
    (focused s = Some r \<or> focus_head (heap s r) = [])"
  unfolding con_descend_focused_def using wf c
proof (induction rule: down_induct)
  case (step n c)
  show ?case
  proof (cases "focused s = Some c")
    case False
    show ?thesis
    proof (cases "focus_head (heap s c)")
      case (Cons d ds)
      then have d: "focus_step s c d" by (simp add: focus_step_def)
      from step(2)[OF focus_step_child[OF wf step(1) d]] obtain r where
        "descend_loop n s d = Some r" "(focus_step s)\<^sup>*\<^sup>* d r"
        "focused s = Some r \<or> focus_head (heap s r) = []" by blast
      with d False Cons show ?thesis by (auto intro: converse_rtranclp_into_rtranclp)
    qed (use False in auto)
  qed auto
qed

lemma focus_path_subtree:
  assumes wf: "wf_tree D s" and "(focus_step s)\<^sup>*\<^sup>* c r" and "c \<in> live s"
  shows "r \<in> subtree s c"
  using assms(2,3)
proof (induction rule: converse_rtranclp_induct)
  case (step c d)
  have d: "d \<in> children s c" by (rule focus_step_child[OF wf step(4,1)])
  then have "r \<in> subtree s d" using step child_parent(2)[OF wf \<open>c \<in> live s\<close>] by blast
  with d show ?case by (auto simp: subtree_unfold[OF step(4)])
qed simp

lemma first_tiling_focus_child:
  assumes "wf_tree D s" and "c \<in> live s" and "first_tiling_focus s c = Some d"
  shows "d \<in> children s c" and "d \<in> set (nodes_head (heap s c))"
    and "con_type (heap s d) \<noteq> CT_FLOATING_CON"
proof -
  from assms(3) have d: "d \<in> set (focus_head (heap s c))" "con_type (heap s d) \<noteq> CT_FLOATING_CON"
    by (auto simp: first_tiling_focus_def dest: find_SomeD)
  then show "d \<in> children s c" "con_type (heap s d) \<noteq> CT_FLOATING_CON"
    using wf_conD(4)[OF wf_treeD(7)[OF assms(1,2)]] by auto
  then show "d \<in> set (nodes_head (heap s c))"
    using wf_conD(8)[OF wf_treeD(7)[OF assms(1,2)]] by (auto simp: children_def)
qed

lemma con_descend_tiling_focused_spec:
  assumes wf: "wf_tree {} s" and c: "c \<in> live s"
  shows "\<exists>r. con_descend_tiling_focused s c = Some r \<and> r \<in> tiling_subtree s c"
proof -
  have "\<exists>r. descend_tiling_loop (up_fuel s) s c = Some r \<and> r \<in> tiling_subtree s c"
    using wf c
  proof (induction rule: down_induct)
    case (step n c)
    show ?case
    proof (cases "first_tiling_focus s c")
      case (Some d)
      note d = first_tiling_focus_child[OF wf step(1) Some]
      from step(2)[OF d(1)] obtain r where "descend_tiling_loop n s d = Some r"
        "r \<in> tiling_subtree s d" by blast
      moreover have "tiling_subtree s d \<subseteq> tiling_subtree s c"
        using d(2) by (auto simp: tiling_subtree_unfold[OF step(1)])
      ultimately show ?thesis using Some by (cases "focused s = Some d") auto
    qed simp
  qed
  then show ?thesis by (auto simp: con_descend_tiling_focused_def)
qed

text \<open>Containers above a tiling descent have an orientation when only split layouts occur below.\<close>

lemma con_descend_direction_spec:
  assumes wf: "wf_tree {} s" and c: "c \<in> live s"
    and ori: "\<And>d. d \<in> tiling_subtree s c \<Longrightarrow> con_orientation s d \<noteq> None"
  shows "\<exists>r. con_descend_direction s c dir = Some r \<and> r \<in> tiling_subtree s c"
  unfolding con_descend_direction_def using wf c ori
proof (induction rule: down_induct)
  case (step n c)
  obtain ori where o': "con_orientation s c = Some ori" using step(3)[of c] by auto
  show ?case
  proof (cases "descend_candidate s dir ori c")
    case (Some d)
    then have d: "d \<in> set (nodes_head (heap s c))"
      using first_tiling_focus_child(2)[OF wf step(1)]
      by (auto simp: descend_candidate_def split: if_splits dest: list_first_in list_last_in)
    then have sub: "tiling_subtree s d \<subseteq> tiling_subtree s c"
      by (auto simp: tiling_subtree_unfold[OF step(1)])
    from d have "d \<in> children s c" by (simp add: children_def)
    from step(2)[OF this] step(3) sub obtain r where
      "descend_direction_loop n s dir d = Some r" "r \<in> tiling_subtree s d" by blast
    with Some o' sub show ?thesis by auto
  qed (use o' in auto)
qed

end
