(* ===== verification/Con_Links.thy ===== *)
theory Con_Links
  imports Con_Descend
begin

text \<open>
  Most operations on containers change fields that no link depends on.  \<open>same_links\<close> says that
  two states have the same tree; everything the tree invariant and the ascending and descending
  queries see is then the same.
\<close>

definition same_links :: "i3 \<Rightarrow> i3 \<Rightarrow> bool" where
  "same_links s t \<longleftrightarrow>
     all_cons t = all_cons s \<and> next_id t = next_id s \<and> croot t = croot s \<and>
     (\<forall>c. parent (heap t c) = parent (heap s c) \<and> con_type (heap t c) = con_type (heap s c) \<and>
          nodes_head (heap t c) = nodes_head (heap s c) \<and>
          floating_head (heap t c) = floating_head (heap s c) \<and>
          focus_head (heap t c) = focus_head (heap s c))"

lemma same_linksD:
  assumes "same_links s t"
  shows "all_cons t = all_cons s" "next_id t = next_id s" "croot t = croot s"
    "parent (heap t c) = parent (heap s c)" "con_type (heap t c) = con_type (heap s c)"
    "nodes_head (heap t c) = nodes_head (heap s c)"
    "floating_head (heap t c) = floating_head (heap s c)"
    "focus_head (heap t c) = focus_head (heap s c)"
    "live t = live s" "up_fuel t = up_fuel s" "children t = children s"
  using assms by (auto simp: same_links_def live_def up_fuel_def children_def fun_eq_iff)

lemma same_links_refl [simp]: "same_links s s" by (simp add: same_links_def)

lemma same_links_trans [trans]: "same_links s t \<Longrightarrow> same_links t u \<Longrightarrow> same_links s u"
  by (simp add: same_links_def)

lemma same_links_upd:
  assumes "parent (f (heap s c)) = parent (heap s c)"
    "con_type (f (heap s c)) = con_type (heap s c)"
    "nodes_head (f (heap s c)) = nodes_head (heap s c)"
    "floating_head (f (heap s c)) = floating_head (heap s c)"
    "focus_head (f (heap s c)) = focus_head (heap s c)"
  shows "same_links s (upd c f s)"
  using assms by (auto simp: same_links_def)

lemma same_links_emit [simp]: "same_links s (emit e s)" by (simp add: same_links_def)

lemma same_links_focused [simp]: "same_links s (s\<lparr>focused := f\<rparr>)" by (simp add: same_links_def)

lemma same_links_deco: "same_but_deco s t \<Longrightarrow> same_links s t"
  unfolding same_links_def by (auto simp: same_but_deco_heap)

lemma same_links_wf_con:
  assumes "same_links s t"
  shows "wf_con t p = wf_con s p"
  unfolding wf_con_def by (simp only: same_linksD[OF assms])

lemma same_links_child_rel: "same_links s t \<Longrightarrow> child_rel t = child_rel s"
  unfolding child_rel_def by (simp only: same_linksD)

lemma same_links_wf:
  assumes "same_links s t"
  shows "wf_tree D t = wf_tree D s"
  unfolding wf_tree_def same_links_wf_con[OF assms] same_links_child_rel[OF assms]
  by (simp only: same_linksD[OF assms])

lemma same_links_subtree: "same_links s t \<Longrightarrow> subtree t = subtree s"
  by (simp add: subtree_def fun_eq_iff same_links_child_rel)

lemma same_links_tiling_subtree: "same_links s t \<Longrightarrow> tiling_subtree t = tiling_subtree s"
  by (simp add: tiling_subtree_def tiling_rel_def fun_eq_iff same_linksD)

lemma same_links_climb:
  assumes "same_links s t" and "\<And>c. stop (heap t c) = stop (heap s c)"
  shows "climb n t stop c = climb n s stop c"
  using assms by (induction n s stop c rule: climb.induct) (auto simp: same_linksD)

lemma same_links_workspace:
  assumes "same_links s t"
  shows "con_get_workspace t c = con_get_workspace s c"
  unfolding con_get_workspace_def same_linksD(10)[OF assms]
  by (rule same_links_climb[OF assms]) (simp add: same_linksD[OF assms])

lemma same_links_has_parent:
  assumes "same_links s t"
  shows "con_has_parent t c p = con_has_parent s c p"
proof -
  have "has_parent_loop n t c p = has_parent_loop n s c p" for n
    by (induction n arbitrary: c) (auto simp: same_linksD[OF assms] split: option.splits)
  then show ?thesis unfolding con_has_parent_def same_linksD(10)[OF assms] .
qed

text \<open>Updating a list of containers, one after the other.\<close>

definition upd_each :: "con_id list \<Rightarrow> (con_id \<Rightarrow> con \<Rightarrow> con) \<Rightarrow> i3 \<Rightarrow> i3" where
  "upd_each cs f s = fold (\<lambda>c. upd c (f c)) cs s"

lemma upd_each_simps [simp]:
  "upd_each [] f s = s" "upd_each (c # cs) f s = upd_each cs f (upd c (f c) s)"
  by (simp_all add: upd_each_def)

lemma upd_each_frame [simp]:
  "all_cons (upd_each cs f s) = all_cons s" "next_id (upd_each cs f s) = next_id s"
  "croot (upd_each cs f s) = croot s" "focused (upd_each cs f s) = focused s"
  "cfg (upd_each cs f s) = cfg s" "clock (upd_each cs f s) = clock s"
  "previous_workspace (upd_each cs f s) = previous_workspace s" "effects (upd_each cs f s) = effects s"
  by (induction cs arbitrary: s) simp_all

lemma upd_each_heap:
  "distinct cs \<Longrightarrow> heap (upd_each cs f s) c = (if c \<in> set cs then f c (heap s c) else heap s c)"
  by (induction cs arbitrary: s) auto

lemma same_links_upd_each:
  assumes "\<And>c n. parent (f c n) = parent n" "\<And>c n. con_type (f c n) = con_type n"
    "\<And>c n. nodes_head (f c n) = nodes_head n" "\<And>c n. floating_head (f c n) = floating_head n"
    "\<And>c n. focus_head (f c n) = focus_head n"
  shows "same_links s (upd_each cs f s)"
proof (induction cs arbitrary: s)
  case (Cons c cs)
  have "same_links s (upd c (f c) s)" using assms by (intro same_links_upd) auto
  from same_links_trans[OF this Cons] show ?case by simp
qed simp

end
