(* ===== verification/Con_Percent.thy ===== *)
theory Con_Percent
  imports Con_Links
begin

text \<open>
  \<open>con_fix_percent\<close> of src/con.c redistributes the share of space among the children of a
  container.  The two passes of the code are functions on the list of the children's shares.
\<close>

text \<open>
  First pass: the sum and the number of the positive shares.  Second pass: children without a
  share get 1, or the running total divided by the number of children that had one; the running
  total grows with every share handed out.
\<close>

fun fill_percents :: "nat \<Rightarrow> rat \<Rightarrow> rat list \<Rightarrow> rat list \<times> rat" where
  "fill_percents k tot [] = ([], tot)"
| "fill_percents k tot (p # ps) =
     (if p \<le> 0 then
        (let q = (if k = 0 then 1 else tot / of_nat k);
             (qs, t) = fill_percents k (tot + q) ps
         in (q # qs, t))
      else (let (qs, t) = fill_percents k tot ps in (p # qs, t)))"

definition share_pass :: "rat list \<Rightarrow> rat list \<times> rat" where
  "share_pass ps =
     (let pos = filter (\<lambda>p. p > 0) ps
      in if length pos \<noteq> length ps then fill_percents (length pos) (sum_list pos) ps
         else (ps, sum_list pos))"

text \<open>Last pass: equal shares if the total is zero, otherwise the shares divided by the total.\<close>

definition fix_percents :: "rat list \<Rightarrow> rat list" where
  "fix_percents ps =
     (let (qs, tot) = share_pass ps
      in if tot = 0 then map (\<lambda>_. 1 / of_nat (length ps)) qs
         else if tot \<noteq> 1 then map (\<lambda>q. q / tot) qs
         else qs)"

definition con_fix_percent :: "con_id \<Rightarrow> i3 \<Rightarrow> i3" where
  "con_fix_percent p s =
     (let cs = nodes_head (heap s p);
          qs = fix_percents (map (\<lambda>c. percent (heap s c)) cs)
      in upd_each cs (\<lambda>c n. case map_of (zip cs qs) c of
                              Some q \<Rightarrow> n\<lparr>percent := q\<rparr> | None \<Rightarrow> n) s)"

lemma fill_percents_length: "length (fst (fill_percents k t ps)) = length ps"
  by (induction ps arbitrary: t) (simp_all add: Let_def split_def)

text \<open>The running total is the sum of the shares, and every share becomes positive.\<close>

lemma fill_percents_total:
  "snd (fill_percents k t ps) =
     t + sum_list (fst (fill_percents k t ps)) - sum_list (filter (\<lambda>p. p > 0) ps)"
  by (induction ps arbitrary: t) (simp_all add: Let_def split_def)

lemma fill_percents_pos:
  assumes "k = 0 \<or> t > 0" and "t \<ge> 0"
  shows "\<forall>q \<in> set (fst (fill_percents k t ps)). q > 0"
  using assms
proof (induction ps arbitrary: t)
  case (Cons p ps)
  let ?q = "if k = 0 then 1 else t / of_nat k"
  have q: "?q > 0" using Cons.prems by auto
  have 1: "\<forall>q \<in> set (fst (fill_percents k (t + ?q) ps)). q > 0"
    by (rule Cons.IH) (use Cons.prems q in auto)
  have 2: "\<forall>q \<in> set (fst (fill_percents k t ps)). q > 0"
    by (rule Cons.IH) (use Cons.prems in auto)
  from 1 2 q show ?case
    by (cases "p \<le> 0") (auto simp: Let_def split_def)
qed simp

lemma sum_list_pos:
  fixes qs :: "rat list"
  assumes "qs \<noteq> []" and "\<forall>q \<in> set qs. q > 0"
  shows "sum_list qs > 0"
  using assms by (induction qs) (auto simp: add_pos_nonneg sum_list_nonneg less_imp_le)

lemma sum_list_div: "sum_list (map (\<lambda>q. q / (t :: rat)) qs) = sum_list qs / t"
  by (induction qs) (auto simp: add_divide_distrib)

text \<open>The shares after the second pass: all positive, and \<open>total\<close> is their sum.\<close>

lemma share_pass_length: "length (fst (share_pass ps)) = length ps"
  by (simp add: share_pass_def Let_def fill_percents_length)

lemma fix_percents_length [simp]: "length (fix_percents ps) = length ps"
  by (simp add: fix_percents_def Let_def split_def share_pass_length)

lemma share_pass_cases:
  obtains "\<forall>p \<in> set ps. p > 0" "share_pass ps = (ps, sum_list ps)"
  | "share_pass ps = fill_percents (length (filter (\<lambda>p. p > 0) ps)) (sum_list (filter (\<lambda>p. p > 0) ps)) ps"
proof (cases "length (filter (\<lambda>p. p > 0) ps) = length ps")
  case True
  then have pos: "\<forall>p \<in> set ps. p > 0" by (simp only: length_filter_eq)
  then have "filter (\<lambda>p. p > 0) ps = ps" by (simp add: filter_id_conv)
  with that(1)[OF pos] show thesis by (simp add: share_pass_def)
next
  case False
  with that(2) show thesis by (simp add: share_pass_def Let_def)
qed

lemma share_pass_total: "snd (share_pass ps) = sum_list (fst (share_pass ps))"
  by (cases rule: share_pass_cases[of ps]) (simp_all add: fill_percents_total)

lemma positive_part:
  fixes ps :: "rat list"
  defines "pos \<equiv> filter (\<lambda>p. p > 0) ps"
  shows "length pos = 0 \<or> sum_list pos > 0" and "sum_list pos \<ge> 0"
proof -
  have p: "\<forall>q \<in> set pos. q > 0" unfolding pos_def by (simp only: set_filter) blast
  show "length pos = 0 \<or> sum_list pos > 0"
  proof (cases "pos = []")
    case False
    from sum_list_pos[OF this p] show ?thesis ..
  qed simp
  show "sum_list pos \<ge> 0" by (rule sum_list_nonneg) (use p in \<open>blast intro: less_imp_le\<close>)
qed

lemma share_pass_pos: "\<forall>q \<in> set (fst (share_pass ps)). q > 0"
proof (cases rule: share_pass_cases[of ps])
  case 1
  from 1(1) show ?thesis unfolding 1(2) by (simp only: fst_conv)
next
  case 2
  show ?thesis unfolding 2 by (rule fill_percents_pos[OF positive_part])
qed

lemma fix_percents_distribution:
  assumes "ps \<noteq> []"
  shows "sum_list (fix_percents ps) = 1" and "\<forall>q \<in> set (fix_percents ps). q > 0"
proof -
  have "fst (share_pass ps) \<noteq> []" using share_pass_length[of ps] assms by auto
  then have p: "snd (share_pass ps) > 0"
    unfolding share_pass_total by (rule sum_list_pos) (rule share_pass_pos)
  then have "fix_percents ps = map (\<lambda>q. q / snd (share_pass ps)) (fst (share_pass ps))"
    by (cases "snd (share_pass ps) = 1") (auto simp: fix_percents_def Let_def split_def map_idI)
  with p show "sum_list (fix_percents ps) = 1" "\<forall>q \<in> set (fix_percents ps). q > 0"
    using share_pass_pos[of ps] by (auto simp: sum_list_div share_pass_total)
qed

text \<open>
  One new child among \<open>n\<close> gets the \<open>n\<close>-th part and the others keep their proportions.  With two
  new children the second one gets more than the first, because the running tot has grown.
\<close>

lemma fill_percents_all_pos:
  "\<forall>p \<in> set ps. p > 0 \<Longrightarrow> fill_percents k t ps = (ps, t)"
  by (induction ps arbitrary: t) auto

lemma fix_percents_one_new:
  assumes "\<forall>p \<in> set ps. p > 0" and "ps \<noteq> []" and "sum_list ps = 1" and "length ps = n"
  shows "fix_percents (ps @ [0]) =
    map (\<lambda>p. p * (of_nat n / of_nat (Suc n))) ps @ [1 / of_nat (Suc n)]"
proof -
  have fil: "filter (\<lambda>p. p > 0) (ps @ [0]) = ps" using assms(1) by (simp add: filter_id_conv)
  have fill: "fill_percents n t (ps @ [0]) = (ps @ [t / of_nat n], t + t / of_nat n)"
    if "n \<noteq> 0" for t :: rat and n
    using assms(1) that by (induction ps arbitrary: t) (auto simp: Let_def)
  have n: "n \<noteq> 0" using assms(2,4) by auto
  then have t: "1 + 1 / of_nat n = (of_nat (Suc n) / of_nat n :: rat)"
    by (simp add: field_simps)
  have ne: "(of_nat (Suc n) / of_nat n :: rat) \<noteq> 1" "(of_nat (Suc n) / of_nat n :: rat) \<noteq> 0"
    using n by (simp_all add: field_simps)
  show ?thesis
    unfolding fix_percents_def share_pass_def Let_def fil
    using assms(3,4) fill[OF n, of 1] n ne t
    by (simp add: field_simps del: of_nat_Suc)
qed

lemma fix_percents_two_new: "fix_percents [1, 0, 0] = [1/4, 1/4, 1/2]"
  by (simp add: fix_percents_def share_pass_def)

section \<open>On the heap\<close>

lemma con_fix_percent_links: "same_links s (con_fix_percent p s)"
  unfolding con_fix_percent_def Let_def
  by (rule same_links_upd_each) (auto split: option.splits)

lemma con_fix_percent_frame [simp]:
  "focused (con_fix_percent p s) = focused s" "cfg (con_fix_percent p s) = cfg s"
  "effects (con_fix_percent p s) = effects s" "clock (con_fix_percent p s) = clock s"
  "previous_workspace (con_fix_percent p s) = previous_workspace s"
  by (simp_all add: con_fix_percent_def Let_def)

lemma con_fix_percent_heap:
  assumes "distinct (nodes_head (heap s p))"
  shows "map (\<lambda>c. percent (heap (con_fix_percent p s) c)) (nodes_head (heap s p)) =
      fix_percents (map (\<lambda>c. percent (heap s c)) (nodes_head (heap s p)))"
    and "heap (con_fix_percent p s) c =
      (heap s c)\<lparr>percent := percent (heap (con_fix_percent p s) c)\<rparr>"
    and "c \<notin> set (nodes_head (heap s p)) \<Longrightarrow> heap (con_fix_percent p s) c = heap s c"
proof -
  let ?cs = "nodes_head (heap s p)"
  let ?qs = "fix_percents (map (\<lambda>c. percent (heap s c)) ?cs)"
  have h: "heap (con_fix_percent p s) c =
    (if c \<in> set ?cs then (case map_of (zip ?cs ?qs) c of
       Some q \<Rightarrow> (heap s c)\<lparr>percent := q\<rparr> | None \<Rightarrow> heap s c) else heap s c)" for c
    unfolding con_fix_percent_def Let_def by (rule upd_each_heap[OF assms])
  show "map (\<lambda>c. percent (heap (con_fix_percent p s) c)) ?cs = ?qs"
  proof (rule nth_equalityI)
    fix i assume i: "i < length (map (\<lambda>c. percent (heap (con_fix_percent p s) c)) ?cs)"
    then have "map_of (zip ?cs ?qs) (?cs ! i) = Some (?qs ! i)"
      using assms by (intro map_of_is_SomeI) (auto simp: set_zip)
    with i show "map (\<lambda>c. percent (heap (con_fix_percent p s) c)) ?cs ! i = ?qs ! i"
      by (simp add: h)
  qed simp
  show "heap (con_fix_percent p s) c =
      (heap s c)\<lparr>percent := percent (heap (con_fix_percent p s) c)\<rparr>"
    by (auto simp: h split: option.splits)
  show "heap (con_fix_percent p s) c = heap s c" if "c \<notin> set ?cs" using that by (simp add: h)
qed

text \<open>Shares that are already right are left alone.\<close>

lemma con_fix_percent_id:
  assumes "fix_percents (map (\<lambda>c. percent (heap s c)) (nodes_head (heap s p))) =
      map (\<lambda>c. percent (heap s c)) (nodes_head (heap s p))"
    and "distinct (nodes_head (heap s p))"
  shows "con_fix_percent p s = s"
proof -
  let ?cs = "nodes_head (heap s p)"
  have "percent (heap (con_fix_percent p s) c) = percent (heap s c)" for c
  proof (cases "c \<in> set ?cs")
    case True
    have "map (\<lambda>c. percent (heap (con_fix_percent p s) c)) ?cs = map (\<lambda>c. percent (heap s c)) ?cs"
      using con_fix_percent_heap(1)[OF assms(2)] assms(1) by simp
    then show ?thesis using True by simp
  next
    case False
    then show ?thesis using con_fix_percent_heap(3)[OF assms(2)] by simp
  qed
  then have "heap (con_fix_percent p s) c = heap s c" for c
    using con_fix_percent_heap(2)[OF assms(2), of c] by simp
  then show ?thesis
    using same_linksD(1-3)[OF con_fix_percent_links[of s p]] by (simp add: i3.equality fun_eq_iff)
qed

end
