(* ===== verification/Con_Attach.thy ===== *)
theory Con_Attach
  imports Con_Percent "HOL-Library.Multiset"
begin

text \<open>
  Creating, attaching and detaching containers (src/con.c, src/workspace.c): the operations all
  others are built from.  The main results are that they move a well-formed tree with a set of
  detached containers to a well-formed tree with one fewer or one more, and where in its new
  parent's queues a container ends up.
\<close>

section \<open>Reordering, linking and unlinking keep the invariant\<close>

text \<open>States whose queues hold the same containers, possibly in another order.\<close>

definition same_tree :: "i3 \<Rightarrow> i3 \<Rightarrow> bool" where
  "same_tree s t \<longleftrightarrow>
     all_cons t = all_cons s \<and> next_id t = next_id s \<and> croot t = croot s \<and>
     (\<forall>c. parent (heap t c) = parent (heap s c) \<and> con_type (heap t c) = con_type (heap s c) \<and>
          mset (nodes_head (heap t c)) = mset (nodes_head (heap s c)) \<and>
          mset (floating_head (heap t c)) = mset (floating_head (heap s c)) \<and>
          mset (focus_head (heap t c)) = mset (focus_head (heap s c)))"

lemma same_tree_links: "same_links s t \<Longrightarrow> same_tree s t"
  by (simp add: same_links_def same_tree_def)

lemma same_tree_refl [simp]: "same_tree s s" by (simp add: same_tree_def)

lemma same_tree_trans [trans]: "same_tree s t \<Longrightarrow> same_tree t u \<Longrightarrow> same_tree s u"
  by (simp add: same_tree_def)

lemma mset_distinct: "mset xs = mset ys \<Longrightarrow> distinct xs = distinct ys"
  by (metis distinct_count_atmost_1 set_mset_mset)

lemma same_treeD:
  assumes "same_tree s t"
  shows "all_cons t = all_cons s" "next_id t = next_id s" "croot t = croot s"
    "parent (heap t c) = parent (heap s c)" "con_type (heap t c) = con_type (heap s c)"
    "set (nodes_head (heap t c)) = set (nodes_head (heap s c))"
    "set (floating_head (heap t c)) = set (floating_head (heap s c))"
    "set (focus_head (heap t c)) = set (focus_head (heap s c))"
    "distinct (nodes_head (heap t c)) = distinct (nodes_head (heap s c))"
    "distinct (floating_head (heap t c)) = distinct (floating_head (heap s c))"
    "distinct (focus_head (heap t c)) = distinct (focus_head (heap s c))"
    "live t = live s" "up_fuel t = up_fuel s" "children t = children s"
proof -
  from assms have m: "mset (nodes_head (heap t x)) = mset (nodes_head (heap s x))"
    "mset (floating_head (heap t x)) = mset (floating_head (heap s x))"
    "mset (focus_head (heap t x)) = mset (focus_head (heap s x))" for x
    by (auto simp: same_tree_def)
  show "set (nodes_head (heap t c)) = set (nodes_head (heap s c))"
    "set (floating_head (heap t c)) = set (floating_head (heap s c))"
    "set (focus_head (heap t c)) = set (focus_head (heap s c))"
    by (rule mset_eq_setD[OF m(1)], rule mset_eq_setD[OF m(2)], rule mset_eq_setD[OF m(3)])
  show "distinct (nodes_head (heap t c)) = distinct (nodes_head (heap s c))"
    "distinct (floating_head (heap t c)) = distinct (floating_head (heap s c))"
    "distinct (focus_head (heap t c)) = distinct (focus_head (heap s c))"
    by (rule mset_distinct[OF m(1)], rule mset_distinct[OF m(2)], rule mset_distinct[OF m(3)])
  show "children t = children s"
    by (simp add: children_def fun_eq_iff mset_eq_setD[OF m(1)] mset_eq_setD[OF m(2)])
qed (use assms in \<open>simp_all add: same_tree_def live_def up_fuel_def\<close>)

lemma same_tree_wf:
  assumes "same_tree s t"
  shows "wf_tree D t = wf_tree D s"
proof -
  note e = same_treeD[OF assms]
  have "wf_con t = wf_con s" unfolding wf_con_def fun_eq_iff by (simp add: e)
  moreover have "child_rel t = child_rel s" unfolding child_rel_def by (simp only: e)
  ultimately show ?thesis unfolding wf_tree_def by (simp only: e)
qed

lemma same_tree_wf_mono: "same_tree s t \<Longrightarrow> wf_tree D s \<Longrightarrow> wf_tree D t"
  by (simp add: same_tree_wf)

lemma same_tree_subtree: "same_tree s t \<Longrightarrow> subtree t = subtree s"
  by (simp add: subtree_def child_rel_def fun_eq_iff same_treeD)

text \<open>\<open>t\<close> is \<open>s\<close> with the detached container \<open>c\<close> entered in the queues of \<open>p\<close>.\<close>

definition links_in :: "con_id \<Rightarrow> con_id \<Rightarrow> i3 \<Rightarrow> i3 \<Rightarrow> bool" where
  "links_in c p s t \<longleftrightarrow>
     all_cons t = all_cons s \<and> next_id t = next_id s \<and> croot t = croot s \<and>
     (\<forall>x. con_type (heap t x) = con_type (heap s x)) \<and>
     (\<forall>x. x \<noteq> c \<longrightarrow> parent (heap t x) = parent (heap s x)) \<and> parent (heap t c) = Some p \<and>
     (\<forall>x. x \<noteq> p \<longrightarrow> nodes_head (heap t x) = nodes_head (heap s x) \<and>
          floating_head (heap t x) = floating_head (heap s x) \<and>
          focus_head (heap t x) = focus_head (heap s x)) \<and>
     (if con_type (heap s c) = CT_FLOATING_CON
      then mset (floating_head (heap t p)) = add_mset c (mset (floating_head (heap s p))) \<and>
           mset (nodes_head (heap t p)) = mset (nodes_head (heap s p))
      else mset (nodes_head (heap t p)) = add_mset c (mset (nodes_head (heap s p))) \<and>
           mset (floating_head (heap t p)) = mset (floating_head (heap s p))) \<and>
     mset (focus_head (heap t p)) = add_mset c (mset (focus_head (heap s p)))"

lemma mset_insert_D:
  assumes "mset ys = add_mset c (mset xs)"
  shows "set ys = insert c (set xs)" and "distinct xs \<Longrightarrow> c \<notin> set xs \<Longrightarrow> distinct ys"
proof -
  have e: "mset ys = mset (c # xs)" using assms by simp
  then show "set ys = insert c (set xs)" using mset_eq_setD[OF e] by simp
  show "distinct ys" if "distinct xs" "c \<notin> set xs" using mset_distinct[OF e] that by simp
qed

lemma links_in_wf:
  assumes l: "links_in c p s t" and wf: "wf_tree (insert c D) s" and cD: "c \<notin> D"
    and p: "p \<in> live s" and np: "p \<notin> subtree s c"
  shows "wf_tree D t"
proof -
  have cp: "c \<noteq> p" using np by auto
  have cl: "c \<in> live s" using wf_treeD(5)[OF wf] by simp
  have cr: "c \<noteq> croot s" using wf_treeD(4)[OF wf] by auto
  have det: "c \<notin> children s q" if "q \<in> live s" for q using wf_treeD(9)[OF wf _ that] by simp
  have glob: "all_cons t = all_cons s" "next_id t = next_id s" "croot t = croot s" "live t = live s"
    and ty: "\<And>x. con_type (heap t x) = con_type (heap s x)"
    and par: "\<And>x. x \<noteq> c \<Longrightarrow> parent (heap t x) = parent (heap s x)" "parent (heap t c) = Some p"
    and oth: "\<And>x. x \<noteq> p \<Longrightarrow> nodes_head (heap t x) = nodes_head (heap s x)"
      "\<And>x. x \<noteq> p \<Longrightarrow> floating_head (heap t x) = floating_head (heap s x)"
      "\<And>x. x \<noteq> p \<Longrightarrow> focus_head (heap t x) = focus_head (heap s x)"
    and foc: "mset (focus_head (heap t p)) = add_mset c (mset (focus_head (heap s p)))"
    using l by (auto simp: links_in_def live_def)
  have wp: "wf_con s p" by (rule wf_treeD(7)[OF wf p])
  have ch: "children t x = (if x = p then insert c (children s p) else children s x)" for x
    using l oth mset_insert_D(1)[of "nodes_head (heap t p)" c "nodes_head (heap s p)"]
      mset_insert_D(1)[of "floating_head (heap t p)" c "floating_head (heap s p)"]
    by (auto simp: links_in_def children_def dest: mset_eq_setD split: if_splits)
  have cnp: "c \<notin> set (nodes_head (heap s p))" "c \<notin> set (floating_head (heap s p))"
    "c \<notin> set (focus_head (heap s p))"
    using det[OF p] wf_conD(4)[OF wp] by (auto simp: children_def)
  have wct: "wf_con t p"
  proof -
    have n: "distinct (nodes_head (heap t p))" "distinct (floating_head (heap t p))"
      using l wf_conD(1,2)[OF wp] cnp mset_distinct mset_insert_D(2)
      unfolding links_in_def by (metis (no_types, lifting))+
    have f: "distinct (focus_head (heap t p))" "set (focus_head (heap t p)) = children t p"
      using mset_insert_D[OF foc] wf_conD(3,4)[OF wp] cnp ch by auto
    have s: "set (nodes_head (heap t p)) \<subseteq> (if con_type (heap s c) = CT_FLOATING_CON
        then set (nodes_head (heap s p)) else insert c (set (nodes_head (heap s p))))"
      "set (floating_head (heap t p)) \<subseteq> (if con_type (heap s c) = CT_FLOATING_CON
        then insert c (set (floating_head (heap s p))) else set (floating_head (heap s p)))"
      using l mset_insert_D(1)[of "nodes_head (heap t p)" c "nodes_head (heap s p)"]
        mset_insert_D(1)[of "floating_head (heap t p)" c "floating_head (heap s p)"]
      by (auto simp: links_in_def dest: mset_eq_setD split: if_splits)
    have m: "\<forall>x \<in> children t p. x \<in> live t \<and> parent (heap t x) = Some p"
    proof
      fix x assume "x \<in> children t p"
      then have "x = c \<or> x \<noteq> c \<and> x \<in> children s p" using ch by auto
      then show "x \<in> live t \<and> parent (heap t x) = Some p"
        using wf_conD(5,6)[OF wp] cl par glob by auto
    qed
    have k: "\<forall>x \<in> set (nodes_head (heap t p)). con_type (heap t x) \<noteq> CT_FLOATING_CON"
      "\<forall>x \<in> set (floating_head (heap t p)). con_type (heap t x) = CT_FLOATING_CON"
      using s wf_conD(7,8)[OF wp] by (auto simp: ty split: if_splits)
    show ?thesis unfolding wf_con_def by (intro conjI n f m k)
  qed
  have wco: "wf_con t x" if x: "x \<in> live s" "x \<noteq> p" for x
  proof -
    have chx: "children t x = children s x" using ch x by simp
    have px: "parent (heap t y) = parent (heap s y)" if "y \<in> children s x" for y
      using that det[OF x(1)] by (intro par(1)) auto
    show ?thesis
      using wf_treeD(7)[OF wf x(1)] px
      unfolding wf_con_def oth[OF x(2)] ty glob(4) chx by simp
  qed
  have wca: "\<forall>x \<in> live t. wf_con t x"
  proof
    fix x assume "x \<in> live t"
    then show "wf_con t x" using wct wco glob(4) by (cases "x = p") auto
  qed
  have rel: "child_rel t = insert (c, p) (child_rel s)"
    using ch p by (auto simp: child_rel_def glob split: if_splits)
  have ac: "acyclic (child_rel t)"
    unfolding rel acyclic_insert using wf_treeD(6)[OF wf] np by (auto simp: subtree_def)
  have up: "\<exists>q \<in> live t. parent (heap t x) = Some q \<and> x \<in> children t q"
    if x: "x \<in> live t - D - {croot t}" for x
  proof (cases "x = c")
    case True
    with par ch p glob show ?thesis by auto
  next
    case False
    with x glob obtain q where "q \<in> live s" "parent (heap s x) = Some q" "x \<in> children s q"
      using wf_treeD(8)[OF wf, of x] by auto
    with False par ch glob show ?thesis by auto
  qed
  have dd: "x \<notin> children t q" if "x \<in> D" "q \<in> live t" for x q
    using that wf_treeD(9)[OF wf, of x q] ch[of q] cD glob by (auto split: if_splits)
  show ?thesis
    unfolding wf_tree_def
    using wf_treeD[OF wf] glob par(1)[of "croot s"] cr wca ac up dd by (auto 0 3)
qed

text \<open>\<open>t\<close> is \<open>s\<close> with the child \<open>c\<close> of \<open>p\<close> taken out of the queues of \<open>p\<close>.\<close>

definition links_out :: "con_id \<Rightarrow> con_id \<Rightarrow> i3 \<Rightarrow> i3 \<Rightarrow> bool" where
  "links_out c p s t \<longleftrightarrow>
     all_cons t = all_cons s \<and> next_id t = next_id s \<and> croot t = croot s \<and>
     (\<forall>x. con_type (heap t x) = con_type (heap s x) \<and> parent (heap t x) = parent (heap s x)) \<and>
     (\<forall>x. x \<noteq> p \<longrightarrow> nodes_head (heap t x) = nodes_head (heap s x) \<and>
          floating_head (heap t x) = floating_head (heap s x) \<and>
          focus_head (heap t x) = focus_head (heap s x)) \<and>
     nodes_head (heap t p) = remove1 c (nodes_head (heap s p)) \<and>
     floating_head (heap t p) = remove1 c (floating_head (heap s p)) \<and>
     focus_head (heap t p) = remove1 c (focus_head (heap s p))"

lemma links_out_wf:
  assumes l: "links_out c p s t" and wf: "wf_tree D s" and p: "p \<in> live s"
    and c: "c \<in> children s p"
  shows "wf_tree (insert c D) t" and "children t p = children s p - {c}"
    and "x \<noteq> p \<Longrightarrow> children t x = children s x"
proof -
  have glob: "all_cons t = all_cons s" "next_id t = next_id s" "croot t = croot s" "live t = live s"
    and ty: "\<And>x. con_type (heap t x) = con_type (heap s x)"
    and par: "\<And>x. parent (heap t x) = parent (heap s x)"
    and oth: "\<And>x. x \<noteq> p \<Longrightarrow> nodes_head (heap t x) = nodes_head (heap s x)"
      "\<And>x. x \<noteq> p \<Longrightarrow> floating_head (heap t x) = floating_head (heap s x)"
      "\<And>x. x \<noteq> p \<Longrightarrow> focus_head (heap t x) = focus_head (heap s x)"
    and pq: "nodes_head (heap t p) = remove1 c (nodes_head (heap s p))"
      "floating_head (heap t p) = remove1 c (floating_head (heap s p))"
      "focus_head (heap t p) = remove1 c (focus_head (heap s p))"
    using l by (auto simp: links_out_def live_def)
  have wp: "wf_con s p" by (rule wf_treeD(7)[OF wf p])
  note cp = child_parent[OF wf p c]
  show chp: "children t p = children s p - {c}"
    using wf_conD(1,2)[OF wp] by (auto simp: children_def pq)
  have cho: "children t x = children s x" if "x \<noteq> p" for x
    using oth[OF that] by (simp add: children_def)
  then show "x \<noteq> p \<Longrightarrow> children t x = children s x" .
  have ce: "c \<notin> children s x" if "x \<in> live s" "x \<noteq> p" for x
    using child_parent(1)[OF wf that(1)] cp(1) that(2) by auto
  have wct: "wf_con t x" if x: "x \<in> live s" for x
  proof (cases "x = p")
    case True
    show ?thesis
      unfolding True wf_con_def chp pq ty par glob
      using wf_conD[OF wp] by (auto dest: set_remove1_subset[THEN subsetD])
  next
    case False
    show ?thesis
      using wf_treeD(7)[OF wf x] unfolding wf_con_def oth[OF False] cho[OF False] ty par glob .
  qed
  have "child_rel t \<subseteq> child_rel s"
  proof
    fix e assume "e \<in> child_rel t"
    then show "e \<in> child_rel s"
      using chp cho glob by (cases e, cases "snd e = p") (auto simp: child_rel_def)
  qed
  with wf_treeD(6)[OF wf] have ac: "acyclic (child_rel t)" by (rule acyclic_subset)
  have up: "\<exists>q \<in> live t. parent (heap t x) = Some q \<and> x \<in> children t q"
    if x: "x \<in> live t - insert c D - {croot t}" for x
  proof -
    from x glob obtain q where q: "q \<in> live s" "parent (heap s x) = Some q" "x \<in> children s q"
      using wf_treeD(8)[OF wf, of x] by auto
    with x chp cho[of q] have "x \<in> children t q" by (cases "q = p") auto
    with q par glob show ?thesis by auto
  qed
  have dd: "x \<notin> children t q" if "x \<in> insert c D" "q \<in> live t" for x q
    using that wf_treeD(9)[OF wf, of x q] chp cho[of q] ce glob by (cases "q = p") auto
  show "wf_tree (insert c D) t"
    unfolding wf_tree_def
    using wf_treeD[OF wf] glob par cp wct ac up dd by (auto 0 3)
qed


section \<open>Creating containers\<close>

text \<open>
  What \<open>scalloc\<close> and the assignments of \<open>con_new_skeleton\<close> leave in a new container.
\<close>

definition new_con :: "config \<Rightarrow> window option \<Rightarrow> con" where
  "new_con g w =
     \<lparr>mapped = False, urgent = False, con_type = CT_CON, ws_num = 0,
      con_gaps = \<lparr>g_inner = 0, g_top = 0, g_right = 0, g_bottom = 0, g_left = 0\<rparr>,
      parent = None, con_rect = mk_rect 0 0 0 0, window_rect = mk_rect 0 0 0 0,
      deco_rect = mk_rect 0 0 0 0, con_geometry = mk_rect 0 0 0 0, con_name = None,
      title_format = None, sticky_group = None, marks = [], mark_changed = False, percent = 0,
      border_width = 0, current_border_width = -1, con_window = w, urgency_timer = False, deco_params = False,
      floating_head = [], nodes_head = [], focus_head = [], swallow_head = [],
      fullscreen_mode = CF_NONE,
      sticky = False, layout = L_DEFAULT, last_split_layout = L_DEFAULT,
      workspace_layout = L_DEFAULT, con_border_style_field = default_border g,
      max_user_border_style = default_border g, con_floating = FLOATING_AUTO_OFF,
      scratchpad_state = SCRATCHPAD_NONE, window_icon_padding = -1, ignore_unmap = 0,
      con_depth = map_option win_depth w\<rparr>"

lemma new_con_simps [simp]:
  "con_type (new_con g w) = CT_CON" "parent (new_con g w) = None"
  "con_window (new_con g w) = w" "nodes_head (new_con g w) = []"
  "floating_head (new_con g w) = []" "focus_head (new_con g w) = []"
  "percent (new_con g w) = 0" "marks (new_con g w) = []" "urgent (new_con g w) = False"
  "fullscreen_mode (new_con g w) = CF_NONE" "layout (new_con g w) = L_DEFAULT"
  by (simp_all add: new_con_def)

definition con_alloc :: "window option \<Rightarrow> i3 \<Rightarrow> con_id \<times> i3" where
  "con_alloc w s =
     (next_id s, s\<lparr>heap := (heap s)(next_id s := new_con (cfg s) w),
                   all_cons := all_cons s @ [next_id s], next_id := Suc (next_id s)\<rparr>)"

text \<open>\<open>con_new\<close> without a parent.\<close>

definition con_new_detached :: "window option \<Rightarrow> i3 \<Rightarrow> con_id \<times> i3" where
  "con_new_detached w s = (let (c, s) = con_alloc w s in (c, emit (X_Con_Init c) s))"

section \<open>Attaching\<close>

text \<open>
  Workspaces are kept in the order of their numbers, those without a number (\<open>-1\<close>) last; the
  scan stops at the first workspace without a number or with a larger one.
\<close>

definition insert_workspace :: "i3 \<Rightarrow> con_id \<Rightarrow> con_id list \<Rightarrow> con_id list" where
  "insert_workspace s c ns =
     (let n = ws_num (heap s c) in
      if n = -1 \<or> ns = [] then ns @ [c]
      else if n < ws_num (heap s (hd ns)) then c # ns
      else case List.find (\<lambda>d. \<not> (ws_num (heap s d) \<noteq> -1 \<and> n \<ge> ws_num (heap s d))) ns of
             Some d \<Rightarrow> insert_before d c ns
           | None \<Rightarrow> ns @ [c])"

text \<open>Dock clients are sorted by class and instance.  Every dock client must have a window.\<close>

definition dock_compare :: "window \<Rightarrow> window \<Rightarrow> int" where
  "dock_compare v w =
     (let r = strcasecmp_nullable (win_class v) (win_class w)
      in if r = 0 then strcasecmp_nullable (win_instance v) (win_instance w) else r)"

definition insert_dock :: "i3 \<Rightarrow> con_id \<Rightarrow> con_id list \<Rightarrow> con_id list option" where
  "insert_dock s c ns = do {
     r \<leftarrow> first_opt (\<lambda>d. do {
            v \<leftarrow> con_window (heap s c);
            w \<leftarrow> con_window (heap s d);
            Some (if dock_compare v w < 0 then Some d else None) }) ns;
     Some (case r of Some d \<Rightarrow> insert_before d c ns | None \<Rightarrow> ns @ [c])
   }"

text \<open>
  \<open>_con_attach\<close> and \<open>workspace_attach_to\<close> call each other.  The container that
  \<open>workspace_attach_to\<close> creates has no window, so the call it makes does not call it again and
  two levels are enough.
\<close>

definition workspace_attach_with ::
  "(con_id \<Rightarrow> con_id \<Rightarrow> i3 \<Rightarrow> i3 option) \<Rightarrow> con_id \<Rightarrow> i3 \<Rightarrow> (con_id \<times> i3) option" where
  "workspace_attach_with att ws s =
     (if workspace_layout (heap s ws) = L_DEFAULT then Some (ws, s)
      else let (new, s) = con_new_detached None s;
               s = upd new (\<lambda>n. n\<lparr>parent := Some ws\<rparr>) s;
               s = upd new (\<lambda>n. n\<lparr>layout := workspace_layout (heap s ws)\<rparr>) s
           in do { s \<leftarrow> att new ws s; Some (new, con_fix_percent ws s) })"

definition attach_target :: "con_id \<Rightarrow> con_id option \<Rightarrow> con_id list \<Rightarrow> con_id list option" where
  "attach_target c cur ns =
     (case cur of Some d \<Rightarrow> link_after d c ns | None \<Rightarrow> Some (ns @ [c]))"

fun attach :: "nat \<Rightarrow> con_id \<Rightarrow> con_id \<Rightarrow> con_id option \<Rightarrow> bool \<Rightarrow> i3 \<Rightarrow> i3 option" where
  "attach 0 c p previous ignore_focus s = None"
| "attach (Suc k) c p previous ignore_focus s =
     (let s = upd c (\<lambda>n. n\<lparr>parent := Some p\<rparr>) s in do {
       (t, s) \<leftarrow>
         (if con_type (heap s c) = CT_WORKSPACE then
            Some (p, upd p (\<lambda>n. n\<lparr>nodes_head := insert_workspace s c (nodes_head n)\<rparr>) s)
          else if con_type (heap s p) = CT_DOCKAREA then do {
            ns \<leftarrow> insert_dock s c (nodes_head (heap s p));
            Some (p, upd p (\<lambda>n. n\<lparr>nodes_head := ns\<rparr>) s) }
          else if con_type (heap s c) = CT_FLOATING_CON then
            Some (p, upd p (\<lambda>n. n\<lparr>floating_head := floating_head n @ [c]\<rparr>) s)
          else
            let current = (if ignore_focus then previous
                           else case first_tiling_focus s p of Some d \<Rightarrow> Some d | None \<Rightarrow> previous)
            in if con_window (heap s c) \<noteq> None \<and> con_type (heap s p) = CT_WORKSPACE \<and>
                  workspace_layout (heap s p) \<noteq> L_DEFAULT
            then do {
              (t, s) \<leftarrow> workspace_attach_with (\<lambda>new ws. attach k new ws None False) p s;
              let s = upd c (\<lambda>n. n\<lparr>parent := Some t\<rparr>) s;
              Some (t, upd t (\<lambda>n. n\<lparr>nodes_head := nodes_head n @ [c]\<rparr>) s) }
            else do {
              ns \<leftarrow> attach_target c (if con_type (heap s p) \<noteq> CT_OUTPUT then current else None)
                     (nodes_head (heap s p));
              Some (p, upd p (\<lambda>n. n\<lparr>nodes_head := ns\<rparr>) s) });
       con_force_split_parents_redraw c (upd t (\<lambda>n. n\<lparr>focus_head := focus_head n @ [c]\<rparr>) s)
     })"

definition attach_fuel :: nat where "attach_fuel = 2"

definition con_attach :: "con_id \<Rightarrow> con_id \<Rightarrow> bool \<Rightarrow> i3 \<Rightarrow> i3 option" where
  "con_attach c p ignore_focus s = attach attach_fuel c p None ignore_focus s"

definition workspace_attach_to :: "con_id \<Rightarrow> i3 \<Rightarrow> (con_id \<times> i3) option" where
  "workspace_attach_to ws s = workspace_attach_with (\<lambda>new ws. con_attach new ws False) ws s"

definition con_new_skeleton :: "con_id option \<Rightarrow> window option \<Rightarrow> i3 \<Rightarrow> (con_id \<times> i3) option" where
  "con_new_skeleton p w s =
     (let (c, s) = con_alloc w s in
      case p of None \<Rightarrow> Some (c, s)
      | Some q \<Rightarrow> map_option (Pair c) (con_attach c q False s))"

definition con_new :: "con_id option \<Rightarrow> window option \<Rightarrow> i3 \<Rightarrow> (con_id \<times> i3) option" where
  "con_new p w s = map_option (\<lambda>(c, s). (c, emit (X_Con_Init c) s)) (con_new_skeleton p w s)"

text \<open>\<open>con_detach\<close> leaves the parent pointer of the container in place.\<close>

definition con_detach :: "con_id \<Rightarrow> i3 \<Rightarrow> i3 option" where
  "con_detach c s = do {
     s \<leftarrow> con_force_split_parents_redraw c s;
     p \<leftarrow> parent (heap s c);
     if con_type (heap s c) = CT_FLOATING_CON then do {
       fl \<leftarrow> unlink c (floating_head (heap s p));
       fo \<leftarrow> unlink c (focus_head (heap s p));
       Some (upd p (\<lambda>n. n\<lparr>floating_head := fl, focus_head := fo\<rparr>) s) }
     else do {
       ns \<leftarrow> unlink c (nodes_head (heap s p));
       fo \<leftarrow> unlink c (focus_head (heap s p));
       Some (upd p (\<lambda>n. n\<lparr>nodes_head := ns, focus_head := fo\<rparr>) s) }
   }"

text \<open>\<open>con_free\<close> takes the container out of the list of all containers.\<close>

definition con_free :: "con_id \<Rightarrow> i3 \<Rightarrow> i3 option" where
  "con_free c s = map_option (\<lambda>cs. s\<lparr>all_cons := cs\<rparr>) (unlink c (all_cons s))"


section \<open>Attaching and detaching keep the tree well-formed\<close>

lemma mset_insert_before: "r \<in> set xs \<Longrightarrow> mset (insert_before r x xs) = add_mset x (mset xs)"
  by (induction xs) auto

lemma mset_insert_after: "r \<in> set xs \<Longrightarrow> mset (insert_after r x xs) = add_mset x (mset xs)"
  by (induction xs) auto

lemma mset_insert_workspace: "mset (insert_workspace s c ns) = add_mset c (mset ns)"
  by (auto simp: insert_workspace_def Let_def mset_insert_before split: option.splits
      dest: find_SomeD)

lemma first_opt_SomeD:
  "first_opt f xs = Some (Some y) \<Longrightarrow> \<exists>x \<in> set xs. f x = Some (Some y)"
  by (induction xs) (auto simp: bind_eq_Some split: option.splits)

lemma mset_insert_dock: "insert_dock s c ns = Some ms \<Longrightarrow> mset ms = add_mset c (mset ns)"
  by (auto simp: insert_dock_def bind_eq_Some mset_insert_before split: option.splits if_splits
      dest!: first_opt_SomeD)

lemma mset_attach_target:
  "attach_target c cur ns = Some ms \<Longrightarrow> mset ms = add_mset c (mset ns)"
  by (auto simp: attach_target_def link_after_def mset_insert_after
      split: option.splits if_splits)

lemma con_alloc_wf:
  assumes wf: "wf_tree D s"
  shows "wf_tree (insert (next_id s) D) (snd (con_alloc w s))"
    and "next_id s \<notin> live s"
    and "live (snd (con_alloc w s)) = insert (next_id s) (live s)"
    and "children (snd (con_alloc w s)) (next_id s) = {}"
    and "x \<in> live s \<Longrightarrow> children (snd (con_alloc w s)) x = children s x"
    and "child_rel (snd (con_alloc w s)) = child_rel s"
proof -
  let ?n = "next_id s" and ?t = "snd (con_alloc w s)"
  show new: "?n \<notin> live s" using wf_treeD(10)[OF wf] by blast
  then have h: "heap ?t x = heap s x" if "x \<in> live s" for x
    using that by (auto simp: con_alloc_def)
  have hn: "heap ?t ?n = new_con (cfg s) w" by (simp add: con_alloc_def)
  show l: "live ?t = insert ?n (live s)" by (auto simp: con_alloc_def live_def)
  show cn: "children ?t ?n = {}" by (simp add: children_def hn)
  show co: "children ?t x = children s x" if "x \<in> live s" for x
    using h[OF that] by (simp add: children_def)
  show r: "child_rel ?t = child_rel s"
    using l cn co new by (auto simp: child_rel_def)
  have wc: "wf_con ?t x" if "x \<in> live s" for x
    using wf_treeD(7)[OF wf that] wf_conD(4,5)[OF wf_treeD(7)[OF wf that]]
    unfolding wf_con_def co[OF that] l h[OF that]
    by (auto simp: h children_def)
  have wn: "wf_con ?t ?n" by (simp add: wf_con_def cn hn)
  have up: "\<exists>q \<in> live ?t. parent (heap ?t x) = Some q \<and> x \<in> children ?t q"
    if "x \<in> live ?t - insert ?n D - {croot s}" for x
    using that wf_treeD(8)[OF wf, of x] l h co by auto
  have dd: "x \<notin> children ?t q" if "x \<in> insert ?n D" "q \<in> live ?t" for x q
  proof (cases "q = ?n")
    case False
    with that l have q: "q \<in> live s" by simp
    show ?thesis
      using that(1) wf_treeD(9)[OF wf _ q] co[OF q] new wf_conD(5)[OF wf_treeD(7)[OF wf q]] by auto
  qed (simp add: cn)
  have g: "distinct (all_cons ?t)" "croot ?t = croot s" "\<forall>x \<in> live ?t. x < next_id ?t"
    using wf_treeD(1,10)[OF wf] new l by (auto simp: con_alloc_def live_def less_Suc_eq)
  show "wf_tree (insert ?n D) ?t"
    unfolding wf_tree_def
    using g wf_treeD(2-5)[OF wf] new l h wc wn up dd wf_treeD(6)[OF wf] r by auto
qed

lemma con_new_detached_links:
  "con_new_detached w s = (next_id s, emit (X_Con_Init (next_id s)) (snd (con_alloc w s)))"
  by (simp add: con_new_detached_def con_alloc_def)

text \<open>Attaching where no default layout of a workspace applies.\<close>

definition wraps :: "i3 \<Rightarrow> con_id \<Rightarrow> con_id \<Rightarrow> bool" where
  "wraps s c p \<longleftrightarrow>
     con_type (heap s c) \<noteq> CT_WORKSPACE \<and> con_type (heap s c) \<noteq> CT_FLOATING_CON \<and>
     con_window (heap s c) \<noteq> None \<and> con_type (heap s p) = CT_WORKSPACE \<and>
     workspace_layout (heap s p) \<noteq> L_DEFAULT"

lemma links_in_then: "links_in c p s t \<Longrightarrow> same_links t u \<Longrightarrow> links_in c p s u"
  unfolding links_in_def by (simp add: same_linksD)

lemma after_links_in: "same_links s t \<Longrightarrow> links_in c p t u \<Longrightarrow> links_in c p s u"
  unfolding links_in_def by (simp add: same_linksD)

lemma redraw_links: "con_force_split_parents_redraw c s = Some t \<Longrightarrow> same_links s t"
  by (intro same_links_deco force_redraw_same)

lemma links_in_nodes:
  assumes "mset ns = add_mset c (mset (nodes_head (heap s p)))"
    and "con_type (heap s c) \<noteq> CT_FLOATING_CON" and "c \<noteq> p"
  shows "links_in c p s (upd p (\<lambda>n. n\<lparr>focus_head := focus_head n @ [c]\<rparr>)
           (upd p (\<lambda>n. n\<lparr>nodes_head := ns\<rparr>) (upd c (\<lambda>n. n\<lparr>parent := Some p\<rparr>) s)))"
  using assms by (auto simp: links_in_def)

lemma links_in_tail:
  assumes "con_type (heap s c) \<noteq> CT_FLOATING_CON" and "c \<noteq> p"
  shows "links_in c p s (upd p (\<lambda>n. n\<lparr>focus_head := focus_head n @ [c]\<rparr>)
           (upd p (\<lambda>n. n\<lparr>nodes_head := nodes_head n @ [c]\<rparr>)
             (upd c (\<lambda>n. n\<lparr>parent := Some p\<rparr>) s)))"
  using assms by (auto simp: links_in_def)

lemma links_in_floating:
  assumes "con_type (heap s c) = CT_FLOATING_CON" and "c \<noteq> p"
  shows "links_in c p s (upd p (\<lambda>n. n\<lparr>focus_head := focus_head n @ [c]\<rparr>)
           (upd p (\<lambda>n. n\<lparr>floating_head := floating_head n @ [c]\<rparr>)
             (upd c (\<lambda>n. n\<lparr>parent := Some p\<rparr>) s)))"
  using assms by (auto simp: links_in_def)

lemma attach_plain_links:
  assumes a: "attach (Suc k) c p prev ign s = Some t" and cp: "c \<noteq> p" and nw: "\<not> wraps s c p"
    and dock: "con_type (heap s p) = CT_DOCKAREA \<Longrightarrow> con_type (heap s c) \<noteq> CT_FLOATING_CON"
  shows "links_in c p s t"
proof -
  let ?s = "upd c (\<lambda>n. n\<lparr>parent := Some p\<rparr>) s"
  let ?foc = "upd p (\<lambda>n. n\<lparr>focus_head := focus_head n @ [c]\<rparr>)"
  have same: "con_type (heap ?s x) = con_type (heap s x)"
    "con_window (heap ?s x) = con_window (heap s x)"
    "workspace_layout (heap ?s x) = workspace_layout (heap s x)"
    "nodes_head (heap ?s x) = nodes_head (heap s x)" for x
    by simp_all
  consider (nodes) ns where "mset ns = add_mset c (mset (nodes_head (heap s p)))"
      "con_type (heap s c) \<noteq> CT_FLOATING_CON"
      "con_force_split_parents_redraw c (?foc (upd p (\<lambda>n. n\<lparr>nodes_head := ns\<rparr>) ?s)) = Some t"
    | (floating) "con_type (heap s c) = CT_FLOATING_CON"
      "con_force_split_parents_redraw c
         (?foc (upd p (\<lambda>n. n\<lparr>floating_head := floating_head n @ [c]\<rparr>) ?s)) = Some t"
  proof -
    have upd_ns: "upd p (\<lambda>n. n\<lparr>nodes_head := f (nodes_head n)\<rparr>) ?s =
        upd p (\<lambda>n. n\<lparr>nodes_head := f (nodes_head (heap s p))\<rparr>) ?s" for f
      using cp by (simp add: upd_def)
    show thesis
      using a dock nw that(1)[OF mset_insert_workspace] that(1)[OF mset_insert_dock]
        that(1)[OF mset_attach_target] that(2)
      unfolding attach.simps Let_def same wraps_def upd_ns
      by (auto simp: bind_eq_Some simp del: upd_simps split: if_splits)
  qed
  then show ?thesis
  proof cases
    case nodes
    show ?thesis
      by (rule links_in_then[OF links_in_nodes[OF nodes(1,2) cp] redraw_links[OF nodes(3)]])
  next
    case floating
    show ?thesis
      by (rule links_in_then[OF links_in_floating[OF floating(1) cp] redraw_links[OF floating(2)]])
  qed
qed


text \<open>Links below a container that is not the new parent's ancestor do not change.\<close>

lemma links_in_children:
  assumes "links_in c p s t"
  shows "children t x = (if x = p then insert c (children s p) else children s x)"
proof (cases "x = p")
  case True
  have "children t p = insert c (children s p)"
    using assms mset_insert_D(1)[of "nodes_head (heap t p)" c "nodes_head (heap s p)"]
      mset_insert_D(1)[of "floating_head (heap t p)" c "floating_head (heap s p)"]
    by (auto simp: links_in_def children_def dest: mset_eq_setD split: if_splits)
  with True show ?thesis by simp
next
  case False
  with assms show ?thesis by (simp add: links_in_def children_def)
qed

lemma links_in_rel:
  assumes "links_in c p s t" and "p \<in> live s"
  shows "child_rel t = insert (c, p) (child_rel s)"
  using links_in_children[OF assms(1)] assms(1,2)
  by (auto simp: child_rel_def live_def links_in_def split: if_splits)

lemma subtree_insert_rel:
  assumes "child_rel t = insert (c, p) (child_rel s)" and "p \<notin> subtree s x"
  shows "subtree t x = subtree s x"
proof -
  have "(y, x) \<in> (insert (c, p) (child_rel s))\<^sup>* \<longleftrightarrow> (y, x) \<in> (child_rel s)\<^sup>*" for y
  proof
    assume "(y, x) \<in> (insert (c, p) (child_rel s))\<^sup>*"
    then show "(y, x) \<in> (child_rel s)\<^sup>*"
    proof (induction rule: converse_rtrancl_induct)
      case (step y z)
      then have "z \<in> subtree s x" by (simp add: subtree_def)
      with assms(2) have "z \<noteq> p" by auto
      with step show ?case by (auto intro: converse_rtrancl_into_rtrancl)
    qed simp
  qed (rule rtrancl_mono[THEN subsetD], auto)
  with assms(1) show ?thesis by (simp add: subtree_def)
qed

lemma detached_parent:
  assumes wf: "wf_tree D s" and c: "c \<in> D"
  shows "wf_tree D (upd c (\<lambda>n. n\<lparr>parent := q\<rparr>) s)"
    and "child_rel (upd c (\<lambda>n. n\<lparr>parent := q\<rparr>) s) = child_rel s"
proof -
  let ?t = "upd c (\<lambda>n. n\<lparr>parent := q\<rparr>) s"
  have ch: "children ?t x = children s x" for x by (simp add: children_def)
  show r: "child_rel ?t = child_rel s" by (simp add: child_rel_def ch)
  have cr: "c \<noteq> croot s" using wf_treeD(4)[OF wf] c by auto
  have wc: "wf_con ?t x" if x: "x \<in> live s" for x
    using wf_treeD(7)[OF wf x] wf_treeD(9)[OF wf c x]
    unfolding wf_con_def ch by auto
  have up: "\<exists>q \<in> live s. parent (heap ?t x) = Some q \<and> x \<in> children ?t q"
    if "x \<in> live s - D - {croot s}" for x
    using that wf_treeD(8)[OF wf, of x] c ch by auto
  show "wf_tree D ?t"
    unfolding wf_tree_def r
    using wf_treeD[OF wf] cr wc up ch by auto
qed

lemma wraps_attach:
  assumes "wraps s c p" and "attach (Suc k) c p prev ign s = Some t" and "c \<noteq> p"
  obtains new u where
    "workspace_attach_with (\<lambda>new ws. attach k new ws None False) p
       (upd c (\<lambda>n. n\<lparr>parent := Some p\<rparr>) s) = Some (new, u)"
    "con_force_split_parents_redraw c (upd new (\<lambda>n. n\<lparr>focus_head := focus_head n @ [c]\<rparr>)
       (upd new (\<lambda>n. n\<lparr>nodes_head := nodes_head n @ [c]\<rparr>)
         (upd c (\<lambda>n. n\<lparr>parent := Some new\<rparr>) u))) = Some t"
  using assms by (auto simp: wraps_def Let_def bind_eq_Some)

text \<open>The state in which \<open>workspace_attach_to\<close> attaches its new container.\<close>

definition split_state :: "con_id \<Rightarrow> i3 \<Rightarrow> i3" where
  "split_state p s =
     upd (next_id s) (\<lambda>n. n\<lparr>layout := workspace_layout (heap s p)\<rparr>)
       (upd (next_id s) (\<lambda>n. n\<lparr>parent := Some p\<rparr>)
         (emit (X_Con_Init (next_id s)) (snd (con_alloc None s))))"

lemma split_state_facts:
  assumes wf: "wf_tree D s"
  shows "wf_tree (insert (next_id s) D) (split_state p s)"
    and "child_rel (split_state p s) = child_rel s"
    and "live (split_state p s) = insert (next_id s) (live s)"
    and "con_window (heap (split_state p s) (next_id s)) = None"
    and "con_type (heap (split_state p s) (next_id s)) = CT_CON"
    and "nodes_head (heap (split_state p s) (next_id s)) = []"
    and "x \<in> live s \<Longrightarrow> heap (split_state p s) x = heap s x"
    and "next_id s \<notin> live s"
    and "subtree (split_state p s) (next_id s) = {next_id s}"
proof -
  let ?a = "emit (X_Con_Init (next_id s)) (snd (con_alloc None s))"
  let ?b = "upd (next_id s) (\<lambda>n. n\<lparr>parent := Some p\<rparr>) ?a"
  have wa: "wf_tree (insert (next_id s) D) ?a"
    unfolding same_links_wf[OF same_links_emit] by (rule con_alloc_wf(1)[OF wf])
  have wp: "wf_tree (insert (next_id s) D) ?b" "child_rel ?b = child_rel ?a"
    using detached_parent[OF wa insertI1] by auto
  have sl: "same_links ?b (split_state p s)"
    unfolding split_state_def by (rule same_links_upd) simp_all
  show "wf_tree (insert (next_id s) D) (split_state p s)"
    using wp(1) by (simp only: same_links_wf[OF sl])
  show "child_rel (split_state p s) = child_rel s"
    using same_links_child_rel[OF sl] wp(2) same_links_child_rel[OF same_links_emit]
      con_alloc_wf(6)[OF wf] by metis
  show l: "live (split_state p s) = insert (next_id s) (live s)"
    using con_alloc_wf(3)[OF wf] by (simp add: live_def split_state_def)
  show "con_window (heap (split_state p s) (next_id s)) = None"
    "con_type (heap (split_state p s) (next_id s)) = CT_CON"
    "nodes_head (heap (split_state p s) (next_id s)) = []"
    by (simp_all add: con_alloc_def split_state_def)
  show n: "next_id s \<notin> live s" by (rule con_alloc_wf(2)[OF wf])
  then show "heap (split_state p s) x = heap s x" if "x \<in> live s"
    using that by (auto simp: con_alloc_def split_state_def)
  show "subtree (split_state p s) (next_id s) = {next_id s}"
    using subtree_unfold[of "next_id s" "split_state p s"] l
    by (simp add: children_def con_alloc_def split_state_def)
qed

lemma workspace_attach_with_split:
  assumes "workspace_layout (heap s p) \<noteq> L_DEFAULT" and "p \<noteq> next_id s"
  shows "workspace_attach_with att p s =
    map_option (\<lambda>u. (next_id s, con_fix_percent p u)) (att (next_id s) p (split_state p s))"
proof -
  have "heap (snd (con_alloc None s)) p = heap s p" using assms(2) by (simp add: con_alloc_def)
  then show ?thesis
    using assms
    by (simp add: workspace_attach_with_def con_new_detached_links Let_def split_state_def
        map_option_case split: option.splits)
qed

lemma split_not_wrapped:
  "wf_tree D s \<Longrightarrow> \<not> wraps (split_state p s) (next_id s) p"
  by (simp add: wraps_def split_state_facts)

lemma wraps_split:
  assumes "workspace_attach_with (\<lambda>new ws. attach k new ws None False) p s = Some (new, v)"
    and wl: "workspace_layout (heap s p) \<noteq> L_DEFAULT" and wf: "wf_tree D s" and p: "p \<in> live s"
  shows "new = next_id s" "links_in new p (split_state p s) v" "wf_tree D v"
    "live v = insert new (live s)"
    "x \<in> live s \<Longrightarrow> con_type (heap v x) = con_type (heap s x)"
    "x \<in> live s \<Longrightarrow> x \<noteq> p \<Longrightarrow> nodes_head (heap v x) = nodes_head (heap s x)"
    "nodes_head (heap v new) = []"
    "p \<notin> subtree s x \<Longrightarrow> subtree v x = subtree s x"
proof -
  note sf = split_state_facts[OF wf]
  have pn: "p \<noteq> next_id s" using sf(8) p by auto
  from assms(1) obtain u where n: "new = next_id s" and
    u: "attach k new p None False (split_state p s) = Some u" and v: "v = con_fix_percent p u"
    by (auto simp: workspace_attach_with_split[OF wl pn])
  show "new = next_id s" by (rule n)
  obtain j where k: "k = Suc j" using u by (cases k) auto
  have li: "links_in new p (split_state p s) u"
    by (rule attach_plain_links[OF u[unfolded k]])
      (use pn n sf(5) split_not_wrapped[OF wf] in auto)
  have nD: "new \<notin> D" using wf_treeD(5)[OF wf] sf(8) n by auto
  have wu: "wf_tree D u"
    by (rule links_in_wf[OF li _ nD]) (use sf n p pn in auto)
  have sv: "same_links u v" unfolding v by (rule con_fix_percent_links)
  show lv: "links_in new p (split_state p s) v" by (rule links_in_then[OF li sv])
  show "wf_tree D v" using wu by (simp only: same_links_wf[OF sv])
  show "live v = insert new (live s)" using lv sf(3) n by (simp add: links_in_def live_def)
  show "con_type (heap v x) = con_type (heap s x)" if "x \<in> live s"
    using lv sf(7)[OF that] by (simp add: links_in_def)
  show "nodes_head (heap v x) = nodes_head (heap s x)" if "x \<in> live s" "x \<noteq> p"
    using lv sf(7)[OF that(1)] that(2) by (simp add: links_in_def)
  show "nodes_head (heap v new) = []"
    using lv sf(6) pn n by (simp add: links_in_def)
  show "subtree v x = subtree s x" if "p \<notin> subtree s x"
    using that sf(2,3) p
    by (subst subtree_insert_rel[OF links_in_rel[OF lv]]) (auto simp: subtree_def)
qed

lemma attach_wf:
  assumes a: "attach k c p prev ign s = Some t" and wf: "wf_tree (insert c D) s"
    and cD: "c \<notin> D" and p: "p \<in> live s" and np: "p \<notin> subtree s c"
    and dock: "con_type (heap s p) = CT_DOCKAREA \<Longrightarrow> con_type (heap s c) \<noteq> CT_FLOATING_CON"
  shows "wf_tree D t"
proof (cases k)
  case 0
  with a show ?thesis by simp
next
  case (Suc k)
  have cp: "c \<noteq> p" using np by auto
  have cl: "c \<in> live s" using wf_treeD(5)[OF wf] by simp
  show ?thesis
  proof (cases "wraps s c p")
    case False
    show ?thesis
      by (rule links_in_wf[OF attach_plain_links[OF a[unfolded Suc] cp False dock] wf cD p np])
  next
    case True
    let ?s = "upd c (\<lambda>n. n\<lparr>parent := Some p\<rparr>) s"
    obtain new v where nv: "workspace_attach_with (\<lambda>new ws. attach k new ws None False) p ?s
        = Some (new, v)"
      and t: "con_force_split_parents_redraw c
        (upd new (\<lambda>n. n\<lparr>focus_head := focus_head n @ [c]\<rparr>)
         (upd new (\<lambda>n. n\<lparr>nodes_head := nodes_head n @ [c]\<rparr>)
           (upd c (\<lambda>n. n\<lparr>parent := Some new\<rparr>) v))) = Some t"
      by (rule wraps_attach[OF True a[unfolded Suc] cp])
    note dp = detached_parent[OF wf insertI1, of "Some p"]
    have pl: "p \<in> live ?s" "workspace_layout (heap ?s p) \<noteq> L_DEFAULT"
      using p True by (auto simp: wraps_def)
    note sp = wraps_split[OF nv pl(2) dp(1) pl(1)]
    have sub: "subtree ?s c = subtree s c" using dp(2) by (simp add: subtree_def)
    have n: "new \<notin> live ?s" using split_state_facts(8)[OF dp(1)] sp(1) by simp
    have "new \<notin> subtree v c"
      using sp(8)[of c] np sub subtree_live[OF wf cl] n by auto
    moreover have "links_in c new v t"
      by (rule links_in_then[OF links_in_tail redraw_links[OF t]])
        (use True cl n sp(5)[of c] in \<open>auto simp: wraps_def\<close>)
    ultimately show ?thesis by (intro links_in_wf[OF _ sp(3) cD]) (use sp(4) in simp_all)
  qed
qed


section \<open>Attaching and detaching succeed\<close>

text \<open>Chains of containers outside the detached subtrees.\<close>

lemma chain_of_attached:
  assumes wf: "wf_tree D s" and "c \<in> live s" and "\<forall>d \<in> D. c \<notin> subtree s d"
  obtains xs where "up_chain s c xs" "length xs \<le> up_fuel s" "set xs \<subseteq> live s"
proof -
  have "\<exists>xs. up_chain s c xs \<and> set xs \<subseteq> live s"
    using assms(2,3)
  proof (induction c rule: wf_induct_rule[OF wf_child_rel_converse[OF wf]])
    case (1 c)
    show ?case
    proof (cases "c = croot s")
      case True
      with wf 1 show ?thesis
        by (auto intro!: exI[of _ "[c]"] up_chain.top simp: wf_treeD(3))
    next
      case False
      have "c \<notin> D" using 1 by auto
      then obtain p where p: "parent (heap s c) = Some p" "p \<in> live s" "c \<in> children s p"
        using parent_exists[OF wf "1.prems"(1) _ False] by blast
      then have r: "(c, p) \<in> child_rel s" by (simp add: child_rel_def)
      have "\<forall>d \<in> D. p \<notin> subtree s d"
        using "1.prems"(2) r by (auto simp: subtree_def intro: converse_rtrancl_into_rtrancl)
      with "1.IH"[of p] r p(2) obtain xs where "up_chain s p xs" "set xs \<subseteq> live s" by auto
      with p "1.prems" show ?thesis by (auto intro!: exI[of _ "c # xs"] up_chain.up)
    qed
  qed
  then obtain xs where xs: "up_chain s c xs" "set xs \<subseteq> live s" by blast
  have "length xs = card (set xs)" by (simp add: distinct_card up_chain_distinct[OF xs(1)])
  also have "\<dots> \<le> card (live s)" using xs(2) by (simp add: card_mono)
  also have "\<dots> \<le> up_fuel s" by (simp add: up_fuel_def card_live[OF wf])
  finally show thesis using that xs by blast
qed

lemma redraw_attached:
  assumes "wf_tree D s" and "c \<in> live s" and "\<forall>d \<in> D. c \<notin> subtree s d"
  shows "\<exists>t. con_force_split_parents_redraw c s = Some t"
proof -
  obtain xs where "up_chain s c xs" "length xs \<le> up_fuel s"
    by (rule chain_of_attached[OF assms])
  then show ?thesis unfolding con_force_split_parents_redraw_def by (rule redraw_loop_total)
qed

text \<open>Where the redraw answers, a container attached to \<open>p\<close> is outside the detached trees.\<close>

lemma attached_outside:
  assumes li: "links_in c p s t" and wf: "wf_tree (insert c D) s" and p: "p \<in> live s"
    and out: "\<forall>d \<in> insert c D. p \<notin> subtree s d" and cD: "c \<notin> D"
  shows "\<forall>d \<in> D. c \<notin> subtree t d"
proof
  fix d assume d: "d \<in> D"
  have "subtree t d = subtree s d"
    using out d by (intro subtree_insert_rel[OF links_in_rel[OF li p]]) auto
  moreover have "c \<notin> subtree s d"
  proof
    assume "c \<in> subtree s d"
    then have "(c, d) \<in> (child_rel s)\<^sup>*" by (simp add: subtree_def)
    moreover have "c \<noteq> d" using d cD by auto
    ultimately obtain y where "(c, y) \<in> child_rel s" by (auto elim: converse_rtranclE)
    then show False using wf_treeD(9)[OF wf insertI1] by (auto simp: child_rel_def)
  qed
  ultimately show "c \<notin> subtree t d" by simp
qed

lemma first_tiling_focus_in:
  assumes "wf_con s p" and "first_tiling_focus s p = Some d"
  shows "d \<in> set (nodes_head (heap s p))"
proof -
  from find_SomeD[OF assms(2)[unfolded first_tiling_focus_def]]
  have "d \<in> children s p" "con_type (heap s d) \<noteq> CT_FLOATING_CON"
    using wf_conD(4)[OF assms(1)] by auto
  then show ?thesis using wf_conD(8)[OF assms(1)] by (auto simp: children_def)
qed

text \<open>A dock client and all clients of its dock area have windows.\<close>

definition dock_ready :: "i3 \<Rightarrow> con_id \<Rightarrow> con_id \<Rightarrow> bool" where
  "dock_ready s c p \<longleftrightarrow> con_type (heap s p) = CT_DOCKAREA \<longrightarrow>
     con_type (heap s c) \<noteq> CT_FLOATING_CON \<and>
     (\<forall>d \<in> insert c (set (nodes_head (heap s p))). con_window (heap s d) \<noteq> None)"

lemma insert_dock_total:
  assumes "con_window (heap s c) \<noteq> None" "\<forall>d \<in> set ns. con_window (heap s d) \<noteq> None"
  shows "\<exists>ms. insert_dock s c ns = Some ms"
proof -
  have "\<exists>r. first_opt (\<lambda>d. do {
            v \<leftarrow> con_window (heap s c);
            w \<leftarrow> con_window (heap s d);
            Some (if dock_compare v w < 0 then Some d else None) }) ns = Some r"
    by (rule first_opt_Some_iff) (use assms in auto)
  then show ?thesis by (auto simp: insert_dock_def)
qed

lemma redraw_outside:
  assumes li: "links_in c p s u" and wf: "wf_tree (insert c D) s" and cD: "c \<notin> D"
    and p: "p \<in> live s" and out: "\<forall>d \<in> insert c D. p \<notin> subtree s d"
  shows "\<exists>t. con_force_split_parents_redraw c u = Some t"
proof (rule redraw_attached)
  show "wf_tree D u" by (rule links_in_wf[OF li wf cD p]) (use out in auto)
  show "c \<in> live u" using wf_treeD(5)[OF wf] li by (simp add: links_in_def live_def)
  show "\<forall>d \<in> D. c \<notin> subtree u d" by (rule attached_outside[OF li wf p out cD])
qed

text \<open>Attaching below a detached container whose parent pointer is already set.\<close>

lemma redraw_chain:
  assumes li: "links_in c p s u" and wf: "wf_tree (insert c D) s"
    and ch: "up_chain s p ys" "set ys \<subseteq> live s" "c \<notin> set ys"
  shows "\<exists>t. con_force_split_parents_redraw c u = Some t"
proof -
  have cl: "c \<in> live s" using wf_treeD(5)[OF wf] by simp
  have par: "parent (heap u x) = parent (heap s x)" if "x \<noteq> c" for x
    using li that by (simp add: links_in_def)
  have "up_chain u p ys"
    using ch(1,3) by (induction rule: up_chain.induct) (auto intro: up_chain.intros simp: par)
  then have uc: "up_chain u c (c # ys)" using li by (auto intro: up_chain.up simp: links_in_def)
  have "length (c # ys) = card (set (c # ys))" by (simp only: distinct_card[OF up_chain_distinct[OF uc]])
  also have "\<dots> \<le> card (live s)" using ch(2) cl by (intro card_mono) auto
  also have "\<dots> \<le> up_fuel u" using card_live[OF wf] li by (simp add: up_fuel_def links_in_def)
  finally show ?thesis
    unfolding con_force_split_parents_redraw_def using redraw_loop_total[OF uc] by blast
qed

lemma attach_plain_total:
  assumes wf: "wf_tree (insert c D) s" and p: "p \<in> live s" and cp: "c \<noteq> p"
    and redraw: "\<And>u. links_in c p s u \<Longrightarrow> \<exists>t. con_force_split_parents_redraw c u = Some t"
    and nw: "\<not> wraps s c p"
    and dock: "dock_ready s c p" and prev: "\<forall>d. prev = Some d \<longrightarrow> d \<in> set (nodes_head (heap s p))"
  shows "\<exists>t. attach (Suc k) c p prev ign s = Some t"
proof -
  let ?s = "upd c (\<lambda>n. n\<lparr>parent := Some p\<rparr>) s"
  let ?foc = "upd p (\<lambda>n. n\<lparr>focus_head := focus_head n @ [c]\<rparr>)"
  have nodes: "\<exists>t. con_force_split_parents_redraw c (?foc (upd p (\<lambda>n. n\<lparr>nodes_head := ns\<rparr>) ?s)) = Some t"
    if "mset ns = add_mset c (mset (nodes_head (heap s p)))" "con_type (heap s c) \<noteq> CT_FLOATING_CON"
    for ns using redraw[OF links_in_nodes[OF that cp]] .
  have upd_ns: "upd p (\<lambda>n. n\<lparr>nodes_head := f (nodes_head n)\<rparr>) ?s =
      upd p (\<lambda>n. n\<lparr>nodes_head := f (nodes_head (heap s p))\<rparr>) ?s" for f
    using cp by (simp add: upd_def)
  have sm: "con_type (heap ?s x) = con_type (heap s x)"
    "con_window (heap ?s x) = con_window (heap s x)"
    "workspace_layout (heap ?s x) = workspace_layout (heap s x)"
    "nodes_head (heap ?s x) = nodes_head (heap s x)"
    "focus_head (heap ?s x) = focus_head (heap s x)" for x
    by simp_all
  have "first_tiling_focus ?s p = first_tiling_focus s p"
    unfolding first_tiling_focus_def sm ..
  note same = sm this
  let ?current = "if con_type (heap s p) \<noteq> CT_OUTPUT then
      (if ign then prev else case first_tiling_focus s p of Some d \<Rightarrow> Some d | None \<Rightarrow> prev) else None"
  have "\<exists>ns. attach_target c ?current (nodes_head (heap s p)) = Some ns"
    using prev first_tiling_focus_in[OF wf_treeD(7)[OF wf p]]
    by (auto simp: attach_target_def link_after_def split: option.splits)
  then obtain ns where ns: "attach_target c ?current (nodes_head (heap s p)) = Some ns" ..
  have dk: "\<exists>ms. insert_dock ?s c (nodes_head (heap s p)) = Some ms" if "con_type (heap s p) = CT_DOCKAREA"
    by (rule insert_dock_total) (use dock that in \<open>auto simp: dock_ready_def\<close>)
  consider "con_type (heap s c) = CT_WORKSPACE"
    | "con_type (heap s c) \<noteq> CT_WORKSPACE" "con_type (heap s p) = CT_DOCKAREA"
    | "con_type (heap s c) = CT_FLOATING_CON" "con_type (heap s p) \<noteq> CT_DOCKAREA"
    | "con_type (heap s c) \<noteq> CT_WORKSPACE" "con_type (heap s c) \<noteq> CT_FLOATING_CON"
      "con_type (heap s p) \<noteq> CT_DOCKAREA" by blast
  then show ?thesis
  proof cases
    case 1
    then show ?thesis
      using nodes[OF mset_insert_workspace]
      unfolding attach.simps Let_def same upd_ns by simp
  next
    case 2
    then show ?thesis
      using dk nodes[OF mset_insert_dock] dock
      unfolding attach.simps Let_def same upd_ns dock_ready_def by fastforce
  next
    case 3
    then show ?thesis
      using redraw[OF links_in_floating[OF _ cp]]
      unfolding attach.simps Let_def same upd_ns by simp
  next
    case 4
    then show ?thesis
      using ns nodes[OF mset_attach_target[OF ns]] nw
      unfolding attach.simps Let_def same upd_ns wraps_def by auto
  qed
qed


text \<open>Attaching succeeds and leaves one container fewer detached.\<close>

lemma con_attach_total:
  assumes wf: "wf_tree (insert c D) s" and cD: "c \<notin> D" and p: "p \<in> live s"
    and out: "\<forall>d \<in> insert c D. p \<notin> subtree s d" and dock: "dock_ready s c p"
  shows "\<exists>t. con_attach c p ign s = Some t \<and> wf_tree D t"
proof -
  have cp: "c \<noteq> p" using out by auto
  have cl: "c \<in> live s" using wf_treeD(5)[OF wf] by simp
  have "\<exists>t. con_attach c p ign s = Some t"
  proof (cases "wraps s c p")
    case False
    show ?thesis
      unfolding con_attach_def attach_fuel_def numeral_2_eq_2
      by (rule attach_plain_total[OF wf p cp redraw_outside[OF _ wf cD p out] False dock]) simp_all
  next
    case True
    let ?s = "upd c (\<lambda>n. n\<lparr>parent := Some p\<rparr>) s"
    note dp = detached_parent[OF wf insertI1, of "Some p"]
    note sf = split_state_facts[OF dp(1)]
    have pl: "p \<in> live ?s" "workspace_layout (heap ?s p) \<noteq> L_DEFAULT" "p \<noteq> next_id ?s"
      using p True sf(8) by (auto simp: wraps_def)
    have sub: "subtree ?s x = subtree s x" for x using dp(2) by (simp add: subtree_def)
    let ?w = "split_state p ?s"
    have "\<exists>u. attach (Suc 0) (next_id ?s) p None False ?w = Some u"
    proof (rule attach_plain_total[OF sf(1) _ _ redraw_outside[OF _ sf(1)] split_not_wrapped[OF dp(1)]])
      show "next_id ?s \<notin> insert c D" using wf_treeD(5)[OF dp(1)] sf(8) by auto
      show "p \<in> live ?w" "p \<in> live ?w" using pl(1) sf(3) by simp_all
      show "next_id ?s \<noteq> p" using pl(3) by simp
      show "\<forall>d \<in> insert (next_id ?s) (insert c D). p \<notin> subtree ?w d"
      proof -
        have "p \<notin> subtree ?w (next_id ?s)" unfolding sf(9) using pl(3) by simp
        moreover have "subtree ?w d = subtree s d" for d
          using sf(2) dp(2) by (simp add: subtree_def)
        ultimately show ?thesis using out by simp
      qed
      show "dock_ready ?w (next_id ?s) p"
        using True cp sf(7)[OF pl(1)] by (auto simp: dock_ready_def wraps_def)
    qed simp_all
    then obtain new v where nv: "workspace_attach_with
        (\<lambda>new ws. attach (Suc 0) new ws None False) p ?s = Some (new, v)"
      by (auto simp: workspace_attach_with_split[OF pl(2,3)] simp del: attach.simps)
    note sp = wraps_split[OF nv pl(2) dp(1) pl(1)]
    have n: "new \<notin> live ?s" using sf(8) sp(1) by simp
    let ?t = "upd new (\<lambda>n. n\<lparr>focus_head := focus_head n @ [c]\<rparr>)
         (upd new (\<lambda>n. n\<lparr>nodes_head := nodes_head n @ [c]\<rparr>)
           (upd c (\<lambda>n. n\<lparr>parent := Some new\<rparr>) v))"
    have li: "links_in c new v ?t"
      by (rule links_in_tail) (use True cl n sp(5)[of c] in \<open>auto simp: wraps_def\<close>)
    have nout: "\<forall>d \<in> insert c D. new \<notin> subtree v d"
    proof
      fix d assume d: "d \<in> insert c D"
      then have "d \<in> live s" using wf_treeD(5)[OF wf] by auto
      then have "new \<notin> subtree s d" using subtree_live[OF wf] n by auto
      then show "new \<notin> subtree v d" using sp(8)[of d] out d sub by auto
    qed
    have "\<exists>t. con_force_split_parents_redraw c ?t = Some t"
    proof (rule redraw_attached)
      show "wf_tree D ?t" by (rule links_in_wf[OF li sp(3) cD]) (use sp(4) nout in auto)
      show "c \<in> live ?t" using cl sp(4) by simp
      show "\<forall>d \<in> D. c \<notin> subtree ?t d"
        by (rule attached_outside[OF li sp(3) _ nout cD]) (use sp(4) in simp)
    qed
    then show ?thesis
      using nv True cp
      unfolding con_attach_def attach_fuel_def numeral_2_eq_2 attach.simps(2)[of "Suc 0"]
      by (auto simp: wraps_def Let_def simp del: attach.simps)
  qed
  then obtain t where t: "con_attach c p ign s = Some t" ..
  have "wf_tree D t"
    by (rule attach_wf[OF t[unfolded con_attach_def] wf cD p])
      (use out dock in \<open>auto simp: dock_ready_def\<close>)
  with t show ?thesis by blast
qed


lemma after_links_out: "same_links s t \<Longrightarrow> links_out c p t u \<Longrightarrow> links_out c p s u"
  unfolding links_out_def by (simp add: same_linksD)

text \<open>Two states that agree in everything but the links and the cached decorations.\<close>

definition mask_links :: "con \<Rightarrow> con" where
  "mask_links n = n\<lparr>deco_params := False, parent := None, nodes_head := [], floating_head := [],
     focus_head := []\<rparr>"

definition links_only :: "i3 \<Rightarrow> i3 \<Rightarrow> bool" where
  "links_only s t \<longleftrightarrow>
     focused t = focused s \<and> cfg t = cfg s \<and> clock t = clock s \<and> effects t = effects s \<and>
     (\<forall>x. mask_links (heap t x) = mask_links (heap s x))"

lemma mask_deco: "mask_links (n\<lparr>deco_params := b\<rparr>) = mask_links n"
  by (simp add: mask_links_def)

lemma mask_linksD:
  assumes "mask_links m = mask_links n"
  shows "con_window m = con_window n" "ws_num m = ws_num n" "percent m = percent n"
    "layout m = layout n" "fullscreen_mode m = fullscreen_mode n" "con_type m = con_type n"
    "marks m = marks n" "con_floating m = con_floating n" "workspace_layout m = workspace_layout n"
    "con_name m = con_name n" "urgent m = urgent n" "con_rect m = con_rect n"
  using arg_cong[OF assms, of con_window] arg_cong[OF assms, of ws_num]
    arg_cong[OF assms, of percent] arg_cong[OF assms, of layout]
    arg_cong[OF assms, of fullscreen_mode] arg_cong[OF assms, of con_type]
    arg_cong[OF assms, of marks] arg_cong[OF assms, of con_floating]
    arg_cong[OF assms, of workspace_layout] arg_cong[OF assms, of con_name]
    arg_cong[OF assms, of urgent] arg_cong[OF assms, of con_rect] by (simp_all add: mask_links_def)

lemma links_onlyD:
  assumes "links_only s t"
  shows "focused t = focused s" "cfg t = cfg s" "clock t = clock s" "effects t = effects s"
    "con_window (heap t x) = con_window (heap s x)" "ws_num (heap t x) = ws_num (heap s x)"
    "percent (heap t x) = percent (heap s x)" "layout (heap t x) = layout (heap s x)"
    "fullscreen_mode (heap t x) = fullscreen_mode (heap s x)"
    "con_type (heap t x) = con_type (heap s x)" "marks (heap t x) = marks (heap s x)"
    "con_floating (heap t x) = con_floating (heap s x)"
    "workspace_layout (heap t x) = workspace_layout (heap s x)"
    "con_name (heap t x) = con_name (heap s x)" "urgent (heap t x) = urgent (heap s x)"
    "con_rect (heap t x) = con_rect (heap s x)"
  using assms mask_linksD[of "heap t x" "heap s x"] by (simp_all add: links_only_def)

lemma links_only_trans [trans]: "links_only s t \<Longrightarrow> links_only t u \<Longrightarrow> links_only s u"
  by (simp add: links_only_def)

lemma links_only_refl [simp]: "links_only s s" by (simp add: links_only_def)

lemma links_only_upd: "mask_links (f (heap s c)) = mask_links (heap s c) \<Longrightarrow> links_only s (upd c f s)"
  by (simp add: links_only_def)

lemma links_only_deco:
  assumes "same_but_deco s t" shows "links_only s t"
proof -
  have "mask_links (heap t x) = mask_links (heap s x)" for x
  proof -
    have "heap t x = (heap s x)\<lparr>deco_params := deco_params (heap t x)\<rparr>"
      using assms by (simp add: same_but_deco_def)
    then show ?thesis by (metis (no_types) mask_deco)
  qed
  then show ?thesis unfolding links_only_def using same_but_deco_heap[OF assms] by blast
qed

lemma con_detach_links:
  assumes wf: "wf_tree D s" and c: "c \<in> live s" "c \<notin> D" "c \<noteq> croot s"
    and out: "\<forall>d \<in> D. c \<notin> subtree s d"
  obtains p t where "con_detach c s = Some t" "parent (heap s c) = Some p" "p \<in> live s"
    "c \<in> children s p" "links_out c p s t" "wf_tree (insert c D) t" "links_only s t"
proof -
  obtain p where p: "parent (heap s c) = Some p" "p \<in> live s" "c \<in> children s p"
    by (rule parent_exists[OF wf c])
  obtain u where u: "con_force_split_parents_redraw c s = Some u"
    using redraw_attached[OF wf c(1) out] by blast
  note su = redraw_links[OF u]
  note wp = wf_conD[OF wf_treeD(7)[OF wf p(2)]]
  let ?t = "if con_type (heap s c) = CT_FLOATING_CON
    then upd p (\<lambda>n. n\<lparr>floating_head := remove1 c (floating_head (heap s p)),
      focus_head := remove1 c (focus_head (heap s p))\<rparr>) u
    else upd p (\<lambda>n. n\<lparr>nodes_head := remove1 c (nodes_head (heap s p)),
      focus_head := remove1 c (focus_head (heap s p))\<rparr>) u"
  have fo: "c \<in> set (focus_head (heap s p))" using wp(4) p(3) by simp
  have q: "if con_type (heap s c) = CT_FLOATING_CON
      then c \<in> set (floating_head (heap s p)) \<and> c \<notin> set (nodes_head (heap s p))
      else c \<in> set (nodes_head (heap s p)) \<and> c \<notin> set (floating_head (heap s p))"
    using p(3) wp(7,8)[of c] by (auto simp: children_def)
  have t: "con_detach c s = Some ?t"
    using u p(1) fo q by (auto simp: con_detach_def unlink_def same_linksD[OF su])
  have lo: "links_out c p s ?t"
    by (rule after_links_out[OF su])
      (use q in \<open>auto simp: links_out_def same_linksD[OF su] remove1_idem\<close>)
  have "links_only u ?t" by (auto simp: links_only_def mask_links_def)
  then have "links_only s ?t"
    by (rule links_only_trans[OF links_only_deco[OF force_redraw_same[OF u]]])
  then show thesis by (rule that[OF t p lo links_out_wf(1)[OF lo wf p(2,3)]])
qed

text \<open>Detaching keeps what is below each container, except for what the container took along.\<close>

lemma links_out_subtree:
  assumes lo: "links_out c p s t" and wf: "wf_tree D s" and p: "p \<in> live s"
    and c: "c \<in> children s p"
  shows "child_rel t = child_rel s - {(c, p)}" and "subtree t c = subtree s c"
proof -
  note ch = links_out_wf(2)[OF lo wf p c] links_out_wf(3)[OF lo wf p c]
  show r: "child_rel t = child_rel s - {(c, p)}"
  proof -
    have "x \<in> children t q \<longleftrightarrow> x \<in> children s q \<and> (x, q) \<noteq> (c, p)" if "q \<in> live s" for x q
    proof (cases "q = p")
      case True
      with ch(1) show ?thesis by auto
    next
      case False
      with ch(2)[OF False] show ?thesis by simp
    qed
    then show ?thesis using lo by (auto simp: child_rel_def live_def links_out_def)
  qed
  have np: "p \<notin> subtree s c"
    by (rule not_below_child[OF wf]) (use p c in \<open>simp add: child_rel_def\<close>)
  have i: "child_rel s = insert (c, p) (child_rel t)"
    using r p c by (auto simp: child_rel_def)
  have "(child_rel t)\<^sup>* \<subseteq> (child_rel s)\<^sup>*" unfolding r by (rule rtrancl_mono) blast
  with np have "p \<notin> subtree t c" by (auto simp: subtree_def)
  from subtree_insert_rel[OF i this] show "subtree t c = subtree s c" ..
qed

text \<open>
  Moving a container: detaching it and attaching it elsewhere gives a well-formed tree, unless
  the new parent is inside the container itself.
\<close>

lemma detach_attach:
  assumes wf: "wf_tree {} s" and c: "c \<in> live s" "c \<noteq> croot s" and p: "p \<in> live s"
    and np: "p \<notin> subtree s c" and dock: "dock_ready s c p"
  obtains t u where "con_detach c s = Some t" "con_attach c p ign t = Some u" "wf_tree {} u"
proof -
  obtain q t where t: "con_detach c s = Some t" "q \<in> live s" "c \<in> children s q"
    "links_out c q s t" "wf_tree (insert c {}) t" "links_only s t"
    by (rule con_detach_links[OF wf c(1) _ c(2)]) auto
  note lo = links_out_subtree[OF t(4) wf t(2,3)]
  have "set (nodes_head (heap t p)) \<subseteq> set (nodes_head (heap s p))"
    using t(4) set_remove1_subset unfolding links_out_def by (metis order_refl)
  then have "dock_ready t c p"
    using dock by (auto simp: dock_ready_def links_onlyD[OF t(6)])
  then obtain u where "con_attach c p ign t = Some u" "wf_tree {} u"
    using con_attach_total[OF t(5), of p ign] p np lo(2) t(4)
    by (auto simp: links_out_def live_def)
  with t(1) show thesis using that by blast
qed

end
