(* ===== verification/Con_Marks.thy ===== *)
theory Con_Marks
  imports Con_Attach
begin

text \<open>
  Marks and the lookups over the list of all containers (src/con.c).  The main result is that
  no two containers ever carry the same mark: \<open>con_mark\<close> takes it from the container that had it.
\<close>

section \<open>Lookups\<close>

definition con_by_window_id :: "i3 \<Rightarrow> window_id \<Rightarrow> con_id option" where
  "con_by_window_id s w =
     List.find (\<lambda>c. case con_window (heap s c) of Some v \<Rightarrow> win_id v = w | None \<Rightarrow> False) (all_cons s)"

definition con_by_con_id :: "i3 \<Rightarrow> con_id \<Rightarrow> con_id option" where
  "con_by_con_id s target = List.find (\<lambda>c. c = target) (all_cons s)"

definition con_exists :: "i3 \<Rightarrow> con_id \<Rightarrow> bool" where
  "con_exists s c \<longleftrightarrow> con_by_con_id s c \<noteq> None"

text \<open>A transient window may be its own parent or part of a cycle; the count bounds the walk.\<close>

fun transient_loop :: "nat \<Rightarrow> i3 \<Rightarrow> con_id option \<Rightarrow> window_id \<Rightarrow> bool" where
  "transient_loop n s None target = False"
| "transient_loop n s (Some c) target =
     (case con_window (heap s c) of
        None \<Rightarrow> False
      | Some w \<Rightarrow>
          if transient_for w = 0 then False
          else if transient_for w = target then True
          else case con_by_window_id s (transient_for w) of
            None \<Rightarrow> False
          | Some d \<Rightarrow>
              if c = d then False
              else case n of 0 \<Rightarrow> False | Suc m \<Rightarrow> transient_loop m s (Some d) target)"

definition con_find_transient_for_window :: "i3 \<Rightarrow> con_id option \<Rightarrow> window_id \<Rightarrow> bool option" where
  "con_find_transient_for_window s start target =
     map_option (\<lambda>n. transient_loop n s start target) (con_num_windows s (Some (croot s)))"

lemma con_exists_live: "con_exists s c \<longleftrightarrow> c \<in> live s"
  by (auto simp: con_exists_def con_by_con_id_def live_def find_None_iff)

section \<open>Marks\<close>

definition con_has_mark :: "i3 \<Rightarrow> con_id \<Rightarrow> string \<Rightarrow> bool" where
  "con_has_mark s c m \<longleftrightarrow> m \<in> set (marks (heap s c))"

definition con_by_mark :: "i3 \<Rightarrow> string \<Rightarrow> con_id option" where
  "con_by_mark s m = List.find (\<lambda>c. con_has_mark s c m) (all_cons s)"

text \<open>\<open>con_unmark\<close> with a name, applied to one container: the first mark of that name goes.\<close>

definition unmark_one :: "con_id \<Rightarrow> string \<Rightarrow> i3 \<Rightarrow> i3" where
  "unmark_one c m s =
     (let s' = upd c (\<lambda>n. n\<lparr>mark_changed := True\<rparr>) s in
      if con_has_mark s' c m
      then emit (Ipc_Window ''mark'' c) (upd c (\<lambda>n. n\<lparr>marks := remove1 m (marks n)\<rparr>) s')
      else s')"

text \<open>\<open>con_unmark\<close> without a name: all marks, one message for each.\<close>

fun unmark_all :: "nat \<Rightarrow> con_id \<Rightarrow> i3 \<Rightarrow> i3" where
  "unmark_all 0 c s = s"
| "unmark_all (Suc k) c s =
     unmark_all k c (emit (Ipc_Window ''mark'' c) (upd c (\<lambda>n. n\<lparr>marks := tl (marks n)\<rparr>) s))"

definition unmark_con :: "con_id \<Rightarrow> i3 \<Rightarrow> i3" where
  "unmark_con c s =
     (if marks (heap s c) = [] then s
      else upd c (\<lambda>n. n\<lparr>mark_changed := True\<rparr>) (unmark_all (length (marks (heap s c))) c s))"

definition con_unmark :: "con_id option \<Rightarrow> string option \<Rightarrow> i3 \<Rightarrow> i3" where
  "con_unmark c name s =
     (case name of
        None \<Rightarrow> fold (\<lambda>d s. if c \<noteq> None \<and> c \<noteq> Some d then s else unmark_con d s) (all_cons s) s
      | Some m \<Rightarrow>
          (case (if c = None then con_by_mark s m else c) of
             None \<Rightarrow> s
           | Some d \<Rightarrow> unmark_one d m s))"

text \<open>The loop of \<open>con_mark\<close> runs until the container has no marks left.\<close>

fun drop_marks :: "nat \<Rightarrow> con_id \<Rightarrow> i3 \<Rightarrow> i3 option" where
  "drop_marks 0 c s = None"
| "drop_marks (Suc k) c s =
     (case marks (heap s c) of
        [] \<Rightarrow> Some s
      | m # _ \<Rightarrow> drop_marks k c (con_unmark (Some c) (Some m) s))"

definition con_mark :: "con_id \<Rightarrow> string \<Rightarrow> mark_mode \<Rightarrow> i3 \<Rightarrow> i3 option" where
  "con_mark c m mode s = do {
     let s = con_unmark None (Some m) s;
     s \<leftarrow> (if mode = MM_REPLACE then drop_marks (Suc (length (marks (heap s c)))) c s else Some s);
     let s = upd c (\<lambda>n. n\<lparr>marks := marks n @ [m]\<rparr>) s;
     let s = emit (Ipc_Window ''mark'' c) s;
     Some (upd c (\<lambda>n. n\<lparr>mark_changed := True\<rparr>) s)
   }"

definition con_mark_toggle :: "con_id \<Rightarrow> string \<Rightarrow> mark_mode \<Rightarrow> i3 \<Rightarrow> i3 option" where
  "con_mark_toggle c m mode s =
     (if con_has_mark s c m then Some (con_unmark (Some c) (Some m) s) else con_mark c m mode s)"

section \<open>What they do to the marks of each container\<close>

lemma con_by_mark_SomeD: "con_by_mark s m = Some c \<Longrightarrow> c \<in> live s \<and> con_has_mark s c m"
  unfolding con_by_mark_def live_def by (rule find_SomeD)

lemma con_by_mark_None: "con_by_mark s m = None \<longleftrightarrow> (\<forall>c \<in> live s. \<not> con_has_mark s c m)"
  by (auto simp: con_by_mark_def find_None_iff live_def)

lemma unmark_one_marks:
  "marks (heap (unmark_one c m s) d) =
     (if d = c then remove1 m (marks (heap s c)) else marks (heap s d))"
  by (auto simp: unmark_one_def Let_def con_has_mark_def remove1_idem)

lemma unmark_one_live [simp]: "live (unmark_one c m s) = live s"
  by (simp add: unmark_one_def Let_def)

lemma unmark_one_links: "same_links s (unmark_one c m s)"
  by (auto simp: unmark_one_def Let_def same_links_def)

text \<open>No mark is given twice, neither to two containers nor twice to one.\<close>

definition marks_unique :: "i3 \<Rightarrow> bool" where
  "marks_unique s \<longleftrightarrow>
     (\<forall>c \<in> live s. distinct (marks (heap s c))) \<and>
     (\<forall>c \<in> live s. \<forall>d \<in> live s. \<forall>m. con_has_mark s c m \<longrightarrow> con_has_mark s d m \<longrightarrow> c = d)"

lemma marks_unique_sub:
  assumes "marks_unique s" and "live t = live s"
    and "\<And>c. c \<in> live s \<Longrightarrow> set (marks (heap t c)) \<subseteq> set (marks (heap s c))"
    and "\<And>c. c \<in> live s \<Longrightarrow> distinct (marks (heap s c)) \<Longrightarrow> distinct (marks (heap t c))"
  shows "marks_unique t"
  using assms unfolding marks_unique_def con_has_mark_def by blast

lemma unmark_one_unique: "marks_unique s \<Longrightarrow> marks_unique (unmark_one c m s)"
  by (rule marks_unique_sub)
    (auto simp: unmark_one_marks intro: distinct_remove1 dest: set_remove1_subset[THEN subsetD])

text \<open>Removing a mark from wherever it is.\<close>

lemma unmark_name:
  assumes u: "marks_unique s"
  shows "same_links s (con_unmark None (Some m) s)"
    and "marks_unique (con_unmark None (Some m) s)"
    and "d \<in> live s \<Longrightarrow> marks (heap (con_unmark None (Some m) s) d) = remove1 m (marks (heap s d))"
proof -
  let ?t = "con_unmark None (Some m) s"
  show "same_links s ?t" "marks_unique ?t"
    using u unmark_one_links unmark_one_unique by (auto simp: con_unmark_def split: option.splits)
  show "marks (heap ?t d) = remove1 m (marks (heap s d))" if d: "d \<in> live s"
  proof (cases "con_by_mark s m")
    case None
    then have "m \<notin> set (marks (heap s d))" using d by (simp add: con_by_mark_None con_has_mark_def)
    with None show ?thesis by (simp add: con_unmark_def remove1_idem)
  next
    case (Some c)
    with con_by_mark_SomeD[OF Some] have c: "c \<in> live s" "con_has_mark s c m" by auto
    have "m \<notin> set (marks (heap s d))" if "d \<noteq> c"
      using u c d that by (auto simp: marks_unique_def con_has_mark_def)
    with Some show ?thesis by (auto simp: con_unmark_def unmark_one_marks remove1_idem)
  qed
qed

lemma drop_marks_spec:
  assumes "length (marks (heap s c)) < k"
  shows "\<exists>t. drop_marks k c s = Some t \<and> same_links s t \<and>
    (\<forall>d. marks (heap t d) = (if d = c then [] else marks (heap s d)))"
  using assms
proof (induction k arbitrary: s)
  case (Suc k)
  show ?case
  proof (cases "marks (heap s c)")
    case Nil
    then show ?thesis by auto
  next
    case (Cons m ms)
    let ?u = "con_unmark (Some c) (Some m) s"
    have u: "?u = unmark_one c m s" by (simp add: con_unmark_def)
    have mu: "marks (heap ?u d) = (if d = c then ms else marks (heap s d))" for d
      by (simp add: u unmark_one_marks Cons)
    then obtain t where "drop_marks k c ?u = Some t" "same_links ?u t"
      "\<forall>d. marks (heap t d) = (if d = c then [] else marks (heap ?u d))"
      using Suc.IH[of ?u] Suc.prems Cons by auto
    with Cons mu u unmark_one_links[of s c m] show ?thesis
      by (auto intro: same_links_trans)
  qed
qed simp

lemma con_mark_spec:
  assumes u: "marks_unique s" and c: "c \<in> live s"
  obtains t where "con_mark c m mode s = Some t" "same_links s t" "marks_unique t"
    "con_by_mark t m = Some c"
    "\<And>d. d \<in> live s \<Longrightarrow> marks (heap t d) =
       (if d = c then (if mode = MM_REPLACE then [] else remove1 m (marks (heap s c))) @ [m]
        else remove1 m (marks (heap s d)))"
proof -
  define a where "a = con_unmark None (Some m) s"
  note ua = unmark_name(1)[OF u, where m = m, folded a_def]
    unmark_name(2)[OF u, where m = m, folded a_def] unmark_name(3)[OF u, where m = m, folded a_def]
  have la: "live a = live s" using same_linksD[OF ua(1)] by simp
  obtain b where b: "(if mode = MM_REPLACE then drop_marks (Suc (length (marks (heap a c)))) c a
      else Some a) = Some b" "same_links a b"
    "\<forall>d. marks (heap b d) = (if d = c \<and> mode = MM_REPLACE then [] else marks (heap a d))"
    using drop_marks_spec[of a c "Suc (length (marks (heap a c)))"] by (cases mode) auto
  define t where "t = upd c (\<lambda>n. n\<lparr>mark_changed := True\<rparr>)
    (emit (Ipc_Window ''mark'' c) (upd c (\<lambda>n. n\<lparr>marks := marks n @ [m]\<rparr>) b))"
  have t: "con_mark c m mode s = Some t"
    using b(1) by (simp add: con_mark_def Let_def a_def[symmetric] t_def)
  have bt: "same_links b t" by (auto simp: t_def same_links_def)
  have st: "same_links s t" by (rule same_links_trans[OF ua(1) same_links_trans[OF b(2) bt]])
  have lt: "live t = live s" using same_linksD[OF st] by simp
  have mk: "marks (heap t d) =
       (if d = c then (if mode = MM_REPLACE then [] else remove1 m (marks (heap s c))) @ [m]
        else remove1 m (marks (heap s d)))" if "d \<in> live s" for d
    using that b(3) ua(3)[OF that] by (auto simp: t_def)
  have ds: "distinct (marks (heap s d))" if "d \<in> live s" for d
    using u that by (simp add: marks_unique_def)
  have has: "con_has_mark t d x \<longleftrightarrow> (d = c \<and> x = m) \<or> (x \<noteq> m \<and> con_has_mark s d x \<and> \<not> (d = c \<and> mode = MM_REPLACE))"
    if "d \<in> live s" for d x
    using that mk[OF that] ds[OF that] by (auto simp: con_has_mark_def)
  have "marks_unique t"
    unfolding marks_unique_def lt
  proof (intro conjI ballI allI impI)
    fix d assume d: "d \<in> live s"
    then show "distinct (marks (heap t d))" using mk[OF d] ds[OF d] by auto
  next
    fix d e x assume "d \<in> live s" "e \<in> live s" "con_has_mark t d x" "con_has_mark t e x"
    then show "d = e" using has u by (auto simp: marks_unique_def)
  qed
  moreover have "con_by_mark t m = Some c"
  proof (cases "con_by_mark t m")
    case None
    with c lt has[OF c, of m] show ?thesis by (auto simp: con_by_mark_None)
  next
    case (Some d)
    with con_by_mark_SomeD[OF Some] lt has[of d m] show ?thesis by auto
  qed
  ultimately show thesis using that[OF t st] mk by blast
qed

end
