(* ===== verification/Util.thy ===== *)
theory Util
  imports Con_Data
begin

text \<open>
  Helpers of src/util.c and libi3: rectangles with 32-bit unsigned arithmetic, numbers and names
  of workspaces, directions, \<open>strtol\<close> as the C standard describes it.
\<close>

section \<open>Rectangles\<close>

definition rect_contains :: "rect \<Rightarrow> u32 \<Rightarrow> u32 \<Rightarrow> bool" where
  "rect_contains r x y \<longleftrightarrow>
     x \<ge> rx r \<and> x \<le> rx r + rwidth r \<and> y \<ge> ry r \<and> y \<le> ry r + rheight r"

definition rect_add :: "rect \<Rightarrow> rect \<Rightarrow> rect" where
  "rect_add a b = mk_rect (rx a + rx b) (ry a + ry b) (rwidth a + rwidth b) (rheight a + rheight b)"

definition rect_sub :: "rect \<Rightarrow> rect \<Rightarrow> rect" where
  "rect_sub a b = mk_rect (rx a - rx b) (ry a - ry b) (rwidth a - rwidth b) (rheight a - rheight b)"

definition sanitize_dim :: "u32 \<Rightarrow> u32" where
  "sanitize_dim w = (if sint w \<le> 0 then 1 else w)"

definition rect_sanitize_dimensions :: "rect \<Rightarrow> rect" where
  "rect_sanitize_dimensions r = r\<lparr>rwidth := sanitize_dim (rwidth r), rheight := sanitize_dim (rheight r)\<rparr>"

definition rect_equals :: "rect \<Rightarrow> rect \<Rightarrow> bool" where
  "rect_equals a b \<longleftrightarrow> rx a = rx b \<and> ry a = ry b \<and> rwidth a = rwidth b \<and> rheight a = rheight b"

lemma rect_equals_eq: "rect_equals a b \<longleftrightarrow> a = b"
  by (cases a; cases b) (simp add: rect_equals_def)

text \<open>Adding a border and taking it off again gives the rectangle back, also across a wrap-around.\<close>

lemma rect_add_sub: "rect_sub (rect_add a b) b = a"
  by (intro rect_eqI) (simp_all add: rect_sub_def rect_add_def)

lemma rect_sub_add: "rect_add (rect_sub a b) b = a"
  by (intro rect_eqI) (simp_all add: rect_sub_def rect_add_def)

lemma sanitize_dim_range: "0 < sint (sanitize_dim w)"
  by (simp add: sanitize_dim_def)

lemma rect_sanitize_idem:
  "rect_sanitize_dimensions (rect_sanitize_dimensions r) = rect_sanitize_dimensions r"
  using sanitize_dim_range[of "rwidth r"] sanitize_dim_range[of "rheight r"]
  by (simp add: rect_sanitize_dimensions_def sanitize_dim_def)

section \<open>Directions\<close>

definition orientation_from_direction :: "direction \<Rightarrow> orientation" where
  "orientation_from_direction d = (if d = D_LEFT \<or> d = D_RIGHT then HORIZ else VERT)"

definition position_from_direction :: "direction \<Rightarrow> position" where
  "position_from_direction d = (if d = D_LEFT \<or> d = D_UP then BEFORE else AFTER)"

definition direction_from_orientation_position :: "orientation \<Rightarrow> position \<Rightarrow> direction" where
  "direction_from_orientation_position o' p =
     (if o' = HORIZ then (if p = BEFORE then D_LEFT else D_RIGHT)
      else (if p = BEFORE then D_UP else D_DOWN))"

fun direction_to_string :: "direction \<Rightarrow> string" where
  "direction_to_string D_LEFT = ''left''"
| "direction_to_string D_RIGHT = ''right''"
| "direction_to_string D_UP = ''up''"
| "direction_to_string D_DOWN = ''down''"

fun position_to_string :: "position \<Rightarrow> string" where
  "position_to_string BEFORE = ''before''"
| "position_to_string AFTER = ''after''"

lemma direction_split:
  "direction_from_orientation_position (orientation_from_direction d) (position_from_direction d) = d"
  by (cases d) (simp_all add: direction_from_orientation_position_def
      orientation_from_direction_def position_from_direction_def)

lemma direction_join:
  "o' \<noteq> NO_ORIENTATION \<Longrightarrow>
   orientation_from_direction (direction_from_orientation_position o' p) = o' \<and>
   position_from_direction (direction_from_orientation_position o' p) = p"
  by (cases o'; cases p) (simp_all add: direction_from_orientation_position_def
      orientation_from_direction_def position_from_direction_def)

section \<open>Numbers in strings\<close>

text \<open>
  \<open>strtol\<close>: white space, an optional sign, a base prefix, digits.  The result is the value, what
  is left of the string, and whether any digit was read.  For base 0 the prefix decides.
\<close>

definition digit_of :: "char \<Rightarrow> nat option" where
  "digit_of c =
     (let n = char_code c in
      if 48 \<le> n \<and> n \<le> 57 then Some (n - 48)
      else if 97 \<le> n \<and> n \<le> 122 then Some (n - 87)
      else if 65 \<le> n \<and> n \<le> 90 then Some (n - 55)
      else None)"

fun read_digits :: "nat \<Rightarrow> nat \<Rightarrow> string \<Rightarrow> nat \<times> string" where
  "read_digits b acc [] = (acc, [])"
| "read_digits b acc (c # cs) =
     (case digit_of c of
        Some d \<Rightarrow> if d < b then read_digits b (acc * b + d) cs else (acc, c # cs)
      | None \<Rightarrow> (acc, c # cs))"

definition starts_digit :: "nat \<Rightarrow> string \<Rightarrow> bool" where
  "starts_digit b s = (case s of [] \<Rightarrow> False | c # _ \<Rightarrow>
     (case digit_of c of Some d \<Rightarrow> d < b | None \<Rightarrow> False))"

definition hex_prefix :: "string \<Rightarrow> bool" where
  "hex_prefix s \<longleftrightarrow> (s \<noteq> [] \<and> hd s = CHR ''0'' \<and> tl s \<noteq> [] \<and> to_lower (hd (tl s)) = CHR ''x''
     \<and> starts_digit 16 (drop 2 s))"

definition base_of :: "nat \<Rightarrow> string \<Rightarrow> nat \<times> string" where
  "base_of b s =
     (if (b = 0 \<or> b = 16) \<and> hex_prefix s then (16, drop 2 s)
      else if b = 0 then (if s \<noteq> [] \<and> hd s = CHR ''0'' then (8, s) else (10, s))
      else (b, s))"

definition long_max :: int where "long_max = 9223372036854775807"
definition long_min :: int where "long_min = -9223372036854775808"

text \<open>The returned flag says that the value was out of range (\<open>errno\<close> is \<open>ERANGE\<close>).\<close>

definition clamp_long :: "int \<Rightarrow> int \<times> bool" where
  "clamp_long v = (if v > long_max then (long_max, True)
     else if v < long_min then (long_min, True) else (v, False))"

definition sign_of :: "string \<Rightarrow> bool \<times> string" where
  "sign_of s = (if s \<noteq> [] \<and> hd s = CHR ''-'' then (True, tl s)
     else if s \<noteq> [] \<and> hd s = CHR ''+'' then (False, tl s) else (False, s))"

record strtol_result =
  num_value :: int
  num_rest :: string
  erange :: bool

definition strtol :: "nat \<Rightarrow> string \<Rightarrow> strtol_result" where
  "strtol b s =
     (let (neg, s1) = sign_of (dropWhile is_space s);
          (base, s2) = base_of b s1
      in if starts_digit base s2 then
           (let (n, r) = read_digits base 0 s2;
                (v, e) = clamp_long (if neg then - int n else int n)
            in \<lparr>num_value = v, num_rest = r, erange = e\<rparr>)
         else \<lparr>num_value = 0, num_rest = s, erange = False\<rparr>)"

text \<open>\<open>parse_long\<close>: the number and whether it was accepted.\<close>

definition parse_long :: "string \<Rightarrow> nat \<Rightarrow> bool \<times> int" where
  "parse_long s b =
     (let r = strtol b s in
      if num_value r = long_min \<or> num_value r = long_max \<or> num_value r < 0 \<or> num_rest r \<noteq> []
      then (False, num_value r) else (True, num_value r))"

definition name_is_digits :: "string \<Rightarrow> bool" where
  "name_is_digits s \<longleftrightarrow> list_all is_digit s"

definition ws_name_to_number :: "string \<Rightarrow> int" where
  "ws_name_to_number s =
     (let r = strtol 10 s in
      if erange r \<or> num_value r > 2147483647 \<or> num_value r < 0 \<or> num_rest r = s then -1 else num_value r)"

definition layout_from_name :: "string \<Rightarrow> layout option" where
  "layout_from_name s =
     (if s = ''default'' then Some L_DEFAULT
      else if strcasecmp s ''stacked'' = 0 \<or> strcasecmp s ''stacking'' = 0 then Some L_STACKED
      else if strcasecmp s ''tabbed'' = 0 then Some L_TABBED
      else if strcasecmp s ''splitv'' = 0 then Some L_SPLITV
      else if strcasecmp s ''splith'' = 0 then Some L_SPLITH
      else None)"

text \<open>The number of a workspace is \<open>-1\<close> or fits an \<open>int\<close>.\<close>

lemma ws_name_to_number_range: "-1 \<le> ws_name_to_number s \<and> ws_name_to_number s \<le> 2147483647"
  by (simp add: ws_name_to_number_def Let_def)

lemma digit_of_is_digit: "is_digit c \<Longrightarrow> digit_of c = Some (digit_val c)"
  by (simp add: digit_of_def is_digit_def digit_val_def Let_def)

lemma digit_val_less: "is_digit c \<Longrightarrow> digit_val c < 10"
  by (auto simp: is_digit_def digit_val_def)

definition decimal :: "nat \<Rightarrow> string \<Rightarrow> nat" where
  "decimal a s = foldl (\<lambda>n c. n * 10 + digit_val c) a s"

lemma read_digits_decimal:
  "list_all is_digit ds \<Longrightarrow> r = [] \<or> \<not> is_digit (hd r) \<Longrightarrow>
   read_digits 10 a (ds @ r) = (decimal a ds, r)"
proof (induction ds arbitrary: a)
  case Nil
  then show ?case
    by (cases r) (auto simp: decimal_def is_digit_def digit_of_def Let_def split: option.splits)
next
  case (Cons d ds)
  then show ?case by (simp add: decimal_def digit_of_is_digit digit_val_less)
qed

lemma digit_not_space: "is_digit c \<Longrightarrow> \<not> is_space c"
  by (auto simp: is_digit_def is_space_def)

lemma digit_not_sign: "is_digit c \<Longrightarrow> c \<noteq> CHR ''-'' \<and> c \<noteq> CHR ''+''"
  by (auto simp: is_digit_def char_code_def)

text \<open>
  A workspace whose name starts with digits is numbered by them: this is how \<open>3: mail\<close> becomes
  workspace 3.
\<close>

lemma ws_name_to_number_digits:
  assumes "ds \<noteq> []" and "list_all is_digit ds" and "r = [] \<or> \<not> is_digit (hd r)"
    and "decimal 0 ds \<le> 2147483647"
  shows "ws_name_to_number (ds @ r) = int (decimal 0 ds)"
proof -
  obtain d es where ds: "ds = d # es" using assms(1) by (cases ds) auto
  have d: "is_digit d" using assms(2) ds by simp
  have "dropWhile is_space (ds @ r) = ds @ r" using digit_not_space[OF d] by (simp add: ds)
  moreover have "sign_of (ds @ r) = (False, ds @ r)" using digit_not_sign[OF d] by (simp add: ds sign_of_def)
  moreover have "base_of 10 (ds @ r) = (10, ds @ r)" by (simp add: base_of_def)
  moreover have "starts_digit 10 (ds @ r)"
    using digit_of_is_digit[OF d] digit_val_less[OF d] by (simp add: ds starts_digit_def)
  moreover have "clamp_long (int (decimal 0 ds)) = (int (decimal 0 ds), False)"
    using assms(4) by (simp add: clamp_long_def long_max_def long_min_def)
  ultimately have "strtol 10 (ds @ r) = \<lparr>num_value = int (decimal 0 ds), num_rest = r, erange = False\<rparr>"
    using read_digits_decimal[OF assms(2,3)] by (simp add: strtol_def)
  moreover have "r \<noteq> ds @ r" using assms(1) by simp
  ultimately show ?thesis using assms(4) by (simp add: ws_name_to_number_def Let_def)
qed

text \<open>A name that does not start with white space, a sign or a digit has no number.\<close>

lemma ws_name_to_number_named:
  assumes "s = [] \<or> (\<not> is_space (hd s) \<and> \<not> is_digit (hd s) \<and> hd s \<noteq> CHR ''-'' \<and> hd s \<noteq> CHR ''+'')"
  shows "ws_name_to_number s = -1"
proof (cases s)
  case Nil
  then show ?thesis
    by (simp add: ws_name_to_number_def strtol_def sign_of_def base_of_def starts_digit_def)
next
  case (Cons c cs)
  have "\<not> starts_digit 10 s"
    using assms Cons by (auto simp: starts_digit_def digit_of_def is_digit_def Let_def split: if_splits)
  then show ?thesis
    using assms Cons by (simp add: ws_name_to_number_def strtol_def sign_of_def base_of_def)
qed

section \<open>Arguments for the restart\<close>

fun skip_args :: "string \<Rightarrow> bool \<Rightarrow> string option \<Rightarrow> bool \<Rightarrow> string list \<Rightarrow> string list" where
  "skip_args opt has_arg opt_name skip [] = []"
| "skip_args opt has_arg opt_name skip (a # as) =
     (if skip then skip_args opt has_arg opt_name False as
      else if a = opt \<or> Some a = opt_name then skip_args opt has_arg opt_name has_arg as
      else a # skip_args opt has_arg opt_name False as)"

definition add_argument :: "string list \<Rightarrow> string \<Rightarrow> string option \<Rightarrow> string option \<Rightarrow> string list" where
  "add_argument original opt_char opt_arg opt_name =
     skip_args opt_char (opt_arg \<noteq> None) opt_name False original @ opt_char #
       (case opt_arg of None \<Rightarrow> [] | Some a \<Rightarrow> [a])"

text \<open>The option occurs once afterwards, also when the command line had it several times.\<close>

lemma skip_args_free: "opt \<notin> set (skip_args opt h nm sk as)"
  by (induction opt h nm sk as rule: skip_args.induct) auto

lemma skip_args_absent:
  "opt \<notin> set as \<Longrightarrow> nm \<notin> Some ` set as \<Longrightarrow> skip_args opt h nm False as = as"
  by (induction as) auto

lemma add_argument_idem:
  assumes "opt_arg \<noteq> Some opt_char" and "opt_name \<noteq> Some opt_char" "opt_name \<noteq> opt_arg \<or> opt_name = None"
  shows "add_argument (add_argument args opt_char opt_arg opt_name) opt_char opt_arg opt_name =
    add_argument args opt_char opt_arg opt_name"
proof -
  let ?as = "skip_args opt_char (opt_arg \<noteq> None) opt_name False args"
  have nm: "opt_name \<notin> Some ` set (skip_args opt_char h opt_name sk as)" for h sk as
    by (induction opt_char h opt_name sk as rule: skip_args.induct) auto
  have "skip_args opt_char h opt_name False (as @ bs) = as @ skip_args opt_char h opt_name False bs"
    if "opt_char \<notin> set as" "opt_name \<notin> Some ` set as" for h as bs
    using that by (induction as) auto
  note ap = this[OF skip_args_free nm]
  show ?thesis using assms by (cases opt_arg) (auto simp: add_argument_def ap)
qed

end
