(* ===== verification/Match.thy ===== *)
theory Match
  imports Con_Marks Util
begin

text \<open>
  Criteria (src/match.c): initialising, parsing and evaluating a match, and finding the container
  that swallows a window.  Matching a pattern, compiling it and the X11 atoms of the window types
  come from outside the program; the definitions take them as arguments \<open>rm\<close> (the pattern matches
  the string), \<open>compiles\<close> (the pattern compiles) and \<open>atom\<close>.
\<close>

definition no_window_type :: nat where "no_window_type = 4294967295"

text \<open>\<open>match_init\<close> clears the structure, so the dock criterion starts as \<open>M_NODOCK\<close> (0).\<close>

definition match_init :: match where
  "match_init =
     \<lparr>m_error = None, m_title = None, m_application = None, m_class = None, m_instance = None,
      m_mark = None, m_window_role = None, m_workspace = None, m_machine = None,
      m_window_type = no_window_type, m_urgent = U_DONTCHECK, m_dock = M_NODOCK, m_id = 0,
      m_window_mode = WM_ANY, m_con_id = None, match_all_windows = False, insert_where = M_HERE,
      restart_mode = False\<rparr>"

definition match_is_empty :: "match \<Rightarrow> bool" where
  "match_is_empty m \<longleftrightarrow>
     m_title m = None \<and> m_mark m = None \<and> m_application m = None \<and> m_class m = None \<and>
     m_instance m = None \<and> m_window_role m = None \<and> m_workspace m = None \<and> m_machine m = None \<and>
     m_urgent m = U_DONTCHECK \<and> m_id m = 0 \<and> m_window_type m = no_window_type \<and>
     m_con_id m = None \<and> m_dock m = M_NODOCK \<and> m_window_mode m = WM_ANY \<and>
     match_all_windows m = False"

section \<open>Evaluating a match\<close>

text \<open>\<open>CHECK_WINDOW_FIELD\<close>: \<open>fld\<close> is the window's field, \<open>foc\<close> that of the focused window.\<close>

definition check_window_field ::
  "(string \<Rightarrow> string \<Rightarrow> bool) \<Rightarrow> cstr \<Rightarrow> cstr \<Rightarrow> cstr \<Rightarrow> bool" where
  "check_window_field rm pat fld foc =
     (case pat of None \<Rightarrow> True
      | Some p \<Rightarrow>
          let str = (case fld of None \<Rightarrow> '''' | Some x \<Rightarrow> x)
          in if p = ''__focused__'' \<and> foc = Some str then True else rm p str)"

definition focused_window :: "i3 \<Rightarrow> window option" where
  "focused_window s = Option.bind (focused s) (\<lambda>f. con_window (heap s f))"

definition check_field ::
  "(string \<Rightarrow> string \<Rightarrow> bool) \<Rightarrow> i3 \<Rightarrow> cstr \<Rightarrow> (window \<Rightarrow> cstr) \<Rightarrow> window \<Rightarrow> bool" where
  "check_field rm s pat fld w =
     check_window_field rm pat (fld w) (Option.bind (focused_window s) fld)"

definition timercmp_gt :: "nat \<times> nat \<Rightarrow> nat \<times> nat \<Rightarrow> bool" where
  "timercmp_gt a b \<longleftrightarrow> (if fst a = fst b then snd a > snd b else fst a > fst b)"

definition check_urgent :: "i3 \<Rightarrow> match \<Rightarrow> window \<Rightarrow> bool" where
  "check_urgent s m w =
     (case m_urgent m of
        U_LATEST \<Rightarrow> fst (urgent_time w) \<noteq> 0 \<and>
          \<not> (\<exists>c \<in> live s. case con_window (heap s c) of None \<Rightarrow> False
               | Some v \<Rightarrow> timercmp_gt (urgent_time v) (urgent_time w))
      | U_OLDEST \<Rightarrow> fst (urgent_time w) \<noteq> 0 \<and>
          \<not> (\<exists>c \<in> live s. case con_window (heap s c) of None \<Rightarrow> False
               | Some v \<Rightarrow> fst (urgent_time v) \<noteq> 0 \<and> timercmp_gt (urgent_time w) (urgent_time v))
      | U_DONTCHECK \<Rightarrow> True)"

definition check_workspace :: "(string \<Rightarrow> string \<Rightarrow> bool) \<Rightarrow> i3 \<Rightarrow> match \<Rightarrow> window \<Rightarrow> bool option" where
  "check_workspace rm s m w =
     (case m_workspace m of None \<Rightarrow> Some True
      | Some p \<Rightarrow>
         (case con_by_window_id s (win_id w) of None \<Rightarrow> Some False
          | Some c \<Rightarrow> do {
              ws \<leftarrow> con_get_workspace s c;
              case ws of None \<Rightarrow> Some False
              | Some ws \<Rightarrow> do {
                  name \<leftarrow> con_name (heap s ws);
                  if p = ''__focused__'' then do {
                    f \<leftarrow> focused s;
                    fw \<leftarrow> con_get_workspace s f;
                    fw \<leftarrow> fw;
                    fname \<leftarrow> con_name (heap s fw);
                    Some (name = fname \<or> rm p name) }
                  else Some (rm p name) } }))"

definition check_dock :: "match \<Rightarrow> window \<Rightarrow> bool" where
  "check_dock m w \<longleftrightarrow>
     m_dock m = M_DONTCHECK \<or>
     (win_dock w = W_DOCK_TOP \<and> m_dock m = M_DOCK_TOP) \<or>
     (win_dock w = W_DOCK_BOTTOM \<and> m_dock m = M_DOCK_BOTTOM) \<or>
     ((win_dock w = W_DOCK_TOP \<or> win_dock w = W_DOCK_BOTTOM) \<and> m_dock m = M_DOCK_ANY) \<or>
     (win_dock w = W_NODOCK \<and> m_dock m = M_NODOCK)"

definition check_mark :: "(string \<Rightarrow> string \<Rightarrow> bool) \<Rightarrow> i3 \<Rightarrow> match \<Rightarrow> window \<Rightarrow> bool" where
  "check_mark rm s m w =
     (case m_mark m of None \<Rightarrow> True
      | Some p \<Rightarrow>
         (case con_by_window_id s (win_id w) of None \<Rightarrow> False
          | Some c \<Rightarrow> list_ex (rm p) (marks (heap s c))))"

definition check_window_mode :: "i3 \<Rightarrow> match \<Rightarrow> window \<Rightarrow> bool option" where
  "check_window_mode s m w =
     (if m_window_mode m = WM_ANY then Some True
      else case con_by_window_id s (win_id w) of None \<Rightarrow> Some False
      | Some c \<Rightarrow>
         (case m_window_mode m of
            WM_TILING_AUTO \<Rightarrow> Some (con_floating (heap s c) = FLOATING_AUTO_OFF)
          | WM_TILING_USER \<Rightarrow> Some (con_floating (heap s c) = FLOATING_USER_OFF)
          | WM_TILING \<Rightarrow> map_option (\<lambda>f. f = None) (con_inside_floating s c)
          | WM_FLOATING_AUTO \<Rightarrow> Some (con_floating (heap s c) = FLOATING_AUTO_ON)
          | WM_FLOATING_USER \<Rightarrow> Some (con_floating (heap s c) = FLOATING_USER_ON)
          | WM_FLOATING \<Rightarrow> map_option (\<lambda>f. f \<noteq> None) (con_inside_floating s c)
          | WM_ANY \<Rightarrow> None))"

definition match_matches_window ::
  "(string \<Rightarrow> string \<Rightarrow> bool) \<Rightarrow> i3 \<Rightarrow> match \<Rightarrow> window \<Rightarrow> bool option" where
  "match_matches_window rm s m w =
     (if \<not> check_field rm s (m_class m) win_class w then Some False
      else if \<not> check_field rm s (m_instance m) win_instance w then Some False
      else if m_id m \<noteq> 0 \<and> win_id w \<noteq> m_id m then Some False
      else if \<not> check_field rm s (m_title m) win_name w then Some False
      else if \<not> check_field rm s (m_window_role m) win_role w then Some False
      else if m_window_type m \<noteq> no_window_type \<and> window_type w \<noteq> m_window_type m then Some False
      else if \<not> check_field rm s (m_machine m) machine w then Some False
      else if \<not> check_urgent s m w then Some False
      else do {
        b \<leftarrow> check_workspace rm s m w;
        if \<not> b then Some False
        else if \<not> check_dock m w then Some False
        else if \<not> check_mark rm s m w then Some False
        else check_window_mode s m w
      })"

section \<open>Parsing a criterion\<close>

definition set_pattern :: "(string \<Rightarrow> bool) \<Rightarrow> string \<Rightarrow> cstr" where
  "set_pattern compiles v = (if compiles v then Some v else None)"

definition window_types :: "string list" where
  "window_types = [''normal'', ''dialog'', ''utility'', ''toolbar'', ''splash'', ''menu'',
     ''dropdown_menu'', ''popup_menu'', ''tooltip'', ''notification'']"

text \<open>Where the code uses the value without checking it, a missing value is a crash.\<close>

definition match_parse_property ::
  "(string \<Rightarrow> bool) \<Rightarrow> (string \<Rightarrow> nat) \<Rightarrow> i3 \<Rightarrow> string \<Rightarrow> cstr \<Rightarrow> match \<Rightarrow> match option" where
  "match_parse_property compiles atom s ctype cvalue m =
     (if ctype = ''class'' then map_option (\<lambda>v. m\<lparr>m_class := set_pattern compiles v\<rparr>) cvalue
      else if ctype = ''instance'' then map_option (\<lambda>v. m\<lparr>m_instance := set_pattern compiles v\<rparr>) cvalue
      else if ctype = ''window_role'' then
        map_option (\<lambda>v. m\<lparr>m_window_role := set_pattern compiles v\<rparr>) cvalue
      else if ctype = ''con_id'' then
        map_option (\<lambda>v.
          if v = ''__focused__'' then m\<lparr>m_con_id := focused s\<rparr>
          else let (ok, n) = parse_long v 0
               in if \<not> ok then m\<lparr>m_error := Some ''invalid con_id''\<rparr>
                  else m\<lparr>m_con_id := (if n = 0 then None else Some (nat n))\<rparr>) cvalue
      else if ctype = ''id'' then
        map_option (\<lambda>v.
          let (ok, n) = parse_long v 0
          in if \<not> ok then m\<lparr>m_error := Some ''invalid id''\<rparr>
             else m\<lparr>m_id := nat (n mod 2 ^ 32)\<rparr>) cvalue
      else if ctype = ''window_type'' then
        map_option (\<lambda>v.
          case List.find (\<lambda>t. strcasecmp v t = 0) window_types of
            Some t \<Rightarrow> m\<lparr>m_window_type := atom t\<rparr>
          | None \<Rightarrow> m\<lparr>m_error := Some ''unknown window_type value''\<rparr>) cvalue
      else if ctype = ''con_mark'' then map_option (\<lambda>v. m\<lparr>m_mark := set_pattern compiles v\<rparr>) cvalue
      else if ctype = ''title'' then map_option (\<lambda>v. m\<lparr>m_title := set_pattern compiles v\<rparr>) cvalue
      else if ctype = ''urgent'' then
        map_option (\<lambda>v.
          if list_ex (\<lambda>t. strcasecmp v t = 0) [''latest'', ''newest'', ''recent'', ''last'']
          then m\<lparr>m_urgent := U_LATEST\<rparr>
          else if list_ex (\<lambda>t. strcasecmp v t = 0) [''oldest'', ''first'']
          then m\<lparr>m_urgent := U_OLDEST\<rparr>
          else m) cvalue
      else if ctype = ''workspace'' then map_option (\<lambda>v. m\<lparr>m_workspace := set_pattern compiles v\<rparr>) cvalue
      else if ctype = ''machine'' then map_option (\<lambda>v. m\<lparr>m_machine := set_pattern compiles v\<rparr>) cvalue
      else if ctype = ''tiling'' then Some (m\<lparr>m_window_mode := WM_TILING\<rparr>)
      else if ctype = ''tiling_from'' \<and> cvalue = Some ''auto'' then
        Some (m\<lparr>m_window_mode := WM_TILING_AUTO\<rparr>)
      else if ctype = ''tiling_from'' \<and> cvalue = Some ''user'' then
        Some (m\<lparr>m_window_mode := WM_TILING_USER\<rparr>)
      else if ctype = ''floating'' then Some (m\<lparr>m_window_mode := WM_FLOATING\<rparr>)
      else if ctype = ''floating_from'' \<and> cvalue = Some ''auto'' then
        Some (m\<lparr>m_window_mode := WM_FLOATING_AUTO\<rparr>)
      else if ctype = ''floating_from'' \<and> cvalue = Some ''user'' then
        Some (m\<lparr>m_window_mode := WM_FLOATING_USER\<rparr>)
      else if ctype = ''all'' then Some (m\<lparr>match_all_windows := True\<rparr>)
      else Some m)"

section \<open>Swallowing\<close>

fun first_match ::
  "(match \<Rightarrow> bool option) \<Rightarrow> match list \<Rightarrow> match option option" where
  "first_match f [] = Some None"
| "first_match f (m # ms) =
     Option.bind (f m) (\<lambda>b. if b then Some (Some m) else first_match f ms)"

fun for_window_loop ::
  "nat \<Rightarrow> (match \<Rightarrow> bool option) \<Rightarrow> i3 \<Rightarrow> con_id \<Rightarrow> (con_id \<times> match) option option" where
  "for_window_loop 0 f s c = None"
| "for_window_loop (Suc n) f s c =
     first_opt (\<lambda>d. Option.bind (first_match f (swallow_head (heap s d))) (\<lambda>r.
         case r of Some m \<Rightarrow> Some (Some (d, m)) | None \<Rightarrow> for_window_loop n f s d))
       (nodes_head (heap s c) @ floating_head (heap s c))"

definition con_for_window ::
  "(string \<Rightarrow> string \<Rightarrow> bool) \<Rightarrow> i3 \<Rightarrow> con_id \<Rightarrow> window \<Rightarrow> (con_id \<times> match) option option" where
  "con_for_window rm s c w = for_window_loop (up_fuel s) (\<lambda>m. match_matches_window rm s m w) s c"

section \<open>Properties\<close>

lemma match_init_empty: "match_is_empty match_init"
  by (simp add: match_is_empty_def match_init_def)

text \<open>An empty match accepts exactly the windows that are not docks.\<close>

lemma empty_match_windows:
  assumes "match_is_empty m"
  shows "match_matches_window rm s m w = Some (win_dock w = W_NODOCK)"
  using assms
  by (simp add: match_is_empty_def match_matches_window_def check_field_def check_window_field_def
      check_urgent_def check_workspace_def check_dock_def check_mark_def check_window_mode_def)

text \<open>A match that accepts a window satisfies every criterion it has.\<close>

lemma match_criteria:
  assumes "match_matches_window rm s m w = Some True"
  shows "check_field rm s (m_class m) win_class w" "check_field rm s (m_title m) win_name w"
    "m_id m = 0 \<or> win_id w = m_id m" "check_urgent s m w" "check_dock m w" "check_mark rm s m w"
    "check_window_mode s m w = Some True"
  using assms by (auto simp: match_matches_window_def bind_eq_Some split: if_splits)

text \<open>Only the latest urgent window passes the \<open>urgent=latest\<close> criterion.\<close>

lemma urgent_latest_max:
  assumes "match_matches_window rm s m w = Some True" and "m_urgent m = U_LATEST"
    and "c \<in> live s" and "con_window (heap s c) = Some v"
  shows "\<not> timercmp_gt (urgent_time v) (urgent_time w)"
proof -
  have "check_urgent s m w" by (rule match_criteria(4)[OF assms(1)])
  with assms(2-4) show ?thesis by (auto simp: check_urgent_def split: option.splits)
qed

lemma first_match_total:
  assumes "\<And>m. m \<in> set ms \<Longrightarrow> f m = Some (g m)"
  shows "first_match f ms = Some (List.find g ms)"
  using assms by (induction ms) auto

definition swallows :: "(match \<Rightarrow> bool) \<Rightarrow> i3 \<Rightarrow> con_id \<Rightarrow> bool" where
  "swallows g s d \<longleftrightarrow> (\<exists>m \<in> set (swallow_head (heap s d)). g m)"

lemma find_swallow: "List.find g (swallow_head (heap s d)) = None \<longleftrightarrow> \<not> swallows g s d"
  by (auto simp: swallows_def find_None_iff)

lemma for_window_spec:
  assumes wf: "wf_tree {} s" and c: "c \<in> live s"
    and f: "\<And>d m. m \<in> set (swallow_head (heap s d)) \<Longrightarrow> f m = Some (g m)"
  shows "\<exists>r. for_window_loop (up_fuel s) f s c = Some r \<and>
    (case r of
       None \<Rightarrow> \<forall>d \<in> subtree s c - {c}. \<not> swallows g s d
     | Some (d, m) \<Rightarrow> d \<in> subtree s c - {c} \<and> m \<in> set (swallow_head (heap s d)) \<and> g m)"
  using wf c
proof (induction rule: down_induct)
  case (step n c)
  let ?P = "\<lambda>d r. case r of
       None \<Rightarrow> \<forall>e \<in> subtree s d. \<not> swallows g s e
     | Some (e, m) \<Rightarrow> e \<in> subtree s d \<and> m \<in> set (swallow_head (heap s e)) \<and> g m"
  let ?h = "\<lambda>d. Option.bind (first_match f (swallow_head (heap s d))) (\<lambda>r.
         case r of Some m \<Rightarrow> Some (Some (d, m)) | None \<Rightarrow> for_window_loop n f s d)"
  have fm0: "first_match f (swallow_head (heap s d)) = Some (List.find g (swallow_head (heap s d)))"
    for d by (rule first_match_total) (rule f)
  have h: "\<exists>r. ?h d = Some r \<and> ?P d r" if d: "d \<in> children s c" for d
  proof (cases "List.find g (swallow_head (heap s d))")
    case (Some m)
    have fm: "first_match f (swallow_head (heap s d)) = Some (Some m)"
      unfolding fm0 Some ..
    with find_SomeD[OF Some] show ?thesis by auto
  next
    case None
    obtain r where r: "for_window_loop n f s d = Some r" "case r of
       None \<Rightarrow> \<forall>e \<in> subtree s d - {d}. \<not> swallows g s e
     | Some (e, m) \<Rightarrow> e \<in> subtree s d - {d} \<and> m \<in> set (swallow_head (heap s e)) \<and> g m"
      using step(2)[OF d] by blast
    have fm: "first_match f (swallow_head (heap s d)) = Some None"
      unfolding fm0 None ..
    have "?P d r" using r(2) None find_swallow by (cases r) auto
    with fm r(1) show ?thesis by auto
  qed
  have gen: "\<exists>r. first_opt ?h ds = Some r \<and> (case r of
       None \<Rightarrow> \<forall>d \<in> set ds. \<forall>e \<in> subtree s d. \<not> swallows g s e
     | Some (e, m) \<Rightarrow> (\<exists>d \<in> set ds. e \<in> subtree s d) \<and> m \<in> set (swallow_head (heap s e)) \<and> g m)"
    if "set ds \<subseteq> children s c" for ds
    using that
  proof (induction ds)
    case (Cons d ds)
    then obtain r where r: "?h d = Some r" "?P d r" using h[of d] by auto
    show ?case
    proof (cases r)
      case (Some a)
      with r show ?thesis by (cases a) (auto simp del: bind_eq_Some_conv)
    next
      case None
      with Cons obtain q where q: "first_opt ?h ds = Some q" "(case q of
       None \<Rightarrow> \<forall>d \<in> set ds. \<forall>e \<in> subtree s d. \<not> swallows g s e
     | Some (e, m) \<Rightarrow> (\<exists>d \<in> set ds. e \<in> subtree s d) \<and> m \<in> set (swallow_head (heap s e)) \<and> g m)"
        by auto
      have "first_opt ?h (d # ds) = Some q" using r(1) None q(1) by simp
      moreover have "case q of
       None \<Rightarrow> \<forall>d \<in> set (d # ds). \<forall>e \<in> subtree s d. \<not> swallows g s e
     | Some (e, m) \<Rightarrow> (\<exists>d \<in> set (d # ds). e \<in> subtree s d) \<and> m \<in> set (swallow_head (heap s e)) \<and> g m"
        using q(2) r(2) None by (cases q) auto
      ultimately show ?thesis by blast
    qed
  qed simp
  let ?ds = "nodes_head (heap s c) @ floating_head (heap s c)"
  have ds: "set ?ds = children s c" by (simp add: children_def)
  from gen[OF eq_refl[OF ds], unfolded ds] obtain r where
    r: "for_window_loop (Suc n) f s c = Some r" "case r of
       None \<Rightarrow> \<forall>d \<in> children s c. \<forall>e \<in> subtree s d. \<not> swallows g s e
     | Some (e, m) \<Rightarrow> (\<exists>d \<in> children s c. e \<in> subtree s d) \<and> m \<in> set (swallow_head (heap s e)) \<and> g m"
    unfolding for_window_loop.simps by blast
  show ?case
    unfolding r(1) strict_subtree_children[OF wf step(1)]
    using r(2) by (cases r) auto
qed

end
