(* ===== verification/Randr.thy ===== *)
theory Randr
  imports Util
begin

text \<open>
  Looking up outputs (src/randr.c, src/output.c): by name, by position, by direction.  The main
  results characterise the directional search: it returns the closest (or farthest) active output
  that lies in the direction and overlaps the current one on the other axis.
\<close>

datatype close_far = CLOSEST_OUTPUT | FARTHEST_OUTPUT

record xoutput =
  out_id :: nat
  active :: bool
  changed :: bool
  to_be_disabled :: bool
  primary :: bool
  names_head :: "string list"
  out_con :: "con_id option"
  out_rect :: rect

section \<open>Lookups\<close>

definition get_output_by_id :: "xoutput list \<Rightarrow> nat \<Rightarrow> xoutput option" where
  "get_output_by_id outs i = List.find (\<lambda>out. out_id out = i) outs"

definition get_output_by_name :: "xoutput list \<Rightarrow> string \<Rightarrow> bool \<Rightarrow> xoutput option" where
  "get_output_by_name outs name require_active =
     (let get_primary = strcasecmp ''primary'' name = 0;
          get_non_primary = strcasecmp ''nonprimary'' name = 0
      in List.find (\<lambda>out.
           \<not> (require_active \<and> \<not> active out) \<and>
           (primary out \<and> get_primary \<or> \<not> primary out \<and> get_non_primary \<or>
            (\<exists>n \<in> set (names_head out). strcasecmp n name = 0))) outs)"

text \<open>Without an active output the program exits.\<close>

fun first_output_loop :: "xoutput list \<Rightarrow> xoutput option \<Rightarrow> xoutput option" where
  "first_output_loop [] result = result"
| "first_output_loop (out # outs) result =
     (if active out then
        (if primary out then Some out
         else first_output_loop outs (if result = None then Some out else result))
      else first_output_loop outs result)"

definition get_first_output :: "xoutput list \<Rightarrow> xoutput option" where
  "get_first_output outs = first_output_loop outs None"

definition any_randr_output_active :: "xoutput list \<Rightarrow> xoutput \<Rightarrow> bool" where
  "any_randr_output_active outs root_output \<longleftrightarrow>
     (\<exists>out \<in> set outs. out \<noteq> root_output \<and> \<not> to_be_disabled out \<and> active out)"

definition rect_covers :: "rect \<Rightarrow> u32 \<Rightarrow> u32 \<Rightarrow> bool" where
  "rect_covers r x y \<longleftrightarrow> x \<ge> rx r \<and> x < rx r + rwidth r \<and> y \<ge> ry r \<and> y < ry r + rheight r"

definition get_output_containing :: "xoutput list \<Rightarrow> u32 \<Rightarrow> u32 \<Rightarrow> xoutput option" where
  "get_output_containing outs x y = List.find (\<lambda>out. active out \<and> rect_covers (out_rect out) x y) outs"

definition get_output_with_dimensions :: "xoutput list \<Rightarrow> rect \<Rightarrow> xoutput option" where
  "get_output_with_dimensions outs r =
     List.find (\<lambda>out. active out \<and> rx r = rx (out_rect out) \<and> rwidth r = rwidth (out_rect out) \<and>
       ry r = ry (out_rect out) \<and> rheight r = rheight (out_rect out)) outs"

text \<open>
  The intersection of two rectangles, in \<open>int\<close> arithmetic.  The loop compares with \<open>max_area\<close>,
  which stays at its initial value.
\<close>

definition overlap :: "rect \<Rightarrow> rect \<Rightarrow> int \<times> int \<times> int \<times> int" where
  "overlap r q =
     (max (sint (rx r)) (sint (rx q)), min (sint (rx r + rwidth r)) (sint (rx q + rwidth q)),
      max (sint (ry r)) (sint (ry q)), min (sint (ry r + rheight r)) (sint (ry q + rheight q)))"

definition overlap_area :: "rect \<Rightarrow> rect \<Rightarrow> int" where
  "overlap_area r q = (let (left, right, top, bottom) = overlap r q in (right - left) * (bottom - top))"

definition overlaps :: "rect \<Rightarrow> rect \<Rightarrow> bool" where
  "overlaps r q \<longleftrightarrow> (let (left, right, top, bottom) = overlap r q in left < right \<and> bottom > top)"

fun containing_loop :: "rect \<Rightarrow> int \<Rightarrow> xoutput list \<Rightarrow> xoutput option \<Rightarrow> xoutput option" where
  "containing_loop r max_area [] result = result"
| "containing_loop r max_area (out # outs) result =
     containing_loop r max_area outs
       (if active out \<and> overlaps r (out_rect out) \<and> overlap_area r (out_rect out) > max_area
        then Some out else result)"

definition output_containing_rect :: "xoutput list \<Rightarrow> rect \<Rightarrow> xoutput option" where
  "output_containing_rect outs r = containing_loop r 0 outs None"

definition get_output_from_rect :: "xoutput list \<Rightarrow> rect \<Rightarrow> xoutput option" where
  "get_output_from_rect outs r =
     (case get_output_containing outs (rx r + rwidth r div 2) (ry r + rheight r div 2) of
        Some out \<Rightarrow> Some out
      | None \<Rightarrow> output_containing_rect outs r)"

section \<open>Directions\<close>

definition in_direction :: "direction \<Rightarrow> rect \<Rightarrow> rect \<Rightarrow> bool" where
  "in_direction d cur other \<longleftrightarrow>
     (if (d = D_RIGHT \<and> rx other > rx cur) \<or> (d = D_LEFT \<and> rx other < rx cur) then
        \<not> (ry other + rheight other \<le> ry cur \<or> ry cur + rheight cur \<le> ry other)
      else if (d = D_DOWN \<and> ry other > ry cur) \<or> (d = D_UP \<and> ry other < ry cur) then
        \<not> (rx other + rwidth other \<le> rx cur \<or> rx cur + rwidth cur \<le> rx other)
      else False)"

definition better :: "direction \<Rightarrow> close_far \<Rightarrow> rect \<Rightarrow> rect \<Rightarrow> bool" where
  "better d cf other best \<longleftrightarrow>
     (if cf = CLOSEST_OUTPUT then
        (d = D_RIGHT \<and> rx other < rx best) \<or> (d = D_LEFT \<and> rx other > rx best) \<or>
        (d = D_DOWN \<and> ry other < ry best) \<or> (d = D_UP \<and> ry other > ry best)
      else
        (d = D_RIGHT \<and> rx other > rx best) \<or> (d = D_LEFT \<and> rx other < rx best) \<or>
        (d = D_DOWN \<and> ry other > ry best) \<or> (d = D_UP \<and> ry other < ry best))"

fun output_next_loop ::
  "direction \<Rightarrow> rect \<Rightarrow> close_far \<Rightarrow> xoutput list \<Rightarrow> xoutput option \<Rightarrow> xoutput option" where
  "output_next_loop d cur cf [] best = best"
| "output_next_loop d cur cf (out # outs) best =
     (if \<not> active out \<or> \<not> in_direction d cur (out_rect out) then output_next_loop d cur cf outs best
      else case best of
        None \<Rightarrow> output_next_loop d cur cf outs (Some out)
      | Some b \<Rightarrow> output_next_loop d cur cf outs
          (Some (if better d cf (out_rect out) (out_rect b) then out else b)))"

definition get_output_next :: "xoutput list \<Rightarrow> direction \<Rightarrow> xoutput \<Rightarrow> close_far \<Rightarrow> xoutput option" where
  "get_output_next outs d cur cf = output_next_loop d (out_rect cur) cf outs None"

fun opposite :: "direction \<Rightarrow> direction" where
  "opposite D_RIGHT = D_LEFT"
| "opposite D_LEFT = D_RIGHT"
| "opposite D_DOWN = D_UP"
| "opposite D_UP = D_DOWN"

definition get_output_next_wrap :: "xoutput list \<Rightarrow> direction \<Rightarrow> xoutput \<Rightarrow> xoutput" where
  "get_output_next_wrap outs d cur =
     (case get_output_next outs d cur CLOSEST_OUTPUT of
        Some b \<Rightarrow> b
      | None \<Rightarrow>
          (case get_output_next outs (opposite d) cur FARTHEST_OUTPUT of
             Some b \<Rightarrow> b
           | None \<Rightarrow> cur))"

text \<open>\<open>get_output_from_string\<close>; the output of the focused container is an argument.\<close>

definition get_output_from_string :: "xoutput list \<Rightarrow> xoutput option \<Rightarrow> xoutput \<Rightarrow> string \<Rightarrow> xoutput option" where
  "get_output_from_string outs focused_output cur name =
     (if strcasecmp name ''current'' = 0 then focused_output
      else if strcasecmp name ''left'' = 0 then Some (get_output_next_wrap outs D_LEFT cur)
      else if strcasecmp name ''right'' = 0 then Some (get_output_next_wrap outs D_RIGHT cur)
      else if strcasecmp name ''up'' = 0 then Some (get_output_next_wrap outs D_UP cur)
      else if strcasecmp name ''down'' = 0 then Some (get_output_next_wrap outs D_DOWN cur)
      else get_output_by_name outs name True)"

section \<open>What the lookups return\<close>

lemma first_output_loop_spec:
  "first_output_loop outs r =
     (case List.find (\<lambda>out. active out \<and> primary out) outs of
        Some out \<Rightarrow> Some out
      | None \<Rightarrow> (case r of Some q \<Rightarrow> Some q | None \<Rightarrow> List.find active outs))"
  by (induction outs r rule: first_output_loop.induct) (auto split: option.splits)

text \<open>The active primary output if there is one, the first active output otherwise.\<close>

lemma get_first_output_spec:
  "get_first_output outs =
     (case List.find (\<lambda>out. active out \<and> primary out) outs of
        Some out \<Rightarrow> Some out | None \<Rightarrow> List.find active outs)"
  by (simp add: get_first_output_def first_output_loop_spec split: option.split)

lemma better_irrefl [simp]: "\<not> better d cf r r"
  by (cases d) (simp_all add: better_def)

lemma better_trans: "\<not> better d cf r q \<Longrightarrow> \<not> better d cf q p \<Longrightarrow> \<not> better d cf r p"
  by (cases d) (auto simp: better_def split: if_splits)

lemma better_asym: "better d cf r q \<Longrightarrow> \<not> better d cf q r"
  by (cases d) (auto simp: better_def split: if_splits)

definition candidates :: "direction \<Rightarrow> rect \<Rightarrow> xoutput list \<Rightarrow> xoutput set" where
  "candidates d cur outs = {out \<in> set outs. active out \<and> in_direction d cur (out_rect out)}"

lemma output_next_loop_spec:
  "case output_next_loop d cur cf outs best of
     None \<Rightarrow> best = None \<and> candidates d cur outs = {}
   | Some b \<Rightarrow> (best = Some b \<or> b \<in> candidates d cur outs) \<and>
       (\<forall>out \<in> candidates d cur outs. \<not> better d cf (out_rect out) (out_rect b)) \<and>
       (\<forall>q. best = Some q \<longrightarrow> \<not> better d cf (out_rect q) (out_rect b))"
proof (induction outs arbitrary: best)
  case Nil
  then show ?case by (cases best) (auto simp: candidates_def)
next
  case (Cons out outs)
  show ?case
  proof (cases "active out \<and> in_direction d cur (out_rect out)")
    case False
    then have "candidates d cur (out # outs) = candidates d cur outs" by (auto simp: candidates_def)
    moreover have "output_next_loop d cur cf (out # outs) best = output_next_loop d cur cf outs best"
      using False by auto
    ultimately show ?thesis using Cons[of best] by (simp only:)
  next
    case True
    then have c: "candidates d cur (out # outs) = insert out (candidates d cur outs)"
      by (auto simp: candidates_def)
    define q where "q = (case best of None \<Rightarrow> out
      | Some b \<Rightarrow> if better d cf (out_rect out) (out_rect b) then out else b)"
    have step: "output_next_loop d cur cf (out # outs) best = output_next_loop d cur cf outs (Some q)"
      using True by (auto simp: q_def split: option.splits)
    from Cons[of "Some q"] obtain b where b: "output_next_loop d cur cf outs (Some q) = Some b"
      "q = b \<or> b \<in> candidates d cur outs"
      "\<forall>out \<in> candidates d cur outs. \<not> better d cf (out_rect out) (out_rect b)"
      "\<not> better d cf (out_rect q) (out_rect b)"
      by (cases "output_next_loop d cur cf outs (Some q)") auto
    have "q = out \<or> best = Some q" by (auto simp: q_def split: option.splits)
    moreover have "\<not> better d cf (out_rect out) (out_rect q)"
      by (auto simp: q_def split: option.splits)
    then have "\<not> better d cf (out_rect out) (out_rect b)" using better_trans b(4) by blast
    moreover have "\<not> better d cf (out_rect p) (out_rect b)" if "best = Some p" for p
    proof -
      have "\<not> better d cf (out_rect p) (out_rect q)"
        using that better_asym by (auto simp: q_def)
      then show ?thesis using better_trans b(4) by blast
    qed
    ultimately show ?thesis
      unfolding step c b(1) option.case using b(2,3) by blast
  qed
qed

lemma get_output_next_Some:
  assumes "get_output_next outs d cur cf = Some b"
  shows "b \<in> candidates d (out_rect cur) outs"
    and "\<forall>out \<in> candidates d (out_rect cur) outs. \<not> better d cf (out_rect out) (out_rect b)"
  using assms output_next_loop_spec[where d = d and cur = "out_rect cur" and cf = cf and outs = outs
      and best = None]
  by (auto simp: get_output_next_def)

lemma get_output_next_None:
  "get_output_next outs d cur cf = None \<longleftrightarrow> candidates d (out_rect cur) outs = {}"
  using output_next_loop_spec[where d = d and cur = "out_rect cur" and cf = cf and outs = outs
      and best = None]
  by (auto simp: get_output_next_def split: option.splits)

text \<open>
  How far a rectangle lies in a direction: the closest output is the one with the smallest
  position, and the farthest one in the opposite direction is again the smallest.
\<close>

definition position_along :: "direction \<Rightarrow> rect \<Rightarrow> int" where
  "position_along d r =
     (case d of D_RIGHT \<Rightarrow> uint (rx r) | D_LEFT \<Rightarrow> - uint (rx r)
      | D_DOWN \<Rightarrow> uint (ry r) | D_UP \<Rightarrow> - uint (ry r))"

lemma better_position:
  "\<not> better d CLOSEST_OUTPUT r b \<longleftrightarrow> position_along d b \<le> position_along d r"
  "\<not> better (opposite d) FARTHEST_OUTPUT r b \<longleftrightarrow> position_along d b \<le> position_along d r"
  by (cases d; simp add: better_def position_along_def word_less_def linorder_not_less)+

lemma get_output_next_wrap_spec:
  "(if candidates d (out_rect cur) outs \<noteq> {} then
      get_output_next_wrap outs d cur \<in> candidates d (out_rect cur) outs \<and>
      (\<forall>out \<in> candidates d (out_rect cur) outs.
         position_along d (out_rect (get_output_next_wrap outs d cur)) \<le> position_along d (out_rect out))
    else if candidates (opposite d) (out_rect cur) outs \<noteq> {} then
      get_output_next_wrap outs d cur \<in> candidates (opposite d) (out_rect cur) outs \<and>
      (\<forall>out \<in> candidates (opposite d) (out_rect cur) outs.
         position_along d (out_rect (get_output_next_wrap outs d cur)) \<le> position_along d (out_rect out))
    else get_output_next_wrap outs d cur = cur)"
proof (cases "get_output_next outs d cur CLOSEST_OUTPUT")
  case (Some b)
  from get_output_next_Some[OF this] Some show ?thesis
    by (auto simp: get_output_next_wrap_def better_position)
next
  case None
  then have c: "candidates d (out_rect cur) outs = {}" by (simp only: get_output_next_None)
  show ?thesis
  proof (cases "get_output_next outs (opposite d) cur FARTHEST_OUTPUT")
    case (Some b)
    from get_output_next_Some[OF this] Some None c show ?thesis
      by (auto simp: get_output_next_wrap_def better_position)
  next
    case n: None
    then have "candidates (opposite d) (out_rect cur) outs = {}" by (simp only: get_output_next_None)
    with n None c show ?thesis by (simp add: get_output_next_wrap_def)
  qed
qed

text \<open>Without wrap-around of the coordinates, "in the direction" is symmetric.\<close>

definition fits :: "rect \<Rightarrow> bool" where
  "fits r \<longleftrightarrow> uint (rx r) + uint (rwidth r) < 2 ^ 32 \<and> uint (ry r) + uint (rheight r) < 2 ^ 32"

lemma in_direction_opposite:
  "in_direction d cur other \<longleftrightarrow> in_direction (opposite d) other cur"
  by (cases d) (auto simp: in_direction_def)

text \<open>
  The wrapping search never leaves the outputs given: it returns an active output or the current.
\<close>

lemma get_output_next_wrap_cases:
  "get_output_next_wrap outs d cur = cur \<or>
   (get_output_next_wrap outs d cur \<in> set outs \<and> active (get_output_next_wrap outs d cur))"
proof -
  have "b \<in> set outs \<and> active b" if "get_output_next outs d' cur cf = Some b" for d' cf b
    using get_output_next_Some(1)[OF that] by (simp add: candidates_def)
  then show ?thesis by (auto simp: get_output_next_wrap_def split: option.splits)
qed

text \<open>
  \<open>output_containing_rect\<close> does not compare areas: it returns the last active output that the
  rectangle touches.
\<close>

lemma overlaps_area: "overlaps r q \<Longrightarrow> overlap_area r q > 0"
  by (auto simp: overlaps_def overlap_area_def overlap_def Let_def)

lemma containing_loop_last:
  "containing_loop r 0 outs res =
     (case list_last (filter (\<lambda>out. active out \<and> overlaps r (out_rect out)) outs) of
        Some out \<Rightarrow> Some out | None \<Rightarrow> res)"
proof (induction outs arbitrary: res)
  case (Cons out outs)
  then show ?case
    using overlaps_area[of r "out_rect out"] by (auto simp: list_last_def)
qed simp

end
