(* ===== verification/Workspace.thy ===== *)
theory Workspace
  imports Match Randr
begin

text \<open>
  Finding workspaces (src/workspace.c): by name and number, the assigned output, the next and
  previous one in the order of their numbers.  The lists scanned are those of the workspaces
  below each output; an output whose name starts with two underscores is internal.
\<close>

section \<open>Lookups\<close>

text \<open>\<open>GREP_FIRST\<close> over the content of every output; a later output overrides an earlier one.\<close>

definition content_nodes :: "i3 \<Rightarrow> con_id \<Rightarrow> con_id list option" where
  "content_nodes s out = map_option (\<lambda>c. nodes_head (heap s c)) (output_get_content s out)"

fun grep_outputs :: "i3 \<Rightarrow> (con_id \<Rightarrow> bool) \<Rightarrow> con_id list \<Rightarrow> con_id option \<Rightarrow> con_id option option" where
  "grep_outputs s P [] r = Some r"
| "grep_outputs s P (out # outs) r =
     Option.bind (content_nodes s out) (\<lambda>ns.
       grep_outputs s P outs (case List.find P ns of Some c \<Rightarrow> Some c | None \<Rightarrow> r))"

definition name_matches :: "i3 \<Rightarrow> string \<Rightarrow> con_id \<Rightarrow> bool" where
  "name_matches s name c \<longleftrightarrow>
     (case con_name (heap s c) of Some n \<Rightarrow> strcasecmp n name = 0 | None \<Rightarrow> False)"

definition get_existing_workspace_by_name :: "i3 \<Rightarrow> string \<Rightarrow> con_id option option" where
  "get_existing_workspace_by_name s name =
     grep_outputs s (name_matches s name) (nodes_head (heap s (croot s))) None"

definition get_existing_workspace_by_num :: "i3 \<Rightarrow> int \<Rightarrow> con_id option option" where
  "get_existing_workspace_by_num s n =
     grep_outputs s (\<lambda>c. ws_num (heap s c) = n) (nodes_head (heap s (croot s))) None"

record ws_assignment =
  asg_name :: string
  asg_output :: cstr
  asg_gaps :: gaps
  asg_inner :: bool
  asg_top :: bool
  asg_right :: bool
  asg_bottom :: bool
  asg_left :: bool

text \<open>An assignment by name wins over one by number; of several the first counts.\<close>

fun assigned_loop ::
  "xoutput list \<Rightarrow> string option \<Rightarrow> int \<Rightarrow> ws_assignment list \<Rightarrow> con_id option \<Rightarrow> con_id option" where
  "assigned_loop outs name num [] out = out"
| "assigned_loop outs name num (a # as) out =
     (case asg_output a of
        None \<Rightarrow> assigned_loop outs name num as out
      | Some oname \<Rightarrow>
          if name = Some (asg_name a) then
            (case get_output_by_name outs oname True of
               Some x \<Rightarrow> out_con x
             | None \<Rightarrow> assigned_loop outs name num as out)
          else if out = None \<and> num \<noteq> -1 \<and> name_is_digits (asg_name a) \<and>
                  ws_name_to_number (asg_name a) = num then
            (case get_output_by_name outs oname True of
               Some x \<Rightarrow> assigned_loop outs name num as (out_con x)
             | None \<Rightarrow> assigned_loop outs name num as out)
          else assigned_loop outs name num as out)"

definition get_assigned_output ::
  "xoutput list \<Rightarrow> ws_assignment list \<Rightarrow> string option \<Rightarrow> int \<Rightarrow> con_id option" where
  "get_assigned_output outs as name num = assigned_loop outs name num as None"

definition output_triggers_assignment ::
  "xoutput list \<Rightarrow> ws_assignment list \<Rightarrow> xoutput \<Rightarrow> ws_assignment \<Rightarrow> bool" where
  "output_triggers_assignment outs as out a \<longleftrightarrow>
     (case get_assigned_output outs as (Some (asg_name a)) (-1) of
        None \<Rightarrow> False | Some c \<Rightarrow> out_con out = Some c)"

definition workspace_is_visible :: "i3 \<Rightarrow> con_id \<Rightarrow> bool option" where
  "workspace_is_visible s ws = do {
     out \<leftarrow> con_get_output s ws;
     fs \<leftarrow> con_get_fullscreen_con s out CF_OUTPUT;
     Some (fs = Some ws)
   }"

fun get_sticky :: "nat \<Rightarrow> i3 \<Rightarrow> con_id \<Rightarrow> string \<Rightarrow> con_id \<Rightarrow> con_id option option" where
  "get_sticky 0 s c g ex = None"
| "get_sticky (Suc n) s c g ex =
     first_opt (\<lambda>d.
         if d \<noteq> ex \<and> sticky_group (heap s d) = Some g \<and> con_window (heap s d) \<noteq> None
         then Some (Some d)
         else get_sticky n s d g ex)
       (nodes_head (heap s c) @ floating_head (heap s c))"

definition apply_default_orientation :: "con_id \<Rightarrow> i3 \<Rightarrow> i3 option" where
  "apply_default_orientation ws s =
     (if default_orientation (cfg s) = NO_ORIENTATION then do {
        out \<leftarrow> con_get_output s ws;
        let r = con_rect (heap s out);
        Some (upd ws (\<lambda>n. n\<lparr>layout := (if rheight r > rwidth r then L_SPLITV else L_SPLITH),
                            con_rect := r\<rparr>) s) }
      else Some (upd ws (\<lambda>n. n\<lparr>layout :=
              (if default_orientation (cfg s) = HORIZ then L_SPLITH else L_SPLITV)\<rparr>) s))"

section \<open>Next and previous\<close>

record ws_scan =
  found :: bool
  cand :: "con_id option"
  first_ws :: "con_id option"
  opp :: "con_id option"

definition scan_init :: ws_scan where
  "scan_init = \<lparr>found = False, cand = None, first_ws = None, opp = None\<rparr>"

definition num_of :: "i3 \<Rightarrow> con_id \<Rightarrow> int" where
  "num_of s c = ws_num (heap s c)"

definition is_ws :: "i3 \<Rightarrow> con_id \<Rightarrow> bool" where
  "is_ws s c \<longleftrightarrow> con_type (heap s c) = CT_WORKSPACE"

text \<open>A scan of one output either returns at once (\<open>Inl\<close>) or goes on with the next output.\<close>

fun scan_outputs ::
  "(con_id list \<Rightarrow> ws_scan \<Rightarrow> con_id + ws_scan) \<Rightarrow> con_id list list \<Rightarrow> ws_scan \<Rightarrow> con_id + ws_scan" where
  "scan_outputs f [] st = Inr st"
| "scan_outputs f (ns # nss) st =
     (case f ns st of Inl r \<Rightarrow> Inl r | Inr st \<Rightarrow> scan_outputs f nss st)"

text \<open>The loop shared by both directions when the current workspace has no number.\<close>

fun scan_named ::
  "i3 \<Rightarrow> con_id \<Rightarrow> (int \<Rightarrow> int \<Rightarrow> bool) \<Rightarrow> con_id list \<Rightarrow> ws_scan \<Rightarrow> con_id + ws_scan" where
  "scan_named s cur lt [] st = Inr st"
| "scan_named s cur lt (c # cs) st =
     (if \<not> is_ws s c then scan_named s cur lt cs st
      else
        let st = (if first_ws st = None then st\<lparr>first_ws := Some c\<rparr> else st);
            st = (case opp st of
                    None \<Rightarrow> st\<lparr>opp := Some c\<rparr>
                  | Some q \<Rightarrow> if num_of s c \<noteq> -1 \<and> lt (num_of s c) (num_of s q)
                            then st\<lparr>opp := Some c\<rparr> else st)
        in if c = cur then scan_named s cur lt cs (st\<lparr>found := True\<rparr>)
           else if num_of s c = -1 \<and> found st then Inl c
           else scan_named s cur lt cs st)"

text \<open>
  The loop when the current workspace has a number.  \<open>stop\<close> says whether a workspace without a
  number ends the scan of its output (forward) or is skipped (backward).
\<close>

fun scan_numbered ::
  "i3 \<Rightarrow> con_id \<Rightarrow> (int \<Rightarrow> int \<Rightarrow> bool) \<Rightarrow> bool \<Rightarrow> con_id list \<Rightarrow> ws_scan \<Rightarrow> con_id + ws_scan" where
  "scan_numbered s cur lt stop [] st = Inr st"
| "scan_numbered s cur lt stop (c # cs) st =
     (if \<not> is_ws s c then scan_numbered s cur lt stop cs st
      else
        let st = (case first_ws st of
                    None \<Rightarrow> st\<lparr>first_ws := Some c\<rparr>
                  | Some q \<Rightarrow> if num_of s c \<noteq> -1 \<and> lt (num_of s c) (num_of s q)
                            then st\<lparr>first_ws := Some c\<rparr> else st);
            st = (if opp st = None \<and> num_of s c = -1 then st\<lparr>opp := Some c\<rparr> else st)
        in if num_of s c = -1 then
             (if stop then Inr st else scan_numbered s cur lt stop cs st)
           else
             let st = (if lt (num_of s cur) (num_of s c) \<and>
                          (case cand st of None \<Rightarrow> True | Some q \<Rightarrow> lt (num_of s c) (num_of s q))
                       then st\<lparr>cand := Some c\<rparr> else st)
             in if c = cur then scan_numbered s cur lt stop cs (st\<lparr>found := True\<rparr>)
                else if found st \<and> num_of s cur = num_of s c then Inl c
                else scan_numbered s cur lt stop cs st)"

definition scan_result :: "con_id + ws_scan \<Rightarrow> con_id option" where
  "scan_result r =
     (case r of Inl c \<Rightarrow> Some c
      | Inr st \<Rightarrow> (case cand st of Some c \<Rightarrow> Some c
                 | None \<Rightarrow> (case opp st of Some c \<Rightarrow> Some c | None \<Rightarrow> first_ws st)))"

definition external_lists :: "i3 \<Rightarrow> con_id list option" where
  "external_lists s = fold_opt (\<lambda>out acc. do {
       i \<leftarrow> con_is_internal s out;
       Some (if i then acc else acc @ [out]) }) (nodes_head (heap s (croot s))) []"

definition current_workspace :: "i3 \<Rightarrow> con_id option" where
  "current_workspace s = do { f \<leftarrow> focused s; w \<leftarrow> con_get_workspace s f; w }"

definition siblings :: "i3 \<Rightarrow> con_id \<Rightarrow> con_id list" where
  "siblings s c = (case parent (heap s c) of Some p \<Rightarrow> nodes_head (heap s p) | None \<Rightarrow> [])"

definition workspace_next :: "i3 \<Rightarrow> con_id option option" where
  "workspace_next s = do {
     cur \<leftarrow> current_workspace s;
     outs \<leftarrow> external_lists s;
     nss \<leftarrow> map_opt (content_nodes s) outs;
     Some (if num_of s cur = -1 then
             (case next_of cur (siblings s cur) of
                Some c \<Rightarrow> Some c
              | None \<Rightarrow> scan_result (scan_outputs (scan_named s cur (<)) nss scan_init))
           else scan_result (scan_outputs (scan_numbered s cur (<) True) nss scan_init))
   }"

definition workspace_prev :: "i3 \<Rightarrow> con_id option option" where
  "workspace_prev s = do {
     cur \<leftarrow> current_workspace s;
     outs \<leftarrow> external_lists s;
     nss \<leftarrow> map_opt (content_nodes s) outs;
     let rnss = rev (map rev nss);
     Some (if num_of s cur = -1 then
             (case prev_of cur (siblings s cur) of
                Some c \<Rightarrow> if num_of s c \<noteq> -1
                  then scan_result (scan_outputs (scan_named s cur (>)) rnss scan_init) else Some c
              | None \<Rightarrow> scan_result (scan_outputs (scan_named s cur (>)) rnss scan_init))
           else scan_result (scan_outputs (scan_numbered s cur (>) False) rnss scan_init))
   }"

text \<open>
  On one output: the numbered scan, then the workspaces without a number, then the one with the
  extreme number.
\<close>

fun named_after :: "i3 \<Rightarrow> con_id \<Rightarrow> bool \<Rightarrow> con_id list \<Rightarrow> con_id option" where
  "named_after s cur fnd [] = None"
| "named_after s cur fnd (c # cs) =
     (if \<not> is_ws s c then named_after s cur fnd cs
      else if c = cur then named_after s cur True cs
      else if num_of s c = -1 \<and> (num_of s cur \<noteq> -1 \<or> fnd) then Some c
      else named_after s cur fnd cs)"

fun extreme_ws :: "i3 \<Rightarrow> (con_id \<Rightarrow> con_id \<Rightarrow> bool) \<Rightarrow> con_id option \<Rightarrow> con_id list \<Rightarrow> con_id option" where
  "extreme_ws s better_ws r [] = r"
| "extreme_ws s better_ws r (c # cs) =
     (if is_ws s c \<and> (case r of None \<Rightarrow> True | Some q \<Rightarrow> better_ws c q)
      then extreme_ws s better_ws (Some c) cs else extreme_ws s better_ws r cs)"

text \<open>\<open>Some (Inl r)\<close> is an early return of the numbered scan.\<close>

definition on_output :: "i3 \<Rightarrow> con_id \<Rightarrow> con_id list \<Rightarrow> con_id + con_id option \<Rightarrow>
    (con_id \<Rightarrow> con_id \<Rightarrow> bool) \<Rightarrow> con_id option" where
  "on_output s cur ns r better_ws =
     (case r of Inl c \<Rightarrow> Some c
      | Inr (Some c) \<Rightarrow> Some c
      | Inr None \<Rightarrow>
          (case named_after s cur False ns of
             Some c \<Rightarrow> Some c
           | None \<Rightarrow> extreme_ws s better_ws None ns))"

definition scan_cand :: "con_id + ws_scan \<Rightarrow> con_id + con_id option" where
  "scan_cand r = (case r of Inl c \<Rightarrow> Inl c | Inr st \<Rightarrow> Inr (cand st))"

definition workspace_next_on_output :: "i3 \<Rightarrow> con_id option option" where
  "workspace_next_on_output s = do {
     cur \<leftarrow> current_workspace s;
     f \<leftarrow> focused s;
     out \<leftarrow> con_get_output s f;
     ns \<leftarrow> content_nodes s out;
     Some (on_output s cur ns
       (if num_of s cur = -1 then Inr (next_of cur (siblings s cur))
        else scan_cand (scan_numbered s cur (<) True ns scan_init))
       (\<lambda>c q. num_of s c \<noteq> -1 \<and> num_of s c < num_of s q))
   }"

definition workspace_prev_on_output :: "i3 \<Rightarrow> con_id option option" where
  "workspace_prev_on_output s = do {
     cur \<leftarrow> current_workspace s;
     f \<leftarrow> focused s;
     out \<leftarrow> con_get_output s f;
     ns \<leftarrow> content_nodes s out;
     Some (on_output s cur (rev ns)
       (if num_of s cur = -1 then
          Inr (case prev_of cur (siblings s cur) of
                 Some c \<Rightarrow> if num_of s c \<noteq> -1 then None else Some c | None \<Rightarrow> None)
        else scan_cand (scan_numbered s cur (>) False (rev ns) scan_init))
       (\<lambda>c q. num_of s c > num_of s q))
   }"

end
