(* ===== verification/Con_Order.thy ===== *)
theory Con_Order
  imports Con_Attach
begin

text \<open>
  The orders that \<open>con_attach\<close> maintains among its siblings: workspaces by number with the
  unnumbered ones last, dock clients by class and instance name.
\<close>

section \<open>Inserting into a sorted list\<close>

lemma sorted_wrt_insert_before:
  assumes tr: "transp_on (insert c (set ns)) R" and s: "sorted_wrt R ns"
    and ns: "ns = xs @ d # ys" and fresh: "d \<notin> set xs"
    and before: "\<forall>x \<in> set xs. R x c" and at: "R c d"
  shows "sorted_wrt R (insert_before d c ns)"
proof -
  have "R c y" if "y \<in> set ys" for y
    using tr s at that unfolding ns by (auto simp: sorted_wrt_append dest: transp_onD)
  with s before at show ?thesis
    unfolding ns insert_before_append[OF fresh] by (auto simp: sorted_wrt_append)
qed

text \<open>The insertion both orders use: before the first element that must come later.\<close>

lemma sorted_wrt_insert_first:
  assumes tr: "transp_on (insert c (set ns)) R" and s: "sorted_wrt R ns"
    and stop: "\<forall>x \<in> set ns. if P x then R c x else R x c"
  shows "sorted_wrt R (case List.find P ns of Some d \<Rightarrow> insert_before d c ns | None \<Rightarrow> ns @ [c])"
proof (cases "List.find P ns")
  case None
  then have "\<forall>x \<in> set ns. R x c" using stop by (auto simp: find_None_iff)
  with None s show ?thesis by (simp add: sorted_wrt_append)
next
  case (Some d)
  then obtain i where i: "i < length ns" "P (ns ! i)" "d = ns ! i" "\<forall>j<i. \<not> P (ns ! j)"
    by (auto simp: find_Some_iff)
  let ?xs = "take i ns" and ?ys = "drop (Suc i) ns"
  have ns: "ns = ?xs @ d # ?ys" using i id_take_nth_drop by blast
  have xs: "\<forall>x \<in> set ?xs. \<not> P x" using i(1,4) by (auto simp: in_set_conv_nth)
  show ?thesis
    unfolding Some option.case
  proof (rule sorted_wrt_insert_before[OF tr s ns])
    show "d \<notin> set ?xs" using xs i(2,3) by auto
    show "\<forall>x \<in> set ?xs. R x c" using xs stop in_set_takeD[of _ i ns] by auto
    show "R c d" using stop i by auto
  qed
qed

section \<open>Workspaces\<close>

definition ws_le :: "int \<Rightarrow> int \<Rightarrow> bool" where
  "ws_le m n \<longleftrightarrow> n = -1 \<or> (m \<noteq> -1 \<and> m \<le> n)"

definition ws_sorted :: "i3 \<Rightarrow> con_id list \<Rightarrow> bool" where
  "ws_sorted s ns \<longleftrightarrow> sorted_wrt (\<lambda>a b. ws_le (ws_num (heap s a)) (ws_num (heap s b))) ns"

lemma insert_workspace_sorted:
  assumes s: "ws_sorted s ns" and nums: "\<forall>d \<in> insert c (set ns). ws_num (heap s d) \<ge> -1"
  shows "ws_sorted s (insert_workspace s c ns)"
proof (cases "ws_num (heap s c) = -1 \<or> ns = []")
  case True
  with s show ?thesis by (auto simp: ws_sorted_def insert_workspace_def Let_def sorted_wrt_append ws_le_def)
next
  case False
  let ?R = "\<lambda>a b. ws_le (ws_num (heap s a)) (ws_num (heap s b))"
  let ?P = "\<lambda>d. \<not> (ws_num (heap s d) \<noteq> -1 \<and> ws_num (heap s c) \<ge> ws_num (heap s d))"
  have tr: "transp_on (insert c (set ns)) ?R" by (auto simp: transp_on_def ws_le_def)
  have "sorted_wrt ?R (case List.find ?P ns of Some d \<Rightarrow> insert_before d c ns | None \<Rightarrow> ns @ [c])"
    by (rule sorted_wrt_insert_first[OF tr s[unfolded ws_sorted_def]])
      (use False in \<open>auto simp: ws_le_def\<close>)
  moreover have "List.find ?P ns = Some (hd ns)" "insert_before (hd ns) c ns = c # ns"
    if "ws_num (heap s c) < ws_num (heap s (hd ns))"
    using that False by (cases ns; auto)+
  ultimately show ?thesis
    using False by (auto simp: ws_sorted_def insert_workspace_def Let_def)
qed

text \<open>Attaching a workspace to its output's content container.\<close>

lemma attach_workspace_nodes:
  assumes a: "con_attach c p ign s = Some t" and "con_type (heap s c) = CT_WORKSPACE" and "c \<noteq> p"
  shows "nodes_head (heap t p) = insert_workspace s c (nodes_head (heap s p))"
    and "links_only s t"
proof -
  let ?s = "upd c (\<lambda>n. n\<lparr>parent := Some p\<rparr>) s"
  have iw: "insert_workspace ?s c ns = insert_workspace s c ns" for ns
  proof -
    have "ws_num (heap ?s x) = ws_num (heap s x)" for x by simp
    then show ?thesis unfolding insert_workspace_def by presburger
  qed
  from a assms(2,3) have r: "con_force_split_parents_redraw c
      (upd p (\<lambda>n. n\<lparr>focus_head := focus_head n @ [c]\<rparr>)
        (upd p (\<lambda>n. n\<lparr>nodes_head := insert_workspace s c (nodes_head n)\<rparr>) ?s)) = Some t"
    (is "con_force_split_parents_redraw c ?u = Some t")
    by (simp add: con_attach_def attach_fuel_def numeral_2_eq_2 Let_def iw)
  show "nodes_head (heap t p) = insert_workspace s c (nodes_head (heap s p))"
    using assms(3) by (simp add: same_linksD[OF redraw_links[OF r]])
  have "links_only s ?u" by (auto simp: links_only_def mask_links_def)
  then show "links_only s t"
    by (rule links_only_trans[OF _ links_only_deco[OF force_redraw_same[OF r]]])
qed

section \<open>Dock clients\<close>

lemma strcmp_trans:
  "nul_free a \<Longrightarrow> nul_free b \<Longrightarrow> nul_free c \<Longrightarrow> strcmp a b \<le> 0 \<Longrightarrow> strcmp b c \<le> 0 \<Longrightarrow> strcmp a c \<le> 0"
proof (induction a b arbitrary: c rule: strcmp.induct)
  case (4 x xs y ys)
  then obtain z zs where c: "c = z # zs"
    by (cases c) (auto simp: nul_free_def)
  show ?case
  proof (cases "x = y \<and> y = z")
    case True
    with 4 c show ?thesis by (simp add: nul_free_def)
  next
    case False
    with 4 c show ?thesis by (auto split: if_splits simp: le_less)
  qed
qed (auto simp: nul_free_def split: if_splits, (case_tac c; auto)+)


lemma char_code_lower: "char_code (to_lower c) = 0 \<longleftrightarrow> char_code c = 0"
  by (auto simp: to_lower_def char_code_def)

lemma nul_free_lower: "nul_free a \<Longrightarrow> nul_free (map to_lower a)"
  by (simp add: nul_free_def char_code_lower del: neq0_conv)

lemma strcasecmp_trans:
  "nul_free a \<Longrightarrow> nul_free b \<Longrightarrow> nul_free c \<Longrightarrow> strcasecmp a b \<le> 0 \<Longrightarrow> strcasecmp b c \<le> 0 \<Longrightarrow>
   strcasecmp a c \<le> 0"
  unfolding strcasecmp_def by (rule strcmp_trans[OF nul_free_lower nul_free_lower nul_free_lower])

definition nullable_free :: "cstr \<Rightarrow> bool" where
  "nullable_free a \<longleftrightarrow> (case a of None \<Rightarrow> True | Some x \<Rightarrow> nul_free x)"

lemma strcasecmp_nullable_trans:
  assumes "nullable_free a" "nullable_free b" "nullable_free c"
    and "strcasecmp_nullable a b \<le> 0" "strcasecmp_nullable b c \<le> 0"
  shows "strcasecmp_nullable a c \<le> 0"
  using assms
  by (cases a; cases b; cases c) (auto simp: nullable_free_def intro: strcasecmp_trans)

lemma strcasecmp_nullable_antisym: "strcasecmp_nullable b a = - strcasecmp_nullable a b"
proof (cases a; cases b)
  fix x y assume "a = Some x" "b = Some y"
  then show ?thesis by (simp add: strcasecmp_antisym[of x y])
qed simp_all

definition dock_names_ok :: "window \<Rightarrow> bool" where
  "dock_names_ok w \<longleftrightarrow> nullable_free (win_class w) \<and> nullable_free (win_instance w)"

lemma dock_compare_antisym: "dock_compare w v = - dock_compare v w"
  by (simp add: dock_compare_def Let_def strcasecmp_nullable_antisym[of "win_class w"]
      strcasecmp_nullable_antisym[of "win_instance w"])

lemma dock_compare_trans:
  assumes ok: "dock_names_ok u" "dock_names_ok v" "dock_names_ok w"
    and uv: "dock_compare u v \<le> 0" and vw: "dock_compare v w \<le> 0"
  shows "dock_compare u w \<le> 0"
proof -
  let ?c = "\<lambda>a b. strcasecmp_nullable (win_class a) (win_class b)"
  let ?i = "\<lambda>a b. strcasecmp_nullable (win_instance a) (win_instance b)"
  have tc: "?c a b \<le> 0 \<Longrightarrow> ?c b d \<le> 0 \<Longrightarrow> ?c a d \<le> 0"
    if "dock_names_ok a" "dock_names_ok b" "dock_names_ok d" for a b d
    using that strcasecmp_nullable_trans by (auto simp: dock_names_ok_def)
  have ti: "?i u v \<le> 0 \<Longrightarrow> ?i v w \<le> 0 \<Longrightarrow> ?i u w \<le> 0"
    using ok strcasecmp_nullable_trans by (auto simp: dock_names_ok_def)
  have as: "?c b a = - ?c a b" for a b by (rule strcasecmp_nullable_antisym)
  have le: "?c u v \<le> 0" "?c v w \<le> 0"
    using uv vw by (auto simp: dock_compare_def Let_def split: if_splits)
  have uw: "?c u w \<le> 0" by (rule tc[OF ok le])
  have eq: "?c u v = 0 \<and> ?c v w = 0" if "?c u w = 0"
  proof
    show "?c u v = 0" using tc[OF ok(2,3,1) le(2)] as[of u w] as[of u v] that le(1) by simp
    show "?c v w = 0" using tc[OF ok(3,1,2) _ le(1)] as[of u w] as[of v w] that le(2) by simp
  qed
  show ?thesis
  proof (cases "?c u w = 0")
    case True
    with eq uv vw ti show ?thesis by (simp add: dock_compare_def Let_def)
  next
    case False
    with uw show ?thesis by (simp add: dock_compare_def Let_def)
  qed
qed

definition dock_le :: "i3 \<Rightarrow> con_id \<Rightarrow> con_id \<Rightarrow> bool" where
  "dock_le s a b \<longleftrightarrow> (case (con_window (heap s a), con_window (heap s b)) of
     (Some v, Some w) \<Rightarrow> dock_compare v w \<le> 0 | _ \<Rightarrow> False)"

definition dock_clients_ok :: "i3 \<Rightarrow> con_id set \<Rightarrow> bool" where
  "dock_clients_ok s cs \<longleftrightarrow>
     (\<forall>c \<in> cs. case con_window (heap s c) of None \<Rightarrow> False | Some w \<Rightarrow> dock_names_ok w)"

lemma first_opt_find:
  assumes "\<And>x. x \<in> set xs \<Longrightarrow> f x = Some (if P x then Some x else None)"
  shows "first_opt f xs = Some (List.find P xs)"
  using assms by (induction xs) auto

lemma insert_dock_sorted:
  assumes s: "sorted_wrt (dock_le s) ns" and ok: "dock_clients_ok s (insert c (set ns))"
  shows "\<exists>ms. insert_dock s c ns = Some ms \<and> sorted_wrt (dock_le s) ms"
proof -
  let ?P = "\<lambda>d. \<not> dock_le s d c"
  have win: "\<exists>w. con_window (heap s x) = Some w \<and> dock_names_ok w" if "x \<in> insert c (set ns)" for x
    using ok that unfolding dock_clients_ok_def by (fastforce split: option.splits)
  have tr: "transp_on (insert c (set ns)) (dock_le s)"
  proof (rule transp_onI)
    fix x y z assume m: "x \<in> insert c (set ns)" "y \<in> insert c (set ns)" "z \<in> insert c (set ns)"
      and r: "dock_le s x y" "dock_le s y z"
    from win[OF m(1)] win[OF m(2)] win[OF m(3)] obtain u v w where
      "con_window (heap s x) = Some u" "dock_names_ok u" "con_window (heap s y) = Some v"
      "dock_names_ok v" "con_window (heap s z) = Some w" "dock_names_ok w" by blast
    with r show "dock_le s x z" using dock_compare_trans[of u v w] by (simp add: dock_le_def)
  qed
  have tot: "dock_le s x y \<or> dock_le s y x" if m: "x \<in> insert c (set ns)" "y \<in> insert c (set ns)" for x y
  proof -
    from win[OF m(1)] win[OF m(2)] obtain v w where
      "con_window (heap s x) = Some v" "con_window (heap s y) = Some w" by blast
    then show ?thesis using dock_compare_antisym[of w v] by (auto simp: dock_le_def)
  qed
  have f: "first_opt (\<lambda>d. do {
            v \<leftarrow> con_window (heap s c);
            w \<leftarrow> con_window (heap s d);
            Some (if dock_compare v w < 0 then Some d else None) }) ns = Some (List.find ?P ns)"
  proof (rule first_opt_find)
    fix d assume "d \<in> set ns"
    then obtain v w where "con_window (heap s c) = Some v" "con_window (heap s d) = Some w"
      using win[of c] win[of d] by auto
    then show "do {
            v \<leftarrow> con_window (heap s c);
            w \<leftarrow> con_window (heap s d);
            Some (if dock_compare v w < 0 then Some d else None) } = Some (if ?P d then Some d else None)"
      using dock_compare_antisym[of w v] by (simp add: dock_le_def not_le)
  qed
  have "sorted_wrt (dock_le s)
      (case List.find ?P ns of Some d \<Rightarrow> insert_before d c ns | None \<Rightarrow> ns @ [c])"
    by (rule sorted_wrt_insert_first[OF tr s]) (use tot in auto)
  then show ?thesis unfolding insert_dock_def f by simp
qed

end
