(* ===== verification/Workspace_Order.thy ===== *)
theory Workspace_Order
  imports Workspace Con_Order
begin

text \<open>
  What the scans behind \<open>workspace_next\<close> and \<open>workspace_prev\<close> find.  From a workspace with a
  number they return the closest number in the direction, else a workspace without a number, else
  the number at the other end.
\<close>

definition numbered :: "i3 \<Rightarrow> con_id \<Rightarrow> bool" where
  "numbered s c \<longleftrightarrow> num_of s c \<noteq> -1"

text \<open>No workspace without a number comes before one with a number.\<close>

definition numbered_first :: "i3 \<Rightarrow> con_id list \<Rightarrow> bool" where
  "numbered_first s ns \<longleftrightarrow> sorted_wrt (\<lambda>a b. numbered s b \<longrightarrow> numbered s a) ns"

lemma ws_sorted_numbered_first: "ws_sorted s ns \<Longrightarrow> numbered_first s ns"
  unfolding ws_sorted_def numbered_first_def numbered_def num_of_def
  by (erule sorted_wrt_mono_rel[rotated]) (auto simp: ws_le_def)

definition scan_inv :: "i3 \<Rightarrow> con_id \<Rightarrow> (int \<Rightarrow> int \<Rightarrow> bool) \<Rightarrow> con_id set \<Rightarrow> ws_scan \<Rightarrow> bool" where
  "scan_inv s cur lt S st \<longleftrightarrow>
     (case cand st of
        Some c \<Rightarrow> c \<in> S \<and> numbered s c \<and> lt (num_of s cur) (num_of s c) \<and>
          (\<forall>d \<in> S. numbered s d \<and> lt (num_of s cur) (num_of s d) \<longrightarrow> \<not> lt (num_of s d) (num_of s c))
      | None \<Rightarrow> \<forall>d \<in> S. numbered s d \<longrightarrow> \<not> lt (num_of s cur) (num_of s d)) \<and>
     (case opp st of Some c \<Rightarrow> c \<in> S \<and> \<not> numbered s c | None \<Rightarrow> \<forall>d \<in> S. numbered s d) \<and>
     ((\<forall>d \<in> S. numbered s d) \<longrightarrow>
        (case first_ws st of None \<Rightarrow> S = {}
         | Some c \<Rightarrow> c \<in> S \<and> (\<forall>d \<in> S. \<not> lt (num_of s d) (num_of s c))))"

definition direction_order :: "(int \<Rightarrow> int \<Rightarrow> bool) \<Rightarrow> bool" where
  "direction_order lt \<longleftrightarrow> lt = (<) \<or> lt = (>)"

lemma direction_orderD:
  assumes "direction_order lt"
  shows "\<not> lt a a" "\<not> lt a b \<Longrightarrow> \<not> lt b c \<Longrightarrow> \<not> lt a c" "lt a b \<Longrightarrow> \<not> lt b a"
  using assms by (auto simp: direction_order_def)

text \<open>One step of the scan, at a workspace with a number.\<close>

definition step_numbered :: "i3 \<Rightarrow> con_id \<Rightarrow> (int \<Rightarrow> int \<Rightarrow> bool) \<Rightarrow> con_id \<Rightarrow> ws_scan \<Rightarrow> ws_scan" where
  "step_numbered s cur lt c st =
     (let st = (case first_ws st of
                    None \<Rightarrow> st\<lparr>first_ws := Some c\<rparr>
                  | Some q \<Rightarrow> if num_of s c \<noteq> -1 \<and> lt (num_of s c) (num_of s q)
                            then st\<lparr>first_ws := Some c\<rparr> else st);
          st = (if lt (num_of s cur) (num_of s c) \<and>
                          (case cand st of None \<Rightarrow> True | Some q \<Rightarrow> lt (num_of s c) (num_of s q))
                       then st\<lparr>cand := Some c\<rparr> else st)
      in if c = cur then st\<lparr>found := True\<rparr> else st)"

lemma scan_numbered_step:
  assumes "is_ws s c" and "numbered s c" and "num_of s c = num_of s cur \<Longrightarrow> c = cur"
  shows "scan_numbered s cur lt stop (c # cs) st =
    scan_numbered s cur lt stop cs (step_numbered s cur lt c st)"
  using assms by (auto simp: step_numbered_def numbered_def Let_def)

lemma step_numbered_sel:
  assumes "numbered s c"
  shows "opp (step_numbered s cur lt c st) = opp st"
    and "cand (step_numbered s cur lt c st) =
      (if lt (num_of s cur) (num_of s c) \<and>
          (case cand st of None \<Rightarrow> True | Some q \<Rightarrow> lt (num_of s c) (num_of s q))
       then Some c else cand st)"
    and "first_ws (step_numbered s cur lt c st) =
      (case first_ws st of None \<Rightarrow> Some c
       | Some q \<Rightarrow> if lt (num_of s c) (num_of s q) then Some c else Some q)"
  using assms by (auto simp: step_numbered_def numbered_def Let_def split: option.splits)

lemma step_numbered_inv:
  assumes d: "direction_order lt" and inv: "scan_inv s cur lt S st" and c: "numbered s c"
  shows "scan_inv s cur lt (insert c S) (step_numbered s cur lt c st)"
proof -
  note o = direction_orderD[OF d]
  let ?t = "step_numbered s cur lt c st"
  note sel = step_numbered_sel[OF c, where cur = cur and lt = lt and st = st]
  have 1: "case cand ?t of
        Some q \<Rightarrow> q \<in> insert c S \<and> numbered s q \<and> lt (num_of s cur) (num_of s q) \<and>
          (\<forall>e \<in> insert c S. numbered s e \<and> lt (num_of s cur) (num_of s e) \<longrightarrow> \<not> lt (num_of s e) (num_of s q))
      | None \<Rightarrow> \<forall>e \<in> insert c S. numbered s e \<longrightarrow> \<not> lt (num_of s cur) (num_of s e)"
  proof (cases "cand st")
    case None
    with inv have no: "\<forall>d \<in> S. numbered s d \<longrightarrow> \<not> lt (num_of s cur) (num_of s d)"
      by (simp add: scan_inv_def)
    show ?thesis
    proof (cases "lt (num_of s cur) (num_of s c)")
      case True
      then have "cand ?t = Some c" unfolding sel(2) None by simp
      with True no c o(1) show ?thesis by auto
    next
      case False
      then have "cand ?t = None" unfolding sel(2) None by simp
      with False no show ?thesis by simp
    qed
  next
    case (Some q)
    with inv have q: "q \<in> S" "numbered s q" "lt (num_of s cur) (num_of s q)"
      "\<forall>e \<in> S. numbered s e \<and> lt (num_of s cur) (num_of s e) \<longrightarrow> \<not> lt (num_of s e) (num_of s q)"
      by (simp_all add: scan_inv_def)
    show ?thesis
    proof (cases "lt (num_of s cur) (num_of s c) \<and> lt (num_of s c) (num_of s q)")
      case True
      then have "cand ?t = Some c" unfolding sel(2) Some by simp
      moreover have "\<forall>e \<in> S. numbered s e \<and> lt (num_of s cur) (num_of s e) \<longrightarrow> \<not> lt (num_of s e) (num_of s c)"
        using q(4) o(2,3) True by blast
      ultimately show ?thesis using True c o(1) by simp
    next
      case False
      then have "cand ?t = Some q" unfolding sel(2) Some by auto
      with q False show ?thesis by auto
    qed
  qed
  have 2: "case opp ?t of Some q \<Rightarrow> q \<in> insert c S \<and> \<not> numbered s q | None \<Rightarrow> \<forall>e \<in> insert c S. numbered s e"
    using inv c unfolding sel(1) scan_inv_def by (cases "opp st") simp_all
  have 3: "case first_ws ?t of None \<Rightarrow> insert c S = {}
         | Some q \<Rightarrow> q \<in> insert c S \<and> (\<forall>e \<in> insert c S. \<not> lt (num_of s e) (num_of s q))"
    if all: "\<forall>e \<in> insert c S. numbered s e"
  proof (cases "first_ws st")
    case None
    then have "S = {}" using inv all by (simp add: scan_inv_def)
    then show ?thesis unfolding sel(3) None using o(1) by simp
  next
    case (Some q)
    then have q: "q \<in> S" "\<forall>e \<in> S. \<not> lt (num_of s e) (num_of s q)"
      using inv all by (simp_all add: scan_inv_def)
    show ?thesis
    proof (cases "lt (num_of s c) (num_of s q)")
      case True
      then have "\<forall>e \<in> S. \<not> lt (num_of s e) (num_of s c)" using q(2) o(2,3) by blast
      with True o(1) show ?thesis unfolding sel(3) Some by simp
    next
      case False
      with q show ?thesis unfolding sel(3) Some by simp
    qed
  qed
  show ?thesis unfolding scan_inv_def using 1 2 3 by blast
qed

lemma scan_numbered_spec:
  assumes "direction_order lt"
    and "\<And>c. c \<in> set ns \<Longrightarrow> is_ws s c \<and> (num_of s c = num_of s cur \<longrightarrow> c = cur)"
    and "stop \<Longrightarrow> numbered_first s ns" and "numbered s cur"
    and "scan_inv s cur lt S st"
  shows "\<exists>st'. scan_numbered s cur lt stop ns st = Inr st' \<and> scan_inv s cur lt (S \<union> set ns) st'"
  using assms(2,3,5)
proof (induction ns arbitrary: S st)
  case (Cons c cs)
  have c: "is_ws s c" "num_of s c = num_of s cur \<longrightarrow> c = cur" using Cons.prems(1) by auto
  have IH: "\<exists>st'. scan_numbered s cur lt stop cs st = Inr st' \<and> scan_inv s cur lt (S \<union> set cs) st'"
    if "scan_inv s cur lt S st" for S st
    by (rule Cons.IH[OF _ _ that]) (use Cons.prems in \<open>auto simp: numbered_first_def\<close>)
  show ?case
  proof (cases "numbered s c")
    case True
    have "scan_inv s cur lt (insert c S) (step_numbered s cur lt c st)"
      by (rule step_numbered_inv[OF assms(1) Cons.prems(3) True])
    moreover have "scan_numbered s cur lt stop (c # cs) st =
        scan_numbered s cur lt stop cs (step_numbered s cur lt c st)"
      by (rule scan_numbered_step[OF c(1) True]) (use c(2) in simp)
    ultimately have "\<exists>st'. scan_numbered s cur lt stop (c # cs) st = Inr st' \<and>
        scan_inv s cur lt (insert c S \<union> set cs) st'"
      using IH by metis
    moreover have "insert c S \<union> set cs = S \<union> set (c # cs)" by auto
    ultimately show ?thesis by (simp only:)
  next
    case False
    let ?a = "case first_ws st of None \<Rightarrow> st\<lparr>first_ws := Some c\<rparr>
         | Some q \<Rightarrow> if num_of s c \<noteq> -1 \<and> lt (num_of s c) (num_of s q)
                   then st\<lparr>first_ws := Some c\<rparr> else st"
    let ?t = "if opp ?a = None \<and> num_of s c = -1 then ?a\<lparr>opp := Some c\<rparr> else ?a"
    have t: "cand ?t = cand st" "opp ?t = (case opp st of None \<Rightarrow> Some c | Some q \<Rightarrow> Some q)"
      using False by (auto simp: numbered_def split: option.splits)
    have inv: "scan_inv s cur lt (insert c S \<union> T) ?t" if "\<forall>d \<in> T. \<not> numbered s d" for T
      using Cons.prems(3) False that unfolding scan_inv_def t
      by (auto split: option.splits)
    have "scan_numbered s cur lt stop (c # cs) st =
        (if stop then Inr ?t else scan_numbered s cur lt stop cs ?t)"
      using c(1) False by (simp add: numbered_def Let_def)
    moreover have "\<forall>d \<in> set cs. \<not> numbered s d" if stop
      using Cons.prems(2)[OF that] False by (auto simp: numbered_first_def)
    ultimately show ?thesis
      using inv[of "set cs"] IH[OF inv[of "{}"]] by (cases stop) auto
  qed
qed simp

lemma scan_outputs_numbered:
  assumes "direction_order lt"
    and "\<And>ns c. ns \<in> set nss \<Longrightarrow> c \<in> set ns \<Longrightarrow> is_ws s c \<and> (num_of s c = num_of s cur \<longrightarrow> c = cur)"
    and "\<And>ns. ns \<in> set nss \<Longrightarrow> stop \<Longrightarrow> numbered_first s ns" and "numbered s cur"
    and "scan_inv s cur lt S st"
  shows "\<exists>st'. scan_outputs (scan_numbered s cur lt stop) nss st = Inr st' \<and>
    scan_inv s cur lt (S \<union> set (concat nss)) st'"
  using assms(2,3,5)
proof (induction nss arbitrary: S st)
  case (Cons ns nss)
  obtain st1 where st1: "scan_numbered s cur lt stop ns st = Inr st1" "scan_inv s cur lt (S \<union> set ns) st1"
    using scan_numbered_spec[OF assms(1) _ _ assms(4) Cons.prems(3), of ns stop] Cons.prems(1,2) by auto
  have "\<exists>st'. scan_outputs (scan_numbered s cur lt stop) nss st1 = Inr st' \<and>
      scan_inv s cur lt ((S \<union> set ns) \<union> set (concat nss)) st'"
    by (rule Cons.IH[OF _ _ st1(2)]) (use Cons.prems in auto)
  with st1(1) show ?case by (auto simp: Un_assoc)
qed simp

lemma scan_init_inv: "scan_inv s cur lt {} scan_init"
  by (simp add: scan_inv_def scan_init_def)

text \<open>The closest number in the direction, else one without a number, else the other end.\<close>

definition closest :: "i3 \<Rightarrow> (int \<Rightarrow> int \<Rightarrow> bool) \<Rightarrow> con_id \<Rightarrow> con_id set \<Rightarrow> con_id \<Rightarrow> bool" where
  "closest s lt cur W r \<longleftrightarrow>
     r \<in> W \<and>
     (if \<exists>w \<in> W. numbered s w \<and> lt (num_of s cur) (num_of s w)
      then numbered s r \<and> lt (num_of s cur) (num_of s r) \<and>
           (\<forall>w \<in> W. numbered s w \<and> lt (num_of s cur) (num_of s w) \<longrightarrow> \<not> lt (num_of s w) (num_of s r))
      else if \<exists>w \<in> W. \<not> numbered s w then \<not> numbered s r
      else \<forall>w \<in> W. \<not> lt (num_of s w) (num_of s r))"

lemma scan_inv_closest:
  assumes "scan_inv s cur lt W st" and "W \<noteq> {}"
  shows "\<exists>r. scan_result (Inr st) = Some r \<and> closest s lt cur W r"
proof (cases "cand st")
  case (Some c)
  with assms have "closest s lt cur W c" by (auto simp: scan_inv_def closest_def)
  with Some show ?thesis by (simp add: scan_result_def)
next
  case None
  with assms have no: "\<not> (\<exists>w \<in> W. numbered s w \<and> lt (num_of s cur) (num_of s w))"
    by (auto simp: scan_inv_def)
  show ?thesis
  proof (cases "opp st")
    case (Some c)
    with assms have "c \<in> W" "\<not> numbered s c" by (auto simp: scan_inv_def)
    with no have "closest s lt cur W c" unfolding closest_def by auto
    with None Some show ?thesis by (simp add: scan_result_def)
  next
    case n2: None
    with assms have all: "\<forall>w \<in> W. numbered s w" by (auto simp: scan_inv_def)
    with assms obtain c where c: "first_ws st = Some c" "c \<in> W" "\<forall>w \<in> W. \<not> lt (num_of s w) (num_of s c)"
      by (auto simp: scan_inv_def split: option.splits)
    with no all have "closest s lt cur W c" unfolding closest_def by auto
    with None n2 c(1) show ?thesis by (simp add: scan_result_def)
  qed
qed

definition scanned_ok :: "i3 \<Rightarrow> con_id \<Rightarrow> con_id list list \<Rightarrow> bool" where
  "scanned_ok s cur nss \<longleftrightarrow>
     cur \<in> set (concat nss) \<and>
     (\<forall>ns \<in> set nss. ws_sorted s ns \<and> (\<forall>c \<in> set ns. is_ws s c \<and> (num_of s c = num_of s cur \<longrightarrow> c = cur)))"

lemma workspace_next_closest:
  assumes "current_workspace s = Some cur" and "external_lists s = Some outs"
    and "map_opt (content_nodes s) outs = Some nss" and "num_of s cur \<noteq> -1"
    and "scanned_ok s cur nss"
  shows "\<exists>r. workspace_next s = Some (Some r) \<and> closest s (<) cur (set (concat nss)) r"
proof -
  have "\<exists>st. scan_outputs (scan_numbered s cur (<) True) nss scan_init = Inr st \<and>
      scan_inv s cur (<) ({} \<union> set (concat nss)) st"
    by (rule scan_outputs_numbered)
      (use assms(4,5) in \<open>auto simp: direction_order_def scanned_ok_def numbered_def scan_init_inv
        intro: ws_sorted_numbered_first\<close>)
  then obtain st where st: "scan_outputs (scan_numbered s cur (<) True) nss scan_init = Inr st"
    "scan_inv s cur (<) (set (concat nss)) st" by auto
  have "set (concat nss) \<noteq> {}" using assms(5) unfolding scanned_ok_def by (metis empty_iff)
  from scan_inv_closest[OF st(2) this] assms(1-4) st(1) show ?thesis
    by (auto simp: workspace_next_def)
qed

lemma workspace_prev_closest:
  assumes "current_workspace s = Some cur" and "external_lists s = Some outs"
    and "map_opt (content_nodes s) outs = Some nss" and "num_of s cur \<noteq> -1"
    and "scanned_ok s cur nss"
  shows "\<exists>r. workspace_prev s = Some (Some r) \<and> closest s (>) cur (set (concat nss)) r"
proof -
  let ?rn = "rev (map rev nss)"
  have sr: "set (concat ?rn) = set (concat nss)" by auto
  have "\<exists>st. scan_outputs (scan_numbered s cur (>) False) ?rn scan_init = Inr st \<and>
      scan_inv s cur (>) ({} \<union> set (concat ?rn)) st"
    by (rule scan_outputs_numbered)
      (use assms(4,5) in \<open>auto simp: direction_order_def scanned_ok_def numbered_def scan_init_inv\<close>)
  then obtain st where st: "scan_outputs (scan_numbered s cur (>) False) ?rn scan_init = Inr st"
    "scan_inv s cur (>) (set (concat nss)) st" unfolding sr by auto
  have "set (concat nss) \<noteq> {}" using assms(5) unfolding scanned_ok_def by (metis empty_iff)
  from scan_inv_closest[OF st(2) this] assms(1-4) st(1) show ?thesis
    by (auto simp: workspace_prev_def)
qed

end
