(* ===== verification/Con_Urgency.thy ===== *)
theory Con_Urgency
  imports Con_Attach
begin

text \<open>
  Urgency hints (src/con.c, src/workspace.c).  A leaf's hint is propagated to the containers
  around it and to its workspace.  The main result is that setting or clearing a hint keeps
  every container inside a workspace urgent exactly when a leaf below it is.
\<close>

section \<open>Operations\<close>

definition workspace_update_urgent_flag :: "con_id \<Rightarrow> i3 \<Rightarrow> i3 option" where
  "workspace_update_urgent_flag ws s = do {
     b \<leftarrow> get_urgency_flag s ws;
     let old = urgent (heap s ws);
     let s = upd ws (\<lambda>n. n\<lparr>urgent := b\<rparr>) s;
     Some (if old \<noteq> b then emit (Ipc_Workspace ''urgent'' ws None) s else s)
   }"

fun parents_urgency_loop :: "nat \<Rightarrow> bool \<Rightarrow> con_id option \<Rightarrow> i3 \<Rightarrow> i3 option" where
  "parents_urgency_loop n v None s = Some s"
| "parents_urgency_loop 0 v (Some p) s = None"
| "parents_urgency_loop (Suc n) v (Some p) s =
     (if con_type (heap s p) = CT_WORKSPACE \<or> con_type (heap s p) = CT_DOCKAREA then Some s
      else do {
        s \<leftarrow> (if v then Some (upd p (\<lambda>n. n\<lparr>urgent := True\<rparr>) s)
             else do {
               b \<leftarrow> con_has_urgent_child s p;
               Some (if \<not> b then upd p (\<lambda>n. n\<lparr>urgent := False\<rparr>) s else s) });
        parents_urgency_loop n v (parent (heap s p)) s })"

definition con_update_parents_urgency :: "con_id \<Rightarrow> i3 \<Rightarrow> i3 option" where
  "con_update_parents_urgency c s =
     (if con_type (heap s c) = CT_WORKSPACE then Some s
      else parents_urgency_loop (up_fuel s) (urgent (heap s c)) (parent (heap s c)) s)"

text \<open>\<open>gettimeofday\<close> stores the current \<open>clock\<close>.\<close>

definition con_set_urgency :: "con_id \<Rightarrow> bool \<Rightarrow> i3 \<Rightarrow> i3 option" where
  "con_set_urgency c u s =
     (if u \<and> focused s = Some c then Some s
      else do {
        let old_urgent = urgent (heap s c);
        let s = (if \<not> urgency_timer (heap s c) then upd c (\<lambda>n. n\<lparr>urgent := u\<rparr>) s else s);
        let s = upd c (\<lambda>n. n\<lparr>con_window := map_option (\<lambda>w.
                  w\<lparr>urgent_time := if urgent n then clock s else (0, 0)\<rparr>) (con_window n)\<rparr>) s;
        s \<leftarrow> con_update_parents_urgency c s;
        ws \<leftarrow> con_get_workspace s c;
        s \<leftarrow> (case ws of Some w \<Rightarrow> workspace_update_urgent_flag w s | None \<Rightarrow> Some s);
        Some (if urgent (heap s c) \<noteq> old_urgent then emit (Ipc_Window ''urgent'' c) s else s)
      })"

section \<open>What the loop over the parents computes\<close>

definition set_urgents :: "(con_id \<Rightarrow> bool) \<Rightarrow> i3 \<Rightarrow> i3" where
  "set_urgents f s = s\<lparr>heap := \<lambda>x. (heap s x)\<lparr>urgent := f x\<rparr>\<rparr>"

lemma set_urgents_simps [simp]:
  "heap (set_urgents f s) x = (heap s x)\<lparr>urgent := f x\<rparr>"
  "upd p (\<lambda>n. n\<lparr>urgent := b\<rparr>) (set_urgents f s) = set_urgents (f(p := b)) s"
  "con_is_leaf (set_urgents f s) = con_is_leaf s" "live (set_urgents f s) = live s"
  "up_fuel (set_urgents f s) = up_fuel s" "focused (set_urgents f s) = focused s"
  by (auto simp: set_urgents_def upd_def fun_eq_iff con_is_leaf_def live_def up_fuel_def)

lemma same_links_set_urgents [simp]: "same_links s (set_urgents f s)"
  by (simp add: same_links_def set_urgents_def)

lemma set_urgents_id [simp]: "set_urgents (\<lambda>x. urgent (heap s x)) s = s"
  by (simp add: set_urgents_def)

definition urgent_leaf :: "i3 \<Rightarrow> con_id \<Rightarrow> bool" where
  "urgent_leaf s p \<longleftrightarrow> (\<exists>d \<in> tiling_subtree s p. con_is_leaf s d \<and> urgent (heap s d))"

definition leaf_in :: "i3 \<Rightarrow> (con_id \<Rightarrow> bool) \<Rightarrow> con_id \<Rightarrow> bool" where
  "leaf_in s f p \<longleftrightarrow> (\<exists>d \<in> tiling_subtree s p. con_is_leaf s d \<and> f d)"

lemma has_urgent_set:
  assumes "wf_tree {} s" and "p \<in> live s"
  shows "con_has_urgent_child (set_urgents f s) p = Some (leaf_in s f p)"
proof -
  have "wf_tree {} (set_urgents f s)"
    using assms(1) same_links_wf[OF same_links_set_urgents] by blast
  then show ?thesis
    using con_has_urgent_child_spec[of "set_urgents f s" p] assms(2)
      same_links_tiling_subtree[OF same_links_set_urgents[of s f]]
    by (simp add: leaf_in_def)
qed

definition within_ws :: "i3 \<Rightarrow> con_id \<Rightarrow> bool" where
  "within_ws s p \<longleftrightarrow> con_type (heap s p) \<noteq> CT_WORKSPACE \<and> con_type (heap s p) \<noteq> CT_DOCKAREA"

definition propagate :: "i3 \<Rightarrow> bool \<Rightarrow> con_id set \<Rightarrow> (con_id \<Rightarrow> bool) \<Rightarrow> con_id \<Rightarrow> bool" where
  "propagate s v ps f x = (if x \<in> ps then v \<or> (f x \<and> leaf_in s f x) else f x)"

lemma leaf_in_cong:
  "(\<And>d. con_is_leaf s d \<Longrightarrow> f d = g d) \<Longrightarrow> leaf_in s f p = leaf_in s g p"
  by (auto simp: leaf_in_def)

lemma leaf_in_cong_below:
  "(\<And>d. d \<in> tiling_subtree s p \<Longrightarrow> f d = g d) \<Longrightarrow> leaf_in s f p = leaf_in s g p"
  by (auto simp: leaf_in_def)

lemma parents_urgency_step:
  assumes "wf_tree {} s" and "p \<in> live s" and "within_ws s p"
  shows "parents_urgency_loop (Suc m) v (Some p) (set_urgents f s) =
    parents_urgency_loop m v (parent (heap s p))
      (set_urgents (f(p := v \<or> (f p \<and> leaf_in s f p))) s)"
proof -
  have "f(p := v \<or> (f p \<and> leaf_in s f p)) = f" if "\<not> v" "leaf_in s f p"
    using that by simp
  then show ?thesis
    using assms(3) has_urgent_set[OF assms(1,2), of f]
    by (cases v; cases "leaf_in s f p") (simp_all add: within_ws_def)
qed

lemma propagate_insert:
  assumes "p \<notin> ps" and "\<not> con_is_leaf s p"
  shows "propagate s v (insert p ps) f = propagate s v ps (f(p := v \<or> (f p \<and> leaf_in s f p)))"
proof
  fix x
  have "leaf_in s (f(p := v \<or> (f p \<and> leaf_in s f p))) x = leaf_in s f x"
    by (rule leaf_in_cong) (use assms(2) in auto)
  then show "propagate s v (insert p ps) f x = propagate s v ps (f(p := v \<or> (f p \<and> leaf_in s f p))) x"
    using assms(1) by (auto simp: propagate_def)
qed

lemma propagate_empty [simp]: "propagate s v {} f = f" by (simp add: propagate_def fun_eq_iff)

lemma parents_urgency_spec:
  assumes wf: "wf_tree {} s" and "up_chain s p xs" and "length xs \<le> n" and "set xs \<subseteq> live s"
    and "\<forall>x \<in> set (takeWhile (within_ws s) xs). \<not> con_is_leaf s x"
  shows "parents_urgency_loop n v (Some p) (set_urgents f s) =
    Some (set_urgents (propagate s v (set (takeWhile (within_ws s) xs)) f) s)"
  using assms(2-5)
proof (induction arbitrary: n f rule: up_chain.induct)
  case (top p)
  then obtain m where n: "n = Suc m" by (cases n) auto
  from top have p: "p \<in> live s" by simp
  show ?case
  proof (cases "within_ws s p")
    case False
    then show ?thesis by (auto simp: n within_ws_def)
  next
    case True
    with top.prems(3) have "\<not> con_is_leaf s p" by simp
    then have "propagate s v {p} f = f(p := v \<or> (f p \<and> leaf_in s f p))"
      using propagate_insert[of p "{}"] by simp
    with True top(1) show ?thesis
      unfolding n parents_urgency_step[OF wf p True]
      by (simp only: takeWhile.simps if_True list.set parents_urgency_loop.simps)
  qed
next
  case (up p q xs)
  then obtain m where n: "n = Suc m" by (cases n) auto
  from up have p: "p \<in> live s" by simp
  show ?case
  proof (cases "within_ws s p")
    case False
    then show ?thesis by (auto simp: n within_ws_def)
  next
    case True
    let ?f = "f(p := v \<or> (f p \<and> leaf_in s f p))"
    let ?ps = "set (takeWhile (within_ws s) xs)"
    have pl: "\<not> con_is_leaf s p" using up.prems(3) True by simp
    have px: "p \<notin> ?ps"
      using up_chain_distinct[OF up_chain.up[OF up.hyps]] by (auto dest: set_takeWhileD)
    have "parents_urgency_loop m v (Some q) (set_urgents ?f s) =
        Some (set_urgents (propagate s v ?ps ?f) s)"
      by (rule up.IH) (use up.prems True n in auto)
    with True up.hyps(1) propagate_insert[OF px pl] show ?thesis
      unfolding n parents_urgency_step[OF wf p True] by simp
  qed
qed

section \<open>The invariant\<close>

text \<open>
  Containers inside a workspace are those that have no workspace or dock area below them.
  Floating containers only hang off workspaces, which the code relies on when it looks for
  urgent children among the tiling ones.
\<close>

definition inner :: "i3 \<Rightarrow> con_id \<Rightarrow> bool" where
  "inner s p \<longleftrightarrow> \<not> con_is_leaf s p \<and> (\<forall>d \<in> subtree s p. within_ws s d)"

definition floats_on_ws :: "i3 \<Rightarrow> bool" where
  "floats_on_ws s \<longleftrightarrow>
     (\<forall>p \<in> live s. floating_head (heap s p) \<noteq> [] \<longrightarrow> con_type (heap s p) = CT_WORKSPACE)"

definition urgency_ok :: "i3 \<Rightarrow> bool" where
  "urgency_ok s \<longleftrightarrow> (\<forall>p \<in> live s. inner s p \<longrightarrow> urgent (heap s p) = urgent_leaf s p)"

lemma inner_cong: "same_links s t \<Longrightarrow> inner t = inner s"
  by (simp add: fun_eq_iff inner_def con_is_leaf_def within_ws_def same_linksD same_links_subtree)

lemma floats_on_ws_cong: "same_links s t \<Longrightarrow> floats_on_ws t = floats_on_ws s"
  by (simp add: floats_on_ws_def same_linksD)

lemma urgent_leaf_cong:
  "same_links s t \<Longrightarrow> urgent_leaf t p = leaf_in s (\<lambda>x. urgent (heap t x)) p"
  by (simp add: urgent_leaf_def leaf_in_def same_links_tiling_subtree con_is_leaf_def same_linksD)

text \<open>On the way up from a leaf to its workspace every container has it among its tiling children.\<close>

lemma chain_child:
  assumes "up_chain s c xs" and "wf_tree {} s" and "c \<in> live s" and "x \<in> set xs"
  shows "c \<in> subtree s x"
  using assms(1,3,4)
proof (induction rule: up_chain.induct)
  case (up c p xs)
  note pl = parent_linked[OF assms(2) up.prems(1) _ up.hyps(1)]
  show ?case
  proof (cases "x = c")
    case False
    with up pl have "p \<in> subtree s x" by simp
    moreover have "(c, p) \<in> child_rel s" using pl by (simp add: child_rel_def)
    ultimately show ?thesis by (auto simp: subtree_def intro: converse_rtrancl_into_rtrancl)
  qed simp
qed simp

lemma subtree_chain:
  assumes wf: "wf_tree {} s" and "up_chain s c xs" and "c \<in> live s" and "c \<in> subtree s x"
  shows "x \<in> set xs"
proof -
  have "(c, x) \<in> (child_rel s)\<^sup>*" using assms(4) by (simp add: subtree_def)
  then show ?thesis using assms(2,3)
  proof (induction arbitrary: xs rule: converse_rtrancl_induct)
    case base
    then show ?case by (auto dest: up_chain_hd)
  next
    case (step c y)
    note cr = child_rel_live[OF wf step.hyps(1)]
    from step.prems(1) cr(3) obtain ys where "xs = c # ys" "up_chain s y ys"
      by (auto elim: up_chain.cases)
    with step.IH cr(2) show ?case by auto
  qed
qed

lemma inner_tiling:
  assumes wf: "wf_tree {} s" and fl: "floats_on_ws s" and x: "x \<in> live s"
    and ty: "\<forall>d \<in> subtree s x. within_ws s d"
  shows "subtree s x = tiling_subtree s x"
proof -
  have "(y, x) \<in> (child_rel s)\<^sup>* \<Longrightarrow> (y, x) \<in> (tiling_rel s)\<^sup>*" for y
  proof (induction rule: converse_rtrancl_induct)
    case (step y z)
    then have "z \<in> subtree s x" by (simp add: subtree_def)
    then have "within_ws s z" "z \<in> live s" using ty subtree_live[OF wf x] by auto
    with fl have "floating_head (heap s z) = []" by (auto simp: floats_on_ws_def within_ws_def)
    with step.hyps(1) have "(y, z) \<in> tiling_rel s"
      by (auto simp: child_rel_def children_def tiling_rel_def)
    then show ?case using step.IH by (rule converse_rtrancl_into_rtrancl)
  qed simp
  moreover have "(y, x) \<in> (tiling_rel s)\<^sup>* \<Longrightarrow> (y, x) \<in> (child_rel s)\<^sup>*" for y
    by (rule rtrancl_mono[THEN subsetD, of "tiling_rel s"]) (auto dest: tiling_child)
  ultimately show ?thesis by (auto simp: subtree_def tiling_subtree_def)
qed

lemma tiling_subtree_sub: "tiling_subtree s x \<subseteq> subtree s x"
proof -
  have "tiling_rel s \<subseteq> child_rel s" by (auto dest: tiling_child)
  from rtrancl_mono[OF this] show ?thesis by (auto simp: subtree_def tiling_subtree_def)
qed

text \<open>The path from the parent of \<open>c\<close> up to its workspace.\<close>

definition ws_path :: "i3 \<Rightarrow> con_id list \<Rightarrow> con_id set" where
  "ws_path s xs = set (takeWhile (within_ws s) xs)"

lemma inner_on_path:
  assumes "up_chain s p xs" and wf: "wf_tree {} s" and "p \<in> live s"
    and "x \<in> set xs" and "\<forall>d \<in> subtree s x. within_ws s d"
  shows "x \<in> ws_path s xs"
  using assms(1,3-5) unfolding ws_path_def
proof (induction rule: up_chain.induct)
  case (top c)
  then show ?case by auto
next
  case (up c p xs)
  have "up_chain s c (c # xs)" by (rule up_chain.up[OF up.hyps])
  from chain_child[OF this wf up.prems(1,2)] up.prems(3) have "within_ws s c" by blast
  moreover have "p \<in> live s" using parent_linked(1)[OF wf up.prems(1) _ up.hyps(1)] by simp
  ultimately show ?case using up by auto
qed

lemma path_not_leaf:
  assumes wf: "wf_tree {} s" and fl: "floats_on_ws s" and c: "c \<in> live s"
    and pc: "parent (heap s c) = Some p" and ch: "up_chain s p xs" and x: "x \<in> ws_path s xs"
  shows "\<not> con_is_leaf s x"
proof -
  have "x \<in> set xs" using x by (auto simp: ws_path_def dest: set_takeWhileD)
  moreover have pl: "p \<in> live s" "c \<in> children s p" using parent_linked[OF wf c _ pc] by auto
  ultimately have "p \<in> subtree s x" using chain_child[OF ch wf] by blast
  then have "(c, x) \<in> (child_rel s)\<^sup>+"
    using pl by (auto simp: subtree_def child_rel_def intro: rtrancl_into_trancl2)
  then obtain y where "(y, x) \<in> child_rel s" by (auto elim: tranclE)
  then have "y \<in> children s x" "x \<in> live s" by (auto simp: child_rel_def)
  moreover have "con_type (heap s x) \<noteq> CT_WORKSPACE"
    using x by (auto simp: ws_path_def within_ws_def dest: set_takeWhileD)
  ultimately show ?thesis
    using fl by (auto simp: floats_on_ws_def children_def con_is_leaf_def)
qed

text \<open>Clearing or setting the hint of one leaf and propagating it keeps the invariant.\<close>

lemma propagate_ok:
  assumes wf: "wf_tree {} s" and fl: "floats_on_ws s" and c: "c \<in> live s" "con_is_leaf s c"
    and pc: "parent (heap s c) = Some p" and ch: "up_chain s p xs"
    and ok: "urgency_ok s" and x: "x \<in> live s" "inner s x"
    and f: "f = (\<lambda>x. urgent (heap s x))(c := v)"
  shows "propagate s v (ws_path s xs) f x = leaf_in s (propagate s v (ws_path s xs) f) x"
proof -
  have nl: "\<not> con_is_leaf s y" if "y \<in> ws_path s xs" for y
    by (rule path_not_leaf[OF wf fl c(1) pc ch that])
  have same: "leaf_in s (propagate s v (ws_path s xs) f) x = leaf_in s f x"
    by (rule leaf_in_cong) (use nl in \<open>auto simp: propagate_def\<close>)
  have xc: "x \<noteq> c" using x(2) c(2) by (auto simp: inner_def)
  have pl: "p \<in> live s" "c \<in> children s p" using parent_linked[OF wf c(1) _ pc] by auto
  have old: "urgent (heap s x) = leaf_in s (\<lambda>x. urgent (heap s x)) x"
    using ok x by (auto simp: urgency_ok_def urgent_leaf_def leaf_in_def)
  have til: "subtree s x = tiling_subtree s x"
    by (rule inner_tiling[OF wf fl x(1)]) (use x(2) in \<open>simp add: inner_def\<close>)
  show ?thesis
  proof (cases "c \<in> subtree s x")
    case True
    then have "(c, x) \<in> (child_rel s)\<^sup>+" using xc by (auto simp: subtree_def rtrancl_eq_or_trancl)
    then obtain q where "(c, q) \<in> child_rel s" "(q, x) \<in> (child_rel s)\<^sup>*"
      by (auto dest: tranclD)
    then have "p \<in> subtree s x"
      using child_rel_live(3)[OF wf] pc by (auto simp: subtree_def)
    then have "x \<in> set xs" by (rule subtree_chain[OF wf ch pl(1)])
    then have path: "x \<in> ws_path s xs"
      by (rule inner_on_path[OF ch wf pl(1)]) (use x(2) in \<open>simp add: inner_def\<close>)
    have "leaf_in s f x" if v
      using True c(2) that f til by (auto simp: leaf_in_def)
    moreover have "leaf_in s f x \<longrightarrow> leaf_in s (\<lambda>x. urgent (heap s x)) x" if "\<not> v"
      using that f by (auto simp: leaf_in_def split: if_splits)
    ultimately show ?thesis
      using path old xc same by (auto simp: propagate_def f)
  next
    case False
    then have "x \<notin> ws_path s xs"
      using chain_child[OF up_chain.up[OF pc ch] wf c(1)] by (auto simp: ws_path_def dest: set_takeWhileD)
    moreover have "leaf_in s f x = leaf_in s (\<lambda>x. urgent (heap s x)) x"
      using False til f by (auto simp: leaf_in_def)
    ultimately show ?thesis using same old xc by (simp add: propagate_def f)
  qed
qed


lemma leaf_in_links: "same_links s t \<Longrightarrow> leaf_in t = leaf_in s"
  by (simp add: fun_eq_iff leaf_in_def same_links_tiling_subtree con_is_leaf_def same_linksD)

lemma propagate_links: "same_links s t \<Longrightarrow> propagate t v ps f = propagate s v ps f"
  by (simp add: fun_eq_iff propagate_def leaf_in_links)

lemma within_ws_links: "same_links s t \<Longrightarrow> within_ws t = within_ws s"
  by (simp add: fun_eq_iff within_ws_def same_linksD)

text \<open>Propagating the hint of the leaf \<open>c\<close> from a state \<open>t\<close> that differs only in that hint.\<close>

lemma update_parents_spec:
  assumes wf: "wf_tree {} s" and fl: "floats_on_ws s"
    and c: "c \<in> live s" "c \<noteq> croot s" "con_is_leaf s c" "con_type (heap s c) \<noteq> CT_WORKSPACE"
    and ok: "urgency_ok s" and st: "same_links s t"
    and ut: "\<And>x. x \<noteq> c \<Longrightarrow> urgent (heap t x) = urgent (heap s x)"
  obtains u where "con_update_parents_urgency c t = Some u" "same_links s u"
    "urgent (heap u c) = urgent (heap t c)" "urgency_ok u"
    "\<And>x. con_window (heap u x) = con_window (heap t x)"
proof -
  obtain p where p: "parent (heap s c) = Some p" "p \<in> live s"
    using parent_exists[OF wf c(1) _ c(2)] by blast
  obtain xs where xs: "up_chain s p xs" "length xs \<le> up_fuel s" "set xs \<subseteq> live s"
    by (rule chain_of_live[OF wf p(2)])
  define v where "v = urgent (heap t c)"
  define f where "f = (\<lambda>x. urgent (heap s x))(c := v)"
  define g where "g = propagate s v (ws_path s xs) f"
  have t: "t = set_urgents f t"
  proof -
    have "(\<lambda>x. urgent (heap t x)) = f" using ut by (auto simp: f_def v_def fun_eq_iff)
    then show ?thesis using set_urgents_id[of t] by simp
  qed
  note d = same_linksD[OF st]
  have "parents_urgency_loop (up_fuel t) v (Some p) (set_urgents f t) =
      Some (set_urgents (propagate t v (set (takeWhile (within_ws t) xs)) f) t)"
  proof (rule parents_urgency_spec)
    show "wf_tree {} t" using wf by (simp only: same_links_wf[OF st])
    show "up_chain t p xs" by (rule up_chain_cong[OF xs(1)]) (rule d(4))
    show "length xs \<le> up_fuel t" "set xs \<subseteq> live t" using xs d by auto
    show "\<forall>x \<in> set (takeWhile (within_ws t) xs). \<not> con_is_leaf t x"
      using path_not_leaf[OF wf fl c(1) p(1) xs(1)] within_ws_links[OF st] d
      by (auto simp: ws_path_def con_is_leaf_def)
  qed
  then have u: "con_update_parents_urgency c t = Some (set_urgents g t)"
    using t c(4) p(1) d
    by (simp add: con_update_parents_urgency_def v_def[symmetric] g_def ws_path_def
        propagate_links[OF st] within_ws_links[OF st])
  have su: "same_links s (set_urgents g t)"
    by (rule same_links_trans[OF st same_links_set_urgents])
  have "c \<notin> ws_path s xs" using path_not_leaf[OF wf fl c(1) p(1) xs(1)] c(3) by blast
  then have "g c = v" by (simp add: g_def propagate_def f_def)
  moreover have "urgency_ok (set_urgents g t)"
    unfolding urgency_ok_def
  proof (intro ballI impI)
    fix x assume "x \<in> live (set_urgents g t)" "inner (set_urgents g t) x"
    then have "x \<in> live s" "inner s x" using d inner_cong[OF su] by auto
    from propagate_ok[OF wf fl c(1,3) p(1) xs(1) ok this f_def]
    have "g x = leaf_in s g x" unfolding g_def .
    then show "urgent (heap (set_urgents g t) x) = urgent_leaf (set_urgents g t) x"
      unfolding urgent_leaf_cong[OF su] by simp
  qed
  ultimately show thesis using that[OF u su] by (simp add: v_def)
qed

lemma ws_flag_ok:
  assumes wf: "wf_tree {} s" and ok: "urgency_ok s" and w: "w \<in> live s" "con_type (heap s w) = CT_WORKSPACE"
  obtains t where "workspace_update_urgent_flag w s = Some t" "same_links s t" "urgency_ok t"
    "\<And>x. x \<noteq> w \<Longrightarrow> urgent (heap t x) = urgent (heap s x)"
    "urgent (heap t w) = (\<exists>d \<in> subtree s w - {w}. urgent (heap s d))"
proof -
  define b where "b \<longleftrightarrow> (\<exists>d \<in> subtree s w - {w}. urgent (heap s d))"
  define v where "v = upd w (\<lambda>n. n\<lparr>urgent := b\<rparr>) s"
  define t where "t = (if urgent (heap s w) \<noteq> b then emit (Ipc_Workspace ''urgent'' w None) v else v)"
  have t: "workspace_update_urgent_flag w s = Some t"
    using get_urgency_flag_spec[OF wf w(1)]
    by (simp add: workspace_update_urgent_flag_def Let_def t_def v_def b_def[symmetric])
  have "same_links s v" unfolding v_def by (rule same_links_upd) simp_all
  then have st: "same_links s t"
    unfolding t_def by (simp add: same_links_trans[OF _ same_links_emit])
  have h: "heap t = heap v" by (simp add: t_def)
  have ho: "urgent (heap t x) = urgent (heap s x)" if "x \<noteq> w" for x
    unfolding h v_def using that by simp
  have "urgency_ok t"
    unfolding urgency_ok_def
  proof (intro ballI impI)
    fix x assume "x \<in> live t" "inner t x"
    then have x: "x \<in> live s" "inner s x" using same_linksD[OF st] inner_cong[OF st] by auto
    then have ws: "w \<notin> subtree s x" using w(2) by (auto simp: inner_def within_ws_def)
    then have "leaf_in s (\<lambda>y. urgent (heap t y)) x = leaf_in s (\<lambda>y. urgent (heap s y)) x"
      using tiling_subtree_sub by (intro leaf_in_cong_below ho) auto
    moreover have "x \<noteq> w" using ws by auto
    ultimately show "urgent (heap t x) = urgent_leaf t x"
      using ok x ho[of x] unfolding urgent_leaf_cong[OF st]
      by (simp add: urgency_ok_def urgent_leaf_def leaf_in_def)
  qed
  moreover have "urgent (heap t w) = b" unfolding h v_def by simp
  ultimately show thesis using that[OF t st _ ho] by (simp add: b_def)
qed

text \<open>Setting or clearing a hint, as clients, commands and the urgency timer do.\<close>

lemma con_set_urgency_ok:
  assumes wf: "wf_tree {} s" and fl: "floats_on_ws s"
    and c: "c \<in> live s" "c \<noteq> croot s" "con_is_leaf s c" "con_type (heap s c) \<noteq> CT_WORKSPACE"
    and ok: "urgency_ok s"
  obtains t where "con_set_urgency c u s = Some t" "same_links s t" "urgency_ok t"
    "urgent (heap t c) = (if (u \<and> focused s = Some c) \<or> urgency_timer (heap s c)
       then urgent (heap s c) else u)"
    "\<And>w. \<not> (u \<and> focused s = Some c) \<Longrightarrow> con_get_workspace s c = Some (Some w) \<Longrightarrow>
       urgent (heap t w) = (\<exists>d \<in> subtree s w - {w}. urgent (heap t d))"
proof (cases "u \<and> focused s = Some c")
  case True
  show thesis by (rule that[of s]) (use True ok in \<open>auto simp: con_set_urgency_def\<close>)
next
  case False
  let ?a = "if \<not> urgency_timer (heap s c) then upd c (\<lambda>n. n\<lparr>urgent := u\<rparr>) s else s"
  let ?b = "upd c (\<lambda>n. n\<lparr>con_window := map_option (\<lambda>w.
              w\<lparr>urgent_time := if urgent n then clock ?a else (0, 0)\<rparr>) (con_window n)\<rparr>) ?a"
  have sb: "same_links s ?b"
    by (rule same_links_trans[of _ ?a]) (auto intro!: same_links_upd)
  have ub: "urgent (heap ?b c) = (if urgency_timer (heap s c) then urgent (heap s c) else u)"
    "x \<noteq> c \<Longrightarrow> urgent (heap ?b x) = urgent (heap s x)" for x by auto
  obtain v where v: "con_update_parents_urgency c ?b = Some v" "same_links s v"
    "urgent (heap v c) = urgent (heap ?b c)" "urgency_ok v"
    by (rule update_parents_spec[OF wf fl c ok sb ub(2)]) auto
  have wv: "wf_tree {} v" using wf by (simp only: same_links_wf[OF v(2)])
  obtain r where r: "con_get_workspace s c = Some r"
    "\<And>w. r = Some w \<Longrightarrow> w \<in> live s \<and> con_type (heap s w) = CT_WORKSPACE"
    using con_get_workspace_total[OF wf c(1)] by blast
  obtain w where w: "(case r of Some x \<Rightarrow> workspace_update_urgent_flag x v | None \<Rightarrow> Some v) = Some w"
    "same_links v w" "urgency_ok w" "urgent (heap w c) = urgent (heap v c)"
    "\<And>x. r = Some x \<Longrightarrow> urgent (heap w x) = (\<exists>d \<in> subtree s x - {x}. urgent (heap w d))"
  proof (cases r)
    case None
    then show thesis using that[of v] v(4) by simp
  next
    case (Some x)
    with r(2) have x: "x \<in> live v" "con_type (heap v x) = CT_WORKSPACE"
      using same_linksD[OF v(2)] by auto
    obtain w where "workspace_update_urgent_flag x v = Some w" "same_links v w" "urgency_ok w"
      and ho: "\<And>y. y \<noteq> x \<Longrightarrow> urgent (heap w y) = urgent (heap v y)"
      and fw: "urgent (heap w x) = (\<exists>d \<in> subtree v x - {x}. urgent (heap v d))"
      by (rule ws_flag_ok[OF wv v(4) x]) blast
    moreover have "c \<noteq> x" using c(4) r(2)[OF Some] by auto
    moreover have "(\<exists>d \<in> subtree v x - {x}. urgent (heap v d)) =
        (\<exists>d \<in> subtree s x - {x}. urgent (heap w d))"
      using ho same_links_subtree[OF v(2)] by auto
    ultimately show thesis using that[of w] Some by auto
  qed
  let ?t = "if urgent (heap w c) \<noteq> urgent (heap s c) then emit (Ipc_Window ''urgent'' c) w else w"
  have t: "con_set_urgency c u s = Some ?t"
    using False v(1) w(1) r(1) same_links_workspace[OF v(2)]
    unfolding con_set_urgency_def if_not_P[OF False] by (simp add: Let_def)
  have hs: "heap ?t = heap w" by simp
  have "same_links w ?t" by simp
  have sw: "same_links s ?t"
    by (rule same_links_trans[OF same_links_trans[OF v(2) w(2)] \<open>same_links w ?t\<close>])
  have "urgency_ok ?t"
    using w(3) inner_cong[OF \<open>same_links w ?t\<close>] same_linksD[OF \<open>same_links w ?t\<close>]
      urgent_leaf_cong[OF \<open>same_links w ?t\<close>]
    by (simp add: urgency_ok_def urgent_leaf_def leaf_in_def)
  moreover have "urgent (heap ?t c) = (if (u \<and> focused s = Some c) \<or> urgency_timer (heap s c)
      then urgent (heap s c) else u)"
    using False w(4) v(3) ub(1) hs by auto
  ultimately show thesis
    by (rule that[OF t sw]) (use w(5) r(1) hs in auto)
qed

end
