(* ===== verification/Con_Focus.thy ===== *)
theory Con_Focus
  imports Con_Urgency
begin

text \<open>
  Setting the input focus (src/con.c, src/floating.c): \<open>con_focus\<close>, \<open>con_activate\<close>,
  \<open>floating_raise_con\<close>.  The main result is that after \<open>con_focus\<close> the descent along the focus
  stacks from the root ends at the focused container, and that each stack keeps the order of its
  other elements.
\<close>

section \<open>Operations\<close>

text \<open>The last part of \<open>con_focus\<close>; \<open>workspace_update_urgent_flag\<close> dereferences the workspace.\<close>

definition focus_clear_urgency :: "con_id \<Rightarrow> i3 \<Rightarrow> i3 option" where
  "focus_clear_urgency c s =
     (if urgent (heap s c) \<and> con_is_leaf s c then do {
        s \<leftarrow> con_set_urgency c False s;
        s \<leftarrow> con_update_parents_urgency c s;
        ws \<leftarrow> con_get_workspace s c;
        w \<leftarrow> ws;
        s \<leftarrow> workspace_update_urgent_flag w s;
        Some (emit (Ipc_Window ''urgent'' c) s) }
      else Some s)"

fun focus_loop :: "nat \<Rightarrow> con_id \<Rightarrow> i3 \<Rightarrow> i3 option" where
  "focus_loop 0 c s = None"
| "focus_loop (Suc n) c s = do {
     p \<leftarrow> parent (heap s c);
     fo \<leftarrow> unlink c (focus_head (heap s p));
     let s = upd p (\<lambda>n. n\<lparr>focus_head := c # fo\<rparr>) s;
     s \<leftarrow> (case parent (heap s p) of None \<Rightarrow> Some s | Some _ \<Rightarrow> focus_loop n p s);
     focus_clear_urgency c (s\<lparr>focused := Some c\<rparr>)
   }"

definition con_focus :: "con_id \<Rightarrow> i3 \<Rightarrow> i3 option" where
  "con_focus c s = focus_loop (up_fuel s) c s"

definition floating_raise_con :: "con_id \<Rightarrow> i3 \<Rightarrow> i3 option" where
  "floating_raise_con c s = do {
     p \<leftarrow> parent (heap s c);
     fl \<leftarrow> unlink c (floating_head (heap s p));
     Some (upd p (\<lambda>n. n\<lparr>floating_head := fl @ [c]\<rparr>) s)
   }"

definition con_raise :: "con_id \<Rightarrow> i3 \<Rightarrow> i3 option" where
  "con_raise c s = do {
     f \<leftarrow> con_inside_floating s c;
     case f of Some d \<Rightarrow> floating_raise_con d s | None \<Rightarrow> Some s
   }"

definition con_activate :: "con_id \<Rightarrow> i3 \<Rightarrow> i3 option" where
  "con_activate c s = do { s \<leftarrow> con_focus c s; con_raise c s }"

section \<open>The urgency calls leave the tree alone\<close>

text \<open>The part of a container that no focus or urgency operation touches.\<close>

definition mask_focus :: "con \<Rightarrow> con" where
  "mask_focus n = n\<lparr>focus_head := [], floating_head := [], urgent := False,
     con_window := map_option (\<lambda>w. w\<lparr>urgent_time := (0, 0)\<rparr>) (con_window n)\<rparr>"

lemma mask_focus_simps [simp]:
  "mask_focus (n\<lparr>focus_head := fo\<rparr>) = mask_focus n" "mask_focus (n\<lparr>floating_head := fl\<rparr>) = mask_focus n"
  "mask_focus (n\<lparr>urgent := u\<rparr>) = mask_focus n"
  "mask_focus (n\<lparr>con_window := map_option (\<lambda>w. w\<lparr>urgent_time := f w\<rparr>) (con_window n)\<rparr>) = mask_focus n"
  by (simp_all add: mask_focus_def option.map_comp comp_def)

lemma mask_focusD:
  assumes "mask_focus m = mask_focus n"
  shows "con_floating m = con_floating n" "layout m = layout n" "fullscreen_mode m = fullscreen_mode n"
    "con_type m = con_type n" "percent m = percent n" "con_rect m = con_rect n"
    "ws_num m = ws_num n" "con_name m = con_name n" "last_split_layout m = last_split_layout n"
    "workspace_layout m = workspace_layout n" "parent m = parent n" "nodes_head m = nodes_head n"
    "con_window m = None \<longleftrightarrow> con_window n = None"
  using arg_cong[OF assms, of con_floating] arg_cong[OF assms, of layout] arg_cong[OF assms, of fullscreen_mode]
    arg_cong[OF assms, of con_type] arg_cong[OF assms, of percent] arg_cong[OF assms, of con_rect]
    arg_cong[OF assms, of ws_num] arg_cong[OF assms, of con_name] arg_cong[OF assms, of last_split_layout]
    arg_cong[OF assms, of workspace_layout] arg_cong[OF assms, of parent] arg_cong[OF assms, of nodes_head]
    arg_cong[OF assms, of con_window]
  by (simp_all add: mask_focus_def) (metis option.map_disc_iff)

definition same_mask :: "i3 \<Rightarrow> i3 \<Rightarrow> bool" where
  "same_mask s t \<longleftrightarrow> (\<forall>c. mask_focus (heap t c) = mask_focus (heap s c))"

lemma same_mask_trans: "same_mask s t \<Longrightarrow> same_mask t u \<Longrightarrow> same_mask s u"
  by (simp add: same_mask_def)

lemma same_mask_refl [simp]: "same_mask s s" by (simp add: same_mask_def)

lemma same_mask_upd: "(\<And>n. mask_focus (f n) = mask_focus n) \<Longrightarrow> same_mask s (upd c f s)"
  by (simp add: same_mask_def)

lemma same_mask_focused [simp]: "same_mask s (s\<lparr>focused := f\<rparr>)" by (simp add: same_mask_def)

lemma same_mask_emit [simp]: "same_mask s (emit e s)" by (simp add: same_mask_def)

definition urgency_frame :: "i3 \<Rightarrow> i3 \<Rightarrow> bool" where
  "urgency_frame s t \<longleftrightarrow> same_links s t \<and> focused t = focused s \<and> cfg t = cfg s \<and> same_mask s t"

lemma urgency_frame_refl [simp]: "urgency_frame s s" by (simp add: urgency_frame_def)

lemma urgency_frame_trans [trans]:
  "urgency_frame s t \<Longrightarrow> urgency_frame t u \<Longrightarrow> urgency_frame s u"
  unfolding urgency_frame_def by (auto intro: same_links_trans same_mask_trans)

lemma urgency_frame_emit [simp]: "urgency_frame s (emit e s)" by (simp add: urgency_frame_def)

lemma urgency_frame_upd:
  assumes "same_links s (upd c f s)" and "\<And>n. mask_focus (f n) = mask_focus n"
  shows "urgency_frame s (upd c f s)"
  using assms by (simp add: urgency_frame_def same_mask_upd)

lemma frame_wf: "urgency_frame s t \<Longrightarrow> wf_tree D t = wf_tree D s"
  by (simp add: urgency_frame_def same_links_wf)

lemma parents_urgency_total:
  assumes "up_chain s p xs" and "wf_tree {} s" and "length xs \<le> n" and "p \<in> live s"
  shows "\<exists>t. parents_urgency_loop n v (Some p) s = Some t \<and> urgency_frame s t"
  using assms
proof (induction n arbitrary: s p xs)
  case 0
  then show ?case by (auto dest: up_chain_hd)
next
  case (Suc n)
  show ?case
  proof (cases "con_type (heap s p) = CT_WORKSPACE \<or> con_type (heap s p) = CT_DOCKAREA")
    case False
    obtain b where b: "con_has_urgent_child s p = Some b"
      using con_has_urgent_child_spec[OF Suc.prems(2,4)] by blast
    define u where "u = (if v then upd p (\<lambda>n. n\<lparr>urgent := True\<rparr>) s
      else if \<not> b then upd p (\<lambda>n. n\<lparr>urgent := False\<rparr>) s else s)"
    have su: "same_links s u" unfolding u_def by (auto intro!: same_links_upd)
    then have fu: "urgency_frame s u" by (simp add: u_def urgency_frame_def same_mask_upd)
    have st: "parents_urgency_loop (Suc n) v (Some p) s = parents_urgency_loop n v (parent (heap u p)) u"
      using False b by (simp add: u_def)
    have wu: "wf_tree {} u" using Suc.prems(2) by (simp add: frame_wf[OF fu])
    note d = same_linksD[OF su]
    show ?thesis
    proof (cases "parent (heap s p)")
      case None
      with st fu d show ?thesis by (cases n) auto
    next
      case (Some q)
      with Suc.prems(1) obtain ys where ys: "xs = p # ys" "up_chain s q ys"
        by (auto elim: up_chain.cases)
      have "q \<in> live u" using parent_linked(1)[OF Suc.prems(2,4) _ Some] d by simp
      moreover have "up_chain u q ys" by (rule up_chain_cong[OF ys(2) d(4)])
      ultimately obtain t where "parents_urgency_loop n v (Some q) u = Some t" "urgency_frame u t"
        using Suc.IH[OF _ wu] Suc.prems(3) ys(1) by fastforce
      with st Some d fu show ?thesis by (auto intro: urgency_frame_trans)
    qed
  qed auto
qed

lemma update_parents_total:
  assumes wf: "wf_tree {} s" and c: "c \<in> live s"
  shows "\<exists>t. con_update_parents_urgency c s = Some t \<and> urgency_frame s t"
proof (cases "parent (heap s c)")
  case None
  then show ?thesis by (cases "up_fuel s") (auto simp: con_update_parents_urgency_def)
next
  case (Some p)
  have p: "p \<in> live s" by (rule parent_linked(1)[OF wf c _ Some]) simp
  obtain xs where "up_chain s p xs" "length xs \<le> up_fuel s" by (rule chain_of_live[OF wf p])
  from parents_urgency_total[OF this(1) wf this(2) p] Some show ?thesis
    by (auto simp: con_update_parents_urgency_def)
qed

lemma update_flag_total:
  assumes "wf_tree {} s" and "w \<in> live s"
  shows "\<exists>t. workspace_update_urgent_flag w s = Some t \<and> urgency_frame s t"
proof -
  have "urgency_frame s (upd w (\<lambda>n. n\<lparr>urgent := b\<rparr>) s)" for b
    by (intro urgency_frame_upd same_links_upd) simp_all
  moreover from this have "urgency_frame s (emit e (upd w (\<lambda>n. n\<lparr>urgent := b\<rparr>) s))" for e b
    using urgency_frame_trans urgency_frame_emit by blast
  ultimately show ?thesis
    using get_urgency_flag_spec[OF assms]
    by (auto simp: workspace_update_urgent_flag_def Let_def)
qed

lemma set_urgency_total:
  assumes wf: "wf_tree {} s" and c: "c \<in> live s"
  shows "\<exists>t. con_set_urgency c u s = Some t \<and> urgency_frame s t"
proof (cases "u \<and> focused s = Some c")
  case True
  then show ?thesis by (auto simp: con_set_urgency_def)
next
  case False
  define a where "a = (if \<not> urgency_timer (heap s c) then upd c (\<lambda>n. n\<lparr>urgent := u\<rparr>) s else s)"
  define b where "b = upd c (\<lambda>n. n\<lparr>con_window := map_option (\<lambda>w.
              w\<lparr>urgent_time := if urgent n then clock a else (0, 0)\<rparr>) (con_window n)\<rparr>) a"
  have "urgency_frame s a" unfolding a_def by (auto intro!: urgency_frame_upd same_links_upd)
  moreover have "urgency_frame a b" unfolding b_def by (auto intro!: urgency_frame_upd same_links_upd)
  ultimately have sb: "urgency_frame s b" by (rule urgency_frame_trans)
  have wb: "wf_tree {} b" "c \<in> live b"
    using wf c frame_wf[OF sb] sb by (auto simp: urgency_frame_def same_linksD)
  obtain v where v: "con_update_parents_urgency c b = Some v" "urgency_frame b v"
    using update_parents_total[OF wb] by blast
  have wv: "wf_tree {} v" "c \<in> live v"
    using wb frame_wf[OF v(2)] v(2) by (auto simp: urgency_frame_def same_linksD)
  obtain r where r: "con_get_workspace v c = Some r" "\<And>w. r = Some w \<Longrightarrow> w \<in> live v"
    using con_get_workspace_total[OF wv] by blast
  obtain w where w: "(case r of Some x \<Rightarrow> workspace_update_urgent_flag x v | None \<Rightarrow> Some v) = Some w"
    "urgency_frame v w"
  proof (cases r)
    case (Some x)
    then show thesis using that update_flag_total[OF wv(1) r(2)] by auto
  qed (use that in simp)
  have "con_set_urgency c u s =
      Some (if urgent (heap w c) \<noteq> urgent (heap s c) then emit (Ipc_Window ''urgent'' c) w else w)"
    using v(1) r(1) w(1)
    unfolding con_set_urgency_def if_not_P[OF False] Let_def a_def[symmetric] b_def[symmetric] by simp
  moreover have "urgency_frame s w"
    by (rule urgency_frame_trans[OF sb urgency_frame_trans[OF v(2) w(2)]])
  moreover from this have "urgency_frame s (emit e w)" for e
    using urgency_frame_trans urgency_frame_emit by blast
  ultimately show ?thesis by auto
qed

lemma clear_urgency_total:
  assumes wf: "wf_tree {} s" and c: "c \<in> live s"
    and ws: "urgent (heap s c) \<Longrightarrow> con_is_leaf s c \<Longrightarrow> \<exists>w. con_get_workspace s c = Some (Some w)"
  shows "\<exists>t. focus_clear_urgency c s = Some t \<and> urgency_frame s t"
proof (cases "urgent (heap s c) \<and> con_is_leaf s c")
  case True
  obtain t where t: "con_set_urgency c False s = Some t" "urgency_frame s t"
    using set_urgency_total[OF wf c] by blast
  have wt: "wf_tree {} t" "c \<in> live t"
    using wf c frame_wf[OF t(2)] t(2) by (auto simp: urgency_frame_def same_linksD)
  obtain u where u: "con_update_parents_urgency c t = Some u" "urgency_frame t u"
    using update_parents_total[OF wt] by blast
  note su = urgency_frame_trans[OF t(2) u(2)]
  have wu: "wf_tree {} u" "c \<in> live u"
    using wf c frame_wf[OF su] su by (auto simp: urgency_frame_def same_linksD)
  obtain w where "con_get_workspace s c = Some (Some w)" using ws True by blast
  then have w: "con_get_workspace u c = Some (Some w)"
    using su same_links_workspace by (auto simp: urgency_frame_def)
  then have "w \<in> live u" using con_get_workspace_total[OF wu] by auto
  from update_flag_total[OF wu(1) this] obtain v where
    v: "workspace_update_urgent_flag w u = Some v" "urgency_frame u v" by blast
  have "urgency_frame s (emit e v)" for e
    using urgency_frame_trans[OF su urgency_frame_trans[OF v(2) urgency_frame_emit]] .
  with t(1) u(1) w v(1) True show ?thesis by (simp add: focus_clear_urgency_def)
next
  case False
  then show ?thesis unfolding focus_clear_urgency_def if_not_P[OF False] by simp
qed

section \<open>What focusing does to the focus stacks\<close>

definition to_front :: "con_id \<Rightarrow> con_id list \<Rightarrow> con_id list" where
  "to_front c fo = c # remove1 c fo"

text \<open>\<open>t\<close> is \<open>s\<close> with every container of the chain moved to the front of its parent's stack.\<close>

definition chain_raised :: "con_id list \<Rightarrow> i3 \<Rightarrow> i3 \<Rightarrow> bool" where
  "chain_raised xs s t \<longleftrightarrow>
     same_tree s t \<and> same_mask s t \<and>
     (\<forall>p. nodes_head (heap t p) = nodes_head (heap s p) \<and>
          floating_head (heap t p) = floating_head (heap s p) \<and>
          focus_head (heap t p) = (case prev_of p xs of Some x \<Rightarrow> to_front x (focus_head (heap s p))
                                   | None \<Rightarrow> focus_head (heap s p)))"

lemma raise_step:
  assumes wf: "wf_tree {} s" and p: "p \<in> live s" and c: "c \<in> children s p"
  defines "t \<equiv> upd p (\<lambda>n. n\<lparr>focus_head := to_front c (focus_head (heap s p))\<rparr>) s"
  shows "same_tree s t" and "wf_tree {} t"
proof -
  have "c \<in> set (focus_head (heap s p))" using wf_conD(4)[OF wf_treeD(7)[OF wf p]] c by simp
  then show st: "same_tree s t" by (auto simp: same_tree_def t_def to_front_def)
  show "wf_tree {} t" using wf by (simp add: same_tree_wf[OF st])
qed

text \<open>Where the code may clear the urgency of a leaf, that leaf is on a workspace.\<close>

definition clears_ok :: "i3 \<Rightarrow> con_id \<Rightarrow> bool" where
  "clears_ok s c \<longleftrightarrow>
     (con_is_leaf s c \<longrightarrow> (\<exists>w. con_get_workspace s c = Some (Some w)))"

lemma climb_cong:
  assumes "\<And>x. parent (heap t x) = parent (heap s x)" "\<And>x. stop (heap t x) = stop (heap s x)"
  shows "climb n t stop c = climb n s stop c"
  using assms by (induction n s stop c rule: climb.induct) auto

lemma same_tree_workspace:
  assumes "same_tree s t"
  shows "con_get_workspace t c = con_get_workspace s c"
  unfolding con_get_workspace_def same_treeD(13)[OF assms]
  by (rule climb_cong) (simp_all add: same_treeD[OF assms])

lemma clears_ok_cong:
  assumes "same_tree s t" "nodes_head (heap t c) = nodes_head (heap s c)"
  shows "clears_ok t c = clears_ok s c"
  using assms by (simp add: clears_ok_def same_tree_workspace con_is_leaf_def)

lemma workspace_of_chain:
  assumes "up_chain s c xs" and "length xs \<le> up_fuel s"
  shows "con_get_workspace s c = Some (List.find (\<lambda>x. con_type (heap s x) = CT_WORKSPACE) xs)"
  unfolding con_get_workspace_def by (rule climb_chain[OF assms])

lemma focus_loop_spec:
  assumes "up_chain s c xs" and "wf_tree {} s" and "c \<in> live s" and "c \<noteq> croot s"
    and "length xs \<le> n" and "\<forall>x \<in> set xs. clears_ok s x"
  shows "\<exists>t. focus_loop n c s = Some t \<and> chain_raised xs s t \<and> focused t = Some c \<and> cfg t = cfg s"
  using assms
proof (induction n arbitrary: s c xs)
  case 0
  then show ?case by (auto dest: up_chain_hd)
next
  case (Suc n)
  note wf = Suc.prems(2)
  obtain p where p: "parent (heap s c) = Some p" "p \<in> live s" "c \<in> children s p"
    using parent_exists[OF wf Suc.prems(3) _ Suc.prems(4)] by blast
  obtain ys where xs: "xs = c # ys" and ys: "up_chain s p ys"
    using Suc.prems(1) p(1) by (auto elim: up_chain.cases)
  obtain zs where zs: "ys = p # zs" using up_chain_hd[OF ys] by blast
  have fo: "c \<in> set (focus_head (heap s p))"
    using wf_conD(4)[OF wf_treeD(7)[OF wf p(2)]] p(3) by simp
  define a where "a = upd p (\<lambda>n. n\<lparr>focus_head := to_front c (focus_head (heap s p))\<rparr>) s"
  note sa = raise_step[OF wf p(2,3), folded a_def]
  have af: "focused a = focused s" "cfg a = cfg s" by (simp_all add: a_def)
  have ok: "clears_ok a x" if "x \<in> set xs" for x
    using Suc.prems(6) that clears_ok_cong[OF sa(1), of x] by (simp add: a_def)
  have cr: "chain_raised [c, p] s a"
    using sa(1) by (auto simp: chain_raised_def a_def same_mask_upd)
  obtain b where b: "(case parent (heap a p) of None \<Rightarrow> Some a | Some _ \<Rightarrow> focus_loop n p a) = Some b"
    "chain_raised xs s b" "cfg b = cfg s"
  proof (cases "parent (heap s p)")
    case None
    with ys zs have "zs = []" by (auto elim: up_chain.cases)
    with that[of a] cr None xs zs af show thesis by (simp add: a_def)
  next
    case (Some q)
    have "p \<noteq> croot a" using Some wf_treeD(3)[OF wf] same_treeD(3)[OF sa(1)] by auto
    moreover have "up_chain a p ys" by (rule up_chain_cong[OF ys same_treeD(4)[OF sa(1)]])
    ultimately obtain b where b: "focus_loop n p a = Some b" "chain_raised ys a b" "cfg b = cfg a"
      using Suc.IH[of a p ys] sa p(2) same_treeD(12)[OF sa(1)] Suc.prems(5) xs ok by auto
    have cys: "c \<notin> set ys" using up_chain_distinct[OF Suc.prems(1)] xs by simp
    have pv: "prev_of x xs = (if x = p then Some c else prev_of x ys)" for x
      using xs zs by simp
    have pp: "prev_of p ys = None"
      using up_chain_distinct[OF ys] zs by simp
    have "chain_raised xs s b"
      unfolding chain_raised_def pv
    proof (intro conjI allI)
      show "same_tree s b" using b(2) same_tree_trans[OF sa(1)] by (simp add: chain_raised_def)
      show "same_mask s b" using b(2) cr same_mask_trans[of s a b] by (simp add: chain_raised_def)
    qed (use b(2) pp in \<open>auto simp: chain_raised_def a_def split: option.splits\<close>)
    with that[of b] b(1,3) Some af show thesis by (simp add: a_def)
  qed
  let ?b = "b\<lparr>focused := Some c\<rparr>"
  have sb: "same_tree s ?b"
    using b(2) same_tree_trans[OF _ same_tree_links[OF same_links_focused]] by (auto simp: chain_raised_def)
  have wb: "wf_tree {} ?b" "c \<in> live ?b"
    using wf Suc.prems(3) by (simp_all add: same_tree_wf[OF sb] same_treeD[OF sb])
  have okc: "clears_ok ?b c"
    using Suc.prems(6) xs clears_ok_cong[OF sb, of c] b(2) by (simp add: chain_raised_def)
  obtain t where t: "focus_clear_urgency c ?b = Some t" "urgency_frame ?b t"
    using clear_urgency_total[OF wb] okc by (auto simp: clears_ok_def)
  have ft: "same_mask ?b t" using t(2) by (simp add: urgency_frame_def)
  have lt: "same_links ?b t" "focused t = Some c" "cfg t = cfg s"
    using t(2) b(3) by (auto simp: urgency_frame_def)
  have ae: "upd p (focus_head_update (\<lambda>_. c # remove1 c (focus_head (heap s p)))) s = a"
    by (simp add: a_def to_front_def)
  have "focus_loop (Suc n) c s = Some t"
    using p(1) fo b(1) t(1) same_treeD(4)[OF sa(1), of p]
    by (cases "parent (heap s p)") (simp_all add: unlink_def Let_def ae)
  moreover have "chain_raised xs s t"
    using b(2) same_linksD[OF lt(1)] same_tree_trans[OF sb same_tree_links[OF lt(1)]]
      same_mask_trans[OF same_mask_trans[OF _ same_mask_focused] ft]
    by (simp add: chain_raised_def)
  ultimately show ?case using lt(2,3) by blast
qed

text \<open>In a well-formed tree focusing succeeds.\<close>

lemma con_focus_spec:
  assumes wf: "wf_tree {} s" and c: "c \<in> live s" "c \<noteq> croot s"
    and ok: "\<And>x. c \<in> subtree s x \<Longrightarrow> clears_ok s x"
  obtains t xs where "con_focus c s = Some t" "up_chain s c xs" "chain_raised xs s t"
    "focused t = Some c" "wf_tree {} t" "cfg t = cfg s"
proof -
  obtain xs where xs: "up_chain s c xs" "length xs \<le> up_fuel s"
    by (rule chain_of_live[OF wf c(1)])
  have "\<forall>x \<in> set xs. clears_ok s x" using ok chain_child[OF xs(1) wf c(1)] by blast
  from focus_loop_spec[OF xs(1) wf c xs(2) this] obtain t where
    t: "con_focus c s = Some t" "chain_raised xs s t" "focused t = Some c" "cfg t = cfg s"
    by (auto simp: con_focus_def)
  have "wf_tree {} t" using t(2) wf same_tree_wf by (auto simp: chain_raised_def)
  with that t xs(1) show thesis by blast
qed

text \<open>
  The descent along the focus stacks from any container around the focused one ends there.
\<close>

lemma descend_raised:
  assumes "up_chain s c xs" and "chain_raised xs s t" and "focused t = Some c"
    and "x \<in> set xs" and "distinct xs" and "length xs \<le> n"
  shows "descend_loop n t x = Some c"
proof -
  have main: "descend_loop n t x = Some c"
    if "xs = ys @ x # zs" "length ys < n" for ys x zs n
    using that
  proof (induction ys arbitrary: x zs n rule: rev_induct)
    case Nil
    then have "x = c" using up_chain_hd[OF assms(1)] by auto
    with Nil assms(3) show ?case by (cases n) auto
  next
    case (snoc y ys)
    then obtain m where n: "n = Suc m" by (cases n) auto
    have "prev_of x xs = list_last (ys @ [y])"
      unfolding snoc.prems(1) by (rule prev_of_append) (use assms(5) snoc.prems(1) in auto)
    then have "focus_head (heap t x) = to_front y (focus_head (heap s x))"
      using assms(2) by (auto simp: chain_raised_def)
    moreover have "descend_loop m t y = Some c"
      by (rule snoc.IH[of y "x # zs"]) (use snoc.prems n in auto)
    moreover have "focused t = Some x \<longrightarrow> x = c" using assms(3) by simp
    ultimately show ?case by (auto simp: n to_front_def)
  qed
  obtain ys zs where "xs = ys @ x # zs" using assms(4) by (meson split_list)
  with main assms(6) show ?thesis by simp
qed

lemma con_focus_descend:
  assumes "up_chain s c xs" and "chain_raised xs s t" and "focused t = Some c"
    and "x \<in> set xs" and "length xs \<le> up_fuel s"
  shows "con_descend_focused t x = Some c"
  unfolding con_descend_focused_def
  by (rule descend_raised[OF assms(1-4) up_chain_distinct[OF assms(1)]])
    (use assms(2,5) same_treeD(13) in \<open>auto simp: chain_raised_def\<close>)


section \<open>Raising\<close>

lemma floating_raise_spec:
  assumes wf: "wf_tree {} s" and c: "c \<in> live s" "c \<noteq> croot s" "con_type (heap s c) = CT_FLOATING_CON"
  obtains p where "parent (heap s c) = Some p"
    "floating_raise_con c s =
       Some (upd p (\<lambda>n. n\<lparr>floating_head := remove1 c (floating_head (heap s p)) @ [c]\<rparr>) s)"
    "same_tree s (upd p (\<lambda>n. n\<lparr>floating_head := remove1 c (floating_head (heap s p)) @ [c]\<rparr>) s)"
proof -
  obtain p where p: "parent (heap s c) = Some p" "p \<in> live s" "c \<in> children s p"
    using parent_exists[OF wf c(1) _ c(2)] by blast
  then have "c \<in> set (floating_head (heap s p))"
    using c(3) wf_conD(7)[OF wf_treeD(7)[OF wf p(2)]] by (auto simp: children_def)
  with p(1) that show thesis by (simp add: floating_raise_con_def unlink_def same_tree_def)
qed

text \<open>
  Activating a container inside a floating one focuses it and puts the floating container on top.
\<close>

lemma inside_floating_tree:
  assumes "same_tree s t" and "\<And>x. con_floating (heap t x) = con_floating (heap s x)"
  shows "con_inside_floating t c = con_inside_floating s c"
proof -
  have "inside_floating_loop n t x = inside_floating_loop n s x" for n x
  proof (induction n arbitrary: x)
    case 0
    then show ?case by (cases x) simp_all
  next
    case (Suc n)
    then show ?case by (cases x) (simp_all add: same_treeD[OF assms(1)] assms(2))
  qed
  then show ?thesis by (simp add: con_inside_floating_def same_treeD[OF assms(1)])
qed

lemma con_activate_spec:
  assumes wf: "wf_tree {} s" and c: "c \<in> live s" "c \<noteq> croot s"
    and ok: "\<And>x. c \<in> subtree s x \<Longrightarrow> clears_ok s x"
    and fl: "con_inside_floating s c = Some r" "case r of None \<Rightarrow> True
      | Some f \<Rightarrow> f \<in> live s \<and> f \<noteq> croot s \<and> con_type (heap s f) = CT_FLOATING_CON"
  obtains t where "con_activate c s = Some t" "focused t = Some c" "wf_tree {} t"
    "con_descend_focused t (croot t) = Some c" "con_inside_floating t c = Some r"
    "\<And>f p. r = Some f \<Longrightarrow> parent (heap t f) = Some p \<Longrightarrow> last (floating_head (heap t p)) = f"
proof -
  obtain u xs where u: "con_focus c s = Some u" "up_chain s c xs" "chain_raised xs s u"
    "focused u = Some c" "wf_tree {} u"
    by (rule con_focus_spec[OF wf c ok])
  have su: "same_tree s u" using u(3) by (simp add: chain_raised_def)
  obtain ys where ys: "up_chain s c ys" "length ys \<le> up_fuel s" "last ys = croot s"
    by (rule chain_of_live[OF wf c(1)])
  have xs: "length xs \<le> up_fuel s" "last xs = croot s" "xs \<noteq> []"
    using ys up_chain_unique[OF u(2) ys(1)] up_chain_hd[OF u(2)] by auto
  have du: "descend_loop (up_fuel s) u (croot s) = Some c"
    by (rule descend_raised[OF u(2-4) _ up_chain_distinct[OF u(2)] xs(1)]) (use xs last_in_set in metis)
  have cf: "con_floating (heap u x) = con_floating (heap s x)" for x
    using u(3) by (auto simp: chain_raised_def same_mask_def intro: mask_focusD)
  have r: "con_inside_floating u c = Some r" using inside_floating_tree[OF su cf] fl(1) by simp
  show thesis
  proof (cases r)
    case None
    show thesis
      by (rule that[of u]) (use u r None du su in \<open>auto simp: con_activate_def con_raise_def
        con_descend_focused_def same_treeD(3,13)\<close>)
  next
    case (Some f)
    with fl(2) same_treeD[OF su] have
      f: "f \<in> live u" "f \<noteq> croot u" "con_type (heap u f) = CT_FLOATING_CON" by auto
    obtain p where p: "parent (heap u f) = Some p" "floating_raise_con f u =
       Some (upd p (\<lambda>n. n\<lparr>floating_head := remove1 f (floating_head (heap u p)) @ [f]\<rparr>) u)"
      "same_tree u (upd p (\<lambda>n. n\<lparr>floating_head := remove1 f (floating_head (heap u p)) @ [f]\<rparr>) u)"
      by (rule floating_raise_spec[OF u(5) f])
    let ?t = "upd p (\<lambda>n. n\<lparr>floating_head := remove1 f (floating_head (heap u p)) @ [f]\<rparr>) u"
    have dt: "descend_loop n ?t x = descend_loop n u x" for n x
      by (induction n arbitrary: x) (auto split: list.splits)
    show thesis
    proof (rule that[of ?t])
      show "con_activate c s = Some ?t" using u(1) r Some p(2) by (simp add: con_activate_def con_raise_def)
      show "wf_tree {} ?t" using u(5) same_tree_wf[OF p(3)] by simp
      show "con_descend_focused ?t (croot ?t) = Some c"
        using du dt same_treeD(3,13)[OF su] by (simp add: con_descend_focused_def)
      show "con_inside_floating ?t c = Some r"
        using inside_floating_tree[OF p(3), of c] r by simp
    qed (use u(4) p(1) Some in \<open>auto split: if_splits\<close>)
  qed
qed

end
