(* ===== verification/Con_Encapsulate.thy ===== *)
theory Con_Encapsulate
  imports Con_Focus
begin

text \<open>
  Wrapping the tiling containers of a workspace into a new split container (src/con.c,
  src/workspace.c).  The main result is that the containers keep their order, both in the layout
  and in the focus stack, and that the workspace keeps its floating containers and one child.
\<close>

section \<open>Operations\<close>

definition get_focus_order :: "i3 \<Rightarrow> con_id \<Rightarrow> con_id list" where
  "get_focus_order s c = focus_head (heap s c)"

text \<open>
  The array is read until as many containers are entered as were in the stack; reading past its
  end is undefined behaviour.
\<close>

fun focus_order_loop :: "i3 \<Rightarrow> con_id \<Rightarrow> nat \<Rightarrow> con_id list \<Rightarrow> con_id list option" where
  "focus_order_loop s c 0 ds = Some []"
| "focus_order_loop s c (Suc k) [] = None"
| "focus_order_loop s c (Suc k) (d # ds) = do {
     skip \<leftarrow> (if con_type (heap s c) \<noteq> CT_WORKSPACE
             then map_option (\<lambda>f. f \<noteq> None) (con_inside_floating s d) else Some False);
     if skip then focus_order_loop s c (Suc k) ds
     else map_option ((#) d) (focus_order_loop s c k ds)
   }"

definition set_focus_order :: "con_id \<Rightarrow> con_id list \<Rightarrow> i3 \<Rightarrow> i3 option" where
  "set_focus_order c order s = do {
     let k = length (focus_head (heap s c));
     let s = upd c (\<lambda>n. n\<lparr>focus_head := []\<rparr>) s;
     fo \<leftarrow> focus_order_loop s c k order;
     Some (upd c (\<lambda>n. n\<lparr>focus_head := fo\<rparr>) s)
   }"

text \<open>The loop that moves all tiling children of a workspace into the new container.\<close>

fun move_children :: "nat \<Rightarrow> con_id \<Rightarrow> con_id \<Rightarrow> i3 \<Rightarrow> i3 option" where
  "move_children 0 ws new s = None"
| "move_children (Suc k) ws new s =
     (case nodes_head (heap s ws) of
        [] \<Rightarrow> Some s
      | child # _ \<Rightarrow> do {
          s \<leftarrow> con_detach child s;
          s \<leftarrow> con_attach child new True s;
          move_children k ws new s })"

definition fill_split :: "con_id \<Rightarrow> con_id \<Rightarrow> i3 \<Rightarrow> i3 option" where
  "fill_split ws new s = do {
     let order = get_focus_order s ws;
     s \<leftarrow> move_children (Suc (length (nodes_head (heap s ws)))) ws new s;
     set_focus_order new order s
   }"

definition new_split :: "con_id \<Rightarrow> i3 \<Rightarrow> con_id \<times> i3" where
  "new_split ws s =
     (let (new, s) = con_new_detached None s
      in (new, upd new (\<lambda>n. n\<lparr>layout := layout (heap s ws)\<rparr>) (upd new (\<lambda>n. n\<lparr>parent := Some ws\<rparr>) s)))"

definition workspace_encapsulate :: "con_id \<Rightarrow> i3 \<Rightarrow> (con_id option \<times> i3) option" where
  "workspace_encapsulate ws s =
     (if nodes_head (heap s ws) = [] then Some (None, s)
      else do {
        let (new, s) = new_split ws s;
        s \<leftarrow> fill_split ws new s;
        s \<leftarrow> con_attach new ws True s;
        Some (Some new, s) })"

definition ws_force_orientation :: "con_id \<Rightarrow> orientation \<Rightarrow> i3 \<Rightarrow> i3 option" where
  "ws_force_orientation ws ori s = do {
     let (split, s) = new_split ws s;
     s \<leftarrow> fill_split ws split s;
     let s = upd ws (\<lambda>n. n\<lparr>layout := (if ori = HORIZ then L_SPLITH else L_SPLITV)\<rparr>) s;
     s \<leftarrow> con_attach split ws False s;
     Some (con_fix_percent ws s)
   }"

section \<open>Moving one child\<close>

lemma attach_tail:
  assumes "con_type (heap s c) \<noteq> CT_WORKSPACE" "con_type (heap s c) \<noteq> CT_FLOATING_CON"
    and "con_type (heap s p) = CT_CON" and "c \<noteq> p"
  shows "con_attach c p True s = con_force_split_parents_redraw c
    (upd p (\<lambda>n. n\<lparr>focus_head := focus_head n @ [c]\<rparr>)
      (upd p (\<lambda>n. n\<lparr>nodes_head := nodes_head n @ [c]\<rparr>) (upd c (\<lambda>n. n\<lparr>parent := Some p\<rparr>) s)))"
  using assms
  by (simp add: con_attach_def attach_fuel_def numeral_2_eq_2 Let_def attach_target_def upd_def)

text \<open>
  While the children are moved, \<open>new\<close> is detached and points to the workspace.
\<close>

definition moving :: "con_id \<Rightarrow> con_id \<Rightarrow> i3 \<Rightarrow> bool" where
  "moving ws new s \<longleftrightarrow>
     wf_tree {new} s \<and> ws \<in> live s \<and> ws \<notin> subtree s new \<and> parent (heap s new) = Some ws \<and>
     con_type (heap s new) = CT_CON \<and> con_type (heap s ws) = CT_WORKSPACE"

lemma links_out_children: "links_out c p s t \<Longrightarrow> x \<noteq> p \<Longrightarrow> children t x = children s x"
  by (simp add: links_out_def children_def)

lemma move_one:
  assumes m: "moving ws new s" and c: "c \<in> set (nodes_head (heap s ws))"
    and ct: "con_type (heap s c) = CT_CON"
  obtains t u where "con_detach c s = Some t" "con_attach c new True t = Some u" "moving ws new u"
    "links_only s u" "all_cons u = all_cons s" "next_id u = next_id s" "croot u = croot s"
    "nodes_head (heap u ws) = remove1 c (nodes_head (heap s ws))"
    "focus_head (heap u ws) = remove1 c (focus_head (heap s ws))"
    "floating_head (heap u ws) = floating_head (heap s ws)"
    "nodes_head (heap u new) = nodes_head (heap s new) @ [c]"
    "focus_head (heap u new) = focus_head (heap s new) @ [c]"
    "\<And>x. x \<noteq> ws \<Longrightarrow> x \<noteq> new \<Longrightarrow> nodes_head (heap u x) = nodes_head (heap s x) \<and>
       floating_head (heap u x) = floating_head (heap s x) \<and> focus_head (heap u x) = focus_head (heap s x)"
    "\<And>x. x \<noteq> c \<Longrightarrow> parent (heap u x) = parent (heap s x)" "parent (heap u c) = Some new"
    "floating_head (heap u new) = floating_head (heap s new)"
proof -
  have wf: "wf_tree {new} s" and wl: "ws \<in> live s" and wn: "ws \<notin> subtree s new"
    and pn: "parent (heap s new) = Some ws" and tn: "con_type (heap s new) = CT_CON"
    and tw: "con_type (heap s ws) = CT_WORKSPACE"
    using m by (auto simp: moving_def)
  have cw: "c \<in> children s ws" using c by (simp add: children_def)
  note cp = child_parent[OF wf wl cw]
  have cn: "c \<noteq> new" using cp(3) by simp
  have nl: "new \<in> live s" using wf_treeD(5)[OF wf] by simp
  have wsn: "ws \<noteq> new" using wn by auto
  have cws: "c \<noteq> ws" using ct tw by auto
  have cr: "(c, ws) \<in> child_rel s" using cw wl by (simp add: child_rel_def)
  have outc: "c \<notin> subtree s new"
  proof
    assume "c \<in> subtree s new"
    then have "(c, new) \<in> (child_rel s)\<^sup>*" by (simp add: subtree_def)
    with cn obtain y where "(c, y) \<in> child_rel s" "(y, new) \<in> (child_rel s)\<^sup>*"
      by (auto elim: converse_rtranclE)
    then have "(ws, new) \<in> (child_rel s)\<^sup>*"
      using child_rel_live(3)[OF wf] cr by (metis option.inject)
    with wn show False by (simp add: subtree_def)
  qed
  obtain p t where t: "con_detach c s = Some t" "parent (heap s c) = Some p" "links_out c p s t"
    "wf_tree (insert c {new}) t" "links_only s t"
    by (rule con_detach_links[OF wf cp(2,3,4)]) (use outc in auto)
  have p: "p = ws" using t(2) cp(1) by simp
  note lo = t(3)[unfolded p]
  have lt: "live t = live s" and pt: "\<And>x. parent (heap t x) = parent (heap s x)"
    and tt: "\<And>x. con_type (heap t x) = con_type (heap s x)" and gt: "all_cons t = all_cons s"
    "next_id t = next_id s" "croot t = croot s"
    using lo by (auto simp: links_out_def live_def)
  let ?u = "upd new (\<lambda>n. n\<lparr>focus_head := focus_head n @ [c]\<rparr>)
      (upd new (\<lambda>n. n\<lparr>nodes_head := nodes_head n @ [c]\<rparr>) (upd c (\<lambda>n. n\<lparr>parent := Some new\<rparr>) t))"
  have li: "links_in c new t ?u" by (rule links_in_tail) (use ct cn tt in auto)
  have sub: "subtree t c = subtree s c" by (rule links_out_subtree(2)[OF lo wf wl cw])
  have subn: "subtree t new \<subseteq> subtree s new"
    unfolding subtree_def links_out_subtree(1)[OF lo wf wl cw]
    using rtrancl_mono[of "child_rel s - {(c, ws)}" "child_rel s"] by blast
  have newc: "new \<notin> subtree t c"
  proof
    assume "new \<in> subtree t c"
    then have "new \<in> subtree s c" using sub by simp
    then have "(new, c) \<in> (child_rel s)\<^sup>*" by (simp add: subtree_def)
    with cn obtain y where "(new, y) \<in> child_rel s" by (auto elim: converse_rtranclE)
    then show False using wf_treeD(9)[OF wf, of new] by (auto simp: child_rel_def)
  qed
  have "\<exists>ys. up_chain t ws ys \<and> set ys \<subseteq> live t \<and> c \<notin> set ys \<and> new \<notin> set ys"
  proof -
    obtain ys where ys: "up_chain s ws ys" "set ys \<subseteq> live s"
      by (rule chain_of_attached[OF wf wl]) (use wn in auto)
    have "\<forall>y \<in> set ys. (ws, y) \<in> (child_rel s)\<^sup>* \<and> y \<in> live s"
      using ys(1) wl wn
    proof (induction rule: up_chain.induct)
      case (up x q xs)
      then have "x \<notin> {new}" by auto
      from parent_linked[OF wf up.prems(1) this up.hyps(1)]
      have q: "(x, q) \<in> child_rel s" "q \<in> live s" by (auto simp: child_rel_def)
      have "q \<notin> subtree s new" using up.prems(2) q(1)
        by (auto simp: subtree_def intro: converse_rtrancl_into_rtrancl)
      with up.IH q(2) have "\<forall>y \<in> set xs. (q, y) \<in> (child_rel s)\<^sup>* \<and> y \<in> live s" by blast
      with q up.prems(1) show ?case by (auto intro: converse_rtrancl_into_rtrancl)
    qed auto
    then have above: "y \<in> set ys \<Longrightarrow> ws \<in> subtree s y" for y by (simp add: subtree_def)
    have "c \<notin> set ys"
      using above[of c] not_below_child[OF wf cr] by blast
    moreover have "new \<notin> set ys" using above[of new] wn by blast
    moreover have "up_chain t ws ys" by (rule up_chain_cong[OF ys(1) pt])
    ultimately show ?thesis using ys(2) lt by blast
  qed
  then obtain ys where ys: "up_chain t ws ys" "set ys \<subseteq> live t" "c \<notin> set ys" "new \<notin> set ys" by blast
  have cn': "up_chain t new (new # ys)" by (rule up_chain.up[OF _ ys(1)]) (use pn pt in simp)
  have "\<exists>v. con_force_split_parents_redraw c ?u = Some v"
    by (rule redraw_chain[OF li t(4) cn']) (use ys nl lt cn in auto)
  then obtain v where v: "con_force_split_parents_redraw c ?u = Some v" ..
  have a: "con_attach c new True t = Some v"
    using attach_tail[of t c new] ct tn tt cn v by simp
  note sv = redraw_links[OF v]
  have lv: "links_in c new t v" by (rule links_in_then[OF li sv])
  have "wf_tree {new} v" by (rule links_in_wf[OF lv t(4) _ _ newc]) (use cn nl lt in auto)
  moreover have "ws \<notin> subtree v new"
  proof
    assume "ws \<in> subtree v new"
    moreover have rv: "child_rel v = insert (c, new) (child_rel t)"
      by (rule links_in_rel[OF lv]) (use nl lt in simp)
    ultimately have "(ws, new) \<in> (insert (c, new) (child_rel t))\<^sup>*" by (simp add: subtree_def)
    then have "(ws, new) \<in> (child_rel t)\<^sup>* \<or> (ws, c) \<in> (child_rel t)\<^sup>*"
      by (auto simp: rtrancl_insert)
    then have "ws \<in> subtree s new \<or> ws \<in> subtree s c" using subn sub by (auto simp: subtree_def)
    then show False using wn not_below_child[OF wf cr] by blast
  qed
  moreover have "links_only s v"
  proof -
    have "links_only t ?u" by (auto simp: links_only_def mask_links_def)
    then show ?thesis
      using links_only_trans[OF t(5)] links_only_trans links_only_deco[OF force_redraw_same[OF v]] by blast
  qed
  ultimately have ws: "wf_tree {new} v" "ws \<notin> subtree v new" "links_only s v" by auto
  have q: "nodes_head (heap v x) = (if x = new then nodes_head (heap t new) @ [c] else nodes_head (heap t x))"
    "focus_head (heap v x) = (if x = new then focus_head (heap t new) @ [c] else focus_head (heap t x))"
    "floating_head (heap v x) = floating_head (heap t x)"
    "parent (heap v x) = (if x = c then Some new else parent (heap s x))" for x
    using cn pt by (simp_all add: same_linksD[OF sv])
  have r: "nodes_head (heap t ws) = remove1 c (nodes_head (heap s ws))"
    "focus_head (heap t ws) = remove1 c (focus_head (heap s ws))"
    "floating_head (heap t ws) = remove1 c (floating_head (heap s ws))"
    "\<And>x. x \<noteq> ws \<Longrightarrow> nodes_head (heap t x) = nodes_head (heap s x) \<and>
       floating_head (heap t x) = floating_head (heap s x) \<and> focus_head (heap t x) = focus_head (heap s x)"
    using lo by (simp_all add: links_out_def)
  have nf: "c \<notin> set (floating_head (heap s ws))"
    using wf_conD(8)[OF wf_treeD(7)[OF wf wl], of c] ct by auto
  have g: "all_cons v = all_cons s" "next_id v = next_id s" "croot v = croot s"
    using gt lv by (simp_all add: links_in_def)
  have "live v = live s" using g by (simp add: live_def)
  then have "moving ws new v"
    using ws wl pn tn tw q(4)[of new] cn by (simp add: moving_def links_onlyD[OF ws(3)])
  then show thesis
    by (rule that[OF t(1) a _ ws(3) g])
      (use q r wsn nf cn in \<open>simp_all add: remove1_idem\<close>)
qed


section \<open>Moving all children\<close>

lemma remove1_filter: "distinct xs \<Longrightarrow> remove1 c xs = filter (\<lambda>x. x \<noteq> c) xs"
  by (induction xs) (auto intro!: filter_True[symmetric])

lemma move_children_spec:
  assumes "moving ws new s" and "\<forall>c \<in> set (nodes_head (heap s ws)). con_type (heap s c) = CT_CON"
    and "length (nodes_head (heap s ws)) < k"
  shows "\<exists>t. move_children k ws new s = Some t \<and> moving ws new t \<and> links_only s t \<and>
    all_cons t = all_cons s \<and> next_id t = next_id s \<and> croot t = croot s \<and>
    nodes_head (heap t ws) = [] \<and> floating_head (heap t ws) = floating_head (heap s ws) \<and>
    focus_head (heap t ws) = filter (\<lambda>x. x \<notin> set (nodes_head (heap s ws))) (focus_head (heap s ws)) \<and>
    nodes_head (heap t new) = nodes_head (heap s new) @ nodes_head (heap s ws) \<and>
    focus_head (heap t new) = focus_head (heap s new) @ nodes_head (heap s ws) \<and>
    floating_head (heap t new) = floating_head (heap s new) \<and>
    (\<forall>x. x \<noteq> ws \<longrightarrow> x \<noteq> new \<longrightarrow> nodes_head (heap t x) = nodes_head (heap s x) \<and>
       floating_head (heap t x) = floating_head (heap s x) \<and> focus_head (heap t x) = focus_head (heap s x)) \<and>
    (\<forall>x. parent (heap t x) = (if x \<in> set (nodes_head (heap s ws)) then Some new else parent (heap s x)))"
  using assms
proof (induction k arbitrary: s)
  case (Suc k)
  show ?case
  proof (cases "nodes_head (heap s ws)")
    case Nil
    with Suc.prems(1) show ?thesis by (intro exI[of _ s]) auto
  next
    case (Cons c cs)
    have m: "wf_tree {new} s" "ws \<in> live s" using Suc.prems(1) by (auto simp: moving_def)
    note wc = wf_conD(1-4)[OF wf_treeD(7)[OF m]]
    obtain t u where tu: "con_detach c s = Some t" "con_attach c new True t = Some u"
      "moving ws new u" "links_only s u" "all_cons u = all_cons s" "next_id u = next_id s"
      "croot u = croot s"
      "nodes_head (heap u ws) = remove1 c (nodes_head (heap s ws))"
      "focus_head (heap u ws) = remove1 c (focus_head (heap s ws))"
      "floating_head (heap u ws) = floating_head (heap s ws)"
      "nodes_head (heap u new) = nodes_head (heap s new) @ [c]"
      "focus_head (heap u new) = focus_head (heap s new) @ [c]"
      "\<And>x. x \<noteq> ws \<Longrightarrow> x \<noteq> new \<Longrightarrow> nodes_head (heap u x) = nodes_head (heap s x) \<and>
         floating_head (heap u x) = floating_head (heap s x) \<and> focus_head (heap u x) = focus_head (heap s x)"
      "\<And>x. x \<noteq> c \<Longrightarrow> parent (heap u x) = parent (heap s x)" "parent (heap u c) = Some new"
      "floating_head (heap u new) = floating_head (heap s new)"
      by (rule move_one[OF Suc.prems(1), of c]) (use Cons Suc.prems(2) in auto)
    have nu: "nodes_head (heap u ws) = cs" using tu(8) Cons by simp
    have fu: "focus_head (heap u ws) = filter (\<lambda>x. x \<noteq> c) (focus_head (heap s ws))"
      unfolding tu(9) by (rule remove1_filter[OF wc(3)])
    obtain v where v: "move_children k ws new u = Some v" "moving ws new v" "links_only u v"
      "all_cons v = all_cons u" "next_id v = next_id u" "croot v = croot u"
      "nodes_head (heap v ws) = []" "floating_head (heap v ws) = floating_head (heap u ws)"
      "focus_head (heap v ws) = filter (\<lambda>x. x \<notin> set cs) (focus_head (heap u ws))"
      "nodes_head (heap v new) = nodes_head (heap u new) @ cs"
      "focus_head (heap v new) = focus_head (heap u new) @ cs"
      "floating_head (heap v new) = floating_head (heap u new)"
      "\<forall>x. x \<noteq> ws \<longrightarrow> x \<noteq> new \<longrightarrow> nodes_head (heap v x) = nodes_head (heap u x) \<and>
         floating_head (heap v x) = floating_head (heap u x) \<and> focus_head (heap v x) = focus_head (heap u x)"
      "\<forall>x. parent (heap v x) = (if x \<in> set cs then Some new else parent (heap u x))"
      using Suc.IH[OF tu(3)] Suc.prems(2,3) Cons nu by (auto simp: links_onlyD[OF tu(4)])
    have st: "move_children (Suc k) ws new s = Some v" using Cons tu(1,2) v(1) by simp
    have fo: "filter (\<lambda>x. x \<notin> set cs) (filter (\<lambda>x. x \<noteq> c) fs) = filter (\<lambda>x. x \<notin> set (c # cs)) fs" for fs
      by (induction fs) auto
    show ?thesis
      unfolding Cons
      by (rule exI[of _ v])
        (use st v tu(5-8,10-16) links_only_trans[OF tu(4) v(3)] in \<open>simp add: fu fo\<close>)
  qed
qed simp

section \<open>The focus order\<close>

lemma focus_order_loop_filter:
  assumes "con_type (heap s c) \<noteq> CT_WORKSPACE" and "k = length (filter P ds)"
    and "\<And>d. d \<in> set ds \<Longrightarrow> map_option (\<lambda>f. f \<noteq> None) (con_inside_floating s d) = Some (\<not> P d)"
  shows "focus_order_loop s c k ds = Some (filter P ds)"
  using assms(2,3)
proof (induction ds arbitrary: k)
  case (Cons d ds)
  have IH: "focus_order_loop s c (length (filter P ds)) ds = Some (filter P ds)"
    by (rule Cons.IH) (use Cons.prems in auto)
  obtain z where d: "con_inside_floating s d = Some z" "(z \<noteq> None) = (\<not> P d)"
    using Cons.prems(2)[of d] by auto
  show ?case
  proof (cases "P d")
    case True
    with Cons.prems(1) d IH assms(1) show ?thesis by simp
  next
    case False
    show ?thesis
    proof (cases "length (filter P ds)")
      case 0
      with False Cons.prems(1) show ?thesis by simp
    next
      case (Suc n)
      with False Cons.prems(1) d IH assms(1) show ?thesis by simp
    qed
  qed
qed simp

lemma inside_floating_tiling:
  assumes "parent (heap s d) = Some p" "parent (heap s p) = Some ws" "con_type (heap s ws) = CT_WORKSPACE"
    and "con_type (heap s d) = CT_CON" "con_type (heap s p) = CT_CON"
    and "\<not> floating_on (con_floating (heap s d))" "\<not> floating_on (con_floating (heap s p))"
    and "\<not> floating_on (con_floating (heap s ws))" and "length (all_cons s) \<ge> 2"
  shows "con_inside_floating s d = Some None"
proof -
  obtain n where "up_fuel s = Suc (Suc (Suc n))"
    using assms(9) by (cases "length (all_cons s)"; cases "length (all_cons s) - 1") (auto simp: up_fuel_def)
  with assms(1-8) show ?thesis by (simp add: con_inside_floating_def)
qed

lemma fill_split_spec:
  assumes m: "moving ws new s" and ct: "\<forall>c \<in> set (nodes_head (heap s ws)). con_type (heap s c) = CT_CON"
    and til: "\<forall>c \<in> insert new (insert ws (set (nodes_head (heap s ws)))). \<not> floating_on (con_floating (heap s c))"
    and empty: "nodes_head (heap s new) = []" "focus_head (heap s new) = []"
  obtains t where "fill_split ws new s = Some t" "moving ws new t" "links_only s t"
    "all_cons t = all_cons s" "croot t = croot s"
    "nodes_head (heap t ws) = []" "floating_head (heap t ws) = floating_head (heap s ws)"
    "focus_head (heap t ws) = filter (\<lambda>x. con_type (heap s x) = CT_FLOATING_CON) (focus_head (heap s ws))"
    "nodes_head (heap t new) = nodes_head (heap s ws)"
    "focus_head (heap t new) = filter (\<lambda>x. con_type (heap s x) \<noteq> CT_FLOATING_CON) (focus_head (heap s ws))"
    "parent (heap t ws) = parent (heap s ws)"
proof -
  let ?ns = "nodes_head (heap s ws)" and ?fo = "focus_head (heap s ws)"
  have wf: "wf_tree {new} s" "ws \<in> live s" using m by (auto simp: moving_def)
  note wc = wf_conD[OF wf_treeD(7)[OF wf]]
  have kind: "x \<in> set ?ns \<longleftrightarrow> con_type (heap s x) \<noteq> CT_FLOATING_CON" if "x \<in> set ?fo" for x
    using that wc(4) wc(7,8)[of x] by (auto simp: children_def)
  obtain t where t: "move_children (Suc (length ?ns)) ws new s = Some t" "moving ws new t" "links_only s t"
    "all_cons t = all_cons s" "croot t = croot s" "nodes_head (heap t ws) = []"
    "floating_head (heap t ws) = floating_head (heap s ws)"
    "focus_head (heap t ws) = filter (\<lambda>x. x \<notin> set ?ns) ?fo"
    "nodes_head (heap t new) = ?ns" "focus_head (heap t new) = ?ns"
    "\<forall>x. parent (heap t x) = (if x \<in> set ?ns then Some new else parent (heap s x))"
    using move_children_spec[OF m ct, of "Suc (length ?ns)"] empty by auto
  note lo = links_onlyD[OF t(3)]
  let ?a = "upd new (\<lambda>n. n\<lparr>focus_head := []\<rparr>) t"
  let ?fn = "filter (\<lambda>x. con_type (heap s x) \<noteq> CT_FLOATING_CON) ?fo"
  have tn: "con_type (heap t new) = CT_CON" "con_type (heap t ws) = CT_WORKSPACE"
    "parent (heap t new) = Some ws" using t(2) by (auto simp: moving_def)
  have wsn: "ws \<noteq> new" using tn by auto
  have setfn: "set ?fn = set ?ns"
    using kind wc(4) by (auto simp: children_def)
  have dfn: "distinct ?fn" using wc(3) by simp
  then have "length ?fn = card (set ?ns)" using setfn distinct_card by metis
  then have len: "length ?fn = length ?ns" using wc(1) by (simp add: distinct_card)
  have inside: "map_option (\<lambda>f. f \<noteq> None) (con_inside_floating ?a d) =
      Some (\<not> con_type (heap s d) \<noteq> CT_FLOATING_CON)" if d: "d \<in> set ?fo" for d
  proof (cases "con_type (heap s d) = CT_FLOATING_CON")
    case True
    then have "d \<noteq> new" using tn(1) lo(10) by auto
    with True show ?thesis using lo(10) by (simp add: con_inside_floating_def up_fuel_def)
  next
    case False
    then have dn: "d \<in> set ?ns" using kind[OF d] by simp
    have dw: "d \<in> live s" "d \<noteq> new"
      using wc(5)[of d] child_parent(3)[OF wf, of d] dn by (auto simp: children_def)
    have "card {d, new} \<le> card (live s)"
      using dw wf_treeD(5)[OF wf(1)] by (intro card_mono) auto
    then have "length (all_cons s) \<ge> 2" using dw(2) card_live[OF wf(1)] by simp
    then have "con_inside_floating ?a d = Some None"
      by (intro inside_floating_tiling[where p = new and ws = ws])
        (use dn dw tn t(4,11) lo til ct wsn in auto)
    with False show ?thesis by simp
  qed
  have "focus_order_loop ?a new (length ?ns) ?fo = Some ?fn"
    by (rule focus_order_loop_filter) (use tn(1) len inside in auto)
  then have f: "fill_split ws new s = Some (upd new (\<lambda>n. n\<lparr>focus_head := ?fn\<rparr>) ?a)"
    using t(1,10) by (simp add: fill_split_def get_focus_order_def set_focus_order_def Let_def)
  let ?t = "upd new (\<lambda>n. n\<lparr>focus_head := ?fn\<rparr>) ?a"
  have "mset ?fn = mset ?ns"
    using set_eq_iff_mset_eq_distinct[OF dfn wc(1)] setfn by blast
  then have same: "same_tree t ?t" using t(10) by (auto simp: same_tree_def)
  have mt: "moving ws new ?t"
    using t(2) same_tree_wf[OF same] same_tree_subtree[OF same] same_treeD[OF same]
    by (simp add: moving_def)
  have "links_only s ?t"
    by (rule links_only_trans[OF t(3)]) (auto simp: links_only_def mask_links_def)
  then show thesis
  proof (rule that[OF f mt])
    show "focus_head (heap ?t ws) = filter (\<lambda>x. con_type (heap s x) = CT_FLOATING_CON) ?fo"
      using t(8) kind wsn by (auto intro!: filter_cong)
    have "ws \<notin> set ?ns" using ct tn lo(10) by force
    then show "parent (heap ?t ws) = parent (heap s ws)" using t(11) wsn by simp
  qed (use t wsn in auto)
qed

section \<open>The new container\<close>

lemma new_split_moving:
  assumes wf: "wf_tree {} s" and ws: "ws \<in> live s" and tw: "con_type (heap s ws) = CT_WORKSPACE"
  obtains t where "new_split ws s = (next_id s, t)" "moving ws (next_id s) t"
    "\<forall>x \<in> live s. heap t x = heap s x" "next_id s \<notin> live s" "live t = insert (next_id s) (live s)"
    "croot t = croot s" "focused t = focused s"
    "heap t (next_id s) = (new_con (cfg s) None)\<lparr>parent := Some ws, layout := layout (heap s ws)\<rparr>"
proof -
  let ?n = "next_id s"
  let ?t = "upd ?n (\<lambda>n. n\<lparr>layout := layout (heap s ws)\<rparr>) (split_state ws s)"
  note sf = split_state_facts[OF wf]
  have ne: "ws \<noteq> ?n" using ws sf(8) by auto
  have sl: "same_links (split_state ws s) ?t" by (rule same_links_upd) simp_all
  have ns: "new_split ws s = (?n, ?t)"
    using ne by (simp add: new_split_def con_new_detached_def con_alloc_def split_state_def upd_def emit_def)
  have ht: "heap ?t ?n = (new_con (cfg s) None)\<lparr>parent := Some ws, layout := layout (heap s ws)\<rparr>"
    by (simp add: con_alloc_def split_state_def)
  have hx: "heap ?t x = heap s x" if "x \<in> live s" for x
    using that sf(7)[OF that] sf(8) by auto
  have lt: "live ?t = insert ?n (live s)" using sf(3) by (simp add: live_def)
  have "wf_tree {?n} ?t" unfolding same_links_wf[OF sl] using sf(1) by simp
  moreover have "ws \<notin> subtree ?t ?n"
    using ne sf(9) same_links_child_rel[OF sl] by (simp add: subtree_def)
  ultimately have "moving ws ?n ?t"
    using ws lt hx[OF ws] tw ht by (simp add: moving_def)
  then show thesis
    by (rule that[OF ns _ _ sf(8) lt _ _ ht]) (use hx in blast, simp_all add: split_state_def con_alloc_def)
qed

lemma attach_unwrapped:
  assumes "con_type (heap s c) = CT_CON" "con_window (heap s c) = None"
    and "con_type (heap s p) \<noteq> CT_DOCKAREA" and "c \<noteq> p" and "ign \<or> first_tiling_focus s p = None"
  shows "con_attach c p ign s = con_force_split_parents_redraw c
    (upd p (\<lambda>n. n\<lparr>focus_head := focus_head n @ [c]\<rparr>)
      (upd p (\<lambda>n. n\<lparr>nodes_head := nodes_head n @ [c]\<rparr>) (upd c (\<lambda>n. n\<lparr>parent := Some p\<rparr>) s)))"
proof -
  let ?s = "upd c (\<lambda>n. n\<lparr>parent := Some p\<rparr>) s"
  have sm: "con_type (heap ?s x) = con_type (heap s x)" "focus_head (heap ?s x) = focus_head (heap s x)" for x
    by simp_all
  have "first_tiling_focus ?s p = first_tiling_focus s p"
    unfolding first_tiling_focus_def sm ..
  then show ?thesis
    using assms
    by (auto simp add: con_attach_def attach_fuel_def numeral_2_eq_2 Let_def attach_target_def upd_def)
qed

text \<open>The common end of \<open>workspace_encapsulate\<close> and \<open>ws_force_orientation\<close>.\<close>

definition encapsulated :: "con_id \<Rightarrow> con_id \<Rightarrow> i3 \<Rightarrow> i3 \<Rightarrow> bool" where
  "encapsulated ws new s t \<longleftrightarrow>
     wf_tree {} t \<and> new \<notin> live s \<and> live t = insert new (live s) \<and>
     nodes_head (heap t ws) = [new] \<and> floating_head (heap t ws) = floating_head (heap s ws) \<and>
     focus_head (heap t ws) =
       filter (\<lambda>x. con_type (heap s x) = CT_FLOATING_CON) (focus_head (heap s ws)) @ [new] \<and>
     nodes_head (heap t new) = nodes_head (heap s ws) \<and>
     focus_head (heap t new) =
       filter (\<lambda>x. con_type (heap s x) \<noteq> CT_FLOATING_CON) (focus_head (heap s ws)) \<and>
     layout (heap t new) = layout (heap s ws) \<and> parent (heap t new) = Some ws \<and>
     parent (heap t ws) = parent (heap s ws) \<and> focused t = focused s"

lemma attach_last:
  assumes m: "moving ws new s" and e: "nodes_head (heap s ws) = []"
    and fo: "\<forall>x \<in> set (focus_head (heap s ws)). con_type (heap s x) = CT_FLOATING_CON"
    and win: "con_window (heap s new) = None"
  obtains t where "con_attach new ws ign s = Some t" "wf_tree {} t" "links_only s t"
    "all_cons t = all_cons s" "parent (heap t new) = Some ws" "parent (heap t ws) = parent (heap s ws)"
    "nodes_head (heap t ws) = [new]" "floating_head (heap t ws) = floating_head (heap s ws)"
    "focus_head (heap t ws) = focus_head (heap s ws) @ [new]"
    "nodes_head (heap t new) = nodes_head (heap s new)" "focus_head (heap t new) = focus_head (heap s new)"
proof -
  have wf: "wf_tree {new} s" "ws \<in> live s" "ws \<notin> subtree s new" "con_type (heap s new) = CT_CON"
    "con_type (heap s ws) = CT_WORKSPACE" using m by (auto simp: moving_def)
  have ne: "new \<noteq> ws" using wf(3) by auto
  obtain t where t: "con_attach new ws ign s = Some t" "wf_tree {} t"
    using con_attach_total[of new "{}" s ws ign] wf by (auto simp: dock_ready_def)
  have "first_tiling_focus s ws = None"
    using fo by (auto simp: first_tiling_focus_def find_None_iff)
  then have "con_force_split_parents_redraw new
    (upd ws (\<lambda>n. n\<lparr>focus_head := focus_head n @ [new]\<rparr>)
      (upd ws (\<lambda>n. n\<lparr>nodes_head := nodes_head n @ [new]\<rparr>) (upd new (\<lambda>n. n\<lparr>parent := Some ws\<rparr>) s))) = Some t"
    using t(1) attach_unwrapped[of s new ws ign] wf win ne by simp
  then have sl: "same_links (upd ws (\<lambda>n. n\<lparr>focus_head := focus_head n @ [new]\<rparr>)
      (upd ws (\<lambda>n. n\<lparr>nodes_head := nodes_head n @ [new]\<rparr>) (upd new (\<lambda>n. n\<lparr>parent := Some ws\<rparr>) s))) t"
    and sd: "same_but_deco (upd ws (\<lambda>n. n\<lparr>focus_head := focus_head n @ [new]\<rparr>)
      (upd ws (\<lambda>n. n\<lparr>nodes_head := nodes_head n @ [new]\<rparr>) (upd new (\<lambda>n. n\<lparr>parent := Some ws\<rparr>) s))) t"
    by (auto dest: redraw_links force_redraw_same)
  have "links_only s (upd ws (\<lambda>n. n\<lparr>focus_head := focus_head n @ [new]\<rparr>)
      (upd ws (\<lambda>n. n\<lparr>nodes_head := nodes_head n @ [new]\<rparr>) (upd new (\<lambda>n. n\<lparr>parent := Some ws\<rparr>) s)))"
    by (auto simp: links_only_def mask_links_def)
  then have lo: "links_only s t" using links_only_trans links_only_deco[OF sd] by blast
  show thesis
    by (rule that[OF t lo]) (use ne e in \<open>simp_all add: same_linksD[OF sl]\<close>)
qed

lemma split_and_fill:
  assumes wf: "wf_tree {} s" and ws: "ws \<in> live s" and tw: "con_type (heap s ws) = CT_WORKSPACE"
    and ct: "\<forall>c \<in> set (nodes_head (heap s ws)). con_type (heap s c) = CT_CON"
    and til: "\<forall>c \<in> insert ws (set (nodes_head (heap s ws))). \<not> floating_on (con_floating (heap s c))"
  obtains a t where "new_split ws s = (next_id s, a)" "fill_split ws (next_id s) a = Some t"
    "moving ws (next_id s) t" "nodes_head (heap t ws) = []" "layout (heap t ws) = layout (heap s ws)"
    "con_window (heap t (next_id s)) = None"
    "\<forall>x \<in> set (focus_head (heap t ws)). con_type (heap t x) = CT_FLOATING_CON"
    "\<forall>u. wf_tree {} u \<longrightarrow> live u = live t \<longrightarrow> nodes_head (heap u ws) = [next_id s] \<longrightarrow>
      floating_head (heap u ws) = floating_head (heap t ws) \<longrightarrow>
      focus_head (heap u ws) = focus_head (heap t ws) @ [next_id s] \<longrightarrow>
      nodes_head (heap u (next_id s)) = nodes_head (heap t (next_id s)) \<longrightarrow>
      focus_head (heap u (next_id s)) = focus_head (heap t (next_id s)) \<longrightarrow>
      layout (heap u (next_id s)) = layout (heap t (next_id s)) \<longrightarrow>
      parent (heap u (next_id s)) = Some ws \<longrightarrow> parent (heap u ws) = parent (heap t ws) \<longrightarrow>
      focused u = focused t \<longrightarrow> encapsulated ws (next_id s) s u"
proof -
  let ?n = "next_id s"
  obtain a where a: "new_split ws s = (?n, a)" "moving ws ?n a"
    "\<forall>x \<in> live s. heap a x = heap s x" "?n \<notin> live s" "live a = insert ?n (live s)"
    "croot a = croot s" "focused a = focused s"
    "heap a ?n = (new_con (cfg s) None)\<lparr>parent := Some ws, layout := layout (heap s ws)\<rparr>"
    by (rule new_split_moving[OF wf ws tw])
  note wc = wf_conD[OF wf_treeD(7)[OF wf ws]]
  have hw: "heap a ws = heap s ws" using a(3) ws by simp
  have hc: "heap a x = heap s x" if "x \<in> children s ws" for x using a(3) wc(5)[OF that] by simp
  have hf: "heap a x = heap s x" if "x \<in> set (focus_head (heap s ws))" for x
    using hc that wc(4) by simp
  have hn: "heap a x = heap s x" if "x \<in> set (nodes_head (heap s ws))" for x
    using hc that by (simp add: children_def)
  obtain t where t: "fill_split ws ?n a = Some t" "moving ws ?n t" "links_only a t"
    "all_cons t = all_cons a" "croot t = croot a"
    "nodes_head (heap t ws) = []" "floating_head (heap t ws) = floating_head (heap a ws)"
    "focus_head (heap t ws) = filter (\<lambda>x. con_type (heap a x) = CT_FLOATING_CON) (focus_head (heap a ws))"
    "nodes_head (heap t ?n) = nodes_head (heap a ws)"
    "focus_head (heap t ?n) = filter (\<lambda>x. con_type (heap a x) \<noteq> CT_FLOATING_CON) (focus_head (heap a ws))"
    "parent (heap t ws) = parent (heap a ws)"
    by (rule fill_split_spec[OF a(2)]) (use hw hn ct til a(8) in \<open>auto simp: new_con_def\<close>)
  note lo = links_onlyD[OF t(3)]
  have lv: "live t = insert ?n (live s)" using t(4) a(5) by (simp add: live_def)
  have fl: "filter (\<lambda>x. P (heap a x)) (focus_head (heap a ws)) = filter (\<lambda>x. P (heap s x)) (focus_head (heap s ws))" for P
    unfolding hw by (rule filter_cong) (use hf in auto)
  have ff: "focus_head (heap t ws) = filter (\<lambda>x. con_type (heap s x) = CT_FLOATING_CON) (focus_head (heap s ws))"
    using t(8) fl[of "\<lambda>n. con_type n = CT_FLOATING_CON"] by simp
  have fg: "focus_head (heap t ?n) = filter (\<lambda>x. con_type (heap s x) \<noteq> CT_FLOATING_CON) (focus_head (heap s ws))"
    using t(10) fl[of "\<lambda>n. con_type n \<noteq> CT_FLOATING_CON"] by simp
  have w: "con_window (heap t ?n) = None" "layout (heap t ?n) = layout (heap s ws)"
    "layout (heap t ws) = layout (heap s ws)"
    using lo(5,8) a(8) hw by simp_all
  have fo: "\<forall>x \<in> set (focus_head (heap t ws)). con_type (heap t x) = CT_FLOATING_CON"
    using ff lo(10) hf by auto
  have nt: "nodes_head (heap t ?n) = nodes_head (heap s ws)" "floating_head (heap t ws) = floating_head (heap s ws)"
    "parent (heap t ws) = parent (heap s ws)" "focused t = focused s"
    using t(7,9,11) hw lo(1) a(7) by simp_all
  show thesis
    by (rule that[OF a(1) t(1,2,6) w(3) w(1) fo])
      (simp add: encapsulated_def a(4) lv nt ff fg w(2))
qed

text \<open>
  Both operations succeed and keep the order of the containers.  A workspace without tiling
  containers is left alone by the first and gets an empty split container by the second.
\<close>

lemma workspace_encapsulate_ok:
  assumes wf: "wf_tree {} s" and ws: "ws \<in> live s" and tw: "con_type (heap s ws) = CT_WORKSPACE"
    and ct: "\<forall>c \<in> set (nodes_head (heap s ws)). con_type (heap s c) = CT_CON"
    and til: "\<forall>c \<in> insert ws (set (nodes_head (heap s ws))). \<not> floating_on (con_floating (heap s c))"
    and ne: "nodes_head (heap s ws) \<noteq> []"
  shows "\<exists>t. workspace_encapsulate ws s = Some (Some (next_id s), t) \<and> encapsulated ws (next_id s) s t \<and>
    layout (heap t ws) = layout (heap s ws)"
proof -
  obtain a t where t: "new_split ws s = (next_id s, a)" "fill_split ws (next_id s) a = Some t"
    "moving ws (next_id s) t" "nodes_head (heap t ws) = []" "layout (heap t ws) = layout (heap s ws)"
    "con_window (heap t (next_id s)) = None"
    "\<forall>x \<in> set (focus_head (heap t ws)). con_type (heap t x) = CT_FLOATING_CON"
    and fin: "\<forall>u. wf_tree {} u \<longrightarrow> live u = live t \<longrightarrow> nodes_head (heap u ws) = [next_id s] \<longrightarrow>
      floating_head (heap u ws) = floating_head (heap t ws) \<longrightarrow>
      focus_head (heap u ws) = focus_head (heap t ws) @ [next_id s] \<longrightarrow>
      nodes_head (heap u (next_id s)) = nodes_head (heap t (next_id s)) \<longrightarrow>
      focus_head (heap u (next_id s)) = focus_head (heap t (next_id s)) \<longrightarrow>
      layout (heap u (next_id s)) = layout (heap t (next_id s)) \<longrightarrow>
      parent (heap u (next_id s)) = Some ws \<longrightarrow> parent (heap u ws) = parent (heap t ws) \<longrightarrow>
      focused u = focused t \<longrightarrow> encapsulated ws (next_id s) s u"
    by (rule split_and_fill[OF wf ws tw ct til])
  obtain u where u: "con_attach (next_id s) ws True t = Some u" "wf_tree {} u" "links_only t u"
    "all_cons u = all_cons t" "parent (heap u (next_id s)) = Some ws" "parent (heap u ws) = parent (heap t ws)"
    "nodes_head (heap u ws) = [next_id s]" "floating_head (heap u ws) = floating_head (heap t ws)"
    "focus_head (heap u ws) = focus_head (heap t ws) @ [next_id s]"
    "nodes_head (heap u (next_id s)) = nodes_head (heap t (next_id s))"
    "focus_head (heap u (next_id s)) = focus_head (heap t (next_id s))"
    by (rule attach_last[OF t(3,4,7,6)])
  have lu: "live u = live t" using u(4) by (simp add: live_def)
  note lo = links_onlyD[OF u(3)]
  have "encapsulated ws (next_id s) s u"
    by (rule fin[rule_format, OF u(2) lu u(7,8,9,10,11) lo(8) u(5,6) lo(1)])
  moreover have "layout (heap u ws) = layout (heap s ws)" using t(5) lo(8)[of ws] by simp
  moreover have "workspace_encapsulate ws s = Some (Some (next_id s), u)"
    using ne t(1,2) u(1) by (simp add: workspace_encapsulate_def)
  ultimately show ?thesis by blast
qed

lemma ws_force_orientation_ok:
  assumes wf: "wf_tree {} s" and ws: "ws \<in> live s" and tw: "con_type (heap s ws) = CT_WORKSPACE"
    and ct: "\<forall>c \<in> set (nodes_head (heap s ws)). con_type (heap s c) = CT_CON"
    and til: "\<forall>c \<in> insert ws (set (nodes_head (heap s ws))). \<not> floating_on (con_floating (heap s c))"
  shows "\<exists>t. ws_force_orientation ws ori s = Some t \<and> encapsulated ws (next_id s) s t \<and>
    layout (heap t ws) = (if ori = HORIZ then L_SPLITH else L_SPLITV)"
proof -
  let ?L = "if ori = HORIZ then L_SPLITH else L_SPLITV"
  obtain a t where t: "new_split ws s = (next_id s, a)" "fill_split ws (next_id s) a = Some t"
    "moving ws (next_id s) t" "nodes_head (heap t ws) = []" "layout (heap t ws) = layout (heap s ws)"
    "con_window (heap t (next_id s)) = None"
    "\<forall>x \<in> set (focus_head (heap t ws)). con_type (heap t x) = CT_FLOATING_CON"
    and fin: "\<forall>u. wf_tree {} u \<longrightarrow> live u = live t \<longrightarrow> nodes_head (heap u ws) = [next_id s] \<longrightarrow>
      floating_head (heap u ws) = floating_head (heap t ws) \<longrightarrow>
      focus_head (heap u ws) = focus_head (heap t ws) @ [next_id s] \<longrightarrow>
      nodes_head (heap u (next_id s)) = nodes_head (heap t (next_id s)) \<longrightarrow>
      focus_head (heap u (next_id s)) = focus_head (heap t (next_id s)) \<longrightarrow>
      layout (heap u (next_id s)) = layout (heap t (next_id s)) \<longrightarrow>
      parent (heap u (next_id s)) = Some ws \<longrightarrow> parent (heap u ws) = parent (heap t ws) \<longrightarrow>
      focused u = focused t \<longrightarrow> encapsulated ws (next_id s) s u"
    by (rule split_and_fill[OF wf ws tw ct til])
  let ?t = "upd ws (\<lambda>n. n\<lparr>layout := ?L\<rparr>) t"
  have sl: "same_links t ?t" by (rule same_links_upd) simp_all
  note sd = same_linksD[OF sl]
  have tn: "con_type (heap t (next_id s)) = CT_CON" "con_type (heap t ws) = CT_WORKSPACE"
    using t(3) by (auto simp: moving_def)
  have ne: "ws \<noteq> next_id s" using tn by auto
  have mt: "moving ws (next_id s) ?t"
    using t(3) by (simp add: moving_def same_links_wf[OF sl] same_links_subtree[OF sl] live_def ne ne[symmetric])
  obtain u where u: "con_attach (next_id s) ws False ?t = Some u" "wf_tree {} u" "links_only ?t u"
    "all_cons u = all_cons ?t" "parent (heap u (next_id s)) = Some ws" "parent (heap u ws) = parent (heap ?t ws)"
    "nodes_head (heap u ws) = [next_id s]" "floating_head (heap u ws) = floating_head (heap ?t ws)"
    "focus_head (heap u ws) = focus_head (heap ?t ws) @ [next_id s]"
    "nodes_head (heap u (next_id s)) = nodes_head (heap ?t (next_id s))"
    "focus_head (heap u (next_id s)) = focus_head (heap ?t (next_id s))"
    by (rule attach_last[OF mt]) (use t(4,6,7) in auto)
  let ?v = "con_fix_percent ws u"
  have sv: "same_links u ?v" by (rule con_fix_percent_links)
  note sw = same_linksD[OF sv]
  note lo = links_onlyD[OF u(3)]
  have dn: "distinct (nodes_head (heap u ws))" using u(7) by simp
  have lay: "layout (heap ?v x) = layout (heap u x)" for x
    using arg_cong[OF con_fix_percent_heap(2)[OF dn, of x], of layout] by simp
  have lu: "live ?v = live t" using u(4) sw(1) by (simp add: live_def)
  have wv: "wf_tree {} ?v" using u(2) by (simp add: same_links_wf[OF sv])
  have "encapsulated ws (next_id s) s ?v"
    by (rule fin[rule_format, OF wv lu])
      (use u(5-11) ne lo(1,8) in \<open>simp_all add: sw lay\<close>)
  moreover have "layout (heap ?v ws) = ?L" using lay lo(8)[of ws] by simp
  moreover have "ws_force_orientation ws ori s = Some ?v"
    using t(1,2) u(1) by (simp add: ws_force_orientation_def)
  ultimately show ?thesis by blast
qed

end
