(* ===== verification/Con_Resize.thy ===== *)
theory Con_Resize
  imports Con_Percent Con_Descend Util
begin

text \<open>
  Resizing tiling containers (src/resize.c): finding the two containers that share the border,
  and moving the border between them.  Percentages are rational numbers; the rounding of
  \<open>double\<close> arithmetic is not modelled.
\<close>

section \<open>Finding the participants\<close>

text \<open>
  \<open>find_participants\<close> is the loop of \<open>resize_find_tiling_participants\<close>; it returns the final
  values of \<open>first\<close> and \<open>second\<close>.  It dereferences the parent of every container it leaves.
\<close>

definition neighbour :: "i3 \<Rightarrow> direction \<Rightarrow> bool \<Rightarrow> con_id \<Rightarrow> con_id \<Rightarrow> con_id option" where
  "neighbour s d both_sides p c =
     (let ns = nodes_head (heap s p); prev = prev_of c ns; nxt = next_of c ns in
      if d = D_UP \<or> d = D_LEFT then
        (if prev = None \<and> both_sides then nxt else prev)
      else (if nxt = None \<and> both_sides then prev else nxt))"

fun find_participants ::
  "nat \<Rightarrow> i3 \<Rightarrow> direction \<Rightarrow> bool \<Rightarrow> con_id \<Rightarrow> (con_id \<times> con_id option) option" where
  "find_participants 0 s d both_sides c = None"
| "find_participants (Suc k) s d both_sides c =
     (if con_type (heap s c) = CT_WORKSPACE \<or> con_type (heap s c) = CT_FLOATING_CON then Some (c, None)
      else do {
        p \<leftarrow> parent (heap s c);
        ori \<leftarrow> con_orientation s p;
        if ori \<noteq> orientation_from_direction d \<or> layout (heap s p) = L_STACKED \<or>
           layout (heap s p) = L_TABBED
        then find_participants k s d both_sides p
        else case neighbour s d both_sides p c of
               None \<Rightarrow> find_participants k s d both_sides p
             | Some b \<Rightarrow> Some (c, Some b) })"

text \<open>The outcome, and the new values of \<open>*current\<close> and \<open>*other\<close>.\<close>

definition resize_find_tiling_participants ::
  "i3 \<Rightarrow> con_id option \<Rightarrow> con_id option \<Rightarrow> direction \<Rightarrow> bool \<Rightarrow>
     (bool \<times> con_id option \<times> con_id option) option" where
  "resize_find_tiling_participants s current other d both_sides =
     (case current of
        None \<Rightarrow> Some (False, current, other)
      | Some c \<Rightarrow> map_option (\<lambda>(a, b). (b \<noteq> None, Some a, b)) (find_participants (up_fuel s) s d both_sides c))"

section \<open>Moving the border\<close>

text \<open>
  A division by a size of zero gives an infinity or a NaN in C; the definitions return \<open>None\<close>
  there.  Sizes are converted from \<open>uint32_t\<close> to \<open>int\<close>.
\<close>

definition percent_for_1px :: "i3 \<Rightarrow> con_id \<Rightarrow> rat option" where
  "percent_for_1px s c = do {
     p \<leftarrow> parent (heap s c);
     size \<leftarrow> con_rect_size_in_orientation s p;
     ori \<leftarrow> con_orientation s p;
     let min_size = (if ori = HORIZ then 1 else sint (1 + rheight (deco_rect (heap s c))));
     if sint size = 0 then None else Some (of_int min_size / of_int (sint size))
   }"

definition resize_neighboring_cons :: "con_id \<Rightarrow> con_id \<Rightarrow> int \<Rightarrow> int \<Rightarrow> i3 \<Rightarrow> (bool \<times> i3) option" where
  "resize_neighboring_cons first second px ppt s =
     (if px * ppt \<noteq> 0 then None
      else do {
        p \<leftarrow> parent (heap s first);
        pct \<leftarrow> (if ppt \<noteq> 0 then Some (of_int ppt / 100)
               else do {
                 size \<leftarrow> con_rect_size_in_orientation s p;
                 if sint size = 0 then None else Some (of_int px / of_int (sint size)) });
        let new_first = percent (heap s first) + pct;
        let new_second = percent (heap s second) - pct;
        m \<leftarrow> percent_for_1px s first;
        if new_first < m then Some (False, s)
        else do {
          m \<leftarrow> percent_for_1px s second;
          if new_second < m then Some (False, s)
          else Some (True, con_fix_percent p
            (upd second (\<lambda>n. n\<lparr>percent := new_second\<rparr>) (upd first (\<lambda>n. n\<lparr>percent := new_first\<rparr>) s))) }
      })"

section \<open>What the search finds\<close>

text \<open>
  Whether a container's border in the direction can be moved: its parent splits along the
  direction and has a neighbour there.
\<close>

definition movable :: "i3 \<Rightarrow> direction \<Rightarrow> bool \<Rightarrow> con_id \<Rightarrow> con_id option" where
  "movable s d both_sides c =
     (case parent (heap s c) of None \<Rightarrow> None
      | Some p \<Rightarrow>
         if con_orientation s p = Some (orientation_from_direction d) \<and> \<not> stacked_or_tabbed (layout (heap s p))
         then neighbour s d both_sides p c else None)"

definition resize_stops :: "i3 \<Rightarrow> con_id \<Rightarrow> bool" where
  "resize_stops s c \<longleftrightarrow> con_type (heap s c) = CT_WORKSPACE \<or> con_type (heap s c) = CT_FLOATING_CON"

text \<open>
  The search takes the innermost container of the chain of ancestors that stops it or has a
  movable border.
\<close>

lemma find_participants_chain:
  assumes "up_chain s c xs" and "length xs \<le> k"
    and "\<exists>x \<in> set xs. resize_stops s x"
    and "\<forall>x \<in> set (takeWhile (\<lambda>x. \<not> resize_stops s x) xs).
           \<forall>p. parent (heap s x) = Some p \<longrightarrow> con_orientation s p \<noteq> None"
  shows "find_participants k s d b c =
    (case List.find (\<lambda>x. resize_stops s x \<or> movable s d b x \<noteq> None) xs of
       Some x \<Rightarrow> Some (x, if resize_stops s x then None else movable s d b x) | None \<Rightarrow> None)"
  using assms
proof (induction arbitrary: k rule: up_chain.induct)
  case (top c)
  then obtain j where "k = Suc j" by (cases k) auto
  with top show ?case by (auto simp: resize_stops_def)
next
  case (up c p xs)
  obtain j where k: "k = Suc j" using up.prems(1) by (cases k) auto
  show ?case
  proof (cases "resize_stops s c")
    case True
    then show ?thesis by (auto simp: k resize_stops_def)
  next
    case False
    then obtain o' where o': "con_orientation s p = Some o'" using up.prems(3) up.hyps(1) by fastforce
    have ih: "find_participants j s d b p =
      (case List.find (\<lambda>x. resize_stops s x \<or> movable s d b x \<noteq> None) xs of
         Some x \<Rightarrow> Some (x, if resize_stops s x then None else movable s d b x) | None \<Rightarrow> None)"
      by (rule up.IH) (use up.prems False k in auto)
    have unf: "find_participants k s d b c =
      (if o' \<noteq> orientation_from_direction d \<or> stacked_or_tabbed (layout (heap s p))
        then find_participants j s d b p
        else case neighbour s d b p c of
               None \<Rightarrow> find_participants j s d b p | Some b \<Rightarrow> Some (c, Some b))"
      using False up.hyps(1) o' by (simp add: k resize_stops_def stacked_or_tabbed_def)
    have mv: "movable s d b c = (if o' = orientation_from_direction d \<and> \<not> stacked_or_tabbed (layout (heap s p))
         then neighbour s d b p c else None)"
      using up.hyps(1) o' by (simp add: movable_def)
    show ?thesis
    proof (cases "movable s d b c")
      case None
      then have "find_participants k s d b c = find_participants j s d b p"
        unfolding unf mv by (auto split: if_splits option.splits)
      with ih None False show ?thesis by simp
    next
      case (Some e)
      then have "find_participants k s d b c = Some (c, Some e)"
        unfolding unf mv by (auto split: if_splits)
      with Some False show ?thesis by simp
    qed
  qed
qed

lemma neighbour_sibling:
  assumes "neighbour s d b p c = Some e" shows "e \<in> set (nodes_head (heap s p))"
  using assms next_of_in[of c _ e] prev_of_in[of c _ e]
  by (auto simp: neighbour_def Let_def split: if_splits)

section \<open>What resizing does to the percentages\<close>

lemma sum_list_two:
  fixes f g :: "'a \<Rightarrow> rat"
  assumes "distinct xs" "a \<in> set xs" "b \<in> set xs" "a \<noteq> b"
    and "g a = f a + q" "g b = f b - q" "\<And>x. x \<noteq> a \<Longrightarrow> x \<noteq> b \<Longrightarrow> g x = f x"
  shows "sum_list (map g xs) = sum_list (map f xs)"
proof -
  have s: "sum_list (map h xs) = h a + h b + sum h (set xs - {a, b})" for h :: "'a \<Rightarrow> rat"
  proof -
    have "set xs = insert a (insert b (set xs - {a, b}))" using assms(2,3) by auto
    then have "sum h (set xs) = sum h (insert a (insert b (set xs - {a, b})))" by simp
    then have "sum h (set xs) = h a + (h b + sum h (set xs - {a, b}))"
      using assms(4) by simp
    then show ?thesis using sum_list_distinct_conv_sum_set[OF assms(1), of h] by (simp add: add.assoc)
  qed
  have "sum g (set xs - {a, b}) = sum f (set xs - {a, b})" by (rule sum.cong) (use assms(7) in auto)
  with s[of g] s[of f] assms(5,6) show ?thesis by simp
qed

definition min_pixels :: "i3 \<Rightarrow> con_id \<Rightarrow> con_id \<Rightarrow> int" where
  "min_pixels s p c = (if con_orientation s p = Some HORIZ then 1 else sint (1 + rheight (deco_rect (heap s c))))"

lemma percent_for_1px_value:
  assumes "parent (heap s c) = Some p" and "con_rect_size_in_orientation s p = Some z" and "0 < sint z"
  shows "percent_for_1px s c = Some (of_int (min_pixels s p c) / of_int (sint z))"
proof -
  obtain ori where "con_orientation s p = Some ori"
    using assms(2) by (auto simp: con_rect_size_in_orientation_def)
  then show ?thesis
    using assms by (simp add: percent_for_1px_def min_pixels_def Let_def)
qed

lemma fix_percents_fixed:
  assumes "\<forall>p \<in> set ps. p > 0" and "sum_list ps = 1"
  shows "fix_percents ps = ps"
proof -
  have "length (filter (\<lambda>p. p > 0) ps) = length ps" using assms(1) by (simp add: length_filter_eq)
  then show ?thesis
    using assms by (simp add: fix_percents_def share_pass_def Let_def)
qed

text \<open>
  If the children's shares are positive and add up to one, the two participants exchange exactly
  the requested share and nothing else changes, unless one of them would become smaller than its
  minimum, in which case nothing changes at all.
\<close>

lemma resize_neighboring_cons_spec:
  fixes px ppt :: int
  assumes p: "parent (heap s a) = Some p" "parent (heap s b) = Some p"
    and ab: "a \<in> set (nodes_head (heap s p))" "b \<in> set (nodes_head (heap s p))" "a \<noteq> b"
    and dist: "distinct (nodes_head (heap s p))"
    and pos: "\<forall>c \<in> set (nodes_head (heap s p)). 0 < percent (heap s c)"
    and one: "sum_list (map (\<lambda>c. percent (heap s c)) (nodes_head (heap s p))) = 1"
    and size: "con_rect_size_in_orientation s p = Some z" "0 < sint z"
    and arg: "px = 0 \<or> ppt = 0"
    and mins: "0 < min_pixels s p a" "0 < min_pixels s p b"
    and q_def: "q = (if ppt \<noteq> 0 then of_int ppt / 100 else of_int px / of_int (sint z))"
    and big_def: "big \<longleftrightarrow> of_int (min_pixels s p a) / of_int (sint z) \<le> percent (heap s a) + q \<and>
      of_int (min_pixels s p b) / of_int (sint z) \<le> percent (heap s b) - q"
  obtains t where "resize_neighboring_cons a b px ppt s = Some (big, t)"
    "\<not> big \<Longrightarrow> t = s"
    "big \<Longrightarrow> t = upd b (\<lambda>n. n\<lparr>percent := percent (heap s b) - q\<rparr>)
       (upd a (\<lambda>n. n\<lparr>percent := percent (heap s a) + q\<rparr>) s)"
    "sum_list (map (\<lambda>c. percent (heap t c)) (nodes_head (heap t p))) = 1"
    "\<forall>c \<in> set (nodes_head (heap t p)). 0 < percent (heap t c)"
proof -
  let ?u = "upd b (\<lambda>n. n\<lparr>percent := percent (heap s b) - q\<rparr>)
       (upd a (\<lambda>n. n\<lparr>percent := percent (heap s a) + q\<rparr>) s)"
  let ?ma = "of_int (min_pixels s p a) / of_int (sint z) :: rat"
  let ?mb = "of_int (min_pixels s p b) / of_int (sint z) :: rat"
  note va = percent_for_1px_value[OF p(1) size] and vb = percent_for_1px_value[OF p(2) size]
  have zr: "(0::rat) < of_int (sint z)" using size(2) by (simp only: of_int_0_less_iff)
  have m0: "0 < ?ma" "0 < ?mb" using mins zr by (simp_all only: divide_pos_pos of_int_0_less_iff)
  have un: "nodes_head (heap ?u p) = nodes_head (heap s p)" by simp
  have pu: "percent (heap ?u c) = (if c = b then percent (heap s b) - q
      else if c = a then percent (heap s a) + q else percent (heap s c))" for c
    by simp
  have fixed: "con_fix_percent p ?u = ?u" "\<forall>c \<in> set (nodes_head (heap s p)). 0 < percent (heap ?u c)"
    "sum_list (map (\<lambda>c. percent (heap ?u c)) (nodes_head (heap s p))) = 1" if big
  proof -
    have b: "?ma \<le> percent (heap s a) + q" "?mb \<le> percent (heap s b) - q"
      using that by (simp_all add: big_def q_def)
    show posu: "\<forall>c \<in> set (nodes_head (heap s p)). 0 < percent (heap ?u c)"
      unfolding pu using pos b m0 by auto
    show sumu: "sum_list (map (\<lambda>c. percent (heap ?u c)) (nodes_head (heap s p))) = 1"
      unfolding one[symmetric] by (rule sum_list_two[OF dist ab, where q = q]) (use ab(3) in simp_all)
    have fp: "fix_percents (map (\<lambda>c. percent (heap ?u c)) (nodes_head (heap s p))) =
        map (\<lambda>c. percent (heap ?u c)) (nodes_head (heap s p))"
      by (rule fix_percents_fixed) (use posu sumu in \<open>simp_all only: set_map ball_simps\<close>)
    show "con_fix_percent p ?u = ?u" by (rule con_fix_percent_id) (use fp dist in \<open>simp_all only: un\<close>)
  qed
  have r: "resize_neighboring_cons a b px ppt s = Some (big, if big then ?u else s)"
  proof -
    have "resize_neighboring_cons a b px ppt s =
      (if percent (heap s a) + q < ?ma then Some (False, s)
       else if percent (heap s b) - q < ?mb then Some (False, s)
       else Some (True, con_fix_percent p ?u))"
      using arg p(1) va vb size
      by (auto simp add: resize_neighboring_cons_def Let_def q_def simp del: of_int_sint)
    moreover have "big \<longleftrightarrow> \<not> percent (heap s a) + q < ?ma \<and> \<not> percent (heap s b) - q < ?mb"
      by (auto simp: big_def q_def)
    ultimately show ?thesis using fixed(1) by auto
  qed
  show thesis
    by (rule that[OF r]) (use fixed pos one un in auto)
qed

end
