(* ===== verification/Gaps.thy ===== *)
theory Gaps
  imports Con_Resize Workspace
begin

text \<open>
  The gaps between containers and around workspaces (src/gaps.c): the gaps of a workspace taken
  from its assignments, the gaps in effect for a container, and the containers they inset.
\<close>

section \<open>Effective gaps\<close>

definition no_gaps :: gaps where
  "no_gaps = \<lparr>g_inner = 0, g_top = 0, g_right = 0, g_bottom = 0, g_left = 0\<rparr>"

definition one_child :: "i3 \<Rightarrow> con_id \<Rightarrow> bool option" where
  "one_child s ws = map_option (\<lambda>n. n \<le> 1 \<or>
      (case nodes_head (heap s ws) of [c] \<Rightarrow> stacked_or_tabbed (layout (heap s c)) | _ \<Rightarrow> False))
     (con_num_visible_children s (Some ws))"

definition calculate_effective_gaps :: "i3 \<Rightarrow> con_id \<Rightarrow> gaps option" where
  "calculate_effective_gaps s c = do {
     r \<leftarrow> con_get_workspace s c;
     (case r of
        None \<Rightarrow> Some no_gaps
      | Some ws \<Rightarrow> do {
          one \<leftarrow> one_child s ws;
          if cfg_smart_gaps (cfg s) = SMART_GAPS_ON \<and> one then Some no_gaps
          else do {
            let wg = con_gaps (heap s ws);
            let cg = cfg_gaps (cfg s);
            let g = no_gaps\<lparr>g_inner := g_inner wg + g_inner cg\<rparr>;
            Some (if cfg_smart_gaps (cfg s) \<noteq> SMART_GAPS_INVERSE_OUTER \<or> one
                  then g\<lparr>g_top := g_top wg + g_top cg, g_right := g_right wg + g_right cg,
                         g_bottom := g_bottom wg + g_bottom cg, g_left := g_left wg + g_left cg\<rparr>
                  else g) } })
   }"

section \<open>Insets\<close>

definition gaps_should_inset_con :: "i3 \<Rightarrow> con_id \<Rightarrow> bool option" where
  "gaps_should_inset_con s c =
     (case parent (heap s c) of
        None \<Rightarrow> Some False
      | Some p \<Rightarrow> do {
          fl \<leftarrow> con_inside_floating s c;
          if fl \<noteq> None then Some False
          else do {
            let leaf_or_stacked_tabbed = con_is_leaf s c \<or> stacked_or_tabbed (layout (heap s c));
            if leaf_or_stacked_tabbed \<and> con_type (heap s p) = CT_WORKSPACE then Some True
            else if leaf_or_stacked_tabbed then do {
              st \<leftarrow> con_inside_stacked_or_tabbed s c;
              Some (\<not> st \<and> con_type (heap s p) = CT_CON \<and>
                    (layout (heap s p) = L_SPLITH \<or> layout (heap s p) = L_SPLITV)) }
            else Some False } })"

text \<open>A container without a workspace makes the function dereference NULL.\<close>

definition gaps_has_adjacent_container :: "i3 \<Rightarrow> con_id \<Rightarrow> direction \<Rightarrow> bool option" where
  "gaps_has_adjacent_container s c d = do {
     r \<leftarrow> con_get_workspace s c;
     ws \<leftarrow> r;
     fg \<leftarrow> con_get_fullscreen_con s ws CF_GLOBAL;
     fs \<leftarrow> (case fg of None \<Rightarrow> con_get_fullscreen_con s ws CF_OUTPUT | Some f \<Rightarrow> Some (Some f));
     if fs = Some c then Some False
     else do {
       (found, _, second) \<leftarrow> resize_find_tiling_participants s (Some c) None d False;
       if \<not> found then Some False
       else (case fs of
          None \<Rightarrow> Some True
        | Some f \<Rightarrow> do {
            a \<leftarrow> con_has_parent s c f;
            if a then (case second of None \<Rightarrow> Some False | Some b \<Rightarrow> con_has_parent s b f)
            else Some False }) }
   }"

section \<open>Gap assignments\<close>

text \<open>An assignment that names the workspace ends the search; of those by number the last counts.\<close>

fun find_gaps :: "string \<Rightarrow> int \<Rightarrow> ws_assignment list \<Rightarrow> ws_assignment option \<Rightarrow> ws_assignment option" where
  "find_gaps name num [] r = r"
| "find_gaps name num (a # as) r =
     (if asg_name a = name then Some a
      else if num \<noteq> -1 \<and> name_is_digits (asg_name a) \<and> ws_name_to_number (asg_name a) = num
      then find_gaps name num as (Some a)
      else find_gaps name num as r)"

definition gaps_for_workspace :: "ws_assignment list \<Rightarrow> i3 \<Rightarrow> con_id \<Rightarrow> gaps option" where
  "gaps_for_workspace as s ws =
     (case (con_name (heap s ws), as) of
        (None, []) \<Rightarrow> Some no_gaps
      | (None, _) \<Rightarrow> None
      | (Some name, _) \<Rightarrow>
          Some (case find_gaps name (ws_num (heap s ws)) as None of
             None \<Rightarrow> no_gaps
           | Some a \<Rightarrow>
               (let g = asg_gaps a; cg = cfg_gaps (cfg s);
                    g = (if asg_inner a then g\<lparr>g_inner := g_inner g - g_inner cg\<rparr> else g);
                    g = (if asg_top a then g\<lparr>g_top := g_top g - g_top cg\<rparr> else g);
                    g = (if asg_right a then g\<lparr>g_right := g_right g - g_right cg\<rparr> else g);
                    g = (if asg_bottom a then g\<lparr>g_bottom := g_bottom g - g_bottom cg\<rparr> else g);
                    g = (if asg_left a then g\<lparr>g_left := g_left g - g_left cg\<rparr> else g)
                in g)))"

definition reapply_ws :: "ws_assignment list \<Rightarrow> con_id \<Rightarrow> i3 \<Rightarrow> i3 option" where
  "reapply_ws as ws s =
     map_option (\<lambda>g. upd ws (\<lambda>n. n\<lparr>con_gaps := g\<rparr>) s) (gaps_for_workspace as s ws)"

definition gaps_reapply_workspace_assignments :: "ws_assignment list \<Rightarrow> i3 \<Rightarrow> i3 option" where
  "gaps_reapply_workspace_assignments as s =
     fold_opt (\<lambda>out s. do { content \<leftarrow> output_get_content s out;
                            fold_opt (reapply_ws as) (nodes_head (heap s content)) s })
       (nodes_head (heap s (croot s))) s"

section \<open>Lemmas\<close>

text \<open>The assignment that counts for a workspace.\<close>

definition by_number :: "int \<Rightarrow> ws_assignment \<Rightarrow> bool" where
  "by_number num a \<longleftrightarrow> num \<noteq> -1 \<and> name_is_digits (asg_name a) \<and> ws_name_to_number (asg_name a) = num"

lemma find_gaps_Cons:
  "find_gaps name num (a # as) r =
     (if asg_name a = name then Some a
      else find_gaps name num as (if by_number num a then Some a else r))"
  by (auto simp: by_number_def)

lemma find_gaps_by_name:
  assumes "a \<in> set as" and "asg_name a = name"
  obtains b where "find_gaps name num as r = Some b" "b \<in> set as" "asg_name b = name"
proof -
  have "\<exists>b. find_gaps name num as r = Some b \<and> b \<in> set as \<and> asg_name b = name"
    using assms by (induction as arbitrary: r) auto
  then show thesis using that by blast
qed

lemma find_gaps_by_number:
  assumes "\<forall>a \<in> set as. asg_name a \<noteq> name"
  shows "find_gaps name num as r = (case rev (filter (by_number num) as) of [] \<Rightarrow> r | a # _ \<Rightarrow> Some a)"
  using assms
proof (induction as arbitrary: r)
  case (Cons a as)
  then have ih: "find_gaps name num as q = (case rev (filter (by_number num) as) of [] \<Rightarrow> q | a # _ \<Rightarrow> Some a)" for q
    by simp
  show ?case
    using Cons.prems unfolding find_gaps_Cons ih by (cases "rev (filter (by_number num) as)") simp_all
qed simp

text \<open>
  The gaps of a workspace are stored relative to the configured ones: on the sides an assignment
  sets, the gaps in effect are the assigned ones whatever the configuration says.
\<close>

lemma assigned_gaps_in_effect:
  assumes "con_get_workspace s c = Some (Some ws)" and "con_name (heap s ws) = Some name"
    and "gaps_for_workspace as s ws = Some (con_gaps (heap s ws))"
    and "find_gaps name (ws_num (heap s ws)) as None = Some a"
    and "cfg_smart_gaps (cfg s) = SMART_GAPS_OFF"
    and "calculate_effective_gaps s c = Some g"
  shows "asg_inner a \<Longrightarrow> g_inner g = g_inner (asg_gaps a)"
    and "asg_top a \<Longrightarrow> g_top g = g_top (asg_gaps a)"
    and "asg_right a \<Longrightarrow> g_right g = g_right (asg_gaps a)"
    and "asg_bottom a \<Longrightarrow> g_bottom g = g_bottom (asg_gaps a)"
    and "asg_left a \<Longrightarrow> g_left g = g_left (asg_gaps a)"
proof -
  let ?wg = "con_gaps (heap s ws)" and ?cg = "cfg_gaps (cfg s)"
  have g: "g_inner g = g_inner ?wg + g_inner ?cg" "g_top g = g_top ?wg + g_top ?cg"
    "g_right g = g_right ?wg + g_right ?cg" "g_bottom g = g_bottom ?wg + g_bottom ?cg"
    "g_left g = g_left ?wg + g_left ?cg"
    using assms(1,5,6) by (auto simp: calculate_effective_gaps_def bind_eq_Some Let_def)
  have w: "?wg = (let g = asg_gaps a; cg = cfg_gaps (cfg s);
                    g = (if asg_inner a then g\<lparr>g_inner := g_inner g - g_inner cg\<rparr> else g);
                    g = (if asg_top a then g\<lparr>g_top := g_top g - g_top cg\<rparr> else g);
                    g = (if asg_right a then g\<lparr>g_right := g_right g - g_right cg\<rparr> else g);
                    g = (if asg_bottom a then g\<lparr>g_bottom := g_bottom g - g_bottom cg\<rparr> else g);
                    g = (if asg_left a then g\<lparr>g_left := g_left g - g_left cg\<rparr> else g)
                in g)"
    using assms(2,3,4) by (cases as) (simp_all add: gaps_for_workspace_def)
  show "asg_inner a \<Longrightarrow> g_inner g = g_inner (asg_gaps a)" "asg_top a \<Longrightarrow> g_top g = g_top (asg_gaps a)"
    "asg_right a \<Longrightarrow> g_right g = g_right (asg_gaps a)" "asg_bottom a \<Longrightarrow> g_bottom g = g_bottom (asg_gaps a)"
    "asg_left a \<Longrightarrow> g_left g = g_left (asg_gaps a)"
    unfolding g w by (simp_all add: Let_def)
qed

end
