(* ===== verification/Borders.thy ===== *)
theory Borders
  imports Gaps
begin

text \<open>
  Window borders (src/con.c): which borders touch the edge of the workspace, the rectangle a
  border style takes away from a window, and changing the style of a window.
\<close>

section \<open>Decorations\<close>

definition render_deco_height :: "config \<Rightarrow> int" where
  "render_deco_height g =
     (let h = font_height g + 4 in if odd (font_height g) then h + 1 else h)"

section \<open>Adjacent borders\<close>

text \<open>The bit masks \<open>adjacent_t\<close> and \<open>hide_edge_borders_mode_t\<close>.\<close>

definition ADJ_LEFT_SCREEN_EDGE :: u8 where "ADJ_LEFT_SCREEN_EDGE = 1"
definition ADJ_RIGHT_SCREEN_EDGE :: u8 where "ADJ_RIGHT_SCREEN_EDGE = 2"
definition ADJ_UPPER_SCREEN_EDGE :: u8 where "ADJ_UPPER_SCREEN_EDGE = 4"
definition ADJ_LOWER_SCREEN_EDGE :: u8 where "ADJ_LOWER_SCREEN_EDGE = 16"

lemmas adj_defs = ADJ_LEFT_SCREEN_EDGE_def ADJ_RIGHT_SCREEN_EDGE_def
  ADJ_UPPER_SCREEN_EDGE_def ADJ_LOWER_SCREEN_EDGE_def

fun hide_edge_borders_value :: "hide_edge_borders \<Rightarrow> u8" where
  "hide_edge_borders_value HEBM_NONE = 0"
| "hide_edge_borders_value HEBM_VERTICAL = 3"
| "hide_edge_borders_value HEBM_HORIZONTAL = 20"
| "hide_edge_borders_value HEBM_BOTH = 23"
| "hide_edge_borders_value HEBM_SMART = 32"
| "hide_edge_borders_value HEBM_SMART_NO_GAPS = 64"

unbundle bit_operations_syntax

definition con_adjacent_borders :: "i3 \<Rightarrow> con_id \<Rightarrow> u8 option" where
  "con_adjacent_borders s c =
     (if con_is_floating s c then Some 0
      else do {
        r \<leftarrow> con_get_workspace s c;
        ws \<leftarrow> r;
        let a = con_rect (heap s c);
        let b = con_rect (heap s ws);
        Some ((if rx a = rx b then ADJ_LEFT_SCREEN_EDGE else 0) OR
              (if rx a + rwidth a = rx b + rwidth b then ADJ_RIGHT_SCREEN_EDGE else 0) OR
              (if ry a = ry b then ADJ_UPPER_SCREEN_EDGE else 0) OR
              (if ry a + rheight a = ry b + rheight b then ADJ_LOWER_SCREEN_EDGE else 0)) })"

section \<open>The rectangle of a border\<close>

definition has_outer_gaps :: "gaps \<Rightarrow> bool" where
  "has_outer_gaps g \<longleftrightarrow> g_top g > 0 \<or> g_right g > 0 \<or> g_bottom g > 0 \<or> g_left g > 0"

text \<open>Whether the smart modes hide all borders: at most one visible child, and no outer gaps.\<close>

definition smart_hides :: "i3 \<Rightarrow> con_id \<Rightarrow> bool option" where
  "smart_hides s c =
     (let mode = cfg_hide_edge_borders (cfg s) in
      if mode = HEBM_SMART \<or> mode = HEBM_SMART_NO_GAPS then do {
        ws \<leftarrow> con_get_workspace s c;
        n \<leftarrow> con_num_visible_children s ws;
        if n > 1 then Some False
        else if mode = HEBM_SMART then Some True
        else map_option (\<lambda>g. \<not> has_outer_gaps g) (calculate_effective_gaps s c) }
      else Some False)"

definition effective_border_width :: "i3 \<Rightarrow> con_id \<Rightarrow> int" where
  "effective_border_width s c =
     (if current_border_width (heap s c) < 0 then
        (if con_is_floating s c then default_floating_border_width (cfg s) else default_border_width (cfg s))
      else current_border_width (heap s c))"

definition con_border_style_rect_without_title :: "i3 \<Rightarrow> con_id \<Rightarrow> rect option" where
  "con_border_style_rect_without_title s c = do {
     hide \<leftarrow> smart_hides s c;
     if hide \<and> \<not> con_is_floating s c then Some (mk_rect 0 0 0 0)
     else do {
       let bw = effective_border_width s c;
       let style = con_border_style s c;
       if style = BS_NONE then Some (mk_rect 0 0 0 0)
       else do {
         let r = (if style = BS_NORMAL
                  then mk_rect (of_int bw) 0 (of_int (- (2 * bw))) (of_int (- bw))
                  else mk_rect (of_int bw) (of_int bw) (of_int (- (2 * bw))) (of_int (- (2 * bw))));
         adj \<leftarrow> con_adjacent_borders s c;
         let mode = cfg_hide_edge_borders (cfg s);
         let hidden = adj AND hide_edge_borders_value (if mode = HEBM_SMART_NO_GAPS then HEBM_NONE else mode);
         let r = (if hidden AND ADJ_LEFT_SCREEN_EDGE \<noteq> 0
                  then r\<lparr>rx := rx r - of_int bw, rwidth := rwidth r + of_int bw\<rparr> else r);
         let r = (if hidden AND ADJ_RIGHT_SCREEN_EDGE \<noteq> 0
                  then r\<lparr>rwidth := rwidth r + of_int bw\<rparr> else r);
         let r = (if hidden AND ADJ_UPPER_SCREEN_EDGE \<noteq> 0 \<and> style \<noteq> BS_NORMAL
                  then r\<lparr>ry := ry r - of_int bw, rheight := rheight r + of_int bw\<rparr> else r);
         Some (if hidden AND ADJ_LOWER_SCREEN_EDGE \<noteq> 0
               then r\<lparr>rheight := rheight r + of_int bw\<rparr> else r) } }
   }"

definition con_border_style_rect :: "i3 \<Rightarrow> con_id \<Rightarrow> rect option" where
  "con_border_style_rect s c = do {
     r \<leftarrow> con_border_style_rect_without_title s c;
     let h = render_deco_height (cfg s);
     Some (if con_border_style s c = BS_NORMAL \<and> con_draw_decoration_into_frame s c
           then r\<lparr>ry := ry r + of_int h, rheight := rheight r - of_int h\<rparr> else r)
   }"

section \<open>Changing the border style\<close>

definition con_set_border_style :: "con_id \<Rightarrow> border_style \<Rightarrow> int \<Rightarrow> i3 \<Rightarrow> i3 option" where
  "con_set_border_style c style bw s =
     (let style = (if style > max_user_border_style (heap s c) then max_user_border_style (heap s c) else style);
          set = upd c (\<lambda>n. n\<lparr>con_border_style_field := style, current_border_width := bw\<rparr>)
      in if \<not> con_is_floating s c then Some (set s)
      else do {
        p \<leftarrow> parent (heap s c);
        bsr \<leftarrow> con_border_style_rect s c;
        let s = upd c (\<lambda>n. n\<lparr>con_rect := rect_add (con_rect n) bsr\<rparr>) s;
        let s = upd p (\<lambda>n. n\<lparr>con_rect := rect_add (con_rect n) bsr\<rparr>) s;
        let s = set s;
        bsr \<leftarrow> con_border_style_rect s c;
        let s = upd c (\<lambda>n. n\<lparr>con_rect := rect_sub (con_rect n) bsr\<rparr>) s;
        Some (upd p (\<lambda>n. n\<lparr>con_rect := rect_sub (con_rect n) bsr\<rparr>) s) })"

section \<open>Minimum sizes\<close>

text \<open>\<open>con_minimum_size\<close> recurses over the children; layouts without an orientation fail an assertion.\<close>

definition max_u32 :: "u32 \<Rightarrow> u32 \<Rightarrow> u32" where
  "max_u32 a b = of_int (max (sint a) (sint b))"

fun minimum_size :: "nat \<Rightarrow> i3 \<Rightarrow> con_id \<Rightarrow> rect option" where
  "minimum_size 0 s c = None"
| "minimum_size (Suc k) s c =
     (if con_is_leaf s c then Some (mk_rect 0 0 75 50)
      else if con_type (heap s c) = CT_FLOATING_CON then
        Option.bind (list_first (nodes_head (heap s c))) (minimum_size k s)
      else if stacked_or_tabbed (layout (heap s c)) then
        map_option (\<lambda>(w, h, d). mk_rect 0 0 w (h + d))
          (fold_opt (\<lambda>d (w, h, deco). map_option (\<lambda>m. (max_u32 w (rwidth m), max_u32 h (rheight m),
               deco + rheight (deco_rect (heap s d)))) (minimum_size k s d))
             (nodes_head (heap s c)) (0, 0, 0))
      else if con_is_split s c then
        map_option (\<lambda>(w, h). mk_rect 0 0 w h)
          (fold_opt (\<lambda>d (w, h). map_option (\<lambda>m. if layout (heap s c) = L_SPLITH
                 then (w + rwidth m, max_u32 h (rheight m))
                 else (max_u32 w (rwidth m), h + rheight m)) (minimum_size k s d))
             (nodes_head (heap s c)) (0, 0))
      else None)"

definition con_minimum_size :: "i3 \<Rightarrow> con_id \<Rightarrow> rect option" where
  "con_minimum_size s c = minimum_size (up_fuel s) s c"

section \<open>Borders do not depend on the geometry of floating windows\<close>

text \<open>Two states that agree in everything but the geometry of the containers.\<close>

definition mask_geom :: "con \<Rightarrow> con" where
  "mask_geom n = n\<lparr>mapped := False, con_rect := mk_rect 0 0 0 0, window_rect := mk_rect 0 0 0 0,
     deco_rect := mk_rect 0 0 0 0\<rparr>"

lemma mask_geom_simps [simp]:
  "mask_geom (n\<lparr>con_rect := r\<rparr>) = mask_geom n" "mask_geom (n\<lparr>deco_rect := r\<rparr>) = mask_geom n"
  "mask_geom (n\<lparr>window_rect := r\<rparr>) = mask_geom n" "mask_geom (n\<lparr>mapped := b\<rparr>) = mask_geom n"
  by (simp_all add: mask_geom_def)

lemma mask_geomD:
  assumes "mask_geom m = mask_geom n"
  shows "parent m = parent n" "con_type m = con_type n" "nodes_head m = nodes_head n"
    "floating_head m = floating_head n" "focus_head m = focus_head n" "layout m = layout n"
    "con_gaps m = con_gaps n" "con_floating m = con_floating n" "fullscreen_mode m = fullscreen_mode n"
    "con_border_style_field m = con_border_style_field n"
    "current_border_width m = current_border_width n" "con_window m = con_window n"
    "percent m = percent n" "con_name m = con_name n"
  using arg_cong[OF assms, of parent] arg_cong[OF assms, of con_type]
    arg_cong[OF assms, of nodes_head] arg_cong[OF assms, of floating_head]
    arg_cong[OF assms, of focus_head] arg_cong[OF assms, of layout]
    arg_cong[OF assms, of fullscreen_mode] arg_cong[OF assms, of con_window]
    arg_cong[OF assms, of con_border_style_field] arg_cong[OF assms, of percent]
    arg_cong[OF assms, of con_gaps] arg_cong[OF assms, of con_name] arg_cong[OF assms, of con_floating]
    arg_cong[OF assms, of current_border_width] by (simp_all add: mask_geom_def)

definition rects_only :: "i3 \<Rightarrow> i3 \<Rightarrow> bool" where
  "rects_only s t \<longleftrightarrow> all_cons t = all_cons s \<and> next_id t = next_id s \<and> croot t = croot s \<and>
     focused t = focused s \<and> cfg t = cfg s \<and>
     (\<forall>x. mask_geom (heap t x) = mask_geom (heap s x))"

lemma rects_onlyD:
  assumes "rects_only s t"
  shows "all_cons t = all_cons s" "croot t = croot s" "cfg t = cfg s" "up_fuel t = up_fuel s"
    "parent (heap t x) = parent (heap s x)" "con_type (heap t x) = con_type (heap s x)"
    "nodes_head (heap t x) = nodes_head (heap s x)" "floating_head (heap t x) = floating_head (heap s x)"
    "focus_head (heap t x) = focus_head (heap s x)" "layout (heap t x) = layout (heap s x)"
    "con_gaps (heap t x) = con_gaps (heap s x)" "con_floating (heap t x) = con_floating (heap s x)"
    "fullscreen_mode (heap t x) = fullscreen_mode (heap s x)"
    "con_border_style_field (heap t x) = con_border_style_field (heap s x)"
    "current_border_width (heap t x) = current_border_width (heap s x)"
    "con_window (heap t x) = con_window (heap s x)" "percent (heap t x) = percent (heap s x)"
    "con_name (heap t x) = con_name (heap s x)"
proof -
  have e: "mask_geom (heap t x) = mask_geom (heap s x)" using assms by (simp only: rects_only_def)
  show "parent (heap t x) = parent (heap s x)" "con_type (heap t x) = con_type (heap s x)"
    "nodes_head (heap t x) = nodes_head (heap s x)" "floating_head (heap t x) = floating_head (heap s x)"
    "focus_head (heap t x) = focus_head (heap s x)" "layout (heap t x) = layout (heap s x)"
    "con_gaps (heap t x) = con_gaps (heap s x)" "con_floating (heap t x) = con_floating (heap s x)"
    "fullscreen_mode (heap t x) = fullscreen_mode (heap s x)"
    "con_border_style_field (heap t x) = con_border_style_field (heap s x)"
    "current_border_width (heap t x) = current_border_width (heap s x)"
    "con_window (heap t x) = con_window (heap s x)" "percent (heap t x) = percent (heap s x)"
    "con_name (heap t x) = con_name (heap s x)" by (fact mask_geomD[OF e])+
qed (use assms in \<open>simp_all only: rects_only_def up_fuel_def\<close>)

lemma rects_only_links:
  assumes "rects_only s t" shows "same_links s t"
proof -
  have "next_id t = next_id s" using assms by (simp only: rects_only_def)
  with rects_onlyD[OF assms] show ?thesis unfolding same_links_def by simp
qed

lemma rects_only_upd: "rects_only s (upd c (\<lambda>n. n\<lparr>con_rect := f n\<rparr>) s)"
  by (simp add: rects_only_def)

lemma rects_only_trans: "rects_only s t \<Longrightarrow> rects_only t u \<Longrightarrow> rects_only s u"
  by (simp add: rects_only_def)

lemma rects_only_refl [simp]: "rects_only s s" by (simp add: rects_only_def)

lemma rects_only_hidden:
  assumes "rects_only s t" shows "con_is_hidden t c = con_is_hidden s c"
proof -
  have "hidden_loop n t c = hidden_loop n s c" for n c
  proof (induction n arbitrary: c)
    case 0
    show ?case by (cases c) simp_all
  next
    case (Suc n)
    show ?case by (cases c) (simp_all add: rects_onlyD[OF assms] Suc.IH split: option.split)
  qed
  then show ?thesis by (simp add: con_is_hidden_def rects_onlyD[OF assms])
qed

lemma rects_only_visible:
  assumes "rects_only s t" shows "con_num_visible_children t c = con_num_visible_children s c"
proof -
  have "visible_children_loop n t c = visible_children_loop n s c" for n c
  proof (induction n arbitrary: c)
    case (Suc n)
    then have "visible_children_loop n t = visible_children_loop n s" by (intro ext)
    then show ?case
      unfolding visible_children_loop.simps con_is_leaf_def by (simp only: rects_onlyD[OF assms]
          rects_only_hidden[OF assms] cong: if_cong)
  qed simp
  then show ?thesis by (auto simp: con_num_visible_children_def rects_onlyD[OF assms] split: option.splits)
qed

lemma rects_only_gaps:
  assumes "rects_only s t" shows "calculate_effective_gaps t c = calculate_effective_gaps s c"
proof -
  have "one_child t ws = one_child s ws" for ws
    unfolding one_child_def rects_only_visible[OF assms] rects_onlyD[OF assms] ..
  then show ?thesis
    unfolding calculate_effective_gaps_def same_links_workspace[OF rects_only_links[OF assms]]
    by (simp only: rects_onlyD[OF assms])
qed

lemma rects_only_border:
  assumes "rects_only s t" and "con_is_floating s c"
  shows "con_border_style_rect t c = con_border_style_rect s c"
proof -
  have fl: "con_is_floating t x = con_is_floating s x" for x
    by (simp add: con_is_floating_def rects_onlyD[OF assms(1)])
  have sh: "smart_hides t c = smart_hides s c"
    unfolding smart_hides_def same_links_workspace[OF rects_only_links[OF assms(1)]]
      rects_only_visible[OF assms(1)] rects_only_gaps[OF assms(1)] rects_onlyD(3)[OF assms(1)] ..
  have nc: "con_num_children t x = con_num_children s x" for x
    by (simp add: con_num_children_def rects_onlyD[OF assms(1)])
  have bs: "con_border_style t c = con_border_style s c"
    unfolding con_border_style_def Let_def nc rects_onlyD[OF assms(1)] ..
  have ef: "effective_border_width t c = effective_border_width s c"
    unfolding effective_border_width_def fl rects_onlyD[OF assms(1)] ..
  have adj: "con_adjacent_borders t c = con_adjacent_borders s c"
    using assms(2) fl by (simp add: con_adjacent_borders_def)
  have "con_border_style_rect_without_title t c = con_border_style_rect_without_title s c"
    unfolding con_border_style_rect_without_title_def sh bs ef adj fl rects_onlyD(3)[OF assms(1)] ..
  moreover have "con_draw_decoration_into_frame t c = con_draw_decoration_into_frame s c"
    unfolding con_draw_decoration_into_frame_def bs con_is_leaf_def rects_onlyD[OF assms(1)] ..
  ultimately show ?thesis
    unfolding con_border_style_rect_def bs rects_onlyD(3)[OF assms(1)] by simp
qed

text \<open>
  Changing the border style of a floating window keeps the window where it is, and its size: the
  rectangle of the container with the new border taken away is the old one.
\<close>

lemma con_set_border_style_spec:
  assumes fl: "con_is_floating s c" and pc: "parent (heap s c) = Some p" "p \<noteq> c"
    and r: "con_set_border_style c style bw s = Some t"
  obtains b b' where "con_border_style_rect s c = Some b" "con_border_style_rect t c = Some b'"
    "rect_add (con_rect (heap t c)) b' = rect_add (con_rect (heap s c)) b"
    "rect_add (con_rect (heap t p)) b' = rect_add (con_rect (heap s p)) b"
    "con_border_style_field (heap t c) = min style (max_user_border_style (heap s c))"
    "current_border_width (heap t c) = bw"
proof -
  define st where "st = (if style > max_user_border_style (heap s c) then max_user_border_style (heap s c) else style)"
  obtain b where b: "con_border_style_rect s c = Some b" using fl pc r
    by (auto simp: con_set_border_style_def bind_eq_Some)
  define u where "u = upd c (\<lambda>n. n\<lparr>con_border_style_field := st, current_border_width := bw\<rparr>)
    (upd p (\<lambda>n. n\<lparr>con_rect := rect_add (con_rect n) b\<rparr>) (upd c (\<lambda>n. n\<lparr>con_rect := rect_add (con_rect n) b\<rparr>) s))"
  obtain b' where b': "con_border_style_rect u c = Some b'"
    and t: "t = upd p (\<lambda>n. n\<lparr>con_rect := rect_sub (con_rect n) b'\<rparr>)
       (upd c (\<lambda>n. n\<lparr>con_rect := rect_sub (con_rect n) b'\<rparr>) u)"
    using fl pc r b unfolding con_set_border_style_def Let_def st_def[symmetric]
    by (auto simp: bind_eq_Some u_def)
  have ro: "rects_only u t" unfolding t by (rule rects_only_trans[OF rects_only_upd rects_only_upd])
  have flu: "con_is_floating u c" using fl pc(2) by (simp add: u_def con_is_floating_def)
  have bt: "con_border_style_rect t c = Some b'" using rects_only_border[OF ro flu] b' by simp
  have rects: "con_rect (heap t c) = rect_sub (rect_add (con_rect (heap s c)) b) b'"
    "con_rect (heap t p) = rect_sub (rect_add (con_rect (heap s p)) b) b'"
    using pc(2) by (simp_all add: t u_def)
  have st': "st = min style (max_user_border_style (heap s c))"
    by (auto simp: st_def min_def)
  show thesis
    by (rule that[OF b bt]) (use pc(2) in \<open>simp_all add: rects rect_sub_add st'[symmetric] t u_def\<close>)
qed

text \<open>Unless borders are hidden depending on the visible windows, the change always succeeds.\<close>

lemma floating_border_total:
  assumes "con_is_floating s c" and "cfg_hide_edge_borders (cfg s) \<notin> {HEBM_SMART, HEBM_SMART_NO_GAPS}"
  shows "\<exists>b. con_border_style_rect s c = Some b"
  using assms
  by (simp add: con_border_style_rect_def con_border_style_rect_without_title_def smart_hides_def
      con_adjacent_borders_def Let_def)

lemma con_set_border_style_total:
  assumes fl: "con_is_floating s c" and pc: "parent (heap s c) = Some p"
    and hide: "cfg_hide_edge_borders (cfg s) \<notin> {HEBM_SMART, HEBM_SMART_NO_GAPS}"
  shows "\<exists>t. con_set_border_style c style bw s = Some t"
proof -
  have tot: "\<exists>b. con_border_style_rect t c = Some b"
    if "con_floating (heap t c) = con_floating (heap s c)" "cfg t = cfg s" for t
    by (rule floating_border_total) (use fl hide that in \<open>simp_all add: con_is_floating_def\<close>)
  obtain b where b: "con_border_style_rect s c = Some b" using tot[of s] by auto
  define st where "st = (if style > max_user_border_style (heap s c) then max_user_border_style (heap s c) else style)"
  obtain b' where b': "con_border_style_rect (upd c (\<lambda>n. n\<lparr>con_border_style_field := st, current_border_width := bw\<rparr>)
    (upd p (\<lambda>n. n\<lparr>con_rect := rect_add (con_rect n) b\<rparr>)
      (upd c (\<lambda>n. n\<lparr>con_rect := rect_add (con_rect n) b\<rparr>) s))) c = Some b'"
    by (atomize_elim, rule tot) simp_all
  show ?thesis
    using fl pc b b' by (auto simp: con_set_border_style_def st_def[symmetric])
qed

end
