(* ===== verification/Render_Sizes.thy ===== *)
theory Render_Sizes
  imports Con_Percent
begin

text \<open>
  The sizes of the children of a split container (\<open>precalculate_sizes\<close> of src/render.c): shares
  are rounded to pixels and the rounding error is handed out pixel by pixel, so that the sizes
  add up to the size of the container.
\<close>

section \<open>Rounding\<close>

text \<open>\<open>lround\<close> rounds half-way cases away from zero.\<close>

definition lround :: "rat \<Rightarrow> int" where
  "lround q = (if q \<ge> 0 then \<lfloor>q + 1/2\<rfloor> else - \<lfloor>1/2 - q\<rfloor>)"

lemma lround_near: "\<bar>of_int (lround q) - q\<bar> \<le> 1/2"
proof -
  have f: "x - 1/2 < of_int \<lfloor>x + 1/2\<rfloor> \<and> of_int \<lfloor>x + 1/2\<rfloor> \<le> x + 1/2" for x :: rat
    using floor_correct[of "x + 1/2"] by linarith
  have e: "- q + 1/2 = 1/2 - q" by simp
  show ?thesis
  proof (cases "q \<ge> 0")
    case True
    with f[of q] show ?thesis unfolding abs_le_iff lround_def by simp linarith
  next
    case False
    with f[of "- q"] show ?thesis unfolding abs_le_iff lround_def e by simp linarith
  qed
qed

lemma lround_mono_0: "q \<ge> 0 \<Longrightarrow> lround q \<ge> 0"
  by (simp add: lround_def)

section \<open>Handing out the rounding error\<close>

text \<open>One pass of the inner loop, which stops as soon as the sizes add up.\<close>

fun adjust_pass :: "int \<Rightarrow> int \<Rightarrow> int list \<Rightarrow> int \<Rightarrow> int list \<times> int" where
  "adjust_pass sig tot [] a = ([], a)"
| "adjust_pass sig tot (x # xs) a =
     (if a = tot then (x # xs, a)
      else let (ys, b) = adjust_pass sig tot xs (a + sig) in ((x + sig) # ys, b))"

text \<open>The outer loop; \<open>None\<close> when the fuel runs out.\<close>

fun adjust_loop :: "nat \<Rightarrow> int \<Rightarrow> int \<Rightarrow> int list \<Rightarrow> int \<Rightarrow> int list option" where
  "adjust_loop 0 sig tot xs a = (if a = tot then Some xs else None)"
| "adjust_loop (Suc k) sig tot xs a =
     (if a = tot then Some xs
      else let (ys, b) = adjust_pass sig tot xs a in adjust_loop k sig tot ys b)"

text \<open>Every pass makes progress, so the initial error bounds the number of passes.\<close>

definition split_sizes :: "int \<Rightarrow> rat list \<Rightarrow> int list option" where
  "split_sizes tot ps =
     (let n = int (length ps);
          sizes = map (\<lambda>p. lround ((if p > 0 then p else 1 / of_nat (length ps)) * of_int tot)) ps;
          assigned = sum_list sizes
      in if assigned = tot \<or> (assigned > tot \<and> assigned - tot \<le> n * 2) \<or>
            (assigned < tot \<and> tot - assigned \<le> n * 2)
         then adjust_loop (nat \<bar>assigned - tot\<bar>) (if assigned < tot then 1 else -1) tot sizes assigned
         else None)"

lemma adjust_pass_length: "length (fst (adjust_pass sig tot xs a)) = length xs"
  by (induction xs arbitrary: a) (auto simp: Let_def split_def)

lemma adjust_pass_sum:
  "snd (adjust_pass sig tot xs a) - a = sum_list (fst (adjust_pass sig tot xs a)) - sum_list xs"
proof (induction xs arbitrary: a)
  case (Cons x xs)
  show ?case using Cons.IH[of "a + sig"] by (simp add: Let_def split_def)
qed simp

lemma adjust_pass_near:
  "list_all2 (\<lambda>y x. \<bar>y - x\<bar> \<le> \<bar>sig\<bar>) (fst (adjust_pass sig tot xs a)) xs"
  by (induction xs arbitrary: a) (auto simp: Let_def split_def intro: list_all2_refl)

text \<open>
  With the sign of the error, a pass reduces the error by the number of children, or removes it.
\<close>

definition toward :: "int \<Rightarrow> int \<Rightarrow> int \<Rightarrow> bool" where
  "toward sig tot a \<longleftrightarrow> sig = (if a < tot then 1 else -1)"

lemma adjust_pass_progress:
  assumes "toward sig tot a \<or> a = tot"
  shows "\<bar>snd (adjust_pass sig tot xs a) - tot\<bar> = max 0 (\<bar>a - tot\<bar> - int (length xs))"
    and "toward sig tot (snd (adjust_pass sig tot xs a)) \<or> snd (adjust_pass sig tot xs a) = tot"
  using assms
proof (induction xs arbitrary: a)
  case (Cons x xs)
  { case 1
    show ?case
    proof (cases "a = tot")
      case False
      with 1 have t: "toward sig tot (a + sig) \<or> a + sig = tot" by (auto simp: toward_def)
      have "\<bar>a + sig - tot\<bar> = \<bar>a - tot\<bar> - 1" using 1 False by (auto simp: toward_def)
      then show ?thesis using Cons.IH(1)[OF t] False by (auto simp: Let_def split_def)
    qed simp
  next
    case 2
    show ?case
    proof (cases "a = tot")
      case False
      with 2 have t: "toward sig tot (a + sig) \<or> a + sig = tot" by (auto simp: toward_def)
      then show ?thesis using Cons.IH(2)[OF t] False by (auto simp: Let_def split_def)
    qed simp }
qed simp_all

lemma adjust_loop_total:
  assumes "toward sig tot a \<or> a = tot" and "xs \<noteq> []" and "nat \<bar>a - tot\<bar> \<le> k"
    and "a = sum_list xs"
  shows "\<exists>ys. adjust_loop k sig tot xs a = Some ys \<and> length ys = length xs \<and> sum_list ys = tot"
  using assms
proof (induction k arbitrary: xs a)
  case (Suc k)
  show ?case
  proof (cases "a = tot")
    case False
    let ?r = "adjust_pass sig tot xs a"
    note pr = adjust_pass_progress[OF Suc.prems(1), of xs]
    have ne: "fst ?r \<noteq> []" using adjust_pass_length[of sig tot xs a] Suc.prems(2) by auto
    have "int (length xs) \<ge> 1" using Suc.prems(2) by (cases xs) auto
    then have "nat \<bar>snd ?r - tot\<bar> \<le> k" using pr(1) Suc.prems(3) False by linarith
    moreover have "snd ?r = sum_list (fst ?r)" using adjust_pass_sum[of sig tot xs a] Suc.prems(4) by simp
    ultimately obtain ys where ys: "adjust_loop k sig tot (fst ?r) (snd ?r) = Some ys"
      "length ys = length (fst ?r)" "sum_list ys = tot"
      using Suc.IH[OF pr(2) ne] by blast
    then show ?thesis using False adjust_pass_length[of sig tot xs a] by (simp add: split_def Let_def)
  qed (use Suc.prems in simp)
qed simp

text \<open>If the error is smaller than the number of children, one pass is enough.\<close>

lemma adjust_loop_near:
  assumes "toward sig tot a \<or> a = tot" and "\<bar>a - tot\<bar> \<le> int (length xs)"
    and "adjust_loop k sig tot xs a = Some ys"
  shows "list_all2 (\<lambda>y x. \<bar>y - x\<bar> \<le> 1) ys xs"
proof (cases k)
  case 0
  then show ?thesis using assms(3) by (auto intro: list_all2_refl split: if_splits)
next
  case (Suc j)
  show ?thesis
  proof (cases "a = tot")
    case True
    then show ?thesis using assms(3) Suc by (auto intro: list_all2_refl)
  next
    case False
    let ?r = "adjust_pass sig tot xs a"
    have "\<bar>snd ?r - tot\<bar> = 0" using adjust_pass_progress(1)[OF assms(1), of xs] assms(2) by simp
    then have "adjust_loop j sig tot (fst ?r) (snd ?r) = Some (fst ?r)" by (cases j) auto
    then have "ys = fst ?r" using assms(3) Suc False by (simp add: split_def Let_def)
    moreover have "\<bar>sig\<bar> = 1" using assms(1) False by (auto simp: toward_def)
    ultimately show ?thesis using adjust_pass_near[of sig tot xs a] by simp
  qed
qed

section \<open>The sizes add up\<close>

lemma sum_list_near:
  assumes "\<forall>p \<in> set ps. \<bar>of_int (f p) - g p\<bar> \<le> (1/2 :: rat)"
  shows "\<bar>of_int (sum_list (map f ps)) - sum_list (map g ps)\<bar> \<le> of_nat (length ps) / 2"
  using assms
proof (induction ps)
  case (Cons p ps)
  then have "\<bar>of_int (sum_list (map f ps)) - sum_list (map g ps)\<bar> \<le> of_nat (length ps) / 2"
    "\<bar>of_int (f p) - g p\<bar> \<le> 1/2" by auto
  then show ?case unfolding abs_le_iff by (simp add: field_simps)
qed simp

lemma sum_list_scale: "sum_list (map (\<lambda>p. p * (c :: rat)) ps) = sum_list ps * c"
  by (induction ps) (auto simp: algebra_simps)

lemma split_sizes_ok:
  assumes pos: "\<forall>p \<in> set ps. p > 0" and one: "sum_list ps = 1"
  obtains sizes where "split_sizes tot ps = Some sizes" "sum_list sizes = tot"
    "length sizes = length ps"
    "list_all2 (\<lambda>z p. \<bar>of_int z - p * of_int tot\<bar> \<le> 3/2) sizes ps"
proof -
  define sz where "sz = map (\<lambda>p. lround ((if p > 0 then p else 1 / of_nat (length ps)) * of_int tot)) ps"
  define a where "a = sum_list sz"
  have sz: "sz = map (\<lambda>p. lround (p * of_int tot)) ps" using pos by (auto simp: sz_def)
  have ne: "ps \<noteq> []" using one by auto
  have "\<bar>of_int a - (of_int tot :: rat)\<bar> \<le> of_nat (length ps) / 2"
    using sum_list_near[of ps "\<lambda>p. lround (p * of_int tot)" "\<lambda>p. p * of_int tot"] lround_near
    by (simp add: a_def sz sum_list_scale one)
  then have "of_int \<bar>a - tot\<bar> \<le> (of_int (int (length ps)) / 2 :: rat)" by simp
  then have "(of_int (2 * \<bar>a - tot\<bar>) :: rat) \<le> of_int (int (length ps))" by simp
  then have err: "2 * \<bar>a - tot\<bar> \<le> int (length ps)" by (simp only: of_int_le_iff)
  define sig :: int where "sig = (if a < tot then 1 else -1)"
  have t: "toward sig tot a \<or> a = tot" by (simp add: toward_def sig_def)
  obtain ys where ys: "adjust_loop (nat \<bar>a - tot\<bar>) sig tot sz a = Some ys" "length ys = length sz"
    "sum_list ys = tot"
    using adjust_loop_total[OF t, of sz "nat \<bar>a - tot\<bar>"] ne a_def sz by auto
  have "list_all2 (\<lambda>y x. \<bar>y - x\<bar> \<le> 1) ys sz"
    by (rule adjust_loop_near[OF t _ ys(1)]) (use err sz in simp)
  then have near: "list_all2 (\<lambda>z p. \<bar>of_int z - p * of_int tot\<bar> \<le> (3/2 :: rat)) ys ps"
    unfolding sz list_all2_map2
  proof (rule list_all2_mono)
    fix z p assume "\<bar>z - lround (p * of_int tot)\<bar> \<le> 1"
    then have "of_int \<bar>z - lround (p * of_int tot)\<bar> \<le> (of_int 1 :: rat)" by (simp only: of_int_le_iff)
    then show "\<bar>of_int z - p * of_int tot\<bar> \<le> (3/2 :: rat)"
      using lround_near[of "p * of_int tot"] unfolding of_int_abs of_int_diff by linarith
  qed
  have "split_sizes tot ps = adjust_loop (nat \<bar>a - tot\<bar>) sig tot sz a"
    unfolding split_sizes_def Let_def sz_def[symmetric] a_def[symmetric] sig_def[symmetric]
    using err by auto
  then show thesis using that[of ys] ys near sz by simp
qed

end
