(* ===== verification/Render.thy ===== *)
theory Render
  imports Borders Render_Sizes Con_Marks
begin

text \<open>
  Rendering the tree (src/render.c): every container gets its rectangle, its decoration and its
  place in the stacking order.  \<open>render_con\<close> recurses with the fuel of its first argument; the
  functions it calls take the recursive call as the argument \<open>rec\<close>.  The rectangles are computed
  modulo \<open>2^32\<close> as in the code.
\<close>

section \<open>Parameters and insets\<close>

record render_params =
  p_x :: u32
  p_y :: u32
  deco_height :: int
  p_rect :: rect
  num_children :: nat
  sizes :: "int list"

definition raise_con :: "con_id \<Rightarrow> i3 \<Rightarrow> i3" where
  "raise_con c = emit (X_Raise_Con c)"

definition set_rect :: "con_id \<Rightarrow> rect \<Rightarrow> i3 \<Rightarrow> i3" where
  "set_rect c r = upd c (\<lambda>n. n\<lparr>con_rect := r\<rparr>)"

text \<open>Division of a C \<open>int\<close> by two truncates.\<close>

definition half :: "int \<Rightarrow> int" where
  "half n = (if n \<ge> 0 then n div 2 else - ((- n) div 2))"

definition outer_inset :: "gaps \<Rightarrow> rect" where
  "outer_inset g = mk_rect (of_int (g_left g)) (of_int (g_top g))
     (of_int (- (g_left g + g_right g))) (of_int (- (g_top g + g_bottom g)))"

text \<open>The inset of a container towards its neighbours: half the inner gap where there is one.\<close>

definition inner_inset :: "gaps \<Rightarrow> bool \<Rightarrow> bool \<Rightarrow> bool \<Rightarrow> bool \<Rightarrow> rect" where
  "inner_inset g left up right down =
     (let x = (if left then half (g_inner g) else g_inner g);
          y = (if up then half (g_inner g) else g_inner g)
      in mk_rect (of_int x) (of_int y)
           (of_int ((if right then - half (g_inner g) else - g_inner g) - x))
           (of_int ((if down then - half (g_inner g) else - g_inner g) - y)))"

text \<open>The first part of \<open>render_con\<close>: the usable rectangle, and where the children start.\<close>

definition render_gaps :: "con_id \<Rightarrow> i3 \<Rightarrow> (render_params \<times> i3) option" where
  "render_gaps c s = do {
     let n = heap s c;
     let p = \<lparr>p_x = rx (con_rect n), p_y = ry (con_rect n), deco_height = 0, p_rect = con_rect n,
              num_children = con_num_children s c, sizes = []\<rparr>;
     (p, s) \<leftarrow> (if con_type n = CT_WORKSPACE then do {
         g \<leftarrow> calculate_effective_gaps s c;
         Some (p\<lparr>p_rect := rect_add (p_rect p) (outer_inset g), p_x := p_x p + of_int (g_left g),
                 p_y := p_y p + of_int (g_top g)\<rparr>,
               set_rect c (rect_add (con_rect n) (outer_inset g)) s) }
       else Some (p, s));
     ins \<leftarrow> gaps_should_inset_con s c;
     if ins then do {
       g \<leftarrow> calculate_effective_gaps s c;
       left \<leftarrow> gaps_has_adjacent_container s c D_LEFT;
       up \<leftarrow> gaps_has_adjacent_container s c D_UP;
       right \<leftarrow> gaps_has_adjacent_container s c D_RIGHT;
       down \<leftarrow> gaps_has_adjacent_container s c D_DOWN;
       let inset = inner_inset g left up right down;
       let (p, s) = (if fullscreen_mode (heap s c) = CF_NONE
           then (p\<lparr>p_rect := rect_add (p_rect p) inset\<rparr>, set_rect c (rect_add (con_rect (heap s c)) inset) s)
           else (p, s));
       Some (p\<lparr>p_x := rx (con_rect (heap s c)), p_y := ry (con_rect (heap s c))\<rparr>, s) }
     else Some (p, s)
   }"

text \<open>The rectangle of the client window inside its container.\<close>

definition render_window :: "con_id \<Rightarrow> i3 \<Rightarrow> i3 option" where
  "render_window c s =
     (if con_window (heap s c) = None then Some s
      else do {
        let n = heap s c;
        let inset = mk_rect 0 0 (rwidth (con_rect n)) (rheight (con_rect n));
        inset \<leftarrow> (if fullscreen_mode n = CF_NONE
                  then map_option (rect_add inset) (con_border_style_rect s c) else Some inset);
        let inset = inset\<lparr>rwidth := rwidth inset - of_int (2 * border_width n),
                          rheight := rheight inset - of_int (2 * border_width n)\<rparr>;
        Some (upd c (\<lambda>n. n\<lparr>window_rect := rect_sanitize_dimensions inset\<rparr>) s) })"

section \<open>Placing the children\<close>

definition is_split_layout :: "layout \<Rightarrow> bool" where
  "is_split_layout l \<longleftrightarrow> l = L_SPLITH \<or> l = L_SPLITV"

text \<open>No array is allocated unless the container splits its space; here it is then empty.\<close>

definition precalculate_sizes :: "i3 \<Rightarrow> con_id \<Rightarrow> render_params \<Rightarrow> int list option" where
  "precalculate_sizes s c p =
     (if \<not> is_split_layout (layout (heap s c)) \<or> num_children p \<le> 0 then Some []
      else do {
        total \<leftarrow> con_rect_size_in_orientation s c;
        split_sizes (sint total) (map (\<lambda>d. percent (heap s d)) (nodes_head (heap s c))) })"

definition render_con_split :: "con_id \<Rightarrow> con_id \<Rightarrow> nat \<Rightarrow> render_params \<times> i3 \<Rightarrow> (render_params \<times> i3) option" where
  "render_con_split c d i = (\<lambda>(p, s).
     if \<not> is_split_layout (layout (heap s c)) \<or> \<not> i < length (sizes p) then None
     else
       let z = of_int (sizes p ! i);
           (r, p) = (if layout (heap s c) = L_SPLITH
                     then (mk_rect (p_x p) (p_y p) z (rheight (p_rect p)), p\<lparr>p_x := p_x p + z\<rparr>)
                     else (mk_rect (p_x p) (p_y p) (rwidth (p_rect p)) z, p\<lparr>p_y := p_y p + z\<rparr>));
           s = set_rect d r s
       in Some (p,
         if con_is_leaf s d then
           upd d (\<lambda>n. n\<lparr>deco_rect := (if con_border_style_field n = BS_NORMAL
                  then mk_rect 0 0 (rwidth r) (of_int (deco_height p)) else mk_rect 0 0 0 0)\<rparr>) s
         else s))"

text \<open>Whether a stack or tab group keeps room for title bars above the child.\<close>

definition title_room :: "render_params \<Rightarrow> con \<Rightarrow> bool" where
  "title_room p n \<longleftrightarrow> num_children p > 1 \<or>
     (con_border_style_field n \<noteq> BS_PIXEL \<and> con_border_style_field n \<noteq> BS_NONE)"

definition render_con_stacked :: "con_id \<Rightarrow> con_id \<Rightarrow> nat \<Rightarrow> render_params \<times> i3 \<Rightarrow> (render_params \<times> i3) option" where
  "render_con_stacked c d i = (\<lambda>(p, s).
     if layout (heap s c) \<noteq> L_STACKED then None
     else
       let r = p_rect p; cr = con_rect (heap s c);
           room = (if title_room p (heap s d) then of_int (deco_height p * int (num_children p)) else 0)
       in Some (p, upd d (\<lambda>n. n\<lparr>
            con_rect := mk_rect (p_x p) (p_y p + room) (rwidth r) (rheight r - room),
            deco_rect := mk_rect (p_x p - rx cr) (p_y p - ry cr + of_int (int i * deco_height p))
                           (rwidth r) (of_int (deco_height p))\<rparr>) s))"

text \<open>
  The width of a tab is computed in single precision; here the division is exact, which agrees
  for widths below \<open>2^24\<close>.  The last tab gets the remaining pixels.
\<close>

definition render_con_tabbed :: "con_id \<Rightarrow> con_id \<Rightarrow> nat \<Rightarrow> render_params \<times> i3 \<Rightarrow> (render_params \<times> i3) option" where
  "render_con_tabbed c d i = (\<lambda>(p, s).
     if layout (heap s c) \<noteq> L_TABBED then None
     else
       let r = p_rect p; cr = con_rect (heap s c);
           w = of_nat (unat (rwidth r) div num_children p);
           x = p_x p - rx cr + of_nat i * w;
           w = (if i + 1 = num_children p then rwidth r - x else w);
           room = title_room p (heap s d);
           h = of_int (deco_height p)
       in Some (p, upd d (\<lambda>n. n\<lparr>
            con_rect := (if room then mk_rect (p_x p) (p_y p + h) (rwidth r) (rheight r - h)
                         else mk_rect (p_x p) (p_y p) (rwidth r) (rheight r)),
            deco_rect := mk_rect x (p_y p - ry cr) w
              (if room then h else if con_border_style_field n = BS_PIXEL then 1 else 0)\<rparr>) s))"

definition render_con_dockarea :: "con_id \<Rightarrow> con_id \<Rightarrow> render_params \<times> i3 \<Rightarrow> (render_params \<times> i3) option" where
  "render_con_dockarea c d = (\<lambda>(p, s).
     if layout (heap s c) \<noteq> L_DOCKAREA then None
     else
       let h = rheight (con_geometry (heap s d))
       in Some (p\<lparr>p_y := p_y p + h\<rparr>, upd d (\<lambda>n. n\<lparr>
            con_rect := mk_rect (p_x p) (p_y p) (rwidth (p_rect p)) h, deco_rect := mk_rect 0 0 0 0\<rparr>) s))"

definition place_child :: "con_id \<Rightarrow> con_id \<Rightarrow> nat \<Rightarrow> render_params \<times> i3 \<Rightarrow> (render_params \<times> i3) option" where
  "place_child c d i = (\<lambda>(p, s).
     (case layout (heap s c) of
        L_SPLITH \<Rightarrow> render_con_split c d i (p, s)
      | L_SPLITV \<Rightarrow> render_con_split c d i (p, s)
      | L_STACKED \<Rightarrow> render_con_stacked c d i (p, s)
      | L_TABBED \<Rightarrow> render_con_tabbed c d i (p, s)
      | L_DOCKAREA \<Rightarrow> render_con_dockarea c d (p, s)
      | _ \<Rightarrow> Some (p, s)))"

text \<open>One iteration of the loop over the children.\<close>

definition render_child ::
  "(con_id \<Rightarrow> i3 \<Rightarrow> i3 option) \<Rightarrow> con_id \<Rightarrow> con_id \<Rightarrow> nat \<Rightarrow> render_params \<times> i3 \<Rightarrow> (render_params \<times> i3) option" where
  "render_child rec c d i ps = do {
     (p, s) \<leftarrow> place_child c d i ps;
     let s = set_rect d (rect_sanitize_dimensions (con_rect (heap s d))) s;
     s \<leftarrow> rec d (raise_con d s);
     Some (p, if is_split_layout (layout (heap s c)) \<and> con_is_leaf s d \<and>
                 con_border_style_field (heap s d) = BS_NORMAL
              then upd d (\<lambda>n. n\<lparr>deco_rect := (deco_rect n)\<lparr>rwidth := rwidth (con_rect n)\<rparr>\<rparr>) s
              else s)
   }"

fun render_children ::
  "(con_id \<Rightarrow> i3 \<Rightarrow> i3 option) \<Rightarrow> con_id \<Rightarrow> con_id list \<Rightarrow> nat \<Rightarrow> render_params \<times> i3 \<Rightarrow> (render_params \<times> i3) option" where
  "render_children rec c [] i ps = Some ps"
| "render_children rec c (d # ds) i ps =
     Option.bind (render_child rec c d i ps) (render_children rec c ds (Suc i))"

text \<open>In a stack or tab group the focused child is rendered again, and the group is raised last.\<close>

definition raise_focused :: "(con_id \<Rightarrow> i3 \<Rightarrow> i3 option) \<Rightarrow> con_id \<Rightarrow> nat \<Rightarrow> i3 \<Rightarrow> i3 option" where
  "raise_focused rec c num s =
     (if stacked_or_tabbed (layout (heap s c)) then do {
        let fo = focus_head (heap s c);
        let s = fold raise_con (rev fo) s;
        s \<leftarrow> (case fo of [] \<Rightarrow> Some s | d # _ \<Rightarrow> rec d s);
        Some (if num \<noteq> 1 then raise_con c s else s) }
      else Some s)"

section \<open>Outputs and the root\<close>

definition fullscreen_blocks_floating_render :: "i3 \<Rightarrow> con_id option \<Rightarrow> con_id \<Rightarrow> bool option" where
  "fullscreen_blocks_floating_render s fs fl =
     (case fs of None \<Rightarrow> Some False
      | Some f \<Rightarrow>
          (case cfg_popup_during_fullscreen (cfg s) of
             PDF_LEAVE_FULLSCREEN \<Rightarrow> Some True
           | PDF_IGNORE \<Rightarrow> Some True
           | PDF_SMART \<Rightarrow>
               (case con_window (heap s f) of None \<Rightarrow> Some True
                | Some w \<Rightarrow> do {
                    d \<leftarrow> con_descend_focused s fl;
                    map_option Not (con_find_transient_for_window s (Some d) (win_id w)) })
           | PDF_ALL \<Rightarrow> con_has_parent s f fl))"

definition render_floating :: "(con_id \<Rightarrow> i3 \<Rightarrow> i3 option) \<Rightarrow> con_id \<Rightarrow> i3 \<Rightarrow> i3 option" where
  "render_floating rec out s = do {
     int \<leftarrow> con_is_internal s out;
     if int then Some s
     else (case output_get_content s out of
        None \<Rightarrow> Some s
      | Some content \<Rightarrow>
          (case focus_head (heap s content) of
             [] \<Rightarrow> Some s
           | ws # _ \<Rightarrow> do {
               fs \<leftarrow> con_get_fullscreen_covering_ws s (Some ws);
               fold_opt (\<lambda>d s. do {
                   b \<leftarrow> fullscreen_blocks_floating_render s fs d;
                   if b then Some s else rec d (raise_con d s) })
                 (floating_head (heap s ws)) s })) }"

definition render_root :: "(con_id \<Rightarrow> i3 \<Rightarrow> i3 option) \<Rightarrow> con_id \<Rightarrow> con_id option \<Rightarrow> i3 \<Rightarrow> i3 option" where
  "render_root rec c fs s = do {
     s \<leftarrow> (if fs = None then fold_opt rec (nodes_head (heap s c)) s else Some s);
     fold_opt (render_floating rec) (nodes_head (heap s c)) s
   }"

text \<open>The content container of an output; a second one or another kind of child fails an assertion.\<close>

fun find_content :: "i3 \<Rightarrow> con_id list \<Rightarrow> con_id option \<Rightarrow> con_id option option" where
  "find_content s [] content = Some content"
| "find_content s (d # ds) content =
     (if con_type (heap s d) = CT_CON then (if content \<noteq> None then None else find_content s ds (Some d))
      else if con_type (heap s d) \<noteq> CT_DOCKAREA then None
      else find_content s ds content)"

text \<open>The height of a dock area is the sum of the heights of its clients.\<close>

definition dock_height :: "i3 \<Rightarrow> con_id \<Rightarrow> u32" where
  "dock_height s d = sum_list (map (\<lambda>x. rheight (con_geometry (heap s x))) (nodes_head (heap s d)))"

fun measure_docks :: "con_id list \<Rightarrow> u32 \<times> i3 \<Rightarrow> u32 \<times> i3" where
  "measure_docks [] (h, s) = (h, s)"
| "measure_docks (d # ds) (h, s) =
     (if con_type (heap s d) \<noteq> CT_DOCKAREA then measure_docks ds (h, s)
      else let z = dock_height s d
           in measure_docks ds (h - z, upd d (\<lambda>n. n\<lparr>con_rect := (con_rect n)\<lparr>rheight := z\<rparr>\<rparr>) s))"

definition place_output_child :: "u32 \<Rightarrow> u32 \<Rightarrow> u32 \<Rightarrow> u32 \<Rightarrow> con_id \<Rightarrow> i3 \<Rightarrow> i3" where
  "place_output_child x y w h d s =
     upd d (\<lambda>n. n\<lparr>con_rect := mk_rect x y w (if con_type n = CT_CON then h else rheight (con_rect n)),
                   deco_rect := mk_rect 0 0 0 0\<rparr>) s"

fun render_areas ::
  "(con_id \<Rightarrow> i3 \<Rightarrow> i3 option) \<Rightarrow> con_id \<Rightarrow> u32 \<Rightarrow> u32 \<Rightarrow> con_id list \<Rightarrow> u32 \<Rightarrow> i3 \<Rightarrow> i3 option" where
  "render_areas rec c x h [] y s = Some s"
| "render_areas rec c x h (d # ds) y s = do {
     let s = place_output_child x y (rwidth (con_rect (heap s c))) h d s;
     let y = y + rheight (con_rect (heap s d));
     s \<leftarrow> rec d (raise_con d s);
     render_areas rec c x h ds y s
   }"

definition render_output :: "(con_id \<Rightarrow> i3 \<Rightarrow> i3 option) \<Rightarrow> con_id \<Rightarrow> i3 \<Rightarrow> i3 option" where
  "render_output rec c s = do {
     let r = con_rect (heap s c);
     content \<leftarrow> find_content s (nodes_head (heap s c)) None;
     (case content of
        None \<Rightarrow> Some s
      | Some content \<Rightarrow> do {
          ws \<leftarrow> con_get_fullscreen_con s content CF_OUTPUT;
          (case ws of
             None \<Rightarrow> Some s
           | Some ws \<Rightarrow> do {
               fs \<leftarrow> con_get_fullscreen_con s ws CF_OUTPUT;
               (case fs of
                  Some f \<Rightarrow> rec f (raise_con f (set_rect f r s))
                | None \<Rightarrow> do {
                    let (h, s) = measure_docks (nodes_head (heap s c)) (rheight r, s);
                    render_areas rec c (rx r) h (nodes_head (heap s c)) (ry r) s }) }) })
   }"

section \<open>Rendering a container\<close>

text \<open>The tail of \<open>render_con\<close>, after gaps, window and fullscreen containers.\<close>

definition render_inside ::
  "(con_id \<Rightarrow> i3 \<Rightarrow> i3 option) \<Rightarrow> con_id \<Rightarrow> con_id option \<Rightarrow> render_params \<Rightarrow> i3 \<Rightarrow> i3 option" where
  "render_inside rec c fs p s = do {
     zs \<leftarrow> precalculate_sizes s c p;
     let p = p\<lparr>deco_height := render_deco_height (cfg s), sizes := zs\<rparr>;
     if layout (heap s c) = L_OUTPUT then do {
       int \<leftarrow> con_is_internal s c;
       if int then Some s else render_output rec c s }
     else if con_type (heap s c) = CT_ROOT then render_root rec c fs s
     else do {
       (p, s) \<leftarrow> render_children rec c (nodes_head (heap s c)) 0 (p, s);
       raise_focused rec c (num_children p) s } }"

fun render_con :: "nat \<Rightarrow> con_id \<Rightarrow> i3 \<Rightarrow> i3 option" where
  "render_con 0 c s = None"
| "render_con (Suc k) c s = do {
     (p, s) \<leftarrow> render_gaps c s;
     s \<leftarrow> render_window c (upd c (\<lambda>n. n\<lparr>mapped := True\<rparr>) s);
     fs \<leftarrow> (if con_type (heap s c) \<noteq> CT_OUTPUT
           then con_get_fullscreen_con s c (if con_type (heap s c) = CT_ROOT then CF_GLOBAL else CF_OUTPUT)
           else Some None);
     s \<leftarrow> (case fs of None \<Rightarrow> Some s
          | Some f \<Rightarrow> render_con k f (raise_con f (set_rect f (p_rect p) s)));
     if fs \<noteq> None \<and> con_type (heap s c) \<noteq> CT_ROOT then Some s
     else render_inside (render_con k) c fs p s
   }"

text \<open>The recursion descends in the tree, so the number of containers bounds its depth.\<close>

definition render :: "con_id \<Rightarrow> i3 \<Rightarrow> i3 option" where
  "render c s = render_con (up_fuel s) c s"

section \<open>What rendering changes\<close>

text \<open>
  Rendering a container changes nothing but the geometry of the containers in its subtree, and
  the trace of requests to the X server.
\<close>

definition geom_only :: "con_id set \<Rightarrow> i3 \<Rightarrow> i3 \<Rightarrow> bool" where
  "geom_only X s t \<longleftrightarrow> all_cons t = all_cons s \<and> next_id t = next_id s \<and> croot t = croot s \<and>
     focused t = focused s \<and> cfg t = cfg s \<and> clock t = clock s \<and>
     (\<forall>x. mask_geom (heap t x) = mask_geom (heap s x) \<and> (x \<notin> X \<longrightarrow> heap t x = heap s x))"

lemma geom_only_refl [simp]: "geom_only X s s" by (simp add: geom_only_def)

lemma geom_only_trans [trans]: "geom_only X s t \<Longrightarrow> geom_only X t u \<Longrightarrow> geom_only X s u"
  unfolding geom_only_def by metis

lemma geom_only_mono: "geom_only X s t \<Longrightarrow> X \<subseteq> Y \<Longrightarrow> geom_only Y s t"
  unfolding geom_only_def by blast

lemma geom_only_emit [simp]: "geom_only X s (emit e t) = geom_only X s t"
  by (simp add: geom_only_def)

lemma geom_only_raise [simp]: "geom_only X s (raise_con c t) = geom_only X s t"
  by (simp add: raise_con_def)

lemma geom_only_upd:
  assumes "geom_only X s t" and "c \<in> X" and "mask_geom (f (heap t c)) = mask_geom (heap t c)"
  shows "geom_only X s (upd c f t)"
  using assms by (simp add: geom_only_def)

lemma geom_only_rects: "geom_only X s t \<Longrightarrow> rects_only s t"
  by (simp add: geom_only_def rects_only_def)

lemmas geom_only_field = rects_onlyD[OF geom_only_rects]

lemma geom_only_links: "geom_only X s t \<Longrightarrow> same_links s t"
  by (rule rects_only_links[OF geom_only_rects])

lemma geom_only_tree:
  assumes "geom_only X s t"
  shows "wf_tree D t = wf_tree D s" "live t = live s" "subtree t = subtree s"
  using geom_only_links[OF assms] by (auto simp: same_links_wf same_linksD same_links_subtree)

text \<open>The property of the recursive call.\<close>

definition renders :: "(con_id \<Rightarrow> i3 \<Rightarrow> i3 option) \<Rightarrow> bool" where
  "renders rec \<longleftrightarrow> (\<forall>d s t. wf_tree {} s \<longrightarrow> d \<in> live s \<longrightarrow> rec d s = Some t \<longrightarrow> geom_only (subtree s d) s t)"

lemma rendersD:
  assumes "renders rec" "rec d s = Some t" "geom_only X s0 s" "wf_tree {} s0" "d \<in> live s0" "subtree s0 d \<subseteq> X"
  shows "geom_only X s0 t"
proof -
  have "wf_tree {} s" "d \<in> live s" using assms(4,5) geom_only_tree(1,2)[OF assms(3)] by simp_all
  then have "geom_only (subtree s d) s t" using assms(1,2) unfolding renders_def by blast
  then have "geom_only X s t" using assms(6) geom_only_tree(3)[OF assms(3)] by (simp add: geom_only_mono)
  with assms(3) show ?thesis by (rule geom_only_trans)
qed

lemma geom_only_set_rect: "geom_only X s t \<Longrightarrow> c \<in> X \<Longrightarrow> geom_only X s (set_rect c r t)"
  unfolding set_rect_def by (rule geom_only_upd) simp_all

lemma render_gaps_geom:
  "render_gaps c s = Some (p, t) \<Longrightarrow> geom_only X s0 s \<Longrightarrow> c \<in> X \<Longrightarrow> geom_only X s0 t"
  by (auto simp: render_gaps_def Let_def bind_eq_Some split: if_splits intro!: geom_only_set_rect)

lemma render_window_geom:
  "render_window c s = Some t \<Longrightarrow> geom_only X s0 s \<Longrightarrow> c \<in> X \<Longrightarrow> geom_only X s0 t"
  by (auto simp: render_window_def Let_def bind_eq_Some split: if_splits intro!: geom_only_upd)

lemma place_child_geom:
  "place_child c d i (p, s) = Some (q, t) \<Longrightarrow> geom_only X s0 s \<Longrightarrow> d \<in> X \<Longrightarrow> geom_only X s0 t"
  by (auto simp: place_child_def render_con_split_def render_con_stacked_def render_con_tabbed_def
      render_con_dockarea_def Let_def split_def split: layout.splits if_splits
      intro!: geom_only_upd geom_only_set_rect)

lemma render_child_geom:
  assumes r: "render_child rec c d i (p, s) = Some (q, t)" and rec: "renders rec"
    and g: "geom_only X s0 s" and wf: "wf_tree {} s0" and d: "d \<in> live s0" "subtree s0 d \<subseteq> X"
  shows "geom_only X s0 t"
proof -
  have dX: "d \<in> X" using d(2) by auto
  obtain p' u where u: "place_child c d i (p, s) = Some (p', u)"
    using r by (auto simp: render_child_def bind_eq_Some)
  define v where "v = raise_con d (set_rect d (rect_sanitize_dimensions (con_rect (heap u d))) u)"
  have gv: "geom_only X s0 v"
    unfolding v_def geom_only_raise by (rule geom_only_set_rect[OF place_child_geom[OF u g dX] dX])
  obtain w where w: "rec d v = Some w"
    and t: "t = (if is_split_layout (layout (heap w c)) \<and> con_is_leaf w d \<and>
                 con_border_style_field (heap w d) = BS_NORMAL
              then upd d (\<lambda>n. n\<lparr>deco_rect := (deco_rect n)\<lparr>rwidth := rwidth (con_rect n)\<rparr>\<rparr>) w
              else w)"
    using r u by (auto simp: render_child_def bind_eq_Some v_def Let_def)
  have "geom_only X s0 w" by (rule rendersD[OF rec w gv wf d])
  then show ?thesis unfolding t by (auto intro!: geom_only_upd dX)
qed

lemma render_children_geom:
  assumes "render_children rec c ds i (p, s) = Some (q, t)" and rec: "renders rec"
    and "geom_only X s0 s" and wf: "wf_tree {} s0" and "\<forall>d \<in> set ds. d \<in> live s0 \<and> subtree s0 d \<subseteq> X"
  shows "geom_only X s0 t"
  using assms(1,3,5)
proof (induction ds arbitrary: i p s)
  case (Cons d ds)
  from Cons.prems(1) obtain p' u where u: "render_child rec c d i (p, s) = Some (p', u)"
    "render_children rec c ds (Suc i) (p', u) = Some (q, t)"
    by (auto simp: bind_eq_Some)
  have "geom_only X s0 u" by (rule render_child_geom[OF u(1) rec Cons.prems(2) wf]) (use Cons.prems(3) in auto)
  then show ?case using Cons.IH[OF u(2)] Cons.prems(3) by simp
qed simp

lemma raise_focused_geom:
  assumes r: "raise_focused rec c m s = Some t" and rec: "renders rec"
    and g: "geom_only X s0 s" and wf: "wf_tree {} s0"
    and d: "\<forall>d \<in> set (focus_head (heap s0 c)). d \<in> live s0 \<and> subtree s0 d \<subseteq> X"
  shows "geom_only X s0 t"
proof -
  have fr: "geom_only X s0 (fold raise_con xs u) = geom_only X s0 u" for xs u
    by (induction xs arbitrary: u) simp_all
  have fo: "focus_head (heap s c) = focus_head (heap s0 c)" by (rule geom_only_field(9)[OF g])
  show ?thesis
  proof (cases "stacked_or_tabbed (layout (heap s c))")
    case True
    show ?thesis
    proof (cases "focus_head (heap s c)")
      case Nil
      with True r g show ?thesis by (auto simp: raise_focused_def Let_def split: if_splits)
    next
      case (Cons x xs)
      then obtain u where u: "rec x (fold raise_con (rev (x # xs)) s) = Some u"
        "t = (if m \<noteq> 1 then raise_con c u else u)"
        using True r by (auto simp: raise_focused_def Let_def bind_eq_Some)
      have "geom_only X s0 u"
        by (rule rendersD[OF rec u(1) _ wf]) (use g Cons d fo in \<open>auto simp: fr simp del: fold_simps\<close>)
      then show ?thesis unfolding u(2) by simp
    qed
  qed (use r g in \<open>simp add: raise_focused_def\<close>)
qed

text \<open>The containers of a subtree and the queries that stay inside it.\<close>

definition closed_below :: "i3 \<Rightarrow> con_id set \<Rightarrow> bool" where
  "closed_below s X \<longleftrightarrow> (\<forall>y \<in> X. y \<in> live s \<and> subtree s y \<subseteq> X)"

lemma closed_subtree:
  assumes "wf_tree {} s" "c \<in> live s" shows "closed_below s (subtree s c)"
proof -
  have "subtree s y \<subseteq> subtree s c" if "y \<in> subtree s c" for y
    using that by (auto simp: subtree_def)
  then show ?thesis using subtree_live[OF assms] by (auto simp: closed_below_def)
qed

lemma closed_below_geom: "geom_only Y s t \<Longrightarrow> closed_below t X = closed_below s X"
  by (simp add: closed_below_def geom_only_tree)

lemma closed_children:
  assumes "closed_below s X" "y \<in> X" shows "children s y \<subseteq> X"
proof -
  have "children s y \<subseteq> subtree s y"
    using assms subtree_unfold[of y s] by (auto simp: closed_below_def)
  then show ?thesis using assms by (auto simp: closed_below_def)
qed

lemma closed_focus:
  assumes "wf_tree {} s" "closed_below s X" "y \<in> X" shows "set (focus_head (heap s y)) \<subseteq> X"
proof -
  have "set (focus_head (heap s y)) = children s y"
    using wf_conD(4)[OF wf_treeD(7)[OF assms(1)]] assms(2,3) by (simp add: closed_below_def)
  with closed_children[OF assms(2,3)] show ?thesis by simp
qed

lemma closed_nodes:
  assumes "closed_below s X" "y \<in> X"
  shows "set (nodes_head (heap s y)) \<subseteq> X" "set (floating_head (heap s y)) \<subseteq> X"
  using closed_children[OF assms] by (auto simp: children_def)

lemma closed_fullscreen:
  assumes "wf_tree {} s" "closed_below s X" "y \<in> X" "con_get_fullscreen_con s y m = Some (Some f)"
  shows "f \<in> X" "f \<in> subtree s y - {y}"
proof -
  have y: "y \<in> live s" using assms(2,3) by (simp add: closed_below_def)
  show f: "f \<in> subtree s y - {y}" using con_get_fullscreen_con_spec[OF assms(1) y, of m] assms(4) by auto
  then show "f \<in> X" using assms(2,3) by (auto simp: closed_below_def)
qed

lemma closed_content:
  assumes "closed_below s X" "out \<in> X" "output_get_content s out = Some d"
  shows "d \<in> X"
  using find_SomeD[OF assms(3)[unfolded output_get_content_def]] closed_nodes(1)[OF assms(1,2)] by blast

text \<open>A state reached while the subtree is rendered.\<close>

definition rendering :: "con_id set \<Rightarrow> i3 \<Rightarrow> i3 \<Rightarrow> bool" where
  "rendering X s0 s \<longleftrightarrow> wf_tree {} s0 \<and> closed_below s0 X \<and> geom_only X s0 s"

lemma renderingD:
  assumes "rendering X s0 s"
  shows "geom_only X s0 s" "wf_tree {} s" "closed_below s X" "wf_tree {} s0" "closed_below s0 X"
  using assms by (auto simp: rendering_def geom_only_tree closed_below_geom)

lemma rendering_rec:
  assumes "renders rec" "rec d s = Some t" "rendering X s0 s" "d \<in> X"
  shows "rendering X s0 t"
proof -
  note r = renderingD[OF assms(3)]
  have "geom_only X s0 t"
    by (rule rendersD[OF assms(1,2) r(1,4)]) (use assms(4) r(5) in \<open>auto simp: closed_below_def\<close>)
  with r(4,5) show ?thesis by (simp add: rendering_def)
qed

lemma rendering_kids:
  assumes "rendering X s0 s" "c \<in> live s0" "children s0 c \<subseteq> X"
  shows "set (nodes_head (heap s c)) \<subseteq> X" "set (focus_head (heap s c)) \<subseteq> X"
proof -
  note r = renderingD[OF assms(1)]
  have "children s c = children s0 c" using same_linksD(11)[OF geom_only_links[OF r(1)]] by simp
  moreover have "set (focus_head (heap s c)) = children s c"
    using wf_conD(4)[OF wf_treeD(7)[OF r(2)]] assms(2) geom_only_tree(2)[OF r(1)] by simp
  ultimately show "set (nodes_head (heap s c)) \<subseteq> X" "set (focus_head (heap s c)) \<subseteq> X"
    using assms(3) by (auto simp: children_def)
qed

lemma rendering_raise [simp]: "rendering X s0 (raise_con c s) = rendering X s0 s"
  by (simp add: rendering_def)

lemma rendering_geom: "rendering X s0 s \<Longrightarrow> (geom_only X s0 s \<Longrightarrow> geom_only X s0 t) \<Longrightarrow> rendering X s0 t"
  by (simp add: rendering_def)

lemma rendering_set_rect: "rendering X s0 s \<Longrightarrow> c \<in> X \<Longrightarrow> rendering X s0 (set_rect c r s)"
  by (erule rendering_geom) (rule geom_only_set_rect)

lemma render_floating_rendering:
  assumes r: "render_floating rec out s = Some t" and rec: "renders rec"
    and g: "rendering X s0 s" and out: "out \<in> X"
  shows "rendering X s0 t"
proof -
  note w = renderingD[OF g]
  consider "t = s" | content ws fs where "output_get_content s out = Some content"
      "ws \<in> set (focus_head (heap s content))"
      "fold_opt (\<lambda>d s. do { b \<leftarrow> fullscreen_blocks_floating_render s fs d;
                   if b then Some s else rec d (raise_con d s) }) (floating_head (heap s ws)) s = Some t"
  proof (cases "con_is_internal s out")
    case (Some i)
    show thesis
    proof (cases "output_get_content s out")
      case None
      then show thesis using r Some by (intro that(1)) (simp add: render_floating_def split: if_splits)
    next
      case (Some content)
      show thesis
      proof (cases "focus_head (heap s content)")
        case Nil
        then show thesis using r Some \<open>con_is_internal s out = Some i\<close>
          by (intro that(1)) (simp add: render_floating_def split: if_splits)
      next
        case (Cons ws xs)
        show thesis
        proof (cases i)
          case True
          then show thesis using r \<open>con_is_internal s out = Some i\<close>
            by (intro that(1)) (simp add: render_floating_def)
        next
          case False
          obtain fs where "con_get_fullscreen_covering_ws s (Some ws) = Some fs"
            using r Some Cons False \<open>con_is_internal s out = Some i\<close>
            by (auto simp: render_floating_def bind_eq_Some)
          then show thesis using r Some Cons False \<open>con_is_internal s out = Some i\<close>
            by (intro that(2)[OF Some, of ws fs]) (simp_all add: render_floating_def)
        qed
      qed
    qed
  qed (use r in \<open>simp add: render_floating_def\<close>)
  then show ?thesis
  proof cases
    case 2
    have "content \<in> X" by (rule closed_content[OF w(3) out 2(1)])
    then have "ws \<in> X" using closed_focus[OF w(2,3)] 2(2) by blast
    then have fl: "set (floating_head (heap s ws)) \<subseteq> X" by (rule closed_nodes(2)[OF w(3)])
    show ?thesis
    proof (rule fold_opt_invariant[OF 2(3), where P = "rendering X s0"])
      show "rendering X s0 s" by (rule g)
      fix d u v
      assume d: "d \<in> set (floating_head (heap s ws))" and u: "rendering X s0 u"
        and v: "do { b \<leftarrow> fullscreen_blocks_floating_render u fs d;
                   if b then Some u else rec d (raise_con d u) } = Some v"
      have "d \<in> X" using d fl by blast
      with u v show "rendering X s0 v"
        by (auto simp: bind_eq_Some split: if_splits intro: rendering_rec[OF rec])
    qed
  qed (use g in simp)
qed

lemma render_root_rendering:
  assumes r: "render_root rec c fs s = Some t" and rec: "renders rec"
    and g: "rendering X s0 s" and c: "c \<in> live s0" "children s0 c \<subseteq> X"
  shows "rendering X s0 t"
proof -
  obtain u where u: "(if fs = None then fold_opt rec (nodes_head (heap s c)) s else Some s) = Some u"
    "fold_opt (render_floating rec) (nodes_head (heap u c)) u = Some t"
    using r by (auto simp: render_root_def bind_eq_Some)
  have "set (nodes_head (heap s c)) \<subseteq> X" by (rule rendering_kids(1)[OF g c])
  note nX = this
  have "rendering X s0 u"
  proof (cases "fs = None")
    case True
    then have f: "fold_opt rec (nodes_head (heap s c)) s = Some u" using u(1) by simp
    show ?thesis
      by (rule fold_opt_invariant[OF f, where P = "rendering X s0", OF g])
        (rule rendering_rec[OF rec], assumption, assumption, use nX in blast)
  qed (use u(1) g in auto)
  then show ?thesis
  proof (rule fold_opt_invariant[OF u(2)])
    fix d v w assume "d \<in> set (nodes_head (heap u c))" "rendering X s0 v" "render_floating rec d v = Some w"
    moreover have "set (nodes_head (heap u c)) \<subseteq> X"
      by (rule rendering_kids(1)[OF \<open>rendering X s0 u\<close> c])
    ultimately show "rendering X s0 w" using render_floating_rendering[OF _ rec] by blast
  qed
qed

lemma measure_docks_rendering:
  assumes "rendering X s0 s" "set ds \<subseteq> X" shows "rendering X s0 (snd (measure_docks ds (h, s)))"
  using assms
proof (induction ds arbitrary: h s)
  case (Cons d ds)
  show ?case
  proof (cases "con_type (heap s d) = CT_DOCKAREA")
    case True
    have "rendering X s0 (upd d (\<lambda>n. n\<lparr>con_rect := (con_rect n)\<lparr>rheight := dock_height s d\<rparr>\<rparr>) s)"
      by (rule rendering_geom[OF Cons.prems(1)], rule geom_only_upd) (use Cons.prems in auto)
    then show ?thesis using Cons True by (simp add: Let_def)
  qed (use Cons in simp)
qed simp

lemma render_areas_rendering:
  assumes "render_areas rec c x h ds y s = Some t" and rec: "renders rec"
    and "rendering X s0 s" "set ds \<subseteq> X"
  shows "rendering X s0 t"
  using assms(1,3,4)
proof (induction ds arbitrary: y s)
  case (Cons d ds)
  define u where "u = place_output_child x y (rwidth (con_rect (heap s c))) h d s"
  obtain v where v: "rec d (raise_con d u) = Some v"
    "render_areas rec c x h ds (y + rheight (con_rect (heap u d))) v = Some t"
    using Cons.prems(1) by (auto simp: bind_eq_Some Let_def u_def)
  have "rendering X s0 u"
    unfolding u_def place_output_child_def
    by (rule rendering_geom[OF Cons.prems(2)], rule geom_only_upd) (use Cons.prems(3) in \<open>auto simp: mask_geom_def\<close>)
  then have "rendering X s0 v" using Cons.prems(3) by (auto intro: rendering_rec[OF rec v(1)])
  with Cons.IH[OF v(2)] Cons.prems(3) show ?case by simp
qed simp

lemma find_content_in: "find_content s ds r = Some (Some d) \<Longrightarrow> r = Some d \<or> d \<in> set ds"
  by (induction ds arbitrary: r) (auto split: if_splits)

lemma render_output_rendering:
  assumes r: "render_output rec c s = Some t" and rec: "renders rec"
    and g: "rendering X s0 s" and c: "c \<in> live s0" "children s0 c \<subseteq> X"
  shows "rendering X s0 t"
proof -
  note w = renderingD[OF g]
  have nX: "set (nodes_head (heap s c)) \<subseteq> X" by (rule rendering_kids(1)[OF g c])
  consider "t = s"
    | content ws f where "find_content s (nodes_head (heap s c)) None = Some (Some content)"
      "con_get_fullscreen_con s content CF_OUTPUT = Some (Some ws)"
      "con_get_fullscreen_con s ws CF_OUTPUT = Some (Some f)"
      "rec f (raise_con f (set_rect f (con_rect (heap s c)) s)) = Some t"
    | h u where "measure_docks (nodes_head (heap s c)) (rheight (con_rect (heap s c)), s) = (h, u)"
      "render_areas rec c (rx (con_rect (heap s c))) h (nodes_head (heap u c)) (ry (con_rect (heap s c))) u = Some t"
    using r by (auto simp: render_output_def bind_eq_Some Let_def split: option.splits prod.splits)
  then show ?thesis
  proof cases
    case 2
    have "content \<in> X" using find_content_in[OF 2(1)] nX by auto
    then have "ws \<in> X" by (rule closed_fullscreen(1)[OF w(2,3) _ 2(2)])
    then have f: "f \<in> X" by (rule closed_fullscreen(1)[OF w(2,3) _ 2(3)])
    show ?thesis
      by (rule rendering_rec[OF rec 2(4)]) (use f rendering_set_rect[OF g f] in simp_all)
  next
    case 3
    have u: "rendering X s0 u" using measure_docks_rendering[OF g nX] 3(1) by (metis snd_conv)
    show ?thesis
      by (rule render_areas_rendering[OF 3(2) rec u rendering_kids(1)[OF u c]])
  qed (use g in simp)
qed

lemma render_con_cases:
  assumes "render_con (Suc k) c s = Some t"
  obtains p u v fs w where "render_gaps c s = Some (p, u)"
    "render_window c (upd c (\<lambda>n. n\<lparr>mapped := True\<rparr>) u) = Some v"
    "(if con_type (heap v c) \<noteq> CT_OUTPUT
      then con_get_fullscreen_con v c (if con_type (heap v c) = CT_ROOT then CF_GLOBAL else CF_OUTPUT)
      else Some None) = Some fs"
    "(case fs of None \<Rightarrow> Some v
      | Some f \<Rightarrow> render_con k f (raise_con f (set_rect f (p_rect p) v))) = Some w"
    "(if fs \<noteq> None \<and> con_type (heap w c) \<noteq> CT_ROOT then Some w
      else render_inside (render_con k) c fs p w) = Some t"
proof -
  obtain p u where pu: "render_gaps c s = Some (p, u)" using assms by (auto simp: bind_eq_Some)
  obtain v where v: "render_window c (upd c (\<lambda>n. n\<lparr>mapped := True\<rparr>) u) = Some v"
    using assms pu by (auto simp: bind_eq_Some)
  obtain fs where fs: "(if con_type (heap v c) \<noteq> CT_OUTPUT
      then con_get_fullscreen_con v c (if con_type (heap v c) = CT_ROOT then CF_GLOBAL else CF_OUTPUT)
      else Some None) = Some fs"
    using assms unfolding render_con.simps pu v bind.bind_lunit prod.case by (rule bind_SomeE)
  obtain w where w: "(case fs of None \<Rightarrow> Some v
      | Some f \<Rightarrow> render_con k f (raise_con f (set_rect f (p_rect p) v))) = Some w"
    using assms unfolding render_con.simps pu v fs bind.bind_lunit prod.case by (rule bind_SomeE)
  have "(if fs \<noteq> None \<and> con_type (heap w c) \<noteq> CT_ROOT then Some w
      else render_inside (render_con k) c fs p w) = Some t"
    using assms unfolding render_con.simps pu v fs w bind.bind_lunit prod.case .
  with pu v fs w show thesis by (rule that)
qed

lemma render_inside_rendering:
  assumes r: "render_inside rec c fs p s = Some t" and rec: "renders rec"
    and g: "rendering X s0 s" and c: "c \<in> live s0" "children s0 c \<subseteq> X"
  shows "rendering X s0 t"
proof -
  note w = renderingD[OF g]
  have g0: "rendering X s0 s0" using w(4,5) by (simp add: rendering_def)
  have live: "d \<in> live s0 \<and> subtree s0 d \<subseteq> X" if "d \<in> X" for d
    using that w(5) by (simp add: closed_below_def)
  obtain zs where zs: "precalculate_sizes s c p = Some zs" using r by (auto simp: render_inside_def bind_eq_Some)
  define q where "q = p\<lparr>deco_height := render_deco_height (cfg s), sizes := zs\<rparr>"
  show ?thesis
  proof (cases "layout (heap s c) = L_OUTPUT")
    case True
    then consider "t = s" | "render_output rec c s = Some t"
      using r zs by (auto simp: render_inside_def bind_eq_Some split: if_splits)
    then show ?thesis using g by cases (auto intro: render_output_rendering[OF _ rec g c])
  next
    case nl: False
    show ?thesis
    proof (cases "con_type (heap s c) = CT_ROOT")
      case True
      then have "render_root rec c fs s = Some t" using r zs nl by (simp add: render_inside_def)
      then show ?thesis by (rule render_root_rendering[OF _ rec g c])
    next
      case False
      then obtain p' u where u: "render_children rec c (nodes_head (heap s c)) 0 (q, s) = Some (p', u)"
        "raise_focused rec c (num_children p') u = Some t"
        using r zs nl by (auto simp: render_inside_def bind_eq_Some q_def)
      have "geom_only X s0 u"
        by (rule render_children_geom[OF u(1) rec w(1,4)]) (use rendering_kids(1)[OF g c] live in blast)
      then have "geom_only X s0 t"
        by (rule raise_focused_geom[OF u(2) rec _ w(4)]) (use rendering_kids(2)[OF g0 c] live in blast)
      then show ?thesis using w(4,5) by (simp add: rendering_def)
    qed
  qed
qed

lemma render_con_renders: "renders (render_con k)"
proof (induction k)
  case 0
  show ?case by (simp add: renders_def)
next
  case (Suc k)
  show ?case
    unfolding renders_def
  proof (intro allI impI)
    fix c s t assume wf: "wf_tree {} s" and c: "c \<in> live s" and r: "render_con (Suc k) c s = Some t"
    let ?X = "subtree s c"
    have cX: "c \<in> ?X" by simp
    have kX: "children s c \<subseteq> ?X" by (rule closed_children[OF closed_subtree[OF wf c] cX])
    have g0: "rendering ?X s s" using wf closed_subtree[OF wf c] by (simp add: rendering_def)
    obtain p u v fs w where s: "render_gaps c s = Some (p, u)"
      "render_window c (upd c (\<lambda>n. n\<lparr>mapped := True\<rparr>) u) = Some v"
      "(if con_type (heap v c) \<noteq> CT_OUTPUT
        then con_get_fullscreen_con v c (if con_type (heap v c) = CT_ROOT then CF_GLOBAL else CF_OUTPUT)
        else Some None) = Some fs"
      "(case fs of None \<Rightarrow> Some v
        | Some f \<Rightarrow> render_con k f (raise_con f (set_rect f (p_rect p) v))) = Some w"
      "(if fs \<noteq> None \<and> con_type (heap w c) \<noteq> CT_ROOT then Some w
        else render_inside (render_con k) c fs p w) = Some t"
      by (rule render_con_cases[OF r])
    have "geom_only ?X s u" by (rule render_gaps_geom[OF s(1) geom_only_refl cX])
    then have "geom_only ?X s (upd c (\<lambda>n. n\<lparr>mapped := True\<rparr>) u)" by (rule geom_only_upd) simp_all
    then have "geom_only ?X s v" by (rule render_window_geom[OF s(2) _ cX])
    then have gv: "rendering ?X s v" using g0 by (simp add: rendering_def)
    note wv = renderingD[OF gv]
    have gw: "rendering ?X s w"
    proof (cases fs)
      case (Some f)
      have f: "f \<in> ?X"
        using s(3) Some by (auto split: if_splits intro: closed_fullscreen(1)[OF wv(2,3) cX])
      show ?thesis
        by (rule rendering_rec[OF Suc.IH]) (use s(4) Some f rendering_set_rect[OF gv f] in auto)
    qed (use s(4) gv in simp)
    have "rendering ?X s t"
    proof (cases "fs \<noteq> None \<and> con_type (heap w c) \<noteq> CT_ROOT")
      case False
      then have "render_inside (render_con k) c fs p w = Some t" using s(5) by auto
      then show ?thesis by (rule render_inside_rendering[OF _ Suc.IH gw c kX])
    qed (use s(5) gw in simp)
    then show "geom_only ?X s t" by (simp add: rendering_def)
  qed
qed

text \<open>Rendering a container leaves everything outside its subtree, and every link, as it was.\<close>

lemma render_con_frame:
  assumes "render_con k c s = Some t" "wf_tree {} s" "c \<in> live s"
  shows "geom_only (subtree s c) s t" "wf_tree {} t"
    "x \<notin> subtree s c \<Longrightarrow> heap t x = heap s x"
proof -
  show g: "geom_only (subtree s c) s t" using render_con_renders assms by (auto simp: renders_def)
  show "wf_tree {} t" using geom_only_tree(1)[OF g] assms(2) by simp
  show "x \<notin> subtree s c \<Longrightarrow> heap t x = heap s x" using g by (simp add: geom_only_def)
qed

section \<open>Split containers are tiled\<close>

text \<open>Without gaps the rectangle of a container is not changed by rendering it.\<close>

definition gapless :: "i3 \<Rightarrow> con_id \<Rightarrow> bool" where
  "gapless s c \<longleftrightarrow> calculate_effective_gaps s c = Some no_gaps"

lemma gapless_geom: "geom_only X s t \<Longrightarrow> gapless t c = gapless s c"
  unfolding gapless_def by (simp add: rects_only_gaps[OF geom_only_rects])

lemma zero_insets: "outer_inset no_gaps = mk_rect 0 0 0 0" "inner_inset no_gaps a b d e = mk_rect 0 0 0 0"
  "rect_add r (mk_rect 0 0 0 0) = r"
  by (auto simp: outer_inset_def inner_inset_def no_gaps_def half_def rect_add_def intro!: rect_eqI)

lemma set_rect_same [simp]: "set_rect c (con_rect (heap s c)) s = s"
  by (simp add: set_rect_def upd_def)

lemma render_gaps_gapless:
  assumes r: "render_gaps c s = Some (p, t)" and "gapless s c"
  shows "t = s" "p = \<lparr>p_x = rx (con_rect (heap s c)), p_y = ry (con_rect (heap s c)), deco_height = 0,
    p_rect = con_rect (heap s c), num_children = con_num_children s c, sizes = []\<rparr>"
proof -
  let ?p = "\<lparr>p_x = rx (con_rect (heap s c)), p_y = ry (con_rect (heap s c)), deco_height = 0,
    p_rect = con_rect (heap s c), num_children = con_num_children s c, sizes = []\<rparr>"
  have g: "calculate_effective_gaps s c = Some no_gaps" using assms(2) by (simp add: gapless_def)
  have ng: "g_left no_gaps = 0" "g_top no_gaps = 0" by (simp_all add: no_gaps_def)
  have "(p, t) = (?p, s)"
  proof (cases "con_type (heap s c) = CT_WORKSPACE")
    case True
    with r show ?thesis
      by (auto simp: render_gaps_def Let_def g zero_insets ng bind_eq_Some split: if_splits)
  next
    case False
    with r show ?thesis
      by (auto simp: render_gaps_def Let_def g zero_insets ng bind_eq_Some split: if_splits)
  qed
  then show "t = s" "p = ?p" by simp_all
qed

lemma render_window_rect: "render_window c s = Some t \<Longrightarrow> con_rect (heap t x) = con_rect (heap s x)"
  by (auto simp: render_window_def Let_def bind_eq_Some split: if_splits)

lemma closed_strict:
  assumes wf: "wf_tree {} s" and c: "c \<in> live s"
  shows "closed_below s (subtree s c - {c})" "children s c \<subseteq> subtree s c - {c}"
proof -
  note st = strict_subtree_children[OF wf c]
  have "closed_below s (subtree s d)" if "d \<in> children s c" for d
    by (rule closed_subtree[OF wf]) (use wf_conD(5)[OF wf_treeD(7)[OF wf c] that] in simp)
  then show "closed_below s (subtree s c - {c})" unfolding st by (fastforce simp: closed_below_def)
  show "children s c \<subseteq> subtree s c - {c}" unfolding st by auto
qed

lemma render_con_keeps_rect:
  assumes r: "render_con k c s = Some t" and wf: "wf_tree {} s" and c: "c \<in> live s" and gl: "gapless s c"
  shows "con_rect (heap t c) = con_rect (heap s c)"
proof -
  obtain j where k: "k = Suc j" using r by (cases k) auto
  obtain p u v fs w where st: "render_gaps c s = Some (p, u)"
    "render_window c (upd c (\<lambda>n. n\<lparr>mapped := True\<rparr>) u) = Some v"
    "(if con_type (heap v c) \<noteq> CT_OUTPUT
      then con_get_fullscreen_con v c (if con_type (heap v c) = CT_ROOT then CF_GLOBAL else CF_OUTPUT)
      else Some None) = Some fs"
    "(case fs of None \<Rightarrow> Some v
      | Some f \<Rightarrow> render_con j f (raise_con f (set_rect f (p_rect p) v))) = Some w"
    "(if fs \<noteq> None \<and> con_type (heap w c) \<noteq> CT_ROOT then Some w
      else render_inside (render_con j) c fs p w) = Some t"
    by (rule render_con_cases[OF r[unfolded k]])
  have us: "u = s" by (rule render_gaps_gapless(1)[OF st(1) gl])
  have rv: "con_rect (heap v c) = con_rect (heap s c)" using render_window_rect[OF st(2)] us by simp
  have "geom_only {c} s (upd c (\<lambda>n. n\<lparr>mapped := True\<rparr>) u)" unfolding us by (rule geom_only_upd) simp_all
  then have gv: "geom_only {c} s v" by (rule render_window_geom[OF st(2)]) simp
  note tr = geom_only_tree[OF gv]
  have wfv: "wf_tree {} v" and cv: "c \<in> live v" using tr wf c by simp_all
  let ?X = "subtree v c - {c}"
  note cl = closed_strict[OF wfv cv]
  have g0: "rendering ?X v v" using wfv cl(1) by (simp add: rendering_def)
  have gw: "rendering ?X v w"
  proof (cases fs)
    case (Some f)
    have f: "f \<in> subtree v c - {c}"
      using st(3) Some closed_fullscreen(2)[OF wfv closed_subtree[OF wfv cv] subtree_self, of _ f]
      by (auto split: if_splits)
    have "render_con j f (raise_con f (set_rect f (p_rect p) v)) = Some w" using st(4) Some by simp
    then show ?thesis
      by (rule rendering_rec[OF render_con_renders]) (use rendering_set_rect[OF g0 f] f in simp_all)
  qed (use st(4) g0 in simp)
  have "rendering ?X v t"
  proof (cases "fs \<noteq> None \<and> con_type (heap w c) \<noteq> CT_ROOT")
    case False
    then have "render_inside (render_con j) c fs p w = Some t" using st(5) by auto
    then show ?thesis by (rule render_inside_rendering[OF _ render_con_renders gw cv cl(2)])
  qed (use st(5) gw in simp)
  then have "heap t c = heap v c" unfolding rendering_def geom_only_def by blast
  then show ?thesis using rv by simp
qed

text \<open>The part of a rectangle at an offset along the direction of a split.\<close>

definition slice :: "layout \<Rightarrow> rect \<Rightarrow> int \<Rightarrow> int \<Rightarrow> rect" where
  "slice l r off z =
     (if l = L_SPLITH then mk_rect (rx r + of_int off) (ry r) (of_int z) (rheight r)
      else mk_rect (rx r) (ry r + of_int off) (rwidth r) (of_int z))"

definition extent :: "layout \<Rightarrow> rect \<Rightarrow> int" where
  "extent l r = sint (if l = L_SPLITH then rwidth r else rheight r)"

definition params_at :: "layout \<Rightarrow> rect \<Rightarrow> int \<Rightarrow> render_params \<Rightarrow> bool" where
  "params_at l r off p \<longleftrightarrow> p_rect p = r \<and>
     p_x p = (if l = L_SPLITH then rx r + of_int off else rx r) \<and>
     p_y p = (if l = L_SPLITH then ry r else ry r + of_int off)"

lemma place_child_split:
  assumes "place_child c d i (p, s) = Some (q, t)" and l: "layout (heap s c) = l" "is_split_layout l"
    and "params_at l r off p"
  shows "con_rect (heap t d) = slice l r off (sizes p ! i)" "params_at l r (off + sizes p ! i) q"
    "sizes q = sizes p" "i < length (sizes p)"
proof -
  have "render_con_split c d i (p, s) = Some (q, t)"
    using assms(1) l by (auto simp: place_child_def is_split_layout_def)
  then have il: "i < length (sizes p)"
    and q: "q = (if l = L_SPLITH then p\<lparr>p_x := p_x p + of_int (sizes p ! i)\<rparr>
                  else p\<lparr>p_y := p_y p + of_int (sizes p ! i)\<rparr>)"
    and t: "con_rect (heap t d) = (if l = L_SPLITH then mk_rect (p_x p) (p_y p) (of_int (sizes p ! i)) (rheight (p_rect p))
                  else mk_rect (p_x p) (p_y p) (rwidth (p_rect p)) (of_int (sizes p ! i)))"
    using l by (auto simp: render_con_split_def Let_def set_rect_def split: if_splits)
  show "i < length (sizes p)" by (fact il)
  show "sizes q = sizes p" unfolding q by simp
  show "con_rect (heap t d) = slice l r off (sizes p ! i)"
    using assms(4) unfolding t params_at_def slice_def by auto
  show "params_at l r (off + sizes p ! i) q"
    using assms(4) unfolding q params_at_def by (auto simp: algebra_simps)
qed

text \<open>What the loop needs of the recursive call: the frame, and unchanged rectangles without gaps.\<close>

definition keeps_rects :: "(con_id \<Rightarrow> i3 \<Rightarrow> i3 option) \<Rightarrow> bool" where
  "keeps_rects rec \<longleftrightarrow> (\<forall>d s t. wf_tree {} s \<longrightarrow> d \<in> live s \<longrightarrow> gapless s d \<longrightarrow> rec d s = Some t \<longrightarrow>
     con_rect (heap t d) = con_rect (heap s d))"

lemma render_con_keeps_rects: "keeps_rects (render_con k)"
  by (auto simp: keeps_rects_def render_con_keeps_rect)

lemma render_child_split:
  assumes r: "render_child rec c d i (p, s) = Some (q, t)" and rec: "renders rec" "keeps_rects rec"
    and wf: "wf_tree {} s" and d: "d \<in> live s" "gapless s d"
    and l: "layout (heap s c) = l" "is_split_layout l" and p: "params_at l r off p"
  shows "con_rect (heap t d) = rect_sanitize_dimensions (slice l r off (sizes p ! i))"
    "params_at l r (off + sizes p ! i) q" "sizes q = sizes p" "geom_only (subtree s d) s t"
proof -
  obtain p' u where u: "place_child c d i (p, s) = Some (p', u)"
    using r by (auto simp: render_child_def bind_eq_Some)
  note pl = place_child_split[OF u l p]
  define v where "v = raise_con d (set_rect d (rect_sanitize_dimensions (con_rect (heap u d))) u)"
  obtain w where w: "rec d v = Some w" and q: "q = p'"
    and t: "t = (if is_split_layout (layout (heap w c)) \<and> con_is_leaf w d \<and>
                 con_border_style_field (heap w d) = BS_NORMAL
              then upd d (\<lambda>n. n\<lparr>deco_rect := (deco_rect n)\<lparr>rwidth := rwidth (con_rect n)\<rparr>\<rparr>) w
              else w)"
    using r u by (auto simp: render_child_def bind_eq_Some v_def Let_def)
  have gu: "geom_only {d} s u" by (rule place_child_geom[OF u geom_only_refl]) simp
  then have gv: "geom_only {d} s v"
    unfolding v_def geom_only_raise by (rule geom_only_set_rect) simp
  have rv: "con_rect (heap v d) = rect_sanitize_dimensions (slice l r off (sizes p ! i))"
    using pl(1) by (simp add: v_def raise_con_def set_rect_def)
  have "wf_tree {} v" "d \<in> live v" "gapless v d"
    using wf d geom_only_tree[OF gv] gapless_geom[OF gv] by simp_all
  then have "con_rect (heap w d) = con_rect (heap v d)" using rec(2) w unfolding keeps_rects_def by blast
  then show "con_rect (heap t d) = rect_sanitize_dimensions (slice l r off (sizes p ! i))"
    unfolding t rv[symmetric] by simp
  show "params_at l r (off + sizes p ! i) q" "sizes q = sizes p" using pl q by simp_all
  show "geom_only (subtree s d) s t"
    by (rule render_child_geom[OF r rec(1) geom_only_refl wf d(1) subset_refl])
qed

lemma render_children_split:
  assumes "render_children rec c ds i (p, s) = Some (q, t)" and rec: "renders rec" "keeps_rects rec"
    and "wf_tree {} s" "c \<in> live s" and "set ds \<subseteq> set (nodes_head (heap s c))" "distinct ds"
    and "\<forall>d \<in> set ds. gapless s d"
    and "layout (heap s c) = l" and l: "is_split_layout l" and "params_at l r off p"
    and "j < length ds"
  shows "con_rect (heap t (ds ! j)) =
    rect_sanitize_dimensions (slice l r (off + sum_list (take j (drop i (sizes p)))) (sizes p ! (i + j)))"
  using assms(1,4-9,11,12)
proof (induction ds arbitrary: i p s off j)
  case (Cons d ds)
  obtain p' u where u: "render_child rec c d i (p, s) = Some (p', u)"
    "render_children rec c ds (Suc i) (p', u) = Some (q, t)"
    using Cons.prems(1) by (auto simp: bind_eq_Some)
  have cd: "(x, c) \<in> child_rel s" if "x \<in> set (d # ds)" for x
    using that Cons.prems(3,4) by (auto simp: child_rel_def children_def)
  have dl: "x \<in> live s" if "x \<in> set (d # ds)" for x
    using wf_conD(5)[OF wf_treeD(7)[OF Cons.prems(2,3)], of x] that Cons.prems(4) by (auto simp: children_def)
  have gd: "gapless s d" using Cons.prems(6) by simp
  note rc = render_child_split[OF u(1) rec Cons.prems(2) dl gd Cons.prems(7) l Cons.prems(8)]
  have rc4: "geom_only (subtree s d) s u" by (rule rc(4)) simp
  note tr = geom_only_tree[OF rc4] and fd = geom_only_field[OF rc4]
  have rest: "wf_tree {} u" "c \<in> live u" "set ds \<subseteq> set (nodes_head (heap u c))" "distinct ds"
    "\<forall>d \<in> set ds. gapless u d" "layout (heap u c) = l"
    using Cons.prems tr fd gapless_geom[OF rc4] by auto
  have pu: "params_at l r (off + sizes p ! i) p'" "sizes p' = sizes p"
    by (rule rc(2), simp) (rule rc(3), simp)
  have il: "i < length (sizes p)"
  proof -
    obtain x y where "place_child c d i (p, s) = Some (x, y)"
      using u(1) by (auto simp: render_child_def bind_eq_Some)
    then show ?thesis by (rule place_child_split(4)[OF _ Cons.prems(7) l Cons.prems(8)])
  qed
  show ?case
  proof (cases j)
    case 0
    have "d \<notin> (\<Union>x \<in> set ds. subtree u x)"
    proof
      assume "d \<in> (\<Union>x \<in> set ds. subtree u x)"
      then obtain x where x: "x \<in> set ds" "d \<in> subtree s x" using tr(3) by auto
      have "d \<noteq> x" using x Cons.prems(5) by auto
      then have "subtree s d \<inter> subtree s x = {}"
        by (intro sibling_subtrees_disjoint[OF Cons.prems(2) cd cd]) (use x in auto)
      moreover have "d \<in> subtree s d" by simp
      ultimately show False using x(2) by blast
    qed
    moreover have "geom_only (\<Union>x \<in> set ds. subtree u x) u t"
      by (rule render_children_geom[OF u(2) rec(1) geom_only_refl rest(1)])
        (use dl tr in auto)
    ultimately have "heap t d = heap u d" unfolding geom_only_def by blast
    moreover have "con_rect (heap u d) = rect_sanitize_dimensions (slice l r off (sizes p ! i))"
      by (rule rc(1)) simp
    ultimately show ?thesis using 0 by simp
  next
    case (Suc m)
    have "con_rect (heap t (ds ! m)) = rect_sanitize_dimensions
        (slice l r (off + sizes p ! i + sum_list (take m (drop (Suc i) (sizes p')))) (sizes p' ! (Suc i + m)))"
      by (rule Cons.IH[OF u(2) rest pu(1)]) (use Cons.prems(9) Suc in simp)
    moreover have "take (Suc m) (drop i (sizes p)) = sizes p ! i # take m (drop (Suc i) (sizes p))"
      using il by (simp add: Cons_nth_drop_Suc[symmetric])
    ultimately show ?thesis using Suc pu(2) by (simp add: add.assoc)
  qed
qed simp

text \<open>
  The children of a rendered split container without gaps lie side by side: their sizes add up
  to the size of the container, each is within two pixels of its share, and each child starts
  where the one before it ends.
\<close>

lemma render_con_tiles:
  assumes r: "render_con k c s = Some t" and wf: "wf_tree {} s" and c: "c \<in> live s"
    and l: "is_split_layout (layout (heap s c))" and ty: "con_type (heap s c) \<notin> {CT_OUTPUT, CT_ROOT}"
    and gl: "gapless s c" "\<forall>d \<in> set (nodes_head (heap s c)). gapless s d"
    and fs: "\<forall>d \<in> subtree s c - {c}. fullscreen_mode (heap s d) \<noteq> CF_OUTPUT"
    and pos: "\<forall>d \<in> set (nodes_head (heap s c)). percent (heap s d) > 0"
    and one: "sum_list (map (\<lambda>d. percent (heap s d)) (nodes_head (heap s c))) = 1"
  obtains zs where "length zs = length (nodes_head (heap s c))"
    "sum_list zs = sint (if layout (heap s c) = L_SPLITH then rwidth (con_rect (heap s c)) else rheight (con_rect (heap s c)))"
    "list_all2 (\<lambda>z d. \<bar>of_int z - percent (heap s d) *
       of_int (sint (if layout (heap s c) = L_SPLITH then rwidth (con_rect (heap s c)) else rheight (con_rect (heap s c))))\<bar> \<le> 3/2)
       zs (nodes_head (heap s c))"
    "\<forall>i < length zs. con_rect (heap t (nodes_head (heap s c) ! i)) = rect_sanitize_dimensions
       (slice (layout (heap s c)) (con_rect (heap s c)) (sum_list (take i zs)) (zs ! i))"
proof -
  let ?l = "layout (heap s c)" and ?ns = "nodes_head (heap s c)" and ?r = "con_rect (heap s c)"
  let ?tot = "sint (if ?l = L_SPLITH then rwidth ?r else rheight ?r)"
  obtain j where k: "k = Suc j" using r by (cases k) auto
  obtain p u v fs' w where st: "render_gaps c s = Some (p, u)"
    "render_window c (upd c (\<lambda>n. n\<lparr>mapped := True\<rparr>) u) = Some v"
    "(if con_type (heap v c) \<noteq> CT_OUTPUT
      then con_get_fullscreen_con v c (if con_type (heap v c) = CT_ROOT then CF_GLOBAL else CF_OUTPUT)
      else Some None) = Some fs'"
    "(case fs' of None \<Rightarrow> Some v
      | Some f \<Rightarrow> render_con j f (raise_con f (set_rect f (p_rect p) v))) = Some w"
    "(if fs' \<noteq> None \<and> con_type (heap w c) \<noteq> CT_ROOT then Some w
      else render_inside (render_con j) c fs' p w) = Some t"
    by (rule render_con_cases[OF r[unfolded k]])
  note ug = render_gaps_gapless[OF st(1) gl(1)]
  have gu: "geom_only {c} s (upd c (\<lambda>n. n\<lparr>mapped := True\<rparr>) u)" unfolding ug(1) by (rule geom_only_upd) simp_all
  have gv: "geom_only {c} s v" by (rule render_window_geom[OF st(2) gu]) simp
  note tr = geom_only_tree[OF gv] and fd = geom_only_field[OF gv]
  have rv: "con_rect (heap v c) = ?r" using render_window_rect[OF st(2)] ug(1) by simp
  have wfv: "wf_tree {} v" and cv: "c \<in> live v" using tr wf c by simp_all
  have "fs' = None"
  proof (rule ccontr)
    assume "fs' \<noteq> None"
    then obtain f where f: "con_get_fullscreen_con v c CF_OUTPUT = Some (Some f)"
      using st(3) ty fd(6) by auto
    have "f \<in> subtree v c - {c} \<and> fullscreen_mode (heap v f) = CF_OUTPUT"
      using con_get_fullscreen_con_spec[OF wfv cv, of CF_OUTPUT] f by auto
    then show False using fs fd(13) tr(3) by auto
  qed
  then have ins: "render_inside (render_con j) c None p v = Some t" using st(4,5) by auto
  have lv: "layout (heap v c) = ?l" by (rule fd(10))
  have tot: "con_rect_size_in_orientation v c = Some (if ?l = L_SPLITH then rwidth ?r else rheight ?r)"
  proof -
    have "?l = L_SPLITH \<or> ?l = L_SPLITV" using l by (simp add: is_split_layout_def)
    then show ?thesis
      unfolding con_rect_size_in_orientation_def con_orientation_def lv rv by (elim disjE) simp_all
  qed
  have ne: "?ns \<noteq> []" using one by auto
  have nv: "nodes_head (heap v c) = ?ns" using fd(7) by simp
  obtain zs where zs: "split_sizes ?tot (map (\<lambda>d. percent (heap s d)) ?ns) = Some zs" "sum_list zs = ?tot"
    "length zs = length (map (\<lambda>d. percent (heap s d)) ?ns)"
    "list_all2 (\<lambda>z p. \<bar>of_int z - p * of_int ?tot\<bar> \<le> 3/2) zs (map (\<lambda>d. percent (heap s d)) ?ns)"
    by (rule split_sizes_ok[of "map (\<lambda>d. percent (heap s d)) ?ns" ?tot]) (use pos one in auto)
  have pz: "precalculate_sizes v c p = Some zs"
    using l ne zs(1) unfolding precalculate_sizes_def lv nv tot fd(17)
    by (simp add: ug(2) con_num_children_def)
  define q where "q = p\<lparr>deco_height := render_deco_height (cfg v), sizes := zs\<rparr>"
  obtain q' x where x: "render_children (render_con j) c ?ns 0 (q, v) = Some (q', x)"
    "raise_focused (render_con j) c (num_children q') x = Some t"
    using ins l ty unfolding render_inside_def pz lv nv fd(6)
    by (auto simp: bind_eq_Some q_def is_split_layout_def)
  have "geom_only (subtree v c) v x"
    by (rule render_children_geom[OF x(1) render_con_renders geom_only_refl wfv])
      (use closed_subtree[OF wfv cv] closed_nodes(1)[OF closed_subtree[OF wfv cv] subtree_self]
        nv in \<open>auto simp: closed_below_def\<close>)
  then have "layout (heap x c) = ?l" using geom_only_field(10) lv by simp
  then have "t = x" using x(2) l
    by (auto simp: raise_focused_def stacked_or_tabbed_def is_split_layout_def)
  have pa: "params_at ?l ?r 0 q" by (simp add: q_def ug(2) params_at_def)
  have "con_rect (heap t (?ns ! i)) = rect_sanitize_dimensions (slice ?l ?r (sum_list (take i zs)) (zs ! i))"
    if i: "i < length zs" for i
  proof -
    have "con_rect (heap x (?ns ! i)) = rect_sanitize_dimensions
        (slice ?l ?r (0 + sum_list (take i (drop 0 (sizes q)))) (sizes q ! (0 + i)))"
      by (rule render_children_split[OF x(1) render_con_renders render_con_keeps_rects wfv cv _ _ _ _ l pa])
        (use nv wf_conD(1)[OF wf_treeD(7)[OF wf c]] gl(2) gapless_geom[OF gv] fd(10) i zs(3) in auto)
    then show ?thesis by (simp add: \<open>t = x\<close> q_def)
  qed
  then show thesis using that[of zs] zs(2-4) by (simp add: list_all2_map2)
qed

end
