(* ===== verification/Sample.thy ===== *)
theory Sample
  imports Workspace_Order Con_Encapsulate Render Randr
begin

text \<open>
  A small desktop on which the properties are exercised: one output with a content container, a
  workspace 1 with two tiled windows (4 and 5) and a floating one (7 in 6), and the empty
  workspaces 2 and 3.  Container 0 is the root.
\<close>

definition sample_cfg :: config where
  "sample_cfg = \<lparr>default_layout = L_DEFAULT, default_orientation = HORIZ, default_border = BS_NORMAL,
     default_floating_border = BS_NORMAL, default_border_width = 2, default_floating_border_width = 2,
     cfg_hide_edge_borders = HEBM_NONE, cfg_focus_wrapping = FOCUS_WRAPPING_ON, cfg_gaps = no_gaps,
     cfg_smart_gaps = SMART_GAPS_OFF, workspace_urgency_timer = 0, font_height = 14,
     cfg_popup_during_fullscreen = PDF_SMART, floating_maximum_width = 0, floating_maximum_height = 0,
     floating_minimum_width = 0, floating_minimum_height = 0, workspace_auto_back_and_forth = False,
     disable_focus_follows_mouse = False, focus_on_window_activation = FOWA_SMART\<rparr>"

definition sample_window :: "window_id \<Rightarrow> string \<Rightarrow> window" where
  "sample_window w name = \<lparr>win_id = w, leader = 0, transient_for = 0, win_class = Some name,
     win_instance = Some name, win_name = Some name, win_role = None, machine = None,
     window_type = 0, win_dock = W_NODOCK, urgent_time = (0, 0), base_width = 0, base_height = 0,
     width_increment = 0, height_increment = 0, min_width = 0, min_height = 0, max_width = 0,
     max_height = 0, min_aspect_ratio = 0, max_aspect_ratio = 0,
     name_x_changed = False, needs_take_focus = False, doesnt_accept_focus = False, ran_assignments = [],
     uses_net_wm_name = False, wm_desktop = 0, reserved = \<lparr>res_left = 0, res_right = 0, res_top = 0, res_bottom = 0\<rparr>,
     win_depth = 24, win_icon = None, shaped = False, managed_since = 0, swallowed = False\<rparr>"

definition blank :: con where "blank = new_con sample_cfg None"

definition screen :: rect where "screen = mk_rect 0 0 1920 1080"

definition nd :: "con_type \<Rightarrow> layout \<Rightarrow> con_id option \<Rightarrow> con_id list \<Rightarrow> con_id list \<Rightarrow> con_id list \<Rightarrow> string \<Rightarrow> con" where
  "nd ty l p ns fl fo name = blank\<lparr>con_type := ty, layout := l, parent := p, nodes_head := ns,
     floating_head := fl, focus_head := fo, con_name := Some name, con_rect := screen, ws_num := -1\<rparr>"

definition leaf :: "con_id \<Rightarrow> window_id \<Rightarrow> string \<Rightarrow> con" where
  "leaf p w name = (nd CT_CON L_SPLITH (Some p) [] [] [] name)\<lparr>con_window := Some (sample_window w name)\<rparr>"

definition sample_heap :: "con_id \<Rightarrow> con" where
  "sample_heap = (\<lambda>_. blank)
     (0 := nd CT_ROOT L_SPLITH None [1] [] [1] ''root'',
      1 := nd CT_OUTPUT L_OUTPUT (Some 0) [2] [] [2] ''eDP1'',
      2 := nd CT_CON L_SPLITH (Some 1) [3, 8, 9] [] [3, 8, 9] ''content'',
      3 := (nd CT_WORKSPACE L_SPLITH (Some 2) [4, 5] [6] [5, 6, 4] ''1'')\<lparr>ws_num := 1, fullscreen_mode := CF_OUTPUT\<rparr>,
      4 := (leaf 3 100 ''a'')\<lparr>percent := 1/2\<rparr>,
      5 := (leaf 3 101 ''b'')\<lparr>percent := 1/2\<rparr>,
      6 := nd CT_FLOATING_CON L_SPLITH (Some 3) [7] [] [7] ''float'',
      7 := (leaf 6 102 ''c'')\<lparr>con_floating := FLOATING_USER_ON, percent := 1\<rparr>,
      8 := (nd CT_WORKSPACE L_SPLITH (Some 2) [] [] [] ''2'')\<lparr>ws_num := 2\<rparr>,
      9 := (nd CT_WORKSPACE L_SPLITH (Some 2) [] [] [] ''3'')\<lparr>ws_num := 3\<rparr>)"

definition sample :: i3 where
  "sample = \<lparr>heap = sample_heap, all_cons = [0, 1, 2, 3, 4, 5, 6, 7, 8, 9], next_id = 10, croot = 0,
     focused = Some 5, cfg = sample_cfg, clock = (0, 0), previous_workspace = None, effects = []\<rparr>"

lemmas node_defs = nd_def leaf_def blank_def new_con_def sample_window_def sample_cfg_def screen_def

lemma sample_sel [simp]:
  "all_cons sample = [0, 1, 2, 3, 4, 5, 6, 7, 8, 9]" "next_id sample = 10" "croot sample = 0"
  "focused sample = Some 5" "cfg sample = sample_cfg" "clock sample = (0, 0)" "previous_workspace sample = None" "effects sample = []"
  by (simp_all add: sample_def)

lemma sample_heap [simp]:
  "heap sample 0 = nd CT_ROOT L_SPLITH None [1] [] [1] ''root''"
  "heap sample (Suc 0) = nd CT_OUTPUT L_OUTPUT (Some 0) [2] [] [2] ''eDP1''"
  "heap sample 2 = nd CT_CON L_SPLITH (Some 1) [3, 8, 9] [] [3, 8, 9] ''content''"
  "heap sample 3 = (nd CT_WORKSPACE L_SPLITH (Some 2) [4, 5] [6] [5, 6, 4] ''1'')\<lparr>ws_num := 1, fullscreen_mode := CF_OUTPUT\<rparr>"
  "heap sample 4 = (leaf 3 100 ''a'')\<lparr>percent := 1/2\<rparr>"
  "heap sample 5 = (leaf 3 101 ''b'')\<lparr>percent := 1/2\<rparr>"
  "heap sample 6 = nd CT_FLOATING_CON L_SPLITH (Some 3) [7] [] [7] ''float''"
  "heap sample 7 = (leaf 6 102 ''c'')\<lparr>con_floating := FLOATING_USER_ON, percent := 1\<rparr>"
  "heap sample 8 = (nd CT_WORKSPACE L_SPLITH (Some 2) [] [] [] ''2'')\<lparr>ws_num := 2\<rparr>"
  "heap sample 9 = (nd CT_WORKSPACE L_SPLITH (Some 2) [] [] [] ''3'')\<lparr>ws_num := 3\<rparr>"
  by (simp_all add: sample_def sample_heap_def)

lemma nd_sel [simp]:
  "con_type (nd ty l p ns fl fo name) = ty" "layout (nd ty l p ns fl fo name) = l"
  "parent (nd ty l p ns fl fo name) = p" "nodes_head (nd ty l p ns fl fo name) = ns"
  "floating_head (nd ty l p ns fl fo name) = fl" "focus_head (nd ty l p ns fl fo name) = fo"
  "con_name (nd ty l p ns fl fo name) = Some name" "con_window (nd ty l p ns fl fo name) = None"
  "con_floating (nd ty l p ns fl fo name) = FLOATING_AUTO_OFF" "urgent (nd ty l p ns fl fo name) = False"
  "marks (nd ty l p ns fl fo name) = []" "fullscreen_mode (nd ty l p ns fl fo name) = CF_NONE"
  "con_rect (nd ty l p ns fl fo name) = screen" "con_gaps (nd ty l p ns fl fo name) = no_gaps"
  "workspace_layout (nd ty l p ns fl fo name) = L_DEFAULT" "ws_num (nd ty l p ns fl fo name) = -1"
  "urgency_timer (nd ty l p ns fl fo name) = False" "percent (nd ty l p ns fl fo name) = 0"
  "swallow_head (nd ty l p ns fl fo name) = []"
  by (simp_all add: nd_def blank_def new_con_def no_gaps_def)

lemma leaf_sel [simp]:
  "con_type (leaf p w name) = CT_CON" "layout (leaf p w name) = L_SPLITH"
  "parent (leaf p w name) = Some p" "nodes_head (leaf p w name) = []"
  "floating_head (leaf p w name) = []" "focus_head (leaf p w name) = []"
  "con_name (leaf p w name) = Some name" "con_window (leaf p w name) = Some (sample_window w name)"
  "con_floating (leaf p w name) = FLOATING_AUTO_OFF" "urgent (leaf p w name) = False"
  "marks (leaf p w name) = []" "fullscreen_mode (leaf p w name) = CF_NONE"
  "con_rect (leaf p w name) = screen" "con_gaps (leaf p w name) = no_gaps"
  "workspace_layout (leaf p w name) = L_DEFAULT" "urgency_timer (leaf p w name) = False"
  "swallow_head (leaf p w name) = []"
  by (simp_all add: leaf_def)

lemma sample_live: "live sample = {0, 1, 2, 3, 4, 5, 6, 7, 8, 9}"
  by (simp add: live_def)

lemma sample_children:
  "children sample 0 = {Suc 0}" "children sample (Suc 0) = {2}" "children sample 2 = {3, 8, 9}"
  "children sample 3 = {4, 5, 6}" "children sample 4 = {}" "children sample 5 = {}"
  "children sample 6 = {7}" "children sample 7 = {}" "children sample 8 = {}" "children sample 9 = {}"
  by (auto simp: children_def)

text \<open>A numbering of the containers that grows downwards shows that there is no cycle.\<close>

lemma acyclic_by_rank:
  assumes "\<And>p c. p \<in> live s \<Longrightarrow> c \<in> children s p \<Longrightarrow> (rank p :: nat) < rank c"
  shows "acyclic (child_rel s)"
proof -
  have "(child_rel s)\<inverse> \<subseteq> measure rank" using assms by (auto simp: child_rel_def)
  then have "acyclic ((child_rel s)\<inverse>)" by (rule acyclic_subset[OF wf_acyclic[OF wf_measure]])
  then show ?thesis by simp
qed

lemma sample_wf [simp]: "wf_tree {} sample"
proof -
  have "acyclic (child_rel sample)"
    by (rule acyclic_by_rank[where rank = "\<lambda>c. c"]) (auto simp: sample_live sample_children)
  moreover have "\<forall>p \<in> live sample. wf_con sample p"
    by (auto simp: sample_live wf_con_def sample_children)
  ultimately show ?thesis
    by (simp add: wf_tree_def) (auto simp: sample_live sample_children)
qed

lemma sample_subtree:
  "subtree sample 4 = {4}" "subtree sample 5 = {5}" "subtree sample 7 = {7}" "subtree sample 8 = {8}"
  "subtree sample 9 = {9}" "subtree sample 6 = {6, 7}" "subtree sample 3 = {3, 4, 5, 6, 7}"
  "subtree sample 2 = {2, 3, 4, 5, 6, 7, 8, 9}" "subtree sample (Suc 0) = {1, 2, 3, 4, 5, 6, 7, 8, 9}"
  "subtree sample 0 = {0, 1, 2, 3, 4, 5, 6, 7, 8, 9}"
proof -
  note u = subtree_unfold[of _ sample, unfolded sample_live]
  show l: "subtree sample 4 = {4}" "subtree sample 5 = {5}" "subtree sample 7 = {7}"
    "subtree sample 8 = {8}" "subtree sample 9 = {9}"
    by (subst u; simp add: sample_children)+
  show f: "subtree sample 6 = {6, 7}" by (subst u) (auto simp: sample_children l)
  show w: "subtree sample 3 = {3, 4, 5, 6, 7}" by (subst u) (auto simp: sample_children l f)
  show c: "subtree sample 2 = {2, 3, 4, 5, 6, 7, 8, 9}" by (subst u) (auto simp: sample_children l w)
  show o': "subtree sample (Suc 0) = {1, 2, 3, 4, 5, 6, 7, 8, 9}" by (subst u) (auto simp: sample_children c)
  show "subtree sample 0 = {0, 1, 2, 3, 4, 5, 6, 7, 8, 9}" by (subst u) (auto simp: sample_children o')
qed

text \<open>Every container below the content container is on a workspace.\<close>

lemma sample_fuel:
  "up_fuel sample = Suc (Suc (Suc (Suc (Suc (Suc (Suc (Suc (Suc (Suc (Suc 0))))))))))"
  by (simp add: up_fuel_def)

lemma sample_workspace:
  "con_get_workspace sample 3 = Some (Some 3)" "con_get_workspace sample 4 = Some (Some 3)"
  "con_get_workspace sample 5 = Some (Some 3)" "con_get_workspace sample 6 = Some (Some 3)"
  "con_get_workspace sample 7 = Some (Some 3)" "con_get_workspace sample 8 = Some (Some 8)"
  "con_get_workspace sample 9 = Some (Some 9)" "con_get_workspace sample 2 = Some None"
  "con_get_workspace sample 1 = Some None" "con_get_workspace sample 0 = Some None"
  by (simp_all add: con_get_workspace_def sample_fuel)

lemma subtree_root_live:
  assumes "wf_tree D s" and "c \<in> subtree s x" and "c \<in> live s" shows "x \<in> live s"
proof (cases "c = x")
  case False
  then obtain y where "(y, x) \<in> child_rel s"
    using assms(2) by (auto simp: subtree_def elim: rtranclE)
  then show ?thesis by (simp add: child_rel_def)
qed (use assms in simp)

lemma sample_clears: "c \<in> live sample \<Longrightarrow> c \<in> subtree sample x \<Longrightarrow> clears_ok sample x"
proof -
  assume "c \<in> live sample" "c \<in> subtree sample x"
  then have "x \<in> live sample" by (rule subtree_root_live[OF sample_wf, rotated])
  then show "clears_ok sample x"
    by (auto simp: sample_live clears_ok_def con_is_leaf_def sample_workspace)
qed

text \<open>Nothing is urgent, and one output with three workspaces is scanned.\<close>

lemma sample_not_urgent: "\<not> urgent (heap sample x)"
  by (simp add: sample_def sample_heap_def blank_def new_con_def)

lemma sample_quiet: "urgency_ok sample"
  by (simp add: urgency_ok_def urgent_leaf_def sample_not_urgent)

lemma sample_scan:
  "external_lists sample = Some [Suc 0]" "content_nodes sample (Suc 0) = Some [3, 8, 9]"
  by (simp_all add: external_lists_def con_is_internal_def starts_with_def content_nodes_def
      output_get_content_def)

text \<open>Screens side by side.\<close>

definition screen_at :: "u32 \<Rightarrow> xoutput" where
  "screen_at x = \<lparr>out_id = unat x, active = True, changed = False, to_be_disabled = False, primary = (x = 0),
     names_head = [''eDP1''], out_con = None, out_rect = mk_rect x 0 1920 1080\<rparr>"

lemma screen_at_sel [simp]:
  "active (screen_at x) = True" "out_rect (screen_at x) = mk_rect x 0 1920 1080"
  by (simp_all add: screen_at_def)

lemma screen_at_eq [simp]: "screen_at x = screen_at y \<longleftrightarrow> x = y"
  by (auto simp: screen_at_def mk_rect_def)

end
