(* ===== verification/Con_Preserve.thy ===== *)
theory Con_Preserve
  imports Con_Focus
begin

text \<open>
  What the operations on containers leave alone whenever they return, without assumptions that
  make them return.  Operations that keep the set of containers and reorder queues at most are
  collected as interpretations of the locale \<open>frame_op\<close>; detaching, attaching and freeing a
  container have lemmas of their own.
\<close>

section \<open>Operations that keep the tree\<close>

locale frame_op =
  fixes f :: "i3 \<Rightarrow> i3 option"
  assumes same: "f s = Some t \<Longrightarrow> same_tree s t"
    and mask: "f s = Some t \<Longrightarrow> same_mask s t"
begin

lemma keeps_wf: "f s = Some t \<Longrightarrow> wf_tree D t = wf_tree D s"
  by (rule same_tree_wf[OF same])

lemma keeps_live: "f s = Some t \<Longrightarrow> live t = live s"
  using same same_treeD(12) by blast

lemma keeps_subtree: "f s = Some t \<Longrightarrow> subtree t = subtree s"
  by (rule same_tree_subtree[OF same])

lemma keeps_parent: "f s = Some t \<Longrightarrow> parent (heap t c) = parent (heap s c)"
  using same same_treeD(4) by blast

lemma keeps_type: "f s = Some t \<Longrightarrow> con_type (heap t c) = con_type (heap s c)"
  using same same_treeD(5) by blast

lemma keeps_floats: "f s = Some t \<Longrightarrow> floats_on_ws t = floats_on_ws s"
proof -
  assume "f s = Some t"
  note e = same_treeD[OF same[OF this]]
  have "floating_head (heap t p) = [] \<longleftrightarrow> floating_head (heap s p) = []" for p
    using e(7)[of p] by (metis set_empty2)
  then show ?thesis by (simp add: floats_on_ws_def e)
qed

end

lemma urgency_frame_same: "urgency_frame s t \<Longrightarrow> same_tree s t \<and> same_mask s t"
  by (simp add: urgency_frame_def same_tree_links)

lemma parents_urgency_frame:
  "parents_urgency_loop n v p s = Some t \<Longrightarrow> urgency_frame s t"
proof (induction n v p s arbitrary: t rule: parents_urgency_loop.induct)
  case (3 n v p s)
  show ?case
  proof (cases "con_type (heap s p) = CT_WORKSPACE \<or> con_type (heap s p) = CT_DOCKAREA")
    case False
    have fr: "urgency_frame s (upd p (\<lambda>n. n\<lparr>urgent := b\<rparr>) s)" for b
      by (intro urgency_frame_upd same_links_upd) simp_all
    obtain u where u: "(if v then Some (upd p (\<lambda>n. n\<lparr>urgent := True\<rparr>) s)
             else do {
               b \<leftarrow> con_has_urgent_child s p;
               Some (if \<not> b then upd p (\<lambda>n. n\<lparr>urgent := False\<rparr>) s else s) }) = Some u"
      "parents_urgency_loop n v (parent (heap u p)) u = Some t"
      using "3.prems" False unfolding parents_urgency_loop.simps by (auto elim!: bind_SomeE)
    have "urgency_frame s u" using u(1) fr by (auto simp: bind_eq_Some split: if_splits)
    from this 3(1)[OF False u] show ?thesis by (rule urgency_frame_trans)
  qed (use "3.prems" in auto)
qed simp_all

lemma update_flag_frame: "workspace_update_urgent_flag w s = Some t \<Longrightarrow> urgency_frame s t"
proof -
  assume a: "workspace_update_urgent_flag w s = Some t"
  have fr: "urgency_frame s (upd w (\<lambda>n. n\<lparr>urgent := b\<rparr>) s)" for b
    by (intro urgency_frame_upd same_links_upd) simp_all
  have "urgency_frame s (emit e (upd w (\<lambda>n. n\<lparr>urgent := b\<rparr>) s))" for b e
    using urgency_frame_trans[OF fr urgency_frame_emit] .
  with fr a show ?thesis by (auto simp: workspace_update_urgent_flag_def Let_def bind_eq_Some)
qed

lemma update_parents_frame: "con_update_parents_urgency c s = Some t \<Longrightarrow> urgency_frame s t"
  by (auto simp: con_update_parents_urgency_def split: if_splits intro: parents_urgency_frame)

lemma set_urgency_frame:
  assumes "con_set_urgency c u s = Some t" shows "urgency_frame s t"
proof (cases "u \<and> focused s = Some c")
  case True
  with assms show ?thesis by (simp add: con_set_urgency_def)
next
  case False
  define a where "a = (if \<not> urgency_timer (heap s c) then upd c (\<lambda>n. n\<lparr>urgent := u\<rparr>) s else s)"
  define b where "b = upd c (\<lambda>n. n\<lparr>con_window := map_option (\<lambda>w.
              w\<lparr>urgent_time := if urgent n then clock a else (0, 0)\<rparr>) (con_window n)\<rparr>) a"
  have "urgency_frame s a" unfolding a_def by (auto intro!: urgency_frame_upd same_links_upd)
  moreover have "urgency_frame a b" unfolding b_def by (auto intro!: urgency_frame_upd same_links_upd)
  ultimately have sb: "urgency_frame s b" by (rule urgency_frame_trans)
  obtain v ws w where v: "con_update_parents_urgency c b = Some v" "con_get_workspace v c = Some ws"
    "(case ws of Some w \<Rightarrow> workspace_update_urgent_flag w v | None \<Rightarrow> Some v) = Some w"
    "t = (if urgent (heap w c) \<noteq> urgent (heap s c) then emit (Ipc_Window ''urgent'' c) w else w)"
    using assms unfolding con_set_urgency_def if_not_P[OF False] Let_def a_def[symmetric] b_def[symmetric]
    by (auto simp: bind_eq_Some)
  have "urgency_frame v w" using v(3) update_flag_frame by (cases ws) auto
  then have "urgency_frame s w"
    by (rule urgency_frame_trans[OF urgency_frame_trans[OF sb update_parents_frame[OF v(1)]]])
  then show ?thesis unfolding v(4) using urgency_frame_trans[OF _ urgency_frame_emit] by simp
qed

lemma clear_urgency_frame:
  assumes "focus_clear_urgency c s = Some t" shows "urgency_frame s t"
proof (cases "urgent (heap s c) \<and> con_is_leaf s c")
  case True
  with assms obtain a b w v where "con_set_urgency c False s = Some a" "con_update_parents_urgency c a = Some b"
    "workspace_update_urgent_flag w b = Some v" "t = emit (Ipc_Window ''urgent'' c) v"
    by (auto simp: focus_clear_urgency_def bind_eq_Some)
  then show ?thesis
    using urgency_frame_trans[OF set_urgency_frame urgency_frame_trans[OF update_parents_frame
      urgency_frame_trans[OF update_flag_frame urgency_frame_emit]]] by blast
next
  case False
  with assms show ?thesis unfolding focus_clear_urgency_def if_not_P[OF False] by simp
qed

section \<open>Focusing and raising\<close>

lemma focus_loop_frame:
  "focus_loop n c s = Some t \<Longrightarrow> same_tree s t \<and> same_mask s t \<and> focused t = Some c"
proof (induction n arbitrary: c s t)
  case (Suc n)
  obtain p where p1: "parent (heap s c) = Some p"
    using Suc.prems unfolding focus_loop.simps by (rule bind_SomeE)
  obtain fo where p2: "unlink c (focus_head (heap s p)) = Some fo"
    using Suc.prems unfolding focus_loop.simps p1 bind.bind_lunit by (rule bind_SomeE)
  define a where "a = upd p (\<lambda>n. n\<lparr>focus_head := c # fo\<rparr>) s"
  obtain b where p3: "(case parent (heap a p) of None \<Rightarrow> Some a | Some _ \<Rightarrow> focus_loop n p a) = Some b"
    using Suc.prems unfolding focus_loop.simps p1 p2 bind.bind_lunit Let_def a_def[symmetric] by (rule bind_SomeE)
  have p4: "focus_clear_urgency c (b\<lparr>focused := Some c\<rparr>) = Some t"
    using Suc.prems unfolding focus_loop.simps p1 p2 bind.bind_lunit Let_def a_def[symmetric] p3 .
  note p = p1 p2 a_def p3 p4
  have a: "same_tree s a" "same_mask s a"
    using p(2) by (auto simp: p(3) same_tree_def unlink_def same_mask_upd split: if_splits)
  have b: "same_tree a b" "same_mask a b"
    using p(4) Suc.IH by (auto split: option.splits)
  have f: "urgency_frame (b\<lparr>focused := Some c\<rparr>) t" by (rule clear_urgency_frame[OF p(5)])
  note ft = urgency_frame_same[OF f]
  have "same_tree s t"
    by (rule same_tree_trans[OF a(1) same_tree_trans[OF b(1) same_tree_trans[OF same_tree_links[OF same_links_focused]]]])
      (use ft in blast)
  moreover have "same_mask s t"
    by (rule same_mask_trans[OF a(2) same_mask_trans[OF b(2) same_mask_trans[OF same_mask_focused]]])
      (use ft in blast)
  moreover have "focused t = Some c" using f by (simp add: urgency_frame_def)
  ultimately show ?case by blast
qed simp

lemma floating_raise_frame:
  assumes "floating_raise_con c s = Some t"
  shows "same_tree s t \<and> same_mask s t \<and> focused t = focused s"
proof -
  obtain p where p: "parent (heap s c) = Some p" using assms by (auto simp: floating_raise_con_def bind_eq_Some)
  obtain fl where fl: "unlink c (floating_head (heap s p)) = Some fl"
    using assms p by (auto simp: floating_raise_con_def bind_eq_Some)
  have t: "t = upd p (\<lambda>n. n\<lparr>floating_head := fl @ [c]\<rparr>) s"
    using assms p fl by (simp add: floating_raise_con_def)
  have "mset (fl @ [c]) = mset (floating_head (heap s p))"
    using fl by (auto simp: unlink_def split: if_splits)
  then have "same_tree s t" unfolding t same_tree_def by simp
  then show ?thesis unfolding t by (simp add: same_mask_upd)
qed

lemma con_raise_frame:
  assumes "con_raise c s = Some t"
  shows "same_tree s t \<and> same_mask s t \<and> focused t = focused s"
  using assms floating_raise_frame by (auto simp: con_raise_def bind_eq_Some split: option.splits)

lemma con_activate_frame:
  assumes "con_activate c s = Some t"
  shows "same_tree s t \<and> same_mask s t \<and> focused t = Some c"
proof -
  obtain u where u: "con_focus c s = Some u" "con_raise c u = Some t"
    using assms by (auto simp: con_activate_def bind_eq_Some)
  note f = focus_loop_frame[OF u(1)[unfolded con_focus_def]] and r = con_raise_frame[OF u(2)]
  then show ?thesis using same_tree_trans same_mask_trans by metis
qed

interpretation parents_urgency: frame_op "con_update_parents_urgency c" for c
  using urgency_frame_same[OF update_parents_frame] by unfold_locales auto

interpretation update_flag: frame_op "workspace_update_urgent_flag w" for w
  using urgency_frame_same[OF update_flag_frame] by unfold_locales auto

interpretation set_urgency: frame_op "con_set_urgency c u" for c u
  using urgency_frame_same[OF set_urgency_frame] by unfold_locales auto

interpretation focus: frame_op "con_focus c" for c
  using focus_loop_frame by unfold_locales (auto simp: con_focus_def)

interpretation con_raising: frame_op "con_raise c" for c
  using con_raise_frame by unfold_locales auto

interpretation activate: frame_op "con_activate c" for c
  using con_activate_frame by unfold_locales auto

end
