(* ===== verification/Con_Fullscreen.thy ===== *)
theory Con_Fullscreen
  imports Con_Preserve
begin

text \<open>
  Fullscreen mode (src/con.c): setting it on a container, which tells IPC listeners and updates the
  window's state atom, and enabling it, which first disables a fullscreen container in the way.
  Global fullscreen on another workspace switches to that workspace; the function that does this
  (\<open>workspace_show\<close>) is an argument here because it depends on moving containers, which again
  depends on this theory.
\<close>

definition con_set_fullscreen_mode :: "con_id \<Rightarrow> fullscreen_mode \<Rightarrow> i3 \<Rightarrow> i3" where
  "con_set_fullscreen_mode c m s =
     (let s = emit (Ipc_Window ''fullscreen_mode'' c) (upd c (\<lambda>n. n\<lparr>fullscreen_mode := m\<rparr>) s)
      in case con_window (heap s c) of
           None \<Rightarrow> s
         | Some w \<Rightarrow> emit (if m \<noteq> CF_NONE then X_Add_Fullscreen_Atom (win_id w)
                         else X_Remove_Fullscreen_Atom (win_id w)) s)"

definition con_disable_fullscreen :: "con_id \<Rightarrow> i3 \<Rightarrow> i3" where
  "con_disable_fullscreen c s =
     (if con_type (heap s c) = CT_WORKSPACE \<or> fullscreen_mode (heap s c) = CF_NONE then s
      else con_set_fullscreen_mode c CF_NONE s)"

text \<open>The container that would be in the way: a global one anywhere, or one on the workspace.\<close>

definition conflicting_fullscreen :: "i3 \<Rightarrow> con_id \<Rightarrow> con_id option option" where
  "conflicting_fullscreen s ws = do {
     g \<leftarrow> con_get_fullscreen_con s (croot s) CF_GLOBAL;
     (case g of Some f \<Rightarrow> Some (Some f) | None \<Rightarrow> con_get_fullscreen_con s ws CF_OUTPUT)
   }"

definition con_enable_fullscreen ::
  "(con_id \<Rightarrow> i3 \<Rightarrow> i3 option) \<Rightarrow> con_id \<Rightarrow> fullscreen_mode \<Rightarrow> i3 \<Rightarrow> i3 option" where
  "con_enable_fullscreen show_ws c m s =
     (if con_type (heap s c) = CT_WORKSPACE then Some s
      else if m = CF_NONE then None
      else if fullscreen_mode (heap s c) = m then Some s
      else do {
        con_ws \<leftarrow> con_get_workspace s c;
        w \<leftarrow> con_ws;
        fs \<leftarrow> conflicting_fullscreen s w;
        let s = (case fs of Some f \<Rightarrow> con_disable_fullscreen f s | None \<Rightarrow> s);
        old \<leftarrow> focused s;
        cur_ws \<leftarrow> con_get_workspace s old;
        s \<leftarrow> (if m = CF_GLOBAL \<and> cur_ws \<noteq> con_ws then show_ws w s else Some s);
        s \<leftarrow> con_activate c s;
        s \<leftarrow> (if m \<noteq> CF_GLOBAL \<and> cur_ws \<noteq> con_ws then con_activate old s else Some s);
        Some (con_set_fullscreen_mode c m s) })"

definition con_toggle_fullscreen ::
  "(con_id \<Rightarrow> i3 \<Rightarrow> i3 option) \<Rightarrow> con_id \<Rightarrow> fullscreen_mode \<Rightarrow> i3 \<Rightarrow> i3 option" where
  "con_toggle_fullscreen show_ws c m s =
     (if con_type (heap s c) = CT_WORKSPACE then Some s
      else if fullscreen_mode (heap s c) = CF_NONE then con_enable_fullscreen show_ws c m s
      else Some (con_disable_fullscreen c s))"

section \<open>Frame\<close>

lemma set_fullscreen_links: "same_links s (con_set_fullscreen_mode c m s)"
  by (auto simp: con_set_fullscreen_mode_def Let_def same_links_def split: option.splits)

lemma set_fullscreen_frame [simp]:
  "focused (con_set_fullscreen_mode c m s) = focused s"
  "fullscreen_mode (heap (con_set_fullscreen_mode c m s) x) = (if x = c then m else fullscreen_mode (heap s x))"
  by (auto simp: con_set_fullscreen_mode_def Let_def split: option.splits)

lemma disable_fullscreen_links: "same_links s (con_disable_fullscreen c s)"
  by (simp add: con_disable_fullscreen_def set_fullscreen_links)

lemma disable_fullscreen_frame [simp]:
  "focused (con_disable_fullscreen c s) = focused s"
  "fullscreen_mode (heap (con_disable_fullscreen c s) x) =
     (if x = c \<and> con_type (heap s c) \<noteq> CT_WORKSPACE then CF_NONE else fullscreen_mode (heap s x))"
  by (simp_all add: con_disable_fullscreen_def)

end
