(* ===== verification/Floating_Geom.thy ===== *)
theory Floating_Geom
  imports Borders Render_Sizes Randr
begin

text \<open>
  The geometry of floating windows (src/floating.c): the size limits of the configuration and of
  the window's size hints, centering, and keeping the relative position when the output changes.
  Coordinates are \<open>uint32_t\<close> with wrap-around; \<open>double\<close> values are exact rationals, truncated
  towards zero when they are converted back.
\<close>

section \<open>The environment\<close>

text \<open>
  The globals that the tree operations only read: the outputs, the assignments of workspaces to
  outputs, the workspace names that occur in key bindings, and the size of the root screen.
\<close>

record env =
  outputs :: "xoutput list"
  ws_assignments :: "ws_assignment list"
  binding_workspace_names :: "string list"
  root_width :: u32
  root_height :: u32

definition total_outputs_dimensions :: "env \<Rightarrow> rect" where
  "total_outputs_dimensions e =
     (if outputs e = [] then mk_rect 0 0 (root_width e) (root_height e)
      else mk_rect 0 0 (sum_list (map (\<lambda>out. rwidth (out_rect out)) (outputs e)))
                       (sum_list (map (\<lambda>out. rheight (out_rect out)) (outputs e))))"

definition trunc :: "rat \<Rightarrow> int" where
  "trunc q = (if q \<ge> 0 then \<lfloor>q\<rfloor> else \<lceil>q\<rceil>)"

section \<open>Size limits\<close>

text \<open>
  A limit applies to the window without its border: \<open>extra\<close> is subtracted before and added after.
  \<open>min\<close> and \<open>max\<close> take \<open>int\<close> arguments.
\<close>

definition limit :: "(int \<Rightarrow> int) \<Rightarrow> u32 \<Rightarrow> u32 \<Rightarrow> u32" where
  "limit f extra v = of_int (f (sint (v - extra))) + extra"

definition check_hint_bounds :: "window \<Rightarrow> u32 \<Rightarrow> u32 \<Rightarrow> rect \<Rightarrow> rect" where
  "check_hint_bounds w ew eh r =
     (let mw = (if min_width w \<noteq> 0 then min_width w else base_width w);
          mh = (if min_height w \<noteq> 0 then min_height w else base_height w);
          r = (if mw \<noteq> 0 then r\<lparr>rwidth := limit (max mw) ew (rwidth r)\<rparr> else r);
          r = (if mh \<noteq> 0 then r\<lparr>rheight := limit (max mh) eh (rheight r)\<rparr> else r);
          r = (if max_width w \<noteq> 0 then r\<lparr>rwidth := limit (min (max_width w)) ew (rwidth r)\<rparr> else r)
      in (if max_height w \<noteq> 0 then r\<lparr>rheight := limit (min (max_height w)) eh (rheight r)\<rparr> else r))"

text \<open>The ratio of width to height against a bound; the height may be zero.\<close>

definition ratio_less :: "rat \<Rightarrow> rat \<Rightarrow> rat \<Rightarrow> bool" where
  "ratio_less w h m \<longleftrightarrow> h \<noteq> 0 \<and> w / h < m"

definition ratio_greater :: "rat \<Rightarrow> rat \<Rightarrow> rat \<Rightarrow> bool" where
  "ratio_greater w h m \<longleftrightarrow> (if h = 0 then w > 0 else w / h > m)"

definition wanted_ratio :: "window \<Rightarrow> rat \<Rightarrow> rat \<Rightarrow> rat option" where
  "wanted_ratio w wd ht =
     (if min_aspect_ratio w > 0 \<and> ratio_less wd ht (min_aspect_ratio w) then Some (min_aspect_ratio w)
      else if max_aspect_ratio w > 0 \<and> ratio_greater wd ht (max_aspect_ratio w) then Some (max_aspect_ratio w)
      else None)"

definition check_aspect :: "window \<Rightarrow> bool \<Rightarrow> u32 \<Rightarrow> u32 \<Rightarrow> rect \<Rightarrow> rect" where
  "check_aspect w prefer_height ew eh r =
     (let wd = of_int (uint (rwidth r - of_int (base_width w) - ew));
          ht = of_int (uint (rheight r - of_int (base_height w) - eh))
      in case wanted_ratio w wd ht of
           None \<Rightarrow> r
         | Some a \<Rightarrow>
             (let (wd, ht) =
                (if prefer_height then let wd = of_int (lround (ht * a)) in (wd, of_int (lround (wd / a)))
                 else let ht = of_int (lround (wd / a)) in (of_int (lround (ht * a)), ht))
              in r\<lparr>rwidth := of_int (trunc (wd + of_int (base_width w) + of_int (uint ew))),
                   rheight := of_int (trunc (ht + of_int (base_height w) + of_int (uint eh)))\<rparr>))"

definition to_increment :: "int \<Rightarrow> u32 \<Rightarrow> u32 \<Rightarrow> u32" where
  "to_increment inc base v =
     (if inc \<noteq> 0 \<and> v \<ge> base then (v - base) - (v - base) mod of_int inc + base else v)"

definition check_increments :: "window \<Rightarrow> u32 \<Rightarrow> u32 \<Rightarrow> rect \<Rightarrow> rect" where
  "check_increments w ew eh r =
     (let bw = (if base_width w \<noteq> 0 then base_width w else min_width w);
          bh = (if base_height w \<noteq> 0 then base_height w else min_height w);
          r = r\<lparr>rheight := to_increment (height_increment w) (of_int bh + eh) (rheight r)\<rparr>
      in r\<lparr>rwidth := to_increment (width_increment w) (of_int bw + ew) (rwidth r)\<rparr>)"

text \<open>
  The configured limits: \<open>-1\<close> switches one off, \<open>0\<close> stands for the sane default.
\<close>

definition cfg_bound :: "(int \<Rightarrow> int \<Rightarrow> int) \<Rightarrow> int \<Rightarrow> int \<Rightarrow> u32 \<Rightarrow> u32 \<Rightarrow> u32" where
  "cfg_bound f bound default_bound extra v =
     (if bound = -1 then v else limit (f (if bound = 0 then default_bound else bound)) extra v)"

definition sane_min_height :: int where "sane_min_height = 50"
definition sane_min_width :: int where "sane_min_width = 75"

definition check_config :: "env \<Rightarrow> config \<Rightarrow> u32 \<Rightarrow> u32 \<Rightarrow> rect \<Rightarrow> rect" where
  "check_config e g ew eh r =
     (let r = r\<lparr>rheight := cfg_bound max (floating_minimum_height g) sane_min_height eh (rheight r)\<rparr>;
          r = r\<lparr>rwidth := cfg_bound max (floating_minimum_width g) sane_min_width ew (rwidth r)\<rparr>;
          r = r\<lparr>rheight := cfg_bound min (floating_maximum_height g)
                  (sint (rheight (total_outputs_dimensions e))) eh (rheight r)\<rparr>
      in r\<lparr>rwidth := cfg_bound min (floating_maximum_width g)
             (sint (rwidth (total_outputs_dimensions e))) ew (rwidth r)\<rparr>)"

definition checked_size :: "env \<Rightarrow> config \<Rightarrow> window option \<Rightarrow> bool \<Rightarrow> bool \<Rightarrow> u32 \<Rightarrow> u32 \<Rightarrow> rect \<Rightarrow> rect" where
  "checked_size e g wo fullscreen prefer_height ew eh r =
     check_config e g ew eh
       (case wo of
          None \<Rightarrow> r
        | Some w \<Rightarrow>
            (let r = check_hint_bounds w ew eh r;
                 r = (if \<not> fullscreen \<and> (min_aspect_ratio w > 0 \<or> max_aspect_ratio w > 0)
                      then check_aspect w prefer_height ew eh r else r)
             in check_increments w ew eh r))"

definition floating_check_size :: "env \<Rightarrow> con_id \<Rightarrow> bool \<Rightarrow> i3 \<Rightarrow> i3 option" where
  "floating_check_size e c prefer_height s = do {
     f \<leftarrow> con_descend_focused s c;
     bsr \<leftarrow> con_border_style_rect s f;
     let x11 = 2 * of_int (border_width (heap s f));
     Some (upd c (\<lambda>n. n\<lparr>con_rect := checked_size e (cfg s) (con_window (heap s f))
             (fullscreen_mode n \<noteq> CF_NONE) prefer_height (- rwidth bsr + x11) (- rheight bsr + x11)
             (con_rect n)\<rparr>) s)
   }"

section \<open>Placing\<close>

definition centered :: "rect \<Rightarrow> rect \<Rightarrow> rect" where
  "centered r area =
     r\<lparr>rx := rx area + rwidth area div 2 - rwidth r div 2,
       ry := ry area + rheight area div 2 - rheight r div 2\<rparr>"

definition floating_center :: "con_id \<Rightarrow> rect \<Rightarrow> i3 \<Rightarrow> i3" where
  "floating_center c area s = upd c (\<lambda>n. n\<lparr>con_rect := centered (con_rect n) area\<rparr>) s"

text \<open>
  The coordinate at which the window's centre has the same relative position on the new output.
  An old output without extent would divide by zero.
\<close>

definition moved_coord :: "u32 \<Rightarrow> u32 \<Rightarrow> u32 \<Rightarrow> u32 \<Rightarrow> u32 \<Rightarrow> u32 \<Rightarrow> u32 option" where
  "moved_coord pos len old_pos old_size new_pos new_size =
     (let half = len div 2; rel = pos - old_pos + half
      in if old_size = 0 then None
         else Some (of_int (trunc (of_int (sint new_pos) +
                of_int (sint (rel * new_size)) / of_int (sint old_size) - of_int (sint half)))))"

definition moved_rect :: "rect \<Rightarrow> rect \<Rightarrow> rect \<Rightarrow> rect option" where
  "moved_rect r old new = do {
     x \<leftarrow> moved_coord (rx r) (rwidth r) (rx old) (rwidth old) (rx new) (rwidth new);
     y \<leftarrow> moved_coord (ry r) (rheight r) (ry old) (rheight old) (ry new) (rheight new);
     Some (r\<lparr>rx := x, ry := y\<rparr>)
   }"

definition floating_fix_coordinates :: "con_id \<Rightarrow> rect \<Rightarrow> rect \<Rightarrow> i3 \<Rightarrow> i3 option" where
  "floating_fix_coordinates c old new s = do {
     r \<leftarrow> moved_rect (con_rect (heap s c)) old new;
     Some (upd c (\<lambda>n. n\<lparr>con_rect := r\<rparr>) s)
   }"

section \<open>Resizing\<close>

text \<open>Fresh scratchpad windows are no longer centered once they have been moved or resized.\<close>

definition scratchpad_touched :: "con_id \<Rightarrow> i3 \<Rightarrow> i3" where
  "scratchpad_touched c s =
     (if scratchpad_state (heap s c) = SCRATCHPAD_FRESH
      then upd c (\<lambda>n. n\<lparr>scratchpad_state := SCRATCHPAD_CHANGED\<rparr>) s else s)"

definition round_up :: "int \<Rightarrow> u32 \<Rightarrow> u32" where
  "round_up inc v = (if inc \<noteq> 0 then v + (of_int inc - 1 - v) mod of_int inc else v)"

definition floating_resize :: "env \<Rightarrow> con_id \<Rightarrow> u32 \<Rightarrow> u32 \<Rightarrow> i3 \<Rightarrow> i3 option" where
  "floating_resize e c x y s = do {
     f \<leftarrow> con_descend_focused s c;
     (case con_window (heap s f) of
        None \<Rightarrow> Some s
      | Some w \<Rightarrow> do {
          let prefer_height = (rwidth (con_rect (heap s c)) = x);
          let s = upd c (\<lambda>n. n\<lparr>con_rect := (con_rect n)\<lparr>rwidth := round_up (width_increment w) x,
                                                    rheight := round_up (height_increment w) y\<rparr>\<rparr>) s;
          s \<leftarrow> floating_check_size e c prefer_height s;
          Some (scratchpad_touched c s) })
   }"

text \<open>\<open>floating_set_hint_atom\<close> tells every window below the container whether it floats.\<close>

fun hint_atom :: "nat \<Rightarrow> bool \<Rightarrow> con_id \<Rightarrow> i3 \<Rightarrow> i3 option" where
  "hint_atom 0 fl c s = None"
| "hint_atom (Suc k) fl c s = do {
     s \<leftarrow> (if con_is_leaf s c then Some s else fold_opt (hint_atom k fl) (nodes_head (heap s c)) s);
     Some (case con_window (heap s c) of None \<Rightarrow> s | Some w \<Rightarrow> emit (X_Floating_Hint (win_id w) fl) s)
   }"

definition floating_set_hint_atom :: "con_id \<Rightarrow> bool \<Rightarrow> i3 \<Rightarrow> i3 option" where
  "floating_set_hint_atom c fl s = hint_atom (up_fuel s) fl c s"

end
