(* ===== verification/Tree.thy ===== *)
theory Tree
  imports Con_Preserve Con_Encapsulate Render
begin

text \<open>
  The operations on the layout tree (src/tree.c): opening, splitting, closing and flattening
  containers, moving the focus up and down and in a direction.  \<open>con_on_remove_child\<close> of
  src/con.c belongs here because it and \<open>tree_close_internal\<close> call each other.
\<close>

section \<open>Creating the tree\<close>

definition create_i3 :: "i3 \<Rightarrow> (con_id \<times> i3) option" where
  "create_i3 s = do {
     (out, s) \<leftarrow> con_new (Some (croot s)) None s;
     let s = upd out (\<lambda>n. n\<lparr>con_name := Some ''__i3'', con_type := CT_OUTPUT, layout := L_OUTPUT\<rparr>) s;
     let s = con_fix_percent (croot s) s;
     let s = emit (X_Set_Name out ''[i3 con] pseudo-output __i3'') s;
     let s = upd out (\<lambda>n. n\<lparr>con_rect := (con_rect n)\<lparr>rwidth := 1280, rheight := 1024\<rparr>\<rparr>) s;
     (content, s) \<leftarrow> con_new None None s;
     let s = upd content (\<lambda>n. n\<lparr>con_type := CT_CON, con_name := Some ''content'', layout := L_SPLITH\<rparr>) s;
     let s = emit (X_Set_Name content ''[i3 con] content __i3'') s;
     s \<leftarrow> con_attach content out False s;
     (ws, s) \<leftarrow> con_new None None s;
     let s = upd ws (\<lambda>n. n\<lparr>con_type := CT_WORKSPACE, ws_num := -1, con_name := Some ''__i3_scratch'',
                           layout := L_SPLITH\<rparr>) s;
     s \<leftarrow> con_attach ws content False s;
     let s = emit (X_Set_Name ws ''[i3 con] workspace __i3_scratch'') s;
     Some (out, upd ws (\<lambda>n. n\<lparr>fullscreen_mode := CF_OUTPUT\<rparr>) s)
   }"

text \<open>The argument is the geometry of the X11 root window.\<close>

definition tree_init :: "rect \<Rightarrow> i3 \<Rightarrow> i3 option" where
  "tree_init geometry s = do {
     (root, s) \<leftarrow> con_new None None s;
     let s = s\<lparr>croot := root\<rparr>;
     let s = upd root (\<lambda>n. n\<lparr>con_name := Some ''root'', con_type := CT_ROOT, layout := L_SPLITH,
                             con_rect := geometry\<rparr>) s;
     map_option snd (create_i3 s)
   }"

section \<open>Opening a container\<close>

text \<open>Where a container is opened when no place is given.\<close>

definition open_target :: "i3 \<Rightarrow> con_id option" where
  "open_target s = do {
     f \<leftarrow> focused s;
     c \<leftarrow> parent (heap s f);
     q \<leftarrow> parent (heap s c);
     let c = (if con_type (heap s q) = CT_OUTPUT \<and> con_type (heap s c) \<noteq> CT_DOCKAREA then f else c);
     if con_type (heap s c) = CT_FLOATING_CON then do {
       p \<leftarrow> parent (heap s c);
       d \<leftarrow> con_descend_tiling_focused s p;
       if con_type (heap s d) \<noteq> CT_WORKSPACE then parent (heap s d) else Some d }
     else Some c
   }"

definition tree_open_con :: "con_id option \<Rightarrow> window option \<Rightarrow> i3 \<Rightarrow> (con_id \<times> i3) option" where
  "tree_open_con c w s = do {
     p \<leftarrow> (case c of Some p \<Rightarrow> Some p | None \<Rightarrow> open_target s);
     (new, s) \<leftarrow> con_new (Some p) w s;
     Some (new, con_fix_percent p (upd new (\<lambda>n. n\<lparr>layout := L_SPLITH\<rparr>) s))
   }"

section \<open>Rendering the tree\<close>

fun mark_unmapped :: "nat \<Rightarrow> con_id \<Rightarrow> i3 \<Rightarrow> i3 option" where
  "mark_unmapped 0 c s = None"
| "mark_unmapped (Suc k) c s = do {
     s \<leftarrow> fold_opt (mark_unmapped k) (nodes_head (heap s c)) (upd c (\<lambda>n. n\<lparr>mapped := False\<rparr>) s);
     if con_type (heap s c) = CT_WORKSPACE then fold_opt (mark_unmapped k) (floating_head (heap s c)) s
     else Some s
   }"

definition tree_render :: "i3 \<Rightarrow> i3 option" where
  "tree_render s = do {
     s \<leftarrow> mark_unmapped (up_fuel s) (croot s) s;
     s \<leftarrow> render (croot s) (upd (croot s) (\<lambda>n. n\<lparr>mapped := True\<rparr>) s);
     Some (emit X_Push_Changes s)
   }"

section \<open>Closing\<close>

text \<open>
  \<open>rec\<close> stands for the recursive calls of \<open>tree_close_internal\<close>; the first component of the
  result says whether the container was closed.
\<close>

type_synonym closer = "con_id \<Rightarrow> kill_window \<Rightarrow> bool \<Rightarrow> i3 \<Rightarrow> (bool \<times> i3) option"

definition on_remove_child :: "closer \<Rightarrow> con_id \<Rightarrow> i3 \<Rightarrow> i3 option" where
  "on_remove_child rec c s =
     (if con_type (heap s c) = CT_OUTPUT \<or> con_type (heap s c) = CT_ROOT \<or>
         con_type (heap s c) = CT_DOCKAREA \<or>
         (case parent (heap s c) of Some p \<Rightarrow> con_type (heap s p) = CT_OUTPUT | None \<Rightarrow> False)
      then Some s
      else if con_type (heap s c) = CT_WORKSPACE then
        (if focus_head (heap s c) = [] then do {
           visible \<leftarrow> workspace_is_visible s c;
           if visible then Some s
           else map_option (\<lambda>(_, s). emit (Ipc_Workspace ''empty'' c None) s) (rec c DONT_KILL_WINDOW False s) }
         else Some s)
      else do {
        s \<leftarrow> con_force_split_parents_redraw c s;
        b \<leftarrow> con_has_urgent_child s c;
        s \<leftarrow> con_update_parents_urgency c (upd c (\<lambda>n. n\<lparr>urgent := b\<rparr>) s);
        if con_num_children s c = 0 then map_option snd (rec c DONT_KILL_WINDOW False s) else Some s })"

definition close_urgency :: "con_id \<Rightarrow> i3 \<Rightarrow> i3 option" where
  "close_urgency c s =
     (if urgent (heap s c) then do {
        s \<leftarrow> con_set_urgency c False s;
        s \<leftarrow> con_update_parents_urgency c s;
        ws \<leftarrow> con_get_workspace s c;
        w \<leftarrow> ws;
        workspace_update_urgent_flag w s }
      else Some s)"

text \<open>The children are closed in turn; one that is not closed at once aborts the operation.\<close>

definition close_children :: "closer \<Rightarrow> kill_window \<Rightarrow> con_id list \<Rightarrow> i3 \<Rightarrow> (bool \<times> i3) option" where
  "close_children rec kill ds s =
     fold_opt (\<lambda>d (ok, s). map_option (\<lambda>(b, s). (ok \<and> b, s)) (rec d kill True s)) ds (True, s)"

text \<open>The container itself, when nothing below it is left and its window is gone.\<close>

definition close_self :: "con_id \<Rightarrow> con_id \<Rightarrow> bool \<Rightarrow> i3 \<Rightarrow> i3 option" where
  "close_self c p dont_kill_parent s = do {
     ws \<leftarrow> con_get_workspace s c;
     nxt \<leftarrow> (if focused s = Some c then map_option Some (con_next_focused s c) else Some None);
     s \<leftarrow> con_detach c s;
     s \<leftarrow> (if urgency_timer (heap s c) then do {
             w \<leftarrow> ws;
             s \<leftarrow> workspace_update_urgent_flag w s;
             Some (upd c (\<lambda>n. n\<lparr>urgency_timer := False\<rparr>) s) }
           else Some s);
     let s = (if con_type (heap s c) \<noteq> CT_FLOATING_CON then con_fix_percent p s else s);
     s \<leftarrow> (if \<not> dont_kill_parent then tree_render s else Some s);
     let s = emit (X_Con_Kill c) s;
     let s = (if ws = Some c then emit Ewmh_Update_Desktop_Properties s else s);
     s \<leftarrow> con_free c s;
     (case nxt of Some d \<Rightarrow> con_activate d s | None \<Rightarrow> Some s)
   }"

definition close_rest :: "closer \<Rightarrow> con_id \<Rightarrow> con_id \<Rightarrow> bool \<Rightarrow> i3 \<Rightarrow> i3 option" where
  "close_rest rec c p dont_kill_parent s = do {
     s \<leftarrow> close_self c p dont_kill_parent s;
     if \<not> dont_kill_parent then on_remove_child rec p s else Some s
   }"

definition close_body :: "closer \<Rightarrow> closer" where
  "close_body rec c kill dont_kill_parent s = do {
     p \<leftarrow> parent (heap s c);
     s \<leftarrow> close_urgency c s;
     (ok, s) \<leftarrow> close_children rec kill (nodes_head (heap s c)) s;
     if \<not> ok then Some (False, s)
     else (case con_window (heap s c) of
        None \<Rightarrow> map_option (Pair True) (close_rest rec c p dont_kill_parent s)
      | Some w \<Rightarrow>
          if kill \<noteq> DONT_KILL_WINDOW then Some (False, emit (X_Window_Kill (win_id w) kill) s)
          else let s = emit (Ipc_Window ''close'' c) (emit (X_Window_Withdraw (win_id w)) s)
               in map_option (Pair True)
                    (close_rest rec c p dont_kill_parent (upd c (\<lambda>n. n\<lparr>con_window := None\<rparr>) s)))
   }"

fun close_loop :: "nat \<Rightarrow> closer" where
  "close_loop 0 c kill dkp s = None"
| "close_loop (Suc k) c kill dkp s = close_body (close_loop k) c kill dkp s"

text \<open>Every nested call goes one level down or one level up in the tree.\<close>

definition tree_close_internal :: closer where
  "tree_close_internal c kill dkp s = close_loop (up_fuel s) c kill dkp s"

definition con_on_remove_child :: "con_id \<Rightarrow> i3 \<Rightarrow> i3 option" where
  "con_on_remove_child c s = on_remove_child (close_loop (up_fuel s)) c s"

text \<open>
  The containers of a workspace are closed in the order of its focus stack; the successor is read
  before a container is closed.
\<close>

fun close_focused :: "nat \<Rightarrow> con_id \<Rightarrow> kill_window \<Rightarrow> con_id option \<Rightarrow> i3 \<Rightarrow> i3 option" where
  "close_focused k ws kill None s = Some s"
| "close_focused 0 ws kill (Some d) s = None"
| "close_focused (Suc k) ws kill (Some d) s =
     (if d \<in> set (focus_head (heap s ws)) then do {
        let nxt = next_of d (focus_head (heap s ws));
        (b, s) \<leftarrow> tree_close_internal d kill False s;
        close_focused k ws kill nxt s }
      else None)"

definition con_close :: "con_id \<Rightarrow> kill_window \<Rightarrow> i3 \<Rightarrow> i3 option" where
  "con_close c kill s =
     (if con_type (heap s c) = CT_OUTPUT \<or> con_type (heap s c) = CT_ROOT then Some s
      else if con_type (heap s c) = CT_WORKSPACE
      then close_focused (up_fuel s) c kill (list_first (focus_head (heap s c))) s
      else map_option snd (tree_close_internal c kill False s))"

section \<open>Splitting\<close>

definition orientation_layout :: "orientation \<Rightarrow> layout" where
  "orientation_layout ori = (if ori = HORIZ then L_SPLITH else L_SPLITV)"

text \<open>The last part of \<open>tree_split\<close>: a new container takes the place of \<open>c\<close>, which becomes its child.\<close>

definition split_around :: "con_id \<Rightarrow> con_id \<Rightarrow> orientation \<Rightarrow> i3 \<Rightarrow> i3 option" where
  "split_around c p ori s = do {
     let (new, s) = con_new_detached None s;
     let s = upd p (\<lambda>n. n\<lparr>nodes_head := replace_elem c new (nodes_head n),
                          focus_head := replace_elem c new (focus_head n)\<rparr>) s;
     let s = upd new (\<lambda>n. n\<lparr>parent := Some p, layout := orientation_layout ori,
                            percent := percent (heap s c)\<rparr>) s;
     let s = upd c (\<lambda>n. n\<lparr>percent := 0\<rparr>) s;
     con_attach c new False s
   }"

definition tree_split :: "con_id \<Rightarrow> orientation \<Rightarrow> i3 \<Rightarrow> i3 option" where
  "tree_split c ori s =
     (if con_is_floating s c then Some s
      else if con_type (heap s c) = CT_WORKSPACE \<and> con_num_children s c < 2 then
        let s = (if con_num_children s c = 0 then upd c (\<lambda>n. n\<lparr>workspace_layout := L_DEFAULT\<rparr>) s else s)
        in Some (upd c (\<lambda>n. n\<lparr>layout := orientation_layout ori\<rparr>) s)
      else do {
        (c, s) \<leftarrow> (if con_type (heap s c) = CT_WORKSPACE
                  then do { (r, s) \<leftarrow> workspace_encapsulate c s; d \<leftarrow> r; Some (d, s) }
                  else Some (c, s));
        p \<leftarrow> parent (heap s c);
        s \<leftarrow> con_force_split_parents_redraw c s;
        if con_num_children s p = 1 \<and> is_split_layout (layout (heap s p))
        then Some (upd p (\<lambda>n. n\<lparr>layout := orientation_layout ori\<rparr>) s)
        else split_around c p ori s })"

section \<open>Up and down\<close>

text \<open>The first component says whether the focus changed.\<close>

definition level_up :: "i3 \<Rightarrow> (bool \<times> i3) option" where
  "level_up s = do {
     f \<leftarrow> focused s;
     p \<leftarrow> parent (heap s f);
     if con_type (heap s p) = CT_FLOATING_CON then do {
       q \<leftarrow> parent (heap s p);
       map_option (Pair True) (con_activate q s) }
     else if (con_type (heap s p) \<noteq> CT_CON \<and> con_type (heap s p) \<noteq> CT_WORKSPACE) \<or>
             con_type (heap s f) = CT_WORKSPACE
     then Some (False, s)
     else map_option (Pair True) (con_activate p s)
   }"

definition level_down :: "i3 \<Rightarrow> (bool \<times> i3) option" where
  "level_down s = do {
     f \<leftarrow> focused s;
     (case focus_head (heap s f) of
        [] \<Rightarrow> Some (False, s)
      | d # _ \<Rightarrow>
          if con_type (heap s d) = CT_FLOATING_CON then
            (case focus_head (heap s d) of
               [] \<Rightarrow> Some (False, s)
             | e # _ \<Rightarrow> map_option (Pair True) (con_activate e s))
          else map_option (Pair True) (con_activate d s))
   }"

end
