(* ===== verification/Tree_Close.thy ===== *)
theory Tree_Close
  imports Tree
begin

text \<open>
  What closing containers keeps (\<open>tree_close_internal\<close>, \<open>con_on_remove_child\<close>, \<open>con_close\<close>): whenever
  the operation returns, the tree is well-formed, exactly a set of containers around the closed
  one is gone, and the focused container still exists.
\<close>

section \<open>Rendering moves nothing\<close>

text \<open>
  \<open>tree_close_internal\<close> renders while the closed container is detached; for that state only the
  frame of rendering is needed, which holds for any heap.
\<close>

definition renders_any :: "(con_id \<Rightarrow> i3 \<Rightarrow> i3 option) \<Rightarrow> bool" where
  "renders_any rec \<longleftrightarrow> (\<forall>d s t. rec d s = Some t \<longrightarrow> geom_only UNIV s t)"

lemma rendersD_any: "renders_any rec \<Longrightarrow> rec d s = Some t \<Longrightarrow> geom_only UNIV s0 s \<Longrightarrow> geom_only UNIV s0 t"
  unfolding renders_any_def using geom_only_trans by blast

lemma geom_any_upd:
  "geom_only UNIV s0 s \<Longrightarrow> mask_geom (f (heap s c)) = mask_geom (heap s c) \<Longrightarrow> geom_only UNIV s0 (upd c f s)"
  by (rule geom_only_upd) simp_all

lemma render_child_any:
  assumes r: "render_child rec c d i ps = Some qt" and rec: "renders_any rec"
    and g: "geom_only UNIV s0 (snd ps)"
  shows "geom_only UNIV s0 (snd qt)"
proof -
  obtain p s where ps: "ps = (p, s)" by (cases ps)
  obtain p' u where u: "place_child c d i (p, s) = Some (p', u)"
    using r ps by (auto simp: render_child_def bind_eq_Some)
  define v where "v = raise_con d (set_rect d (rect_sanitize_dimensions (con_rect (heap u d))) u)"
  have "geom_only UNIV s0 u" by (rule place_child_geom[OF u]) (use g ps in simp_all)
  then have gv: "geom_only UNIV s0 v" unfolding v_def geom_only_raise by (rule geom_only_set_rect) simp
  obtain w where w: "rec d v = Some w"
    and qt: "qt = (p', if is_split_layout (layout (heap w c)) \<and> con_is_leaf w d \<and>
                 con_border_style_field (heap w d) = BS_NORMAL
              then upd d (\<lambda>n. n\<lparr>deco_rect := (deco_rect n)\<lparr>rwidth := rwidth (con_rect n)\<rparr>\<rparr>) w
              else w)"
    using r u ps by (auto simp: render_child_def bind_eq_Some v_def Let_def)
  have "geom_only UNIV s0 w" by (rule rendersD_any[OF rec w gv])
  then show ?thesis unfolding qt by (auto intro!: geom_any_upd)
qed

lemma render_children_any:
  "render_children rec c ds i ps = Some qt \<Longrightarrow> renders_any rec \<Longrightarrow> geom_only UNIV s0 (snd ps) \<Longrightarrow>
   geom_only UNIV s0 (snd qt)"
proof (induction ds arbitrary: i ps)
  case (Cons d ds)
  then obtain qs where q: "render_child rec c d i ps = Some qs" "render_children rec c ds (Suc i) qs = Some qt"
    by (auto simp: bind_eq_Some)
  show ?case by (rule Cons.IH[OF q(2) Cons.prems(2) render_child_any[OF q(1) Cons.prems(2,3)]])
qed simp

lemma raise_any: "geom_only UNIV s0 (fold raise_con xs u) = geom_only UNIV s0 u"
  by (induction xs arbitrary: u) simp_all

lemma raise_focused_any:
  assumes r: "raise_focused rec c m s = Some t" and rec: "renders_any rec" and g: "geom_only UNIV s0 s"
  shows "geom_only UNIV s0 t"
proof (cases "stacked_or_tabbed (layout (heap s c))")
  case True
  then obtain u where u: "(case focus_head (heap s c) of [] \<Rightarrow> Some (fold raise_con (rev (focus_head (heap s c))) s)
      | d # _ \<Rightarrow> rec d (fold raise_con (rev (focus_head (heap s c))) s)) = Some u"
    "t = (if m \<noteq> 1 then raise_con c u else u)"
    using r by (auto simp: raise_focused_def Let_def bind_eq_Some)
  have gf: "geom_only UNIV s0 (fold raise_con (rev (focus_head (heap s c))) s)" using g by (simp add: raise_any)
  have "geom_only UNIV s0 u"
  proof (cases "focus_head (heap s c)")
    case Nil
    with u(1) gf show ?thesis by simp
  next
    case (Cons d ds)
    then have "rec d (fold raise_con (rev (focus_head (heap s c))) s) = Some u" using u(1) by simp
    from rendersD_any[OF rec this gf] show ?thesis .
  qed
  then show ?thesis by (simp add: u(2))
qed (use r g in \<open>simp add: raise_focused_def\<close>)

lemma render_floating_any:
  assumes r: "render_floating rec out s = Some t" and rec: "renders_any rec" and g: "geom_only UNIV s0 s"
  shows "geom_only UNIV s0 t"
proof -
  consider "t = s" | ws fs where "fold_opt (\<lambda>d s. do { b \<leftarrow> fullscreen_blocks_floating_render s fs d;
                   if b then Some s else rec d (raise_con d s) }) (floating_head (heap s ws)) s = Some t"
    using r by (auto simp: render_floating_def bind_eq_Some split: if_splits option.splits list.splits)
  then show ?thesis
  proof cases
    case 2
    show ?thesis
    proof (rule fold_opt_invariant[OF 2, where P = "geom_only UNIV s0", OF g])
      fix d u v
      assume "geom_only UNIV s0 u" and "do { b \<leftarrow> fullscreen_blocks_floating_render u fs d;
                   if b then Some u else rec d (raise_con d u) } = Some v"
      then show "geom_only UNIV s0 v"
        by (auto simp: bind_eq_Some split: if_splits intro: rendersD_any[OF rec])
    qed
  qed (use g in simp)
qed

lemma render_root_any:
  assumes r: "render_root rec c fs s = Some t" and rec: "renders_any rec" and g: "geom_only UNIV s0 s"
  shows "geom_only UNIV s0 t"
proof -
  obtain u where u: "(if fs = None then fold_opt rec (nodes_head (heap s c)) s else Some s) = Some u"
    "fold_opt (render_floating rec) (nodes_head (heap u c)) u = Some t"
    using r by (auto simp: render_root_def bind_eq_Some)
  have "geom_only UNIV s0 u"
  proof (cases "fs = None")
    case True
    then have f: "fold_opt rec (nodes_head (heap s c)) s = Some u" using u(1) by simp
    show ?thesis
      by (rule fold_opt_invariant[OF f, where P = "geom_only UNIV s0", OF g]) (rule rendersD_any[OF rec])
  qed (use u(1) g in auto)
  then show ?thesis
    by (rule fold_opt_invariant[OF u(2)]) (rule render_floating_any[OF _ rec])
qed

lemma measure_docks_any: "geom_only UNIV s0 s \<Longrightarrow> geom_only UNIV s0 (snd (measure_docks ds (h, s)))"
proof (induction ds arbitrary: h s)
  case (Cons d ds)
  have g: "geom_only UNIV s0 (upd d (\<lambda>n. n\<lparr>con_rect := (con_rect n)\<lparr>rheight := dock_height s d\<rparr>\<rparr>) s)"
    by (rule geom_any_upd[OF Cons.prems]) (simp add: mask_geom_def)
  show ?case using Cons.IH[OF Cons.prems] Cons.IH[OF g] by (simp add: Let_def)
qed simp

lemma render_areas_any:
  "render_areas rec c x h ds y s = Some t \<Longrightarrow> renders_any rec \<Longrightarrow> geom_only UNIV s0 s \<Longrightarrow> geom_only UNIV s0 t"
proof (induction ds arbitrary: y s)
  case (Cons d ds)
  define u where "u = place_output_child x y (rwidth (con_rect (heap s c))) h d s"
  obtain v where v: "rec d (raise_con d u) = Some v"
    "render_areas rec c x h ds (y + rheight (con_rect (heap u d))) v = Some t"
    using Cons.prems(1) by (auto simp: bind_eq_Some Let_def u_def)
  have "geom_only UNIV s0 u"
    unfolding u_def place_output_child_def by (rule geom_any_upd[OF Cons.prems(3)]) (simp add: mask_geom_def)
  then have "geom_only UNIV s0 v" by (intro rendersD_any[OF Cons.prems(2) v(1)]) simp
  then show ?case by (rule Cons.IH[OF v(2) Cons.prems(2)])
qed simp

lemma render_output_any:
  assumes r: "render_output rec c s = Some t" and rec: "renders_any rec" and g: "geom_only UNIV s0 s"
  shows "geom_only UNIV s0 t"
proof -
  consider "t = s"
    | f where "rec f (raise_con f (set_rect f (con_rect (heap s c)) s)) = Some t"
    | h u where "measure_docks (nodes_head (heap s c)) (rheight (con_rect (heap s c)), s) = (h, u)"
      "render_areas rec c (rx (con_rect (heap s c))) h (nodes_head (heap u c)) (ry (con_rect (heap s c))) u = Some t"
    using r by (auto simp: render_output_def bind_eq_Some Let_def split: option.splits prod.splits)
  then show ?thesis
  proof cases
    case 2
    show ?thesis by (rule rendersD_any[OF rec 2]) (simp add: geom_only_set_rect[OF g])
  next
    case 3
    have "geom_only UNIV s0 u" using measure_docks_any[OF g] 3(1) by (metis snd_conv)
    then show ?thesis by (rule render_areas_any[OF 3(2) rec])
  qed (use g in simp)
qed

lemma render_inside_any:
  assumes r: "render_inside rec c fs p s = Some t" and rec: "renders_any rec" and g: "geom_only UNIV s0 s"
  shows "geom_only UNIV s0 t"
proof -
  obtain zs where zs: "precalculate_sizes s c p = Some zs" using r by (auto simp: render_inside_def bind_eq_Some)
  define q where "q = p\<lparr>deco_height := render_deco_height (cfg s), sizes := zs\<rparr>"
  show ?thesis
  proof (cases "layout (heap s c) = L_OUTPUT")
    case True
    then consider "t = s" | "render_output rec c s = Some t"
      using r zs by (auto simp: render_inside_def bind_eq_Some split: if_splits)
    then show ?thesis using g by cases (auto intro: render_output_any[OF _ rec g])
  next
    case nl: False
    show ?thesis
    proof (cases "con_type (heap s c) = CT_ROOT")
      case True
      then have "render_root rec c fs s = Some t" using r zs nl by (simp add: render_inside_def)
      then show ?thesis by (rule render_root_any[OF _ rec g])
    next
      case False
      then obtain p' u where u: "render_children rec c (nodes_head (heap s c)) 0 (q, s) = Some (p', u)"
        "raise_focused rec c (num_children p') u = Some t"
        using r zs nl by (auto simp: render_inside_def bind_eq_Some q_def)
      have "geom_only UNIV s0 u" using render_children_any[OF u(1) rec] g by simp
      then show ?thesis by (rule raise_focused_any[OF u(2) rec])
    qed
  qed
qed

lemma render_con_any: "renders_any (render_con k)"
proof (induction k)
  case (Suc k)
  show ?case
    unfolding renders_any_def
  proof (intro allI impI)
    fix c s t assume r: "render_con (Suc k) c s = Some t"
    obtain p u v fs w where s: "render_gaps c s = Some (p, u)"
      "render_window c (upd c (\<lambda>n. n\<lparr>mapped := True\<rparr>) u) = Some v"
      "(case fs of None \<Rightarrow> Some v
        | Some f \<Rightarrow> render_con k f (raise_con f (set_rect f (p_rect p) v))) = Some w"
      "(if fs \<noteq> None \<and> con_type (heap w c) \<noteq> CT_ROOT then Some w
        else render_inside (render_con k) c fs p w) = Some t"
      by (rule render_con_cases[OF r])
    have "geom_only UNIV s u" by (rule render_gaps_geom[OF s(1) geom_only_refl]) simp
    then have "geom_only UNIV s (upd c (\<lambda>n. n\<lparr>mapped := True\<rparr>) u)" by (rule geom_any_upd) simp
    then have gv: "geom_only UNIV s v" by (rule render_window_geom[OF s(2)]) simp
    have gw: "geom_only UNIV s w"
    proof (cases fs)
      case (Some f)
      then have "render_con k f (raise_con f (set_rect f (p_rect p) v)) = Some w" using s(3) by simp
      then show ?thesis by (rule rendersD_any[OF Suc.IH]) (simp add: geom_only_set_rect[OF gv])
    qed (use s(3) gv in simp)
    show "geom_only UNIV s t"
    proof (cases "fs \<noteq> None \<and> con_type (heap w c) \<noteq> CT_ROOT")
      case False
      then have "render_inside (render_con k) c fs p w = Some t" using s(4) by auto
      then show ?thesis by (rule render_inside_any[OF _ Suc.IH gw])
    qed (use s(4) gw in simp)
  qed
qed (simp add: renders_any_def)

lemma mark_unmapped_geom: "mark_unmapped k c s = Some t \<Longrightarrow> geom_only UNIV s t"
proof (induction k arbitrary: c s t)
  case (Suc k)
  have f: "fold_opt (mark_unmapped k) ds u = Some v \<Longrightarrow> geom_only UNIV s u \<Longrightarrow> geom_only UNIV s v" for ds u v
    by (rule fold_opt_invariant[where P = "geom_only UNIV s"]) (auto intro: geom_only_trans Suc.IH)
  obtain u where u: "fold_opt (mark_unmapped k) (nodes_head (heap s c)) (upd c (\<lambda>n. n\<lparr>mapped := False\<rparr>) s) = Some u"
    "(if con_type (heap u c) = CT_WORKSPACE then fold_opt (mark_unmapped k) (floating_head (heap u c)) u
      else Some u) = Some t"
    using Suc.prems by (auto simp: bind_eq_Some)
  have "geom_only UNIV s u" by (rule f[OF u(1)]) (auto intro: geom_any_upd)
  with u(2) f show ?case by (auto split: if_splits)
qed simp

lemma tree_render_geom:
  assumes "tree_render s = Some t" shows "geom_only UNIV s t"
proof -
  obtain u v where u: "mark_unmapped (up_fuel s) (croot s) s = Some u"
    "render (croot u) (upd (croot u) (\<lambda>n. n\<lparr>mapped := True\<rparr>) u) = Some v" "t = emit X_Push_Changes v"
    using assms by (auto simp: tree_render_def bind_eq_Some)
  have "geom_only UNIV s (upd (croot u) (\<lambda>n. n\<lparr>mapped := True\<rparr>) u)"
    by (rule geom_any_upd[OF mark_unmapped_geom[OF u(1)]]) simp
  from rendersD_any[OF render_con_any u(2)[unfolded render_def] this] show ?thesis by (simp add: u(3))
qed

section \<open>The next focused container\<close>

lemma next_focused_descend_sub:
  assumes wf: "wf_tree {} s"
  shows "next_focused_descend n s c x = Some r \<Longrightarrow> x \<in> live s \<Longrightarrow> r \<in> subtree s x"
proof (induction n arbitrary: x)
  case (Suc n)
  show ?case
  proof (cases "focus_head (heap s x)")
    case (Cons d ds)
    show ?thesis
    proof (cases "d = c")
      case False
      have d: "d \<in> children s x"
        by (rule focus_step_child[OF wf Suc.prems(2)]) (simp add: focus_step_def Cons)
      have "r \<in> subtree s d"
        by (rule Suc.IH) (use Suc.prems Cons False child_parent(2)[OF wf Suc.prems(2) d] in simp_all)
      with d show ?thesis by (auto simp: subtree_unfold[OF Suc.prems(2)])
    qed (use Suc.prems Cons in simp)
  qed (use Suc.prems in simp)
qed simp

lemma descend_focused_sub:
  assumes "wf_tree {} s" "c \<in> live s" "con_descend_focused s c = Some r"
  shows "r \<in> subtree s c"
  using descend_loop_spec[OF assms(1,2)] assms(3) focus_path_subtree[OF assms(1) _ assms(2)] by auto

text \<open>Descending from beside a child never enters the child's subtree.\<close>

lemma sibling_avoids:
  assumes wf: "wf_tree {} s" and p: "p \<in> live s" and c: "c \<in> children s p" and d: "d \<in> children s p" "d \<noteq> c"
    and x: "x \<in> subtree s d" and y: "y \<in> subtree s c"
  shows "x \<noteq> y"
  using sibling_subtrees_disjoint[OF wf, of c p d] p c d x y by (auto simp: child_rel_def)

lemma next_beside:
  assumes wf: "wf_tree {} s" and p: "p \<in> live s" and c: "c \<in> children s p"
    and n: "(if list_first (focus_head (heap s p)) \<noteq> Some c then list_first (focus_head (heap s p))
             else case next_of c (focus_head (heap s p)) of Some d \<Rightarrow> Some d | None \<Rightarrow> Some p) = Some nxt"
    and r: "next_focused_descend k s c nxt = Some r"
  shows "r \<in> live s \<and> r \<notin> subtree s c \<and> (r = p \<or> (\<exists>d \<in> children s p. d \<noteq> c \<and> r \<in> subtree s d))"
proof -
  note w = wf_conD[OF wf_treeD(7)[OF wf p]]
  have np: "p \<notin> subtree s c" by (rule not_below_child[OF wf]) (use p c in \<open>simp add: child_rel_def\<close>)
  show ?thesis
  proof (cases "nxt = p")
    case True
    have "p \<notin> children s p" using np p c wf not_below_child[OF wf, of p p] by (auto simp: child_rel_def)
    then have "p \<notin> set (focus_head (heap s p))" by (simp add: w(4))
    with n True have "list_first (focus_head (heap s p)) = Some c"
      by (auto split: if_splits dest: list_first_in)
    then have "r = p" using r True by (cases k; cases "focus_head (heap s p)") auto
    with p np show ?thesis by simp
  next
    case False
    then have "nxt \<in> set (focus_head (heap s p))" "nxt \<noteq> c"
      using n next_of_neq[OF w(3)] by (auto split: if_splits option.splits dest: list_first_in next_of_in)
    then have d: "nxt \<in> children s p" by (simp add: w(4))
    then have rs: "r \<in> subtree s nxt" using next_focused_descend_sub[OF wf r] w(5) by blast
    then have "r \<in> live s" using subtree_live[OF wf] w(5)[OF d] by blast
    moreover have "r \<notin> subtree s c" using sibling_avoids[OF wf p c d \<open>nxt \<noteq> c\<close> rs] by blast
    ultimately show ?thesis using d \<open>nxt \<noteq> c\<close> rs by blast
  qed
qed

lemma next_focused_tiled:
  assumes wf: "wf_tree {} s" and c: "c \<in> live s" "parent (heap s c) = Some p"
    and n: "(if list_first (focus_head (heap s p)) \<noteq> Some c then list_first (focus_head (heap s p))
             else case next_of c (focus_head (heap s p)) of Some d \<Rightarrow> Some d | None \<Rightarrow> Some p) = Some nxt"
    and r: "next_focused_descend k s c nxt = Some m"
    and f: "(if t \<and> Some p \<noteq> Some m then con_descend_focused s m else Some m) = Some r"
  shows "r \<in> live s \<and> r \<notin> subtree s c"
proof -
  note p = parent_linked[OF wf c(1) _ c(2)]
  have b: "m \<in> live s \<and> m \<notin> subtree s c \<and> (m = p \<or> (\<exists>d \<in> children s p. d \<noteq> c \<and> m \<in> subtree s d))"
    by (rule next_beside[OF wf p(1) p(2) n r]) simp_all
  show ?thesis
  proof (cases "r = m")
    case False
    then have mp: "m \<noteq> p" "con_descend_focused s m = Some r" using f by (auto split: if_splits)
    then obtain d where d: "d \<in> children s p" "d \<noteq> c" "m \<in> subtree s d" using b by blast
    have rm: "r \<in> subtree s m" by (rule descend_focused_sub[OF wf _ mp(2)]) (use b in simp)
    then have "r \<in> subtree s d" using d(3) by (auto simp: subtree_def intro: rtrancl_trans)
    then have "r \<notin> subtree s c" using sibling_avoids[OF wf p(1) p(2) d(1,2)] by blast
    moreover have "r \<in> live s" using rm b subtree_live[OF wf, of m] by blast
    ultimately show ?thesis by blast
  qed (use b in simp)
qed

lemma con_next_focused_avoids:
  assumes wf: "wf_tree {} s" and c: "c \<in> live s" and r: "con_next_focused s c = Some r"
  shows "r \<in> live s \<and> r \<noteq> c"
proof -
  obtain p where p: "parent (heap s c) = Some p" using r by (auto simp: con_next_focused_def bind_eq_Some)
  note pl = parent_linked[OF wf c _ p, simplified]
  have cp: "c \<in> subtree s p" unfolding subtree_unfold[OF pl(1)] using pl(2) by (blast intro: subtree_self)
  show ?thesis
  proof (cases "con_type (heap s p) = CT_DOCKAREA")
    case True
    then obtain out content where o: "parent (heap s p) = Some out" "output_get_content s out = Some content"
      "con_descend_focused s content = Some r"
      using r p by (auto simp: con_next_focused_def bind_eq_Some)
    note ol = parent_linked[OF wf pl(1) _ o(1), simplified]
    have ct: "content \<in> children s out" "con_type (heap s content) = CT_CON"
      using o(2) by (auto simp: output_get_content_def children_def dest: find_SomeD)
    then have cl: "content \<in> live s" using wf_conD(5)[OF wf_treeD(7)[OF wf ol(1)]] by blast
    have rs: "r \<in> subtree s content" by (rule descend_focused_sub[OF wf cl o(3)])
    have "content \<noteq> p" using ct(2) True by auto
    moreover have "c \<in> subtree s p" by (rule cp)
    ultimately have "r \<noteq> c" using sibling_avoids[OF wf ol(1) ol(2) ct(1) _ rs] by blast
    then show ?thesis using rs subtree_live[OF wf cl] by blast
  next
    case False
    obtain c' p' nxt m where s: "(if con_is_floating s c then parent (heap s c) else Some c) = Some c'"
      "parent (heap s c') = Some p'"
      "(if list_first (focus_head (heap s p')) \<noteq> Some c' then list_first (focus_head (heap s p'))
             else case next_of c' (focus_head (heap s p')) of Some d \<Rightarrow> Some d | None \<Rightarrow> Some p') = Some nxt"
      "next_focused_descend (up_fuel s) s c' nxt = Some m"
      "(if con_type (heap s c') = CT_FLOATING_CON \<and> Some p' \<noteq> Some m then con_descend_focused s m else Some m) = Some r"
      using r p False by (auto simp: con_next_focused_def bind_eq_Some Let_def)
    have c': "c' \<in> live s" "c \<in> subtree s c'"
      using cp s(1) c p pl(1) by (auto split: if_splits)
    from next_focused_tiled[OF wf c'(1) s(2-5)] c'(2) show ?thesis by auto
  qed
qed

section \<open>Taking containers out of the tree\<close>

lemma con_free_wf:
  assumes wf: "wf_tree (insert c D) s" and cD: "c \<notin> D" and ch: "children s c = {}"
    and f: "con_free c s = Some t"
  shows "wf_tree D t" and "live t = live s - {c}" and "heap t = heap s" and "focused t = focused s"
    and "croot t = croot s"
proof -
  have t: "t = s\<lparr>all_cons := remove1 c (all_cons s)\<rparr>" "c \<in> live s"
    using f by (auto simp: con_free_def unlink_def live_def split: if_splits)
  show h: "heap t = heap s" "focused t = focused s" "croot t = croot s" by (simp_all add: t)
  show l: "live t = live s - {c}" using wf_treeD(1)[OF wf] by (auto simp: t(1) live_def)
  have ct: "children t x = children s x" for x by (simp add: children_def h)
  have nc: "c \<notin> children s x" if "x \<in> live s" for x using wf_treeD(9)[OF wf _ that] by blast
  have w: "wf_con t x" if "x \<in> live t" for x
    using wf_treeD(7)[OF wf, of x] nc[of x] that unfolding wf_con_def ct h l by auto
  have r: "child_rel t \<subseteq> child_rel s" by (auto simp: child_rel_def ct l)
  have up: "\<exists>p \<in> live t. parent (heap t x) = Some p \<and> x \<in> children t p"
    if x: "x \<in> live t" "x \<notin> D" "x \<noteq> croot t" for x
  proof -
    obtain p where "p \<in> live s" "parent (heap s x) = Some p" "x \<in> children s p"
      using wf_treeD(8)[OF wf, of x] x l h by auto
    with ch show ?thesis by (auto simp: l h ct intro!: bexI[of _ p])
  qed
  show "wf_tree D t"
    unfolding wf_tree_def
  proof (intro conjI ballI)
    show "distinct (all_cons t)" using wf_treeD(1)[OF wf] by (simp add: t(1))
    show "x < next_id t" if "x \<in> live t" for x using wf_treeD(10)[OF wf, of x] that l by (simp add: t(1))
    show "croot t \<in> live t" using wf_treeD(2,4)[OF wf] by (auto simp: l h)
    show "parent (heap t (croot t)) = None" using wf_treeD(3)[OF wf] by (simp add: h)
    show "croot t \<notin> D" using wf_treeD(4)[OF wf] by (simp add: h)
    show "D \<subseteq> live t" using wf_treeD(5)[OF wf] cD by (auto simp: l)
    show "wf_con t x" if "x \<in> live t" for x by (rule w[OF that])
    show "\<exists>p \<in> live t. parent (heap t x) = Some p \<and> x \<in> children t p"
      if "x \<in> live t - D - {croot t}" for x using up that by blast
    show "x \<notin> children t p" if "x \<in> D" "p \<in> live t" for x p
      using wf_treeD(9)[OF wf, of x p] that by (simp add: ct l)
    show "acyclic (child_rel t)" by (rule acyclic_subset[OF wf_treeD(6)[OF wf] r])
  qed
qed

text \<open>
  \<open>t\<close> is \<open>s\<close> without the containers \<open>X\<close>: every other container keeps its type, its parent and the
  order of its remaining children.
\<close>

definition pruned :: "con_id set \<Rightarrow> i3 \<Rightarrow> i3 \<Rightarrow> bool" where
  "pruned X s t \<longleftrightarrow> croot t = croot s \<and> live t = live s - X \<and>
     (\<forall>x. con_type (heap t x) = con_type (heap s x) \<and> parent (heap t x) = parent (heap s x)) \<and>
     (\<forall>x \<in> live t. nodes_head (heap t x) = filter (\<lambda>d. d \<notin> X) (nodes_head (heap s x)) \<and>
        set (floating_head (heap t x)) = set (floating_head (heap s x)) - X)"

lemma prunedD:
  assumes "pruned X s t"
  shows "croot t = croot s" "live t = live s - X" "con_type (heap t x) = con_type (heap s x)"
    "parent (heap t x) = parent (heap s x)"
    "x \<in> live t \<Longrightarrow> nodes_head (heap t x) = filter (\<lambda>d. d \<notin> X) (nodes_head (heap s x))"
    "x \<in> live t \<Longrightarrow> set (floating_head (heap t x)) = set (floating_head (heap s x)) - X"
    "x \<in> live t \<Longrightarrow> children t x = children s x - X"
  using assms by (auto simp: pruned_def children_def)

lemma pruned_trans: "pruned X s t \<Longrightarrow> pruned Y t u \<Longrightarrow> pruned (X \<union> Y) s u"
  unfolding pruned_def by (auto simp: filter_filter conj_commute)

text \<open>The operations that reorder at most the focus stacks and the floating containers.\<close>

definition same_shape :: "i3 \<Rightarrow> i3 \<Rightarrow> bool" where
  "same_shape s t \<longleftrightarrow> same_tree s t \<and> (\<forall>x. nodes_head (heap t x) = nodes_head (heap s x))"

lemma same_shape_refl [simp]: "same_shape s s" by (simp add: same_shape_def)

lemma same_shape_trans [trans]: "same_shape s t \<Longrightarrow> same_shape t u \<Longrightarrow> same_shape s u"
  unfolding same_shape_def using same_tree_trans by metis

lemma same_shape_links: "same_links s t \<Longrightarrow> same_shape s t"
  by (simp add: same_shape_def same_tree_links same_linksD)

lemma same_shape_mask: "same_tree s t \<Longrightarrow> same_mask s t \<Longrightarrow> same_shape s t"
  using mask_focusD(12) unfolding same_shape_def same_mask_def by blast

lemma same_shape_urgency: "urgency_frame s t \<Longrightarrow> same_shape s t"
  by (simp add: urgency_frame_def same_shape_links)

lemma same_shape_emit [simp]: "same_shape s (emit e s)" by (simp add: same_shape_links)

lemma pruned_same: "same_shape s t \<Longrightarrow> pruned {} s t"
  unfolding pruned_def same_shape_def by (auto simp: same_treeD)

lemma pruned_then: "pruned X s t \<Longrightarrow> same_shape t u \<Longrightarrow> pruned X s u"
  using pruned_trans[of X s t "{}" u] pruned_same by simp

lemma then_pruned: "same_shape s t \<Longrightarrow> pruned X t u \<Longrightarrow> pruned X s u"
  using pruned_trans[of "{}" s t X u] pruned_same by simp

lemma pruned_floats: "pruned X s t \<Longrightarrow> floats_on_ws s \<Longrightarrow> floats_on_ws t"
  unfolding floats_on_ws_def
proof (intro ballI impI)
  fix p assume a: "pruned X s t" "\<forall>p \<in> live s. floating_head (heap s p) \<noteq> [] \<longrightarrow> con_type (heap s p) = CT_WORKSPACE"
    "p \<in> live t" "floating_head (heap t p) \<noteq> []"
  then have "floating_head (heap s p) \<noteq> []" using prunedD(6)[OF a(1,3)] by (cases "floating_head (heap s p)") auto
  with a show "con_type (heap t p) = CT_WORKSPACE" by (auto simp: prunedD(2,3)[OF a(1)])
qed

lemma pruned_rel: "pruned X s t \<Longrightarrow> child_rel t \<subseteq> child_rel s"
  by (auto simp: child_rel_def prunedD(2,7))

lemma pruned_subtree: "pruned X s t \<Longrightarrow> subtree t c \<subseteq> subtree s c"
  unfolding subtree_def using rtrancl_mono[OF pruned_rel] by blast

section \<open>Closing one container\<close>

lemma detached_shape:
  assumes wf: "wf_tree {} s" and c: "c \<in> live s" and lo: "links_out c p s a" and p: "p \<in> live s" "c \<in> children s p"
    and sh: "same_shape a b" and l: "live t = live b - {c}" and h: "heap t = heap b" and r: "croot t = croot b"
  shows "pruned {c} s t"
proof -
  note e = same_treeD[OF sh[unfolded same_shape_def, THEN conjunct1]]
  have ne: "nodes_head (heap b x) = nodes_head (heap a x)" for x using sh by (simp add: same_shape_def)
  have la: "live a = live s" using lo by (simp add: links_out_def live_def)
  have *: "nodes_head (heap t x) = filter (\<lambda>d. d \<notin> {c}) (nodes_head (heap s x)) \<and>
      set (floating_head (heap t x)) = set (floating_head (heap s x)) - {c}" if x: "x \<in> live s" for x
  proof (cases "x = p")
    case True
    note w = wf_conD[OF wf_treeD(7)[OF wf p(1)]]
    have "nodes_head (heap t x) = remove1 c (nodes_head (heap s p))"
      using lo True by (simp add: h ne links_out_def)
    moreover have "set (floating_head (heap t x)) = set (remove1 c (floating_head (heap s p)))"
      using lo True by (simp add: h e(7) links_out_def)
    ultimately show ?thesis using True w(1,2) by (auto simp: remove1_filter)
  next
    case False
    then have "c \<notin> children s x"
      using child_parent(1)[OF wf x, of c] child_parent(1)[OF wf p] by auto
    then have "filter (\<lambda>d. d \<notin> {c}) (nodes_head (heap s x)) = nodes_head (heap s x)" "c \<notin> set (floating_head (heap s x))"
      unfolding filter_id_conv by (auto simp: children_def)
    with False lo show ?thesis by (simp add: h ne e(7) links_out_def)
  qed
  have "live t = live s - {c}" using e(12) la by (simp add: l)
  then show ?thesis
    unfolding pruned_def using * lo by (auto simp: r h e(3,4,5) links_out_def)
qed

lemma close_self_ok:
  assumes i3: "wf_i3 s" and c: "c \<in> live s" and p: "parent (heap s c) = Some p" and ch: "children s c = {}"
    and r: "close_self c p dkp s = Some t"
  shows "wf_i3 t \<and> pruned {c} s t"
proof -
  have wf: "wf_tree {} s" using i3 by (simp add: wf_i3_def)
  obtain ws where s1: "con_get_workspace s c = Some ws"
    using r unfolding close_self_def by (rule bind_SomeE)
  obtain nxt where s2: "(if focused s = Some c then map_option Some (con_next_focused s c) else Some None) = Some nxt"
    using r unfolding close_self_def s1 bind.bind_lunit by (rule bind_SomeE)
  obtain a where s3: "con_detach c s = Some a"
    using r unfolding close_self_def s1 s2 bind.bind_lunit by (rule bind_SomeE)
  obtain b where s4: "(if urgency_timer (heap a c) then do {
             w \<leftarrow> ws;
             s \<leftarrow> workspace_update_urgent_flag w a;
             Some (upd c (\<lambda>n. n\<lparr>urgency_timer := False\<rparr>) s) }
           else Some a) = Some b"
    using r unfolding close_self_def s1 s2 s3 bind.bind_lunit by (rule bind_SomeE)
  define d where "d = (if con_type (heap b c) \<noteq> CT_FLOATING_CON then con_fix_percent p b else b)"
  obtain e where s5: "(if \<not> dkp then tree_render d else Some d) = Some e"
    using r unfolding close_self_def s1 s2 s3 s4 bind.bind_lunit Let_def d_def[symmetric] by (rule bind_SomeE)
  define f where "f = (if ws = Some c then emit Ewmh_Update_Desktop_Properties (emit (X_Con_Kill c) e) else emit (X_Con_Kill c) e)"
  obtain g where s6: "con_free c f = Some g"
    using r unfolding close_self_def s1 s2 s3 s4 bind.bind_lunit Let_def d_def[symmetric] s5 f_def[symmetric]
    by (rule bind_SomeE)
  have s7: "(case nxt of Some d \<Rightarrow> con_activate d g | None \<Rightarrow> Some g) = Some t"
    using r unfolding close_self_def s1 s2 s3 s4 bind.bind_lunit Let_def d_def[symmetric] s5 f_def[symmetric] s6 .
  have nr: "c \<noteq> croot s" using p wf_treeD(3)[OF wf] by auto
  obtain q where q: "parent (heap s c) = Some q" "q \<in> live s" "c \<in> children s q"
    "links_out c q s a" "wf_tree (insert c {}) a" "links_only s a"
    by (rule con_detach_links[OF wf c _ nr]) (use s3 in auto)
  have ab: "same_shape a b \<and> focused b = focused a"
  proof (cases "urgency_timer (heap a c)")
    case True
    then obtain w u where u: "workspace_update_urgent_flag w a = Some u"
      "b = upd c (\<lambda>n. n\<lparr>urgency_timer := False\<rparr>) u" using s4 by (auto simp: bind_eq_Some)
    note fr = update_flag_frame[OF u(1)]
    have "same_shape u b" unfolding u(2) by (intro same_shape_links same_links_upd) simp_all
    then show ?thesis using same_shape_trans[OF same_shape_urgency[OF fr]] fr u(2) by (simp add: urgency_frame_def)
  qed (use s4 in simp)
  have bd: "same_shape b d \<and> focused d = focused b"
    by (simp add: d_def same_shape_links con_fix_percent_links)
  have de: "same_shape d e \<and> focused e = focused d"
    using s5 tree_render_geom[of d e] same_shape_links[OF geom_only_links, of UNIV d e]
    by (cases dkp) (simp_all add: geom_only_def)
  have ef: "same_shape e f \<and> focused f = focused e"
    using same_shape_trans[OF same_shape_emit same_shape_emit] by (simp add: f_def)
  have af: "same_shape a f"
    by (rule same_shape_trans[OF _ same_shape_trans[OF _ same_shape_trans]]) (use ab bd de ef in blast)+
  note sf = af[unfolded same_shape_def, THEN conjunct1]
  have wff: "wf_tree {c} f" using q(5) same_tree_wf[OF sf] by simp
  have cf: "children f c = {}"
    using links_out_wf(3)[OF q(4) wf q(2,3), of c] q(3) ch by (auto simp: same_treeD(14)[OF sf])
  have gf: "wf_tree {} g" "live g = live f - {c}" "heap g = heap f" "focused g = focused f" "croot g = croot f"
    by (rule con_free_wf[OF wff _ cf s6]; simp)+
  have pr: "pruned {c} s g" by (rule detached_shape[OF wf c q(4,2,3) af gf(2,3,5)])
  show ?thesis
  proof (cases "focused s = Some c")
    case True
    then obtain m where m: "nxt = Some m" "con_next_focused s c = Some m" using s2 by auto
    note act = con_activate_frame[of m g t]
    have act': "same_tree g t" "same_mask g t" "focused t = Some m" using s7 m act by auto
    have "m \<in> live g" using con_next_focused_avoids[OF wf c m(2)] prunedD(2)[OF pr] by simp
    then show ?thesis
      using act' gf(1) pruned_then[OF pr same_shape_mask[OF act'(1,2)]]
      by (simp add: wf_i3_def same_tree_wf[OF act'(1)] same_treeD[OF act'(1)])
  next
    case False
    then have "t = g" using s2 s7 by auto
    moreover have "focused g = focused s" using ab bd de ef gf(4) q(6) by (simp add: links_onlyD)
    ultimately show ?thesis using pr i3 gf(1) False prunedD(2)[OF pr] by (auto simp: wf_i3_def)
  qed
qed

section \<open>Closing a subtree\<close>

text \<open>What a successful call of \<open>tree_close_internal\<close> does, as a property of the recursive calls.\<close>

definition closes :: "con_id \<Rightarrow> bool \<Rightarrow> i3 \<Rightarrow> bool \<Rightarrow> i3 \<Rightarrow> bool" where
  "closes c dkp s b t \<longleftrightarrow> wf_i3 t \<and> floats_on_ws t \<and>
     (\<exists>X. pruned X s t \<and> (b \<longrightarrow> c \<in> X) \<and> X \<subseteq> subtree s c \<union> (if dkp then {} else {x. c \<in> subtree s x}))"

definition closable :: "i3 \<Rightarrow> con_id \<Rightarrow> bool" where
  "closable s c \<longleftrightarrow> wf_i3 s \<and> floats_on_ws s \<and> c \<in> live s \<and> (\<forall>d \<in> subtree s c. floating_head (heap s d) = [])"

definition closer_ok :: "closer \<Rightarrow> bool" where
  "closer_ok rec \<longleftrightarrow> (\<forall>c kill dkp s b t. closable s c \<longrightarrow> rec c kill dkp s = Some (b, t) \<longrightarrow> closes c dkp s b t)"

lemma closer_okD: "closer_ok rec \<Longrightarrow> rec c kill dkp s = Some (b, t) \<Longrightarrow> closable s c \<Longrightarrow> closes c dkp s b t"
  unfolding closer_ok_def by blast

lemma same_shape_state:
  assumes "same_shape s t" and "focused t = focused s"
  shows "wf_i3 t = wf_i3 s" "floats_on_ws t = floats_on_ws s" "closable t c = closable s c"
    "subtree t = subtree s" "live t = live s"
proof -
  note st = assms(1)[unfolded same_shape_def, THEN conjunct1]
  note e = same_treeD[OF st]
  have fl: "floating_head (heap t x) = [] \<longleftrightarrow> floating_head (heap s x) = []" for x
    using e(7)[of x] by (metis set_empty2)
  show 1: "wf_i3 t = wf_i3 s" using same_tree_wf[OF st] by (simp add: wf_i3_def assms(2) e(12))
  show 2: "floats_on_ws t = floats_on_ws s" by (simp add: floats_on_ws_def e fl)
  show 3: "subtree t = subtree s" by (rule same_tree_subtree[OF st])
  show "live t = live s" by (rule e(12))
  then show "closable t c = closable s c" by (simp add: closable_def 1 2 3 fl)
qed

lemma closes_before:
  assumes "same_shape s a" and "subtree a = subtree s" and "closes c dkp a b t"
  shows "closes c dkp s b t"
  using assms(3) then_pruned[OF assms(1)] unfolding closes_def assms(2) by blast

lemma closes_after:
  assumes c: "closes c dkp s b a" and sh: "same_shape a t" "focused t = focused a"
  shows "closes c dkp s b t"
  using c pruned_then[OF _ sh(1)] unfolding closes_def same_shape_state[OF sh] by blast

text \<open>The children are closed one after the other; what is closed lies below them.\<close>

lemma close_children_ok:
  assumes rec: "closer_ok rec" and wf: "wf_tree {} s0" and c: "c \<in> live s0"
  shows "fold_opt (\<lambda>d (ok, s). map_option (\<lambda>(b, s). (ok \<and> b, s)) (rec d kill True s)) ds (ok, s) = Some (ok', t) \<Longrightarrow>
    set ds \<subseteq> children s0 c \<Longrightarrow> distinct ds \<Longrightarrow> pruned X s0 s \<Longrightarrow> X \<subseteq> subtree s0 c - {c} \<Longrightarrow>
    \<forall>d \<in> set ds. X \<inter> subtree s0 d = {} \<Longrightarrow> wf_i3 s \<Longrightarrow> floats_on_ws s \<Longrightarrow>
    \<forall>d \<in> subtree s0 c - {c}. floating_head (heap s0 d) = [] \<Longrightarrow>
    \<exists>Y. pruned Y s0 t \<and> X \<subseteq> Y \<and> Y \<subseteq> subtree s0 c - {c} \<and> (ok' \<longrightarrow> set ds \<subseteq> Y) \<and> (ok' \<longrightarrow> ok) \<and> wf_i3 t \<and> floats_on_ws t"
proof (induction ds arbitrary: ok s X)
  case Nil
  then show ?case by auto
next
  case (Cons d ds)
  obtain b u where u: "rec d kill True s = Some (b, u)"
    "fold_opt (\<lambda>d (ok, s). map_option (\<lambda>(b, s). (ok \<and> b, s)) (rec d kill True s)) ds (ok \<and> b, u) = Some (ok', t)"
    using Cons.prems(1) by (auto simp: bind_eq_Some)
  have dc: "d \<in> children s0 c" using Cons.prems(2) by simp
  have dl: "d \<in> live s0" by (rule child_parent(2)[OF wf c dc])
  have nc: "c \<notin> subtree s0 d" by (rule not_below_child[OF wf]) (use dc c in \<open>simp add: child_rel_def\<close>)
  have sub: "subtree s0 d \<subseteq> subtree s0 c - {c}" using dc nc by (auto simp: subtree_unfold[OF c])
  have dX: "d \<notin> X" using Cons.prems(6) subtree_self[of d s0] by (auto simp del: subtree_self)
  have dls: "d \<in> live s" using prunedD(2)[OF Cons.prems(4)] dl dX by simp
  have fl: "floating_head (heap s x) = []" if "x \<in> subtree s d" for x
  proof -
    have x: "x \<in> live s" using subtree_live[OF _ dls] Cons.prems(7) that by (auto simp: wf_i3_def)
    have "floating_head (heap s0 x) = []" using Cons.prems(9) pruned_subtree[OF Cons.prems(4)] sub that by blast
    then show ?thesis using prunedD(6)[OF Cons.prems(4) x] by simp
  qed
  have "closable s d" using Cons.prems(7,8) dls fl by (simp add: closable_def)
  from closer_okD[OF rec u(1) this] obtain Z where Z: "pruned Z s u" "b \<longrightarrow> d \<in> Z" "Z \<subseteq> subtree s d"
    "wf_i3 u" "floats_on_ws u" unfolding closes_def by auto
  have Zd: "Z \<subseteq> subtree s0 d" using Z(3) pruned_subtree[OF Cons.prems(4)] by blast
  have dj: "subtree s0 e \<inter> subtree s0 d = {}" if "e \<in> set ds" for e
    by (rule sibling_subtrees_disjoint[OF wf]) (use that Cons.prems(2,3) c in \<open>auto simp: child_rel_def\<close>)
  have "\<exists>Y. pruned Y s0 t \<and> X \<union> Z \<subseteq> Y \<and> Y \<subseteq> subtree s0 c - {c} \<and> (ok' \<longrightarrow> set ds \<subseteq> Y) \<and> (ok' \<longrightarrow> ok \<and> b) \<and> wf_i3 t \<and> floats_on_ws t"
  proof (rule Cons.IH[OF u(2)])
    show "set ds \<subseteq> children s0 c" "distinct ds" using Cons.prems(2,3) by simp_all
    show "pruned (X \<union> Z) s0 u" by (rule pruned_trans[OF Cons.prems(4) Z(1)])
    show "X \<union> Z \<subseteq> subtree s0 c - {c}" using Cons.prems(5) Zd sub by blast
    show "\<forall>e \<in> set ds. (X \<union> Z) \<inter> subtree s0 e = {}" using Cons.prems(6) Zd dj by auto
  qed (use Z(4,5) Cons.prems(9) in simp_all)
  then obtain Y where "pruned Y s0 t" "X \<union> Z \<subseteq> Y" "Y \<subseteq> subtree s0 c - {c}" "ok' \<longrightarrow> set ds \<subseteq> Y" "ok' \<longrightarrow> ok \<and> b"
    "wf_i3 t" "floats_on_ws t" by blast
  with Z(2) show ?case by (intro exI[of _ Y]) auto
qed

text \<open>After the container itself is gone, its parent may be closed as well.\<close>

lemma on_remove_child_ok:
  assumes rec: "closer_ok rec" and i3: "wf_i3 s" "floats_on_ws s" and p: "p \<in> live s"
    and r: "on_remove_child rec p s = Some t"
  shows "\<exists>X. pruned X s t \<and> X \<subseteq> {x. p \<in> subtree s x} \<and> wf_i3 t \<and> floats_on_ws t"
proof -
  have wf: "wf_tree {} s" using i3(1) by (simp add: wf_i3_def)
  have none: "?thesis" if "same_shape s t" "focused t = focused s"
    using pruned_same[OF that(1)] i3 by (auto simp: same_shape_state[OF that])
  have rec_ok: "\<exists>X. pruned X s v \<and> X \<subseteq> {x. p \<in> subtree s x} \<and> wf_i3 v \<and> floats_on_ws v"
    if u: "same_shape s u" "focused u = focused s" and v: "rec p DONT_KILL_WINDOW False u = Some (b, v)"
      and ch: "children s p = {}" for u b v
  proof -
    have sp: "subtree s p = {p}" using ch by (simp add: subtree_unfold[OF p])
    have "closable s p" using i3 p ch by (simp add: closable_def sp children_def)
    then have "closable u p" by (simp add: same_shape_state[OF u])
    from closes_before[OF u(1) same_shape_state(4)[OF u] closer_okD[OF rec v this]]
    obtain X where X: "pruned X s v" "X \<subseteq> {p} \<union> {x. p \<in> subtree s x}" "wf_i3 v" "floats_on_ws v"
      unfolding closes_def sp by auto
    have "{p} \<union> {x. p \<in> subtree s x} = {x. p \<in> subtree s x}" by auto
    with X show ?thesis by metis
  qed
  consider "t = s"
    | b where "con_type (heap s p) = CT_WORKSPACE" "focus_head (heap s p) = []"
        "\<exists>v. rec p DONT_KILL_WINDOW False s = Some (b, v) \<and> t = emit (Ipc_Workspace ''empty'' p None) v"
    | u h v where "con_type (heap s p) \<noteq> CT_WORKSPACE" "con_force_split_parents_redraw p s = Some u"
        "con_update_parents_urgency p (upd p (\<lambda>n. n\<lparr>urgent := h\<rparr>) u) = Some v"
        "(if con_num_children v p = 0 then map_option snd (rec p DONT_KILL_WINDOW False v) else Some v) = Some t"
    using r unfolding on_remove_child_def by (auto simp: bind_eq_Some split: if_splits option.splits)
  then show ?thesis
  proof cases
    case 1
    then show ?thesis by (intro none) simp_all
  next
    case 2
    then obtain v where v: "rec p DONT_KILL_WINDOW False s = Some (b, v)" "t = emit (Ipc_Workspace ''empty'' p None) v"
      by blast
    have "children s p = {}" using 2(2) wf_conD(4)[OF wf_treeD(7)[OF wf p]] by simp
    from rec_ok[OF same_shape_refl _ v(1) this] obtain X where X: "pruned X s v" "X \<subseteq> {x. p \<in> subtree s x}"
      "wf_i3 v" "floats_on_ws v" by auto
    have "same_shape v t" "focused t = focused v" by (simp_all add: v(2))
    with X show ?thesis using pruned_then[OF X(1)] same_shape_state by blast
  next
    case 3
    have "same_shape u (upd p (\<lambda>n. n\<lparr>urgent := h\<rparr>) u)" by (intro same_shape_links same_links_upd) simp_all
    then have sh: "same_shape s v"
      using same_shape_trans[OF same_shape_links[OF redraw_links[OF 3(2)]]
          same_shape_trans[OF _ same_shape_urgency[OF update_parents_frame[OF 3(3)]]]] by blast
    have fo: "focused v = focused s"
      using update_parents_frame[OF 3(3)] force_redraw_same[OF 3(2)] by (simp add: urgency_frame_def same_but_deco_heap)
    show ?thesis
    proof (cases "con_num_children v p = 0")
      case True
      then obtain b where b: "rec p DONT_KILL_WINDOW False v = Some (b, t)" using 3(4) by auto
      have "nodes_head (heap s p) = []" using True sh by (simp add: con_num_children_def same_shape_def)
      moreover have "floating_head (heap s p) = []" using i3(2) p 3(1) by (auto simp: floats_on_ws_def)
      ultimately show ?thesis by (intro rec_ok[OF sh fo b]) (simp add: children_def)
    qed (use 3(4) none sh fo in simp)
  qed
qed

lemma close_urgency_frame:
  assumes "close_urgency c s = Some t" shows "urgency_frame s t"
proof (cases "urgent (heap s c)")
  case True
  with assms obtain a b w where "con_set_urgency c False s = Some a" "con_update_parents_urgency c a = Some b"
    "workspace_update_urgent_flag w b = Some t" by (auto simp: close_urgency_def bind_eq_Some)
  then show ?thesis
    using urgency_frame_trans[OF set_urgency_frame urgency_frame_trans[OF update_parents_frame update_flag_frame]]
    by blast
qed (use assms in \<open>simp add: close_urgency_def\<close>)

lemma close_rest_ok:
  assumes rec: "closer_ok rec" and i3: "wf_i3 s" "floats_on_ws s" and c: "c \<in> live s"
    and p: "parent (heap s c) = Some p" and ch: "children s c = {}"
    and r: "close_rest rec c p dkp s = Some t"
  shows "closes c dkp s True t"
proof -
  have wf: "wf_tree {} s" using i3(1) by (simp add: wf_i3_def)
  note pl = parent_linked[OF wf c _ p, simplified]
  obtain u where u: "close_self c p dkp s = Some u" "(if \<not> dkp then on_remove_child rec p u else Some u) = Some t"
    using r by (auto simp: close_rest_def bind_eq_Some)
  note cs = close_self_ok[OF i3(1) c p ch u(1)]
  then have fu: "floats_on_ws u" using pruned_floats i3(2) by blast
  show ?thesis
  proof (cases dkp)
    case True
    then show ?thesis using u(2) cs fu by (auto simp: closes_def intro!: exI[of _ "{c}"])
  next
    case False
    have "p \<noteq> c" using ch pl(2) by auto
    then have "p \<in> live u" using cs pl(1) prunedD(2) by blast
    moreover have "on_remove_child rec p u = Some t" using u(2) False by simp
    ultimately obtain X where X: "pruned X u t" "X \<subseteq> {x. p \<in> subtree u x}" "wf_i3 t" "floats_on_ws t"
      using on_remove_child_ok[OF rec _ fu] cs by blast
    have "c \<in> subtree s p" unfolding subtree_unfold[OF pl(1)] using pl(2) by (blast intro: subtree_self)
    then have "{x. p \<in> subtree u x} \<subseteq> {x. c \<in> subtree s x}"
      using pruned_subtree[of "{c}" s u] cs by (auto simp: subtree_def intro: rtrancl_trans)
    with X pruned_trans[of "{c}" s u X t] cs False show ?thesis
      unfolding closes_def by (intro conjI exI[of _ "{c} \<union> X"]) (auto intro: subtree_self)
  qed
qed

lemma close_body_ok:
  assumes rec: "closer_ok rec" and cl: "closable s c" and r: "close_body rec c kill dkp s = Some (b, t)"
  shows "closes c dkp s b t"
proof -
  note st = cl[unfolded closable_def]
  have c: "c \<in> live s" and wf: "wf_tree {} s" using st by (simp_all add: wf_i3_def)
  obtain p where p: "parent (heap s c) = Some p" using r unfolding close_body_def by (rule bind_SomeE)
  obtain a where a: "close_urgency c s = Some a"
    using r unfolding close_body_def p bind.bind_lunit by (rule bind_SomeE)
  obtain ok u where u: "close_children rec kill (nodes_head (heap a c)) a = Some (ok, u)"
    "(if \<not> ok then Some (False, u)
     else (case con_window (heap u c) of
        None \<Rightarrow> map_option (Pair True) (close_rest rec c p dkp u)
      | Some w \<Rightarrow>
          if kill \<noteq> DONT_KILL_WINDOW then Some (False, emit (X_Window_Kill (win_id w) kill) u)
          else let s = emit (Ipc_Window ''close'' c) (emit (X_Window_Withdraw (win_id w)) u)
               in map_option (Pair True)
                    (close_rest rec c p dkp (upd c (\<lambda>n. n\<lparr>con_window := None\<rparr>) s)))) = Some (b, t)"
    using r unfolding close_body_def p a bind.bind_lunit by (auto elim!: bind_SomeE)
  have sa: "same_shape s a" "focused a = focused s"
    using close_urgency_frame[OF a] by (auto simp: same_shape_urgency urgency_frame_def)
  note e = same_shape_state[OF sa]
  have nodes: "nodes_head (heap a c) = nodes_head (heap s c)" using sa(1) by (simp add: same_shape_def)
  have pa: "pruned {} s a" by (rule pruned_same[OF sa(1)])
  have "\<exists>Y. pruned Y s u \<and> {} \<subseteq> Y \<and> Y \<subseteq> subtree s c - {c} \<and> (ok \<longrightarrow> set (nodes_head (heap a c)) \<subseteq> Y) \<and>
    (ok \<longrightarrow> True) \<and> wf_i3 u \<and> floats_on_ws u"
    by (rule close_children_ok[OF rec wf c u(1)[unfolded close_children_def] _ _ pa])
      (use st wf_conD(1)[OF wf_treeD(7)[OF wf c]] in \<open>simp_all add: nodes children_def e\<close>)
  then obtain Y where Y: "pruned Y s u" "Y \<subseteq> subtree s c - {c}" "ok \<longrightarrow> set (nodes_head (heap s c)) \<subseteq> Y"
    "wf_i3 u" "floats_on_ws u" by (auto simp: nodes)
  have no: "closes c dkp s False v" if "same_shape u v" "focused v = focused u" for v
    unfolding closes_def using Y(2,4,5) pruned_then[OF Y(1) that(1)] same_shape_state[OF that] by blast
  have cu: "c \<in> live u" using prunedD(2)[OF Y(1)] c Y(2) by blast
  have rest: "closes c dkp s True v"
    if ok: ok and sh: "same_shape u w" "focused w = focused u" and v: "close_rest rec c p dkp w = Some v" for w v
  proof -
    note ew = same_shape_state[OF sh] and sw = same_treeD[OF sh(1)[unfolded same_shape_def, THEN conjunct1]]
    have "floating_head (heap s c) = []" using st by auto
    then have ch: "children u c = {}"
      using Y(3) ok prunedD(7)[OF Y(1) cu] by (auto simp: children_def)
    have "closes c dkp w True v"
      by (rule close_rest_ok[OF rec _ _ _ _ _ v]) (use Y(4,5) cu ch p prunedD(4)[OF Y(1)] in \<open>simp_all add: ew sw\<close>)
    then obtain X where X: "pruned X w v" "c \<in> X" "X \<subseteq> subtree w c \<union> (if dkp then {} else {x. c \<in> subtree w x})"
      "wf_i3 v" "floats_on_ws v" unfolding closes_def by auto
    have "pruned (Y \<union> X) s v" by (rule pruned_trans[OF pruned_then[OF Y(1) sh(1)] X(1)])
    moreover have "Y \<union> X \<subseteq> subtree s c \<union> (if dkp then {} else {x. c \<in> subtree s x})"
      using X(3) Y(2) pruned_subtree[OF Y(1)] unfolding ew(4) by (cases dkp) (simp_all, blast+)
    ultimately show ?thesis unfolding closes_def using X(2,4,5) by blast
  qed
  show ?thesis
  proof (cases "con_window (heap u c)")
    case None
    then show ?thesis using u(2) no[OF same_shape_refl] rest[OF _ same_shape_refl] by (auto split: if_splits)
  next
    case (Some w)
    have sh: "same_shape u (upd c (\<lambda>n. n\<lparr>con_window := None\<rparr>) (emit e (emit e' u)))" for e e'
      by (intro same_shape_links) (simp add: same_links_def)
    let ?w = "upd c (\<lambda>n. n\<lparr>con_window := None\<rparr>) (emit (Ipc_Window ''close'' c) (emit (X_Window_Withdraw (win_id w)) u))"
    show ?thesis
    proof (cases "ok \<and> kill = DONT_KILL_WINDOW")
      case True
      then have "map_option (Pair True) (close_rest rec c p dkp ?w) = Some (b, t)"
        using u(2) Some by (simp add: Let_def)
      then have bt: b "close_rest rec c p dkp ?w = Some t" by auto
      from rest[OF _ sh _ bt(2)] True bt(1) show ?thesis by simp
    next
      case False
      then have "\<not> b \<and> (t = u \<or> t = emit (X_Window_Kill (win_id w) kill) u)" using u(2) Some by (auto split: if_splits)
      then show ?thesis using no[of u] no[of "emit (X_Window_Kill (win_id w) kill) u"] by auto
    qed
  qed
qed

lemma close_loop_ok: "closer_ok (close_loop k)"
proof (induction k)
  case (Suc k)
  then show ?case unfolding closer_ok_def close_loop.simps using close_body_ok[OF Suc.IH] by blast
qed (simp add: closer_ok_def)

text \<open>The entry points.\<close>

lemma tree_close_internal_ok:
  "closable s c \<Longrightarrow> tree_close_internal c kill dkp s = Some (b, t) \<Longrightarrow> closes c dkp s b t"
  unfolding tree_close_internal_def by (rule closer_okD[OF close_loop_ok])

lemma con_on_remove_child_ok:
  assumes "wf_i3 s" "floats_on_ws s" "p \<in> live s" "con_on_remove_child p s = Some t"
  shows "\<exists>X. pruned X s t \<and> X \<subseteq> {x. p \<in> subtree s x} \<and> wf_i3 t \<and> floats_on_ws t"
  by (rule on_remove_child_ok[OF close_loop_ok assms(1-3) assms(4)[unfolded con_on_remove_child_def]])

end
