(* ===== verification/Con_Move.thy ===== *)
theory Con_Move
  imports Con_Fullscreen Floating_Geom Tree_Close
begin

text \<open>
  Showing workspaces and moving containers between them: \<open>workspace_show\<close> (src/workspace.c),
  \<open>output_push_sticky_windows\<close> (src/output.c), \<open>_con_move_to_con\<close> and \<open>con_move_to_workspace\<close>
  (src/con.c).  The four functions call each other: moving a container shows the current workspace
  again, and showing a workspace moves the sticky windows to it.  Each is defined over an argument
  for the recursive call; the knot is tied by \<open>move_loop\<close>.
\<close>

text \<open>A container that is used after calls that may close containers must still exist.\<close>

definition deref :: "i3 \<Rightarrow> con_id \<Rightarrow> con_id option" where
  "deref s c = (if c \<in> set (all_cons s) then Some c else None)"

text \<open>
  \<open>con_move_to_workspace\<close> with its container, workspace and the flags \<open>fix_coordinates\<close>,
  \<open>dont_warp\<close> and \<open>ignore_focus\<close>.
\<close>

type_synonym mover = "con_id \<Rightarrow> con_id \<Rightarrow> bool \<Rightarrow> bool \<Rightarrow> bool \<Rightarrow> i3 \<Rightarrow> i3 option"
type_synonym shower = "con_id \<Rightarrow> i3 \<Rightarrow> i3 option"

section \<open>Sticky groups\<close>

text \<open>A sticky container takes over the window of another one of its group on the same output.\<close>

definition take_window :: "con_id \<Rightarrow> con_id \<Rightarrow> i3 \<Rightarrow> i3" where
  "take_window src d s =
     (let s = emit (X_Move_Win src d) s;
          s = upd d (\<lambda>n. n\<lparr>con_window := con_window (heap s src)\<rparr>) s;
          s = upd d (\<lambda>n. n\<lparr>mapped := True\<rparr>) s;
          s = upd src (\<lambda>n. n\<lparr>con_window := None\<rparr>) s;
          s = upd src (\<lambda>n. n\<lparr>mapped := False\<rparr>) s
      in emit (X_Reparent_Child d src) s)"

fun reassign_sticky :: "nat \<Rightarrow> con_id \<Rightarrow> i3 \<Rightarrow> i3 option" where
  "reassign_sticky 0 c s = None"
| "reassign_sticky (Suc k) c s = do {
     s \<leftarrow> fold_opt (\<lambda>d s.
            (case sticky_group (heap s d) of
               None \<Rightarrow> reassign_sticky k d s
             | Some g \<Rightarrow> do {
                 out \<leftarrow> con_get_output s d;
                 src \<leftarrow> get_sticky (up_fuel s) s out g d;
                 (case src of
                    None \<Rightarrow> reassign_sticky k d s
                  | Some src \<Rightarrow> Some (take_window src d s)) }))
          (nodes_head (heap s c)) s;
     fold_opt (reassign_sticky k) (floating_head (heap s c)) s
   }"

definition workspace_reassign_sticky :: "con_id \<Rightarrow> i3 \<Rightarrow> i3 option" where
  "workspace_reassign_sticky c s = reassign_sticky (up_fuel s) c s"

section \<open>Pushing sticky windows\<close>

definition push_one :: "mover \<Rightarrow> con_id option \<Rightarrow> con_id option \<Rightarrow> con_id \<Rightarrow> i3 \<Rightarrow> i3 option" where
  "push_one move visible old_focus c s = do {
     is_sticky \<leftarrow> (if con_type (heap s c) \<noteq> CT_FLOATING_CON then Some False else con_is_sticky s c);
     if \<not> is_sticky then Some s
     else do {
       ws \<leftarrow> visible;
       let ignore_focus = (case old_focus of None \<Rightarrow> True | Some d \<Rightarrow> parent (heap s d) \<noteq> Some c);
       s \<leftarrow> move c ws True False ignore_focus s;
       if ignore_focus then Some s
       else do {
         f \<leftarrow> focused s;
         cur \<leftarrow> con_get_workspace s f;
         d \<leftarrow> con_descend_focused s c;
         s \<leftarrow> con_activate d s;
         cur \<leftarrow> cur;
         d \<leftarrow> con_descend_focused s cur;
         con_activate d s }
     }
   }"

text \<open>The loops read the successor of a container before they work on it.\<close>

fun push_children :: "nat \<Rightarrow> mover \<Rightarrow> con_id option \<Rightarrow> con_id option \<Rightarrow> con_id \<Rightarrow> con_id option \<Rightarrow> i3 \<Rightarrow> i3 option" where
  "push_children k move visible old_focus ws None s = Some s"
| "push_children 0 move visible old_focus ws (Some c) s = None"
| "push_children (Suc k) move visible old_focus ws (Some c) s = do {
     c \<leftarrow> deref s c;
     let nxt = next_of c (focus_head (heap s ws));
     s \<leftarrow> push_one move visible old_focus c s;
     push_children k move visible old_focus ws nxt s
   }"

fun push_workspaces :: "nat \<Rightarrow> mover \<Rightarrow> con_id option \<Rightarrow> con_id option \<Rightarrow> con_id \<Rightarrow> con_id option \<Rightarrow> i3 \<Rightarrow> i3 option" where
  "push_workspaces k move visible old_focus content None s = Some s"
| "push_workspaces 0 move visible old_focus content (Some ws) s = None"
| "push_workspaces (Suc k) move visible old_focus content (Some ws) s = do {
     ws \<leftarrow> deref s ws;
     let nxt = next_of ws (focus_head (heap s content));
     s \<leftarrow> push_children (up_fuel s) move visible old_focus ws (list_first (focus_head (heap s ws))) s;
     push_workspaces k move visible old_focus content nxt s
   }"

text \<open>The visible workspace of an output: \<open>GREP_FIRST(..., workspace_is_visible(child))\<close>.\<close>

definition visible_workspace :: "i3 \<Rightarrow> con_id \<Rightarrow> con_id option option" where
  "visible_workspace s out = do {
     content \<leftarrow> output_get_content s out;
     first_opt (\<lambda>c. map_option (\<lambda>b. if b then Some c else None) (workspace_is_visible s c))
       (nodes_head (heap s content))
   }"

fun push_outputs :: "nat \<Rightarrow> mover \<Rightarrow> con_id option \<Rightarrow> con_id option \<Rightarrow> i3 \<Rightarrow> i3 option" where
  "push_outputs k move old_focus None s = Some s"
| "push_outputs 0 move old_focus (Some out) s = None"
| "push_outputs (Suc k) move old_focus (Some out) s = do {
     visible \<leftarrow> visible_workspace s out;
     content \<leftarrow> output_get_content s out;
     s \<leftarrow> push_workspaces (up_fuel s) move visible old_focus content (list_first (focus_head (heap s content))) s;
     push_outputs k move old_focus (next_of out (focus_head (heap s (croot s)))) s
   }"

definition push_sticky_windows :: "mover \<Rightarrow> con_id option \<Rightarrow> i3 \<Rightarrow> i3 option" where
  "push_sticky_windows move old_focus s =
     push_outputs (up_fuel s) move old_focus (list_first (focus_head (heap s (croot s)))) s"

section \<open>Showing a workspace\<close>

text \<open>The workspace that was fullscreen before; afterwards only \<open>ws\<close> is.\<close>

definition swap_visible :: "con_id \<Rightarrow> con_id \<Rightarrow> i3 \<Rightarrow> con_id option \<times> i3" where
  "swap_visible ws p s =
     (let ds = nodes_head (heap s p);
          old = list_last (filter (\<lambda>d. fullscreen_mode (heap s d) = CF_OUTPUT) ds);
          s = fold (\<lambda>d. upd d (\<lambda>n. n\<lparr>fullscreen_mode := CF_NONE\<rparr>)) ds s
      in (old, upd ws (\<lambda>n. n\<lparr>fullscreen_mode := CF_OUTPUT\<rparr>) s))"

text \<open>An urgent window keeps its hint until the timer fires, although it is focused now.\<close>

definition focus_shown :: "con_id \<Rightarrow> con_id \<Rightarrow> i3 \<Rightarrow> i3 option" where
  "focus_shown ws nxt s =
     (if urgent (heap s nxt) \<and> trunc (workspace_urgency_timer (cfg s) * 1000) > 0 then do {
        s \<leftarrow> con_focus nxt (upd nxt (\<lambda>n. n\<lparr>urgent := False\<rparr>) s);
        f \<leftarrow> focused s;
        let s = upd f (\<lambda>n. n\<lparr>urgent := True\<rparr>) s;
        let s = upd ws (\<lambda>n. n\<lparr>urgent := True\<rparr>) s;
        Some (upd f (\<lambda>n. n\<lparr>urgency_timer := True\<rparr>) s) }
      else con_focus nxt s)"

text \<open>The old workspace is closed when it is empty and no longer visible.\<close>

definition close_old :: "con_id option \<Rightarrow> con_id option \<Rightarrow> i3 \<Rightarrow> (con_id option \<times> i3) option" where
  "close_old old old_focus s =
     (case old of
        None \<Rightarrow> Some (old_focus, s)
      | Some o' \<Rightarrow>
          if nodes_head (heap s o') = [] \<and> floating_head (heap s o') = [] then do {
            visible \<leftarrow> workspace_is_visible s o';
            if visible then Some (old_focus, s)
            else do {
              (b, s) \<leftarrow> tree_close_internal o' DONT_KILL_WINDOW False s;
              let s = emit (Ipc_Workspace ''empty'' o' None) s;
              Some (if old = old_focus then None else old_focus,
                    emit Ewmh_Update_Desktop_Properties s) } }
          else Some (old_focus, s))"

definition show_switch :: "mover \<Rightarrow> con_id \<Rightarrow> con_id option \<Rightarrow> con_id option \<Rightarrow> i3 \<Rightarrow> i3 option" where
  "show_switch move ws old cur s = do {
     f \<leftarrow> focused s;
     old_focus \<leftarrow> (case old of None \<Rightarrow> Some None | Some o' \<Rightarrow> map_option Some (con_descend_focused s o'));
     s \<leftarrow> (case cur of
             None \<Rightarrow> Some s
           | Some c \<Rightarrow> do {
               internal \<leftarrow> con_is_internal s c;
               Some (if internal then s else s\<lparr>previous_workspace := con_name (heap s c)\<rparr>) });
     s \<leftarrow> workspace_reassign_sticky ws s;
     nxt \<leftarrow> con_descend_focused s ws;
     old_output \<leftarrow> con_get_output s f;
     s \<leftarrow> focus_shown ws nxt s;
     let s = emit (Ipc_Workspace ''focus'' ws cur) s;
     (old_focus, s) \<leftarrow> close_old old old_focus s;
     let s = upd ws (\<lambda>n. n\<lparr>fullscreen_mode := CF_OUTPUT\<rparr>) s;
     f \<leftarrow> focused s;
     new_output \<leftarrow> con_get_output s f;
     let s = (if old_output \<noteq> new_output then emit (X_Set_Warp_To (Some (con_rect (heap s nxt)))) s else s);
     push_sticky_windows move old_focus (emit Ewmh_Update_Current_Desktop s)
   }"

definition show_body :: "mover \<Rightarrow> shower" where
  "show_body move ws s = do {
     internal \<leftarrow> con_is_internal s ws;
     if internal then Some s
     else do {
       p \<leftarrow> parent (heap s ws);
       let (old, s) = swap_visible ws p s;
       f \<leftarrow> focused s;
       cur \<leftarrow> con_get_workspace s f;
       if cur = Some ws then Some s else show_switch move ws old cur s
     }
   }"

section \<open>Moving a container\<close>

text \<open>All floating windows of a workspace move one after the other.\<close>

fun move_floats :: "nat \<Rightarrow> mover \<Rightarrow> con_id \<Rightarrow> con_id \<Rightarrow> i3 \<Rightarrow> i3 option" where
  "move_floats 0 move src dst s = None"
| "move_floats (Suc k) move src dst s =
     (case floating_head (heap s src) of
        [] \<Rightarrow> Some s
      | d # _ \<Rightarrow> do { s \<leftarrow> move d dst True True False s; move_floats k move src dst s })"

text \<open>
  What is moved: the floating container for a floating window, the encapsulated contents for a
  workspace; nothing if the workspace has no tiling children.
\<close>

definition moved_con :: "mover \<Rightarrow> con_id \<Rightarrow> con_id \<Rightarrow> i3 \<Rightarrow> (con_id option \<times> i3) option" where
  "moved_con move c target_ws s =
     (if con_type (heap s c) = CT_WORKSPACE then do {
        s \<leftarrow> move_floats (up_fuel s) move c target_ws s;
        if con_is_leaf s c then Some (None, s) else workspace_encapsulate c s }
      else Some (Some c, s))"

text \<open>Where it goes: beside the target, or on the workspace.\<close>

definition attach_place :: "con_id \<Rightarrow> con_id \<Rightarrow> i3 \<Rightarrow> (con_id \<times> con_id) option" where
  "attach_place c target s = do {
     t \<leftarrow> (if con_type (heap s target) \<noteq> CT_WORKSPACE then parent (heap s target) else Some target);
     (orig, t) \<leftarrow> (if con_type (heap s t) = CT_FLOATING_CON
                  then map_option (Pair t) (parent (heap s t)) else Some (target, t));
     t \<leftarrow> (if con_type (heap s c) = CT_FLOATING_CON then do { ws \<leftarrow> con_get_workspace s t; ws } else Some t);
     Some (orig, t)
   }"

definition has_fullscreen :: "i3 \<Rightarrow> con_id \<Rightarrow> bool option" where
  "has_fullscreen s c = do {
     g \<leftarrow> con_get_fullscreen_con s c CF_GLOBAL;
     out \<leftarrow> con_get_fullscreen_con s c CF_OUTPUT;
     Some (fullscreen_mode (heap s c) \<noteq> CF_NONE \<or> g \<noteq> None \<or> out \<noteq> None)
   }"

text \<open>A fullscreen container on the target gives way to a moved fullscreen container.\<close>

definition clear_fullscreen :: "shower \<Rightarrow> con_id \<Rightarrow> con_id \<Rightarrow> i3 \<Rightarrow> (con_id option \<times> i3) option" where
  "clear_fullscreen show_ws c target_ws s = do {
     fs \<leftarrow> con_get_fullscreen_con s target_ws CF_OUTPUT;
     has_fs \<leftarrow> has_fullscreen s c;
     (case fs of
        Some f \<Rightarrow> if has_fs then map_option (Pair None) (con_toggle_fullscreen show_ws f CF_OUTPUT s)
                  else Some (fs, s)
      | None \<Rightarrow> Some (fs, s))
   }"

text \<open>Focusing the container on its new workspace without moving the focus away.\<close>

definition focus_moved :: "con_id \<Rightarrow> con_id \<Rightarrow> con_id option \<Rightarrow> i3 \<Rightarrow> i3 option" where
  "focus_moved c dest_output cur s = do {
     content \<leftarrow> output_get_content s dest_output;
     let old_focus_ws = list_first (focus_head (heap s content));
     old_focus \<leftarrow> focused s;
     d \<leftarrow> con_descend_focused s c;
     s \<leftarrow> con_activate d s;
     if old_focus_ws = cur \<and> con_type (heap s old_focus) \<noteq> CT_WORKSPACE then con_activate old_focus s
     else do {
       f \<leftarrow> focused s;
       ws \<leftarrow> con_get_workspace s f;
       if ws \<noteq> old_focus_ws then do {
         w \<leftarrow> old_focus_ws;
         d \<leftarrow> con_descend_focused s w;
         con_focus d s }
       else Some s }
   }"

definition startup_delete :: "con_id \<Rightarrow> i3 \<Rightarrow> i3" where
  "startup_delete c s =
     (case con_window (heap s c) of None \<Rightarrow> s | Some w \<Rightarrow> emit (Startup_Sequence_Delete (win_id w)) s)"

text \<open>What gets the focus once the container has left the current workspace.\<close>

definition focus_left :: "con_id \<Rightarrow> con_id option \<Rightarrow> con_id \<Rightarrow> con_id option \<Rightarrow> bool \<Rightarrow> i3 \<Rightarrow> con_id option option" where
  "focus_left c source_ws target_ws cur ignore_focus s =
     (if \<not> ignore_focus \<and> source_ws = cur \<and> Some target_ws \<noteq> source_ws then do {
        sw \<leftarrow> source_ws;
        d \<leftarrow> con_descend_focused s sw;
        below \<leftarrow> (if d = c then Some True else con_has_parent s d c);
        if below then map_option Some (con_next_focused s c) else Some (Some d) }
      else Some None)"

text \<open>The parts of the move from detaching on.\<close>

definition reattach :: "con_id \<Rightarrow> con_id \<Rightarrow> con_id \<Rightarrow> bool \<Rightarrow> bool \<Rightarrow> i3 \<Rightarrow> (con_id \<times> i3) option" where
  "reattach c target orig behind fix_percentage s = do {
     p \<leftarrow> parent (heap s c);
     s \<leftarrow> con_detach c s;
     s \<leftarrow> attach attach_fuel c target (if behind then None else Some orig) (\<not> behind) s;
     Some (p, if fix_percentage
              then con_fix_percent target (upd c (\<lambda>n. n\<lparr>percent := 0\<rparr>) (con_fix_percent p s)) else s)
   }"

definition move_finish ::
  "con_id \<Rightarrow> con_id \<Rightarrow> bool \<Rightarrow> con_id option \<Rightarrow> con_id option \<Rightarrow> i3 \<Rightarrow> i3 option" where
  "move_finish c p was_urgent source_ws focus_next s = do {
     s \<leftarrow> (case focus_next of
             None \<Rightarrow> Some s
           | Some d \<Rightarrow> do { d \<leftarrow> deref s d; d \<leftarrow> con_descend_focused s d; con_activate d s });
     let s = (if con_is_leaf s c then s else fold startup_delete (nodes_head (heap s c)) s);
     let s = startup_delete c s;
     s \<leftarrow> (if was_urgent then do {
             w \<leftarrow> source_ws;
             w \<leftarrow> deref s w;
             s \<leftarrow> workspace_update_urgent_flag w s;
             con_set_urgency c True s }
           else Some s);
     let s = upd c (\<lambda>n. n\<lparr>deco_params := False\<rparr>) s;
     p \<leftarrow> deref s p;
     s \<leftarrow> con_on_remove_child p s;
     Some (emit Ewmh_Update_Wm_Desktop (emit (Ipc_Window ''move'' c) s))
   }"

record move_flags =
  behind_focused :: bool
  fix_coordinates :: bool
  dont_warp :: bool
  ignore_focus :: bool
  fix_percentage :: bool

text \<open>The move itself, once it is known what moves and that it may.\<close>

definition move_body ::
  "shower \<Rightarrow> con_id \<Rightarrow> con_id \<Rightarrow> con_id \<Rightarrow> con_id option \<Rightarrow> move_flags \<Rightarrow> i3 \<Rightarrow> i3 option" where
  "move_body show_ws c target target_ws source_ws fl s = do {
     let was_urgent = urgent (heap s c);
     f \<leftarrow> focused s;
     cur \<leftarrow> con_get_workspace s f;
     source_output \<leftarrow> con_get_output s c;
     dest_output \<leftarrow> con_get_output s target_ws;
     focus_next \<leftarrow> focus_left c source_ws target_ws cur (ignore_focus fl) s;
     (orig, target) \<leftarrow> attach_place c target s;
     s \<leftarrow> (if source_output \<noteq> dest_output \<and> fix_coordinates fl \<and> con_type (heap s c) = CT_FLOATING_CON
          then floating_fix_coordinates c (con_rect (heap s source_output)) (con_rect (heap s dest_output)) s
          else Some s);
     (fs, s) \<leftarrow> clear_fullscreen show_ws c target_ws s;
     (p, s) \<leftarrow> reattach c target orig (behind_focused fl) (fix_percentage fl) s;
     s \<leftarrow> (if ignore_focus fl then Some s
          else do {
            internal \<leftarrow> con_is_internal s target_ws;
            if \<not> internal \<and> fs = None then focus_moved c dest_output cur s else Some s });
     s \<leftarrow> (if ignore_focus fl then Some s
          else do {
            w \<leftarrow> cur;
            s \<leftarrow> show_ws w s;
            Some (if dont_warp fl then emit (X_Set_Warp_To None) s else s) });
     move_finish c p was_urgent source_ws focus_next s
   }"

definition move_to_con :: "mover \<Rightarrow> con_id \<Rightarrow> con_id \<Rightarrow> move_flags \<Rightarrow> i3 \<Rightarrow> (bool \<times> i3) option" where
  "move_to_con move c target fl s = do {
     target_ws \<leftarrow> con_get_workspace s target;
     target_ws \<leftarrow> target_ws;
     permitted \<leftarrow> (if ignore_focus fl then Some True else con_fullscreen_permits_focusing s target_ws);
     if \<not> permitted then Some (False, s)
     else do {
       c \<leftarrow> (if con_is_floating s c then parent (heap s c) else Some c);
       source_ws \<leftarrow> con_get_workspace s c;
       (moved, s) \<leftarrow> moved_con move c target_ws s;
       (case moved of
          None \<Rightarrow> Some (False, s)
        | Some c \<Rightarrow> map_option (Pair True) (move_body (show_body move) c target target_ws source_ws fl s))
     }
   }"

definition move_to_ws_body :: "mover \<Rightarrow> mover" where
  "move_to_ws_body move c ws fix_coords no_warp no_focus s =
     (if con_type (heap s ws) \<noteq> CT_WORKSPACE then None
      else do {
        source_ws \<leftarrow> con_get_workspace s c;
        if source_ws = Some ws then Some s
        else do {
          target \<leftarrow> con_descend_focused s ws;
          map_option snd (move_to_con move c target
            \<lparr>behind_focused = True, fix_coordinates = fix_coords, dont_warp = no_warp,
             ignore_focus = no_focus, fix_percentage = True\<rparr> s) } })"

section \<open>The operations\<close>

text \<open>
  \<open>workspace_show\<close> returns at once on the workspace that is focused already, so the calls nest only
  while sticky windows are pushed; the fuel bounds their depth.
\<close>

fun move_loop :: "nat \<Rightarrow> mover" where
  "move_loop 0 c ws fix_coords no_warp no_focus s = None"
| "move_loop (Suc k) c ws fix_coords no_warp no_focus s =
     move_to_ws_body (move_loop k) c ws fix_coords no_warp no_focus s"

definition con_move_to_workspace :: mover where
  "con_move_to_workspace c ws fix_coords no_warp no_focus s =
     move_loop (up_fuel s) c ws fix_coords no_warp no_focus s"

definition workspace_show :: shower where
  "workspace_show ws s = show_body (move_loop (up_fuel s)) ws s"

definition output_push_sticky_windows :: "con_id option \<Rightarrow> i3 \<Rightarrow> i3 option" where
  "output_push_sticky_windows old_focus s = push_sticky_windows (move_loop (up_fuel s)) old_focus s"

definition con_move_to_con :: "con_id \<Rightarrow> con_id \<Rightarrow> move_flags \<Rightarrow> i3 \<Rightarrow> (bool \<times> i3) option" where
  "con_move_to_con c target fl s = move_to_con (move_loop (up_fuel s)) c target fl s"

definition con_move_to_output :: "con_id \<Rightarrow> xoutput \<Rightarrow> bool \<Rightarrow> i3 \<Rightarrow> i3 option" where
  "con_move_to_output c out fix_coords s = do {
     oc \<leftarrow> out_con out;
     ws \<leftarrow> visible_workspace s oc;
     ws \<leftarrow> ws;
     con_move_to_workspace c ws fix_coords False False s
   }"

text \<open>The output a container is on; that it is a known, active one is asserted.\<close>

definition get_output_for_con :: "env \<Rightarrow> i3 \<Rightarrow> con_id \<Rightarrow> xoutput option" where
  "get_output_for_con e s c = do {
     oc \<leftarrow> con_get_output s c;
     name \<leftarrow> con_name (heap s oc);
     get_output_by_name (outputs e) name True
   }"

text \<open>
  \<open>con_move_to_output_name\<close>: relative names are resolved from the container's output, \<open>current\<close>
  from the focused one.
\<close>

definition con_move_to_output_name :: "env \<Rightarrow> con_id \<Rightarrow> string \<Rightarrow> bool \<Rightarrow> i3 \<Rightarrow> (bool \<times> i3) option" where
  "con_move_to_output_name e c name fix_coords s = do {
     cur \<leftarrow> get_output_for_con e s c;
     f \<leftarrow> focused s;
     let focused_output = get_output_for_con e s f;
     if strcasecmp name ''current'' = 0 \<and> focused_output = None then None
     else (case get_output_from_string (outputs e) focused_output cur name of
             None \<Rightarrow> Some (False, s)
           | Some out \<Rightarrow> map_option (Pair True) (con_move_to_output c out fix_coords s))
   }"

end
