(* ===== verification/Insert.thy ===== *)
theory Insert
  imports Con_Move
begin

text \<open>
  Putting a container beside another one anywhere in the tree (\<open>insert_con_into\<close> of src/move.c),
  used by the directional move and when a floating window becomes a tiling one.
\<close>

section \<open>Relations between containers\<close>

fun common_ancestor_loop :: "nat \<Rightarrow> i3 \<Rightarrow> con_id \<Rightarrow> con_id \<Rightarrow> con_id option" where
  "common_ancestor_loop 0 s a b = None"
| "common_ancestor_loop (Suc n) s a b = do {
     above \<leftarrow> (if a = b then Some True else con_has_parent s b a);
     if above then Some a else do { p \<leftarrow> parent (heap s a); common_ancestor_loop n s p b }
   }"

definition lowest_common_ancestor :: "i3 \<Rightarrow> con_id \<Rightarrow> con_id \<Rightarrow> con_id option" where
  "lowest_common_ancestor s a b = common_ancestor_loop (up_fuel s) s a b"

text \<open>The asserted parent of each container passed on the way up.\<close>

fun child_containing_loop :: "nat \<Rightarrow> i3 \<Rightarrow> con_id \<Rightarrow> con_id \<Rightarrow> con_id option" where
  "child_containing_loop 0 s anc c = None"
| "child_containing_loop (Suc n) s anc c =
     (if parent (heap s c) = Some anc then Some c
      else do {
        p \<leftarrow> parent (heap s c);
        q \<leftarrow> parent (heap s p);
        child_containing_loop n s anc p })"

definition child_containing_con_recursively :: "i3 \<Rightarrow> con_id \<Rightarrow> con_id \<Rightarrow> con_id option" where
  "child_containing_con_recursively s anc c = child_containing_loop (up_fuel s) s anc c"

fun focused_descendant_loop :: "nat \<Rightarrow> i3 \<Rightarrow> con_id \<Rightarrow> con_id \<Rightarrow> bool option" where
  "focused_descendant_loop 0 s c anc = None"
| "focused_descendant_loop (Suc n) s c anc =
     (if c = anc then Some True
      else do {
        p \<leftarrow> parent (heap s c);
        if list_first (focus_head (heap s p)) \<noteq> Some c then Some False
        else do { q \<leftarrow> parent (heap s p); focused_descendant_loop n s p anc } })"

definition is_focused_descendant :: "i3 \<Rightarrow> con_id \<Rightarrow> con_id \<Rightarrow> bool option" where
  "is_focused_descendant s c anc = focused_descendant_loop (up_fuel s) s c anc"

section \<open>Inserting\<close>

text \<open>Whether the container goes before or after the target in the focus stack.\<close>

definition goes_before :: "i3 \<Rightarrow> con_id \<Rightarrow> con_id \<Rightarrow> con_id \<Rightarrow> bool \<Rightarrow> bool" where
  "goes_before s lca ca ta moves_focus =
     (if ca = ta then moves_focus
      else List.find (\<lambda>x. x = ca \<or> x = ta) (focus_head (heap s lca)) = Some ca)"

text \<open>The new ancestor is placed before the old one in the focus stack.\<close>

definition keep_focus_place :: "con_id \<Rightarrow> con_id \<Rightarrow> con_id \<Rightarrow> i3 \<Rightarrow> i3 option" where
  "keep_focus_place lca ca ta s = do {
     let place = prev_of ca (focus_head (heap s lca));
     fo \<leftarrow> unlink ta (focus_head (heap s lca));
     fo \<leftarrow> (case place of None \<Rightarrow> Some (ta # fo) | Some p \<Rightarrow> link_after p ta fo);
     Some (upd lca (\<lambda>n. n\<lparr>focus_head := fo\<rparr>) s)
   }"

text \<open>On a workspace with a configured layout a new split container goes in instead.\<close>

definition wrap_for_workspace :: "con_id \<Rightarrow> con_id \<Rightarrow> i3 \<Rightarrow> (con_id \<times> i3) option" where
  "wrap_for_workspace c p s =
     (if con_type (heap s p) = CT_WORKSPACE then do {
        (split, s) \<leftarrow> workspace_attach_to p s;
        if split = p then Some (c, s)
        else do {
          s \<leftarrow> con_attach c split False (upd c (\<lambda>n. n\<lparr>parent := Some split\<rparr>) s);
          let s = con_fix_percent split (upd c (\<lambda>n. n\<lparr>percent := 0\<rparr>) s);
          s \<leftarrow> con_detach split s;
          Some (split, s) } }
      else Some (c, s))"

definition link_beside :: "con_id \<Rightarrow> con_id \<Rightarrow> con_id \<Rightarrow> bool \<Rightarrow> bool \<Rightarrow> position \<Rightarrow> i3 \<Rightarrow> i3 option" where
  "link_beside c target p at_lca focus_before pos s = do {
     let s = upd c (\<lambda>n. n\<lparr>parent := Some p\<rparr>) s;
     fo \<leftarrow> (if at_lca then
              (if focus_before then link_before target c (focus_head (heap s p))
               else link_after target c (focus_head (heap s p)))
            else Some (if focus_before then c # focus_head (heap s p) else focus_head (heap s p) @ [c]));
     let s = upd p (\<lambda>n. n\<lparr>focus_head := fo\<rparr>) s;
     ns \<leftarrow> (if pos = BEFORE then link_before target c (nodes_head (heap s p))
            else link_after target c (nodes_head (heap s p)));
     let s = upd p (\<lambda>n. n\<lparr>nodes_head := ns\<rparr>) s;
     Some (con_fix_percent p (upd c (\<lambda>n. n\<lparr>percent := 0\<rparr>) s))
   }"

definition insert_con_into :: "con_id \<Rightarrow> con_id \<Rightarrow> position \<Rightarrow> i3 \<Rightarrow> i3 option" where
  "insert_con_into c target pos s = do {
     p \<leftarrow> parent (heap s target);
     let old_parent = parent (heap s c);
     lca \<leftarrow> lowest_common_ancestor s c p;
     if lca = c then Some s
     else do {
       ca \<leftarrow> child_containing_con_recursively s lca c;
       ta \<leftarrow> child_containing_con_recursively s lca target;
       moves_focus \<leftarrow> is_focused_descendant s c ca;
       let focus_before = goes_before s lca ca ta moves_focus;
       s \<leftarrow> (if moves_focus \<and> focus_before then keep_focus_place lca ca ta s else Some s);
       s \<leftarrow> con_detach c s;
       old_parent \<leftarrow> old_parent;
       let s = con_fix_percent old_parent s;
       (c, s) \<leftarrow> wrap_for_workspace c p s;
       s \<leftarrow> link_beside c target p (p = lca) focus_before pos s;
       con_on_remove_child old_parent s
     }
   }"

end
