(* ===== verification/Floating.thy ===== *)
theory Floating
  imports Insert
begin

text \<open>
  Floating windows (src/floating.c): switching a container between the tiling and the floating
  layer, and moving a floating container across outputs.  Dragging with the pointer is left out.
\<close>

section \<open>Making a container float\<close>

text \<open>
  The ancestor that is a child of the workspace, and whether the container is focused all the way
  up to it.
\<close>

fun top_ancestor :: "nat \<Rightarrow> i3 \<Rightarrow> con_id \<Rightarrow> bool \<Rightarrow> (con_id \<times> bool) option" where
  "top_ancestor 0 s c b = None"
| "top_ancestor (Suc n) s c b = do {
     p \<leftarrow> parent (heap s c);
     if con_type (heap s p) = CT_WORKSPACE then Some (c, b)
     else top_ancestor n s p (b \<and> list_first (focus_head (heap s p)) = Some c)
   }"

text \<open>The neighbour in the workspace's focus stack, and whether to go behind or before it.\<close>

definition focus_placeholder :: "i3 \<Rightarrow> con_id \<Rightarrow> bool \<Rightarrow> (con_id option \<times> bool) option" where
  "focus_placeholder s c set_focus =
     (if set_focus then Some (None, True)
      else do {
        (a, b) \<leftarrow> top_ancestor (up_fuel s) s c True;
        p \<leftarrow> parent (heap s a);
        let fo = focus_head (heap s p);
        Some (if b then prev_of a fo else next_of a fo, b) })"

definition place_in_focus :: "con_id option \<Rightarrow> bool \<Rightarrow> con_id \<Rightarrow> con_id list \<Rightarrow> con_id list option" where
  "place_in_focus ph before nc fo =
     (if before then (case ph of Some d \<Rightarrow> link_after d nc fo | None \<Rightarrow> Some (nc # fo))
      else (case ph of Some d \<Rightarrow> link_before d nc fo | None \<Rightarrow> Some (fo @ [nc])))"

text \<open>The new floating container, still without geometry and children.\<close>

definition new_floating :: "con_id \<Rightarrow> con_id option \<Rightarrow> bool \<Rightarrow> i3 \<Rightarrow> (con_id \<times> i3) option" where
  "new_floating ws ph before s = do {
     let (nc, s) = con_new_detached None s;
     let s = upd nc (\<lambda>n. n\<lparr>parent := Some ws, con_type := CT_FLOATING_CON, layout := L_SPLITH\<rparr>) s;
     fo \<leftarrow> place_in_focus ph before nc (focus_head (heap s ws));
     Some (nc, upd ws (\<lambda>n. n\<lparr>floating_head := nc # floating_head n, focus_head := fo\<rparr>) s)
   }"

text \<open>A parent that has become empty is closed; its pointer is cleared first.\<close>

definition close_empty_parent :: "con_id \<Rightarrow> i3 \<Rightarrow> i3 option" where
  "close_empty_parent c s = do {
     p \<leftarrow> parent (heap s c);
     if (con_type (heap s p) = CT_CON \<or> con_type (heap s p) = CT_FLOATING_CON) \<and> con_num_children s p = 0
     then map_option snd (tree_close_internal p DONT_KILL_WINDOW False (upd c (\<lambda>n. n\<lparr>parent := None\<rparr>) s))
     else Some s
   }"

text \<open>A container without a geometry of its own combines those of its children.\<close>

definition combined_geometry :: "i3 \<Rightarrow> con_id \<Rightarrow> rect" where
  "combined_geometry s c =
     (if rect_equals (con_geometry (heap s c)) (mk_rect 0 0 0 0)
      then fold (\<lambda>d r. r\<lparr>rwidth := rwidth r + rwidth (con_geometry (heap s d)),
                          rheight := max_u32 (rheight r) (rheight (con_geometry (heap s d)))\<rparr>)
             (nodes_head (heap s c)) (con_geometry (heap s c))
      else con_geometry (heap s c))"

definition into_floating :: "con_id \<Rightarrow> con_id \<Rightarrow> bool \<Rightarrow> i3 \<Rightarrow> i3" where
  "into_floating c nc automatic s =
     (let s = upd nc (\<lambda>n. n\<lparr>con_rect := combined_geometry s c\<rparr>) s;
          s = upd nc (\<lambda>n. n\<lparr>nodes_head := nodes_head n @ [c], focus_head := focus_head n @ [c]\<rparr>) s;
          s = upd c (\<lambda>n. n\<lparr>parent := Some nc, percent := 1, con_floating := FLOATING_USER_ON\<rparr>) s
      in if automatic
         then upd c (\<lambda>n. n\<lparr>con_border_style_field := default_floating_border (cfg s),
                          max_user_border_style := default_floating_border (cfg s)\<rparr>) s
         else s)"

definition add_decoration :: "con_id \<Rightarrow> con_id \<Rightarrow> i3 \<Rightarrow> i3 option" where
  "add_decoration c nc s = do {
     bsr \<leftarrow> con_border_style_rect s c;
     let x11 = of_int (border_width (heap s c) * 2);
     Some (upd nc (\<lambda>n. n\<lparr>con_rect := (con_rect n)\<lparr>rheight := rheight (con_rect n) - rheight bsr + x11,
                                                  rwidth := rwidth (con_rect n) - rwidth bsr + x11\<rparr>\<rparr>) s)
   }"

text \<open>Windows mapped to (0, 0) are centered over their leader or on the workspace.\<close>

definition leader_con :: "i3 \<Rightarrow> con_id \<Rightarrow> con_id option" where
  "leader_con s c = do {
     w \<leftarrow> con_window (heap s c);
     if leader w \<noteq> 0 \<and> win_id w \<noteq> leader w then con_by_window_id s (leader w) else None
   }"

definition push_from_origin :: "con_id \<Rightarrow> con_id \<Rightarrow> con_id \<Rightarrow> i3 \<Rightarrow> i3" where
  "push_from_origin c nc ws s =
     (if rx (con_rect (heap s nc)) = 0 \<and> ry (con_rect (heap s nc)) = 0
      then floating_center nc (con_rect (heap s (case leader_con s c of Some l \<Rightarrow> l | None \<Rightarrow> ws))) s
      else s)"

definition on_output_con :: "xoutput option \<Rightarrow> con_id \<Rightarrow> bool" where
  "on_output_con out oc \<longleftrightarrow> (case out of None \<Rightarrow> False | Some x \<Rightarrow> out_con x = Some oc)"

text \<open>A container on the wrong output keeps its relative position, or is centered as a fallback.\<close>

definition onto_output :: "env \<Rightarrow> con_id \<Rightarrow> con_id \<Rightarrow> i3 \<Rightarrow> i3 option" where
  "onto_output e nc ws s = do {
     let cur = get_output_from_rect (outputs e) (con_rect (heap s nc));
     correct \<leftarrow> con_get_output s ws;
     if on_output_con cur correct then Some s
     else do {
       s \<leftarrow> (case cur of
               None \<Rightarrow> Some s
             | Some x \<Rightarrow> do {
                 oc \<leftarrow> out_con x;
                 floating_fix_coordinates nc (con_rect (heap s oc)) (con_rect (heap s correct)) s });
       if on_output_con (get_output_from_rect (outputs e) (con_rect (heap s nc))) correct then Some s
       else Some (floating_center nc (con_rect (heap s ws)) s) }
   }"

definition floating_enable :: "env \<Rightarrow> con_id \<Rightarrow> bool \<Rightarrow> i3 \<Rightarrow> (bool \<times> i3) option" where
  "floating_enable e c automatic s = do {
     let set_focus = (focused s = Some c);
     docked \<leftarrow> con_is_docked s c;
     if docked \<or> con_is_floating s c \<or> con_type (heap s c) = CT_WORKSPACE then Some (False, s)
     else do {
       (ph, before) \<leftarrow> focus_placeholder s c set_focus;
       s \<leftarrow> con_detach c s;
       p \<leftarrow> parent (heap s c);
       let s = con_fix_percent p s;
       ws \<leftarrow> con_get_workspace s c;
       ws \<leftarrow> ws;
       (nc, s) \<leftarrow> new_floating ws ph before s;
       s \<leftarrow> close_empty_parent c s;
       let s = emit (X_Set_Name nc ''[i3 con] floatingcon'') s;
       s \<leftarrow> add_decoration c nc (into_floating c nc automatic s);
       s \<leftarrow> floating_check_size e nc False s;
       s \<leftarrow> onto_output e nc ws (push_from_origin c nc ws s);
       s \<leftarrow> render nc s;
       s \<leftarrow> (if set_focus then con_activate c s else Some s);
       s \<leftarrow> floating_set_hint_atom nc True s;
       Some (True, emit (Ipc_Window ''floating'' c) s)
     }
   }"

section \<open>Back to the tiling layer\<close>

text \<open>On an empty workspace the window is attached to it, otherwise beside the focused window.\<close>

definition tile_again :: "con_id \<Rightarrow> con_id \<Rightarrow> i3 \<Rightarrow> i3 option" where
  "tile_again c tiling_focused s =
     (if con_type (heap s tiling_focused) = CT_WORKSPACE then do {
        p \<leftarrow> parent (heap s c);
        s \<leftarrow> con_detach c s;
        let s = upd c (\<lambda>n. n\<lparr>parent := None\<rparr>) s;
        (b, s) \<leftarrow> tree_close_internal p DONT_KILL_WINDOW True s;
        s \<leftarrow> con_attach c tiling_focused False s;
        q \<leftarrow> parent (heap s c);
        Some (con_fix_percent q (upd c (\<lambda>n. n\<lparr>percent := 0\<rparr>) s)) }
      else insert_con_into c tiling_focused AFTER s)"

definition floating_disable :: "con_id \<Rightarrow> i3 \<Rightarrow> i3 option" where
  "floating_disable c s =
     (if \<not> con_is_floating s c then Some s
      else do {
        ws \<leftarrow> con_get_workspace s c;
        ws \<leftarrow> ws;
        internal \<leftarrow> con_is_internal s ws;
        if internal then Some s
        else do {
          tf \<leftarrow> con_descend_tiling_focused s ws;
          s \<leftarrow> tile_again c tf s;
          s \<leftarrow> floating_set_hint_atom c False (upd c (\<lambda>n. n\<lparr>con_floating := FLOATING_USER_OFF\<rparr>) s);
          Some (emit (Ipc_Window ''floating'' c) s) } })"

definition toggle_floating_mode :: "env \<Rightarrow> con_id \<Rightarrow> bool \<Rightarrow> i3 \<Rightarrow> i3 option" where
  "toggle_floating_mode e c automatic s =
     (if con_type (heap s c) = CT_FLOATING_CON then Some s
      else if con_is_floating s c then floating_disable c s
      else map_option snd (floating_enable e c automatic s))"

section \<open>Across outputs\<close>

definition floating_maybe_reassign_ws :: "env \<Rightarrow> con_id \<Rightarrow> i3 \<Rightarrow> (bool \<times> i3) option" where
  "floating_maybe_reassign_ws e c s = do {
     ws \<leftarrow> con_get_workspace s c;
     ws \<leftarrow> ws;
     internal \<leftarrow> con_is_internal s ws;
     if internal then Some (False, s)
     else (case get_output_from_rect (outputs e) (con_rect (heap s c)) of
             None \<Rightarrow> Some (False, s)
           | Some out \<Rightarrow> do {
               oc \<leftarrow> con_get_output s c;
               if out_con out = Some oc then Some (False, s)
               else do {
                 new \<leftarrow> out_con out;
                 content \<leftarrow> output_get_content s new;
                 ws \<leftarrow> list_first (focus_head (heap s content));
                 needs_focus \<leftarrow> con_descend_focused s c;
                 inside \<leftarrow> con_inside_focused s needs_focus;
                 s \<leftarrow> con_move_to_workspace c ws False True False s;
                 if inside then do {
                   s \<leftarrow> workspace_show ws s;
                   s \<leftarrow> con_activate needs_focus s;
                   Some (True, s) }
                 else Some (True, s) } })
   }"

definition floating_reposition :: "env \<Rightarrow> con_id \<Rightarrow> rect \<Rightarrow> i3 \<Rightarrow> (bool \<times> i3) option" where
  "floating_reposition e c r s =
     (if output_containing_rect (outputs e) r = None then Some (False, s)
      else do {
        (b, s) \<leftarrow> floating_maybe_reassign_ws e c (upd c (\<lambda>n. n\<lparr>con_rect := r\<rparr>) s);
        s \<leftarrow> tree_render (scratchpad_touched c s);
        Some (True, s) })"

text \<open>
  The X server is asked for the pointer; \<open>pointer\<close> is its answer, if there is one.  Coordinates
  are corrected to stay on the pointer's output.
\<close>

definition pointer_coord :: "int \<Rightarrow> u32 \<Rightarrow> u32 \<Rightarrow> u32 \<Rightarrow> u32" where
  "pointer_coord q len out_pos out_len =
     (let x = of_int (max (sint (of_int q - len div 2 :: u32)) (sint out_pos)) :: u32
      in if x + len > out_pos + out_len then out_pos + out_len - len else x)"

definition floating_move_to_pointer :: "env \<Rightarrow> (int \<times> int) option \<Rightarrow> con_id \<Rightarrow> i3 \<Rightarrow> i3 option" where
  "floating_move_to_pointer e pointer c s =
     (if con_type (heap s c) \<noteq> CT_FLOATING_CON then None
      else (case pointer of
              None \<Rightarrow> Some s
            | Some (px, py) \<Rightarrow>
                (case get_output_containing (outputs e) (of_int px) (of_int py) of
                   None \<Rightarrow> Some s
                 | Some out \<Rightarrow>
                     (let r = con_rect (heap s c); q = out_rect out
                      in map_option snd (floating_reposition e c
                           (mk_rect (pointer_coord px (rwidth r) (rx q) (rwidth q))
                              (pointer_coord py (rheight r) (ry q) (rheight q)) (rwidth r) (rheight r)) s)))))"

end
