(* ===== verification/Workspace_Ops.thy ===== *)
theory Workspace_Ops
  imports Con_Move
begin

text \<open>
  Creating workspaces, switching to them and moving them between outputs (src/workspace.c).
\<close>

section \<open>Creating workspaces\<close>

definition ws_title :: "string \<Rightarrow> string" where
  "ws_title name = ''[i3 con] workspace '' @ name"

definition workspace_get :: "env \<Rightarrow> string \<Rightarrow> i3 \<Rightarrow> (con_id \<times> i3) option" where
  "workspace_get e name s = do {
     existing \<leftarrow> get_existing_workspace_by_name s name;
     (case existing of
        Some ws \<Rightarrow> Some (ws, s)
      | None \<Rightarrow> do {
          let n = ws_name_to_number name;
          out \<leftarrow> (case get_assigned_output (outputs e) (ws_assignments e) (Some name) n of
                  Some out \<Rightarrow> Some out
                | None \<Rightarrow> do { f \<leftarrow> focused s; con_get_output s f });
          let (ws, s) = con_new_detached None s;
          let s = emit (X_Set_Name ws (ws_title name)) s;
          let s = upd ws (\<lambda>c. c\<lparr>con_name := Some name, workspace_layout := default_layout (cfg s),
                               ws_num := n, con_type := CT_WORKSPACE\<rparr>) s;
          g \<leftarrow> gaps_for_workspace (ws_assignments e) s ws;
          let s = upd ws (\<lambda>c. c\<lparr>con_gaps := g\<rparr>) s;
          content \<leftarrow> output_get_content s out;
          s \<leftarrow> con_attach ws content False s;
          s \<leftarrow> apply_default_orientation ws s;
          Some (ws, emit Ewmh_Update_Desktop_Properties (emit (Ipc_Workspace ''init'' ws None) s)) })
   }"

text \<open>Printing a number with \<open>%d\<close>.\<close>

definition digit_char :: "nat \<Rightarrow> char" where
  "digit_char d = ''0123456789'' ! d"

fun digits :: "nat \<Rightarrow> string" where
  "digits n = (if n < 10 then [digit_char n] else digits (n div 10) @ [digit_char (n mod 10)])"

declare digits.simps [simp del]

text \<open>
  \<open>create_workspace_on_output\<close>: the first name of a key binding that is neither in use nor assigned
  to another output, or the smallest such number.
\<close>

definition ws_exists :: "i3 \<Rightarrow> string \<Rightarrow> int \<Rightarrow> bool option" where
  "ws_exists s name n =
     map_option (\<lambda>r. r \<noteq> None)
       (if n = -1 then get_existing_workspace_by_name s name else get_existing_workspace_by_num s n)"

definition assigned_elsewhere :: "env \<Rightarrow> xoutput \<Rightarrow> string option \<Rightarrow> int \<Rightarrow> bool" where
  "assigned_elsewhere e out name n \<longleftrightarrow>
     (case get_assigned_output (outputs e) (ws_assignments e) name n of
        None \<Rightarrow> False | Some c \<Rightarrow> out_con out \<noteq> Some c)"

fun free_binding_name :: "env \<Rightarrow> xoutput \<Rightarrow> i3 \<Rightarrow> string list \<Rightarrow> (string \<times> int) option option" where
  "free_binding_name e out s [] = Some None"
| "free_binding_name e out s (name # names) =
     (if assigned_elsewhere e out (Some name) (-1) then free_binding_name e out s names
      else do {
        let n = ws_name_to_number name;
        used \<leftarrow> ws_exists s name n;
        if used then free_binding_name e out s names else Some (Some (name, n)) })"

fun free_number :: "nat \<Rightarrow> env \<Rightarrow> xoutput \<Rightarrow> i3 \<Rightarrow> nat \<Rightarrow> nat option" where
  "free_number 0 e out s c = None"
| "free_number (Suc k) e out s c = do {
     existing \<leftarrow> get_existing_workspace_by_num s (int c);
     if existing \<noteq> None \<or> assigned_elsewhere e out None (int c) then free_number k e out s (Suc c)
     else Some c
   }"

text \<open>Each number that is taken belongs to a workspace or an assignment.\<close>

definition number_fuel :: "env \<Rightarrow> i3 \<Rightarrow> nat" where
  "number_fuel e s = Suc (length (all_cons s) + length (ws_assignments e))"

definition free_workspace_name :: "env \<Rightarrow> xoutput \<Rightarrow> i3 \<Rightarrow> (string \<times> int) option" where
  "free_workspace_name e out s = do {
     r \<leftarrow> free_binding_name e out s (binding_workspace_names e);
     (case r of
        Some x \<Rightarrow> Some x
      | None \<Rightarrow> map_option (\<lambda>c. (digits c, int c)) (free_number (number_fuel e s) e out s 1))
   }"

definition create_workspace_on_output :: "env \<Rightarrow> xoutput \<Rightarrow> con_id \<Rightarrow> i3 \<Rightarrow> (con_id \<times> i3) option" where
  "create_workspace_on_output e out content s = do {
     let (ws, s) = con_new_detached None s;
     let s = upd ws (\<lambda>c. c\<lparr>con_type := CT_WORKSPACE\<rparr>) s;
     (name, n) \<leftarrow> free_workspace_name e out s;
     let s = upd ws (\<lambda>c. c\<lparr>con_name := Some name, ws_num := n\<rparr>) s;
     s \<leftarrow> con_attach ws content False s;
     let s = emit (X_Set_Name ws (ws_title name)) s;
     g \<leftarrow> gaps_for_workspace (ws_assignments e) s ws;
     let s = upd ws (\<lambda>c. c\<lparr>con_gaps := g, fullscreen_mode := CF_OUTPUT,
                         workspace_layout := default_layout (cfg s)\<rparr>) s;
     s \<leftarrow> apply_default_orientation ws s;
     Some (ws, emit (Ipc_Workspace ''init'' ws None) s)
   }"

section \<open>Switching\<close>

definition workspace_show_by_name :: "env \<Rightarrow> string \<Rightarrow> i3 \<Rightarrow> i3 option" where
  "workspace_show_by_name e name s = do {
     (ws, s) \<leftarrow> workspace_get e name s;
     workspace_show ws s
   }"

definition workspace_back_and_forth :: "env \<Rightarrow> i3 \<Rightarrow> i3 option" where
  "workspace_back_and_forth e s =
     (case previous_workspace s of None \<Rightarrow> Some s | Some name \<Rightarrow> workspace_show_by_name e name s)"

definition workspace_back_and_forth_get :: "env \<Rightarrow> i3 \<Rightarrow> (con_id option \<times> i3) option" where
  "workspace_back_and_forth_get e s =
     (case previous_workspace s of
        None \<Rightarrow> Some (None, s)
      | Some name \<Rightarrow> map_option (\<lambda>(ws, s). (Some ws, s)) (workspace_get e name s))"

section \<open>Moving a workspace to another output\<close>

text \<open>The assignment that names the workspace to be created on the output that is left.\<close>

fun triggered_assignment :: "env \<Rightarrow> xoutput \<Rightarrow> i3 \<Rightarrow> ws_assignment list \<Rightarrow> ws_assignment option option" where
  "triggered_assignment e out s [] = Some None"
| "triggered_assignment e out s (a # as) =
     (if \<not> output_triggers_assignment (outputs e) (ws_assignments e) out a
      then triggered_assignment e out s as
      else do {
        attached \<leftarrow> ws_exists s (asg_name a) (ws_name_to_number (asg_name a));
        if attached then triggered_assignment e out s as else Some (Some a) })"

definition replace_last_workspace :: "env \<Rightarrow> xoutput \<Rightarrow> con_id \<Rightarrow> i3 \<Rightarrow> i3 option" where
  "replace_last_workspace e out content s = do {
     r \<leftarrow> triggered_assignment e out s (ws_assignments e);
     (case r of
        Some a \<Rightarrow> map_option snd (workspace_get e (asg_name a) s)
      | None \<Rightarrow> map_option snd (create_workspace_on_output e out content s))
   }"

definition workspace_move_to_output :: "env \<Rightarrow> con_id \<Rightarrow> xoutput \<Rightarrow> i3 \<Rightarrow> i3 option" where
  "workspace_move_to_output e ws out s = do {
     current_output \<leftarrow> get_output_for_con e s ws;
     oc \<leftarrow> out_con out;
     content \<leftarrow> output_get_content s oc;
     old_content \<leftarrow> parent (heap s ws);
     if old_content = content then Some s
     else do {
       let previously_visible = list_first (focus_head (heap s content));
       was_visible \<leftarrow> workspace_is_visible s ws;
       s \<leftarrow> (if con_num_children s old_content = 1
            then replace_last_workspace e current_output old_content s else Some s);
       s \<leftarrow> con_detach ws s;
       s \<leftarrow> (if was_visible then do {
               w \<leftarrow> list_first (focus_head (heap s old_content));
               workspace_show w s }
            else Some s);
       s \<leftarrow> con_attach ws content False s;
       s \<leftarrow> fold_opt (\<lambda>f s. floating_fix_coordinates f (con_rect (heap s old_content))
                             (con_rect (heap s content)) s) (floating_head (heap s ws)) s;
       let s = emit (Ipc_Workspace ''move'' ws None) s;
       s \<leftarrow> (if was_visible then workspace_show ws s else Some s);
       let s = emit Ewmh_Update_Desktop_Properties s;
       (case previously_visible of
          None \<Rightarrow> Some s
        | Some w \<Rightarrow> if w \<in> set (nodes_head (heap s content)) then con_on_remove_child w s else Some s)
     }
   }"

end
