(* ===== verification/Tree_Nav.thy ===== *)
theory Tree_Nav
  imports Floating Workspace_Ops
begin

text \<open>
  Moving the focus in a direction (\<open>get_tree_next\<close>, \<open>tree_next\<close> of src/tree.c): to the neighbour
  along the direction, wrapping around as configured, or to the workspace on the next output.
\<close>

definition prev_or_next :: "bool \<Rightarrow> con_id \<Rightarrow> con_id list \<Rightarrow> con_id option" where
  "prev_or_next previous c xs = (if previous then prev_of c xs else next_of c xs)"

definition last_or_first :: "bool \<Rightarrow> con_id list \<Rightarrow> con_id option" where
  "last_or_first previous xs = (if previous then list_last xs else list_first xs)"

definition get_tree_next_workspace :: "env \<Rightarrow> i3 \<Rightarrow> con_id \<Rightarrow> direction \<Rightarrow> con_id option option" where
  "get_tree_next_workspace e s c d = do {
     fs \<leftarrow> con_get_fullscreen_con s c CF_GLOBAL;
     if fs \<noteq> None then Some None
     else
       (let r = con_rect (heap s c)
        in case get_output_containing (outputs e) (rx r + rwidth r div 2) (ry r + rheight r div 2) of
             None \<Rightarrow> Some None
           | Some cur \<Rightarrow>
               (case get_output_next (outputs e) d cur CLOSEST_OUTPUT of
                  None \<Rightarrow> Some None
                | Some nxt \<Rightarrow> do { oc \<leftarrow> out_con nxt; visible_workspace s oc }))
   }"

text \<open>\<open>Inl\<close> is a container to return, \<open>Inr\<close> the container to wrap to when the search goes on.\<close>

definition next_in_parent ::
  "i3 \<Rightarrow> bool \<Rightarrow> con_id \<Rightarrow> con_id \<Rightarrow> con_id option \<Rightarrow> (con_id option + con_id option) option" where
  "next_in_parent s previous c p first_wrap = do {
     let nxt = prev_or_next previous c (nodes_head (heap s p));
     permitted \<leftarrow> (case nxt of None \<Rightarrow> Some False | Some n \<Rightarrow> con_fullscreen_permits_focusing s n);
     if permitted then Some (Inl nxt)
     else do {
       wrap \<leftarrow> last_or_first previous (nodes_head (heap s p));
       (case cfg_focus_wrapping (cfg s) of
          FOCUS_WRAPPING_OFF \<Rightarrow> Some (Inr first_wrap)
        | FOCUS_WRAPPING_FORCE \<Rightarrow>
            if nxt \<noteq> None then Some (Inl None)
            else map_option (\<lambda>b. Inl (if b then Some wrap else None)) (con_fullscreen_permits_focusing s wrap)
        | _ \<Rightarrow>
            if first_wrap \<noteq> None then Some (Inr first_wrap)
            else map_option (\<lambda>b. Inr (if b then Some wrap else None)) (con_fullscreen_permits_focusing s wrap)) }
   }"

definition next_floating :: "i3 \<Rightarrow> direction \<Rightarrow> con_id \<Rightarrow> con_id \<Rightarrow> con_id option option" where
  "next_floating s d c p =
     (if orientation_from_direction d \<noteq> HORIZ then Some None
      else (let previous = (position_from_direction d = BEFORE); fl = floating_head (heap s p)
            in case prev_or_next previous c fl of
                 Some n \<Rightarrow> Some (Some n)
               | None \<Rightarrow> map_option Some (last_or_first previous fl)))"

fun next_loop ::
  "nat \<Rightarrow> i3 \<Rightarrow> direction \<Rightarrow> con_id \<Rightarrow> con_id option \<Rightarrow> (con_id option + con_id \<times> con_id option) option" where
  "next_loop 0 s d c first_wrap = None"
| "next_loop (Suc n) s d c first_wrap =
     (if con_type (heap s c) = CT_WORKSPACE then Some (Inr (c, first_wrap))
      else if fullscreen_mode (heap s c) = CF_OUTPUT then do {
        ws \<leftarrow> con_get_workspace s c;
        ws \<leftarrow> ws;
        Some (Inr (ws, first_wrap)) }
      else if fullscreen_mode (heap s c) = CF_GLOBAL then Some (Inl first_wrap)
      else do {
        p \<leftarrow> parent (heap s c);
        if con_type (heap s c) = CT_FLOATING_CON then map_option Inl (next_floating s d c p)
        else do {
          along \<leftarrow> (if con_num_children s p > 1
                   then map_option (\<lambda>o'. o' = orientation_from_direction d) (con_orientation s p)
                   else Some False);
          r \<leftarrow> (if along then next_in_parent s (position_from_direction d = BEFORE) c p first_wrap
               else Some (Inr first_wrap));
          (case r of
             Inl res \<Rightarrow> Some (Inl res)
           | Inr first_wrap \<Rightarrow> next_loop n s d p first_wrap) } })"

definition get_tree_next :: "env \<Rightarrow> i3 \<Rightarrow> con_id \<Rightarrow> direction \<Rightarrow> con_id option option" where
  "get_tree_next e s c d =
     (if con_type (heap s c) = CT_WORKSPACE then get_tree_next_workspace e s c d
      else do {
        r \<leftarrow> next_loop (up_fuel s) s d c None;
        (case r of
           Inl res \<Rightarrow> Some res
         | Inr (ws, first_wrap) \<Rightarrow>
             if cfg_focus_wrapping (cfg s) = FOCUS_WRAPPING_WORKSPACE then Some first_wrap
             else do {
               w \<leftarrow> get_tree_next_workspace e s ws d;
               Some (case w of None \<Rightarrow> first_wrap | Some x \<Rightarrow> Some x) }) })"

section \<open>Changing the focus\<close>

text \<open>
  A floating container is raised by moving the last one to the front until it is the last one
  itself, which keeps the cyclic order of the stack.
\<close>

fun rotate_floats :: "nat \<Rightarrow> con_id \<Rightarrow> con_id list \<Rightarrow> con_id list option" where
  "rotate_floats 0 c xs = None"
| "rotate_floats (Suc k) c xs =
     (case list_last xs of
        None \<Rightarrow> None
      | Some l \<Rightarrow> if l = c then Some xs else rotate_floats k c (l # butlast xs))"

text \<open>What gets the focus on a workspace: fullscreen containers first, then tiling ones.\<close>

definition focus_on_workspace :: "i3 \<Rightarrow> con_id \<Rightarrow> con_id option" where
  "focus_on_workspace s ws = do {
     f \<leftarrow> con_descend_focused s ws;
     if fullscreen_mode (heap s f) = CF_NONE then do {
       t \<leftarrow> con_descend_tiling_focused s ws;
       Some (if t \<noteq> ws then t else f) }
     else Some f
   }"

definition tree_next :: "env \<Rightarrow> con_id \<Rightarrow> direction \<Rightarrow> i3 \<Rightarrow> i3 option" where
  "tree_next e c d s = do {
     nxt \<leftarrow> get_tree_next e s c d;
     (case nxt of
        None \<Rightarrow> Some s
      | Some n \<Rightarrow>
          if con_type (heap s n) = CT_WORKSPACE then do {
            f \<leftarrow> focus_on_workspace s n;
            s \<leftarrow> workspace_show n s;
            f \<leftarrow> deref s f;
            s \<leftarrow> con_activate f s;
            Some (emit (X_Set_Warp_To (Some (con_rect (heap s f)))) s) }
          else do {
            s \<leftarrow> (if con_type (heap s n) = CT_FLOATING_CON then do {
                    p \<leftarrow> parent (heap s n);
                    fl \<leftarrow> rotate_floats (Suc (length (floating_head (heap s p)))) n (floating_head (heap s p));
                    Some (upd p (\<lambda>c. c\<lparr>floating_head := fl\<rparr>) s) }
                 else Some s);
            ws \<leftarrow> con_get_workspace s n;
            ws \<leftarrow> ws;
            s \<leftarrow> workspace_show ws s;
            n \<leftarrow> deref s n;
            f \<leftarrow> con_descend_focused s n;
            con_activate f s })
   }"

definition get_tree_next_sibling :: "i3 \<Rightarrow> con_id \<Rightarrow> position \<Rightarrow> con_id option option" where
  "get_tree_next_sibling s c pos = do {
     p \<leftarrow> parent (heap s c);
     (case prev_or_next (pos = BEFORE) c (nodes_head (heap s p)) of
        None \<Rightarrow> Some None
      | Some n \<Rightarrow> map_option (\<lambda>b. if b then Some n else None) (con_fullscreen_permits_focusing s n))
   }"

end
