(* ===== verification/Tree_Flatten.thy ===== *)
theory Tree_Flatten
  imports Tree_Nav
begin

text \<open>
  Removing redundant pairs of split containers (\<open>tree_flatten\<close> of src/tree.c): a split container
  whose only child is a split container along the orientation of its parent gives its place to the
  children of that child.
\<close>

text \<open>The only child, if the container and it are redundant.\<close>

definition redundant_child :: "i3 \<Rightarrow> con_id \<Rightarrow> con_id option option" where
  "redundant_child s c =
     (if con_type (heap s c) \<noteq> CT_CON then Some None
      else do {
        p \<leftarrow> parent (heap s c);
        if layout (heap s p) = L_OUTPUT \<or> con_window (heap s c) \<noteq> None then Some None
        else (case nodes_head (heap s c) of
                [d] \<Rightarrow>
                  if \<not> con_is_split s c \<or> \<not> con_is_split s d \<or>
                     layout (heap s c) \<notin> {L_SPLITH, L_SPLITV} \<or> layout (heap s d) \<notin> {L_SPLITH, L_SPLITV}
                  then Some None
                  else do {
                    oc \<leftarrow> con_orientation s c;
                    od \<leftarrow> con_orientation s d;
                    if oc = od then Some None
                    else do { op \<leftarrow> con_orientation s p; Some (if od = op then Some d else None) } }
              | _ \<Rightarrow> Some None) })"

text \<open>The children of \<open>d\<close> move before \<open>c\<close> one by one; each gets the share of \<open>c\<close>.\<close>

definition lift_child :: "con_id \<Rightarrow> con_id \<Rightarrow> con_id \<Rightarrow> i3 \<Rightarrow> i3 option" where
  "lift_child x c p s = do {
     s \<leftarrow> con_detach x s;
     let s = upd x (\<lambda>n. n\<lparr>parent := Some p\<rparr>) s;
     ns \<leftarrow> link_before c x (nodes_head (heap s p));
     let s = upd p (\<lambda>n. n\<lparr>nodes_head := ns, focus_head := focus_head n @ [x]\<rparr>) s;
     Some (upd x (\<lambda>n. n\<lparr>percent := percent (heap s c)\<rparr>) s)
   }"

fun lift_children :: "nat \<Rightarrow> con_id \<Rightarrow> con_id \<Rightarrow> con_id \<Rightarrow> i3 \<Rightarrow> i3 option" where
  "lift_children 0 d c p s = None"
| "lift_children (Suc k) d c p s =
     (case nodes_head (heap s d) of
        [] \<Rightarrow> Some s
      | x # _ \<Rightarrow> do { s \<leftarrow> lift_child x c p s; lift_children k d c p s })"

definition restore_focus :: "con_id option \<Rightarrow> con_id \<Rightarrow> con_id \<Rightarrow> i3 \<Rightarrow> i3 option" where
  "restore_focus focus_next c p s =
     (case focus_next of
        None \<Rightarrow> Some s
      | Some x \<Rightarrow>
          if list_first (focus_head (heap s p)) = Some c then do {
            fo \<leftarrow> unlink x (focus_head (heap s p));
            Some (upd p (\<lambda>n. n\<lparr>focus_head := x # fo\<rparr>) s) }
          else Some s)"

definition flatten_here :: "con_id \<Rightarrow> con_id \<Rightarrow> i3 \<Rightarrow> i3 option" where
  "flatten_here c d s = do {
     p \<leftarrow> parent (heap s c);
     let focus_next = list_first (focus_head (heap s d));
     s \<leftarrow> lift_children (Suc (length (nodes_head (heap s d)))) d c p s;
     s \<leftarrow> restore_focus focus_next c p s;
     map_option snd (tree_close_internal c DONT_KILL_WINDOW True s)
   }"

text \<open>
  The successor of a child is read before the child is flattened; flattening changes the queue
  only at the child itself, so the children are those at the start of the loop.
\<close>

fun flatten_loop :: "nat \<Rightarrow> con_id \<Rightarrow> i3 \<Rightarrow> i3 option" where
  "flatten_loop 0 c s = None"
| "flatten_loop (Suc k) c s = do {
     r \<leftarrow> redundant_child s c;
     (case r of
        Some d \<Rightarrow> flatten_here c d s
      | None \<Rightarrow> do {
          s \<leftarrow> fold_opt (flatten_loop k) (nodes_head (heap s c)) s;
          fold_opt (flatten_loop k) (floating_head (heap s c)) s })
   }"

definition tree_flatten :: "con_id \<Rightarrow> i3 \<Rightarrow> i3 option" where
  "tree_flatten c s = flatten_loop (up_fuel s) c s"

end
