(* ===== verification/Tailq.thy ===== *)
theory Tailq
  imports Prelude
begin

text \<open>
  The intrusive tail queues of include/queue.h, at the level of their pointers.  A queue head
  holds \<open>tqh_first\<close> and the address \<open>tqh_last\<close> of the last next-pointer; every element holds
  \<open>tqe_next\<close> and the address \<open>tqe_prev\<close> of the previous next-pointer.  The address of a
  next-pointer is a \<open>slot\<close>: that of the head or that of an element.  The theory proves that
  every macro used by the window manager implements the corresponding function on the list of
  elements, which is what the container heap of the later theories stores.
\<close>

section \<open>Memory of one tail queue\<close>

datatype 'a slot = Head_First | Next_Of 'a

record 'a tailq =
  tqh_first :: "'a option"
  tqh_last :: "'a slot"
  tqe_next :: "'a \<Rightarrow> 'a option"
  tqe_prev :: "'a \<Rightarrow> 'a slot"

text \<open>Reading and writing through the address of a next-pointer.\<close>

fun slot_get :: "'a tailq \<Rightarrow> 'a slot \<Rightarrow> 'a option" where
  "slot_get q Head_First = tqh_first q"
| "slot_get q (Next_Of x) = tqe_next q x"

fun slot_put :: "'a slot \<Rightarrow> 'a option \<Rightarrow> 'a tailq \<Rightarrow> 'a tailq" where
  "slot_put Head_First v q = q\<lparr>tqh_first := v\<rparr>"
| "slot_put (Next_Of x) v q = q\<lparr>tqe_next := (tqe_next q)(x := v)\<rparr>"

text \<open>
  \<open>TAILQ_LAST\<close> and \<open>TAILQ_PREV\<close> cast the address of a next-pointer to a queue head and read
  the second word there: \<open>tqh_last\<close> for the head, \<open>tqe_prev\<close> for an element.
\<close>

fun slot_second :: "'a tailq \<Rightarrow> 'a slot \<Rightarrow> 'a slot" where
  "slot_second q Head_First = tqh_last q"
| "slot_second q (Next_Of x) = tqe_prev q x"

abbreviation put_next :: "'a \<Rightarrow> 'a option \<Rightarrow> 'a tailq \<Rightarrow> 'a tailq" where
  "put_next x v q \<equiv> q\<lparr>tqe_next := (tqe_next q)(x := v)\<rparr>"

abbreviation put_prev :: "'a \<Rightarrow> 'a slot \<Rightarrow> 'a tailq \<Rightarrow> 'a tailq" where
  "put_prev x v q \<equiv> q\<lparr>tqe_prev := (tqe_prev q)(x := v)\<rparr>"

text \<open>The two-armed update of the macros: the follower's back link, or the head's last link.\<close>

definition set_back :: "'a option \<Rightarrow> 'a slot \<Rightarrow> 'a tailq \<Rightarrow> 'a tailq" where
  "set_back nxt v q = (case nxt of Some y \<Rightarrow> put_prev y v q | None \<Rightarrow> q\<lparr>tqh_last := v\<rparr>)"

section \<open>The macros\<close>

definition TAILQ_INIT :: "'a tailq \<Rightarrow> 'a tailq" where
  "TAILQ_INIT q = q\<lparr>tqh_first := None, tqh_last := Head_First\<rparr>"

definition TAILQ_FIRST :: "'a tailq \<Rightarrow> 'a option" where
  "TAILQ_FIRST q = tqh_first q"

definition TAILQ_NEXT :: "'a \<Rightarrow> 'a tailq \<Rightarrow> 'a option" where
  "TAILQ_NEXT x q = tqe_next q x"

definition TAILQ_LAST :: "'a tailq \<Rightarrow> 'a option" where
  "TAILQ_LAST q = slot_get q (slot_second q (tqh_last q))"

definition TAILQ_PREV :: "'a \<Rightarrow> 'a tailq \<Rightarrow> 'a option" where
  "TAILQ_PREV x q = slot_get q (slot_second q (tqe_prev q x))"

definition TAILQ_EMPTY :: "'a tailq \<Rightarrow> bool" where
  "TAILQ_EMPTY q \<longleftrightarrow> TAILQ_FIRST q = None"

definition TAILQ_INSERT_HEAD :: "'a \<Rightarrow> 'a tailq \<Rightarrow> 'a tailq" where
  "TAILQ_INSERT_HEAD x q =
     (let q = put_next x (tqh_first q) q;
          q = set_back (tqe_next q x) (Next_Of x) q;
          q = q\<lparr>tqh_first := Some x\<rparr>
      in put_prev x Head_First q)"

definition TAILQ_INSERT_TAIL :: "'a \<Rightarrow> 'a tailq \<Rightarrow> 'a tailq" where
  "TAILQ_INSERT_TAIL x q =
     (let q = put_next x None q;
          q = put_prev x (tqh_last q) q;
          q = slot_put (tqh_last q) (Some x) q
      in q\<lparr>tqh_last := Next_Of x\<rparr>)"

definition TAILQ_INSERT_AFTER :: "'a \<Rightarrow> 'a \<Rightarrow> 'a tailq \<Rightarrow> 'a tailq" where
  "TAILQ_INSERT_AFTER r x q =
     (let q = put_next x (tqe_next q r) q;
          q = set_back (tqe_next q x) (Next_Of x) q;
          q = put_next r (Some x) q
      in put_prev x (Next_Of r) q)"

definition TAILQ_INSERT_BEFORE :: "'a \<Rightarrow> 'a \<Rightarrow> 'a tailq \<Rightarrow> 'a tailq" where
  "TAILQ_INSERT_BEFORE r x q =
     (let q = put_prev x (tqe_prev q r) q;
          q = put_next x (Some r) q;
          q = slot_put (tqe_prev q r) (Some x) q
      in put_prev r (Next_Of x) q)"

definition TAILQ_REMOVE :: "'a \<Rightarrow> 'a tailq \<Rightarrow> 'a tailq" where
  "TAILQ_REMOVE x q =
     (let q = set_back (tqe_next q x) (tqe_prev q x) q
      in slot_put (tqe_prev q x) (tqe_next q x) q)"

definition TAILQ_REPLACE :: "'a \<Rightarrow> 'a \<Rightarrow> 'a tailq \<Rightarrow> 'a tailq" where
  "TAILQ_REPLACE x y q =
     (let q = put_next y (tqe_next q x) q;
          q = set_back (tqe_next q y) (Next_Of y) q;
          q = put_prev y (tqe_prev q x) q
      in slot_put (tqe_prev q y) (Some y) q)"

definition TAILQ_SWAP :: "'a \<Rightarrow> 'a \<Rightarrow> 'a tailq \<Rightarrow> 'a tailq" where
  "TAILQ_SWAP x y q =
     (let q = slot_put (tqe_prev q x) (Some y) q;
          q = put_prev y (tqe_prev q x) q;
          q = put_prev x (Next_Of y) q;
          q = put_next x (tqe_next q y) q;
          q = (case tqe_next q y of Some z \<Rightarrow> put_prev z (Next_Of x) q | None \<Rightarrow> q);
          q = put_next y (Some x) q
      in if tqh_last q = Next_Of y then q\<lparr>tqh_last := Next_Of x\<rparr> else q)"

section \<open>The abstraction to lists\<close>

text \<open>\<open>chain q s xs\<close>: following the links from the slot \<open>s\<close> visits exactly \<open>xs\<close>.\<close>

fun chain :: "'a tailq \<Rightarrow> 'a slot \<Rightarrow> 'a list \<Rightarrow> bool" where
  "chain q s [] \<longleftrightarrow> slot_get q s = None \<and> tqh_last q = s"
| "chain q s (x # xs) \<longleftrightarrow> slot_get q s = Some x \<and> tqe_prev q x = s \<and> chain q (Next_Of x) xs"

text \<open>A segment: the same, ending in the slot of its last element.\<close>

fun seg :: "'a tailq \<Rightarrow> 'a slot \<Rightarrow> 'a list \<Rightarrow> bool" where
  "seg q s [] \<longleftrightarrow> True"
| "seg q s (x # xs) \<longleftrightarrow> slot_get q s = Some x \<and> tqe_prev q x = s \<and> seg q (Next_Of x) xs"

definition end_slot :: "'a slot \<Rightarrow> 'a list \<Rightarrow> 'a slot" where
  "end_slot s xs = (if xs = [] then s else Next_Of (last xs))"

definition tq_repr :: "'a tailq \<Rightarrow> 'a list \<Rightarrow> bool" where
  "tq_repr q xs \<longleftrightarrow> distinct xs \<and> chain q Head_First xs"

lemma end_slot_simps [simp]:
  "end_slot s [] = s" "end_slot s (x # xs) = end_slot (Next_Of x) xs"
  "end_slot s (xs @ ys) = end_slot (end_slot s xs) ys"
  by (simp_all add: end_slot_def)

lemma chain_append: "chain q s (xs @ ys) \<longleftrightarrow> seg q s xs \<and> chain q (end_slot s xs) ys"
  by (induction xs arbitrary: s) auto

lemma seg_append: "seg q s (xs @ ys) \<longleftrightarrow> seg q s xs \<and> seg q (end_slot s xs) ys"
  by (induction xs arbitrary: s) auto

lemma chain_last: "chain q s xs \<Longrightarrow> tqh_last q = end_slot s xs"
  by (induction xs arbitrary: s) auto

lemma end_slot_cases:
  "end_slot Head_First xs = Head_First \<and> xs = []
   \<or> (\<exists>y. end_slot Head_First xs = Next_Of y \<and> y \<in> set xs)"
  by (cases xs rule: rev_cases) auto

text \<open>Frame rules: links outside the segment do not matter.\<close>

lemma seg_frame:
  assumes "seg q s xs" and "distinct xs"
    and "xs \<noteq> [] \<Longrightarrow> slot_get q' s = slot_get q s"
    and "\<And>x. x \<in> set xs \<Longrightarrow> tqe_prev q' x = tqe_prev q x"
    and "\<And>x. x \<in> set (butlast xs) \<Longrightarrow> tqe_next q' x = tqe_next q x"
  shows "seg q' s xs"
  using assms
proof (induction xs arbitrary: s)
  case (Cons x xs)
  then show ?case by (cases xs) auto
qed simp

lemma chain_frame:
  assumes "chain q s xs" and "slot_get q' s = slot_get q s"
    and "\<And>x. x \<in> set xs \<Longrightarrow> tqe_prev q' x = tqe_prev q x"
    and "\<And>x. x \<in> set xs \<Longrightarrow> tqe_next q' x = tqe_next q x"
    and "tqh_last q' = tqh_last q"
  shows "chain q' s xs"
  using assms by (induction xs arbitrary: s) auto

text \<open>
  The chain after the first slot changed: with its first element, only the back link of that
  element and the pointer in the slot are to be re-established.
\<close>

lemma chain_relink:
  assumes "chain q s (y # ys)" and "distinct (y # ys)"
    and "slot_get q' s' = Some y" and "tqe_prev q' y = s'"
    and "\<And>x. x \<in> set ys \<Longrightarrow> tqe_prev q' x = tqe_prev q x"
    and "\<And>x. x \<in> set (y # ys) \<Longrightarrow> tqe_next q' x = tqe_next q x"
    and "tqh_last q' = tqh_last q"
  shows "chain q' s' (y # ys)"
  using assms by (auto intro!: chain_frame[of q "Next_Of y" ys q'])

section \<open>Each macro implements its list function\<close>

lemma tq_repr_init: "tq_repr (TAILQ_INIT q) []"
  by (simp add: tq_repr_def TAILQ_INIT_def)

lemma tq_repr_first: "tq_repr q xs \<Longrightarrow> TAILQ_FIRST q = list_first xs"
  by (cases xs) (auto simp: tq_repr_def TAILQ_FIRST_def)

lemma tq_repr_empty: "tq_repr q xs \<Longrightarrow> TAILQ_EMPTY q \<longleftrightarrow> xs = []"
  by (simp add: TAILQ_EMPTY_def tq_repr_first)

lemma tq_repr_next:
  assumes "tq_repr q xs" and "x \<in> set xs"
  shows "TAILQ_NEXT x q = next_of x xs"
proof -
  from assms obtain ys zs where xs: "xs = ys @ x # zs" "x \<notin> set ys"
    by (metis tq_repr_def split_list_distinct)
  with assms have "chain q (Next_Of x) zs" by (simp add: tq_repr_def chain_append)
  then have "tqe_next q x = list_first zs" by (cases zs) auto
  with xs show ?thesis by (simp add: TAILQ_NEXT_def next_of_append)
qed

lemma seg_slot_second:
  assumes "seg q s (xs @ [x])"
  shows "slot_get q (slot_second q (end_slot s (xs @ [x]))) = Some x"
  using assms by (simp add: seg_append)

lemma tq_repr_last:
  assumes "tq_repr q xs"
  shows "TAILQ_LAST q = list_last xs"
proof (cases xs rule: rev_cases)
  case Nil
  with assms show ?thesis by (simp add: TAILQ_LAST_def tq_repr_def)
next
  case (snoc ys y)
  with assms have c: "chain q Head_First (ys @ [y])" by (simp add: tq_repr_def)
  then have "seg q Head_First (ys @ [y])" by (simp add: chain_append seg_append)
  from seg_slot_second[OF this] chain_last[OF c] snoc show ?thesis
    by (simp add: TAILQ_LAST_def)
qed

lemma tq_repr_prev:
  assumes "tq_repr q xs" and "x \<in> set xs"
  shows "TAILQ_PREV x q = prev_of x xs"
proof -
  from assms obtain ys zs where xs: "xs = ys @ x # zs" "x \<notin> set ys" "x \<notin> set zs"
    by (metis tq_repr_def split_list_distinct)
  with assms have c: "chain q Head_First xs" and s: "seg q Head_First ys"
    and p: "tqe_prev q x = end_slot Head_First ys"
    by (auto simp: tq_repr_def chain_append)
  have pv: "prev_of x xs = list_last ys" using xs by (simp add: prev_of_append)
  show ?thesis
  proof (cases ys rule: rev_cases)
    case Nil
    have "slot_get q (tqh_last q) = None"
      using c xs by (cases zs rule: rev_cases) (auto simp: chain_append)
    with Nil p pv show ?thesis by (simp add: TAILQ_PREV_def)
  next
    case (snoc vs v)
    with s have "slot_get q (slot_second q (end_slot Head_First ys)) = Some v"
      by (metis seg_slot_second)
    with p pv snoc show ?thesis by (simp add: TAILQ_PREV_def)
  qed
qed

lemma tq_repr_insert_head:
  assumes "tq_repr q xs" and "x \<notin> set xs"
  shows "tq_repr (TAILQ_INSERT_HEAD x q) (x # xs)"
proof (cases xs)
  case Nil
  with assms show ?thesis
    by (simp add: tq_repr_def TAILQ_INSERT_HEAD_def set_back_def Let_def)
next
  case (Cons y ys)
  with assms have c: "chain q Head_First (y # ys)" "distinct (y # ys)"
    by (simp_all add: tq_repr_def)
  let ?q = "TAILQ_INSERT_HEAD x q"
  have "chain ?q (Next_Of x) (y # ys)"
    by (rule chain_relink[OF c])
      (use assms c Cons in \<open>auto simp: TAILQ_INSERT_HEAD_def set_back_def Let_def\<close>)
  then show ?thesis using assms Cons
    by (auto simp: tq_repr_def TAILQ_INSERT_HEAD_def Let_def)
qed

lemma tq_repr_insert_tail:
  assumes "tq_repr q xs" and "x \<notin> set xs"
  shows "tq_repr (TAILQ_INSERT_TAIL x q) (xs @ [x])"
proof -
  let ?q = "TAILQ_INSERT_TAIL x q"
  from assms have c: "chain q Head_First xs" and d: "distinct xs" by (simp_all add: tq_repr_def)
  have l: "tqh_last q = end_slot Head_First xs" by (rule chain_last[OF c])
  have s: "seg q Head_First xs" using c chain_append[of q Head_First xs "[]"] by simp
  have "seg ?q Head_First xs"
  proof (rule seg_frame[OF s d])
    show "slot_get ?q Head_First = slot_get q Head_First" if "xs \<noteq> []"
      using l that by (simp add: TAILQ_INSERT_TAIL_def Let_def end_slot_def)
    show "tqe_prev ?q y = tqe_prev q y" if "y \<in> set xs" for y
      using that assms l end_slot_cases[of xs]
      by (auto simp: TAILQ_INSERT_TAIL_def Let_def)
    show "tqe_next ?q y = tqe_next q y" if "y \<in> set (butlast xs)" for y
    proof (cases xs rule: rev_cases)
      case (snoc ys z)
      with that d assms l show ?thesis by (auto simp: TAILQ_INSERT_TAIL_def Let_def)
    qed (use that in simp)
  qed
  moreover have "chain ?q (end_slot Head_First xs) [x]"
    using l assms end_slot_cases[of xs]
    by (auto simp: TAILQ_INSERT_TAIL_def Let_def)
  ultimately show ?thesis using assms d by (simp add: tq_repr_def chain_append)
qed

text \<open>
  The remaining macros work at an element \<open>r\<close> inside the queue.  The part before it is framed;
  the part from it on is relinked.
\<close>

lemma seg_frame_before:
  assumes "chain q Head_First (ys @ r # zs)" and "distinct (ys @ r # zs)"
    and "ys \<noteq> [] \<Longrightarrow> tqh_first q' = tqh_first q"
    and "\<And>x. x \<in> set ys \<Longrightarrow> tqe_prev q' x = tqe_prev q x"
    and "\<And>x. x \<in> set (butlast ys) \<Longrightarrow> tqe_next q' x = tqe_next q x"
  shows "seg q' Head_First ys"
proof -
  from assms(1) have "seg q Head_First ys" by (simp add: chain_append)
  then show ?thesis by (rule seg_frame) (use assms in auto)
qed

lemma tq_repr_insert_after:
  assumes "tq_repr q xs" and "r \<in> set xs" and "x \<notin> set xs"
  shows "tq_repr (TAILQ_INSERT_AFTER r x q) (insert_after r x xs)"
proof -
  let ?q = "TAILQ_INSERT_AFTER r x q"
  from assms obtain ys zs where xs: "xs = ys @ r # zs" "r \<notin> set ys"
    by (metis tq_repr_def split_list_distinct)
  from assms xs have c: "chain q Head_First (ys @ r # zs)" and d: "distinct (ys @ r # zs)"
    by (simp_all add: tq_repr_def)
  have x: "x \<notin> set ys" "x \<noteq> r" "x \<notin> set zs" using assms(3) xs by auto
  have nr: "tqe_next q r = list_first zs" using c by (cases zs) (auto simp: chain_append)
  have 1: "seg ?q Head_First ys"
    by (rule seg_frame_before[OF c d])
      (use d x nr in \<open>auto simp: TAILQ_INSERT_AFTER_def set_back_def Let_def
         split: option.splits dest: in_set_butlastD list_first_in\<close>)
  have 2: "slot_get ?q (end_slot Head_First ys) = Some r"
    using c d x nr end_slot_cases[of ys]
    by (auto simp: chain_append TAILQ_INSERT_AFTER_def set_back_def Let_def split: option.splits)
  have 3: "tqe_prev ?q r = end_slot Head_First ys"
    using c d x nr
    by (auto simp: chain_append TAILQ_INSERT_AFTER_def set_back_def Let_def
        split: option.splits dest: list_first_in)
  have 4: "chain ?q (Next_Of x) zs"
  proof (cases zs)
    case Nil
    with c x nr show ?thesis
      by (simp add: TAILQ_INSERT_AFTER_def set_back_def Let_def)
  next
    case (Cons z ws)
    with c d have cz: "chain q (Next_Of r) (z # ws)" "distinct (z # ws)"
      by (auto simp: chain_append)
    show ?thesis unfolding Cons
      by (rule chain_relink[OF cz])
        (use Cons d x nr in \<open>auto simp: TAILQ_INSERT_AFTER_def set_back_def Let_def\<close>)
  qed
  have 5: "tqe_next ?q r = Some x" "tqe_prev ?q x = Next_Of r"
    by (simp_all add: TAILQ_INSERT_AFTER_def Let_def)
  from 1 2 3 4 5 d x xs show ?thesis
    by (auto simp: tq_repr_def insert_after_append chain_append)
qed

lemma tq_repr_insert_before:
  assumes "tq_repr q xs" and "r \<in> set xs" and "x \<notin> set xs"
  shows "tq_repr (TAILQ_INSERT_BEFORE r x q) (insert_before r x xs)"
proof -
  let ?q = "TAILQ_INSERT_BEFORE r x q" and ?s = "\<lambda>ys. end_slot Head_First ys"
  from assms obtain ys zs where xs: "xs = ys @ r # zs" "r \<notin> set ys"
    by (metis tq_repr_def split_list_distinct)
  from assms xs have c: "chain q Head_First (ys @ r # zs)" and d: "distinct (ys @ r # zs)"
    by (simp_all add: tq_repr_def)
  have x: "x \<notin> set ys" "x \<noteq> r" "x \<notin> set zs" using assms(3) xs by auto
  have p: "tqe_prev q r = ?s ys" and cr: "chain q (?s ys) (r # zs)"
    using c by (simp_all add: chain_append)
  have 1: "seg ?q Head_First ys"
  proof (rule seg_frame_before[OF c d])
    fix y assume "y \<in> set (butlast ys)"
    then show "tqe_next ?q y = tqe_next q y"
      using p d x by (cases ys rule: rev_cases)
        (auto simp: TAILQ_INSERT_BEFORE_def Let_def)
  qed (use p d x end_slot_cases[of ys] in \<open>auto simp: TAILQ_INSERT_BEFORE_def Let_def\<close>)
  have 2: "slot_get ?q (?s ys) = Some x" "tqe_prev ?q x = ?s ys"
    using p d x end_slot_cases[of ys] by (auto simp: TAILQ_INSERT_BEFORE_def Let_def)
  have 3: "chain ?q (Next_Of x) (r # zs)"
    by (rule chain_relink[OF cr])
      (use p d x end_slot_cases[of ys] in \<open>auto simp: TAILQ_INSERT_BEFORE_def Let_def\<close>)
  from 1 2 3 d x xs show ?thesis
    by (auto simp: tq_repr_def insert_before_append chain_append)
qed

lemma tq_repr_remove:
  assumes "tq_repr q xs" and "x \<in> set xs"
  shows "tq_repr (TAILQ_REMOVE x q) (remove1 x xs)"
proof -
  let ?q = "TAILQ_REMOVE x q" and ?s = "\<lambda>ys. end_slot Head_First ys"
  from assms obtain ys zs where xs: "xs = ys @ x # zs" "x \<notin> set ys" "x \<notin> set zs"
    by (metis tq_repr_def split_list_distinct)
  from assms xs have c: "chain q Head_First (ys @ x # zs)" and d: "distinct (ys @ x # zs)"
    by (simp_all add: tq_repr_def)
  have p: "tqe_prev q x = ?s ys" and nx: "tqe_next q x = list_first zs"
    and cz: "chain q (Next_Of x) zs"
    using c by (cases zs; auto simp: chain_append)+
  have lz: "\<And>z. list_first zs = Some z \<Longrightarrow> z \<notin> set ys \<and> z \<noteq> x"
    using d by (auto dest!: list_first_in)
  have 1: "seg ?q Head_First ys"
  proof (rule seg_frame_before[OF c d])
    fix y assume "y \<in> set (butlast ys)"
    then show "tqe_next ?q y = tqe_next q y"
      using p d nx by (cases ys rule: rev_cases)
        (auto simp: TAILQ_REMOVE_def set_back_def Let_def split: option.splits)
  qed (use p d nx end_slot_cases[of ys] in
      \<open>auto simp: TAILQ_REMOVE_def set_back_def Let_def split: option.splits dest!: lz\<close>)
  have 2: "chain ?q (?s ys) zs"
  proof (cases zs)
    case Nil
    with p nx d end_slot_cases[of ys] show ?thesis
      by (auto simp: TAILQ_REMOVE_def set_back_def Let_def)
  next
    case (Cons z ws)
    with cz d have cz': "chain q (Next_Of x) (z # ws)" "distinct (z # ws)" by auto
    show ?thesis unfolding Cons
      by (rule chain_relink[OF cz'])
        (use Cons p nx d end_slot_cases[of ys] in
          \<open>auto simp: TAILQ_REMOVE_def set_back_def Let_def\<close>)
  qed
  from 1 2 d xs show ?thesis
    by (auto simp: tq_repr_def chain_append remove1_append)
qed

lemma tq_repr_replace:
  assumes "tq_repr q xs" and "x \<in> set xs" and "y \<notin> set xs"
  shows "tq_repr (TAILQ_REPLACE x y q) (replace_elem x y xs)"
proof -
  let ?q = "TAILQ_REPLACE x y q" and ?s = "\<lambda>ys. end_slot Head_First ys"
  from assms obtain ys zs where xs: "xs = ys @ x # zs" "x \<notin> set ys" "x \<notin> set zs"
    by (metis tq_repr_def split_list_distinct)
  from assms xs have c: "chain q Head_First (ys @ x # zs)" and d: "distinct (ys @ x # zs)"
    by (simp_all add: tq_repr_def)
  have y: "y \<notin> set ys" "y \<noteq> x" "y \<notin> set zs" using assms(3) xs by auto
  have p: "tqe_prev q x = ?s ys" and nx: "tqe_next q x = list_first zs"
    and cz: "chain q (Next_Of x) zs"
    using c by (cases zs; auto simp: chain_append)+
  note defs = TAILQ_REPLACE_def set_back_def Let_def
  have 1: "seg ?q Head_First ys"
  proof (rule seg_frame_before[OF c d])
    fix v assume "v \<in> set (butlast ys)"
    then show "tqe_next ?q v = tqe_next q v"
      using p d nx y by (cases ys rule: rev_cases) (auto simp: defs split: option.splits)
  qed (use p d nx y end_slot_cases[of ys] in
      \<open>auto simp: defs split: option.splits dest: list_first_in\<close>)
  have 2: "slot_get ?q (?s ys) = Some y" "tqe_prev ?q y = ?s ys"
    using p d nx y end_slot_cases[of ys] by (auto simp: defs split: option.splits dest: list_first_in)
  have 3: "chain ?q (Next_Of y) zs"
  proof (cases zs)
    case Nil
    with p nx d y end_slot_cases[of ys] show ?thesis by (auto simp: defs)
  next
    case (Cons z ws)
    with cz d have cz': "chain q (Next_Of x) (z # ws)" "distinct (z # ws)" by auto
    show ?thesis unfolding Cons
      by (rule chain_relink[OF cz']) (use Cons p nx d y end_slot_cases[of ys] in \<open>auto simp: defs\<close>)
  qed
  have "replace_elem x y xs = ys @ y # zs"
    using xs by (auto simp: replace_elem_def intro: map_idI)
  with 1 2 3 d y show ?thesis by (auto simp: tq_repr_def chain_append)
qed

lemma tq_repr_swap:
  assumes "tq_repr q (ys @ x # y # zs)"
  shows "tq_repr (TAILQ_SWAP x y q) (ys @ y # x # zs)"
proof -
  let ?q = "TAILQ_SWAP x y q" and ?s = "\<lambda>ys. end_slot Head_First ys"
  from assms have c: "chain q Head_First (ys @ x # (y # zs))" and d: "distinct (ys @ x # (y # zs))"
    by (simp_all add: tq_repr_def)
  have p: "tqe_prev q x = ?s ys" "tqe_prev q y = Next_Of x" and nx: "tqe_next q x = Some y"
    and ny: "tqe_next q y = list_first zs" and cz: "chain q (Next_Of y) zs"
    using c by (cases zs; auto simp: chain_append)+
  have l: "tqh_last q = Next_Of y \<longleftrightarrow> zs = []"
    using chain_last[OF c] d by (cases zs rule: rev_cases) auto
  have es: "ys = [] \<and> ?s ys = Head_First
      \<or> (\<exists>v. ?s ys = Next_Of v \<and> v \<in> set ys \<and> v \<noteq> x \<and> v \<noteq> y \<and> x \<noteq> v \<and> y \<noteq> v)"
    using end_slot_cases[of ys] d by auto
  have lz: "\<And>z. list_first zs = Some z \<Longrightarrow> z \<notin> set ys \<and> z \<noteq> x \<and> z \<noteq> y \<and> z \<in> set zs"
    using d by (auto dest!: list_first_in)
  note defs = TAILQ_SWAP_def Let_def
  have f: "tqe_next ?q x = list_first zs" "tqe_next ?q y = Some x" "tqe_prev ?q x = Next_Of y"
    "tqe_prev ?q y = ?s ys"
    using p nx ny d es
    by (auto simp: defs split: option.splits dest: list_first_in)
  have 1: "seg ?q Head_First ys"
  proof (rule seg_frame_before[OF c d])
    fix v assume "v \<in> set (butlast ys)"
    then show "tqe_next ?q v = tqe_next q v"
      using p d nx ny by (cases ys rule: rev_cases) (auto simp: defs split: option.splits)
  qed (use p d nx ny es lz in \<open>auto simp: defs split: option.splits dest!: lz\<close>)
  have 2: "slot_get ?q (?s ys) = Some y"
    using p d nx ny es by (auto simp: defs split: option.splits)
  have 3: "chain ?q (Next_Of x) zs"
  proof (cases zs)
    case Nil
    with p nx ny d l es show ?thesis by (auto simp: defs)
  next
    case (Cons z ws)
    with cz d have cz': "chain q (Next_Of y) (z # ws)" "distinct (z # ws)" by auto
    show ?thesis unfolding Cons
      by (rule chain_relink[OF cz'])
        (use Cons p nx ny d l es in \<open>auto simp: defs\<close>)
  qed
  from 1 2 3 f d show ?thesis by (auto simp: tq_repr_def chain_append)
qed

section \<open>Traversals\<close>

text \<open>
  The elements visited by \<open>TAILQ_FOREACH\<close> and \<open>TAILQ_FOREACH_REVERSE\<close>; the fuel bounds the
  number of elements, and a queue of at most that many elements is visited completely.
\<close>

fun visit :: "nat \<Rightarrow> ('a \<Rightarrow> 'a option) \<Rightarrow> 'a option \<Rightarrow> 'a list option" where
  "visit n step None = Some []"
| "visit 0 step (Some x) = None"
| "visit (Suc n) step (Some x) = map_option (Cons x) (visit n step (step x))"

definition TAILQ_FOREACH :: "nat \<Rightarrow> 'a tailq \<Rightarrow> 'a list option" where
  "TAILQ_FOREACH n q = visit n (\<lambda>x. TAILQ_NEXT x q) (TAILQ_FIRST q)"

definition TAILQ_FOREACH_REVERSE :: "nat \<Rightarrow> 'a tailq \<Rightarrow> 'a list option" where
  "TAILQ_FOREACH_REVERSE n q = visit n (\<lambda>x. TAILQ_PREV x q) (TAILQ_LAST q)"

lemma visit_forward:
  assumes "distinct (ys @ zs)" and "length zs \<le> n"
    and "\<And>x. x \<in> set zs \<Longrightarrow> step x = next_of x (ys @ zs)"
  shows "visit n step (list_first zs) = Some zs"
  using assms
proof (induction zs arbitrary: ys n)
  case (Cons z zs)
  then obtain m where n: "n = Suc m" by (cases n) auto
  have "step z = list_first zs" using Cons.prems by (simp add: next_of_append)
  moreover have "visit m step (list_first zs) = Some zs"
    by (rule Cons.IH[of "ys @ [z]"]) (use Cons.prems n in auto)
  ultimately show ?case using n by simp
qed (cases n; simp)

lemma visit_backward:
  assumes "distinct (ys @ zs)" and "length ys \<le> n"
    and "\<And>x. x \<in> set ys \<Longrightarrow> step x = prev_of x (ys @ zs)"
  shows "visit n step (list_last ys) = Some (rev ys)"
  using assms
proof (induction ys arbitrary: zs n rule: rev_induct)
  case (snoc y ys)
  then obtain m where n: "n = Suc m" by (cases n) auto
  have "step y = list_last ys" using snoc.prems by (simp add: prev_of_append)
  moreover have "visit m step (list_last ys) = Some (rev ys)"
    by (rule snoc.IH[of "y # zs"]) (use snoc.prems n in auto)
  ultimately show ?case using n by simp
qed (cases n; simp)

lemma foreach_visits:
  "tq_repr q xs \<Longrightarrow> length xs \<le> n \<Longrightarrow> TAILQ_FOREACH n q = Some xs"
  using visit_forward[of "[]" xs n "\<lambda>x. TAILQ_NEXT x q"]
  by (simp add: TAILQ_FOREACH_def tq_repr_first tq_repr_next) (simp add: tq_repr_def)

lemma foreach_reverse_visits:
  "tq_repr q xs \<Longrightarrow> length xs \<le> n \<Longrightarrow> TAILQ_FOREACH_REVERSE n q = Some (rev xs)"
  using visit_backward[of xs "[]" n "\<lambda>x. TAILQ_PREV x q"]
  by (simp add: TAILQ_FOREACH_REVERSE_def tq_repr_last tq_repr_prev) (simp add: tq_repr_def)

section \<open>The interface the window manager relies on\<close>

text \<open>
  What the container code assumes of its queues, and the three patterns it builds from them:
  moving an element to the head (\<open>con_focus\<close>), to the tail (\<open>floating_raise_con\<close>) and
  rotating the last element to the head (\<open>tree_next\<close> on floating windows).
\<close>

locale tail_queue =
  fixes repr :: "'q \<Rightarrow> 'a list \<Rightarrow> bool"
    and first_elem :: "'q \<Rightarrow> 'a option"
    and last_elem :: "'q \<Rightarrow> 'a option"
    and next_elem :: "'a \<Rightarrow> 'q \<Rightarrow> 'a option"
    and prev_elem :: "'a \<Rightarrow> 'q \<Rightarrow> 'a option"
    and push_head :: "'a \<Rightarrow> 'q \<Rightarrow> 'q"
    and push_tail :: "'a \<Rightarrow> 'q \<Rightarrow> 'q"
    and unlink :: "'a \<Rightarrow> 'q \<Rightarrow> 'q"
  assumes repr_distinct: "repr q xs \<Longrightarrow> distinct xs"
    and repr_first: "repr q xs \<Longrightarrow> first_elem q = list_first xs"
    and repr_last: "repr q xs \<Longrightarrow> last_elem q = list_last xs"
    and repr_next: "repr q xs \<Longrightarrow> x \<in> set xs \<Longrightarrow> next_elem x q = next_of x xs"
    and repr_prev: "repr q xs \<Longrightarrow> x \<in> set xs \<Longrightarrow> prev_elem x q = prev_of x xs"
    and repr_push_head: "repr q xs \<Longrightarrow> x \<notin> set xs \<Longrightarrow> repr (push_head x q) (x # xs)"
    and repr_push_tail: "repr q xs \<Longrightarrow> x \<notin> set xs \<Longrightarrow> repr (push_tail x q) (xs @ [x])"
    and repr_unlink: "repr q xs \<Longrightarrow> x \<in> set xs \<Longrightarrow> repr (unlink x q) (remove1 x xs)"
begin

lemma repr_to_head:
  assumes "repr q xs" and "x \<in> set xs"
  shows "repr (push_head x (unlink x q)) (x # remove1 x xs)"
  using repr_push_head[OF repr_unlink[OF assms]] repr_distinct[OF assms(1)] by simp

lemma repr_to_tail:
  assumes "repr q xs" and "x \<in> set xs"
  shows "repr (push_tail x (unlink x q)) (remove1 x xs @ [x])"
  using repr_push_tail[OF repr_unlink[OF assms]] repr_distinct[OF assms(1)] by simp

lemma repr_rotate:
  assumes "repr q (ys @ [x])"
  shows "last_elem q = Some x" and "repr (push_head x (unlink x q)) (x # ys)"
proof -
  show "last_elem q = Some x" using repr_last[OF assms] by simp
  have "remove1 x (ys @ [x]) = ys"
    using repr_distinct[OF assms] by (simp add: remove1_append)
  then show "repr (push_head x (unlink x q)) (x # ys)"
    using repr_to_head[OF assms, of x] by simp
qed

lemma head_after_to_head:
  assumes "repr q xs" and "x \<in> set xs"
  shows "first_elem (push_head x (unlink x q)) = Some x"
  using repr_first[OF repr_to_head[OF assms]] by simp

lemma last_after_to_tail:
  assumes "repr q xs" and "x \<in> set xs"
  shows "last_elem (push_tail x (unlink x q)) = Some x"
  using repr_last[OF repr_to_tail[OF assms]] by simp

end

interpretation tq: tail_queue tq_repr TAILQ_FIRST TAILQ_LAST TAILQ_NEXT TAILQ_PREV
  TAILQ_INSERT_HEAD TAILQ_INSERT_TAIL TAILQ_REMOVE
  by unfold_locales
    (simp_all add: tq_repr_first tq_repr_last tq_repr_next tq_repr_prev tq_repr_insert_head
      tq_repr_insert_tail tq_repr_remove, simp add: tq_repr_def)

section \<open>Sequences of queue operations\<close>

datatype 'a tq_op = Ins_Head 'a | Ins_Tail 'a | Ins_After 'a 'a | Ins_Before 'a 'a
  | Remove 'a | Replace 'a 'a | Swap 'a 'a

fun tq_exec :: "'a tq_op \<Rightarrow> 'a tailq \<Rightarrow> 'a tailq" where
  "tq_exec (Ins_Head x) = TAILQ_INSERT_HEAD x"
| "tq_exec (Ins_Tail x) = TAILQ_INSERT_TAIL x"
| "tq_exec (Ins_After r x) = TAILQ_INSERT_AFTER r x"
| "tq_exec (Ins_Before r x) = TAILQ_INSERT_BEFORE r x"
| "tq_exec (Remove x) = TAILQ_REMOVE x"
| "tq_exec (Replace x y) = TAILQ_REPLACE x y"
| "tq_exec (Swap x y) = TAILQ_SWAP x y"

fun swap_adjacent :: "'a \<Rightarrow> 'a \<Rightarrow> 'a list \<Rightarrow> 'a list" where
  "swap_adjacent x y (a # b # zs) =
     (if a = x \<and> b = y then y # x # zs else a # swap_adjacent x y (b # zs))"
| "swap_adjacent x y zs = zs"

fun list_exec :: "'a tq_op \<Rightarrow> 'a list \<Rightarrow> 'a list" where
  "list_exec (Ins_Head x) xs = x # xs"
| "list_exec (Ins_Tail x) xs = xs @ [x]"
| "list_exec (Ins_After r x) xs = insert_after r x xs"
| "list_exec (Ins_Before r x) xs = insert_before r x xs"
| "list_exec (Remove x) xs = remove1 x xs"
| "list_exec (Replace x y) xs = replace_elem x y xs"
| "list_exec (Swap x y) xs = swap_adjacent x y xs"

text \<open>When the code may use an operation: the element is in, or not yet in, the queue.\<close>

fun op_ok :: "'a tq_op \<Rightarrow> 'a list \<Rightarrow> bool" where
  "op_ok (Ins_Head x) xs \<longleftrightarrow> x \<notin> set xs"
| "op_ok (Ins_Tail x) xs \<longleftrightarrow> x \<notin> set xs"
| "op_ok (Ins_After r x) xs \<longleftrightarrow> r \<in> set xs \<and> x \<notin> set xs"
| "op_ok (Ins_Before r x) xs \<longleftrightarrow> r \<in> set xs \<and> x \<notin> set xs"
| "op_ok (Remove x) xs \<longleftrightarrow> x \<in> set xs"
| "op_ok (Replace x y) xs \<longleftrightarrow> x \<in> set xs \<and> y \<notin> set xs"
| "op_ok (Swap x y) xs \<longleftrightarrow> x \<in> set xs \<and> next_of x xs = Some y"

fun ops_ok :: "'a tq_op list \<Rightarrow> 'a list \<Rightarrow> bool" where
  "ops_ok [] xs = True"
| "ops_ok (p # ps) xs = (op_ok p xs \<and> ops_ok ps (list_exec p xs))"

lemma swap_adjacent_append:
  "distinct (ys @ x # y # zs) \<Longrightarrow> swap_adjacent x y (ys @ x # y # zs) = ys @ y # x # zs"
proof (induction ys)
  case (Cons a ys)
  then show ?case by (cases ys) auto
qed simp

lemma next_of_split:
  assumes "distinct xs" and "x \<in> set xs" and "next_of x xs = Some y"
  obtains ys zs where "xs = ys @ x # y # zs"
proof -
  from assms obtain ys ws where "xs = ys @ x # ws" "x \<notin> set ys"
    by (metis split_list_distinct)
  moreover from this assms(3) obtain zs where "ws = y # zs"
    by (cases ws) (auto simp: next_of_append)
  ultimately show thesis using that by blast
qed

lemma tq_exec_repr:
  assumes r: "tq_repr q xs" and ok: "op_ok p xs"
  shows "tq_repr (tq_exec p q) (list_exec p xs)"
proof (cases p)
  case (Swap x y)
  with ok r obtain ys zs where xs: "xs = ys @ x # y # zs"
    by (auto simp: tq_repr_def elim: next_of_split)
  with r have "distinct (ys @ x # y # zs)" by (simp add: tq_repr_def)
  with xs r Swap show ?thesis by (simp add: tq_repr_swap swap_adjacent_append)
qed (use assms in \<open>auto intro: tq_repr_insert_head tq_repr_insert_tail tq_repr_insert_after
       tq_repr_insert_before tq_repr_remove tq_repr_replace\<close>)

lemma tq_run_repr:
  "tq_repr q xs \<Longrightarrow> ops_ok ps xs \<Longrightarrow> tq_repr (fold tq_exec ps q) (fold list_exec ps xs)"
  by (induction ps arbitrary: q xs) (auto simp: tq_exec_repr)

end
