(* ===== verification/Move.thy ===== *)
theory Move
  imports Tree_Flatten Tailq
begin

text \<open>
  Moving a container in a direction (src/move.c): within its parent, into the neighbouring branch,
  out of its parent, or to the next output.
\<close>

section \<open>To another workspace\<close>

definition attach_to_workspace :: "con_id \<Rightarrow> con_id \<Rightarrow> direction \<Rightarrow> i3 \<Rightarrow> i3 option" where
  "attach_to_workspace c ws d s = do {
     s \<leftarrow> con_detach c s;
     old_parent \<leftarrow> parent (heap s c);
     let s = upd c (\<lambda>n. n\<lparr>parent := Some ws\<rparr>) s;
     let s = upd ws (\<lambda>n. n\<lparr>nodes_head := (if d = D_RIGHT \<or> d = D_DOWN then c # nodes_head n
                                           else nodes_head n @ [c]),
                          focus_head := focus_head n @ [c]\<rparr>) s;
     let s = con_fix_percent ws (upd c (\<lambda>n. n\<lparr>percent := 0\<rparr>) s);
     con_on_remove_child old_parent (con_fix_percent old_parent s)
   }"

text \<open>The common end of the moves.\<close>

definition moved :: "con_id \<Rightarrow> i3 \<Rightarrow> i3 option" where
  "moved c s = do {
     let s = emit (Ipc_Window ''move'' c) (upd c (\<lambda>n. n\<lparr>deco_params := False\<rparr>) s);
     s \<leftarrow> tree_flatten (croot s) s;
     Some (emit Ewmh_Update_Wm_Desktop s)
   }"

definition move_to_output_directed :: "env \<Rightarrow> con_id \<Rightarrow> direction \<Rightarrow> i3 \<Rightarrow> i3 option" where
  "move_to_output_directed e c d s = do {
     cur \<leftarrow> get_output_for_con e s c;
     (case get_output_next (outputs e) d cur CLOSEST_OUTPUT of
        None \<Rightarrow> Some s
      | Some out \<Rightarrow> do {
          oc \<leftarrow> out_con out;
          ws \<leftarrow> visible_workspace s oc;
          (case ws of
             None \<Rightarrow> Some s
           | Some ws \<Rightarrow> do {
               old_ws \<leftarrow> con_get_workspace s c;
               let moves_focus = (focused s = Some c);
               s \<leftarrow> attach_to_workspace c ws d s;
               s \<leftarrow> (if moves_focus then do {
                       s \<leftarrow> con_focus c s;
                       s \<leftarrow> workspace_show ws (s\<lparr>focused := old_ws\<rparr>);
                       c \<leftarrow> deref s c;
                       con_focus c s }
                    else Some s);
               moved c s }) })
   }"

section \<open>Within the workspace\<close>

definition up_or_left :: "direction \<Rightarrow> bool" where
  "up_or_left d \<longleftrightarrow> d = D_UP \<or> d = D_LEFT"

text \<open>Into the branch next to the container: beside the container that is closest.\<close>

definition move_into_branch :: "con_id \<Rightarrow> con_id \<Rightarrow> direction \<Rightarrow> i3 \<Rightarrow> i3 option" where
  "move_into_branch c branch d s = do {
     target \<leftarrow> con_descend_direction s branch d;
     tp \<leftarrow> parent (heap s target);
     o' \<leftarrow> con_orientation s tp;
     s \<leftarrow> insert_con_into c target
            (if o' \<noteq> orientation_from_direction d \<or> up_or_left d then AFTER else BEFORE) s;
     moved c s
   }"

definition swap_with_sibling :: "con_id \<Rightarrow> con_id \<Rightarrow> direction \<Rightarrow> i3 \<Rightarrow> i3 option" where
  "swap_with_sibling c sw d s = do {
     p \<leftarrow> parent (heap s sw);
     let s = upd p (\<lambda>n. n\<lparr>nodes_head := (if up_or_left d then swap_adjacent sw c (nodes_head n)
                                          else swap_adjacent c sw (nodes_head n))\<rparr>) s;
     s \<leftarrow> con_force_split_parents_redraw c s;
     Some (emit (Ipc_Window ''move'' c) s)
   }"

text \<open>
  The search for a place: \<open>Inl\<close> if the move is done, \<open>Inr\<close> with the ancestor along the direction
  in which the container has to be moved.
\<close>

definition no_orientation :: "con_id \<Rightarrow> direction \<Rightarrow> i3 \<Rightarrow> (i3 + con_id option \<times> i3) option" where
  "no_orientation c d s =
     (if con_is_floating s c then map_option Inl (floating_disable c s)
      else do {
        r \<leftarrow> con_inside_floating s c;
        ws \<leftarrow> con_get_workspace s c;
        ws \<leftarrow> ws;
        if r \<noteq> None then do {
          s \<leftarrow> attach_to_workspace c ws d s;
          map_option Inl (moved c s) }
        else do {
          s \<leftarrow> ws_force_orientation ws (orientation_from_direction d) s;
          so \<leftarrow> con_parent_with_orientation s c (orientation_from_direction d);
          Some (Inr (so, s)) } })"

definition within_parent :: "env \<Rightarrow> con_id \<Rightarrow> con_id \<Rightarrow> direction \<Rightarrow> i3 \<Rightarrow> (i3 + con_id option \<times> i3) option" where
  "within_parent e c p d s =
     (case prev_or_next (up_or_left d) c (nodes_head (heap s p)) of
        Some sw \<Rightarrow>
          map_option Inl (if \<not> con_is_leaf s sw then move_into_branch c sw d s else swap_with_sibling c sw d s)
      | None \<Rightarrow> do {
          ws \<leftarrow> con_get_workspace s c;
          if ws = Some p then map_option Inl (move_to_output_directed e c d s)
          else map_option (\<lambda>so. Inr (so, s)) (con_parent_with_orientation s p (orientation_from_direction d)) })"

fun move_search :: "nat \<Rightarrow> env \<Rightarrow> con_id \<Rightarrow> direction \<Rightarrow> con_id option \<Rightarrow> i3 \<Rightarrow> (i3 + con_id \<times> i3) option" where
  "move_search 0 e c d so s = None"
| "move_search (Suc k) e c d so s = do {
     r \<leftarrow> (case so of None \<Rightarrow> no_orientation c d s | Some q \<Rightarrow> Some (Inr (so, s)));
     r \<leftarrow> (case r of
            Inl s \<Rightarrow> Some (Inl s)
          | Inr (so, s) \<Rightarrow> do {
              p \<leftarrow> parent (heap s c);
              if so = Some p then within_parent e c p d s else Some (Inr (so, s)) });
     (case r of
        Inl s \<Rightarrow> Some (Inl s)
      | Inr (Some q, s) \<Rightarrow> Some (Inr (q, s))
      | Inr (None, s) \<Rightarrow> move_search k e c d None s)
   }"

fun child_above :: "nat \<Rightarrow> i3 \<Rightarrow> con_id \<Rightarrow> con_id \<Rightarrow> con_id option" where
  "child_above 0 s c q = None"
| "child_above (Suc n) s c q = do {
     p \<leftarrow> parent (heap s c);
     if p = q then Some c else child_above n s p q
   }"

text \<open>The container leaves its parent for the level of \<open>q\<close>.\<close>

definition move_out :: "env \<Rightarrow> con_id \<Rightarrow> con_id \<Rightarrow> direction \<Rightarrow> i3 \<Rightarrow> i3 option" where
  "move_out e c q d s = do {
     above \<leftarrow> child_above (up_fuel s) s c q;
     permitted \<leftarrow> con_fullscreen_permits_focusing s q;
     if \<not> permitted then Some s
     else (case prev_or_next (up_or_left d) above (nodes_head (heap s q)) of
             Some n \<Rightarrow>
               if \<not> con_is_leaf s n then move_into_branch c n d s
               else do {
                 s \<leftarrow> insert_con_into c above (if up_or_left d then BEFORE else AFTER) s;
                 moved c s }
           | None \<Rightarrow> do {
               p \<leftarrow> parent (heap s c);
               g \<leftarrow> parent (heap s p);
               if con_type (heap s g) = CT_WORKSPACE \<and> layout (heap s p) \<noteq> L_DEFAULT \<and> con_num_children s p = 1
               then move_to_output_directed e c d s
               else do {
                 s \<leftarrow> insert_con_into c above (if up_or_left d then BEFORE else AFTER) s;
                 moved c s } })
   }"

definition tree_move :: "env \<Rightarrow> con_id \<Rightarrow> direction \<Rightarrow> i3 \<Rightarrow> i3 option" where
  "tree_move e c d s =
     (if con_type (heap s c) = CT_WORKSPACE \<or> fullscreen_mode (heap s c) = CF_GLOBAL then Some s
      else do {
        p \<leftarrow> parent (heap s c);
        if fullscreen_mode (heap s c) = CF_OUTPUT \<or>
           (con_type (heap s p) = CT_WORKSPACE \<and> con_num_children s p = 1)
        then move_to_output_directed e c d s
        else do {
          so \<leftarrow> con_parent_with_orientation s c (orientation_from_direction d);
          r \<leftarrow> move_search (up_fuel s) e c d so s;
          (case r of
             Inl s \<Rightarrow> Some s
           | Inr (q, s) \<Rightarrow> move_out e c q d s) } })"

end
