(* ===== verification/Con_Swap.thy ===== *)
theory Con_Swap
  imports Tree_Nav Tailq
begin

text \<open>
  Exchanging two containers, merging a container into another one, and activating a container that
  a fullscreen container hides (\<open>con_swap\<close>, \<open>con_merge_into\<close>, \<open>con_activate_unblock\<close> of src/con.c).
\<close>

section \<open>Activating a hidden container\<close>

definition con_activate_unblock :: "con_id \<Rightarrow> i3 \<Rightarrow> i3 option" where
  "con_activate_unblock c s = do {
     ws \<leftarrow> con_get_workspace s c;
     previous \<leftarrow> focused s;
     fs \<leftarrow> con_get_fullscreen_covering_ws s ws;
     s \<leftarrow> (case fs of
             None \<Rightarrow> Some s
           | Some f \<Rightarrow>
               if f = c then Some s
               else do {
                 below \<leftarrow> con_has_parent s c f;
                 Some (if below then s else con_disable_fullscreen f s) });
     s \<leftarrow> con_activate c s;
     previous_ws \<leftarrow> con_get_workspace s previous;
     if ws \<noteq> previous_ws then do {
       s \<leftarrow> con_activate previous s;
       w \<leftarrow> ws;
       s \<leftarrow> workspace_show w s;
       c \<leftarrow> deref s c;
       con_activate c s }
     else Some s
   }"

section \<open>Swapping\<close>

text \<open>
  \<open>SWAP_CONS_IN_TREE\<close> on the queues of the two parents.  When both parents are the same the two
  queues are one, and neighbours need \<open>TAILQ_SWAP\<close>.
\<close>

definition put_after :: "con_id option \<Rightarrow> con_id \<Rightarrow> con_id list \<Rightarrow> con_id list option" where
  "put_after place x xs = (case place of None \<Rightarrow> Some (x # xs) | Some y \<Rightarrow> link_after y x xs)"

definition swap_in_one :: "con_id \<Rightarrow> con_id \<Rightarrow> con_id list \<Rightarrow> con_id list option" where
  "swap_in_one a b xs =
     (let pa = prev_of a xs; pb = prev_of b xs
      in if pb = Some a then Some (swap_adjacent a b xs)
         else if pa = Some b then Some (swap_adjacent b a xs)
         else do {
           ys \<leftarrow> unlink a xs;
           ys \<leftarrow> unlink b ys;
           ys \<leftarrow> put_after pb a ys;
           put_after pa b ys })"

definition swap_in_two :: "con_id \<Rightarrow> con_id \<Rightarrow> con_id list \<Rightarrow> con_id list \<Rightarrow> (con_id list \<times> con_id list) option" where
  "swap_in_two a b xs ys = do {
     xs' \<leftarrow> unlink a xs;
     ys' \<leftarrow> unlink b ys;
     ys' \<leftarrow> put_after (prev_of b ys) a ys';
     xs' \<leftarrow> put_after (prev_of a xs) b xs';
     Some (xs', ys')
   }"

definition swap_nodes :: "con_id \<Rightarrow> con_id \<Rightarrow> con_id \<Rightarrow> con_id \<Rightarrow> i3 \<Rightarrow> i3 option" where
  "swap_nodes a b p q s =
     (if p = q then map_option (\<lambda>ns. upd p (\<lambda>n. n\<lparr>nodes_head := ns\<rparr>) s) (swap_in_one a b (nodes_head (heap s p)))
      else map_option (\<lambda>(ns, ms). upd q (\<lambda>n. n\<lparr>nodes_head := ms\<rparr>) (upd p (\<lambda>n. n\<lparr>nodes_head := ns\<rparr>) s))
             (swap_in_two a b (nodes_head (heap s p)) (nodes_head (heap s q))))"

definition swap_focus :: "con_id \<Rightarrow> con_id \<Rightarrow> con_id \<Rightarrow> con_id \<Rightarrow> i3 \<Rightarrow> i3 option" where
  "swap_focus a b p q s =
     (if p = q then map_option (\<lambda>ns. upd p (\<lambda>n. n\<lparr>focus_head := ns\<rparr>) s) (swap_in_one a b (focus_head (heap s p)))
      else map_option (\<lambda>(ns, ms). upd q (\<lambda>n. n\<lparr>focus_head := ms\<rparr>) (upd p (\<lambda>n. n\<lparr>focus_head := ns\<rparr>) s))
             (swap_in_two a b (focus_head (heap s p)) (focus_head (heap s q))))"

text \<open>The fields that belong to the place rather than to the container.\<close>

definition take_place :: "con \<Rightarrow> con \<Rightarrow> con" where
  "take_place m n = n\<lparr>parent := parent m, con_floating := con_floating m, con_rect := con_rect m,
     window_rect := window_rect m, percent := percent m\<rparr>"

definition swap_places :: "con_id \<Rightarrow> con_id \<Rightarrow> i3 \<Rightarrow> i3" where
  "swap_places a b s =
     (let na = heap s a; nb = heap s b
      in upd b (take_place na) (upd a (take_place nb) s))"

text \<open>What keeps the focus: it stays in its place unless both are on the focused workspace.\<close>

definition swap_restore :: "con_id \<Rightarrow> con_id \<Rightarrow> i3 \<Rightarrow> con_id option option" where
  "swap_restore a b s = do {
     ws1 \<leftarrow> con_get_workspace s a;
     ws2 \<leftarrow> con_get_workspace s b;
     f \<leftarrow> focused s;
     wsf \<leftarrow> con_get_workspace s f;
     in_a \<leftarrow> (if a = f then Some True else con_has_parent s f a);
     in_b \<leftarrow> (if b = f then Some True else con_has_parent s f b);
     Some (if ws1 = ws2 \<and> ws1 = wsf then Some f else if in_a then Some b else if in_b then Some a else None)
   }"

definition swap_fullscreen :: "con_id \<Rightarrow> fullscreen_mode \<Rightarrow> i3 \<Rightarrow> i3 option" where
  "swap_fullscreen c m s =
     (if m = CF_NONE then Some (con_disable_fullscreen c s) else con_enable_fullscreen workspace_show c m s)"

definition swap_finish :: "con_id \<Rightarrow> con_id \<Rightarrow> i3 \<Rightarrow> i3 option" where
  "swap_finish a b s = do {
     s \<leftarrow> con_set_urgency a (urgent (heap s a)) s;
     s \<leftarrow> con_set_urgency b (urgent (heap s b)) s;
     let mb = fullscreen_mode (heap s b);
     s \<leftarrow> swap_fullscreen b (fullscreen_mode (heap s a)) s;
     s \<leftarrow> swap_fullscreen a mb s;
     p \<leftarrow> parent (heap s a);
     q \<leftarrow> parent (heap s b);
     let s = con_fix_percent q (con_fix_percent p s);
     let s = upd a (\<lambda>n. n\<lparr>deco_params := False\<rparr>) s;
     let s = upd b (\<lambda>n. n\<lparr>deco_params := False\<rparr>) s;
     s \<leftarrow> con_force_split_parents_redraw a s;
     con_force_split_parents_redraw b s
   }"

definition swap_links :: "con_id \<Rightarrow> con_id \<Rightarrow> i3 \<Rightarrow> i3 option" where
  "swap_links a b s = do {
     p \<leftarrow> parent (heap s a);
     q \<leftarrow> parent (heap s b);
     s \<leftarrow> swap_nodes a b p q s;
     s \<leftarrow> swap_focus a b p q s;
     Some (swap_places a b s)
   }"

definition con_swap :: "con_id \<Rightarrow> con_id \<Rightarrow> i3 \<Rightarrow> (bool \<times> i3) option" where
  "con_swap a b s =
     (if con_type (heap s a) \<noteq> CT_CON \<or> con_type (heap s b) \<noteq> CT_CON \<or> a = b then Some (False, s)
      else do {
        below1 \<leftarrow> con_has_parent s a b;
        below2 \<leftarrow> con_has_parent s b a;
        if below1 \<or> below2 then Some (False, s)
        else do {
          restore \<leftarrow> swap_restore a b s;
          s \<leftarrow> swap_links a b s;
          s \<leftarrow> (case restore of None \<Rightarrow> Some s | Some f \<Rightarrow> con_focus f s);
          map_option (Pair True) (swap_finish a b s) } })"

section \<open>Merging\<close>

text \<open>
  The marks of the old container are moved in a loop over its queue that inserts each mark into the
  queue of the new one.  The insertion overwrites the link the loop follows.
\<close>

fun move_marks_loop :: "nat \<Rightarrow> 'a option \<Rightarrow> 'a tailq \<Rightarrow> 'a tailq" where
  "move_marks_loop 0 m q = q"
| "move_marks_loop (Suc k) None q = q"
| "move_marks_loop (Suc k) (Some m) q =
     (let q = TAILQ_INSERT_TAIL m q in move_marks_loop k (TAILQ_NEXT m q) q)"

text \<open>So whatever the old queue holds, only its first mark moves.\<close>

lemma move_marks_once:
  assumes "tq_repr q ys" and "m \<notin> set ys"
  shows "move_marks_loop (Suc k) (Some m) q = TAILQ_INSERT_TAIL m q"
    and "tq_repr (move_marks_loop (Suc k) (Some m) q) (ys @ [m])"
proof -
  have r: "tq_repr (TAILQ_INSERT_TAIL m q) (ys @ [m])" by (rule tq_repr_insert_tail[OF assms])
  have "TAILQ_NEXT m (TAILQ_INSERT_TAIL m q) = next_of m (ys @ [m])"
    using tq_repr_next[OF r] by simp
  also have "\<dots> = None" using next_of_append[OF assms(2), of "[]"] by simp
  finally have n: "TAILQ_NEXT m (TAILQ_INSERT_TAIL m q) = None" .
  show e: "move_marks_loop (Suc k) (Some m) q = TAILQ_INSERT_TAIL m q"
    using n by (cases k) (simp_all add: Let_def)
  show "tq_repr (move_marks_loop (Suc k) (Some m) q) (ys @ [m])" unfolding e by (rule r)
qed

text \<open>The same on lists.\<close>

definition merged_marks :: "string list \<Rightarrow> string list \<Rightarrow> string list" where
  "merged_marks old new = (case old of [] \<Rightarrow> new | m # _ \<Rightarrow> new @ [m])"

definition move_string :: "(con \<Rightarrow> cstr) \<Rightarrow> ((cstr \<Rightarrow> cstr) \<Rightarrow> con \<Rightarrow> con) \<Rightarrow> con_id \<Rightarrow> con_id \<Rightarrow> i3 \<Rightarrow> i3" where
  "move_string get put old new s =
     (if get (heap s old) \<noteq> None
      then upd old (put (\<lambda>_. None)) (upd new (put (\<lambda>_. get (heap s old))) s) else s)"

definition con_merge_into :: "con_id \<Rightarrow> con_id \<Rightarrow> i3 \<Rightarrow> i3 option" where
  "con_merge_into old new s = do {
     let s = upd new (\<lambda>n. n\<lparr>con_window := con_window (heap s old)\<rparr>) s;
     let s = upd old (\<lambda>n. n\<lparr>con_window := None\<rparr>) s;
     let s = move_string title_format title_format_update old new s;
     let s = move_string sticky_group sticky_group_update old new s;
     let s = upd new (\<lambda>n. n\<lparr>sticky := sticky (heap s old)\<rparr>) s;
     s \<leftarrow> con_set_urgency new (urgent (heap s old)) s;
     let ms = marks (heap s old);
     let s = upd new (\<lambda>n. n\<lparr>marks := merged_marks ms (marks n)\<rparr>) s;
     let s = (if ms = [] then s else emit (Ipc_Window ''mark'' new) s);
     let s = upd new (\<lambda>n. n\<lparr>mark_changed := (ms \<noteq> [])\<rparr>) s;
     let s = upd old (\<lambda>n. n\<lparr>marks := []\<rparr>) s;
     map_option snd (tree_close_internal old DONT_KILL_WINDOW False s)
   }"

end
