(* ===== verification/Scratchpad.thy ===== *)
theory Scratchpad
  imports Con_Swap Workspace_Ops "HOL-Library.Signed_Division"
begin

text \<open>
  The scratchpad (src/scratchpad.c): hiding windows on the internal workspace \<open>__i3_scratch\<close> and
  showing them again, and the commands that move a container to a target (src/con.c).
\<close>

section \<open>Moving to the scratchpad\<close>

abbreviation scratch_name :: string where "scratch_name \<equiv> ''__i3_scratch''"

text \<open>The floating container that is to be hidden; a tiling one is made floating first.\<close>

definition floating_of :: "env \<Rightarrow> con_id \<Rightarrow> i3 \<Rightarrow> (con_id \<times> bool \<times> i3) option" where
  "floating_of e c s = do {
     r \<leftarrow> con_inside_floating s c;
     (case r of
        Some f \<Rightarrow> Some (f, True, s)
      | None \<Rightarrow> do {
          (b, s) \<leftarrow> floating_enable e c False s;
          p \<leftarrow> parent (heap s c);
          Some (p, False, s) })
   }"

definition mark_scratchpad :: "con_id \<Rightarrow> bool \<Rightarrow> i3 \<Rightarrow> i3" where
  "mark_scratchpad c was_floating s =
     (if scratchpad_state (heap s c) = SCRATCHPAD_NONE
      then upd c (\<lambda>n. n\<lparr>scratchpad_state := (if was_floating then SCRATCHPAD_CHANGED else SCRATCHPAD_FRESH)\<rparr>) s
      else s)"

definition scratchpad_move_one :: "env \<Rightarrow> con_id \<Rightarrow> i3 \<Rightarrow> i3 option" where
  "scratchpad_move_one e c s = do {
     (scratch, s) \<leftarrow> workspace_get e scratch_name s;
     ws \<leftarrow> con_get_workspace s c;
     if ws = Some scratch then Some s
     else do {
       let s = con_disable_fullscreen c s;
       (f, was_floating, s) \<leftarrow> floating_of e c s;
       s \<leftarrow> con_move_to_workspace f scratch True True False s;
       Some (mark_scratchpad f was_floating s) }
   }"

text \<open>On a workspace, all containers of its focus stack are moved, the successor being read first.\<close>

fun scratchpad_loop :: "nat \<Rightarrow> env \<Rightarrow> con_id \<Rightarrow> i3 \<Rightarrow> i3 option"
and scratchpad_walk :: "nat \<Rightarrow> env \<Rightarrow> con_id \<Rightarrow> con_id option \<Rightarrow> i3 \<Rightarrow> i3 option" where
  "scratchpad_loop 0 e c s = None"
| "scratchpad_loop (Suc k) e c s =
     (if con_type (heap s c) = CT_WORKSPACE
      then scratchpad_walk k e c (list_first (focus_head (heap s c))) s
      else scratchpad_move_one e c s)"
| "scratchpad_walk k e ws None s = Some s"
| "scratchpad_walk 0 e ws (Some d) s = None"
| "scratchpad_walk (Suc k) e ws (Some d) s =
     (if d \<in> set (focus_head (heap s ws)) then do {
        let nxt = next_of d (focus_head (heap s ws));
        s \<leftarrow> scratchpad_loop k e d s;
        scratchpad_walk k e ws nxt s }
      else None)"

definition scratchpad_move :: "env \<Rightarrow> con_id \<Rightarrow> i3 \<Rightarrow> i3 option" where
  "scratchpad_move e c s = scratchpad_loop (Suc (2 * up_fuel s)) e c s"

section \<open>Showing scratchpad windows\<close>

definition in_scratchpad :: "i3 \<Rightarrow> con_id option \<Rightarrow> bool" where
  "in_scratchpad s fo \<longleftrightarrow>
     (case fo of None \<Rightarrow> False | Some f \<Rightarrow> scratchpad_state (heap s f) \<noteq> SCRATCHPAD_NONE)"

text \<open>Fullscreen mode of the focused container or of an ancestor below the workspace is left.\<close>

definition leave_fullscreen :: "i3 \<Rightarrow> i3 option" where
  "leave_fullscreen s = do {
     fs \<leftarrow> climb (up_fuel s) s (\<lambda>n. fullscreen_mode n \<noteq> CF_NONE) (focused s);
     (case fs of
        None \<Rightarrow> Some s
      | Some f \<Rightarrow> if con_type (heap s f) \<noteq> CT_WORKSPACE
                  then con_toggle_fullscreen workspace_show f CF_OUTPUT s else Some s)
   }"

text \<open>An unfocused scratchpad window on the current workspace.\<close>

definition unfocused_here :: "i3 \<Rightarrow> con_id \<Rightarrow> con_id option \<Rightarrow> con_id option option" where
  "unfocused_here s ws focused_floating =
     first_opt (\<lambda>w. map_option (\<lambda>fo. if in_scratchpad s fo \<and> fo \<noteq> focused_floating then Some w else None)
                      (con_inside_floating s w))
       (floating_head (heap s ws))"

text \<open>A scratchpad window that is visible on another workspace.\<close>

definition visible_elsewhere :: "i3 \<Rightarrow> con_id option \<Rightarrow> con_id \<Rightarrow> (con_id \<times> con_id) option option" where
  "visible_elsewhere s focused_ws w = do {
     ws \<leftarrow> con_get_workspace s w;
     (case ws of
        None \<Rightarrow> Some None
      | Some x \<Rightarrow> do {
          internal \<leftarrow> con_is_internal s x;
          if internal \<or> focused_ws = Some x then Some None
          else map_option (\<lambda>fo. case fo of
                 None \<Rightarrow> None
               | Some f \<Rightarrow> if in_scratchpad s fo then Some (w, f) else None) (con_inside_floating s w) })
   }"

definition scale_word :: "u32 \<Rightarrow> rat \<Rightarrow> u32" where
  "scale_word v q = of_int (trunc (of_int (uint v) * q))"

text \<open>Window \<open>c\<close> comes to the active workspace; one that was never adjusted gets its size.\<close>

definition show_here :: "env \<Rightarrow> con_id \<Rightarrow> con_id \<Rightarrow> bool \<Rightarrow> i3 \<Rightarrow> i3 option" where
  "show_here e c act_ws other_ws s = do {
     s \<leftarrow> con_move_to_workspace c act_ws True False False s;
     s \<leftarrow> (if scratchpad_state (heap s c) = SCRATCHPAD_FRESH then do {
             out \<leftarrow> con_get_output s c;
             let r = con_rect (heap s out);
             let s = upd c (\<lambda>n. n\<lparr>con_rect := (con_rect n)\<lparr>rwidth := scale_word (rwidth r) (1/2),
                                                          rheight := scale_word (rheight r) (3/4)\<rparr>\<rparr>) s;
             s \<leftarrow> floating_check_size e c False s;
             ws \<leftarrow> con_get_workspace s c;
             w \<leftarrow> ws;
             Some (floating_center c (con_rect (heap s w)) s) }
          else Some s);
     s \<leftarrow> (if other_ws then workspace_show act_ws s else Some s);
     c \<leftarrow> deref s c;
     d \<leftarrow> con_descend_focused s c;
     con_activate d s
   }"

text \<open>Without criteria.\<close>

definition scratchpad_show_any :: "env \<Rightarrow> con_id \<Rightarrow> i3 \<Rightarrow> (bool \<times> i3) option" where
  "scratchpad_show_any e scratch s = do {
     f \<leftarrow> focused s;
     fo \<leftarrow> con_inside_floating s f;
     if in_scratchpad s fo then map_option (Pair True) (scratchpad_move e f s)
     else do {
       s \<leftarrow> leave_fullscreen s;
       f \<leftarrow> focused s;
       fws \<leftarrow> con_get_workspace s f;
       w \<leftarrow> fws;
       ffo \<leftarrow> con_inside_floating s f;
       here \<leftarrow> unfocused_here s w ffo;
       (case here of
          Some x \<Rightarrow> do {
            d \<leftarrow> con_descend_tiling_focused s x;
            map_option (Pair True) (con_activate d s) }
        | None \<Rightarrow> do {
            elsewhere \<leftarrow> first_opt (visible_elsewhere s fws) (all_cons s);
            (case elsewhere of
               Some (x, fl) \<Rightarrow> do {
                 s \<leftarrow> con_move_to_workspace fl w True False False s;
                 x \<leftarrow> deref s x;
                 d \<leftarrow> con_descend_focused s x;
                 map_option (Pair True) (con_activate d s) }
             | None \<Rightarrow>
                 (case floating_head (heap s scratch) of
                    [] \<Rightarrow> Some (False, s)
                  | c # _ \<Rightarrow> map_option (Pair True) (show_here e c w True s))) }) }
   }"

text \<open>With criteria.\<close>

definition scratchpad_show_con :: "env \<Rightarrow> con_id \<Rightarrow> con_id \<Rightarrow> i3 \<Rightarrow> (bool \<times> i3) option" where
  "scratchpad_show_con e scratch c s = do {
     s \<leftarrow> leave_fullscreen s;
     f \<leftarrow> focused s;
     act_ws \<leftarrow> con_get_workspace s f;
     a \<leftarrow> act_ws;
     p \<leftarrow> parent (heap s c);
     if scratchpad_state (heap s p) = SCRATCHPAD_NONE then Some (False, s)
     else do {
       current \<leftarrow> con_get_workspace s c;
       fo \<leftarrow> con_inside_floating s c;
       if in_scratchpad s fo \<and> current \<noteq> Some scratch \<and> current = act_ws
       then map_option (Pair True) (scratchpad_move e c s)
       else do {
         fl \<leftarrow> fo;
         map_option (Pair True) (show_here e fl a (current \<noteq> act_ws) s) } }
   }"

definition scratchpad_show :: "env \<Rightarrow> con_id option \<Rightarrow> i3 \<Rightarrow> (bool \<times> i3) option" where
  "scratchpad_show e co s = do {
     (scratch, s) \<leftarrow> workspace_get e scratch_name s;
     (case co of
        None \<Rightarrow> scratchpad_show_any e scratch s
      | Some c \<Rightarrow> scratchpad_show_con e scratch c s)
   }"

section \<open>The resolution of the pseudo-output\<close>

text \<open>\<open>int\<close> arithmetic: the remainder takes the sign of the dividend; overflow is not modelled.\<close>

fun lcm_gcd :: "nat \<Rightarrow> int \<Rightarrow> int \<Rightarrow> int option" where
  "lcm_gcd 0 m n = None"
| "lcm_gcd (Suc k) m n = (if n = 0 then Some m else lcm_gcd k n (m smod n))"

definition c_gcd :: "int \<Rightarrow> int \<Rightarrow> int option" where
  "c_gcd m n = lcm_gcd (Suc (Suc (nat \<bar>n\<bar>))) m n"

definition c_lcm :: "int \<Rightarrow> int \<Rightarrow> int option" where
  "c_lcm m n = do { o' \<leftarrow> c_gcd m n; if o' = 0 then None else Some ((m * n) sdiv o') }"

fun lcm_outputs :: "i3 \<Rightarrow> con_id list \<Rightarrow> (int \<times> int) option \<Rightarrow> (int \<times> int) option option" where
  "lcm_outputs s [] acc = Some acc"
| "lcm_outputs s (out # outs) acc =
     (let r = con_rect (heap s out); w = sint (rwidth r); h = sint (rheight r) in
      case acc of
        None \<Rightarrow> lcm_outputs s outs (Some (w, h))
      | Some (x, y) \<Rightarrow> do { x \<leftarrow> c_lcm x w; y \<leftarrow> c_lcm y h; lcm_outputs s outs (Some (x, y)) })"

definition scratchpad_fix_resolution :: "env \<Rightarrow> i3 \<Rightarrow> i3 option" where
  "scratchpad_fix_resolution e s = do {
     (scratch, s) \<leftarrow> workspace_get e scratch_name s;
     out \<leftarrow> con_get_output s scratch;
     acc \<leftarrow> lcm_outputs s (filter (\<lambda>x. x \<noteq> out) (nodes_head (heap s (croot s)))) None;
     let (w, h) = (case acc of None \<Rightarrow> (-1, -1) | Some p \<Rightarrow> p);
     let old = con_rect (heap s out);
     let new = old\<lparr>rwidth := of_int w, rheight := of_int h\<rparr>;
     let s = upd out (\<lambda>n. n\<lparr>con_rect := new\<rparr>) s;
     if rect_equals new old then Some s
     else fold_opt (\<lambda>f. floating_fix_coordinates f old new) (floating_head (heap s scratch)) s
   }"

section \<open>Moving to a target\<close>

definition con_move_to_target :: "env \<Rightarrow> con_id \<Rightarrow> con_id \<Rightarrow> i3 \<Rightarrow> (bool \<times> i3) option" where
  "con_move_to_target e c target s = do {
     target_ws \<leftarrow> con_get_workspace s target;
     (scratch, s) \<leftarrow> workspace_get e scratch_name s;
     if target_ws = Some scratch then map_option (Pair True) (scratchpad_move e c s)
     else if con_is_floating s target then do {
       w \<leftarrow> target_ws;
       map_option (Pair True) (con_move_to_workspace c w True False False s) }
     else if con_type (heap s target) = CT_WORKSPACE \<and> con_is_leaf s target then
       map_option (Pair True) (con_move_to_workspace c target True False False s)
     else do {
       t \<leftarrow> (if con_is_split s target then list_first (focus_head (heap s target)) else Some target);
       below \<leftarrow> (if c = t then Some True else con_has_parent s t c);
       if below then Some (False, s)
       else con_move_to_con c t \<lparr>behind_focused = False, fix_coordinates = True, dont_warp = False,
              ignore_focus = False, fix_percentage = True\<rparr> s }
   }"

definition con_move_to_mark :: "env \<Rightarrow> con_id \<Rightarrow> string \<Rightarrow> i3 \<Rightarrow> (bool \<times> i3) option" where
  "con_move_to_mark e c m s =
     (case con_by_mark s m of None \<Rightarrow> Some (False, s) | Some t \<Rightarrow> con_move_to_target e c t s)"

end
