(* ===== verification/Format.thy ===== *)
theory Format
  imports Prelude
begin

text \<open>
  Replacing placeholders in a format string (libi3/format_placeholders.c).  The code first computes
  the size of the buffer and then writes into it; the main result is that what it writes, with the
  terminating NUL, fills the buffer exactly.
\<close>

record placeholder =
  ph_name :: string
  ph_value :: string

definition starts_with_name :: "string \<Rightarrow> placeholder \<Rightarrow> bool" where
  "starts_with_name walk p \<longleftrightarrow> take (length (ph_name p)) walk = ph_name p"

text \<open>The first placeholder that matches at the current position.\<close>

definition match_at :: "placeholder list \<Rightarrow> string \<Rightarrow> placeholder option" where
  "match_at ps walk = List.find (starts_with_name walk) ps"

text \<open>
  Both loops advance by the length of the matched name; \<open>k\<close> bounds the number of iterations by
  the length of the string.  A placeholder without a name would make the pointer go backwards.
\<close>

fun buffer_len_loop :: "nat \<Rightarrow> placeholder list \<Rightarrow> string \<Rightarrow> int \<Rightarrow> int option" where
  "buffer_len_loop k ps [] n = Some n"
| "buffer_len_loop 0 ps (x # xs) n = None"
| "buffer_len_loop (Suc k) ps (x # xs) n =
     (case match_at ps (x # xs) of
        None \<Rightarrow> buffer_len_loop k ps xs n
      | Some p \<Rightarrow>
          if ph_name p = [] then None
          else buffer_len_loop k ps (drop (length (ph_name p)) (x # xs))
                 (n - int (length (ph_name p)) + int (length (ph_value p))))"

definition buffer_len :: "placeholder list \<Rightarrow> string \<Rightarrow> int option" where
  "buffer_len ps format = buffer_len_loop (length format) ps format (int (length format) + 1)"

fun write_loop :: "nat \<Rightarrow> placeholder list \<Rightarrow> string \<Rightarrow> string option" where
  "write_loop k ps [] = Some []"
| "write_loop 0 ps (x # xs) = None"
| "write_loop (Suc k) ps (x # xs) =
     (if x \<noteq> CHR ''%'' then map_option ((#) x) (write_loop k ps xs)
      else case match_at ps (x # xs) of
        None \<Rightarrow> map_option ((#) x) (write_loop k ps xs)
      | Some p \<Rightarrow>
          if ph_name p = [] then None
          else map_option ((@) (ph_value p)) (write_loop k ps (drop (length (ph_name p)) (x # xs))))"

definition format_placeholders :: "string option \<Rightarrow> placeholder list \<Rightarrow> string option option" where
  "format_placeholders format ps =
     (case format of None \<Rightarrow> Some None | Some f \<Rightarrow> map_option Some (write_loop (length f) ps f))"

section \<open>The buffer is filled exactly\<close>

definition percent_names :: "placeholder list \<Rightarrow> bool" where
  "percent_names ps \<longleftrightarrow> (\<forall>p \<in> set ps. \<exists>n. ph_name p = CHR ''%'' # n)"

lemma match_at_percent:
  assumes "percent_names ps" and "match_at ps (x # xs) = Some p"
  shows "x = CHR ''%''" and "ph_name p \<noteq> []"
    and "length (x # xs) = length (ph_name p) + length (drop (length (ph_name p)) (x # xs))"
proof -
  have p: "p \<in> set ps" "starts_with_name (x # xs) p"
    using assms(2) by (auto simp: match_at_def dest: find_SomeD)
  then obtain n where n: "ph_name p = CHR ''%'' # n" using assms(1) by (auto simp: percent_names_def)
  with p(2) show "x = CHR ''%''" "ph_name p \<noteq> []" by (auto simp: starts_with_name_def)
  have "length (take (length (ph_name p)) (x # xs)) = length (ph_name p)"
    using p(2) by (simp add: starts_with_name_def)
  then show "length (x # xs) = length (ph_name p) + length (drop (length (ph_name p)) (x # xs))" by simp
qed

lemma format_loops:
  "percent_names ps \<Longrightarrow> length xs \<le> k \<Longrightarrow>
    \<exists>r. write_loop k ps xs = Some r \<and> buffer_len_loop k ps xs n = Some (n - int (length xs) + int (length r))"
proof (induction k ps xs n rule: buffer_len_loop.induct)
  case (3 k ps x xs n)
  show ?case
  proof (cases "match_at ps (x # xs)")
    case None
    with 3 show ?thesis by auto
  next
    case (Some p)
    note m = match_at_percent[OF "3.prems"(1) Some]
    let ?ys = "drop (length (ph_name p)) (x # xs)"
    have l: "length ?ys \<le> k" "int (Suc (length xs)) = int (length (ph_name p)) + int (length ?ys)"
      using m(2,3) "3.prems" by (cases "ph_name p"; simp)+
    obtain r where r: "write_loop k ps ?ys = Some r"
      "buffer_len_loop k ps ?ys (n - int (length (ph_name p)) + int (length (ph_value p))) =
        Some (n - int (length (ph_name p)) + int (length (ph_value p)) - int (length ?ys) + int (length r))"
      using "3.IH"(2)[OF Some m(2) "3.prems"(1) l(1)] by blast
    have w: "write_loop (Suc k) ps (x # xs) = Some (ph_value p @ r)"
      unfolding write_loop.simps Some option.case r(1) if_not_P[OF m(2)] using m(1) by simp
    have "n - int (length (ph_name p)) + int (length (ph_value p)) - int (length ?ys) + int (length r) =
      n - int (length (x # xs)) + int (length (ph_value p @ r))"
      unfolding length_append of_nat_add list.size(4) using l(2) by (simp only: Suc_eq_plus1 add_0)
    then have "buffer_len_loop (Suc k) ps (x # xs) n = Some (n - int (length (x # xs)) + int (length (ph_value p @ r)))"
      unfolding buffer_len_loop.simps Some option.case if_not_P[OF m(2)] r(2) by (rule arg_cong)
    with w show ?thesis by blast
  qed
qed simp_all

text \<open>The result and its terminating NUL take exactly the bytes allocated.\<close>

lemma format_fits:
  assumes "percent_names ps"
  shows "\<exists>r. format_placeholders (Some f) ps = Some (Some r) \<and> buffer_len ps f = Some (int (length r) + 1)"
  using format_loops[OF assms order_refl, of f "int (length f) + 1"]
  by (auto simp: format_placeholders_def buffer_len_def)

text \<open>Text without a percent sign is copied.\<close>

lemma write_loop_plain: "CHR ''%'' \<notin> set xs \<Longrightarrow> length xs \<le> k \<Longrightarrow> write_loop k ps xs = Some xs"
  by (induction k ps xs rule: write_loop.induct) auto

end
