(* ===== verification/Cmd_State.thy ===== *)
theory Cmd_State
  imports Con_Swap Scratchpad Match
begin

text \<open>
  The state of the command functions (src/commands.c): the tree, the current criteria and the
  containers they select (\<open>owindows\<close>), the names collected for the commands on outputs, the bars and
  log switches, and the replies to the client.
\<close>

section \<open>State\<close>

text \<open>
  What \<open>ysuccess\<close> and \<open>yerror\<close> generate; pointers and sizes are left out of the messages.  The JSON
  object of \<open>open\<close> also holds the identifier of the new container, that of a parse error the message, the
  input and the line that marks the position.
\<close>

datatype reply = R_Success bool | R_Error string | R_Opened con_id | R_Parse_Error string string string

datatype bar_mode = BAR_DOCK | BAR_HIDE | BAR_INVISIBLE

record barconfig =
  bar_id :: string
  bar_mode :: bar_mode
  bar_shown :: bool

record cmd_state =
  wm :: i3
  current_match :: match
  owindows :: "con_id list"
  needs_tree_render :: bool
  replies :: "reply list"
  move_names :: "string list"
  focus_names :: "string list"
  barconfigs :: "barconfig list"
  shmlog_size :: int
  debug_logging :: bool

text \<open>
  What the commands read from outside: the outputs and assignments, the PCRE2 library, the atoms of
  the window types, the position of the pointer, the DPI of the screen (\<open>None\<close> without one), the
  binding modes, the default size of the log and Pango's escaping.
\<close>

record world =
  the_env :: env
  pattern_matches :: "string \<Rightarrow> string \<Rightarrow> bool"
  pattern_compiles :: "string \<Rightarrow> bool"
  type_atom :: "string \<Rightarrow> nat"
  pointer :: "(int \<times> int) option"
  dpi :: "rat option"
  default_shmlog_size :: int
  escape_markup :: "string \<Rightarrow> string"

type_synonym cmd = "cmd_state \<Rightarrow> cmd_state option"

definition logical_px :: "world \<Rightarrow> int \<Rightarrow> int" where
  "logical_px w px =
     (case dpi w of None \<Rightarrow> px
      | Some d \<Rightarrow> if d / 96 < 5 / 4 then px else \<lceil>d / 96 * of_int px\<rceil>)"

definition reply :: "reply \<Rightarrow> cmd_state \<Rightarrow> cmd_state" where
  "reply r st = st\<lparr>replies := replies st @ [r]\<rparr>"

definition yerror :: "string \<Rightarrow> cmd_state \<Rightarrow> cmd_state" where
  "yerror msg = reply (R_Error msg)"

definition ysuccess :: "bool \<Rightarrow> cmd_state \<Rightarrow> cmd_state" where
  "ysuccess b = reply (R_Success b)"

definition render_reply :: "bool \<Rightarrow> cmd_state \<Rightarrow> cmd_state" where
  "render_reply b st = ysuccess b (st\<lparr>needs_tree_render := True\<rparr>)"

definition on_wm :: "(i3 \<Rightarrow> i3 option) \<Rightarrow> cmd" where
  "on_wm f st = map_option (\<lambda>s. st\<lparr>wm := s\<rparr>) (f (wm st))"

text \<open>An operation with a result, which the continuation gets.\<close>

definition on_wm_result :: "(i3 \<Rightarrow> ('a \<times> i3) option) \<Rightarrow> ('a \<Rightarrow> cmd) \<Rightarrow> cmd" where
  "on_wm_result f k st = do { (a, s) \<leftarrow> f (wm st); k a (st\<lparr>wm := s\<rparr>) }"

section \<open>Criteria\<close>

definition cmd_criteria_init :: "cmd_state \<Rightarrow> cmd_state" where
  "cmd_criteria_init st = st\<lparr>current_match := match_init, owindows := all_cons (wm st)\<rparr>"

definition cmd_criteria_add :: "world \<Rightarrow> string \<Rightarrow> cstr \<Rightarrow> cmd" where
  "cmd_criteria_add w ctype cvalue st =
     map_option (\<lambda>m. st\<lparr>current_match := m\<rparr>)
       (match_parse_property (pattern_compiles w) (type_atom w) (wm st) ctype cvalue (current_match st))"

text \<open>Whether a container stays in the list; a container without a window needs a criterion of its own.\<close>

definition criteria_accept :: "(string \<Rightarrow> string \<Rightarrow> bool) \<Rightarrow> i3 \<Rightarrow> match \<Rightarrow> con_id \<Rightarrow> bool option" where
  "criteria_accept rm s m c =
     (let n = heap s c; by_mark = (m_mark m \<noteq> None \<and> marks n \<noteq> [])
      in if m_con_id m \<noteq> None \<and> m_con_id m \<noteq> Some c then Some False
         else if by_mark \<and> \<not> list_ex (rm (the (m_mark m))) (marks n) then Some False
         else (case con_window n of
                 Some w \<Rightarrow> match_matches_window rm s m w
               | None \<Rightarrow> Some (m_con_id m \<noteq> None \<or> by_mark)))"

fun filter_opt :: "('a \<Rightarrow> bool option) \<Rightarrow> 'a list \<Rightarrow> 'a list option" where
  "filter_opt f [] = Some []"
| "filter_opt f (x # xs) = do { b \<leftarrow> f x; ys \<leftarrow> filter_opt f xs; Some (if b then x # ys else ys) }"

definition cmd_criteria_match_windows :: "world \<Rightarrow> cmd" where
  "cmd_criteria_match_windows w st =
     map_option (\<lambda>os. st\<lparr>owindows := os\<rparr>)
       (filter_opt (criteria_accept (pattern_matches w) (wm st) (current_match st)) (owindows st))"

text \<open>
  \<open>HANDLE_INVALID_MATCH\<close> and \<open>HANDLE_EMPTY_MATCH\<close>: nothing is done after an error in the criteria, and
  without criteria the focused container is used.  A list entry always holds a container, as there
  is a focused container once the tree has been created.
\<close>

definition handle_invalid_match :: "cmd \<Rightarrow> cmd" where
  "handle_invalid_match body st =
     (case m_error (current_match st) of
        Some e \<Rightarrow> Some (yerror (''Invalid match: '' @ e) st) | None \<Rightarrow> body st)"

definition handle_empty_match :: "cmd \<Rightarrow> cmd" where
  "handle_empty_match body =
     handle_invalid_match (\<lambda>st.
       if match_is_empty (current_match st)
       then do { f \<leftarrow> focused (wm st); body (st\<lparr>owindows := [f]\<rparr>) }
       else body st)"

text \<open>The loop over the selected containers; one that has been freed meanwhile must not be used.\<close>

definition each_match :: "(con_id \<Rightarrow> cmd) \<Rightarrow> cmd" where
  "each_match f st = fold_opt (\<lambda>c st. do { c \<leftarrow> deref (wm st) c; f c st }) (owindows st) st"

definition each_match_wm :: "(con_id \<Rightarrow> i3 \<Rightarrow> i3 option) \<Rightarrow> cmd" where
  "each_match_wm f = each_match (\<lambda>c. on_wm (f c))"

section \<open>Lemmas\<close>

lemma reply_simps [simp]:
  "wm (reply r st) = wm st" "current_match (reply r st) = current_match st"
  "owindows (reply r st) = owindows st" "replies (reply r st) = replies st @ [r]"
  "needs_tree_render (reply r st) = needs_tree_render st"
  by (simp_all add: reply_def)

lemma yerror_simps [simp]:
  "wm (yerror m st) = wm st" "replies (yerror m st) = replies st @ [R_Error m]"
  "owindows (yerror m st) = owindows st" "current_match (yerror m st) = current_match st"
  "needs_tree_render (yerror m st) = needs_tree_render st"
  by (simp_all add: yerror_def)

lemma ysuccess_simps [simp]:
  "wm (ysuccess b st) = wm st" "replies (ysuccess b st) = replies st @ [R_Success b]"
  "owindows (ysuccess b st) = owindows st" "current_match (ysuccess b st) = current_match st"
  by (simp_all add: ysuccess_def)

lemma render_reply_simps [simp]:
  "wm (render_reply b st) = wm st" "replies (render_reply b st) = replies st @ [R_Success b]"
  "owindows (render_reply b st) = owindows st" "current_match (render_reply b st) = current_match st"
  by (simp_all add: render_reply_def)

lemma filter_opt_total:
  "(\<And>x. x \<in> set xs \<Longrightarrow> f x = Some (P x)) \<Longrightarrow> filter_opt f xs = Some (filter P xs)"
  by (induction xs) simp_all

lemma filter_opt_eq: "filter_opt f xs = Some ys \<Longrightarrow> ys = filter (\<lambda>y. f y = Some True) xs"
  by (induction xs arbitrary: ys) (auto simp: bind_eq_Some split: if_splits)

end
