(* ===== verification/Con_Layout.thy ===== *)
theory Con_Layout
  imports Tree_Flatten
begin

text \<open>
  Changing the layout of a container (src/con.c): \<open>con_set_layout\<close>, \<open>con_toggle_layout\<close>, and the
  textual representation of a subtree.
\<close>

section \<open>Setting the layout\<close>

text \<open>On a workspace with children, a new split container with the layout takes them over.\<close>

definition workspace_split_layout :: "con_id \<Rightarrow> layout \<Rightarrow> i3 \<Rightarrow> i3 option" where
  "workspace_split_layout ws l s = do {
     let (new, s) = con_new_detached None s;
     let s = upd new (\<lambda>n. n\<lparr>parent := Some ws, layout := l,
                            last_split_layout := last_split_layout (heap s ws)\<rparr>) s;
     s \<leftarrow> fill_split ws new s;
     s \<leftarrow> con_attach new ws False s;
     s \<leftarrow> tree_flatten (croot s) s;
     con_force_split_parents_redraw ws s
   }"

text \<open>An only child of an only child takes the place of its parent, which is closed.\<close>

definition collapse_single :: "con_id \<Rightarrow> i3 \<Rightarrow> (con_id \<times> i3) option" where
  "collapse_single c s =
     (if con_type (heap s c) = CT_WORKSPACE then Some (c, s)
      else do {
        p \<leftarrow> parent (heap s c);
        if con_type (heap s p) \<noteq> CT_WORKSPACE \<and> con_num_children s c = 1 \<and> con_num_children s p = 1
        then do {
          d \<leftarrow> list_first (nodes_head (heap s c));
          s \<leftarrow> con_detach d s;
          s \<leftarrow> con_attach d p True s;
          let s = upd p (\<lambda>n. n\<lparr>last_split_layout := last_split_layout (heap s c)\<rparr>) s;
          (b, s) \<leftarrow> tree_close_internal c DONT_KILL_WINDOW True s;
          Some (p, s) }
        else Some (c, s) })"

definition new_layout :: "layout \<Rightarrow> con \<Rightarrow> layout" where
  "new_layout l n =
     (if l = L_DEFAULT then (if last_split_layout n = L_DEFAULT then L_SPLITH else last_split_layout n) else l)"

definition apply_layout :: "con_id \<Rightarrow> layout \<Rightarrow> i3 \<Rightarrow> i3 option" where
  "apply_layout c l s = do {
     (c, s) \<leftarrow> collapse_single c s;
     con_force_split_parents_redraw c (upd c (\<lambda>n. n\<lparr>layout := new_layout l n\<rparr>) s)
   }"

definition con_set_layout :: "con_id \<Rightarrow> layout \<Rightarrow> i3 \<Rightarrow> i3 option" where
  "con_set_layout c l s = do {
     c \<leftarrow> (if con_type (heap s c) \<noteq> CT_WORKSPACE then parent (heap s c) else Some c);
     let s = (if layout (heap s c) = L_SPLITH \<or> layout (heap s c) = L_SPLITV
              then upd c (\<lambda>n. n\<lparr>last_split_layout := layout n\<rparr>) s else s);
     if con_type (heap s c) = CT_WORKSPACE \<and> con_num_children s c = 0 then
       apply_layout c l (upd c (\<lambda>n. n\<lparr>workspace_layout := (if l = L_STACKED \<or> l = L_TABBED then l else L_DEFAULT),
                                      layout := l\<rparr>) s)
     else if con_type (heap s c) = CT_WORKSPACE \<and> l \<in> {L_STACKED, L_TABBED, L_SPLITV, L_SPLITH} then
       workspace_split_layout c l s
     else apply_layout c l s
   }"

section \<open>Toggling the layout\<close>

text \<open>\<open>strtok\<close> with a blank: the non-empty pieces between blanks.\<close>

fun pieces :: "string \<Rightarrow> string \<Rightarrow> string list" where
  "pieces acc [] = (if acc = [] then [] else [acc])"
| "pieces acc (x # xs) =
     (if x = CHR '' '' then (if acc = [] then pieces [] xs else acc # pieces [] xs)
      else pieces (acc @ [x]) xs)"

definition tokens :: "string \<Rightarrow> string list" where "tokens xs = pieces [] xs"

definition token_layout :: "con \<Rightarrow> string \<Rightarrow> layout option" where
  "token_layout p tok =
     (if strcasecmp tok ''split'' = 0 then
        Some (if layout p \<noteq> L_SPLITH \<and> layout p \<noteq> L_SPLITV
              then (if last_split_layout p = L_DEFAULT then L_SPLITH else last_split_layout p)
              else if layout p = L_SPLITH then L_SPLITV else L_SPLITH)
      else case layout_from_name tok of
             None \<Rightarrow> None | Some l \<Rightarrow> if l = L_DEFAULT then None else Some l)"

text \<open>The layout after the current one, the first one if the current one is last or missing.\<close>

fun next_layout :: "con \<Rightarrow> layout \<Rightarrow> bool \<Rightarrow> string list \<Rightarrow> layout" where
  "next_layout p new found_current [] = new"
| "next_layout p new found_current (tok # toks) =
     (case token_layout p tok of
        None \<Rightarrow> next_layout p new found_current toks
      | Some l \<Rightarrow>
          if found_current then l
          else next_layout p (if new = L_DEFAULT then l else new) (layout p = l) toks)"

definition con_toggle_layout :: "con_id \<Rightarrow> string \<Rightarrow> i3 \<Rightarrow> i3 option" where
  "con_toggle_layout c mode s = do {
     p \<leftarrow> (if con_type (heap s c) \<noteq> CT_WORKSPACE then parent (heap s c) else Some c);
     let l = layout (heap s p);
     if strcasecmp mode ''split'' = 0 \<or> CHR '' '' \<in> set mode then
       (let new = next_layout (heap s p) L_DEFAULT False (tokens mode)
        in if new \<noteq> L_DEFAULT then con_set_layout c new s else Some s)
     else
       (let all_modes = (strcasecmp mode ''all'' = 0)
        in if \<not> all_modes \<and> strcasecmp mode ''default'' \<noteq> 0 then Some s
           else if l = L_STACKED then con_set_layout c L_TABBED s
           else if l = L_TABBED then
             con_set_layout c (if all_modes then L_SPLITH else last_split_layout (heap s p)) s
           else if l = L_SPLITH \<or> l = L_SPLITV then
             con_set_layout c (if all_modes \<and> l = L_SPLITH then L_SPLITV else L_STACKED) s
           else Some s)
   }"

section \<open>The representation of a subtree\<close>

fun layout_letter :: "layout \<Rightarrow> string option" where
  "layout_letter L_DEFAULT = Some ''D[''"
| "layout_letter L_SPLITV = Some ''V[''"
| "layout_letter L_SPLITH = Some ''H[''"
| "layout_letter L_TABBED = Some ''T[''"
| "layout_letter L_STACKED = Some ''S[''"
| "layout_letter l = None"

fun join_blank :: "string list \<Rightarrow> string" where
  "join_blank [] = []"
| "join_blank [x] = x"
| "join_blank (x # xs) = x @ '' '' @ join_blank xs"

fun tree_representation :: "nat \<Rightarrow> i3 \<Rightarrow> con_id \<Rightarrow> string option" where
  "tree_representation 0 s c = None"
| "tree_representation (Suc k) s c =
     (if con_is_leaf s c then
        Some (case con_window (heap s c) of
                None \<Rightarrow> ''nowin''
              | Some w \<Rightarrow> (case win_instance w of None \<Rightarrow> ''noinstance'' | Some i \<Rightarrow> i))
      else do {
        l \<leftarrow> layout_letter (layout (heap s c));
        xs \<leftarrow> map_opt (tree_representation k s) (nodes_head (heap s c));
        Some (l @ join_blank xs @ '']'') })"

definition con_get_tree_representation :: "i3 \<Rightarrow> con_id \<Rightarrow> string option" where
  "con_get_tree_representation s c = tree_representation (up_fuel s) s c"

section \<open>Lemmas\<close>

text \<open>
  The layout after the first occurrence of the current one in a list, the first of the list when
  the current one is its last element or does not occur.
\<close>

definition cyclic_next :: "'a \<Rightarrow> 'a list \<Rightarrow> 'a" where
  "cyclic_next l ls = (case dropWhile (\<lambda>x. x \<noteq> l) ls of _ # x # _ \<Rightarrow> x | _ \<Rightarrow> hd ls)"

definition mode_layouts :: "con \<Rightarrow> string \<Rightarrow> layout list" where
  "mode_layouts p mode = List.map_filter (token_layout p) (tokens mode)"

lemma token_layout_not_default: "token_layout p tok \<noteq> Some L_DEFAULT"
  by (auto simp: token_layout_def split: option.splits)

lemma next_layout_found:
  "next_layout p new True toks =
     (case List.map_filter (token_layout p) toks of [] \<Rightarrow> new | l # _ \<Rightarrow> l)"
  by (induction toks) (auto simp: map_filter_simps split: option.splits)

lemma next_layout_seen:
  "new \<noteq> L_DEFAULT \<Longrightarrow> next_layout p new False toks =
     (case dropWhile (\<lambda>x. x \<noteq> layout p) (List.map_filter (token_layout p) toks) of
        _ # x # _ \<Rightarrow> x | _ \<Rightarrow> new)"
proof (induction toks)
  case (Cons t ts)
  then show ?case
    by (cases "token_layout p t"; cases "token_layout p t = Some (layout p)")
      (auto simp: map_filter_simps next_layout_found split: list.splits)
qed (simp add: map_filter_simps)

lemma next_layout_cyclic:
  "next_layout p L_DEFAULT False toks =
     (case List.map_filter (token_layout p) toks of
        [] \<Rightarrow> L_DEFAULT | l # ls \<Rightarrow> cyclic_next (layout p) (l # ls))"
proof (induction toks)
  case (Cons t ts)
  show ?case
  proof (cases "token_layout p t")
    case None
    with Cons show ?thesis by (simp add: map_filter_simps)
  next
    case (Some l)
    with token_layout_not_default have "l \<noteq> L_DEFAULT" by metis
    with Some show ?thesis
      by (cases "l = layout p")
        (auto simp: map_filter_simps cyclic_next_def next_layout_found next_layout_seen
          simp del: dropWhile_eq_Nil_conv split: list.splits)
  qed
qed (simp add: map_filter_simps)

lemma mode_layouts_not_default: "l \<in> set (mode_layouts p mode) \<Longrightarrow> l \<noteq> L_DEFAULT"
  using token_layout_not_default[of p]
  by (auto simp: mode_layouts_def map_filter_def)

lemma cyclic_next_in: "ls \<noteq> [] \<Longrightarrow> cyclic_next l ls \<in> set ls"
  by (auto simp: cyclic_next_def split: list.splits dest!: arg_cong[where f = set] set_dropWhileD
    intro: set_dropWhileD[where P = "\<lambda>x. x \<noteq> l"])

text \<open>Toggling through a list of layouts takes the next one in the circle of those it names.\<close>

lemma con_toggle_layout_list:
  assumes "strcasecmp mode ''split'' = 0 \<or> CHR '' '' \<in> set mode"
    and "(if con_type (heap s c) \<noteq> CT_WORKSPACE then parent (heap s c) else Some c) = Some p"
  shows "con_toggle_layout c mode s =
    (if mode_layouts (heap s p) mode = [] then Some s
     else con_set_layout c (cyclic_next (layout (heap s p)) (mode_layouts (heap s p) mode)) s)"
proof (cases "mode_layouts (heap s p) mode")
  case Nil
  then show ?thesis using assms
    by (simp add: con_toggle_layout_def next_layout_cyclic mode_layouts_def)
next
  case (Cons l ls)
  then have "cyclic_next (layout (heap s p)) (l # ls) \<noteq> L_DEFAULT"
    using cyclic_next_in[of "l # ls"] mode_layouts_not_default[of _ "heap s p" mode] by (metis list.distinct(1))
  with Cons show ?thesis using assms
    by (simp add: con_toggle_layout_def next_layout_cyclic mode_layouts_def)
qed

end
