(* ===== verification/Cmd_Move.thy ===== *)
theory Cmd_Move
  imports Cmd_State Move Workspace_Ops Con_Layout
begin

text \<open>
  The commands that move containers, switch between workspaces and outputs, and rename workspaces
  (src/commands.c).
\<close>

section \<open>Back and forth\<close>

definition maybe_back_and_forth :: "world \<Rightarrow> string \<Rightarrow> cmd_state \<Rightarrow> (bool \<times> cmd_state) option" where
  "maybe_back_and_forth w name st = do {
     f \<leftarrow> focused (wm st);
     ws \<leftarrow> con_get_workspace (wm st) f;
     ws \<leftarrow> ws;
     current_name \<leftarrow> con_name (heap (wm st) ws);
     if current_name \<noteq> name then Some (False, st)
     else if workspace_auto_back_and_forth (cfg (wm st)) then do {
       s \<leftarrow> workspace_back_and_forth (the_env w) (wm st);
       Some (True, st\<lparr>wm := s, needs_tree_render := True\<rparr>) }
     else Some (True, st)
   }"

definition maybe_auto_back_and_forth_workspace :: "world \<Rightarrow> con_id \<Rightarrow> i3 \<Rightarrow> (con_id \<times> i3) option" where
  "maybe_auto_back_and_forth_workspace w ws s =
     (if \<not> workspace_auto_back_and_forth (cfg s) then Some (ws, s)
      else do {
        f \<leftarrow> focused s;
        current \<leftarrow> con_get_workspace s f;
        if current = Some ws then do {
          (baf, s) \<leftarrow> workspace_back_and_forth_get (the_env w) s;
          Some (case baf of Some b \<Rightarrow> b | None \<Rightarrow> ws, s) }
        else Some (ws, s) })"

section \<open>Moving to a workspace\<close>

definition move_matches_to_workspace :: "con_id \<Rightarrow> cmd" where
  "move_matches_to_workspace ws = each_match_wm (\<lambda>c. con_move_to_workspace c ws True False False)"

text \<open>\<open>CHECK_MOVE_CON_TO_WORKSPACE\<close> drops empty workspaces from the list.\<close>

definition movable_match :: "i3 \<Rightarrow> con_id \<Rightarrow> bool option" where
  "movable_match s c = do {
     c \<leftarrow> deref s c;
     Some (con_type (heap s c) \<noteq> CT_WORKSPACE \<or> con_has_children s c)
   }"

definition check_move_con_to_workspace :: "cmd \<Rightarrow> cmd" where
  "check_move_con_to_workspace body = handle_empty_match (\<lambda>st.
     if owindows st = [] then Some (yerror ''Nothing to move: specified criteria do not match any window'' st)
     else do {
       os \<leftarrow> filter_opt (movable_match (wm st)) (owindows st);
       let st = st\<lparr>owindows := os\<rparr>;
       if os = [] then Some (yerror ''Nothing to move: workspace empty'' st) else body st })"

definition relative_workspace :: "string \<Rightarrow> i3 \<Rightarrow> con_id option option option" where
  "relative_workspace which s =
     (if which = ''next'' then Some (workspace_next s)
      else if which = ''prev'' then Some (workspace_prev s)
      else if which = ''next_on_output'' then Some (workspace_next_on_output s)
      else if which = ''prev_on_output'' then Some (workspace_prev_on_output s)
      else None)"

definition current_or_relative :: "string \<Rightarrow> i3 \<Rightarrow> con_id option option option" where
  "current_or_relative which s =
     (if which = ''current'' then Some (do { f \<leftarrow> focused s; con_get_workspace s f })
      else relative_workspace which s)"

definition cmd_move_con_to_workspace :: "string \<Rightarrow> cmd" where
  "cmd_move_con_to_workspace which = check_move_con_to_workspace (\<lambda>st.
     case current_or_relative which (wm st) of
       None \<Rightarrow> Some (yerror (''BUG: called with which='' @ which) st)
     | Some r \<Rightarrow> do {
         ws \<leftarrow> r;
         ws \<leftarrow> ws;
         st \<leftarrow> move_matches_to_workspace ws st;
         Some (render_reply True st) })"

definition cmd_move_con_to_workspace_back_and_forth :: "world \<Rightarrow> cmd" where
  "cmd_move_con_to_workspace_back_and_forth w = on_wm_result (workspace_back_and_forth_get (the_env w)) (\<lambda>r st.
     case r of
       None \<Rightarrow> Some (yerror ''No workspace was previously active.'' st)
     | Some ws \<Rightarrow> handle_empty_match (\<lambda>st. map_option (render_reply True) (move_matches_to_workspace ws st)) st)"

text \<open>The target of a move, replaced by the previous workspace when it is the current one.\<close>

definition move_to_workspace_maybe_back :: "world \<Rightarrow> bool \<Rightarrow> con_id \<Rightarrow> cmd" where
  "move_to_workspace_maybe_back w no_auto ws st = do {
     (ws, s) \<leftarrow> (if no_auto then Some (ws, wm st) else maybe_auto_back_and_forth_workspace w ws (wm st));
     st \<leftarrow> move_matches_to_workspace ws (st\<lparr>wm := s\<rparr>);
     Some (render_reply True st)
   }"

text \<open>\<open>strncasecmp\<close> with the two underscores of an internal workspace.\<close>

definition internal_name :: "string \<Rightarrow> bool" where
  "internal_name name \<longleftrightarrow> starts_with ''__'' name"

definition cmd_move_con_to_workspace_name :: "world \<Rightarrow> string \<Rightarrow> cstr \<Rightarrow> cmd" where
  "cmd_move_con_to_workspace_name w name no_auto st =
     (if internal_name name
      then Some (yerror ''You cannot move containers to i3-internal workspaces.'' st)
      else check_move_con_to_workspace
             (on_wm_result (workspace_get (the_env w) name) (move_to_workspace_maybe_back w (no_auto \<noteq> None))) st)"

definition workspace_numbered :: "world \<Rightarrow> int \<Rightarrow> string \<Rightarrow> i3 \<Rightarrow> (con_id \<times> i3) option" where
  "workspace_numbered w n which s = do {
     existing \<leftarrow> get_existing_workspace_by_num s n;
     (case existing of Some ws \<Rightarrow> Some (ws, s) | None \<Rightarrow> workspace_get (the_env w) which s)
   }"

definition cmd_move_con_to_workspace_number :: "world \<Rightarrow> string \<Rightarrow> cstr \<Rightarrow> cmd" where
  "cmd_move_con_to_workspace_number w which no_auto = check_move_con_to_workspace (\<lambda>st.
     if ws_name_to_number which = -1 then Some (yerror (''Could not parse number '' @ which) st)
     else on_wm_result (workspace_numbered w (ws_name_to_number which) which)
            (move_to_workspace_maybe_back w (no_auto \<noteq> None)) st)"

section \<open>Switching workspaces\<close>

definition disable_global_fullscreen :: "i3 \<Rightarrow> i3 option" where
  "disable_global_fullscreen s = do {
     fs \<leftarrow> con_get_fullscreen_con s (croot s) CF_GLOBAL;
     Some (case fs of None \<Rightarrow> s | Some c \<Rightarrow> con_disable_fullscreen c s)
   }"

definition show_and_reply :: "con_id \<Rightarrow> cmd" where
  "show_and_reply ws st = map_option (render_reply True) (on_wm (workspace_show ws) st)"

definition cmd_workspace :: "string \<Rightarrow> cmd" where
  "cmd_workspace which st = do {
     st \<leftarrow> on_wm disable_global_fullscreen st;
     (case relative_workspace which (wm st) of
        None \<Rightarrow> Some (yerror (''BUG: called with which='' @ which) st)
      | Some r \<Rightarrow> do { ws \<leftarrow> r; ws \<leftarrow> ws; show_and_reply ws st })
   }"

definition cmd_workspace_number :: "world \<Rightarrow> string \<Rightarrow> cstr \<Rightarrow> cmd" where
  "cmd_workspace_number w which no_auto st = do {
     st \<leftarrow> on_wm disable_global_fullscreen st;
     let n = ws_name_to_number which;
     if n = -1 then Some (yerror ''Could not parse initial part as a number.'' st)
     else do {
       existing \<leftarrow> get_existing_workspace_by_num (wm st) n;
       (case existing of
          None \<Rightarrow> do {
            st \<leftarrow> on_wm (workspace_show_by_name (the_env w) which) (ysuccess True st);
            Some (st\<lparr>needs_tree_render := True\<rparr>) }
        | Some ws \<Rightarrow> do {
            name \<leftarrow> con_name (heap (wm st) ws);
            (switched, st) \<leftarrow> (if no_auto = None then maybe_back_and_forth w name st else Some (False, st));
            if switched then Some (ysuccess True st) else show_and_reply ws st }) }
   }"

definition cmd_workspace_back_and_forth :: "world \<Rightarrow> cmd" where
  "cmd_workspace_back_and_forth w st = do {
     st \<leftarrow> on_wm disable_global_fullscreen st;
     st \<leftarrow> on_wm (workspace_back_and_forth (the_env w)) st;
     Some (render_reply True st)
   }"

definition cmd_workspace_name :: "world \<Rightarrow> string \<Rightarrow> cstr \<Rightarrow> cmd" where
  "cmd_workspace_name w name no_auto st =
     (if internal_name name
      then Some (yerror ''You cannot switch to the i3-internal workspaces.'' st)
      else do {
        st \<leftarrow> on_wm disable_global_fullscreen st;
        (switched, st) \<leftarrow> (if no_auto = None then maybe_back_and_forth w name st else Some (False, st));
        if switched then Some (ysuccess True st)
        else map_option (render_reply True) (on_wm (workspace_show_by_name (the_env w) name) st) })"

section \<open>Outputs\<close>

text \<open>The first name of an output; every output has one.\<close>

definition output_primary_name :: "xoutput \<Rightarrow> string option" where
  "output_primary_name out = list_first (names_head out)"

definition user_output_names_add :: "env \<Rightarrow> string \<Rightarrow> string list \<Rightarrow> string list option" where
  "user_output_names_add e name names =
     (let get_non_primary = (strcasecmp ''nonprimary'' name = 0)
      in if get_non_primary \<or> name = ''next'' then
           map_option ((@) names)
             (map_opt output_primary_name (filter (\<lambda>out. \<not> (get_non_primary \<and> primary out)) (outputs e)))
         else Some (names @ [name]))"

text \<open>The output with a name; the output of the focused container must exist when it is asked for.\<close>

definition output_from_name :: "env \<Rightarrow> i3 \<Rightarrow> xoutput \<Rightarrow> string \<Rightarrow> xoutput option option" where
  "output_from_name e s cur name =
     (if strcasecmp name ''current'' = 0
      then do { f \<leftarrow> focused s; map_option Some (get_output_for_con e s f) }
      else Some (get_output_from_string (outputs e) None cur name))"

text \<open>The first name after the one of the current output that names an output.\<close>

fun find_next_output ::
  "(string \<Rightarrow> xoutput option option) \<Rightarrow> string \<Rightarrow> xoutput option \<Rightarrow> string list \<Rightarrow> xoutput option option" where
  "find_next_output get current_name target [] = Some target"
| "find_next_output get current_name target (n # ns) = do {
     target \<leftarrow> (if target = None then get n else Some target);
     if strcasecmp current_name n = 0
     then do { r \<leftarrow> first_opt get ns; Some (case r of Some out \<Rightarrow> Some out | None \<Rightarrow> target) }
     else find_next_output get current_name target ns
   }"

definition user_output_names_find_next :: "env \<Rightarrow> i3 \<Rightarrow> string list \<Rightarrow> xoutput \<Rightarrow> xoutput option option" where
  "user_output_names_find_next e s names cur = do {
     current_name \<leftarrow> output_primary_name cur;
     find_next_output (output_from_name e s cur) current_name None names
   }"

text \<open>\<open>name\<close> is NULL in the last call, which acts on the names collected before.\<close>

definition move_con_to_named_output :: "world \<Rightarrow> bool \<Rightarrow> con_id \<Rightarrow> bool \<times> cmd_state \<Rightarrow> (bool \<times> cmd_state) option" where
  "move_con_to_named_output w move_workspace c acc = do {
     let (ok, st) = acc;
     let s = wm st;
     let e = the_env w;
     c \<leftarrow> deref s c;
     ws \<leftarrow> con_get_workspace s c;
     ws \<leftarrow> ws;
     hidden \<leftarrow> con_is_internal s ws;
     if hidden then Some (ok, st)
     else do {
       current_output \<leftarrow> get_output_for_con e s ws;
       target \<leftarrow> user_output_names_find_next e s (move_names st) current_output;
       (case target of
          None \<Rightarrow> Some (ok, st)
        | Some out \<Rightarrow> do {
            s \<leftarrow> (if move_workspace then workspace_move_to_output e ws out s else con_move_to_output c out True s);
            Some (True, st\<lparr>wm := s\<rparr>) }) }
   }"

definition cmd_move_con_to_output :: "world \<Rightarrow> cstr \<Rightarrow> bool \<Rightarrow> cmd" where
  "cmd_move_con_to_output w name move_workspace st =
     (case name of
        Some n \<Rightarrow> map_option (\<lambda>ns. st\<lparr>move_names := ns\<rparr>) (user_output_names_add (the_env w) n (move_names st))
      | None \<Rightarrow> handle_empty_match (\<lambda>st.
          if move_names st = [] then Some (yerror ''At least one output must be specified'' st)
          else do {
            (ok, st) \<leftarrow> fold_opt (move_con_to_named_output w move_workspace) (owindows st) (False, st);
            let st = st\<lparr>move_names := [], needs_tree_render := ok\<rparr>;
            Some (if ok then ysuccess True st else yerror ''No output matched'' st) }) st)"

text \<open>The container whose output counts: the first one that is not on an internal workspace.\<close>

fun first_external :: "i3 \<Rightarrow> con_id list \<Rightarrow> con_id option option" where
  "first_external s [] = Some None"
| "first_external s (c # cs) = do {
     c \<leftarrow> deref s c;
     ws \<leftarrow> con_get_workspace s c;
     ws \<leftarrow> ws;
     hidden \<leftarrow> con_is_internal s ws;
     if hidden then first_external s cs else Some (Some c)
   }"

definition visible_workspace_on :: "i3 \<Rightarrow> con_id \<Rightarrow> con_id option option" where
  "visible_workspace_on s content =
     first_opt (\<lambda>ws. do { v \<leftarrow> workspace_is_visible s ws; Some (if v then Some ws else None) })
       (nodes_head (heap s content))"

definition cmd_focus_output :: "world \<Rightarrow> cstr \<Rightarrow> cmd" where
  "cmd_focus_output w name st =
     (case name of
        Some n \<Rightarrow> map_option (\<lambda>ns. st\<lparr>focus_names := ns\<rparr>) (user_output_names_add (the_env w) n (focus_names st))
      | None \<Rightarrow>
          if focus_names st = [] then Some (yerror ''At least one output must be specified'' st)
          else handle_empty_match (\<lambda>st.
            if owindows st = [] then Some (ysuccess True st)
            else do {
              let s = wm st;
              f \<leftarrow> focused s;
              r \<leftarrow> first_external s (owindows st);
              current_output \<leftarrow> get_output_for_con (the_env w) s (case r of Some c \<Rightarrow> c | None \<Rightarrow> f);
              target \<leftarrow> user_output_names_find_next (the_env w) s (focus_names st) current_output;
              let st = st\<lparr>focus_names := []\<rparr>;
              (case target of
                 None \<Rightarrow> Some (yerror ''No output matched'' (st\<lparr>needs_tree_render := False\<rparr>))
               | Some out \<Rightarrow> do {
                   oc \<leftarrow> out_con out;
                   content \<leftarrow> output_get_content s oc;
                   ws \<leftarrow> visible_workspace_on s content;
                   (case ws of
                      None \<Rightarrow> Some (yerror ''BUG: No workspace found on output.'' st)
                    | Some ws \<Rightarrow> show_and_reply ws st) }) }) st)"

section \<open>Marks and directions\<close>

text \<open>The results of the single moves are combined with \<open>&=\<close>.\<close>

definition cmd_move_con_to_mark :: "world \<Rightarrow> string \<Rightarrow> cmd" where
  "cmd_move_con_to_mark w mark = handle_empty_match (\<lambda>st. do {
     (ok, st) \<leftarrow> fold_opt (\<lambda>c (ok, st). do {
         c \<leftarrow> deref (wm st) c;
         (b, s) \<leftarrow> con_move_to_mark (the_env w) c mark (wm st);
         Some (ok \<and> b, st\<lparr>wm := s\<rparr>) }) (owindows st) (True, st);
     Some (render_reply ok st) })"

definition parse_direction :: "string \<Rightarrow> direction option" where
  "parse_direction str =
     (if str = ''left'' then Some D_LEFT else if str = ''right'' then Some D_RIGHT
      else if str = ''up'' then Some D_UP else if str = ''down'' then Some D_DOWN else None)"

text \<open>
  Both branches of the conditional have type \<open>double\<close>, also for a distance in pixels; the result is
  converted back to the unsigned coordinate through a 64-bit integer, so it wraps.
\<close>

definition distance :: "bool \<Rightarrow> u32 \<Rightarrow> int \<Rightarrow> rat" where
  "distance is_ppt len amount =
     (if is_ppt then of_int (uint len) * (of_int amount / 100) else of_int amount)"

definition shifted :: "rat \<Rightarrow> u32 \<Rightarrow> u32" where
  "shifted q v = of_int (trunc (of_int (uint v) + q))"

definition moved_in_direction :: "direction \<Rightarrow> bool \<Rightarrow> int \<Rightarrow> rect \<Rightarrow> rect \<Rightarrow> rect" where
  "moved_in_direction d is_ppt amount area r =
     (case d of
        D_LEFT \<Rightarrow> r\<lparr>rx := shifted (- distance is_ppt (rwidth area) amount) (rx r)\<rparr>
      | D_RIGHT \<Rightarrow> r\<lparr>rx := shifted (distance is_ppt (rwidth area) amount) (rx r)\<rparr>
      | D_UP \<Rightarrow> r\<lparr>ry := shifted (- distance is_ppt (rheight area) amount) (ry r)\<rparr>
      | D_DOWN \<Rightarrow> r\<lparr>ry := shifted (distance is_ppt (rheight area) amount) (ry r)\<rparr>)"

definition cmd_move_direction :: "world \<Rightarrow> string \<Rightarrow> int \<Rightarrow> cstr \<Rightarrow> cmd" where
  "cmd_move_direction w direction_str amount mode = handle_empty_match (\<lambda>st. do {
     d \<leftarrow> parse_direction direction_str;
     st \<leftarrow> each_match (\<lambda>c st. do {
         let s = wm st;
         if con_is_floating s c then do {
           p \<leftarrow> parent (heap s c);
           out \<leftarrow> con_get_output s c;
           let r = moved_in_direction d (mode = Some ''ppt'') amount (con_rect (heap s out)) (con_rect (heap s p));
           (moved, s) \<leftarrow> floating_reposition (the_env w) p r s;
           Some (st\<lparr>wm := s, needs_tree_render := moved\<rparr>) }
         else do {
           s \<leftarrow> tree_move (the_env w) c d s;
           Some (st\<lparr>wm := s, needs_tree_render := True\<rparr>) } }) st;
     Some (ysuccess True st) })"

section \<open>Positions\<close>

definition coordinate :: "cstr \<Rightarrow> u32 \<Rightarrow> int \<Rightarrow> u32" where
  "coordinate mode area v = of_int (trunc (distance (mode = Some ''ppt'') area v))"

definition not_floating_msg :: string where
  "not_floating_msg = ''Cannot change position of a window/container because it is not floating.''"

definition move_to_position :: "world \<Rightarrow> int \<Rightarrow> cstr \<Rightarrow> int \<Rightarrow> cstr \<Rightarrow> con_id \<Rightarrow> bool \<times> cmd_state \<Rightarrow> (bool \<times> cmd_state) option" where
  "move_to_position w x mode_x y mode_y c acc = do {
     let (has_error, st) = acc;
     let s = wm st;
     c \<leftarrow> deref s c;
     if \<not> con_is_floating s c then Some (True, if has_error then st else yerror not_floating_msg st)
     else do {
       p \<leftarrow> parent (heap s c);
       out \<leftarrow> con_get_output s c;
       let nx = coordinate mode_x (rwidth (con_rect (heap s out))) x;
       let ny = coordinate mode_y (rheight (con_rect (heap s out))) y;
       (moved, s) \<leftarrow> floating_reposition (the_env w) p ((con_rect (heap s p))\<lparr>rx := nx, ry := ny\<rparr>) s;
       let st = st\<lparr>wm := s\<rparr>;
       Some (if moved then (has_error, st) else (True, yerror ''Cannot move window/container out of bounds.'' st)) }
   }"

definition cmd_move_window_to_position :: "world \<Rightarrow> int \<Rightarrow> cstr \<Rightarrow> int \<Rightarrow> cstr \<Rightarrow> cmd" where
  "cmd_move_window_to_position w x mode_x y mode_y = handle_empty_match (\<lambda>st. do {
     (has_error, st) \<leftarrow> fold_opt (move_to_position w x mode_x y mode_y) (owindows st) (False, st);
     Some (if has_error then st else ysuccess True st) })"

definition move_to_center :: "world \<Rightarrow> string \<Rightarrow> con_id \<Rightarrow> bool \<times> cmd_state \<Rightarrow> (bool \<times> cmd_state) option" where
  "move_to_center w how c acc = do {
     let (has_error, st) = acc;
     let s = wm st;
     c \<leftarrow> deref s c;
     r \<leftarrow> con_inside_floating s c;
     (case r of
        None \<Rightarrow> Some (True, if has_error then st else yerror not_floating_msg st)
      | Some f \<Rightarrow>
          if how = ''absolute'' then do {
            (b, s) \<leftarrow> floating_maybe_reassign_ws (the_env w) f (floating_center f (con_rect (heap s (croot s))) s);
            Some (has_error, st\<lparr>wm := s, needs_tree_render := True\<rparr>) }
          else if how = ''position'' then do {
            ws \<leftarrow> con_get_workspace s f;
            ws \<leftarrow> ws;
            Some (has_error, st\<lparr>wm := floating_center f (con_rect (heap s ws)) s, needs_tree_render := True\<rparr>) }
          else Some (has_error, st))
   }"

definition cmd_move_window_to_center :: "world \<Rightarrow> string \<Rightarrow> cmd" where
  "cmd_move_window_to_center w how = handle_empty_match (\<lambda>st. do {
     (has_error, st) \<leftarrow> fold_opt (move_to_center w how) (owindows st) (False, st);
     Some (if has_error then st else ysuccess True st) })"

definition cmd_move_window_to_mouse :: "world \<Rightarrow> cmd" where
  "cmd_move_window_to_mouse w = handle_empty_match (\<lambda>st. do {
     st \<leftarrow> each_match_wm (\<lambda>c s. do {
         r \<leftarrow> con_inside_floating s c;
         (case r of None \<Rightarrow> Some s | Some f \<Rightarrow> floating_move_to_pointer (the_env w) (pointer w) f s) }) st;
     Some (render_reply True st) })"

section \<open>Renaming\<close>

text \<open>
  The focus is restored when the container that had it still exists; a workspace is looked up among
  the workspaces of its output.
\<close>

definition can_restore_focus :: "con_id \<Rightarrow> con_id option \<Rightarrow> i3 \<Rightarrow> bool" where
  "can_restore_focus f content s =
     (case content of None \<Rightarrow> True | Some p \<Rightarrow> f \<in> set (nodes_head (heap s p)))"

definition rename_workspace :: "world \<Rightarrow> con_id \<Rightarrow> string \<Rightarrow> string \<Rightarrow> i3 \<Rightarrow> i3 option" where
  "rename_workspace w ws old_name new_name s = do {
     let s = upd ws (\<lambda>n. n\<lparr>con_name := Some new_name, ws_num := ws_name_to_number new_name\<rparr>) s;
     f \<leftarrow> focused s;
     let content = (if con_type (heap s f) = CT_WORKSPACE then parent (heap s f) else None);
     p \<leftarrow> parent (heap s ws);
     s \<leftarrow> con_detach ws s;
     s \<leftarrow> con_attach ws p False s;
     let s = emit (Ipc_Workspace ''rename'' ws None) s;
     s \<leftarrow> (case get_assigned_output (outputs (the_env w)) (ws_assignments (the_env w)) (Some new_name)
                   (ws_name_to_number new_name) of
             None \<Rightarrow> Some s
           | Some c \<Rightarrow> do {
               out \<leftarrow> get_output_for_con (the_env w) s c;
               workspace_move_to_output (the_env w) ws out s });
     s \<leftarrow> (if can_restore_focus f content s then do {
             fw \<leftarrow> con_get_workspace s f;
             fw \<leftarrow> fw;
             s \<leftarrow> workspace_show fw s;
             f \<leftarrow> deref s f;
             con_focus f s }
           else Some s);
     let s = (if previous_workspace s = Some old_name then s\<lparr>previous_workspace := Some new_name\<rparr> else s);
     Some (emit (Startup_Rename_Workspace old_name new_name) (emit Ewmh_Update_Desktop_Properties s))
   }"

definition cmd_rename_workspace :: "world \<Rightarrow> cstr \<Rightarrow> string \<Rightarrow> cmd" where
  "cmd_rename_workspace w old_name new_name st =
     (if internal_name new_name then Some (yerror ''Cannot rename workspace: names starting with __ are i3-internal.'' st)
      else do {
        let s = wm st;
        r \<leftarrow> (case old_name of
                Some name \<Rightarrow> map_option (\<lambda>ws. (ws, name)) (get_existing_workspace_by_name s name)
              | None \<Rightarrow> do {
                  f \<leftarrow> focused s;
                  ws \<leftarrow> con_get_workspace s f;
                  ws \<leftarrow> ws;
                  name \<leftarrow> con_name (heap s ws);
                  Some (Some ws, name) });
        let (ws, old) = r;
        (case ws of
           None \<Rightarrow> Some (yerror (''Old workspace not found: '' @ old) st)
         | Some ws \<Rightarrow> do {
             dest \<leftarrow> get_existing_workspace_by_name s new_name;
             if dest \<noteq> None \<and> dest \<noteq> Some ws
             then Some (yerror (''New workspace already exists: '' @ new_name) st)
             else do {
               s \<leftarrow> rename_workspace w ws old new_name s;
               Some (render_reply True (st\<lparr>wm := s\<rparr>)) } }) })"

end
