(* ===== verification/Cmd_Resize.thy ===== *)
theory Cmd_Resize
  imports Cmd_Move Con_Resize
begin

text \<open>
  The commands that resize containers and change borders and gaps (src/commands.c).  Percentages
  are \<open>double\<close> in the code and exact rationals here.
\<close>

section \<open>Floating windows\<close>

definition resize_direction :: "string \<Rightarrow> direction option" where
  "resize_direction str =
     (if str = ''height'' then Some D_DOWN else if str = ''width'' then Some D_RIGHT else parse_direction str)"

text \<open>A step smaller than the increment of the window is enlarged to it.\<close>

definition enlarge_step :: "int \<Rightarrow> int \<Rightarrow> int" where
  "enlarge_step inc px =
     (if px < 0 then (if - px < inc then - inc else px) else (if px < inc then inc else px))"

definition cmd_resize_floating :: "world \<Rightarrow> string \<Rightarrow> con_id \<Rightarrow> int \<Rightarrow> i3 \<Rightarrow> i3 option" where
  "cmd_resize_floating w direction_str c px s = do {
     let old = con_rect (heap s c);
     f \<leftarrow> con_descend_focused s c;
     d \<leftarrow> resize_direction direction_str;
     let vertical = (orientation_from_direction d = VERT);
     let px = (case con_window (heap s f) of None \<Rightarrow> px
               | Some win \<Rightarrow> enlarge_step (if vertical then height_increment win else width_increment win) px);
     let s = upd c (\<lambda>n. n\<lparr>con_rect :=
               (if vertical then (con_rect n)\<lparr>rheight := rheight (con_rect n) + of_int px\<rparr>
                else (con_rect n)\<lparr>rwidth := rwidth (con_rect n) + of_int px\<rparr>)\<rparr>) s;
     s \<leftarrow> floating_check_size (the_env w) c vertical s;
     let r = con_rect (heap s c);
     if rect_equals old r then Some s
     else do {
       let r' = (if d = D_UP then r\<lparr>ry := ry r - (rheight r - rheight old)\<rparr>
                 else if d = D_LEFT then r\<lparr>rx := rx r - (rwidth r - rwidth old)\<rparr> else r);
       Some (scratchpad_touched c (upd c (\<lambda>n. n\<lparr>con_rect := r'\<rparr>) s)) }
   }"

section \<open>Tiling windows\<close>

definition cmd_resize_tiling_direction :: "con_id \<Rightarrow> string \<Rightarrow> int \<Rightarrow> int \<Rightarrow> cmd_state \<Rightarrow> (bool \<times> cmd_state) option" where
  "cmd_resize_tiling_direction c direction px ppt st = do {
     d \<leftarrow> parse_direction direction;
     (ok, first, second) \<leftarrow> resize_find_tiling_participants (wm st) (Some c) None d False;
     if \<not> ok then Some (False, yerror ''No second container found in this direction.'' st)
     else do {
       first \<leftarrow> first;
       second \<leftarrow> second;
       (done, s) \<leftarrow> resize_neighboring_cons first second (if ppt \<noteq> 0 then 0 else px) ppt (wm st);
       Some (done, st\<lparr>wm := s\<rparr>) }
   }"

text \<open>
  \<open>resize grow width\<close> takes the same share from each sibling.  A division by zero is \<open>None\<close>.  The
  shares are tested in the order of the siblings, but only the result is visible.
\<close>

definition default_percents :: "con_id \<Rightarrow> i3 \<Rightarrow> i3" where
  "default_percents p s =
     fold (\<lambda>d. upd d (\<lambda>n. if percent n = 0 then n\<lparr>percent := 1 / of_nat (con_num_children s p)\<rparr> else n))
       (nodes_head (heap s p)) s"

definition too_small :: "i3 \<Rightarrow> con_id \<Rightarrow> rat \<Rightarrow> con_id \<Rightarrow> bool option" where
  "too_small s c q d =
     (if d = c then Some False
      else map_option (\<lambda>m. percent (heap s d) - q < m) (percent_for_1px s d))"

definition take_share :: "con_id \<Rightarrow> con_id \<Rightarrow> rat \<Rightarrow> rat \<Rightarrow> i3 \<Rightarrow> i3" where
  "take_share p c new q s =
     fold (\<lambda>d. if d = c then id else upd d (\<lambda>n. n\<lparr>percent := percent n - q\<rparr>)) (nodes_head (heap s p))
       (upd c (\<lambda>n. n\<lparr>percent := new\<rparr>) s)"

definition resize_share :: "con_id \<Rightarrow> con_id \<Rightarrow> rat \<Rightarrow> cmd_state \<Rightarrow> (bool \<times> cmd_state) option" where
  "resize_share p c ppt st = do {
     let s = default_percents p (wm st);
     let st = st\<lparr>wm := s\<rparr>;
     let new = percent (heap s c) + ppt;
     q \<leftarrow> (if con_num_children s p = 1 then None else Some (ppt / (of_nat (con_num_children s p) - 1)));
     m \<leftarrow> (if ppt < 0 then percent_for_1px s c else Some 0);
     if ppt < 0 \<and> new < m then Some (False, yerror ''Not resizing, container would end with less than 1px'' st)
     else do {
       small \<leftarrow> (if q \<ge> 0 then exists_opt (too_small s c q) (nodes_head (heap s p)) else Some False);
       if small then Some (False, yerror ''Not resizing, already at minimum size'' st)
       else Some (True, st\<lparr>wm := take_share p c new q s\<rparr>) }
   }"

definition cmd_resize_tiling_width_height ::
  "con_id \<Rightarrow> string \<Rightarrow> int \<Rightarrow> rat \<Rightarrow> cmd_state \<Rightarrow> (bool \<times> cmd_state) option" where
  "cmd_resize_tiling_width_height c direction px ppt st = do {
     let s = wm st;
     (ok, current, other) \<leftarrow>
       resize_find_tiling_participants s (Some c) None (if direction = ''width'' then D_LEFT else D_DOWN) True;
     if \<not> ok then Some (False, yerror ''Failed to find appropriate tiling containers for resize operation'' st)
     else do {
       c \<leftarrow> current;
       p \<leftarrow> parent (heap s c);
       ppt \<leftarrow> (if ppt \<noteq> 0 then Some ppt
              else do {
                size \<leftarrow> con_rect_size_in_orientation s p;
                if size = 0 then None else Some (of_int px / of_int (uint size)) });
       resize_share p c ppt st }
   }"

section \<open>resize grow and shrink\<close>

text \<open>The loop returns at the first failure.\<close>

definition is_dock_window :: "i3 \<Rightarrow> con_id \<Rightarrow> bool" where
  "is_dock_window s c \<longleftrightarrow> (case con_window (heap s c) of None \<Rightarrow> False | Some win \<Rightarrow> win_dock win \<noteq> W_NODOCK)"

definition resize_one :: "world \<Rightarrow> string \<Rightarrow> int \<Rightarrow> int \<Rightarrow> con_id \<Rightarrow> cmd_state \<Rightarrow> (bool \<times> cmd_state) option" where
  "resize_one w direction px ppt c st = do {
     c \<leftarrow> deref (wm st) c;
     if is_dock_window (wm st) c then Some (True, st)
     else do {
       fc \<leftarrow> con_inside_floating (wm st) c;
       (case fc of
          Some f \<Rightarrow> map_option (Pair True) (on_wm (cmd_resize_floating w direction f px) st)
        | None \<Rightarrow>
            if direction = ''width'' \<or> direction = ''height''
            then cmd_resize_tiling_width_height c direction px (of_int ppt / 100) st
            else cmd_resize_tiling_direction c direction px ppt st) }
   }"

fun resize_loop :: "world \<Rightarrow> string \<Rightarrow> int \<Rightarrow> int \<Rightarrow> con_id list \<Rightarrow> cmd" where
  "resize_loop w direction px ppt [] st = Some (render_reply True st)"
| "resize_loop w direction px ppt (c # cs) st = do {
     (ok, st) \<leftarrow> resize_one w direction px ppt c st;
     if ok then resize_loop w direction px ppt cs st else Some (yerror ''Cannot resize.'' st)
   }"

definition cmd_resize :: "world \<Rightarrow> string \<Rightarrow> string \<Rightarrow> int \<Rightarrow> int \<Rightarrow> cmd" where
  "cmd_resize w way direction px ppt =
     (let sgn = (if way = ''shrink'' then -1 else 1)
      in handle_empty_match (\<lambda>st. resize_loop w direction (sgn * px) (sgn * ppt) (owindows st) st))"

section \<open>resize set\<close>

text \<open>
  The result of the first search is ignored; it has moved \<open>target\<close> to the container it reached.
\<close>

definition resize_set_tiling ::
  "con_id \<Rightarrow> orientation \<Rightarrow> bool \<Rightarrow> int \<Rightarrow> cmd_state \<Rightarrow> (bool \<times> cmd_state) option" where
  "resize_set_tiling target ori is_ppt wanted st = do {
     let s = wm st;
     (ok, t, other) \<leftarrow>
       resize_find_tiling_participants s (Some target) None (if ori = HORIZ then D_LEFT else D_DOWN) True;
     t \<leftarrow> t;
     let now = (if ori = HORIZ then rwidth (con_rect (heap s t)) else rheight (con_rect (heap s t)));
     cmd_resize_tiling_width_height t (if ori = HORIZ then ''width'' else ''height'')
       (if is_ppt then 0 else wanted - uint now)
       (if is_ppt then of_int wanted / 100 - percent (heap s t) else 0) st
   }"

text \<open>
  The size of a floating window: 0 stands for its present size, a percentage is one of the output.
  The result replaces the argument for the containers that follow.
\<close>

definition wanted_size :: "int \<Rightarrow> cstr \<Rightarrow> u32 \<Rightarrow> u32 \<Rightarrow> int" where
  "wanted_size v mode now area =
     (if v = 0 then uint now
      else if mode = Some ''ppt'' then trunc (of_int (uint area) * (of_int v / 100))
      else v)"

definition resize_set_floating :: "world \<Rightarrow> cstr \<Rightarrow> cstr \<Rightarrow> con_id \<Rightarrow> int \<Rightarrow> int \<Rightarrow> i3 \<Rightarrow> (int \<times> int \<times> i3) option" where
  "resize_set_floating w mode_width mode_height f cwidth cheight s = do {
     out \<leftarrow> con_get_output s f;
     let r = con_rect (heap s f);
     let area = con_rect (heap s out);
     let cwidth = wanted_size cwidth mode_width (rwidth r) (rwidth area);
     let cheight = wanted_size cheight mode_height (rheight r) (rheight area);
     s \<leftarrow> floating_resize (the_env w) f (of_int cwidth) (of_int cheight) s;
     Some (cwidth, cheight, s)
   }"

definition resize_set_tilings ::
  "cstr \<Rightarrow> cstr \<Rightarrow> con_id \<Rightarrow> int \<Rightarrow> int \<Rightarrow> cmd_state \<Rightarrow> (bool \<times> cmd_state) option" where
  "resize_set_tilings mode_width mode_height c cwidth cheight st = do {
     (ok1, st) \<leftarrow> (if cwidth > 0 then resize_set_tiling c HORIZ (mode_width = Some ''ppt'') cwidth st else Some (True, st));
     (ok2, st) \<leftarrow> (if cheight > 0 then resize_set_tiling c VERT (mode_height = Some ''ppt'') cheight st else Some (True, st));
     Some (ok1 \<and> ok2, st)
   }"

fun resize_set_loop ::
  "world \<Rightarrow> cstr \<Rightarrow> cstr \<Rightarrow> int \<Rightarrow> int \<Rightarrow> bool \<Rightarrow> con_id list \<Rightarrow> cmd" where
  "resize_set_loop w mode_width mode_height cwidth cheight success [] st = Some (render_reply success st)"
| "resize_set_loop w mode_width mode_height cwidth cheight success (c # cs) st = do {
     c \<leftarrow> deref (wm st) c;
     fc \<leftarrow> con_inside_floating (wm st) c;
     (case fc of
        Some f \<Rightarrow> do {
          (cw, ch, s) \<leftarrow> resize_set_floating w mode_width mode_height f cwidth cheight (wm st);
          resize_set_loop w mode_width mode_height cw ch success cs (st\<lparr>wm := s\<rparr>) }
      | None \<Rightarrow>
          if is_dock_window (wm st) c
          then resize_set_loop w mode_width mode_height cwidth cheight success cs st
          else do {
            (ok, st) \<leftarrow> resize_set_tilings mode_width mode_height c cwidth cheight st;
            resize_set_loop w mode_width mode_height cwidth cheight (success \<and> ok) cs st })
   }"

definition cmd_resize_set :: "world \<Rightarrow> int \<Rightarrow> cstr \<Rightarrow> int \<Rightarrow> cstr \<Rightarrow> cmd" where
  "cmd_resize_set w cwidth mode_width cheight mode_height st =
     (if cwidth < 0 \<or> cheight < 0 then Some (yerror ''Dimensions cannot be negative.'' st)
      else handle_empty_match (\<lambda>st. resize_set_loop w mode_width mode_height cwidth cheight True (owindows st) st) st)"

section \<open>Borders\<close>

definition border_width_from_style :: "world \<Rightarrow> border_style \<Rightarrow> int \<Rightarrow> i3 \<Rightarrow> con_id \<Rightarrow> int option" where
  "border_width_from_style w style width s c =
     (if style = BS_NONE then Some 0
      else if width \<ge> 0 then Some (logical_px w width)
      else do {
        fc \<leftarrow> con_inside_floating s c;
        let is_floating = (fc \<noteq> None);
        Some (if is_floating \<and> style = default_floating_border (cfg s) then default_floating_border_width (cfg s)
              else if \<not> is_floating \<and> style = default_border (cfg s) then default_border_width (cfg s)
              else logical_px w (if style = BS_NORMAL then 2 else 1)) })"

fun next_border_style :: "border_style \<Rightarrow> border_style" where
  "next_border_style BS_NONE = BS_PIXEL"
| "next_border_style BS_PIXEL = BS_NORMAL"
| "next_border_style BS_NORMAL = BS_NONE"

definition parse_border_style :: "string \<Rightarrow> border_style \<Rightarrow> border_style option" where
  "parse_border_style str now =
     (if str = ''toggle'' then Some (next_border_style now)
      else if str = ''normal'' then Some BS_NORMAL
      else if str = ''pixel'' then Some BS_PIXEL
      else if str = ''none'' then Some BS_NONE else None)"

fun border_loop :: "world \<Rightarrow> string \<Rightarrow> int \<Rightarrow> con_id list \<Rightarrow> cmd" where
  "border_loop w str width [] st = Some (render_reply True st)"
| "border_loop w str width (c # cs) st = do {
     c \<leftarrow> deref (wm st) c;
     (case parse_border_style str (con_border_style_field (heap (wm st) c)) of
        None \<Rightarrow> Some (yerror (''BUG: called with border_style='' @ str) st)
      | Some style \<Rightarrow> do {
          let s = upd c (\<lambda>n. n\<lparr>max_user_border_style := style\<rparr>) (wm st);
          bw \<leftarrow> border_width_from_style w style width s c;
          s \<leftarrow> con_set_border_style c style bw s;
          border_loop w str width cs (st\<lparr>wm := s\<rparr>) })
   }"

definition cmd_border :: "world \<Rightarrow> string \<Rightarrow> int \<Rightarrow> cmd" where
  "cmd_border w str width = handle_empty_match (\<lambda>st. border_loop w str width (owindows st) st)"

section \<open>Gaps\<close>

datatype gap = GAP_INNER | GAP_TOP | GAP_LEFT | GAP_BOTTOM | GAP_RIGHT

fun gap_get :: "gap \<Rightarrow> gaps \<Rightarrow> int" where
  "gap_get GAP_INNER g = g_inner g"
| "gap_get GAP_TOP g = g_top g"
| "gap_get GAP_LEFT g = g_left g"
| "gap_get GAP_BOTTOM g = g_bottom g"
| "gap_get GAP_RIGHT g = g_right g"

fun gap_set :: "gap \<Rightarrow> int \<Rightarrow> gaps \<Rightarrow> gaps" where
  "gap_set GAP_INNER v g = g\<lparr>g_inner := v\<rparr>"
| "gap_set GAP_TOP v g = g\<lparr>g_top := v\<rparr>"
| "gap_set GAP_LEFT v g = g\<lparr>g_left := v\<rparr>"
| "gap_set GAP_BOTTOM v g = g\<lparr>g_bottom := v\<rparr>"
| "gap_set GAP_RIGHT v g = g\<lparr>g_right := v\<rparr>"

text \<open>The new value and whether the gaps of the workspaces are reset.\<close>

definition gaps_value :: "string \<Rightarrow> int \<Rightarrow> int \<Rightarrow> (int \<times> bool) option" where
  "gaps_value mode pixels v =
     (if mode = ''plus'' then Some (v + pixels, False)
      else if mode = ''minus'' then Some (v - pixels, False)
      else if mode = ''set'' then Some (pixels, True)
      else if mode = ''toggle'' then Some ((if v = 0 then 1 else 0) * pixels, True)
      else None)"

text \<open>What a workspace's own gap becomes when the global one changes to \<open>v\<close>.\<close>

definition fix_gap :: "bool \<Rightarrow> int \<Rightarrow> int \<Rightarrow> int \<Rightarrow> int" where
  "fix_gap reset v compensate g =
     (if reset then 0 else if g + v + compensate < 0 then - v - compensate else g)"

definition gaps_update_all :: "gap \<Rightarrow> bool \<Rightarrow> int \<Rightarrow> i3 \<Rightarrow> i3 option" where
  "gaps_update_all g reset v s = do {
     let compensate = (if g \<noteq> GAP_INNER then g_inner (cfg_gaps (cfg s)) else 0);
     s \<leftarrow> fold_opt (\<lambda>out s. do {
         content \<leftarrow> output_get_content s out;
         Some (fold (\<lambda>ws. upd ws (\<lambda>n. n\<lparr>con_gaps := gap_set g (fix_gap reset v compensate (gap_get g (con_gaps n))) (con_gaps n)\<rparr>))
                 (nodes_head (heap s content)) s) }) (nodes_head (heap s (croot s))) s;
     Some (s\<lparr>cfg := (cfg s)\<lparr>cfg_gaps := gap_set g v (cfg_gaps (cfg s))\<rparr>\<rparr>)
   }"

definition gaps_update :: "gap \<Rightarrow> string \<Rightarrow> string \<Rightarrow> int \<Rightarrow> i3 \<Rightarrow> (bool \<times> i3) option" where
  "gaps_update g scope mode pixels s = do {
     f \<leftarrow> focused s;
     ws \<leftarrow> con_get_workspace s f;
     let glob = gap_get g (cfg_gaps (cfg s));
     own \<leftarrow> (if scope = ''current'' then do { w \<leftarrow> ws; Some (gap_get g (con_gaps (heap s w))) } else Some 0);
     (case gaps_value mode pixels (glob + own) of
        None \<Rightarrow> Some (False, s)
      | Some (v, reset) \<Rightarrow> do {
          let inner = g_inner (cfg_gaps (cfg s));
          least \<leftarrow> (if g = GAP_INNER then Some 0
                   else if scope = ''all'' then Some (- inner)
                   else do { w \<leftarrow> ws; Some (- inner - g_inner (con_gaps (heap s w))) });
          let v = max v least;
          if scope = ''all'' then map_option (Pair True) (gaps_update_all g reset v s)
          else do {
            w \<leftarrow> ws;
            Some (True, upd w (\<lambda>n. n\<lparr>con_gaps := gap_set g (v - glob) (con_gaps n)\<rparr>) s) } })
   }"

fun gaps_updates :: "(gap \<times> string \<times> string \<times> int) list \<Rightarrow> i3 \<Rightarrow> (bool \<times> i3) option" where
  "gaps_updates [] s = Some (True, s)"
| "gaps_updates ((g, scope, mode, pixels) # us) s = do {
     (ok, s) \<leftarrow> gaps_update g scope mode pixels s;
     if ok then gaps_updates us s else Some (False, s)
   }"

text \<open>The sides a type stands for; the outer gaps are adjusted after a change of the inner ones.\<close>

definition gap_sides :: "string \<Rightarrow> gap list option" where
  "gap_sides ty =
     (if ty = ''inner'' then Some [GAP_INNER]
      else if ty = ''outer'' then Some [GAP_TOP, GAP_BOTTOM, GAP_RIGHT, GAP_LEFT]
      else if ty = ''vertical'' then Some [GAP_TOP, GAP_BOTTOM]
      else if ty = ''horizontal'' then Some [GAP_RIGHT, GAP_LEFT]
      else if ty = ''top'' then Some [GAP_TOP]
      else if ty = ''bottom'' then Some [GAP_BOTTOM]
      else if ty = ''right'' then Some [GAP_RIGHT]
      else if ty = ''left'' then Some [GAP_LEFT] else None)"

definition gap_changes :: "string \<Rightarrow> string \<Rightarrow> string \<Rightarrow> int \<Rightarrow> (gap \<times> string \<times> string \<times> int) list option" where
  "gap_changes ty scope mode pixels =
     map_option (\<lambda>gs. map (\<lambda>g. (g, scope, mode, pixels)) gs @
       (if ty = ''inner'' then map (\<lambda>g. (g, ''all'', ''plus'', 0)) [GAP_TOP, GAP_BOTTOM, GAP_RIGHT, GAP_LEFT] else []))
       (gap_sides ty)"

text \<open>\<open>atoi\<close>: the leading number, 0 without one.\<close>

definition atoi :: "string \<Rightarrow> int" where
  "atoi s = (let r = strtol 10 s in if num_rest r = s then 0 else num_value r)"

definition cmd_gaps :: "world \<Rightarrow> string \<Rightarrow> string \<Rightarrow> string \<Rightarrow> string \<Rightarrow> cmd" where
  "cmd_gaps w ty scope mode v st =
     (case gap_changes ty scope mode (logical_px w (atoi v)) of
        None \<Rightarrow> Some (ysuccess False st)
      | Some us \<Rightarrow> do {
          (ok, s) \<leftarrow> gaps_updates us (wm st);
          let st = st\<lparr>wm := s\<rparr>;
          Some (if ok then render_reply True st else ysuccess False st) })"

end
