(* ===== verification/Cmd_Misc.thy ===== *)
theory Cmd_Misc
  imports Cmd_Resize Format
begin

text \<open>
  The remaining commands (src/commands.c): marks, focus, layout, splitting, floating, fullscreen,
  sticky, closing, swapping, titles, bars, logging and starting programs.  Not modelled:
  \<open>append_layout\<close> and \<open>reload\<close> read files, \<open>exit\<close> and \<open>restart\<close> do not return.
\<close>

section \<open>Marks\<close>

definition cmd_mark :: "string \<Rightarrow> cstr \<Rightarrow> cstr \<Rightarrow> cmd" where
  "cmd_mark mark mode toggle = handle_empty_match (\<lambda>st.
     case owindows st of
       [] \<Rightarrow> Some (yerror ''Given criteria do not match a window'' st)
     | c # c' # cs \<Rightarrow> Some (yerror ''A mark must not be put onto more than one window'' st)
     | [c] \<Rightarrow> do {
         c \<leftarrow> deref (wm st) c;
         let m = (if mode = None \<or> mode = Some ''--replace'' then MM_REPLACE else MM_ADD);
         st \<leftarrow> on_wm (if toggle \<noteq> None then con_mark_toggle c mark m else con_mark c mark m) st;
         Some (render_reply True st) })"

definition cmd_unmark :: "cstr \<Rightarrow> cmd" where
  "cmd_unmark mark st =
     (if match_is_empty (current_match st)
      then Some (render_reply True (st\<lparr>wm := con_unmark None mark (wm st)\<rparr>))
      else map_option (render_reply True) (each_match_wm (\<lambda>c s. Some (con_unmark (Some c) mark s)) st))"

section \<open>Programs, modes, logging\<close>

definition cmd_nop :: cmd where
  "cmd_nop st = Some (ysuccess True st)"

definition cmd_mode :: "string \<Rightarrow> cmd" where
  "cmd_mode mode st = Some (ysuccess True (st\<lparr>wm := emit (Switch_Mode mode) (wm st)\<rparr>))"

text \<open>The program is started once for every container selected.\<close>

definition cmd_exec :: "cstr \<Rightarrow> string \<Rightarrow> cmd" where
  "cmd_exec nosn command = handle_empty_match (\<lambda>st.
     Some (ysuccess True (st\<lparr>wm := fold (\<lambda>c. emit (Exec command (nosn \<noteq> None))) (owindows st) (wm st)\<rparr>)))"

definition cmd_shmlog :: "world \<Rightarrow> string \<Rightarrow> cmd" where
  "cmd_shmlog w arg st =
     (let set = (\<lambda>n. Some (ysuccess True (st\<lparr>shmlog_size := n, wm := emit (Update_Shmlog n) (wm st)\<rparr>)))
      in if arg = ''toggle'' then set (if shmlog_size st \<noteq> 0 then - shmlog_size st else default_shmlog_size w)
         else if arg = ''on'' then set (default_shmlog_size w)
         else if arg = ''off'' then set 0
         else (case parse_long arg 0 of
                 (False, _) \<Rightarrow> Some (yerror ''Failed to parse into a shmlog size.'' st)
               | (True, n) \<Rightarrow> set n))"

definition cmd_debuglog :: "string \<Rightarrow> cmd" where
  "cmd_debuglog arg st =
     Some (ysuccess True (st\<lparr>debug_logging :=
       (if arg = ''toggle'' then \<not> debug_logging st
        else if arg = ''on'' then True
        else if arg = ''off'' then False else debug_logging st)\<rparr>))"

section \<open>Layers, splits, closing\<close>

definition cmd_floating :: "world \<Rightarrow> string \<Rightarrow> cmd" where
  "cmd_floating w mode = handle_empty_match (\<lambda>st. map_option (render_reply True)
     (each_match_wm (\<lambda>c.
        if mode = ''toggle'' then toggle_floating_mode (the_env w) c False
        else if mode = ''enable'' then (\<lambda>s. map_option snd (floating_enable (the_env w) c False s))
        else floating_disable c) st))"

definition split_one :: "string \<Rightarrow> con_id \<Rightarrow> i3 \<Rightarrow> i3 option" where
  "split_one direction c s = do {
     docked \<leftarrow> con_is_docked s c;
     if docked then Some s
     else do {
       d \<leftarrow> list_first direction;
       if d = CHR ''t'' then do {
         l \<leftarrow> (if con_type (heap s c) = CT_WORKSPACE then Some (layout (heap s c))
              else map_option (\<lambda>p. layout (heap s p)) (parent (heap s c)));
         tree_split c (if l = L_SPLITH then VERT else HORIZ) s }
       else tree_split c (if d = CHR ''v'' then VERT else HORIZ) s }
   }"

definition cmd_split :: "string \<Rightarrow> cmd" where
  "cmd_split direction = handle_empty_match (\<lambda>st.
     map_option (render_reply True) (each_match_wm (split_one direction) st))"

definition cmd_kill :: "cstr \<Rightarrow> cmd" where
  "cmd_kill mode st =
     (let mode = (case mode of None \<Rightarrow> ''window'' | Some m \<Rightarrow> m);
          go = (\<lambda>k. handle_empty_match (\<lambda>st. map_option (render_reply True) (each_match_wm (\<lambda>c. con_close c k) st)) st)
      in if mode = ''window'' then go KILL_WINDOW
         else if mode = ''client'' then go KILL_CLIENT
         else Some (yerror (''BUG: called with kill_mode='' @ mode) st))"

definition fullscreen_one :: "string \<Rightarrow> fullscreen_mode \<Rightarrow> con_id \<Rightarrow> i3 \<Rightarrow> i3 option" where
  "fullscreen_one action m c s =
     (if action = ''toggle'' then con_toggle_fullscreen workspace_show c m s
      else if action = ''enable'' then con_enable_fullscreen workspace_show c m s
      else if action = ''disable'' then Some (con_disable_fullscreen c s)
      else Some s)"

definition cmd_fullscreen :: "string \<Rightarrow> string \<Rightarrow> cmd" where
  "cmd_fullscreen action mode = handle_empty_match (\<lambda>st. map_option (render_reply True)
     (each_match_wm (fullscreen_one action (if mode = ''global'' then CF_GLOBAL else CF_OUTPUT)) st))"

definition sticky_one :: "string \<Rightarrow> con_id \<Rightarrow> i3 \<Rightarrow> i3 option" where
  "sticky_one action c s =
     (case con_window (heap s c) of
        None \<Rightarrow> Some s
      | Some win \<Rightarrow>
          (let b = (action = ''enable'' \<or> (action \<noteq> ''disable'' \<and> action = ''toggle'' \<and> \<not> sticky (heap s c)))
           in Some (emit (Ewmh_Update_Sticky (win_id win) b) (upd c (\<lambda>n. n\<lparr>sticky := b\<rparr>) s))))"

definition cmd_sticky :: "string \<Rightarrow> cmd" where
  "cmd_sticky action = handle_empty_match (\<lambda>st. do {
     st \<leftarrow> each_match_wm (sticky_one action) st;
     st \<leftarrow> on_wm (\<lambda>s. output_push_sticky_windows (focused s) s) st;
     Some (render_reply True (st\<lparr>wm := emit Ewmh_Update_Wm_Desktop (wm st)\<rparr>)) })"

section \<open>Layouts\<close>

definition layout_one :: "layout \<Rightarrow> con_id \<Rightarrow> i3 \<Rightarrow> i3 option" where
  "layout_one l c s = do {
     docked \<leftarrow> con_is_docked s c;
     if docked then Some s else con_set_layout c l s
   }"

definition cmd_layout :: "string \<Rightarrow> cmd" where
  "cmd_layout layout_str = handle_empty_match (\<lambda>st.
     case layout_from_name layout_str of
       None \<Rightarrow> Some (yerror ''Unknown layout, this is a mismatch between code and parser spec.'' st)
     | Some l \<Rightarrow> map_option (render_reply True) (each_match_wm (layout_one l) st))"

definition cmd_layout_toggle :: "cstr \<Rightarrow> cmd" where
  "cmd_layout_toggle mode st =
     (let m = (case mode of None \<Rightarrow> ''default'' | Some m \<Rightarrow> m)
      in map_option (render_reply True)
           (if match_is_empty (current_match st)
            then do { f \<leftarrow> focused (wm st); on_wm (con_toggle_layout f m) st }
            else each_match_wm (\<lambda>c. con_toggle_layout c m) st))"

section \<open>Focus\<close>

text \<open>Containers without a workspace and those on internal ones are skipped.\<close>

definition on_workspace :: "(con_id \<Rightarrow> i3 \<Rightarrow> i3 option) \<Rightarrow> con_id \<Rightarrow> i3 \<Rightarrow> i3 option" where
  "on_workspace f c s = do {
     ws \<leftarrow> con_get_workspace s c;
     (case ws of
        None \<Rightarrow> Some s
      | Some ws \<Rightarrow> do {
          hidden \<leftarrow> con_is_internal s ws;
          if hidden then Some s else f c s })
   }"

definition focus_direction_one :: "world \<Rightarrow> position + direction \<Rightarrow> con_id \<Rightarrow> i3 \<Rightarrow> i3 option" where
  "focus_direction_one w goal = on_workspace (\<lambda>c s. do {
     d \<leftarrow> (case goal of
            Inr d \<Rightarrow> Some d
          | Inl pos \<Rightarrow> do {
              p \<leftarrow> parent (heap s c);
              ori \<leftarrow> con_orientation s p;
              Some (direction_from_orientation_position ori pos) });
     tree_next (the_env w) c d s })"

definition parse_focus_goal :: "string \<Rightarrow> (position + direction) option" where
  "parse_focus_goal str =
     (if str = ''prev'' then Some (Inl BEFORE) else if str = ''next'' then Some (Inl AFTER)
      else map_option Inr (parse_direction str))"

definition cmd_focus_direction :: "world \<Rightarrow> string \<Rightarrow> cmd" where
  "cmd_focus_direction w str = handle_empty_match (\<lambda>st. do {
     goal \<leftarrow> parse_focus_goal str;
     st \<leftarrow> each_match_wm (focus_direction_one w goal) st;
     Some (render_reply True st) })"

definition focus_sibling_one :: "position \<Rightarrow> con_id \<Rightarrow> i3 \<Rightarrow> i3 option" where
  "focus_sibling_one pos = on_workspace (\<lambda>c s. do {
     r \<leftarrow> get_tree_next_sibling s c pos;
     (case r of
        None \<Rightarrow> Some s
      | Some d \<Rightarrow>
          if con_type (heap s d) = CT_WORKSPACE
          then do { s \<leftarrow> workspace_show d s; d \<leftarrow> deref s d; con_focus d s }
          else con_activate d s) })"

text \<open>\<open>STARTS_WITH\<close> ignores case.\<close>

definition cmd_focus_sibling :: "string \<Rightarrow> cmd" where
  "cmd_focus_sibling str = handle_empty_match (\<lambda>st. map_option (render_reply True)
     (each_match_wm (focus_sibling_one (if strcasecmp (take 4 str) ''prev'' = 0 then BEFORE else AFTER)) st))"

definition wants_floating :: "string \<Rightarrow> i3 \<Rightarrow> bool option" where
  "wants_floating mode s =
     (if mode = ''mode_toggle'' then do { f \<leftarrow> focused s; r \<leftarrow> con_inside_floating s f; Some (r = None) }
      else Some (mode = ''floating''))"

definition cmd_focus_window_mode :: "string \<Rightarrow> cmd" where
  "cmd_focus_window_mode mode st = do {
     let s = wm st;
     fl \<leftarrow> wants_floating mode s;
     f \<leftarrow> focused s;
     ws \<leftarrow> con_get_workspace s f;
     ws \<leftarrow> ws;
     (case List.find (\<lambda>c. (con_type (heap s c) = CT_FLOATING_CON) = fl) (focus_head (heap s ws)) of
        None \<Rightarrow> Some (yerror (''Failed to find a '' @ (if fl then ''floating'' else ''tiling'') @ '' container in workspace.'') st)
      | Some c \<Rightarrow> do {
          d \<leftarrow> con_descend_focused s c;
          st \<leftarrow> on_wm (con_activate_unblock d) st;
          Some (render_reply True st) })
   }"

definition cmd_focus_level :: "string \<Rightarrow> cmd" where
  "cmd_focus_level level st = do {
     let s = wm st;
     (ok, s) \<leftarrow> (if level = ''parent'' then
           (case focused s of
              None \<Rightarrow> Some (False, s)
            | Some f \<Rightarrow>
                (case parent (heap s f) of
                   None \<Rightarrow> Some (False, s)
                 | Some p \<Rightarrow> do {
                     permitted \<leftarrow> con_fullscreen_permits_focusing s p;
                     if permitted then level_up s else Some (False, s) }))
         else level_down s);
     Some (ysuccess ok (st\<lparr>wm := s, needs_tree_render := ok\<rparr>))
   }"

text \<open>The loop ends at the first container of the scratchpad that is shown.\<close>

fun focus_loop_cmd :: "world \<Rightarrow> bool \<Rightarrow> con_id \<Rightarrow> con_id list \<Rightarrow> i3 \<Rightarrow> i3 option" where
  "focus_loop_cmd w focus_workspace scratch [] s = Some s"
| "focus_loop_cmd w focus_workspace scratch (c # cs) s = do {
     c \<leftarrow> deref s c;
     ws \<leftarrow> con_get_workspace s c;
     (case ws of
        None \<Rightarrow> focus_loop_cmd w focus_workspace scratch cs s
      | Some ws \<Rightarrow>
          if ws = scratch \<and> \<not> focus_workspace then map_option snd (scratchpad_show (the_env w) (Some c) s)
          else if focus_workspace then do {
            (target, s) \<leftarrow> maybe_auto_back_and_forth_workspace w ws s;
            s \<leftarrow> workspace_show target s;
            focus_loop_cmd w focus_workspace scratch cs s }
          else do {
            s \<leftarrow> con_activate_unblock c s;
            focus_loop_cmd w focus_workspace scratch cs s })
   }"

definition cmd_focus :: "world \<Rightarrow> bool \<Rightarrow> cmd" where
  "cmd_focus w focus_workspace st =
     (if match_is_empty (current_match st)
      then Some (yerror ''You have to specify which window/container should be focused'' st)
      else if owindows st = [] then Some (yerror ''No window matches given criteria'' st)
      else do {
        (scratch, s) \<leftarrow> workspace_get (the_env w) ''__i3_scratch'' (wm st);
        s \<leftarrow> focus_loop_cmd w focus_workspace scratch (owindows st) s;
        Some (render_reply True (st\<lparr>wm := s\<rparr>)) })"

definition cmd_open :: cmd where
  "cmd_open st = do {
     (c, s) \<leftarrow> tree_open_con None None (wm st);
     s \<leftarrow> con_activate c (upd c (\<lambda>n. n\<lparr>layout := L_SPLITH\<rparr>) s);
     Some (reply (R_Opened c) (st\<lparr>wm := s, needs_tree_render := True\<rparr>))
   }"

section \<open>Scratchpad and swapping\<close>

definition cmd_move_scratchpad :: "world \<Rightarrow> cmd" where
  "cmd_move_scratchpad w = handle_empty_match (\<lambda>st.
     map_option (render_reply True) (each_match_wm (scratchpad_move (the_env w)) st))"

definition cmd_scratchpad_show :: "world \<Rightarrow> cmd" where
  "cmd_scratchpad_show w st = do {
     (ok, s) \<leftarrow> (if match_is_empty (current_match st) then scratchpad_show (the_env w) None (wm st)
           else fold_opt (\<lambda>c (ok, s). do {
                  c \<leftarrow> deref s c;
                  (b, s) \<leftarrow> scratchpad_show (the_env w) (Some c) s;
                  Some (ok \<or> b, s) }) (owindows st) (False, wm st));
     Some (render_reply ok (st\<lparr>wm := s\<rparr>))
   }"

text \<open>The container to swap with; window identifiers have 32 bits.\<close>

definition swap_target :: "string \<Rightarrow> string \<Rightarrow> i3 \<Rightarrow> string + con_id option" where
  "swap_target mode arg s =
     (if mode = ''id'' then
        (case parse_long arg 0 of
           (False, _) \<Rightarrow> Inl ''Failed to parse into a window id.''
         | (True, n) \<Rightarrow> Inr (con_by_window_id s (nat (n mod 2 ^ 32))))
      else if mode = ''con_id'' then
        (case parse_long arg 0 of
           (False, _) \<Rightarrow> Inl ''Failed to parse into a container id.''
         | (True, n) \<Rightarrow> Inr (if n < 0 then None else con_by_con_id s (nat n)))
      else if mode = ''mark'' then Inr (con_by_mark s arg)
      else Inl ''Unhandled swap mode. This is a bug.'')"

definition cmd_swap :: "string \<Rightarrow> string \<Rightarrow> cmd" where
  "cmd_swap mode arg = handle_empty_match (\<lambda>st.
     case owindows st of
       [] \<Rightarrow> Some (yerror ''No match found for swapping.'' st)
     | c # cs \<Rightarrow>
         (case swap_target mode arg (wm st) of
            Inl msg \<Rightarrow> Some (yerror msg st)
          | Inr None \<Rightarrow> Some (yerror (''Could not find container for '' @ mode @ '' = '' @ arg) st)
          | Inr (Some d) \<Rightarrow> do {
              c \<leftarrow> deref (wm st) c;
              (ok, s) \<leftarrow> con_swap c d (wm st);
              Some (render_reply ok (st\<lparr>wm := s\<rparr>)) }))"

section \<open>Titles\<close>

definition title_placeholders :: "world \<Rightarrow> i3 \<Rightarrow> con_id \<Rightarrow> placeholder list option" where
  "title_placeholders w s c =
     (let text = (\<lambda>v. escape_markup w (case v of None \<Rightarrow> '''' | Some x \<Rightarrow> x));
          ph = (\<lambda>n v. \<lparr>ph_name = n, ph_value = v\<rparr>)
      in case con_window (heap s c) of
           None \<Rightarrow> map_option (\<lambda>t. [ph ''%title'' (escape_markup w t), ph ''%class'' ''i3-frame'',
                      ph ''%instance'' ''i3-frame'', ph ''%machine'' '''']) (con_get_tree_representation s c)
         | Some win \<Rightarrow> Some [ph ''%title'' (text (win_name win)), ph ''%class'' (text (win_class win)),
                      ph ''%instance'' (text (win_instance win)), ph ''%machine'' (text (machine win))])"

definition con_parse_title_format :: "world \<Rightarrow> i3 \<Rightarrow> con_id \<Rightarrow> string option" where
  "con_parse_title_format w s c = do {
     f \<leftarrow> title_format (heap s c);
     ps \<leftarrow> title_placeholders w s c;
     r \<leftarrow> format_placeholders (Some f) ps;
     r
   }"

text \<open>The title is redrawn at once; a container without a window drops its cached decoration.\<close>

definition redraw_title :: "con_id \<Rightarrow> i3 \<Rightarrow> i3" where
  "redraw_title c s =
     upd c (\<lambda>n. case con_window n of
        Some win \<Rightarrow> n\<lparr>con_window := Some (win\<lparr>name_x_changed := True\<rparr>)\<rparr>
      | None \<Rightarrow> n\<lparr>deco_params := False\<rparr>) s"

definition title_format_one :: "world \<Rightarrow> string \<Rightarrow> con_id \<Rightarrow> i3 \<Rightarrow> i3 option" where
  "title_format_one w format c s = do {
     let custom = (strcasecmp format ''%title'' \<noteq> 0);
     let s = upd c (\<lambda>n. n\<lparr>title_format := (if custom then Some format else None)\<rparr>) s;
     s \<leftarrow> (case con_window (heap s c) of
             None \<Rightarrow> Some s
           | Some win \<Rightarrow>
               if custom then do {
                 t \<leftarrow> con_parse_title_format w s c;
                 Some (emit (Ewmh_Update_Visible_Name (win_id win) (Some t)) s) }
               else Some (emit (Ewmh_Update_Visible_Name (win_id win) None) s));
     Some (redraw_title c s)
   }"

definition cmd_title_format :: "world \<Rightarrow> string \<Rightarrow> cmd" where
  "cmd_title_format w format = handle_empty_match (\<lambda>st.
     map_option (render_reply True) (each_match_wm (title_format_one w format) st))"

definition boolstr :: "string \<Rightarrow> bool" where
  "boolstr s \<longleftrightarrow> (\<exists>x \<in> set [''1'', ''yes'', ''true'', ''on'', ''enable'', ''active'']. strcasecmp s x = 0)"

definition icon_padding :: "bool \<Rightarrow> int \<Rightarrow> int \<Rightarrow> int" where
  "icon_padding is_toggle padding now =
     (if is_toggle then
        (if padding > 0 then (if now < 0 then padding else - (padding + 1)) else - (now + 1))
      else padding)"

definition cmd_title_window_icon :: "cstr \<Rightarrow> int \<Rightarrow> cmd" where
  "cmd_title_window_icon enable padding = handle_empty_match (\<lambda>st.
     let is_toggle = (enable = Some ''toggle'');
         padding = (case enable of None \<Rightarrow> padding
                    | Some v \<Rightarrow> if \<not> is_toggle \<and> \<not> boolstr v then -1 else padding)
     in map_option (render_reply True)
          (each_match_wm (\<lambda>c s. Some (redraw_title c
             (upd c (\<lambda>n. n\<lparr>window_icon_padding := icon_padding is_toggle padding (window_icon_padding n)\<rparr>) s))) st))"

section \<open>Bars\<close>

fun bar_mode_value :: "bar_mode \<Rightarrow> nat" where
  "bar_mode_value BAR_DOCK = 0"
| "bar_mode_value BAR_HIDE = 1"
| "bar_mode_value BAR_INVISIBLE = 2"

text \<open>The mode after \<open>(mode + 1) % 2\<close>.\<close>

definition toggled_mode :: "bar_mode \<Rightarrow> bar_mode" where
  "toggled_mode m = (if (bar_mode_value m + 1) mod 2 = 0 then BAR_DOCK else BAR_HIDE)"

text \<open>
  All bars, or the one with the identifier, get the new setting; a bar that changes is announced.
  The result says whether the bar was found.
\<close>

definition update_bars ::
  "(barconfig \<Rightarrow> barconfig) \<Rightarrow> cstr \<Rightarrow> barconfig list \<Rightarrow> i3 \<Rightarrow> barconfig list \<times> i3" where
  "update_bars f ident bars s =
     (let selected = (case ident of
            None \<Rightarrow> bars
          | Some i \<Rightarrow> (case List.find (\<lambda>b. bar_id b = i) bars of None \<Rightarrow> [] | Some b \<Rightarrow> [b]));
          first = (case ident of
            None \<Rightarrow> map f bars
          | Some i \<Rightarrow> (case dropWhile (\<lambda>b. bar_id b \<noteq> i) bars of
                         [] \<Rightarrow> bars
                       | b # bs \<Rightarrow> takeWhile (\<lambda>b. bar_id b \<noteq> i) bars @ f b # bs))
      in (first, fold (\<lambda>b s. if f b \<noteq> b then emit (Ipc_Barconfig_Update (bar_id b)) s else s) selected s))"

definition cmd_bars :: "(barconfig \<Rightarrow> barconfig) \<Rightarrow> cstr \<Rightarrow> cmd" where
  "cmd_bars f ident st =
     (if barconfigs st = [] then Some (yerror ''No bars found'' st)
      else
        let (bars, s) = update_bars f ident (barconfigs st) (wm st);
            st = st\<lparr>barconfigs := bars, wm := s\<rparr>
        in Some (case ident of
             Some i \<Rightarrow> if \<exists>b \<in> set bars. bar_id b = i then ysuccess True st
                       else yerror ''Changing the bar failed, bar_id not found.'' st
           | None \<Rightarrow> ysuccess True st))"

definition parse_bar_mode :: "string \<Rightarrow> (bar_mode \<Rightarrow> bar_mode) option" where
  "parse_bar_mode str =
     (if str = ''dock'' then Some (\<lambda>_. BAR_DOCK)
      else if str = ''hide'' then Some (\<lambda>_. BAR_HIDE)
      else if str = ''invisible'' then Some (\<lambda>_. BAR_INVISIBLE)
      else if str = ''toggle'' then Some toggled_mode else None)"

definition cmd_bar_mode :: "string \<Rightarrow> cstr \<Rightarrow> cmd" where
  "cmd_bar_mode mode ident st = do {
     f \<leftarrow> parse_bar_mode mode;
     cmd_bars (\<lambda>b. b\<lparr>bar_mode := f (bar_mode b)\<rparr>) ident st
   }"

definition parse_hidden_state :: "string \<Rightarrow> (bool \<Rightarrow> bool) option" where
  "parse_hidden_state str =
     (if str = ''hide'' then Some (\<lambda>_. False)
      else if str = ''show'' then Some (\<lambda>_. True)
      else if str = ''toggle'' then Some Not else None)"

definition cmd_bar_hidden_state :: "string \<Rightarrow> cstr \<Rightarrow> cmd" where
  "cmd_bar_hidden_state state ident st = do {
     f \<leftarrow> parse_hidden_state state;
     cmd_bars (\<lambda>b. b\<lparr>bar_shown := f (bar_shown b)\<rparr>) ident st
   }"

end
