(* ===== verification/Commands.thy ===== *)
theory Commands
  imports Cmd_Misc
begin

text \<open>
  The commands as data, as the table the build generates from parser-specs/commands.spec calls them
  with the arguments parsed, and facts about all of them.
\<close>

datatype (plugins only: ) command =
    Criteria_Init
  | Criteria_Add string cstr
  | Criteria_Match_Windows
  | Move_Con_To_Workspace string
  | Move_Con_To_Workspace_Back_And_Forth
  | Move_Con_To_Workspace_Name string cstr
  | Move_Con_To_Workspace_Number string cstr
  | Resize string string int int
  | Resize_Set int cstr int cstr
  | Border string int
  | Nop
  | Workspace string
  | Workspace_Number string cstr
  | Workspace_Back_And_Forth
  | Workspace_Name string cstr
  | Mark string cstr cstr
  | Unmark cstr
  | Mode string
  | Move_Con_To_Output cstr bool
  | Move_Con_To_Mark string
  | Floating string
  | Split string
  | Kill cstr
  | Exec_Command cstr string
  | Focus_Direction string
  | Focus_Sibling string
  | Focus_Window_Mode string
  | Focus_Level string
  | Focus bool
  | Fullscreen string string
  | Sticky string
  | Move_Direction string int cstr
  | Layout string
  | Layout_Toggle cstr
  | Open
  | Focus_Output cstr
  | Move_Window_To_Position int cstr int cstr
  | Move_Window_To_Center string
  | Move_Window_To_Mouse
  | Move_Scratchpad
  | Scratchpad_Show
  | Swap string string
  | Title_Format string
  | Title_Window_Icon cstr int
  | Rename_Workspace cstr string
  | Bar_Mode string cstr
  | Bar_Hidden_State string cstr
  | Shmlog string
  | Debuglog string
  | Gaps string string string string

primrec run_command :: "world \<Rightarrow> command \<Rightarrow> cmd" where
  "run_command w Criteria_Init st = Some (cmd_criteria_init st)"
| "run_command w (Criteria_Add t v) st = cmd_criteria_add w t v st"
| "run_command w Criteria_Match_Windows st = cmd_criteria_match_windows w st"
| "run_command w (Move_Con_To_Workspace which) st = cmd_move_con_to_workspace which st"
| "run_command w Move_Con_To_Workspace_Back_And_Forth st = cmd_move_con_to_workspace_back_and_forth w st"
| "run_command w (Move_Con_To_Workspace_Name n b) st = cmd_move_con_to_workspace_name w n b st"
| "run_command w (Move_Con_To_Workspace_Number n b) st = cmd_move_con_to_workspace_number w n b st"
| "run_command w (Resize way d px ppt) st = cmd_resize w way d px ppt st"
| "run_command w (Resize_Set a ma b mb) st = cmd_resize_set w a ma b mb st"
| "run_command w (Border style n) st = cmd_border w style n st"
| "run_command w Nop st = cmd_nop st"
| "run_command w (Workspace which) st = cmd_workspace which st"
| "run_command w (Workspace_Number n b) st = cmd_workspace_number w n b st"
| "run_command w Workspace_Back_And_Forth st = cmd_workspace_back_and_forth w st"
| "run_command w (Workspace_Name n b) st = cmd_workspace_name w n b st"
| "run_command w (Mark m mode toggle) st = cmd_mark m mode toggle st"
| "run_command w (Unmark m) st = cmd_unmark m st"
| "run_command w (Mode m) st = cmd_mode m st"
| "run_command w (Move_Con_To_Output n b) st = cmd_move_con_to_output w n b st"
| "run_command w (Move_Con_To_Mark m) st = cmd_move_con_to_mark w m st"
| "run_command w (Floating m) st = cmd_floating w m st"
| "run_command w (Split d) st = cmd_split d st"
| "run_command w (Kill m) st = cmd_kill m st"
| "run_command w (Exec_Command nosn c) st = cmd_exec nosn c st"
| "run_command w (Focus_Direction d) st = cmd_focus_direction w d st"
| "run_command w (Focus_Sibling d) st = cmd_focus_sibling d st"
| "run_command w (Focus_Window_Mode m) st = cmd_focus_window_mode m st"
| "run_command w (Focus_Level l) st = cmd_focus_level l st"
| "run_command w (Focus b) st = cmd_focus w b st"
| "run_command w (Fullscreen a m) st = cmd_fullscreen a m st"
| "run_command w (Sticky a) st = cmd_sticky a st"
| "run_command w (Move_Direction d n m) st = cmd_move_direction w d n m st"
| "run_command w (Layout l) st = cmd_layout l st"
| "run_command w (Layout_Toggle m) st = cmd_layout_toggle m st"
| "run_command w Open st = cmd_open st"
| "run_command w (Focus_Output n) st = cmd_focus_output w n st"
| "run_command w (Move_Window_To_Position x mx y my) st = cmd_move_window_to_position w x mx y my st"
| "run_command w (Move_Window_To_Center m) st = cmd_move_window_to_center w m st"
| "run_command w Move_Window_To_Mouse st = cmd_move_window_to_mouse w st"
| "run_command w Move_Scratchpad st = cmd_move_scratchpad w st"
| "run_command w Scratchpad_Show st = cmd_scratchpad_show w st"
| "run_command w (Swap m a) st = cmd_swap m a st"
| "run_command w (Title_Format f) st = cmd_title_format w f st"
| "run_command w (Title_Window_Icon e p) st = cmd_title_window_icon e p st"
| "run_command w (Rename_Workspace a b) st = cmd_rename_workspace w a b st"
| "run_command w (Bar_Mode m i) st = cmd_bar_mode m i st"
| "run_command w (Bar_Hidden_State m i) st = cmd_bar_hidden_state m i st"
| "run_command w (Shmlog a) st = cmd_shmlog w a st"
| "run_command w (Debuglog a) st = cmd_debuglog a st"
| "run_command w (Gaps t sc m v) st = cmd_gaps w t sc m v st"

end
