(* ===== verification/Cmd_Tree.thy ===== *)
theory Cmd_Tree
  imports Commands Con_Preserve Tree_Close
begin

text \<open>
  Which commands leave the tree alone: they may reorder the queues (focusing does) and change
  fields of containers, but every container keeps its parent and its children.
\<close>

section \<open>Operations that change no link\<close>

definition inert :: "i3 \<Rightarrow> i3 \<Rightarrow> bool" where
  "inert s t \<longleftrightarrow> same_links s t \<and> focused t = focused s"

lemma inert_refl [simp, intro]: "inert s s" by (simp add: inert_def)

lemma inert_trans [trans]: "inert s t \<Longrightarrow> inert t u \<Longrightarrow> inert s u"
  unfolding inert_def using same_links_trans by metis

lemma inert_emit [simp, intro]: "inert s (emit e s)" by (simp add: inert_def)

lemma inert_upd:
  assumes "\<And>n. parent (f n) = parent n \<and> con_type (f n) = con_type n \<and> nodes_head (f n) = nodes_head n \<and>
    floating_head (f n) = floating_head n \<and> focus_head (f n) = focus_head n"
  shows "inert s (upd c f s)"
  unfolding inert_def using assms by (auto intro: same_links_upd)

lemma inert_fold: "(\<And>x s. inert s (f x s)) \<Longrightarrow> inert s (fold f xs s)"
proof (induction xs arbitrary: s)
  case (Cons x xs)
  from inert_trans[OF Cons.prems Cons.IH[OF Cons.prems]] show ?case by simp
qed simp

lemma inert_fold_opt:
  assumes "\<And>x s t. f x s = Some t \<Longrightarrow> inert s t" and "fold_opt f xs s = Some t"
  shows "inert s t"
  using assms(2)
proof (induction xs arbitrary: s)
  case (Cons x xs)
  then obtain u where "f x s = Some u" "fold_opt f xs u = Some t" by (auto simp: bind_eq_Some)
  with Cons.IH assms(1) show ?case by (blast intro: inert_trans)
qed simp

text \<open>The same, appended to operations before.\<close>

lemma then_upd:
  assumes "inert s u" and "\<And>n. parent (f n) = parent n \<and> con_type (f n) = con_type n \<and> nodes_head (f n) = nodes_head n \<and>
    floating_head (f n) = floating_head n \<and> focus_head (f n) = focus_head n"
  shows "inert s (upd c f u)"
  using inert_trans[OF assms(1) inert_upd[OF assms(2)]] .

lemma then_emit: "inert s u \<Longrightarrow> inert s (emit e u)"
  by (rule inert_trans) auto

lemma then_fold: "inert s u \<Longrightarrow> (\<And>x v. inert v (f x v)) \<Longrightarrow> inert s (fold f xs u)"
  by (rule inert_trans[OF _ inert_fold])

lemma then_fix_percent:
  assumes "inert s u" shows "inert s (con_fix_percent p u)"
proof -
  have "focused (upd_each cs f v) = focused v" for cs f v
    unfolding upd_each_def by (induction cs arbitrary: v) simp_all
  then have "inert u (con_fix_percent p u)"
    unfolding inert_def using con_fix_percent_links[of u p] by (simp add: con_fix_percent_def Let_def)
  with assms show ?thesis by (rule inert_trans)
qed

lemmas inert_thens = then_upd then_emit then_fold then_fix_percent

lemma then_check_size: "floating_check_size e c b u = Some t \<Longrightarrow> inert s u \<Longrightarrow> inert s t"
  by (auto simp: floating_check_size_def bind_eq_Some Let_def intro!: then_upd)

lemma then_touched: "inert s u \<Longrightarrow> inert s (scratchpad_touched c u)"
  by (auto simp: scratchpad_touched_def intro!: then_upd)

lemma then_floating_resize:
  assumes "floating_resize e c x y u = Some t" and "inert s u" shows "inert s t"
proof -
  have "after (inert s) (floating_resize e c x y u)"
    unfolding floating_resize_def
    by (intro after_rules then_touched) (auto intro!: assms(2) then_upd elim!: then_check_size)
  then show ?thesis by (rule afterD[OF _ assms(1)])
qed

lemma then_resize_floating:
  assumes "cmd_resize_floating w d c px u = Some t" and "inert s u" shows "inert s t"
proof -
  have "after (inert s) (cmd_resize_floating w d c px u)"
    unfolding cmd_resize_floating_def
    by (intro after_rules then_touched) (auto intro!: assms(2) then_upd elim!: then_check_size)
  then show ?thesis by (rule afterD[OF _ assms(1)])
qed

lemma then_neighboring:
  assumes "resize_neighboring_cons a b px ppt u = Some (ok, t)" and "inert s u" shows "inert s t"
proof -
  have "after (\<lambda>(ok, t). inert s t) (resize_neighboring_cons a b px ppt u)"
    unfolding resize_neighboring_cons_def
    by (intro after_rules) (auto intro!: assms(2) inert_thens)
  then show ?thesis using afterD[OF _ assms(1)] by fastforce
qed

lemma then_default_percents: "inert s u \<Longrightarrow> inert s (default_percents p u)"
  unfolding default_percents_def by (erule then_fold) (rule inert_upd, simp)

lemma then_take_share: "inert s u \<Longrightarrow> inert s (take_share p c new q u)"
  unfolding take_share_def by (intro then_fold then_upd) (auto intro: inert_upd)

lemma then_border:
  assumes "con_set_border_style c style bw u = Some t" and "inert s u" shows "inert s t"
proof -
  have "after (inert s) (con_set_border_style c style bw u)"
    unfolding con_set_border_style_def
    by (intro after_rules then_upd) (auto intro!: assms(2))
  then show ?thesis by (rule afterD[OF _ assms(1)])
qed

lemma then_unmark_one: "inert s u \<Longrightarrow> inert s (unmark_one c m u)"
  unfolding unmark_one_def Let_def by (auto intro!: inert_thens)

lemma then_unmark_con: "inert s u \<Longrightarrow> inert s (unmark_con c u)"
proof -
  have "inert s v \<Longrightarrow> inert s (unmark_all k c v)" for k v
    by (induction k arbitrary: v) (simp_all add: then_emit then_upd)
  then show "inert s u \<Longrightarrow> inert s (unmark_con c u)"
    unfolding unmark_con_def by (auto intro!: then_upd)
qed

lemma then_unmark: "inert s u \<Longrightarrow> inert s (con_unmark c m u)"
  unfolding con_unmark_def
  by (auto intro!: then_fold then_unmark_con then_unmark_one split: option.splits)

lemma then_mark:
  assumes "con_mark c m mode u = Some t" and "inert s u" shows "inert s t"
proof -
  have dr: "drop_marks k c v = Some x \<Longrightarrow> inert s v \<Longrightarrow> inert s x" for k v x
    by (induction k arbitrary: v) (auto split: list.splits intro: then_unmark)
  have "after (inert s) (con_mark c m mode u)"
    unfolding con_mark_def
    by (intro after_rules then_upd then_emit) (auto intro!: assms(2) then_unmark elim!: dr simp del: drop_marks.simps split: if_splits)
  then show ?thesis by (rule afterD[OF _ assms(1)])
qed

lemma then_mark_toggle: "con_mark_toggle c m mode u = Some t \<Longrightarrow> inert s u \<Longrightarrow> inert s t"
  by (auto simp: con_mark_toggle_def intro: then_mark then_unmark split: if_splits)

lemma then_redraw_title: "inert s u \<Longrightarrow> inert s (redraw_title c u)"
  unfolding redraw_title_def by (erule then_upd) (simp split: option.split)

lemma then_title_format:
  assumes "title_format_one w format c u = Some t" and "inert s u" shows "inert s t"
proof -
  have "after (inert s) (title_format_one w format c u)"
    unfolding title_format_one_def
    by (intro after_rules then_redraw_title)
      (auto intro!: assms(2) inert_thens simp: bind_eq_Some split: option.splits if_splits)
  then show ?thesis by (rule afterD[OF _ assms(1)])
qed

lemma inert_cfg: "inert s (s\<lparr>cfg := g\<rparr>)"
  by (simp add: inert_def same_links_def)

lemma then_gaps_all:
  assumes "gaps_update_all g reset v u = Some t" and "inert s u" shows "inert s t"
proof -
  have "after (inert s) (gaps_update_all g reset v u)"
    unfolding gaps_update_all_def
    by (intro after_rules inert_trans[OF _ inert_cfg], rule inert_trans[OF assms(2)], erule inert_fold_opt[rotated])
      (auto simp: bind_eq_Some intro!: inert_fold inert_upd)
  then show ?thesis by (rule afterD[OF _ assms(1)])
qed

lemma then_gaps_update:
  assumes "gaps_update g scope mode px u = Some (ok, t)" and "inert s u" shows "inert s t"
proof -
  have "after (\<lambda>(ok, t). inert s t) (gaps_update g scope mode px u)"
    unfolding gaps_update_def
    by (intro after_rules) (auto intro!: assms(2) then_upd elim!: then_gaps_all)
  then show ?thesis using afterD[OF _ assms(1)] by fastforce
qed

lemma then_gaps_updates: "gaps_updates us u = Some (ok, t) \<Longrightarrow> inert s u \<Longrightarrow> inert s t"
proof (induction us arbitrary: u)
  case (Cons g us)
  obtain a b c d where g: "g = (a, b, c, d)" by (cases g)
  from Cons.prems(1) obtain k v where "gaps_update a b c d u = Some (k, v)"
    "(if k then gaps_updates us v else Some (False, v)) = Some (ok, t)"
    by (auto simp: g bind_eq_Some)
  with Cons.IH then_gaps_update Cons.prems(2) show ?case by (auto split: if_splits)
qed simp

section \<open>Commands that change no link\<close>

definition inert_cmd :: "cmd \<Rightarrow> bool" where
  "inert_cmd f \<longleftrightarrow> (\<forall>st st'. f st = Some st' \<longrightarrow> inert (wm st) (wm st'))"

lemma inert_cmdI: "(\<And>st. after (\<lambda>st'. inert (wm st) (wm st')) (f st)) \<Longrightarrow> inert_cmd f"
  by (auto simp: inert_cmd_def after_def)

lemma inert_cmdD: "inert_cmd f \<Longrightarrow> f st = Some st' \<Longrightarrow> inert s (wm st) \<Longrightarrow> inert s (wm st')"
  unfolding inert_cmd_def using inert_trans by blast

lemma inert_handle_empty_match: "inert_cmd body \<Longrightarrow> inert_cmd (handle_empty_match body)"
  by (rule inert_cmdI, unfold handle_empty_match_def handle_invalid_match_def, intro after_rules)
    (auto intro!: afterI dest: inert_cmdD[where s = "wm _"])

lemma inert_each_match_wm:
  assumes "\<And>c s t u. f c u = Some t \<Longrightarrow> inert s u \<Longrightarrow> inert s t"
  shows "inert_cmd (each_match_wm f)"
proof -
  have "fold_opt (\<lambda>c st. do { c \<leftarrow> deref (wm st) c; on_wm (f c) st }) cs st = Some st' \<Longrightarrow> inert (wm st) (wm st')"
    for cs st st'
  proof (induction cs arbitrary: st)
    case (Cons c cs)
    then obtain u where u: "f c (wm st) = Some u"
      "fold_opt (\<lambda>c st. do { c \<leftarrow> deref (wm st) c; on_wm (f c) st }) cs (st\<lparr>wm := u\<rparr>) = Some st'"
      by (auto simp: bind_eq_Some on_wm_def deref_def split: if_splits)
    from Cons.IH[OF u(2)] assms[OF u(1), of "wm st"] show ?case by (auto intro: inert_trans)
  qed simp
  then show ?thesis by (auto simp: inert_cmd_def each_match_wm_def each_match_def)
qed

lemma inert_render_reply: "inert_cmd f \<Longrightarrow> inert_cmd (\<lambda>st. map_option (render_reply b) (f st))"
  by (auto simp: inert_cmd_def)

lemma inert_resize_share:
  "resize_share p c ppt st = Some (ok, st') \<Longrightarrow> inert s (wm st) \<Longrightarrow> inert s (wm st')"
proof -
  assume a: "resize_share p c ppt st = Some (ok, st')" "inert s (wm st)"
  have "after (\<lambda>(ok, st'). inert s (wm st')) (resize_share p c ppt st)"
    unfolding resize_share_def
    by (intro after_rules) (auto intro!: then_default_percents then_take_share a(2))
  with a(1) show ?thesis using afterD by fastforce
qed

lemma inert_tiling_width_height:
  assumes "cmd_resize_tiling_width_height c d px ppt st = Some (ok, st')" and "inert s (wm st)"
  shows "inert s (wm st')"
proof -
  have "after (\<lambda>(ok, st'). inert s (wm st')) (cmd_resize_tiling_width_height c d px ppt st)"
    unfolding cmd_resize_tiling_width_height_def
    by (intro after_rules afterI) (auto simp: bind_eq_Some intro!: assms(2) elim!: inert_resize_share split: if_splits)
  with assms(1) show ?thesis using afterD by fastforce
qed

lemma inert_tiling_direction:
  assumes "cmd_resize_tiling_direction c d px ppt st = Some (ok, st')" and "inert s (wm st)"
  shows "inert s (wm st')"
proof -
  have "after (\<lambda>(ok, st'). inert s (wm st')) (cmd_resize_tiling_direction c d px ppt st)"
    unfolding cmd_resize_tiling_direction_def
    by (intro after_rules) (auto intro!: assms(2) elim!: then_neighboring)
  with assms(1) show ?thesis using afterD by fastforce
qed

lemma inert_resize_one:
  assumes "resize_one w d px ppt c st = Some (ok, st')" and "inert s (wm st)"
  shows "inert s (wm st')"
proof -
  have "after (\<lambda>(ok, st'). inert s (wm st')) (resize_one w d px ppt c st)"
    unfolding resize_one_def
    by (intro after_rules afterI)
      (auto simp: on_wm_def intro!: assms(2) elim!: then_resize_floating inert_tiling_direction inert_tiling_width_height)
  with assms(1) show ?thesis using afterD by fastforce
qed

lemma inert_resize: "inert_cmd (cmd_resize w way d px ppt)"
proof -
  have "resize_loop w d x y cs st = Some st' \<Longrightarrow> inert (wm st) (wm st')" for x y cs st st'
  proof (induction cs arbitrary: st)
    case (Cons c cs)
    then obtain ok u where u: "resize_one w d x y c st = Some (ok, u)"
      "(if ok then resize_loop w d x y cs u else Some (yerror ''Cannot resize.'' u)) = Some st'"
      by (auto simp: bind_eq_Some)
    from Cons.IH[of u] u(2) inert_resize_one[OF u(1), of "wm st"] show ?case
      by (auto split: if_splits intro: inert_trans)
  qed auto
  then have "inert_cmd (\<lambda>st. resize_loop w d x y (owindows st) st)" for x y by (simp add: inert_cmd_def)
  then show ?thesis unfolding cmd_resize_def Let_def by (rule inert_handle_empty_match)
qed

lemma inert_resize_set_tiling:
  assumes "resize_set_tiling c ori b n st = Some (ok, st')" and "inert s (wm st)"
  shows "inert s (wm st')"
proof -
  have "after (\<lambda>(ok, st'). inert s (wm st')) (resize_set_tiling c ori b n st)"
    unfolding resize_set_tiling_def
    by (intro after_rules afterI) (auto intro!: assms(2) elim!: inert_tiling_width_height)
  with assms(1) show ?thesis using afterD by fastforce
qed

lemma inert_resize_set_tilings:
  assumes "resize_set_tilings a b c x y st = Some (ok, st')" and "inert s (wm st)"
  shows "inert s (wm st')"
proof -
  have "after (\<lambda>(ok, st'). inert s (wm st')) (resize_set_tilings a b c x y st)"
    unfolding resize_set_tilings_def
    by (intro after_rules) (auto intro!: assms(2) elim!: inert_resize_set_tiling split: if_splits)
  with assms(1) show ?thesis using afterD by fastforce
qed

lemma inert_resize_set_floating:
  assumes "resize_set_floating w a b f x y u = Some (x', y', t)" and "inert s u"
  shows "inert s t"
proof -
  have "after (\<lambda>(x', y', t). inert s t) (resize_set_floating w a b f x y u)"
    unfolding resize_set_floating_def
    by (intro after_rules) (auto intro!: assms(2) elim!: then_floating_resize)
  with assms(1) show ?thesis using afterD by fastforce
qed

lemma inert_resize_set: "inert_cmd (cmd_resize_set w x mx y my)"
proof -
  have loop: "resize_set_loop w mx my a b ok cs st = Some st' \<Longrightarrow> inert (wm st) (wm st')" for a b ok cs st st'
  proof (induction cs arbitrary: a b ok st)
    case (Cons c cs)
    obtain fc where fc: "con_inside_floating (wm st) c = Some fc"
      using Cons.prems by (auto simp: bind_eq_Some deref_def split: if_splits)
    have d: "deref (wm st) c = Some c" using Cons.prems by (auto simp: deref_def bind_eq_Some split: if_splits)
    have "\<exists>u a' b' ok'. inert (wm st) (wm u) \<and> resize_set_loop w mx my a' b' ok' cs u = Some st'"
    proof (cases fc)
      case None
      show ?thesis
      proof (cases "is_dock_window (wm st) c")
        case True
        then show ?thesis using Cons.prems fc None d by auto
      next
        case False
        then obtain k u where "resize_set_tilings mx my c a b st = Some (k, u)"
          "resize_set_loop w mx my a b (ok \<and> k) cs u = Some st'"
          using Cons.prems fc None d by (auto simp: bind_eq_Some)
        then show ?thesis using inert_resize_set_tilings inert_refl by blast
      qed
    next
      case (Some f)
      then obtain x y u where "resize_set_floating w mx my f a b (wm st) = Some (x, y, u)"
        "resize_set_loop w mx my x y ok cs (st\<lparr>wm := u\<rparr>) = Some st'"
        using Cons.prems fc d by (auto simp: bind_eq_Some)
      moreover from this(1) have "inert (wm st) (wm (st\<lparr>wm := u\<rparr>))"
        using inert_resize_set_floating inert_refl by fastforce
      ultimately show ?thesis by blast
    qed
    with Cons.IH show ?case by (blast intro: inert_trans)
  qed auto
  then have "inert_cmd (\<lambda>st. resize_set_loop w mx my a b ok (owindows st) st)" for a b ok
    by (simp add: inert_cmd_def)
  from inert_handle_empty_match[OF this] show ?thesis
    unfolding cmd_resize_set_def inert_cmd_def by simp
qed

lemma inert_border: "inert_cmd (cmd_border w str n)"
proof -
  have "border_loop w str n cs st = Some st' \<Longrightarrow> inert (wm st) (wm st')" for cs st st'
  proof (induction cs arbitrary: st)
    case (Cons c cs)
    show ?case
    proof (cases "parse_border_style str (con_border_style_field (heap (wm st) c))")
      case None
      then show ?thesis using Cons.prems by (auto simp: bind_eq_Some deref_def split: if_splits)
    next
      case (Some style)
      then obtain bw t where t: "con_set_border_style c style bw
          (upd c (\<lambda>n. n\<lparr>max_user_border_style := style\<rparr>) (wm st)) = Some t"
        "border_loop w str n cs (st\<lparr>wm := t\<rparr>) = Some st'"
        using Cons.prems by (auto simp: bind_eq_Some deref_def Let_def split: if_splits)
      have "inert (wm st) t" by (rule then_border[OF t(1)]) (rule inert_upd, simp)
      with Cons.IH[OF t(2)] show ?thesis by (auto intro: inert_trans)
    qed
  qed auto
  then have "inert_cmd (\<lambda>st. border_loop w str n (owindows st) st)" by (simp add: inert_cmd_def)
  then show ?thesis unfolding cmd_border_def by (rule inert_handle_empty_match)
qed

lemma inert_mark: "inert_cmd (cmd_mark m mode toggle)"
  unfolding cmd_mark_def
  by (rule inert_handle_empty_match)
    (auto simp: inert_cmd_def on_wm_def bind_eq_Some split: list.splits if_splits
      intro: then_mark then_mark_toggle)

lemma inert_unmark: "inert_cmd (cmd_unmark m)"
proof -
  have "inert_cmd (\<lambda>st. map_option (render_reply True) (each_match_wm (\<lambda>c s. Some (con_unmark (Some c) m s)) st))"
    by (intro inert_render_reply inert_each_match_wm) (auto intro: then_unmark)
  then show ?thesis by (auto simp: inert_cmd_def cmd_unmark_def intro: then_unmark)
qed

lemma inert_titles: "inert_cmd (cmd_title_format w f)" "inert_cmd (cmd_title_window_icon e p)"
proof -
  show "inert_cmd (cmd_title_format w f)" unfolding cmd_title_format_def
    by (intro inert_handle_empty_match inert_render_reply inert_each_match_wm) (rule then_title_format)
  show "inert_cmd (cmd_title_window_icon e p)" unfolding cmd_title_window_icon_def Let_def
    by (intro inert_handle_empty_match inert_render_reply inert_each_match_wm)
      (auto intro!: then_redraw_title then_upd)
qed

lemma inert_gaps: "inert_cmd (cmd_gaps w ty sc m v)"
  by (auto simp: inert_cmd_def cmd_gaps_def bind_eq_Some Let_def split: option.splits if_splits intro: then_gaps_updates)

lemma inert_exec: "inert_cmd (cmd_exec nosn c)"
  unfolding cmd_exec_def
  by (rule inert_handle_empty_match) (auto simp: inert_cmd_def intro!: inert_fold)

lemma inert_bars: "inert_cmd (cmd_bars f ident)"
proof -
  have "inert s (snd (update_bars f ident bars s))" for bars s
    unfolding update_bars_def Let_def snd_conv by (rule inert_fold) auto
  then show ?thesis
    by (auto simp: inert_cmd_def cmd_bars_def Let_def split: prod.splits option.splits if_splits)
      (metis snd_conv)+
qed

section \<open>Sequences of commands\<close>

text \<open>
  The commands that select containers, resize, mark, name and decorate them, change gaps, bars and
  logging, or start programs.
\<close>

definition in_place :: "command \<Rightarrow> bool" where
  "in_place c =
     (case c of
        Criteria_Init \<Rightarrow> True | Criteria_Add t v \<Rightarrow> True | Criteria_Match_Windows \<Rightarrow> True
      | Resize way d px ppt \<Rightarrow> True | Resize_Set x mx y my \<Rightarrow> True | Border style n \<Rightarrow> True
      | Mark m mode toggle \<Rightarrow> True | Unmark m \<Rightarrow> True | Title_Format f \<Rightarrow> True
      | Title_Window_Icon e p \<Rightarrow> True | Gaps ty sc m v \<Rightarrow> True | Nop \<Rightarrow> True | Mode m \<Rightarrow> True
      | Exec_Command n c \<Rightarrow> True | Bar_Mode m i \<Rightarrow> True | Bar_Hidden_State m i \<Rightarrow> True
      | Shmlog a \<Rightarrow> True | Debuglog a \<Rightarrow> True | _ \<Rightarrow> False)"

lemmas inert_facts = inert_resize inert_resize_set inert_border inert_mark inert_unmark inert_titles inert_gaps
  inert_exec
lemmas inert_facts' = inert_facts[unfolded inert_cmd_def, rule_format]

lemma in_place_inert: "in_place c \<Longrightarrow> inert_cmd (run_command w c)"
proof (cases c)
  case (Criteria_Add t v)
  then show ?thesis by (auto simp: inert_cmd_def cmd_criteria_add_def)
next
  case Criteria_Match_Windows
  then show ?thesis by (auto simp: inert_cmd_def cmd_criteria_match_windows_def)
next
  case (Bar_Mode m i)
  then show ?thesis using inert_bars by (auto simp: inert_cmd_def cmd_bar_mode_def bind_eq_Some)
next
  case (Bar_Hidden_State m i)
  then show ?thesis using inert_bars by (auto simp: inert_cmd_def cmd_bar_hidden_state_def bind_eq_Some)
next
  case (Shmlog a)
  then show ?thesis
    by (auto simp: inert_cmd_def cmd_shmlog_def Let_def split: prod.splits bool.splits if_splits)
qed (simp_all add: in_place_def,
     simp_all add: inert_cmd_def cmd_criteria_init_def cmd_nop_def cmd_mode_def cmd_debuglog_def,
     (blast dest: inert_facts')+)

lemma in_place_run:
  "list_all in_place cs \<Longrightarrow> fold_opt (run_command w) cs st = Some st' \<Longrightarrow> inert (wm st) (wm st')"
proof (induction cs arbitrary: st)
  case (Cons c cs)
  then obtain u where u: "run_command w c st = Some u" "fold_opt (run_command w) cs u = Some st'"
    by (auto simp: bind_eq_Some)
  have "inert (wm st) (wm u)"
    using in_place_inert[of c w] Cons.prems(1) u(1) by (auto simp: inert_cmd_def)
  with Cons.IH[OF _ u(2)] Cons.prems(1) show ?case by (auto intro: inert_trans)
qed simp

lemma inert_wf: "inert s t \<Longrightarrow> wf_i3 t = wf_i3 s"
  unfolding inert_def wf_i3_def by (auto simp: same_links_wf same_linksD(9))

end
