(* ===== verification/Workspace_Names.thy ===== *)
theory Workspace_Names
  imports Workspace_Ops
begin

text \<open>
  The name \<open>create_workspace_on_output\<close> chooses: the search for it ends, the name is not in use, and
  a number chosen in the end is the smallest free one.
\<close>

section \<open>Printing numbers\<close>

lemma digit_char_props: "d < 10 \<Longrightarrow> is_digit (digit_char d) \<and> digit_val (digit_char d) = d"
proof -
  assume "d < 10"
  then have "d \<in> {0, 1, 2, 3, 4, 5, 6, 7, 8, 9}" by auto
  then show ?thesis by (auto simp: digit_char_def is_digit_def digit_val_def char_code_def)
qed

lemma decimal_append: "decimal a (xs @ ys) = decimal (decimal a xs) ys"
  by (simp add: decimal_def)

lemma digits_decimal: "digits n \<noteq> [] \<and> list_all is_digit (digits n) \<and> decimal 0 (digits n) = n"
proof (induction n rule: digits.induct)
  case (1 n)
  show ?case
  proof (cases "n < 10")
    case True
    then show ?thesis using digit_char_props[of n] by (subst (1 2 3) digits.simps) (simp add: decimal_def)
  next
    case False
    with 1 have ih: "list_all is_digit (digits (n div 10))" "decimal 0 (digits (n div 10)) = n div 10" by auto
    have "digits n = digits (n div 10) @ [digit_char (n mod 10)]" using False by (subst digits.simps) simp
    with ih show ?thesis using digit_char_props[of "n mod 10"]
      by (simp add: decimal_append) (simp add: decimal_def)
  qed
qed

text \<open>Reading a printed number gives it back.\<close>

lemma ws_name_to_number_printed: "n \<le> 2147483647 \<Longrightarrow> ws_name_to_number (digits n) = int n"
  using ws_name_to_number_digits[of "digits n" "[]"] digits_decimal[of n] by simp

section \<open>Looking up workspaces\<close>

definition workspaces_in :: "i3 \<Rightarrow> con_id list option" where
  "workspaces_in s = map_option concat (map_opt (content_nodes s) (nodes_head (heap s (croot s))))"

lemma grep_outputs_spec:
  "map_opt (content_nodes s) outs = Some nss \<Longrightarrow>
   \<exists>x. grep_outputs s P outs r = Some x \<and> (x = None \<longleftrightarrow> r = None \<and> (\<forall>c \<in> set (concat nss). \<not> P c))"
proof (induction outs arbitrary: nss r)
  case (Cons out outs)
  then obtain ns mss where n: "content_nodes s out = Some ns" "map_opt (content_nodes s) outs = Some mss"
    "nss = ns # mss" by (auto simp: bind_eq_Some)
  let ?r = "case List.find P ns of Some c \<Rightarrow> Some c | None \<Rightarrow> r"
  from Cons.IH[OF n(2), of ?r] obtain x where
    x: "grep_outputs s P outs ?r = Some x" "x = None \<longleftrightarrow> ?r = None \<and> (\<forall>c \<in> set (concat mss). \<not> P c)" by blast
  show ?case
    using n(1) x by (auto simp: n(3) find_None_iff split: option.splits dest: find_SomeD)
qed simp

lemma existing_by_num:
  assumes "workspaces_in s = Some cs"
  shows "\<exists>x. get_existing_workspace_by_num s n = Some x \<and> (x = None \<longleftrightarrow> (\<forall>c \<in> set cs. ws_num (heap s c) \<noteq> n))"
  using assms grep_outputs_spec[of s "nodes_head (heap s (croot s))" _ "\<lambda>c. ws_num (heap s c) = n" None]
  by (auto simp: workspaces_in_def get_existing_workspace_by_num_def)

lemma existing_by_name:
  assumes "workspaces_in s = Some cs"
  shows "\<exists>x. get_existing_workspace_by_name s name = Some x \<and> (x = None \<longleftrightarrow> (\<forall>c \<in> set cs. \<not> name_matches s name c))"
  using assms grep_outputs_spec[of s "nodes_head (heap s (croot s))" _ "name_matches s name" None]
  by (auto simp: workspaces_in_def get_existing_workspace_by_name_def)

text \<open>Whether a workspace uses a name (or its number, if it has one).\<close>

definition name_used :: "i3 \<Rightarrow> con_id list \<Rightarrow> string \<Rightarrow> int \<Rightarrow> bool" where
  "name_used s cs name n \<longleftrightarrow>
     (\<exists>c \<in> set cs. if n = -1 then name_matches s name c else ws_num (heap s c) = n)"

lemma ws_exists_spec:
  assumes "workspaces_in s = Some cs"
  shows "ws_exists s name n = Some (name_used s cs name n)"
  using existing_by_num[OF assms, of n] existing_by_name[OF assms, of name]
  by (auto simp: ws_exists_def name_used_def)

lemma free_binding_name_spec:
  assumes "workspaces_in s = Some cs"
  shows "\<exists>r. free_binding_name e out s names = Some r \<and>
    (case r of None \<Rightarrow> True
     | Some (name, n) \<Rightarrow> name \<in> set names \<and> n = ws_name_to_number name \<and> \<not> name_used s cs name n)"
proof (induction names)
  case (Cons name names)
  then obtain r where r: "free_binding_name e out s names = Some r"
    "case r of None \<Rightarrow> True
     | Some (nm, n) \<Rightarrow> nm \<in> set names \<and> n = ws_name_to_number nm \<and> \<not> name_used s cs nm n" by blast
  have st: "free_binding_name e out s (name # names) =
    (if assigned_elsewhere e out (Some name) (-1) \<or> name_used s cs name (ws_name_to_number name) then Some r
     else Some (Some (name, ws_name_to_number name)))"
    using r(1) by (simp add: ws_exists_spec[OF assms] Let_def)
  from r(2) show ?case
    unfolding st by (cases r) auto
qed simp

section \<open>The smallest free number\<close>

definition number_taken :: "env \<Rightarrow> xoutput \<Rightarrow> i3 \<Rightarrow> con_id list \<Rightarrow> nat \<Rightarrow> bool" where
  "number_taken e out s cs n \<longleftrightarrow>
     (\<exists>c \<in> set cs. ws_num (heap s c) = int n) \<or> assigned_elsewhere e out None (int n)"

lemma assigned_loop_num:
  "assigned_loop outs None n as r = Some c \<Longrightarrow> r = None \<Longrightarrow> \<exists>a \<in> set as. ws_name_to_number (asg_name a) = n"
proof (induction as arbitrary: r)
  case (Cons a as)
  then show ?case by (auto split: option.splits if_splits)
qed simp

lemma number_taken_bound:
  "finite {n. number_taken e out s cs n} \<and>
   card {n. number_taken e out s cs n} \<le> card (set cs) + length (ws_assignments e)"
proof -
  let ?A = "(\<lambda>c. nat (ws_num (heap s c))) ` set cs"
  let ?B = "(\<lambda>a. nat (ws_name_to_number (asg_name a))) ` set (ws_assignments e)"
  have sub: "{n. number_taken e out s cs n} \<subseteq> ?A \<union> ?B"
  proof
    fix n assume "n \<in> {n. number_taken e out s cs n}"
    then consider c where "c \<in> set cs" "ws_num (heap s c) = int n"
      | c where "assigned_loop (outputs e) None (int n) (ws_assignments e) None = Some c"
      by (auto simp: number_taken_def assigned_elsewhere_def get_assigned_output_def split: option.splits)
    then show "n \<in> ?A \<union> ?B"
    proof cases
      case 1
      then show ?thesis by (force intro!: image_eqI[where x = c])
    next
      case 2
      from assigned_loop_num[OF this refl] obtain a
        where "a \<in> set (ws_assignments e)" "ws_name_to_number (asg_name a) = int n" by blast
      then show ?thesis by (force intro!: image_eqI[where x = a])
    qed
  qed
  have "card (?A \<union> ?B) \<le> card ?A + card ?B" by (rule card_Un_le)
  also have "\<dots> \<le> card (set cs) + card (set (ws_assignments e))" by (intro add_mono card_image_le) simp_all
  also have "\<dots> \<le> card (set cs) + length (ws_assignments e)" by (simp add: card_length)
  finally show ?thesis using card_mono[OF _ sub] finite_subset[OF sub] by auto
qed

lemma free_number_spec:
  assumes "workspaces_in s = Some cs"
  shows "card {n. number_taken e out s cs n \<and> c \<le> n} < k \<Longrightarrow>
    \<exists>n. free_number k e out s c = Some n \<and> c \<le> n \<and> \<not> number_taken e out s cs n \<and>
      (\<forall>m. c \<le> m \<and> m < n \<longrightarrow> number_taken e out s cs m)"
proof (induction k arbitrary: c)
  case (Suc k)
  obtain x where x: "get_existing_workspace_by_num s (int c) = Some x"
    "x = None \<longleftrightarrow> (\<forall>d \<in> set cs. ws_num (heap s d) \<noteq> int c)" using existing_by_num[OF assms] by blast
  show ?case
  proof (cases "number_taken e out s cs c")
    case False
    then have "free_number (Suc k) e out s c = Some c"
      using x by (auto simp: number_taken_def)
    with False show ?thesis by auto
  next
    case True
    let ?S = "\<lambda>c. {n. number_taken e out s cs n \<and> c \<le> n}"
    have fin: "finite (?S c)"
      by (rule finite_subset[OF _ conjunct1[OF number_taken_bound[of e out s cs]]]) blast
    have "?S c = insert c (?S (Suc c))"
    proof (rule set_eqI)
      fix n show "n \<in> ?S c \<longleftrightarrow> n \<in> insert c (?S (Suc c))" using True by (cases "n = c") auto
    qed
    moreover have "c \<notin> ?S (Suc c)" by simp
    ultimately have "card (?S c) = Suc (card (?S (Suc c)))" using fin by (metis card_insert_disjoint finite_insert)
    with Suc obtain n where n: "free_number k e out s (Suc c) = Some n" "Suc c \<le> n"
      "\<not> number_taken e out s cs n" "\<forall>m. Suc c \<le> m \<and> m < n \<longrightarrow> number_taken e out s cs m" by fastforce
    have "free_number (Suc k) e out s c = Some n"
      using True x n(1) by (auto simp: number_taken_def)
    moreover have "\<forall>m. c \<le> m \<and> m < n \<longrightarrow> number_taken e out s cs m"
      using n(4) True by (metis le_neq_implies_less Suc_leI)
    ultimately show ?thesis using n(2,3) by auto
  qed
qed simp

lemma free_workspace_name_spec:
  assumes "workspaces_in s = Some cs" and "set cs \<subseteq> live s"
  obtains name n where "free_workspace_name e out s = Some (name, n)"
    "(name \<in> set (binding_workspace_names e) \<and> n = ws_name_to_number name \<and> \<not> name_used s cs name n) \<or>
     (\<exists>m. n = int m \<and> name = digits m \<and> 0 < m \<and> \<not> number_taken e out s cs m \<and>
        (\<forall>j. 0 < j \<and> j < m \<longrightarrow> number_taken e out s cs j))"
proof -
  obtain r where r: "free_binding_name e out s (binding_workspace_names e) = Some r"
    "case r of None \<Rightarrow> True | Some (name, n) \<Rightarrow> name \<in> set (binding_workspace_names e) \<and>
       n = ws_name_to_number name \<and> \<not> name_used s cs name n"
    using free_binding_name_spec[OF assms(1)] by blast
  show ?thesis
  proof (cases r)
    case (Some x)
    then show ?thesis using r that by (cases x) (auto simp: free_workspace_name_def)
  next
    case None
    have "card (set cs) \<le> card (live s)" by (rule card_mono[OF finite_live assms(2)])
    also have "\<dots> \<le> length (all_cons s)" by (simp add: live_def card_length)
    finally have "card (set cs) \<le> length (all_cons s)" .
    moreover have "card {n. number_taken e out s cs n \<and> 1 \<le> n} \<le> card {n. number_taken e out s cs n}"
      by (rule card_mono[OF conjunct1[OF number_taken_bound]]) blast
    ultimately have "card {n. number_taken e out s cs n \<and> 1 \<le> n} < number_fuel e s"
      using number_taken_bound[of e out s cs] unfolding number_fuel_def by linarith
    from free_number_spec[OF assms(1) this] obtain m where
      m: "free_number (number_fuel e s) e out s 1 = Some m" "1 \<le> m" "\<not> number_taken e out s cs m"
        "\<forall>j. 1 \<le> j \<and> j < m \<longrightarrow> number_taken e out s cs j" by blast
    with None r(1) show ?thesis
      by (intro that[of "digits m" "int m"]) (auto simp: free_workspace_name_def)
  qed
qed

end
