(* ===== verification/Cmd_Facts.thy ===== *)
theory Cmd_Facts
  imports Commands Workspace_Names
begin

text \<open>
  What single commands do: errors in the criteria, cycling through outputs, resizing among several
  siblings, and the bounds of the gaps.
\<close>

section \<open>Errors in the criteria\<close>

text \<open>The commands that look at the criteria before anything else.\<close>

definition guarded :: "command \<Rightarrow> bool" where
  "guarded c =
     (case c of
        Move_Con_To_Workspace which \<Rightarrow> True | Move_Con_To_Workspace_Number n b \<Rightarrow> True
      | Resize way d px ppt \<Rightarrow> True | Border style n \<Rightarrow> True | Mark m mode toggle \<Rightarrow> True
      | Move_Con_To_Mark m \<Rightarrow> True | Floating m \<Rightarrow> True | Split d \<Rightarrow> True | Exec_Command n c \<Rightarrow> True
      | Focus_Direction d \<Rightarrow> True | Focus_Sibling d \<Rightarrow> True | Fullscreen a m \<Rightarrow> True | Sticky a \<Rightarrow> True
      | Move_Direction d n m \<Rightarrow> True | Layout l \<Rightarrow> True | Move_Window_To_Position x mx y my \<Rightarrow> True
      | Move_Window_To_Center m \<Rightarrow> True | Move_Window_To_Mouse \<Rightarrow> True | Move_Scratchpad \<Rightarrow> True
      | Swap m a \<Rightarrow> True | Title_Format f \<Rightarrow> True | Title_Window_Icon e p \<Rightarrow> True | _ \<Rightarrow> False)"

lemma handle_invalid:
  "m_error (current_match st) = Some e \<Longrightarrow>
   handle_empty_match body st = Some (yerror (''Invalid match: '' @ e) st)"
  by (simp add: handle_empty_match_def handle_invalid_match_def)

lemmas guarded_defs = cmd_move_con_to_workspace_def cmd_move_con_to_workspace_number_def
  check_move_con_to_workspace_def cmd_resize_def cmd_border_def cmd_mark_def cmd_move_con_to_mark_def
  cmd_floating_def cmd_split_def cmd_exec_def cmd_focus_direction_def cmd_focus_sibling_def
  cmd_fullscreen_def cmd_sticky_def cmd_move_direction_def cmd_layout_def
  cmd_move_window_to_position_def cmd_move_window_to_center_def cmd_move_window_to_mouse_def
  cmd_move_scratchpad_def cmd_swap_def cmd_title_format_def cmd_title_window_icon_def

lemma guarded_invalid:
  assumes "guarded c" and "m_error (current_match st) = Some e"
  shows "run_command w c st = Some (yerror (''Invalid match: '' @ e) st)"
  using assms(1) by (cases c) (simp_all add: guarded_def guarded_defs handle_invalid[OF assms(2)] Let_def)

text \<open>
  \<open>unmark\<close> does not look: a container identifier that cannot be parsed leaves the match empty, and
  the command takes all marks away, as it does without criteria.
\<close>

lemma unmark_ignores_invalid:
  assumes "m_error (current_match st) = Some e" and "match_is_empty (current_match st)"
  shows "run_command w (Unmark m) st = Some (render_reply True (st\<lparr>wm := con_unmark None m (wm st)\<rparr>))"
  using assms(2) by (simp add: cmd_unmark_def)

lemma layout_toggle_ignores_invalid:
  assumes "m_error (current_match st) = Some e" and "match_is_empty (current_match st)"
    and "focused (wm st) = Some f"
  shows "run_command w (Layout_Toggle (Some mode)) st =
    map_option (render_reply True) (on_wm (con_toggle_layout f mode) st)"
  using assms(2,3) by (simp add: cmd_layout_toggle_def)

section \<open>Lists of outputs\<close>

definition first_available :: "(string \<Rightarrow> 'a option) \<Rightarrow> string list \<Rightarrow> 'a option" where
  "first_available g ns = list_first (List.map_filter g ns)"

text \<open>The list, turned so that it starts behind the first name of the current output.\<close>

definition turned :: "string \<Rightarrow> string list \<Rightarrow> string list" where
  "turned cur ns =
     (let others = (\<lambda>n. strcasecmp cur n \<noteq> 0)
      in tl (dropWhile others ns) @ takeWhile others ns @ take 1 (dropWhile others ns))"

lemma first_available_Cons:
  "first_available g (n # ns) = (case g n of Some x \<Rightarrow> Some x | None \<Rightarrow> first_available g ns)"
  by (simp add: first_available_def map_filter_simps split: option.split)

lemma first_available_append:
  "first_available g (ms @ ns) = (case first_available g ms of Some x \<Rightarrow> Some x | None \<Rightarrow> first_available g ns)"
proof (induction ms)
  case Nil
  then show ?case by (simp add: first_available_def map_filter_simps)
next
  case (Cons m ms)
  then show ?case by (simp add: first_available_Cons split: option.splits)
qed

lemma first_opt_available: "first_opt (\<lambda>n. Some (g n)) ns = Some (first_available g ns)"
proof (induction ns)
  case Nil
  then show ?case by (simp add: first_available_def map_filter_simps)
next
  case (Cons n ns)
  then show ?case by (simp add: first_available_Cons split: option.split)
qed

lemma find_next_output_gen:
  "find_next_output (\<lambda>n. Some (g n)) cur r ns =
     Some (case dropWhile (\<lambda>n. strcasecmp cur n \<noteq> 0) ns of
         [] \<Rightarrow> (case r of Some x \<Rightarrow> Some x | None \<Rightarrow> first_available g ns)
       | m # ms \<Rightarrow> (case first_available g ms of Some x \<Rightarrow> Some x
                 | None \<Rightarrow> (case r of Some x \<Rightarrow> Some x
                     | None \<Rightarrow> first_available g (takeWhile (\<lambda>n. strcasecmp cur n \<noteq> 0) ns @ [m]))))"
proof (induction ns arbitrary: r)
  case Nil
  then show ?case by (simp add: first_available_def map_filter_simps split: option.split)
next
  case (Cons n ns)
  show ?case
  proof (cases "strcasecmp cur n = 0")
    case True
    then show ?thesis
      by (cases r) (simp_all add: first_opt_available first_available_Cons first_available_def[of g "[]"]
        map_filter_simps split: option.split)
  next
    case False
    then show ?thesis
      by (cases "dropWhile (\<lambda>n. strcasecmp cur n \<noteq> 0) ns"; cases r)
        (auto simp: Cons.IH first_available_Cons simp del: dropWhile_eq_Nil_conv split: option.splits)
  qed
qed

lemma find_next_output_turned:
  "find_next_output (\<lambda>n. Some (g n)) cur None ns = Some (first_available g (turned cur ns))"
proof (cases "dropWhile (\<lambda>n. strcasecmp cur n \<noteq> 0) ns")
  case Nil
  then have "takeWhile (\<lambda>n. strcasecmp cur n \<noteq> 0) ns = ns"
    using takeWhile_dropWhile_id[of "\<lambda>n. strcasecmp cur n \<noteq> 0" ns] by simp
  with Nil show ?thesis by (simp add: find_next_output_gen turned_def del: dropWhile_eq_Nil_conv takeWhile_eq_all_conv)
next
  case (Cons m ms)
  then show ?thesis
    by (simp add: find_next_output_gen turned_def first_available_append del: dropWhile_eq_Nil_conv split: option.split)
qed

section \<open>Growing among several siblings\<close>

lemma percent_fold_default:
  "percent (heap (fold (\<lambda>d. upd d (\<lambda>n. if percent n = 0 then n\<lparr>percent := q\<rparr> else n)) ns s) x) =
     (if x \<in> set ns \<and> percent (heap s x) = 0 then q else percent (heap s x))"
  by (induction ns arbitrary: s) auto

lemma percent_fold_minus:
  "distinct ns \<Longrightarrow>
   percent (heap (fold (\<lambda>d. if d = c then id else upd d (\<lambda>n. n\<lparr>percent := percent n - q\<rparr>)) ns s) x) =
     (if x \<in> set ns \<and> x \<noteq> c then percent (heap s x) - q else percent (heap s x))"
proof (induction ns arbitrary: s)
  case (Cons d ns)
  then show ?case by (auto simp: Cons.IH)
qed simp

lemma nodes_default: "nodes_head (heap (default_percents p s) x) = nodes_head (heap s x)"
proof -
  have "nodes_head (heap (fold (\<lambda>d. upd d (\<lambda>n. if percent n = 0 then n\<lparr>percent := q\<rparr> else n)) ns s) x) =
    nodes_head (heap s x)" for q ns
    by (induction ns arbitrary: s) auto
  then show ?thesis by (simp add: default_percents_def)
qed

text \<open>
  A successful \<open>resize grow width\<close> or \<open>height\<close> gives the container the share that its siblings lose,
  each the same, and leaves each of them at least one pixel when they shrink.
\<close>

definition shares :: "i3 \<Rightarrow> con_id \<Rightarrow> rat list" where
  "shares s p = map (\<lambda>d. percent (heap s d)) (nodes_head (heap s p))"

lemma sum_shares_moved:
  fixes f g :: "con_id \<Rightarrow> rat"
  assumes "distinct ns" and "c \<in> set ns" and "length ns \<noteq> 1"
    and "g c = f c + x" and "\<And>d. d \<in> set ns \<Longrightarrow> d \<noteq> c \<Longrightarrow> g d = f d - x / (of_nat (length ns) - 1)"
  shows "sum_list (map g ns) = sum_list (map f ns)"
proof -
  let ?q = "x / (of_nat (length ns) - 1)"
  have s: "sum_list (map h ns) = h c + sum h (set ns - {c})" for h :: "con_id \<Rightarrow> rat"
    using sum_list_distinct_conv_sum_set[OF assms(1), of h] sum.remove[OF _ assms(2), of h] by simp
  have "sum g (set ns - {c}) = sum (\<lambda>d. f d - ?q) (set ns - {c})"
    by (rule sum.cong) (use assms(5) in auto)
  also have "\<dots> = sum f (set ns - {c}) - of_nat (card (set ns - {c})) * ?q"
    by (simp add: sum_subtractf)
  also have "card (set ns - {c}) = length ns - 1" using assms(1,2) by (simp add: distinct_card)
  also have "of_nat (length ns - 1) * ?q = x"
  proof -
    have "length ns > 0" using assms(2) by (cases ns) auto
    then have "(of_nat (length ns - 1) :: rat) = of_nat (length ns) - 1" by (cases ns) simp_all
    moreover have "(of_nat (length ns) :: rat) - 1 \<noteq> 0"
      using assms(3) by (metis eq_iff_diff_eq_0 of_nat_1 of_nat_eq_iff)
    ultimately show ?thesis by simp
  qed
  finally show ?thesis using s[of g] s[of f] assms(4) by simp
qed

lemma resize_share_spec:
  assumes "resize_share p c ppt st = Some (True, st')" and "distinct (nodes_head (heap (wm st) p))"
    and "c \<in> set (nodes_head (heap (wm st) p))"
  shows "sum_list (shares (wm st') p) = sum_list (shares (default_percents p (wm st)) p)"
    and "percent (heap (wm st') c) = percent (heap (default_percents p (wm st)) c) + ppt"
    and "\<And>d m. d \<in> set (nodes_head (heap (wm st) p)) \<Longrightarrow> d \<noteq> c \<Longrightarrow> ppt > 0 \<Longrightarrow>
      percent_for_1px (default_percents p (wm st)) d = Some m \<Longrightarrow> m \<le> percent (heap (wm st') d)"
proof -
  let ?u = "default_percents p (wm st)"
  let ?ns = "nodes_head (heap (wm st) p)"
  define q where "q = ppt / (of_nat (length ?ns) - 1)"
  have n: "con_num_children ?u p = length ?ns" by (simp add: con_num_children_def nodes_default)
  have ne: "length ?ns \<noteq> 1" and t: "wm st' = take_share p c (percent (heap ?u c) + ppt) q ?u"
    and small: "q \<ge> 0 \<Longrightarrow> exists_opt (too_small ?u c q) ?ns = Some False"
    using assms(1) by (auto simp: resize_share_def n Let_def bind_eq_Some nodes_default q_def split: if_splits)
  have pt: "percent (heap (wm st') x) = (if x = c then percent (heap ?u c) + ppt
      else if x \<in> set ?ns then percent (heap ?u x) - q else percent (heap ?u x))" for x
    unfolding t take_share_def nodes_default using percent_fold_minus[OF assms(2)] by auto
  then show "percent (heap (wm st') c) = percent (heap ?u c) + ppt" by simp
  have nt: "nodes_head (heap (wm st') p) = ?ns"
  proof -
    have "nodes_head (heap (fold (\<lambda>d. if d = c then id else upd d (\<lambda>n. n\<lparr>percent := percent n - r\<rparr>)) ns s) x) =
      nodes_head (heap s x)" for r ns s x by (induction ns arbitrary: s) auto
    then show ?thesis unfolding t take_share_def by (simp add: nodes_default)
  qed
  show "sum_list (shares (wm st') p) = sum_list (shares ?u p)"
    unfolding shares_def nt nodes_default
    by (rule sum_shares_moved[OF assms(2,3) ne, where x = ppt]) (simp_all add: pt q_def)
  fix d m assume d: "d \<in> set ?ns" "d \<noteq> c" "ppt > 0" "percent_for_1px ?u d = Some m"
  have "length ?ns > 0" using assms(3) by (cases ?ns) auto
  with ne have "(of_nat (length ?ns) :: rat) - 1 > 0" by (cases "length ?ns") (auto simp: of_nat_Suc)
  then have "q \<ge> 0" using d(3) by (simp add: q_def)
  have ex: "exists_opt f xs = Some False \<Longrightarrow> x \<in> set xs \<Longrightarrow> f x = Some False"
    for f :: "con_id \<Rightarrow> bool option" and xs x
    by (induction xs) (auto simp: bind_eq_Some split: if_splits)
  from ex[OF small[OF \<open>q \<ge> 0\<close>] d(1)] d(2,4) have "\<not> percent (heap ?u d) - q < m"
    by (simp add: too_small_def)
  then show "m \<le> percent (heap (wm st') d)" using pt[of d] d(1,2) by simp
qed

lemma next_of_notin: "x \<notin> set xs \<Longrightarrow> next_of x xs = None"
  by (induction xs) auto

lemma find_participants_child:
  "find_participants k s d b c = Some (x, Some e) \<Longrightarrow>
   \<exists>p. parent (heap s x) = Some p \<and> x \<in> set (nodes_head (heap s p))"
proof (induction k arbitrary: c)
  case (Suc k)
  have n: "neighbour s d b p v = Some y \<Longrightarrow> v \<in> set (nodes_head (heap s p))" for p v y
    using next_of_notin[of v "nodes_head (heap s p)"] prev_of_notin[of v "nodes_head (heap s p)"]
    by (auto simp: neighbour_def Let_def split: if_splits)
  from Suc show ?case by (auto simp: bind_eq_Some split: if_splits option.splits dest: n)
qed simp

section \<open>Bounds of the gaps\<close>

lemma gap_get_set [simp]: "gap_get g (gap_set h v x) = (if g = h then v else gap_get g x)"
  by (cases g; cases h) simp_all

definition gap_ok :: "gap \<Rightarrow> int \<Rightarrow> int \<Rightarrow> i3 \<Rightarrow> con_id \<Rightarrow> bool" where
  "gap_ok g v slack s ws \<longleftrightarrow> gap_get g (con_gaps (heap s ws)) + v + slack \<ge> 0"

lemma fix_gap_ok: "v + slack \<ge> 0 \<or> \<not> reset \<Longrightarrow> fix_gap reset v slack x + v + slack \<ge> 0"
  by (auto simp: fix_gap_def)

text \<open>
  The loop over the workspaces of one output, as a function of the list: it establishes the bound
  for each and keeps it for those that had it.
\<close>

definition fix_ws_gap :: "gap \<Rightarrow> bool \<Rightarrow> int \<Rightarrow> int \<Rightarrow> con_id \<Rightarrow> i3 \<Rightarrow> i3" where
  "fix_ws_gap g reset v slack ws =
     upd ws (\<lambda>n. n\<lparr>con_gaps := gap_set g (fix_gap reset v slack (gap_get g (con_gaps n))) (con_gaps n)\<rparr>)"

lemma fix_gaps_fold:
  assumes "v + slack \<ge> 0"
  shows "(ws \<in> set ns \<or> gap_ok g v slack s ws) \<Longrightarrow> gap_ok g v slack (fold (fix_ws_gap g reset v slack) ns s) ws"
    and "nodes_head (heap (fold (fix_ws_gap g reset v slack) ns s) x) = nodes_head (heap s x)"
    and "con_type (heap (fold (fix_ws_gap g reset v slack) ns s) x) = con_type (heap s x)"
    and "croot (fold (fix_ws_gap g reset v slack) ns s) = croot s" and "cfg (fold (fix_ws_gap g reset v slack) ns s) = cfg s"
proof -
  show "(ws \<in> set ns \<or> gap_ok g v slack s ws) \<Longrightarrow> gap_ok g v slack (fold (fix_ws_gap g reset v slack) ns s) ws"
  proof (induction ns arbitrary: s)
    case (Cons w ns)
    have "gap_ok g v slack (fix_ws_gap g reset v slack w s) w" using fix_gap_ok assms(1) by (simp add: gap_ok_def fix_ws_gap_def)
    moreover have "gap_ok g v slack s ws \<Longrightarrow> gap_ok g v slack (fix_ws_gap g reset v slack w s) ws"
      using fix_gap_ok assms(1) by (simp add: gap_ok_def fix_ws_gap_def)
    ultimately show ?case using Cons by auto
  qed simp
  show "nodes_head (heap (fold (fix_ws_gap g reset v slack) ns s) x) = nodes_head (heap s x)"
    "con_type (heap (fold (fix_ws_gap g reset v slack) ns s) x) = con_type (heap s x)"
    "croot (fold (fix_ws_gap g reset v slack) ns s) = croot s" "cfg (fold (fix_ws_gap g reset v slack) ns s) = cfg s"
    by (induction ns arbitrary: s) (auto simp: fix_ws_gap_def)
qed


lemma gaps_update_all_ok:
  assumes "gaps_update_all g reset v s = Some t" and "workspaces_in s = Some cs" and "ws \<in> set cs"
    and "v + (if g \<noteq> GAP_INNER then g_inner (cfg_gaps (cfg s)) else 0) \<ge> 0"
  shows "gap_ok g v (if g \<noteq> GAP_INNER then g_inner (cfg_gaps (cfg s)) else 0) t ws"
    and "gap_get g (cfg_gaps (cfg t)) = v"
proof -
  define slack where "slack = (if g \<noteq> GAP_INNER then g_inner (cfg_gaps (cfg s)) else 0)"
  have nn: "v + slack \<ge> 0" using assms(4) by (simp add: slack_def)
  define step where "step = (\<lambda>out s. do { content \<leftarrow> output_get_content s out;
    Some (fold (fix_ws_gap g reset v slack) (nodes_head (heap s content)) s) })"
  obtain u where u: "fold_opt step (nodes_head (heap s (croot s))) s = Some u"
    and t: "t = u\<lparr>cfg := (cfg u)\<lparr>cfg_gaps := gap_set g v (cfg_gaps (cfg u))\<rparr>\<rparr>"
    using assms(1) unfolding gaps_update_all_def Let_def step_def slack_def fix_ws_gap_def
    by (auto simp: bind_eq_Some)
  show "gap_get g (cfg_gaps (cfg t)) = v" by (simp add: t)
  have content: "output_get_content b out = output_get_content a out"
    if "\<And>x. nodes_head (heap b x) = nodes_head (heap a x)" "\<And>x. con_type (heap b x) = con_type (heap a x)" for a b out
    by (simp add: output_get_content_def that)
  have run: "fold_opt step outs a = Some b \<Longrightarrow>
      (\<exists>out \<in> set outs. \<exists>ns. content_nodes a out = Some ns \<and> w \<in> set ns) \<or> gap_ok g v slack a w \<Longrightarrow>
      gap_ok g v slack b w" for outs a b w
  proof (induction outs arbitrary: a)
    case (Cons out outs)
    from Cons.prems(1) obtain con where con: "output_get_content a out = Some con"
      "fold_opt step outs (fold (fix_ws_gap g reset v slack) (nodes_head (heap a con)) a) = Some b"
      by (auto simp: step_def bind_eq_Some)
    note f = fix_gaps_fold[OF nn, where ns = "nodes_head (heap a con)" and s = a and g = g and reset = reset]
    have cn: "content_nodes (fold (fix_ws_gap g reset v slack) (nodes_head (heap a con)) a) x = content_nodes a x" for x
      unfolding content_nodes_def by (simp add: content[OF f(2,3)] f(2))
    have "(\<exists>out \<in> set outs. \<exists>ns. content_nodes a out = Some ns \<and> w \<in> set ns) \<or>
      gap_ok g v slack (fold (fix_ws_gap g reset v slack) (nodes_head (heap a con)) a) w"
      using Cons.prems(2) con(1) f(1)[of w] by (auto simp: content_nodes_def)
    then show ?case using Cons.IH[OF con(2)] unfolding cn by blast
  qed simp
  obtain nss where nss: "map_opt (content_nodes s) (nodes_head (heap s (croot s))) = Some nss" "cs = concat nss"
    using assms(2) by (auto simp: workspaces_in_def)
  have "\<exists>out \<in> set outs. \<exists>ns. content_nodes s out = Some ns \<and> ws \<in> set ns"
    if "map_opt (content_nodes s) outs = Some nss" "ws \<in> set (concat nss)" for outs nss
    using that
  proof (induction outs arbitrary: nss)
    case (Cons out outs)
    then obtain ns mss where m: "content_nodes s out = Some ns" "map_opt (content_nodes s) outs = Some mss"
      "nss = ns # mss" by (auto simp: bind_eq_Some)
    show ?case
    proof (cases "ws \<in> set ns")
      case True
      with m(1) show ?thesis by auto
    next
      case False
      with Cons.prems(2) m(3) have "ws \<in> set (concat mss)" by simp
      from Cons.IH[OF m(2) this] show ?thesis by auto
    qed
  qed simp
  with nss assms(3) have "\<exists>out \<in> set (nodes_head (heap s (croot s))). \<exists>ns. content_nodes s out = Some ns \<and> ws \<in> set ns"
    by blast
  then have "gap_ok g v slack u ws" using run[OF u] by blast
  then show "gap_ok g v (if g \<noteq> GAP_INNER then g_inner (cfg_gaps (cfg s)) else 0) t ws"
    by (simp add: t gap_ok_def slack_def)
qed

text \<open>
  After a change of the gaps of all workspaces, no workspace has gaps that are smaller in total than
  what the inner gap can make up for.
\<close>

lemma gaps_update_bound:
  assumes "gaps_update g ''all'' mode px s = Some (True, t)" and "workspaces_in s = Some cs" and "ws \<in> set cs"
  shows "gap_get g (cfg_gaps (cfg t)) + gap_get g (con_gaps (heap t ws)) +
    (if g = GAP_INNER then 0 else g_inner (cfg_gaps (cfg s))) \<ge> 0"
proof -
  obtain v0 reset where v0: "gaps_value mode px (gap_get g (cfg_gaps (cfg s))) = Some (v0, reset)"
    using assms(1) by (auto simp: gaps_update_def bind_eq_Some Let_def split: option.splits)
  define least where "least = (if g = GAP_INNER then 0 else - g_inner (cfg_gaps (cfg s)))"
  have a: "gaps_update_all g reset (max v0 least) s = Some t"
    using assms(1) v0 by (auto simp: gaps_update_def bind_eq_Some Let_def least_def split: if_splits)
  have b: "max v0 least + (if g \<noteq> GAP_INNER then g_inner (cfg_gaps (cfg s)) else 0) \<ge> 0"
    by (cases "g = GAP_INNER") (simp_all add: least_def max_def)
  from gaps_update_all_ok[OF a assms(2,3) b] show ?thesis by (auto simp: gap_ok_def split: if_splits)
qed

end
