(* ===== verification/Parse_String.thy ===== *)
theory Parse_String
  imports Util "HOL-Library.Sublist"
begin

text \<open>
  Scanning of strings and words as the command parser does it (\<open>parse_string\<close>,
  src/commands_parser.c), and the quoting that i3bar applies to workspace names
  (\<open>quote_workspace_name\<close>, i3bar/src/xcb.c): what i3bar quotes is what i3 reads back.
\<close>

definition strncasecmp_eq :: "string \<Rightarrow> string \<Rightarrow> bool" where
  "strncasecmp_eq walk lit \<longleftrightarrow> map to_lower (take (length lit) walk) = map to_lower lit"

lemma strncasecmp_eq_length: "strncasecmp_eq walk lit \<Longrightarrow> length lit \<le> length walk"
  by (auto simp: strncasecmp_eq_def dest!: arg_cong[where f = length] split: if_splits)

lemma strncasecmp_eq_simps [simp]:
  "strncasecmp_eq walk []"
  "strncasecmp_eq [] (d # ds) \<longleftrightarrow> False"
  "strncasecmp_eq (c # cs) (d # ds) \<longleftrightarrow> to_lower c = to_lower d \<and> strncasecmp_eq cs ds"
  by (auto simp: strncasecmp_eq_def)

section \<open>The end of a string\<close>

abbreviation dquote :: char where "dquote \<equiv> CHR 0x22"
abbreviation backslash :: char where "backslash \<equiv> CHR 0x5C"

text \<open>
  The rest of the input from the closing quote on; a backslash hides the character after it.
\<close>

fun quoted_end :: "string \<Rightarrow> string" where
  "quoted_end [] = []"
| "quoted_end (c # cs) =
     (if c = dquote then c # cs
      else case cs of
        [] \<Rightarrow> []
      | d # ds \<Rightarrow> if c = backslash then quoted_end ds else quoted_end cs)"

definition newlines :: "char set" where
  "newlines = {CHR 0x0D, CHR 0x0A}"

definition string_delims :: "char set" where
  "string_delims = {CHR '';'', CHR '',''} \<union> newlines"

definition word_delims :: "char set" where
  "word_delims = {CHR '' '', CHR 0x09, CHR '']'', CHR '','', CHR '';''} \<union> newlines"

definition unquoted_end :: "bool \<Rightarrow> string \<Rightarrow> string" where
  "unquoted_end as_word walk =
     dropWhile (\<lambda>c. c \<notin> (if as_word then word_delims else string_delims)) walk"

section \<open>The copy loop\<close>

text \<open>
  Copies \<open>n\<close> characters; the characters in \<open>esc\<close> lose a backslash before them, which is looked for
  beyond the end too.
\<close>

fun copy_unescaped :: "char set \<Rightarrow> nat \<Rightarrow> string \<Rightarrow> string" where
  "copy_unescaped esc 0 s = []"
| "copy_unescaped esc (Suc n) [] = []"
| "copy_unescaped esc (Suc n) [c] = [c]"
| "copy_unescaped esc (Suc n) (c # d # s) =
     (if c = backslash \<and> d \<in> esc then d # copy_unescaped esc (n - 1) s
      else c # copy_unescaped esc n (d # s))"

text \<open>The result is where the scan stopped, and the string, \<open>None\<close> for an empty one.\<close>

definition parse_string :: "string \<Rightarrow> bool \<Rightarrow> string \<times> cstr" where
  "parse_string walk as_word =
     (let quoted = starts_with [dquote] walk;
          beginning = (if quoted then tl walk else walk);
          stop = (if quoted then quoted_end beginning else unquoted_end as_word beginning);
          n = length beginning - length stop
      in (stop, if n = 0 then None else Some (copy_unescaped {dquote, backslash} n beginning)))"

section \<open>Quoting in i3bar\<close>

fun quote_chars :: "string \<Rightarrow> string" where
  "quote_chars [] = []"
| "quote_chars (c # cs) =
     (if c = dquote \<or> c = backslash then [backslash, c] else [c]) @ quote_chars cs"

definition quote_workspace_name :: "string \<Rightarrow> string" where
  "quote_workspace_name name = ''workspace '' @ [dquote] @ quote_chars name @ [dquote]"

text \<open>The buffer of the code is large enough, with the terminating NUL.\<close>

lemma quote_workspace_name_fits:
  "length (quote_workspace_name name) + 1 \<le> 2 * (length name + length (''workspace '' @ [dquote, dquote]) + 1)"
proof -
  have "length (quote_chars name) \<le> 2 * length name" by (induction name) auto
  then show ?thesis by (simp add: quote_workspace_name_def)
qed

section \<open>Lemmas\<close>

lemma quoted_end_suffix: "suffix (quoted_end s) s"
proof (induction s rule: quoted_end.induct)
  case (2 c cs)
  then show ?case by (cases cs) (auto simp: suffix_ConsI)
qed simp

lemma unquoted_end_suffix: "suffix (unquoted_end w s) s"
  by (simp add: unquoted_end_def suffix_dropWhile)

lemma parse_string_suffix:
  assumes "parse_string walk w = (stop, r)"
  shows "suffix stop walk" and "r \<noteq> None \<Longrightarrow> length stop < length walk"
proof -
  have beg: "suffix (if starts_with [dquote] walk then tl walk else walk) walk" by (simp add: suffix_tl)
  have stop: "suffix stop (if starts_with [dquote] walk then tl walk else walk)"
    using assms by (auto simp: parse_string_def Let_def quoted_end_suffix unquoted_end_suffix)
  show "suffix stop walk" using stop beg by (rule suffix_order.trans)
  show "length stop < length walk" if "r \<noteq> None"
    using that assms suffix_length_le[OF beg] by (auto simp: parse_string_def Let_def split: if_splits)
qed

lemma quoted_end_quote: "quoted_end (quote_chars name @ dquote # rest) = dquote # rest"
proof (induction name)
  case (Cons c name)
  obtain d ds where "quote_chars name @ dquote # rest = d # ds" by (cases "quote_chars name @ dquote # rest") auto
  then show ?case using Cons by auto
qed simp

lemma copy_unescaped_quote:
  "copy_unescaped {dquote, backslash} (length (quote_chars name)) (quote_chars name @ dquote # rest) = name"
proof (induction name)
  case (Cons c name)
  obtain d ds where "quote_chars name @ dquote # rest = d # ds" by (cases "quote_chars name @ dquote # rest") auto
  then show ?case using Cons by auto
qed simp

lemma quote_chars_nonempty: "quote_chars name = [] \<longleftrightarrow> name = []"
  by (cases name) auto

lemma parse_string_quoted:
  "parse_string ([dquote] @ quote_chars name @ [dquote] @ rest) as_word =
     (dquote # rest, if name = [] then None else Some name)"
  by (simp add: parse_string_def starts_with_def Let_def quoted_end_quote copy_unescaped_quote
      quote_chars_nonempty)

end
