(* ===== verification/Parser_Stack.thy ===== *)
theory Parser_Stack
  imports Parse_String
begin

text \<open>
  What the parsers for commands and for the configuration share: the tokens of a state, as the
  generated tables hold them, and the small stack of identified tokens
  (include/config_parser.h, src/commands_parser.c, src/config_parser.c).
\<close>

text \<open>
  States and the calls are identified by the names that the files in parser-specs give them; the
  generated code numbers them.
\<close>

type_synonym cmdp_state = string

definition INITIAL :: cmdp_state where "INITIAL = ''INITIAL''"

datatype next_state = Goto cmdp_state | CALL string

text \<open>The name of a literal starts with a single quote.\<close>

record cmdp_token =
  token_name :: string
  token_ident :: cstr
  token_next :: next_state

type_synonym tables = "cmdp_state \<Rightarrow> cmdp_token list"

definition squote :: string where "squote = [CHR 0x27]"

definition is_literal :: "cmdp_token \<Rightarrow> bool" where
  "is_literal t \<longleftrightarrow> starts_with squote (token_name t)"

definition literal_text :: "cmdp_token \<Rightarrow> string" where
  "literal_text t = drop 1 (token_name t)"

section \<open>The stack\<close>

datatype entry_val = STACK_STR string | STACK_LONG int

record stack_entry =
  entry_id :: string
  entry_val :: entry_val

type_synonym stack = "stack_entry option list"

definition clear_stack :: stack where "clear_stack = replicate 10 None"

text \<open>The first free slot is used; the program exits when there is none.\<close>

fun push_entry :: "stack_entry \<Rightarrow> stack \<Rightarrow> stack option" where
  "push_entry e [] = None"
| "push_entry e (None # st) = Some (Some e # st)"
| "push_entry e (Some e' # st) = map_option ((#) (Some e')) (push_entry e st)"

definition push_string :: "string \<Rightarrow> string \<Rightarrow> stack \<Rightarrow> stack option" where
  "push_string ident str = push_entry \<lparr>entry_id = ident, entry_val = STACK_STR str\<rparr>"

definition push_long :: "string \<Rightarrow> int \<Rightarrow> stack \<Rightarrow> stack option" where
  "push_long ident num = push_entry \<lparr>entry_id = ident, entry_val = STACK_LONG num\<rparr>"

fun stack_find :: "string \<Rightarrow> stack \<Rightarrow> entry_val option" where
  "stack_find ident [] = None"
| "stack_find ident (None # st) = None"
| "stack_find ident (Some e # st) = (if entry_id e = ident then Some (entry_val e) else stack_find ident st)"

text \<open>Reading the wrong member of the union is a failure.\<close>

definition get_string :: "stack \<Rightarrow> string \<Rightarrow> cstr option" where
  "get_string st ident =
     (case stack_find ident st of
        None \<Rightarrow> Some None
      | Some (STACK_STR s) \<Rightarrow> Some (Some s)
      | Some (STACK_LONG n) \<Rightarrow> None)"

definition get_long :: "stack \<Rightarrow> string \<Rightarrow> int option" where
  "get_long st ident =
     (case stack_find ident st of
        None \<Rightarrow> Some 0
      | Some (STACK_LONG n) \<Rightarrow> Some n
      | Some (STACK_STR s) \<Rightarrow> None)"

section \<open>Stacks as lists of entries\<close>

text \<open>The used slots come first, and a push appends.\<close>

definition stack_of :: "stack_entry list \<Rightarrow> stack" where
  "stack_of es = map Some es @ replicate (10 - length es) None"

lemma stack_of_Nil: "stack_of [] = clear_stack"
  by (simp add: stack_of_def clear_stack_def)

lemma push_entry_append: "push_entry e (map Some es @ None # st) = Some (map Some (es @ [e]) @ st)"
  by (induction es) auto

lemma push_entry_full: "push_entry e (map Some es) = None"
  by (induction es) auto

lemma push_entry_stack_of:
  "length es \<le> 10 \<Longrightarrow>
    push_entry e (stack_of es) = (if length es < 10 then Some (stack_of (es @ [e])) else None)"
proof (cases "length es < 10")
  case True
  then have "replicate (10 - length es) None = None # replicate (9 - length es) (None :: stack_entry option)"
    by (cases "10 - length es") auto
  then show ?thesis using True by (simp add: stack_of_def push_entry_append)
qed (simp add: stack_of_def push_entry_full)

lemma stack_find_stack_of:
  "stack_find ident (stack_of es) = map_option entry_val (List.find (\<lambda>e. entry_id e = ident) es)"
proof -
  have "stack_find ident (map Some es @ replicate k None)
      = map_option entry_val (List.find (\<lambda>e. entry_id e = ident) es)" for k
    by (induction es) (cases k, auto)
  then show ?thesis by (simp add: stack_of_def)
qed

section \<open>The message for what was expected\<close>

definition token_display :: "cmdp_token \<Rightarrow> string" where
  "token_display t = (if is_literal t then squote @ literal_text t @ squote
     else ''<'' @ token_name t @ ''>'')"

end
