(* ===== verification/Command_Parser.thy ===== *)
theory Command_Parser
  imports Parser_Stack Cmd_State
begin

text \<open>
  The parser for commands (src/commands_parser.c): a state machine over the generated tables, which
  calls the command functions.  The tables and the generated dispatch to the command functions are
  arguments: \<open>tokens\<close> gives the tokens of a state, and \<open>call\<close> runs the function of a call on the
  stack and says which state follows.
\<close>

type_synonym calls = "string \<Rightarrow> stack \<Rightarrow> cmd_state \<Rightarrow> (cmd_state \<times> cmdp_state) option"

text \<open>
  The static variables of the parser.  The fields of \<open>subcommand_output\<close> and the current match are
  those of the commands.
\<close>

record cmd_parser =
  p_state :: cmdp_state
  p_stack :: stack
  p_cmd :: cmd_state
  p_render :: bool

definition cmd_next_state :: "calls \<Rightarrow> cmdp_token \<Rightarrow> cmd_parser \<Rightarrow> cmd_parser option" where
  "cmd_next_state call t p =
     (case token_next t of
        CALL i \<Rightarrow> do {
          (st, s) \<leftarrow> call i (p_stack p) ((p_cmd p)\<lparr>needs_tree_render := False\<rparr>);
          Some (p\<lparr>p_cmd := st, p_state := s, p_stack := clear_stack,
            p_render := (p_render p \<or> needs_tree_render st)\<rparr>)
        }
      | Goto s \<Rightarrow> Some (p\<lparr>p_state := s, p_stack := (if s = INITIAL then clear_stack else p_stack p)\<rparr>))"

definition cmd_push :: "cmdp_token \<Rightarrow> entry_val \<Rightarrow> cmd_parser \<Rightarrow> cmd_parser option" where
  "cmd_push t v p =
     (case token_ident t of
        None \<Rightarrow> Some p
      | Some ident \<Rightarrow> map_option (\<lambda>st. p\<lparr>p_stack := st\<rparr>)
          (case v of STACK_STR s \<Rightarrow> push_string ident s (p_stack p) | STACK_LONG n \<Rightarrow> push_long ident n (p_stack p)))"

definition cmd_criteria_reset :: "cmd_parser \<Rightarrow> cmd_parser" where
  "cmd_criteria_reset p = p\<lparr>p_cmd := cmd_criteria_init (p_cmd p)\<rparr>"

section \<open>One token\<close>

text \<open>
  What the loop over the tokens of a state leads to: the next position, the end of the input (the
  position is then behind the NUL), or no token at this position.  An empty quoted string is not
  accepted, but its first quote stays skipped.
\<close>

datatype scan = Next string cmd_parser | Finished cmd_parser | Unhandled string

definition is_number :: "cmdp_token \<Rightarrow> bool" where "is_number t \<longleftrightarrow> token_name t = ''number''"
definition is_string :: "cmdp_token \<Rightarrow> bool" where "is_string t \<longleftrightarrow> token_name t = ''string''"
definition is_word :: "cmdp_token \<Rightarrow> bool" where "is_word t \<longleftrightarrow> token_name t = ''word''"
definition is_end :: "cmdp_token \<Rightarrow> bool" where "is_end t \<longleftrightarrow> token_name t = ''end''"

definition accept_token :: "calls \<Rightarrow> cmdp_token \<Rightarrow> entry_val \<Rightarrow> string \<Rightarrow> cmd_parser \<Rightarrow> scan option" where
  "accept_token call t v walk p = do {
     p \<leftarrow> cmd_push t v p;
     p \<leftarrow> cmd_next_state call t p;
     Some (Next walk p)
   }"

definition accept_end :: "calls \<Rightarrow> cmdp_token \<Rightarrow> string \<Rightarrow> cmd_parser \<Rightarrow> scan option" where
  "accept_end call t walk p = do {
     p \<leftarrow> cmd_next_state call t p;
     let p = (if starts_with '','' walk then p else cmd_criteria_reset p);
     Some (if walk = [] then Finished p else Next (tl walk) p)
   }"

fun try_tokens :: "calls \<Rightarrow> cmdp_token list \<Rightarrow> string \<Rightarrow> cmd_parser \<Rightarrow> scan option" where
  "try_tokens call [] walk p = Some (Unhandled walk)"
| "try_tokens call (t # ts) walk p =
     (if is_literal t then
        if strncasecmp_eq walk (literal_text t)
        then accept_token call t (STACK_STR (literal_text t)) (drop (length (literal_text t)) walk) p
        else try_tokens call ts walk p
      else if is_number t then
        let r = strtol 10 walk in
        if erange r \<or> num_rest r = walk then try_tokens call ts walk p
        else accept_token call t (STACK_LONG (num_value r)) (num_rest r) p
      else if is_string t \<or> is_word t then
        case parse_string walk (is_word t) of
          (stop, Some str) \<Rightarrow> accept_token call t (STACK_STR str) (if starts_with [dquote] stop then tl stop else stop) p
        | (stop, None) \<Rightarrow> try_tokens call ts stop p
      else if is_end t \<and> (walk = [] \<or> starts_with '','' walk \<or> starts_with '';'' walk) then
        accept_end call t walk p
      else try_tokens call ts walk p)"

section \<open>The loop\<close>

definition is_blank :: "char \<Rightarrow> bool" where
  "is_blank c \<longleftrightarrow> c \<in> {CHR '' '', CHR 0x09} \<union> newlines"

fun join_tokens :: "cmdp_token list \<Rightarrow> string" where
  "join_tokens [] = []"
| "join_tokens (t # ts) = token_display t @ (if ts = [] then [] else '', '') @ join_tokens ts"

definition expected_message :: "cmdp_token list \<Rightarrow> string" where
  "expected_message ts = ''Expected one of these tokens: '' @ join_tokens ts"

definition error_position :: "string \<Rightarrow> string \<Rightarrow> string" where
  "error_position input walk =
     map (\<lambda>i. if length input - length walk \<le> i then CHR ''^'' else CHR '' '') [0..<length input]"

record command_result =
  parse_error :: bool
  error_message :: cstr
  result_needs_tree_render :: bool

definition fail_command :: "tables \<Rightarrow> string \<Rightarrow> string \<Rightarrow> cmd_parser \<Rightarrow> command_result \<times> cmd_parser" where
  "fail_command tokens input walk p =
     (let msg = expected_message (tokens (p_state p)) in
      (\<lparr>parse_error = True, error_message = Some msg, result_needs_tree_render = p_render p\<rparr>,
       p\<lparr>p_cmd := reply (R_Parse_Error msg input (error_position input walk)) (p_cmd p),
         p_stack := clear_stack\<rparr>))"

text \<open>
  \<open>k\<close> bounds the iterations.  An iteration that goes on consumes a character, except that
  \<open>fullscreen\<close> first goes through a state with an empty literal; so there are at most two for each
  character and two at the end.
\<close>

fun parse_loop ::
  "nat \<Rightarrow> calls \<Rightarrow> tables \<Rightarrow> string \<Rightarrow> string \<Rightarrow> cmd_parser \<Rightarrow> (command_result \<times> cmd_parser) option" where
  "parse_loop 0 call tokens input walk p = None"
| "parse_loop (Suc k) call tokens input walk p = do {
     r \<leftarrow> try_tokens call (tokens (p_state p)) (dropWhile is_blank walk) p;
     (case r of
        Next walk p \<Rightarrow> parse_loop k call tokens input walk p
      | Finished p \<Rightarrow>
          Some (\<lparr>parse_error = False, error_message = None, result_needs_tree_render = p_render p\<rparr>, p)
      | Unhandled walk \<Rightarrow> Some (fail_command tokens input walk p))
   }"

definition parse_command ::
  "calls \<Rightarrow> tables \<Rightarrow> string \<Rightarrow> cmd_parser \<Rightarrow> (command_result \<times> cmd_parser) option" where
  "parse_command call tokens input p =
     parse_loop (2 * length input + 2) call tokens input input
       (cmd_criteria_reset (p\<lparr>p_state := INITIAL, p_render := False\<rparr>))"

section \<open>The buffer for the expected tokens\<close>

definition tokenlen :: "cmdp_token list \<Rightarrow> nat" where
  "tokenlen ts = (\<Sum>t\<leftarrow>ts. length (token_name t) + 4)"

lemma expected_tokens_fit: "length (join_tokens ts) \<le> tokenlen ts"
proof (induction ts)
  case (Cons t ts)
  have "length (token_display t) \<le> length (token_name t) + 2"
    by (auto simp: token_display_def literal_text_def squote_def)
  then show ?case using Cons by (simp add: tokenlen_def)
qed (simp add: tokenlen_def)

lemma error_position_marks:
  assumes "suffix walk input"
  shows "error_position input walk =
    replicate (length input - length walk) (CHR '' '') @ replicate (length walk) (CHR ''^'')"
proof -
  have "length walk \<le> length input" using assms by (rule suffix_length_le)
  then show ?thesis
    by (intro nth_equalityI) (auto simp: error_position_def nth_append)
qed

end
