(* ===== verification/Command_Spec.thy ===== *)
theory Command_Spec
  imports Command_Parser Commands
begin

text \<open>
  The grammar of the commands (parser-specs/commands.spec), which the build turns into the tables of
  the parser, and the calls of the command functions with the arguments from the stack.
\<close>

definition lit :: "string \<Rightarrow> string" where "lit s = squote @ s"

definition token :: "cstr \<Rightarrow> string list \<Rightarrow> next_state \<Rightarrow> cmdp_token list" where
  "token ident names nxt = map (\<lambda>n. \<lparr>token_name = n, token_ident = ident, token_next = nxt\<rparr>) names"

definition commands_spec :: "(cmdp_state \<times> cmdp_token list) list" where
  "commands_spec = [
   (''INITIAL'',
    token None [''end''] (Goto ''INITIAL'') @
    token None [lit ''[''] (CALL ''cmd_criteria_init(); CRITERIA'') @
    token None [lit ''move''] (Goto ''MOVE'') @
    token None [lit ''exec''] (Goto ''EXEC'') @
    token None [lit ''exit''] (CALL ''cmd_exit()'') @
    token None [lit ''restart''] (CALL ''cmd_restart()'') @
    token None [lit ''reload''] (CALL ''cmd_reload()'') @
    token None [lit ''shmlog''] (Goto ''SHMLOG'') @
    token None [lit ''debuglog''] (Goto ''DEBUGLOG'') @
    token None [lit ''border''] (Goto ''BORDER'') @
    token None [lit ''layout''] (Goto ''LAYOUT'') @
    token None [lit ''append_layout''] (Goto ''APPEND_LAYOUT'') @
    token None [lit ''workspace''] (Goto ''WORKSPACE'') @
    token None [lit ''focus''] (Goto ''FOCUS'') @
    token None [lit ''kill''] (Goto ''KILL'') @
    token None [lit ''open''] (CALL ''cmd_open()'') @
    token None [lit ''fullscreen''] (Goto ''FULLSCREEN'') @
    token None [lit ''sticky''] (Goto ''STICKY'') @
    token None [lit ''split''] (Goto ''SPLIT'') @
    token None [lit ''floating''] (Goto ''FLOATING'') @
    token None [lit ''mark''] (Goto ''MARK'') @
    token None [lit ''unmark''] (Goto ''UNMARK'') @
    token None [lit ''resize''] (Goto ''RESIZE'') @
    token None [lit ''rename''] (Goto ''RENAME'') @
    token None [lit ''nop''] (Goto ''NOP'') @
    token None [lit ''scratchpad''] (Goto ''SCRATCHPAD'') @
    token None [lit ''swap''] (Goto ''SWAP'') @
    token None [lit ''title_format''] (Goto ''TITLE_FORMAT'') @
    token None [lit ''title_window_icon''] (Goto ''TITLE_WINDOW_ICON'') @
    token None [lit ''mode''] (Goto ''MODE'') @
    token None [lit ''bar''] (Goto ''BAR'') @
    token None [lit ''gaps''] (Goto ''GAPS'')),
   (''CRITERIA'',
    token (Some ''ctype'') [lit ''class''] (Goto ''CRITERION'') @
    token (Some ''ctype'') [lit ''instance''] (Goto ''CRITERION'') @
    token (Some ''ctype'') [lit ''window_role''] (Goto ''CRITERION'') @
    token (Some ''ctype'') [lit ''con_id''] (Goto ''CRITERION'') @
    token (Some ''ctype'') [lit ''id''] (Goto ''CRITERION'') @
    token (Some ''ctype'') [lit ''window_type''] (Goto ''CRITERION'') @
    token (Some ''ctype'') [lit ''con_mark''] (Goto ''CRITERION'') @
    token (Some ''ctype'') [lit ''title''] (Goto ''CRITERION'') @
    token (Some ''ctype'') [lit ''urgent''] (Goto ''CRITERION'') @
    token (Some ''ctype'') [lit ''workspace''] (Goto ''CRITERION'') @
    token (Some ''ctype'') [lit ''machine''] (Goto ''CRITERION'') @
    token (Some ''ctype'') [lit ''floating_from''] (Goto ''CRITERION_FROM'') @
    token (Some ''ctype'') [lit ''tiling_from''] (Goto ''CRITERION_FROM'') @
    token (Some ''ctype'') [lit ''tiling'', lit ''floating'', lit ''all''] (CALL ''cmd_criteria_add($ctype, NULL); CRITERIA'') @
    token None [lit '']''] (CALL ''cmd_criteria_match_windows(); INITIAL'')),
   (''CRITERION'',
    token None [lit ''=''] (Goto ''CRITERION_STR'')),
   (''CRITERION_FROM'',
    token None [lit ''=''] (Goto ''CRITERION_FROM_STR_START'')),
   (''CRITERION_FROM_STR_START'',
    token None [lit ''\"''] (Goto ''CRITERION_FROM_STR'') @
    token (Some ''kind'') [lit ''auto'', lit ''user''] (CALL ''cmd_criteria_add($ctype, $kind); CRITERIA'')),
   (''CRITERION_FROM_STR'',
    token (Some ''kind'') [lit ''auto'', lit ''user''] (Goto ''CRITERION_FROM_STR_END'')),
   (''CRITERION_FROM_STR_END'',
    token None [lit ''\"''] (CALL ''cmd_criteria_add($ctype, $kind); CRITERIA'')),
   (''CRITERION_STR'',
    token (Some ''cvalue'') [''word''] (CALL ''cmd_criteria_add($ctype, $cvalue); CRITERIA'')),
   (''EXEC'',
    token (Some ''nosn'') [lit ''--no-startup-id''] (Goto ''EXEC'') @
    token (Some ''command'') [''string''] (CALL ''cmd_exec($nosn, $command)'')),
   (''SHMLOG'',
    token (Some ''argument'') [''string''] (CALL ''cmd_shmlog($argument)'')),
   (''DEBUGLOG'',
    token (Some ''argument'') [lit ''toggle'', lit ''on'', lit ''off''] (CALL ''cmd_debuglog($argument)'')),
   (''BORDER'',
    token (Some ''border_style'') [lit ''normal'', lit ''pixel'', lit ''toggle''] (Goto ''BORDER_WIDTH'') @
    token (Some ''border_style'') [lit ''none''] (CALL ''cmd_border($border_style, 0)'') @
    token None [lit ''1pixel''] (CALL ''cmd_border(\"pixel\", 1)'')),
   (''BORDER_WIDTH'',
    token None [''end''] (CALL ''cmd_border($border_style, -1)'') @
    token (Some ''border_width'') [''number''] (CALL ''cmd_border($border_style, &border_width)'')),
   (''GAPS'',
    token (Some ''type'') [lit ''inner'', lit ''outer'', lit ''horizontal'', lit ''vertical'', lit ''top'', lit ''right'', lit ''bottom'', lit ''left''] (Goto ''GAPS_WITH_TYPE'')),
   (''GAPS_WITH_TYPE'',
    token (Some ''scope'') [lit ''current'', lit ''all''] (Goto ''GAPS_WITH_SCOPE'')),
   (''GAPS_WITH_SCOPE'',
    token (Some ''mode'') [lit ''plus'', lit ''minus'', lit ''set'', lit ''toggle''] (Goto ''GAPS_WITH_MODE'')),
   (''GAPS_WITH_MODE'',
    token (Some ''value'') [''word''] (Goto ''GAPS_END'')),
   (''GAPS_END'',
    token None [lit ''px''] (Goto ''GAPS_END'') @
    token None [''end''] (CALL ''cmd_gaps($type, $scope, $mode, $value)'')),
   (''LAYOUT'',
    token (Some ''layout_mode'') [lit ''default'', lit ''stacked'', lit ''stacking'', lit ''tabbed'', lit ''splitv'', lit ''splith''] (CALL ''cmd_layout($layout_mode)'') @
    token None [lit ''toggle''] (Goto ''LAYOUT_TOGGLE'')),
   (''LAYOUT_TOGGLE'',
    token None [''end''] (CALL ''cmd_layout_toggle($toggle_mode)'') @
    token (Some ''toggle_mode'') [''string''] (CALL ''cmd_layout_toggle($toggle_mode)'')),
   (''APPEND_LAYOUT'',
    token (Some ''path'') [''string''] (CALL ''cmd_append_layout($path)'')),
   (''WORKSPACE'',
    token (Some ''no_auto_back_and_forth'') [lit ''--no-auto-back-and-forth''] (Goto ''WORKSPACE'') @
    token (Some ''direction'') [lit ''next_on_output'', lit ''prev_on_output'', lit ''next'', lit ''prev''] (CALL ''cmd_workspace($direction)'') @
    token None [lit ''back_and_forth''] (CALL ''cmd_workspace_back_and_forth()'') @
    token None [lit ''number''] (Goto ''WORKSPACE_NUMBER'') @
    token (Some ''workspace'') [''string''] (CALL ''cmd_workspace_name($workspace, $no_auto_back_and_forth)'')),
   (''WORKSPACE_NUMBER'',
    token (Some ''workspace'') [''string''] (CALL ''cmd_workspace_number($workspace, $no_auto_back_and_forth)'')),
   (''FOCUS'',
    token (Some ''direction'') [lit ''left'', lit ''right'', lit ''up'', lit ''down''] (CALL ''cmd_focus_direction($direction)'') @
    token (Some ''direction'') [lit ''prev'', lit ''next''] (Goto ''FOCUS_AUTO'') @
    token None [lit ''output''] (Goto ''FOCUS_OUTPUT'') @
    token (Some ''window_mode'') [lit ''tiling'', lit ''floating'', lit ''mode_toggle''] (CALL ''cmd_focus_window_mode($window_mode)'') @
    token (Some ''level'') [lit ''parent'', lit ''child''] (CALL ''cmd_focus_level($level)'') @
    token (Some ''workspace'') [lit ''workspace''] (CALL ''cmd_focus(1)'') @
    token None [''end''] (CALL ''cmd_focus(0)'')),
   (''FOCUS_AUTO'',
    token None [lit ''sibling''] (CALL ''cmd_focus_sibling($direction)'') @
    token None [''end''] (CALL ''cmd_focus_direction($direction)'')),
   (''FOCUS_OUTPUT'',
    token (Some ''output'') [''word''] (CALL ''cmd_focus_output($output); FOCUS_OUTPUT'') @
    token None [''end''] (CALL ''cmd_focus_output(NULL); INITIAL'')),
   (''KILL'',
    token (Some ''kill_mode'') [lit ''window'', lit ''client''] (CALL ''cmd_kill($kill_mode)'') @
    token None [''end''] (CALL ''cmd_kill($kill_mode)'')),
   (''FULLSCREEN'',
    token (Some ''action'') [lit ''disable''] (CALL ''cmd_fullscreen($action, \"output\")'') @
    token (Some ''action'') [lit ''enable'', lit ''toggle''] (Goto ''FULLSCREEN_MODE'') @
    token (Some ''action'') [lit ''''] (Goto ''FULLSCREEN_COMPAT'')),
   (''FULLSCREEN_MODE'',
    token (Some ''mode'') [lit ''global''] (CALL ''cmd_fullscreen($action, $mode)'') @
    token None [''end''] (CALL ''cmd_fullscreen($action, \"output\")'')),
   (''FULLSCREEN_COMPAT'',
    token (Some ''mode'') [lit ''global''] (CALL ''cmd_fullscreen(\"toggle\", $mode)'') @
    token None [''end''] (CALL ''cmd_fullscreen(\"toggle\", \"output\")'')),
   (''STICKY'',
    token (Some ''action'') [lit ''enable'', lit ''disable'', lit ''toggle''] (CALL ''cmd_sticky($action)'')),
   (''SPLIT'',
    token (Some ''direction'') [lit ''horizontal'', lit ''vertical'', lit ''toggle'', lit ''v'', lit ''h'', lit ''t''] (CALL ''cmd_split($direction)'')),
   (''FLOATING'',
    token (Some ''floating'') [lit ''enable'', lit ''disable'', lit ''toggle''] (CALL ''cmd_floating($floating)'')),
   (''MARK'',
    token (Some ''mode'') [lit ''--add'', lit ''--replace''] (Goto ''MARK'') @
    token (Some ''toggle'') [lit ''--toggle''] (Goto ''MARK'') @
    token (Some ''mark'') [''string''] (CALL ''cmd_mark($mark, $mode, $toggle)'')),
   (''UNMARK'',
    token None [''end''] (CALL ''cmd_unmark($mark)'') @
    token (Some ''mark'') [''string''] (CALL ''cmd_unmark($mark)'')),
   (''RESIZE'',
    token (Some ''way'') [lit ''grow'', lit ''shrink''] (Goto ''RESIZE_DIRECTION'') @
    token (Some ''set'') [lit ''set''] (Goto ''RESIZE_SET'')),
   (''RESIZE_DIRECTION'',
    token (Some ''direction'') [lit ''up'', lit ''down'', lit ''left'', lit ''right'', lit ''width'', lit ''height''] (Goto ''RESIZE_PX'')),
   (''RESIZE_PX'',
    token (Some ''resize_px'') [''number''] (Goto ''RESIZE_TILING'') @
    token None [''end''] (CALL ''cmd_resize($way, $direction, 10, 10)'')),
   (''RESIZE_TILING'',
    token None [lit ''px''] (Goto ''RESIZE_TILING'') @
    token None [lit ''or''] (Goto ''RESIZE_TILING_OR'') @
    token None [''end''] (CALL ''cmd_resize($way, $direction, &resize_px, 0)'')),
   (''RESIZE_TILING_OR'',
    token (Some ''resize_ppt'') [''number''] (Goto ''RESIZE_TILING_FINAL'')),
   (''RESIZE_TILING_FINAL'',
    token None [lit ''ppt'', ''end''] (CALL ''cmd_resize($way, $direction, &resize_px, &resize_ppt)'')),
   (''RESIZE_SET'',
    token None [lit ''height''] (Goto ''RESIZE_HEIGHT_GET_NUMBER'') @
    token None [lit ''width''] (Goto ''RESIZE_SET'') @
    token (Some ''width'') [''number''] (Goto ''RESIZE_WIDTH'')),
   (''RESIZE_WIDTH'',
    token (Some ''mode_width'') [lit ''px'', lit ''ppt''] (Goto ''RESIZE_WIDTH'') @
    token None [''end''] (CALL ''cmd_resize_set(&width, $mode_width, 0, 0)'') @
    token None [lit ''height''] (Goto ''RESIZE_HEIGHT_GET_NUMBER'') @
    token (Some ''height'') [''number''] (Goto ''RESIZE_HEIGHT'')),
   (''RESIZE_HEIGHT_GET_NUMBER'',
    token (Some ''height'') [''number''] (Goto ''RESIZE_HEIGHT'')),
   (''RESIZE_HEIGHT'',
    token (Some ''mode_height'') [lit ''px'', lit ''ppt''] (Goto ''RESIZE_HEIGHT'') @
    token None [''end''] (CALL ''cmd_resize_set(&width, $mode_width, &height, $mode_height)'')),
   (''RENAME'',
    token None [lit ''workspace''] (Goto ''RENAME_WORKSPACE'')),
   (''RENAME_WORKSPACE'',
    token None [lit ''to''] (Goto ''RENAME_WORKSPACE_LIKELY_TO'') @
    token (Some ''old_name'') [''word''] (Goto ''RENAME_WORKSPACE_TO'')),
   (''RENAME_WORKSPACE_LIKELY_TO'',
    token None [lit ''to ''] (Goto ''RENAME_WORKSPACE_LIKELY_TO_NEW_NAME'') @
    token (Some ''new_name'') [''word''] (CALL ''cmd_rename_workspace(NULL, $new_name)'')),
   (''RENAME_WORKSPACE_LIKELY_TO_NEW_NAME'',
    token (Some ''new_name'') [''string''] (CALL ''cmd_rename_workspace(\"to\", $new_name)'') @
    token None [''end''] (CALL ''cmd_rename_workspace(NULL, \"to\")'')),
   (''RENAME_WORKSPACE_TO'',
    token None [lit ''to''] (Goto ''RENAME_WORKSPACE_TO_NEW_NAME'')),
   (''RENAME_WORKSPACE_TO_NEW_NAME'',
    token (Some ''new_name'') [''string''] (CALL ''cmd_rename_workspace($old_name, $new_name)'')),
   (''MOVE'',
    token None [lit ''window''] (Goto ''MOVE'') @
    token None [lit ''container''] (Goto ''MOVE'') @
    token None [lit ''to''] (Goto ''MOVE'') @
    token (Some ''no_auto_back_and_forth'') [lit ''--no-auto-back-and-forth''] (Goto ''MOVE'') @
    token None [lit ''workspace''] (Goto ''MOVE_WORKSPACE'') @
    token None [lit ''output''] (Goto ''MOVE_TO_OUTPUT'') @
    token None [lit ''mark''] (Goto ''MOVE_TO_MARK'') @
    token None [lit ''scratchpad''] (CALL ''cmd_move_scratchpad()'') @
    token (Some ''direction'') [lit ''left'', lit ''right'', lit ''up'', lit ''down''] (Goto ''MOVE_DIRECTION'') @
    token (Some ''method'') [lit ''position''] (Goto ''MOVE_TO_POSITION'') @
    token (Some ''method'') [lit ''absolute''] (Goto ''MOVE_TO_ABSOLUTE_POSITION'')),
   (''MOVE_DIRECTION'',
    token (Some ''amount'') [''number''] (Goto ''MOVE_DIRECTION_NUMBER'') @
    token None [''end''] (CALL ''cmd_move_direction($direction, 10, \"px\")'')),
   (''MOVE_DIRECTION_NUMBER'',
    token (Some ''mode'') [lit ''px'', lit ''ppt''] (CALL ''cmd_move_direction($direction, &amount, $mode)'') @
    token None [''end''] (CALL ''cmd_move_direction($direction, &amount, \"px\")'')),
   (''MOVE_WORKSPACE'',
    token None [lit ''to ''] (Goto ''MOVE_WORKSPACE_TO_OUTPUT'') @
    token (Some ''workspace'') [lit ''next_on_output'', lit ''prev_on_output'', lit ''next'', lit ''prev'', lit ''current''] (CALL ''cmd_move_con_to_workspace($workspace)'') @
    token None [lit ''back_and_forth''] (CALL ''cmd_move_con_to_workspace_back_and_forth()'') @
    token None [lit ''number''] (Goto ''MOVE_WORKSPACE_NUMBER'') @
    token (Some ''workspace'') [''string''] (CALL ''cmd_move_con_to_workspace_name($workspace, $no_auto_back_and_forth)'')),
   (''MOVE_WORKSPACE_NUMBER'',
    token (Some ''number'') [''string''] (CALL ''cmd_move_con_to_workspace_number($number, $no_auto_back_and_forth)'')),
   (''MOVE_TO_OUTPUT'',
    token (Some ''output'') [''word''] (CALL ''cmd_move_con_to_output($output, 0); MOVE_TO_OUTPUT'') @
    token None [''end''] (CALL ''cmd_move_con_to_output(NULL, 0); INITIAL'')),
   (''MOVE_TO_MARK'',
    token (Some ''mark'') [''string''] (CALL ''cmd_move_con_to_mark($mark)'')),
   (''MOVE_WORKSPACE_TO_OUTPUT'',
    token None [lit ''output''] (Goto ''MOVE_WORKSPACE_TO_OUTPUT_WORD'')),
   (''MOVE_WORKSPACE_TO_OUTPUT_WORD'',
    token (Some ''output'') [''word''] (CALL ''cmd_move_con_to_output($output, 1); MOVE_WORKSPACE_TO_OUTPUT_WORD'') @
    token None [''end''] (CALL ''cmd_move_con_to_output(NULL, 1); INITIAL'')),
   (''MOVE_TO_ABSOLUTE_POSITION'',
    token None [lit ''position''] (Goto ''MOVE_TO_POSITION'')),
   (''MOVE_TO_POSITION'',
    token None [lit ''center''] (CALL ''cmd_move_window_to_center($method)'') @
    token None [lit ''mouse'', lit ''cursor'', lit ''pointer''] (CALL ''cmd_move_window_to_mouse()'') @
    token (Some ''coord_x'') [''number''] (Goto ''MOVE_TO_POSITION_X'')),
   (''MOVE_TO_POSITION_X'',
    token (Some ''mode_x'') [lit ''px'', lit ''ppt''] (Goto ''MOVE_TO_POSITION_X'') @
    token (Some ''coord_y'') [''number''] (Goto ''MOVE_TO_POSITION_Y'')),
   (''MOVE_TO_POSITION_Y'',
    token (Some ''mode_y'') [lit ''px'', lit ''ppt''] (CALL ''cmd_move_window_to_position(&coord_x, $mode_x, &coord_y, $mode_y)'') @
    token None [''end''] (CALL ''cmd_move_window_to_position(&coord_x, $mode_x, &coord_y, 0)'')),
   (''MODE'',
    token (Some ''mode'') [''string''] (CALL ''cmd_mode($mode)'')),
   (''NOP'',
    token (Some ''comment'') [''string''] (CALL ''cmd_nop($comment)'') @
    token None [''end''] (CALL ''cmd_nop(NULL)'')),
   (''SCRATCHPAD'',
    token None [lit ''show''] (CALL ''cmd_scratchpad_show()'')),
   (''SWAP'',
    token None [lit ''container''] (Goto ''SWAP'') @
    token None [lit ''with''] (Goto ''SWAP'') @
    token (Some ''mode'') [lit ''id'', lit ''con_id'', lit ''mark''] (Goto ''SWAP_ARGUMENT'')),
   (''SWAP_ARGUMENT'',
    token (Some ''arg'') [''string''] (CALL ''cmd_swap($mode, $arg)'')),
   (''TITLE_FORMAT'',
    token (Some ''format'') [''string''] (CALL ''cmd_title_format($format)'')),
   (''TITLE_WINDOW_ICON'',
    token None [lit ''padding''] (Goto ''TITLE_WINDOW_ICON_PADDING'') @
    token (Some ''enable'') [lit ''toggle''] (Goto ''TITLE_WINDOW_ICON_PADDING'') @
    token (Some ''enable'') [lit ''1'', lit ''yes'', lit ''true'', lit ''on'', lit ''enable'', lit ''active'', lit ''0'', lit ''no'', lit ''false'', lit ''off'', lit ''disable'', lit ''inactive''] (CALL ''cmd_title_window_icon($enable, 0)'')),
   (''TITLE_WINDOW_ICON_PADDING'',
    token None [''end''] (CALL ''cmd_title_window_icon($enable, &padding)'') @
    token None [lit ''px''] (CALL ''cmd_title_window_icon($enable, &padding)'') @
    token (Some ''padding'') [''number''] (Goto ''TITLE_WINDOW_ICON_PADDING'')),
   (''BAR'',
    token None [lit ''hidden_state''] (Goto ''BAR_HIDDEN_STATE'') @
    token None [lit ''mode''] (Goto ''BAR_MODE'')),
   (''BAR_HIDDEN_STATE'',
    token (Some ''bar_value'') [lit ''hide'', lit ''show'', lit ''toggle''] (Goto ''BAR_HIDDEN_STATE_ID'')),
   (''BAR_HIDDEN_STATE_ID'',
    token (Some ''bar_id'') [''word''] (Goto ''BAR_HIDDEN_STATE_ID'') @
    token None [''end''] (CALL ''cmd_bar_hidden_state($bar_value, $bar_id)'')),
   (''BAR_MODE'',
    token (Some ''bar_value'') [lit ''dock'', lit ''hide'', lit ''invisible'', lit ''toggle''] (Goto ''BAR_MODE_ID'')),
   (''BAR_MODE_ID'',
    token (Some ''bar_id'') [''word''] (Goto ''BAR_MODE_ID'') @
    token None [''end''] (CALL ''cmd_bar_mode($bar_value, $bar_id)''))]"

definition command_tokens :: tables where
  "command_tokens s = (case map_of commands_spec s of Some ts \<Rightarrow> ts | None \<Rightarrow> [])"

section \<open>Calls\<close>

text \<open>A string that the function dereferences.\<close>

definition str_arg :: "stack \<Rightarrow> string \<Rightarrow> string option" where
  "str_arg st ident = Option.bind (get_string st ident) (\<lambda>s. s)"

definition command_calls :: "(string \<times> (stack \<Rightarrow> command option) \<times> cmdp_state) list" where
  "command_calls = [
   (''cmd_criteria_init(); CRITERIA'', (\<lambda>st. Some Criteria_Init, ''CRITERIA'')),
   (''cmd_open()'', (\<lambda>st. Some Open, INITIAL)),
   (''cmd_criteria_add($ctype, NULL); CRITERIA'', (\<lambda>st. do { x \<leftarrow> str_arg st ''ctype''; Some (Criteria_Add x None) }, ''CRITERIA'')),
   (''cmd_criteria_match_windows(); INITIAL'', (\<lambda>st. Some Criteria_Match_Windows, INITIAL)),
   (''cmd_criteria_add($ctype, $kind); CRITERIA'', (\<lambda>st. do { x \<leftarrow> str_arg st ''ctype''; y \<leftarrow> get_string st ''kind''; Some (Criteria_Add x y) }, ''CRITERIA'')),
   (''cmd_criteria_add($ctype, $cvalue); CRITERIA'', (\<lambda>st. do { x \<leftarrow> str_arg st ''ctype''; y \<leftarrow> get_string st ''cvalue''; Some (Criteria_Add x y) }, ''CRITERIA'')),
   (''cmd_exec($nosn, $command)'', (\<lambda>st. do { x \<leftarrow> get_string st ''nosn''; y \<leftarrow> str_arg st ''command''; Some (Exec_Command x y) }, INITIAL)),
   (''cmd_shmlog($argument)'', (\<lambda>st. do { x \<leftarrow> str_arg st ''argument''; Some (Shmlog x) }, INITIAL)),
   (''cmd_debuglog($argument)'', (\<lambda>st. do { x \<leftarrow> str_arg st ''argument''; Some (Debuglog x) }, INITIAL)),
   (''cmd_border($border_style, 0)'', (\<lambda>st. do { x \<leftarrow> str_arg st ''border_style''; Some (Border x 0) }, INITIAL)),
   (''cmd_border(\"pixel\", 1)'', (\<lambda>st. Some (Border ''pixel'' 1), INITIAL)),
   (''cmd_border($border_style, -1)'', (\<lambda>st. do { x \<leftarrow> str_arg st ''border_style''; Some (Border x (-1)) }, INITIAL)),
   (''cmd_border($border_style, &border_width)'', (\<lambda>st. do { x \<leftarrow> str_arg st ''border_style''; y \<leftarrow> get_long st ''border_width''; Some (Border x y) }, INITIAL)),
   (''cmd_gaps($type, $scope, $mode, $value)'', (\<lambda>st. do { x \<leftarrow> str_arg st ''type''; y \<leftarrow> str_arg st ''scope''; z \<leftarrow> str_arg st ''mode''; v \<leftarrow> str_arg st ''value''; Some (Gaps x y z v) }, INITIAL)),
   (''cmd_layout($layout_mode)'', (\<lambda>st. do { x \<leftarrow> str_arg st ''layout_mode''; Some (Layout x) }, INITIAL)),
   (''cmd_layout_toggle($toggle_mode)'', (\<lambda>st. do { x \<leftarrow> get_string st ''toggle_mode''; Some (Layout_Toggle x) }, INITIAL)),
   (''cmd_workspace($direction)'', (\<lambda>st. do { x \<leftarrow> str_arg st ''direction''; Some (Workspace x) }, INITIAL)),
   (''cmd_workspace_back_and_forth()'', (\<lambda>st. Some Workspace_Back_And_Forth, INITIAL)),
   (''cmd_workspace_name($workspace, $no_auto_back_and_forth)'', (\<lambda>st. do { x \<leftarrow> str_arg st ''workspace''; y \<leftarrow> get_string st ''no_auto_back_and_forth''; Some (Workspace_Name x y) }, INITIAL)),
   (''cmd_workspace_number($workspace, $no_auto_back_and_forth)'', (\<lambda>st. do { x \<leftarrow> str_arg st ''workspace''; y \<leftarrow> get_string st ''no_auto_back_and_forth''; Some (Workspace_Number x y) }, INITIAL)),
   (''cmd_focus_direction($direction)'', (\<lambda>st. do { x \<leftarrow> str_arg st ''direction''; Some (Focus_Direction x) }, INITIAL)),
   (''cmd_focus_window_mode($window_mode)'', (\<lambda>st. do { x \<leftarrow> str_arg st ''window_mode''; Some (Focus_Window_Mode x) }, INITIAL)),
   (''cmd_focus_level($level)'', (\<lambda>st. do { x \<leftarrow> str_arg st ''level''; Some (Focus_Level x) }, INITIAL)),
   (''cmd_focus(1)'', (\<lambda>st. Some (Focus True), INITIAL)),
   (''cmd_focus(0)'', (\<lambda>st. Some (Focus False), INITIAL)),
   (''cmd_focus_sibling($direction)'', (\<lambda>st. do { x \<leftarrow> str_arg st ''direction''; Some (Focus_Sibling x) }, INITIAL)),
   (''cmd_focus_output($output); FOCUS_OUTPUT'', (\<lambda>st. do { x \<leftarrow> get_string st ''output''; Some (Focus_Output x) }, ''FOCUS_OUTPUT'')),
   (''cmd_focus_output(NULL); INITIAL'', (\<lambda>st. Some (Focus_Output None), INITIAL)),
   (''cmd_kill($kill_mode)'', (\<lambda>st. do { x \<leftarrow> get_string st ''kill_mode''; Some (Kill x) }, INITIAL)),
   (''cmd_fullscreen($action, \"output\")'', (\<lambda>st. do { x \<leftarrow> str_arg st ''action''; Some (Fullscreen x ''output'') }, INITIAL)),
   (''cmd_fullscreen($action, $mode)'', (\<lambda>st. do { x \<leftarrow> str_arg st ''action''; y \<leftarrow> str_arg st ''mode''; Some (Fullscreen x y) }, INITIAL)),
   (''cmd_fullscreen(\"toggle\", $mode)'', (\<lambda>st. do { y \<leftarrow> str_arg st ''mode''; Some (Fullscreen ''toggle'' y) }, INITIAL)),
   (''cmd_fullscreen(\"toggle\", \"output\")'', (\<lambda>st. Some (Fullscreen ''toggle'' ''output''), INITIAL)),
   (''cmd_sticky($action)'', (\<lambda>st. do { x \<leftarrow> str_arg st ''action''; Some (Sticky x) }, INITIAL)),
   (''cmd_split($direction)'', (\<lambda>st. do { x \<leftarrow> str_arg st ''direction''; Some (Split x) }, INITIAL)),
   (''cmd_floating($floating)'', (\<lambda>st. do { x \<leftarrow> str_arg st ''floating''; Some (Floating x) }, INITIAL)),
   (''cmd_mark($mark, $mode, $toggle)'', (\<lambda>st. do { x \<leftarrow> str_arg st ''mark''; y \<leftarrow> get_string st ''mode''; z \<leftarrow> get_string st ''toggle''; Some (Mark x y z) }, INITIAL)),
   (''cmd_unmark($mark)'', (\<lambda>st. do { x \<leftarrow> get_string st ''mark''; Some (Unmark x) }, INITIAL)),
   (''cmd_resize($way, $direction, 10, 10)'', (\<lambda>st. do { x \<leftarrow> str_arg st ''way''; y \<leftarrow> str_arg st ''direction''; Some (Resize x y 10 10) }, INITIAL)),
   (''cmd_resize($way, $direction, &resize_px, 0)'', (\<lambda>st. do { x \<leftarrow> str_arg st ''way''; y \<leftarrow> str_arg st ''direction''; z \<leftarrow> get_long st ''resize_px''; Some (Resize x y z 0) }, INITIAL)),
   (''cmd_resize($way, $direction, &resize_px, &resize_ppt)'', (\<lambda>st. do { x \<leftarrow> str_arg st ''way''; y \<leftarrow> str_arg st ''direction''; z \<leftarrow> get_long st ''resize_px''; v \<leftarrow> get_long st ''resize_ppt''; Some (Resize x y z v) }, INITIAL)),
   (''cmd_resize_set(&width, $mode_width, 0, 0)'', (\<lambda>st. do { x \<leftarrow> get_long st ''width''; y \<leftarrow> get_string st ''mode_width''; Some (Resize_Set x y 0 None) }, INITIAL)),
   (''cmd_resize_set(&width, $mode_width, &height, $mode_height)'', (\<lambda>st. do { x \<leftarrow> get_long st ''width''; y \<leftarrow> get_string st ''mode_width''; z \<leftarrow> get_long st ''height''; v \<leftarrow> get_string st ''mode_height''; Some (Resize_Set x y z v) }, INITIAL)),
   (''cmd_rename_workspace(NULL, $new_name)'', (\<lambda>st. do { y \<leftarrow> str_arg st ''new_name''; Some (Rename_Workspace None y) }, INITIAL)),
   (''cmd_rename_workspace(\"to\", $new_name)'', (\<lambda>st. do { y \<leftarrow> str_arg st ''new_name''; Some (Rename_Workspace (Some ''to'') y) }, INITIAL)),
   (''cmd_rename_workspace(NULL, \"to\")'', (\<lambda>st. Some (Rename_Workspace None ''to''), INITIAL)),
   (''cmd_rename_workspace($old_name, $new_name)'', (\<lambda>st. do { x \<leftarrow> get_string st ''old_name''; y \<leftarrow> str_arg st ''new_name''; Some (Rename_Workspace x y) }, INITIAL)),
   (''cmd_move_scratchpad()'', (\<lambda>st. Some Move_Scratchpad, INITIAL)),
   (''cmd_move_direction($direction, 10, \"px\")'', (\<lambda>st. do { x \<leftarrow> str_arg st ''direction''; Some (Move_Direction x 10 (Some ''px'')) }, INITIAL)),
   (''cmd_move_direction($direction, &amount, $mode)'', (\<lambda>st. do { x \<leftarrow> str_arg st ''direction''; y \<leftarrow> get_long st ''amount''; z \<leftarrow> get_string st ''mode''; Some (Move_Direction x y z) }, INITIAL)),
   (''cmd_move_direction($direction, &amount, \"px\")'', (\<lambda>st. do { x \<leftarrow> str_arg st ''direction''; y \<leftarrow> get_long st ''amount''; Some (Move_Direction x y (Some ''px'')) }, INITIAL)),
   (''cmd_move_con_to_workspace($workspace)'', (\<lambda>st. do { x \<leftarrow> str_arg st ''workspace''; Some (Move_Con_To_Workspace x) }, INITIAL)),
   (''cmd_move_con_to_workspace_back_and_forth()'', (\<lambda>st. Some Move_Con_To_Workspace_Back_And_Forth, INITIAL)),
   (''cmd_move_con_to_workspace_name($workspace, $no_auto_back_and_forth)'', (\<lambda>st. do { x \<leftarrow> str_arg st ''workspace''; y \<leftarrow> get_string st ''no_auto_back_and_forth''; Some (Move_Con_To_Workspace_Name x y) }, INITIAL)),
   (''cmd_move_con_to_workspace_number($number, $no_auto_back_and_forth)'', (\<lambda>st. do { x \<leftarrow> str_arg st ''number''; y \<leftarrow> get_string st ''no_auto_back_and_forth''; Some (Move_Con_To_Workspace_Number x y) }, INITIAL)),
   (''cmd_move_con_to_output($output, 0); MOVE_TO_OUTPUT'', (\<lambda>st. do { x \<leftarrow> get_string st ''output''; Some (Move_Con_To_Output x False) }, ''MOVE_TO_OUTPUT'')),
   (''cmd_move_con_to_output(NULL, 0); INITIAL'', (\<lambda>st. Some (Move_Con_To_Output None False), INITIAL)),
   (''cmd_move_con_to_mark($mark)'', (\<lambda>st. do { x \<leftarrow> str_arg st ''mark''; Some (Move_Con_To_Mark x) }, INITIAL)),
   (''cmd_move_con_to_output($output, 1); MOVE_WORKSPACE_TO_OUTPUT_WORD'', (\<lambda>st. do { x \<leftarrow> get_string st ''output''; Some (Move_Con_To_Output x True) }, ''MOVE_WORKSPACE_TO_OUTPUT_WORD'')),
   (''cmd_move_con_to_output(NULL, 1); INITIAL'', (\<lambda>st. Some (Move_Con_To_Output None True), INITIAL)),
   (''cmd_move_window_to_center($method)'', (\<lambda>st. do { x \<leftarrow> str_arg st ''method''; Some (Move_Window_To_Center x) }, INITIAL)),
   (''cmd_move_window_to_mouse()'', (\<lambda>st. Some Move_Window_To_Mouse, INITIAL)),
   (''cmd_move_window_to_position(&coord_x, $mode_x, &coord_y, $mode_y)'', (\<lambda>st. do { x \<leftarrow> get_long st ''coord_x''; y \<leftarrow> get_string st ''mode_x''; z \<leftarrow> get_long st ''coord_y''; v \<leftarrow> get_string st ''mode_y''; Some (Move_Window_To_Position x y z v) }, INITIAL)),
   (''cmd_move_window_to_position(&coord_x, $mode_x, &coord_y, 0)'', (\<lambda>st. do { x \<leftarrow> get_long st ''coord_x''; y \<leftarrow> get_string st ''mode_x''; z \<leftarrow> get_long st ''coord_y''; Some (Move_Window_To_Position x y z None) }, INITIAL)),
   (''cmd_mode($mode)'', (\<lambda>st. do { x \<leftarrow> str_arg st ''mode''; Some (Mode x) }, INITIAL)),
   (''cmd_nop($comment)'', (\<lambda>st. Some Nop, INITIAL)),
   (''cmd_nop(NULL)'', (\<lambda>st. Some Nop, INITIAL)),
   (''cmd_scratchpad_show()'', (\<lambda>st. Some Scratchpad_Show, INITIAL)),
   (''cmd_swap($mode, $arg)'', (\<lambda>st. do { x \<leftarrow> str_arg st ''mode''; y \<leftarrow> str_arg st ''arg''; Some (Swap x y) }, INITIAL)),
   (''cmd_title_format($format)'', (\<lambda>st. do { x \<leftarrow> str_arg st ''format''; Some (Title_Format x) }, INITIAL)),
   (''cmd_title_window_icon($enable, 0)'', (\<lambda>st. do { x \<leftarrow> get_string st ''enable''; Some (Title_Window_Icon x 0) }, INITIAL)),
   (''cmd_title_window_icon($enable, &padding)'', (\<lambda>st. do { x \<leftarrow> get_string st ''enable''; y \<leftarrow> get_long st ''padding''; Some (Title_Window_Icon x y) }, INITIAL)),
   (''cmd_bar_hidden_state($bar_value, $bar_id)'', (\<lambda>st. do { x \<leftarrow> str_arg st ''bar_value''; y \<leftarrow> get_string st ''bar_id''; Some (Bar_Hidden_State x y) }, INITIAL)),
   (''cmd_bar_mode($bar_value, $bar_id)'', (\<lambda>st. do { x \<leftarrow> str_arg st ''bar_value''; y \<leftarrow> get_string st ''bar_id''; Some (Bar_Mode x y) }, INITIAL))]"

text \<open>The commands that are not modelled are left to \<open>others\<close>.\<close>

definition dispatch :: "world \<Rightarrow> calls \<Rightarrow> calls" where
  "dispatch w others i st c =
     (case map_of command_calls i of
        Some (f, s) \<Rightarrow> do { cmd \<leftarrow> f st; c \<leftarrow> run_command w cmd c; Some (c, s) }
      | None \<Rightarrow> others i st c)"

end
