(* ===== verification/Command_Parser_Facts.thy ===== *)
theory Command_Parser_Facts
  imports Command_Parser
begin

text \<open>
  The command parser returns: every iteration consumes input, and a table whose paths hold at most
  ten identified tokens never fills the stack.
\<close>

section \<open>Input is consumed\<close>

lemma read_digits_suffix: "suffix (snd (read_digits b a s)) s"
  by (induction b a s rule: read_digits.induct) (auto split: option.splits intro: suffix_ConsI)

lemma sign_of_suffix: "suffix (snd (sign_of s)) s"
  by (simp add: sign_of_def suffix_tl)

lemma base_of_suffix: "suffix (snd (base_of b s)) s"
  by (simp add: base_of_def suffix_drop)

lemma strtol_suffix: "suffix (num_rest (strtol b s)) s"
proof -
  obtain neg s1 where s1: "sign_of (dropWhile is_space s) = (neg, s1)" by fastforce
  obtain base s2 where s2: "base_of b s1 = (base, s2)" by fastforce
  have "suffix s1 s"
    using sign_of_suffix[of "dropWhile is_space s"] s1 suffix_dropWhile suffix_order.trans by fastforce
  moreover have "suffix s2 s1" using base_of_suffix[of b s1] s2 by simp
  ultimately have s: "suffix s2 s" using suffix_order.trans by blast
  obtain n r where "read_digits base 0 s2 = (n, r)" by fastforce
  then show ?thesis
    using s s1 s2 read_digits_suffix[of base 0 s2] suffix_order.trans
    by (auto simp: strtol_def split: prod.split)
qed

text \<open>A literal is not empty or leads to a state of a smaller rank.\<close>

definition literal_ok :: "(cmdp_state \<Rightarrow> nat) \<Rightarrow> nat \<Rightarrow> cmdp_token \<Rightarrow> bool" where
  "literal_ok rank r t \<longleftrightarrow> (is_literal t \<and> literal_text t = [] \<longrightarrow>
     (case token_next t of Goto s \<Rightarrow> rank s < r | CALL i \<Rightarrow> False))"

definition table_ranked :: "(cmdp_state \<Rightarrow> nat) \<Rightarrow> tables \<Rightarrow> bool" where
  "table_ranked rank tokens \<longleftrightarrow> (\<forall>s. rank s \<le> 1 \<and> list_all (literal_ok rank (rank s)) (tokens s))"

text \<open>What decreases with every iteration.\<close>

definition todo :: "(cmdp_state \<Rightarrow> nat) \<Rightarrow> string \<Rightarrow> cmd_parser \<Rightarrow> nat" where
  "todo rank walk p = 2 * length walk + rank (p_state p)"

lemma todo_less: "\<forall>s. rank s \<le> 1 \<Longrightarrow> length w < length walk \<Longrightarrow> todo rank w q < todo rank walk p"
proof -
  assume "\<forall>s. rank s \<le> 1" and "length w < length walk"
  then have "rank (p_state q) \<le> 1" "2 * length w + 2 \<le> 2 * length walk" by auto
  then show ?thesis by (simp add: todo_def)
qed

lemma accept_token_Next:
  assumes "accept_token call t v w p = Some r"
  obtains q where "r = Next w q" and "\<And>s. token_next t = Goto s \<Longrightarrow> p_state q = s"
  using assms by (auto simp: accept_token_def cmd_next_state_def split: bind_split_asm next_state.splits)

lemma accept_end_shorter:
  "accept_end call t walk p = Some (Next w q) \<Longrightarrow> suffix w walk \<and> length w < length walk"
  by (auto simp: accept_end_def Let_def suffix_tl split: bind_split_asm if_splits)

lemma accept_end_not_unhandled: "accept_end call t walk p \<noteq> Some (Unhandled w)"
  by (auto simp: accept_end_def Let_def split: bind_split_asm if_splits)

fun consumes :: "(cmdp_state \<Rightarrow> nat) \<Rightarrow> string \<Rightarrow> cmd_parser \<Rightarrow> scan \<Rightarrow> bool" where
  "consumes rank walk p (Next w q) \<longleftrightarrow> suffix w walk \<and> todo rank w q < todo rank walk p"
| "consumes rank walk p (Finished q) \<longleftrightarrow> True"
| "consumes rank walk p (Unhandled w) \<longleftrightarrow> suffix w walk"

lemma consumes_suffix: "consumes rank stop p r \<Longrightarrow> suffix stop walk \<Longrightarrow> consumes rank walk p r"
  using suffix_length_le[of stop walk] by (cases r) (auto simp: todo_def intro: suffix_order.trans)

lemma accept_token_consumes:
  assumes "\<forall>s. rank s \<le> 1" and "accept_token call t v w p = Some r" and "suffix w walk" and "w \<noteq> walk"
  shows "consumes rank walk p r"
  using assms by (auto elim!: accept_token_Next simp: todo_less suffix_length_less strict_suffix_def)

lemma try_tokens_consumes:
  assumes "\<forall>s. rank s \<le> 1"
  shows "list_all (literal_ok rank (rank (p_state p))) ts \<Longrightarrow> try_tokens call ts walk p = Some r \<Longrightarrow>
    consumes rank walk p r"
proof (induction ts arbitrary: walk)
  case (Cons t ts)
  then have t: "literal_ok rank (rank (p_state p)) t"
    and IH: "\<And>w. try_tokens call ts w p = Some r \<Longrightarrow> consumes rank w p r" by auto
  note accept = accept_token_consumes[OF assms]
  consider "is_literal t" | "\<not> is_literal t" "is_number t" | "\<not> is_literal t" "\<not> is_number t" "is_string t \<or> is_word t"
    | "\<not> is_literal t" "\<not> is_number t" "\<not> is_string t" "\<not> is_word t" by blast
  then show ?case
  proof cases
    case 1
    show ?thesis
    proof (cases "strncasecmp_eq walk (literal_text t)")
      case True
      then have acc: "accept_token call t (STACK_STR (literal_text t)) (drop (length (literal_text t)) walk) p = Some r"
        using 1 Cons.prems(2) by simp
      show ?thesis
      proof (cases "literal_text t = []")
        case True
        then obtain s where "token_next t = Goto s" "rank s < rank (p_state p)"
          using t 1 by (auto simp: literal_ok_def split: next_state.splits)
        then show ?thesis using acc True by (auto elim!: accept_token_Next simp: todo_def)
      next
        case False
        then have "drop (length (literal_text t)) walk \<noteq> walk"
          using strncasecmp_eq_length[OF True]
          by (cases "literal_text t") (auto dest!: arg_cong[where f = length])
        then show ?thesis using accept[OF acc suffix_drop] by simp
      qed
    qed (use 1 IH Cons.prems(2) in simp)
  next
    case 2
    then show ?thesis using IH Cons.prems(2) accept[OF _ strtol_suffix] by (auto simp: Let_def split: if_splits)
  next
    case 3
    obtain stop str where r: "parse_string walk (is_word t) = (stop, str)" by fastforce
    note stop = parse_string_suffix[OF r]
    show ?thesis
    proof (cases str)
      case None
      then show ?thesis using 3 r IH[of stop] consumes_suffix[OF _ stop(1)] Cons.prems(2) by auto
    next
      case (Some y)
      define w where "w = (if starts_with [dquote] stop then tl stop else stop)"
      have "suffix w stop" by (simp add: w_def suffix_tl)
      then have "suffix w walk" "w \<noteq> walk"
        using stop Some suffix_length_le[of w stop] by (auto intro: suffix_order.trans)
      then show ?thesis using 3 r Some accept Cons.prems(2) by (simp add: w_def)
    qed
  next
    case 4
    then show ?thesis using IH Cons.prems(2) accept_end_shorter todo_less[OF assms] accept_end_not_unhandled
      by (cases r) (auto split: if_splits)
  qed
qed auto

text \<open>The fuel does not matter.\<close>

lemma parse_loop_fuel:
  assumes "table_ranked rank tokens"
  shows "todo rank walk p < k \<Longrightarrow> k \<le> m \<Longrightarrow>
    parse_loop m call tokens input walk p = parse_loop k call tokens input walk p"
proof (induction k arbitrary: m walk p)
  case (Suc k)
  then obtain m' where m: "m = Suc m'" "k \<le> m'" by (cases m) auto
  let ?walk = "dropWhile is_blank walk"
  show ?case
  proof (cases "try_tokens call (tokens (p_state p)) ?walk p")
    case (Some r)
    have "consumes rank ?walk p r"
      using assms Some by (intro try_tokens_consumes) (auto simp: table_ranked_def)
    then have c: "consumes rank walk p r" using consumes_suffix suffix_dropWhile by blast
    show ?thesis
    proof (cases r)
      case (Next w q)
      then have "todo rank w q < k" using c Suc.prems(1) by simp
      from Suc.IH[OF this m(2)] show ?thesis using m(1) Some Next by simp
    qed (simp_all add: m(1) Some)
  qed (simp add: m(1))
qed simp

section \<open>The stack is large enough\<close>

definition end_ok :: "cmdp_token list \<Rightarrow> bool" where
  "end_ok ts \<longleftrightarrow> list_all (\<lambda>t. is_end t \<longrightarrow> token_ident t = None \<and>
     (case token_next t of Goto s \<Rightarrow> s = INITIAL | CALL i \<Rightarrow> True)) ts"

text \<open>\<open>depth\<close> bounds the number of identified tokens on the way to a state.\<close>

definition pushes :: "cmdp_token \<Rightarrow> nat" where
  "pushes t = (if token_ident t = None then 0 else 1)"

definition fits :: "(cmdp_state \<Rightarrow> nat) \<Rightarrow> nat \<Rightarrow> cmdp_token \<Rightarrow> bool" where
  "fits depth d t \<longleftrightarrow> d + pushes t \<le> 10 \<and>
     (case token_next t of Goto s \<Rightarrow> s = INITIAL \<or> d + pushes t \<le> depth s | CALL i \<Rightarrow> True)"

definition stack_bounded :: "(cmdp_state \<Rightarrow> nat) \<Rightarrow> nat \<Rightarrow> cmdp_token list \<Rightarrow> bool" where
  "stack_bounded depth d ts \<longleftrightarrow> list_all (fits depth d) ts"

definition table_ok :: "(cmdp_state \<Rightarrow> nat) \<Rightarrow> tables \<Rightarrow> bool" where
  "table_ok depth tokens \<longleftrightarrow> (\<forall>s. end_ok (tokens s) \<and> stack_bounded depth (depth s) (tokens s))"

definition calls_return :: "(cmd_state \<Rightarrow> bool) \<Rightarrow> calls \<Rightarrow> bool" where
  "calls_return I call \<longleftrightarrow> (\<forall>i st c. I c \<longrightarrow>
     (\<exists>c' s. call i st (c\<lparr>needs_tree_render := False\<rparr>) = Some (c', s) \<and> I c'))"

text \<open>The stack while the parser runs.\<close>

definition parser_ok :: "(cmd_state \<Rightarrow> bool) \<Rightarrow> (cmdp_state \<Rightarrow> nat) \<Rightarrow> cmd_parser \<Rightarrow> bool" where
  "parser_ok I depth p \<longleftrightarrow> I (p_cmd p) \<and>
     (\<exists>es. p_stack p = stack_of es \<and> length es \<le> depth (p_state p) \<and> length es \<le> 10)"

definition parser_idle :: "(cmd_state \<Rightarrow> bool) \<Rightarrow> cmd_parser \<Rightarrow> bool" where
  "parser_idle I p \<longleftrightarrow> I (p_cmd p) \<and> p_stack p = clear_stack"

lemma parser_idle_ok: "parser_idle I p \<Longrightarrow> parser_ok I depth p"
  using stack_of_Nil by (auto simp: parser_idle_def parser_ok_def intro!: exI[of _ "[]"])

lemma cmd_push_ok:
  assumes "p_stack p = stack_of es" and "length es \<le> d" and "d + pushes t \<le> 10"
  shows "\<exists>q es'. cmd_push t v p = Some q \<and> p_cmd q = p_cmd p \<and> p_stack q = stack_of es' \<and>
    length es' \<le> d + pushes t"
proof (cases "token_ident t")
  case None
  then show ?thesis using assms by (auto simp: cmd_push_def pushes_def)
next
  case (Some ident)
  then have "length es < 10" using assms(2,3) by (auto simp: pushes_def)
  then show ?thesis using assms Some
    by (auto simp: cmd_push_def pushes_def push_string_def push_long_def push_entry_stack_of
        intro: exI[of _ "es @ [_]"] split: entry_val.splits)
qed

lemma cmd_next_state_ok:
  assumes "calls_return I call" and "I (p_cmd p)" and "p_stack p = stack_of es"
    and "length es \<le> d + pushes t" and "fits depth d t"
  shows "\<exists>q. cmd_next_state call t p = Some q \<and> parser_ok I depth q"
proof (cases "token_next t")
  case (CALL i)
  obtain c' s where "call i (p_stack p) ((p_cmd p)\<lparr>needs_tree_render := False\<rparr>) = Some (c', s)" "I c'"
    using assms(1,2) by (fastforce simp: calls_return_def)
  then show ?thesis using CALL by (auto simp: cmd_next_state_def parser_ok_def stack_of_Nil [symmetric])
next
  case (Goto s)
  show ?thesis
  proof (cases "s = INITIAL")
    case True
    then show ?thesis using Goto assms(2)
      by (auto simp: cmd_next_state_def parser_ok_def stack_of_Nil [symmetric])
  next
    case False
    then show ?thesis using Goto assms(2-5)
      by (auto simp: cmd_next_state_def parser_ok_def fits_def)
  qed
qed

lemma accept_token_ok:
  assumes "calls_return I call" and "parser_ok I depth p" and "fits depth (depth (p_state p)) t"
  shows "\<exists>q. accept_token call t v walk p = Some (Next walk q) \<and> parser_ok I depth q"
proof -
  obtain es where es: "I (p_cmd p)" "p_stack p = stack_of es" "length es \<le> depth (p_state p)"
    using assms(2) by (auto simp: parser_ok_def)
  have "depth (p_state p) + pushes t \<le> 10" using assms(3) by (simp add: fits_def)
  then obtain q es' where q: "cmd_push t v p = Some q" "p_cmd q = p_cmd p" "p_stack q = stack_of es'"
      "length es' \<le> depth (p_state p) + pushes t"
    using cmd_push_ok[OF es(2,3)] by blast
  have "I (p_cmd q)" using es(1) q(2) by simp
  from cmd_next_state_ok[OF assms(1) this q(3,4) assms(3)] q(1) show ?thesis
    by (auto simp: accept_token_def)
qed

lemma accept_end_ok:
  assumes "calls_return I call" and I: "\<And>c. I c \<Longrightarrow> I (cmd_criteria_init c)" and "parser_ok I depth p"
    and "fits depth (depth (p_state p)) t" and "end_ok [t]" and "is_end t"
  shows "\<exists>q. accept_end call t walk p = Some (if walk = [] then Finished q else Next (tl walk) q)
    \<and> parser_idle I q"
proof -
  obtain es where es: "I (p_cmd p)" "p_stack p = stack_of es" "length es \<le> depth (p_state p)"
    using assms(3) by (auto simp: parser_ok_def)
  have "length es \<le> depth (p_state p) + pushes t" using es(3) by simp
  from cmd_next_state_ok[OF assms(1) es(1,2) this assms(4)]
  obtain q where q: "cmd_next_state call t p = Some q" "parser_ok I depth q" by blast
  have "p_stack q = clear_stack"
    using q(1) assms(5,6)
    by (auto simp: cmd_next_state_def end_ok_def split: next_state.splits bind_split_asm)
  then have "parser_idle I q" "parser_idle I (cmd_criteria_reset q)"
    using q(2) I by (auto simp: parser_idle_def parser_ok_def cmd_criteria_reset_def)
  then show ?thesis using q(1) by (auto simp: accept_end_def)
qed

section \<open>The loop ends\<close>

fun scan_ok :: "(cmd_state \<Rightarrow> bool) \<Rightarrow> (cmdp_state \<Rightarrow> nat) \<Rightarrow> scan \<Rightarrow> bool" where
  "scan_ok I depth (Next w q) \<longleftrightarrow> parser_ok I depth q"
| "scan_ok I depth (Finished q) \<longleftrightarrow> parser_idle I q"
| "scan_ok I depth (Unhandled w) \<longleftrightarrow> True"

lemma try_tokens_ok:
  assumes "calls_return I call" and I: "\<And>c. I c \<Longrightarrow> I (cmd_criteria_init c)" and "parser_ok I depth p"
  shows "end_ok ts \<Longrightarrow> list_all (fits depth (depth (p_state p))) ts \<Longrightarrow>
    \<exists>r. try_tokens call ts walk p = Some r \<and> scan_ok I depth r"
proof (induction ts arbitrary: walk)
  case (Cons t ts)
  then have t: "fits depth (depth (p_state p)) t" "end_ok [t]" by (auto simp: end_ok_def)
  have IH: "\<exists>r. try_tokens call ts w p = Some r \<and> scan_ok I depth r" for w
    using Cons by (auto simp: end_ok_def)
  have accept: "\<exists>r. accept_token call t v w p = Some r \<and> scan_ok I depth r" for v w
    using accept_token_ok[OF assms(1,3) t(1), of v w] by auto
  have accept_end: "\<exists>r. accept_end call t w p = Some r \<and> scan_ok I depth r" if "is_end t" for w
    using accept_end_ok[OF assms(1) I assms(3) t that, of w] parser_idle_ok by auto
  show ?case using IH accept accept_end by (auto simp: Let_def split: prod.splits option.splits)
qed simp

text \<open>
  The parser ends with an empty stack, having accepted the whole input, or with the reply for a
  parse error; the marked position is a suffix of the input.
\<close>

fun loop_ok :: "(cmd_state \<Rightarrow> bool) \<Rightarrow> string \<Rightarrow> command_result \<times> cmd_parser \<Rightarrow> bool" where
  "loop_ok I input (r, q) \<longleftrightarrow> p_stack q = clear_stack \<and>
     (if parse_error r
      then \<exists>c msg walk. I c \<and> error_message r = Some msg \<and> suffix walk input \<and>
        p_cmd q = reply (R_Parse_Error msg input
          (replicate (length input - length walk) (CHR '' '') @ replicate (length walk) (CHR ''^''))) c
      else I (p_cmd q))"

lemma parse_loop_ok:
  assumes "calls_return I call" and "\<And>c. I c \<Longrightarrow> I (cmd_criteria_init c)" and "table_ok depth tokens"
    and "table_ranked rank tokens"
  shows "parser_ok I depth p \<Longrightarrow> suffix walk input \<Longrightarrow> todo rank walk p < k \<Longrightarrow>
    \<exists>r. parse_loop k call tokens input walk p = Some r \<and> loop_ok I input r"
proof (induction k arbitrary: walk p)
  case (Suc k)
  have table: "end_ok (tokens (p_state p))" "list_all (fits depth (depth (p_state p))) (tokens (p_state p))"
    using assms(3) by (auto simp: table_ok_def stack_bounded_def)
  let ?walk = "dropWhile is_blank walk"
  obtain r where r: "try_tokens call (tokens (p_state p)) ?walk p = Some r" "scan_ok I depth r"
    using try_tokens_ok[OF assms(1,2) Suc.prems(1) table] by blast
  have "consumes rank ?walk p r"
    using assms(4) r(1) by (intro try_tokens_consumes) (auto simp: table_ranked_def)
  then have c: "consumes rank walk p r" using consumes_suffix suffix_dropWhile by blast
  show ?case
  proof (cases r)
    case (Next w q)
    then have "suffix w input" "todo rank w q < k" using c Suc.prems suffix_order.trans by auto
    then show ?thesis using Next r Suc.IH[of q w] by auto
  next
    case (Finished q)
    then show ?thesis using r by (auto simp: parser_idle_def)
  next
    case (Unhandled w)
    then have "suffix w input" using c Suc.prems suffix_order.trans by auto
    moreover have "I (p_cmd p)" using Suc.prems(1) by (simp add: parser_ok_def)
    ultimately show ?thesis using Unhandled r(1) by (auto simp: fail_command_def Let_def error_position_marks)
  qed
qed simp

lemma parse_command_ok:
  assumes "calls_return I call" and I: "\<And>c. I c \<Longrightarrow> I (cmd_criteria_init c)" and "table_ok depth tokens"
    and "table_ranked rank tokens" and "I (p_cmd p)" and "p_stack p = clear_stack"
  shows "\<exists>r. parse_command call tokens input p = Some r \<and> loop_ok I input r"
proof -
  let ?p = "cmd_criteria_reset (p\<lparr>p_state := INITIAL, p_render := False\<rparr>)"
  have "parser_ok I depth ?p"
    using assms(5,6) I by (intro parser_idle_ok) (simp add: parser_idle_def cmd_criteria_reset_def)
  moreover have "todo rank input ?p < 2 * length input + 2"
    using assms(4) by (simp add: todo_def table_ranked_def less_Suc_eq_le)
  ultimately show ?thesis
    unfolding parse_command_def by (intro parse_loop_ok[OF assms(1-4)]) auto
qed

end
