(* ===== verification/Command_Run.thy ===== *)
theory Command_Run
  imports Command_Spec Command_Parser_Facts
begin

text \<open>
  The parser on the grammar of i3: every command is processed in finitely many steps, what i3bar
  sends for a click on a workspace button runs the command for exactly that workspace, and repeated
  options fill the stack.
\<close>

lemma command_tokens_all:
  assumes "list_all (\<lambda>(s, ts). P s ts) commands_spec" and "\<And>s. P s []"
  shows "P s (command_tokens s)"
  using assms by (auto simp: command_tokens_def list_all_iff split: option.split dest!: map_of_SomeD)

definition spec_rank :: "cmdp_state \<Rightarrow> nat" where
  "spec_rank s = (if s = ''FULLSCREEN'' then 1 else 0)"

lemma command_tokens_ranked: "table_ranked spec_rank command_tokens"
proof -
  have "list_all (\<lambda>(s, ts). list_all (literal_ok spec_rank (spec_rank s)) ts) commands_spec"
    by code_simp
  then have "list_all (literal_ok spec_rank (spec_rank s)) (command_tokens s)" for s
    by (rule command_tokens_all[where P = "\<lambda>s ts. list_all (literal_ok spec_rank (spec_rank s)) ts"]) simp
  then show ?thesis by (simp add: table_ranked_def) (simp add: spec_rank_def)
qed

lemmas token_simps = lit_def token_def squote_def is_literal_def literal_text_def starts_with_def
  is_number_def is_string_def is_word_def is_end_def
lemmas scan_simps = command_tokens_def commands_spec_def token_simps to_lower_def char_code_def
  cmd_push_def cmd_next_state_def INITIAL_def

lemma parse_loop_step:
  "dropWhile is_blank walk = w \<Longrightarrow> try_tokens call (T (p_state p)) w p = Some (Next w' q) \<Longrightarrow>
    parse_loop (Suc k) call T input walk p = parse_loop k call T input w' q"
  by simp

section \<open>A click on a workspace button\<close>

lemma initial_workspace:
  "try_tokens call (command_tokens ''INITIAL'') (''workspace'' @ w) p =
    Some (Next w (p\<lparr>p_state := ''WORKSPACE''\<rparr>))"
  by (simp add: scan_simps accept_token_def)

lemma in_initial_workspace:
  "p_state p = INITIAL \<Longrightarrow> try_tokens call (command_tokens (p_state p)) (''workspace'' @ w) p =
    Some (Next w (p\<lparr>p_state := ''WORKSPACE''\<rparr>))"
  by (simp only: initial_workspace INITIAL_def)

lemma initial_end:
  "try_tokens call (command_tokens ''INITIAL'') [] p = accept_end call
     \<lparr>token_name = ''end'', token_ident = None, token_next = Goto ''INITIAL''\<rparr> [] p"
  by (simp add: scan_simps)

definition workspace_token :: cmdp_token where
  "workspace_token = \<lparr>token_name = ''string'', token_ident = Some ''workspace'',
     token_next = CALL ''cmd_workspace_name($workspace, $no_auto_back_and_forth)''\<rparr>"

lemma workspace_quoted:
  assumes "name \<noteq> []"
  shows "try_tokens call (command_tokens ''WORKSPACE'') ([dquote] @ quote_chars name @ [dquote]) p =
    accept_token call workspace_token (STACK_STR name) [] p"
  using assms parse_string_quoted[of name "[]" False]
  by (simp add: command_tokens_def commands_spec_def token_simps to_lower_def char_code_def workspace_token_def)

lemma workspace_call:
  "map_of command_calls ''cmd_workspace_name($workspace, $no_auto_back_and_forth)'' =
    Some (\<lambda>st. do { x \<leftarrow> str_arg st ''workspace''; y \<leftarrow> get_string st ''no_auto_back_and_forth'';
      Some (Workspace_Name x y) }, INITIAL)"
  by (simp add: command_calls_def)

lemma dispatch_workspace:
  "dispatch w others ''cmd_workspace_name($workspace, $no_auto_back_and_forth)''
     (stack_of [\<lparr>entry_id = ''workspace'', entry_val = STACK_STR name\<rparr>]) st =
   map_option (\<lambda>c. (c, INITIAL)) (cmd_workspace_name w name None st)"
  unfolding dispatch_def workspace_call
  by (cases "cmd_workspace_name w name None st")
    (simp_all add: str_arg_def get_string_def stack_find_stack_of)

lemma parse_quoted_workspace:
  assumes "name \<noteq> []" and "p_stack p = clear_stack"
  shows "parse_command (dispatch w others) command_tokens (quote_workspace_name name) p =
    map_option (\<lambda>c.
      (\<lparr>parse_error = False, error_message = None, result_needs_tree_render = needs_tree_render c\<rparr>,
       p\<lparr>p_state := INITIAL, p_stack := clear_stack, p_render := needs_tree_render c,
         p_cmd := cmd_criteria_init c\<rparr>))
      (cmd_workspace_name w name None ((cmd_criteria_init (p_cmd p))\<lparr>needs_tree_render := False\<rparr>))"
proof -
  let ?call = "dispatch w others" and ?input = "quote_workspace_name name"
  let ?p = "cmd_criteria_reset (p\<lparr>p_state := INITIAL, p_render := False\<rparr>)"
  let ?c = "(cmd_criteria_init (p_cmd p))\<lparr>needs_tree_render := False\<rparr>"
  define k where "k = 2 * length ?input - 1"
  have fuel: "2 * length ?input + 2 = Suc (Suc (Suc k))" by (simp add: k_def quote_workspace_name_def)
  have input: "dropWhile is_blank ?input = ''workspace'' @ CHR '' '' # [dquote] @ quote_chars name @ [dquote]"
    by (simp add: quote_workspace_name_def is_blank_def newlines_def)
  have blank: "dropWhile is_blank (CHR '' '' # [dquote] @ quote_chars name @ [dquote])
      = [dquote] @ quote_chars name @ [dquote]"
    by (simp add: is_blank_def newlines_def)
  have push: "cmd_push workspace_token (STACK_STR name) (?p\<lparr>p_state := ''WORKSPACE''\<rparr>) =
      Some (?p\<lparr>p_state := ''WORKSPACE'',
        p_stack := stack_of [\<lparr>entry_id = ''workspace'', entry_val = STACK_STR name\<rparr>]\<rparr>)"
    using assms(2)
    by (simp add: cmd_push_def workspace_token_def push_string_def cmd_criteria_reset_def
        push_entry_stack_of[of "[]", unfolded stack_of_Nil])
  have step2: "try_tokens ?call (command_tokens ''WORKSPACE'') ([dquote] @ quote_chars name @ [dquote])
        (?p\<lparr>p_state := ''WORKSPACE''\<rparr>) =
      map_option (\<lambda>c. Next [] (?p\<lparr>p_cmd := c, p_state := INITIAL, p_stack := clear_stack,
          p_render := needs_tree_render c\<rparr>)) (cmd_workspace_name w name None ?c)"
    unfolding workspace_quoted[OF assms(1)] accept_token_def push
    by (cases "cmd_workspace_name w name None ?c")
      (simp_all add: cmd_next_state_def workspace_token_def dispatch_workspace cmd_criteria_reset_def)
  have step1: "parse_command ?call command_tokens ?input p = parse_loop (Suc (Suc k)) ?call command_tokens
      ?input (CHR '' '' # [dquote] @ quote_chars name @ [dquote]) (?p\<lparr>p_state := ''WORKSPACE''\<rparr>)"
    unfolding parse_command_def fuel
    by (rule parse_loop_step[OF input], rule in_initial_workspace) (simp add: cmd_criteria_reset_def)
  show ?thesis
  proof (cases "cmd_workspace_name w name None ?c")
    case None
    then show ?thesis using step2 by (simp add: step1 blank[simplified])
  next
    case (Some c)
    then show ?thesis using step2
      by (simp add: step1 blank[simplified] initial_end INITIAL_def accept_end_def cmd_next_state_def
          cmd_criteria_reset_def starts_with_def)
  qed
qed

section \<open>Repeated options\<close>

text \<open>
  An option of \<open>exec\<close> stays in its state and is pushed every time it occurs.  The eleventh one does
  not fit, and the program exits.
\<close>

definition exec_option :: stack_entry where
  "exec_option = \<lparr>entry_id = ''nosn'', entry_val = STACK_STR ''--no-startup-id''\<rparr>"

definition exec_token :: cmdp_token where
  "exec_token = \<lparr>token_name = lit ''--no-startup-id'', token_ident = Some ''nosn'', token_next = Goto ''EXEC''\<rparr>"

lemma exec_scan:
  "try_tokens call (command_tokens ''EXEC'') (''--no-startup-id'' @ w) p =
    accept_token call exec_token (STACK_STR ''--no-startup-id'') w p"
  by (simp add: command_tokens_def commands_spec_def token_simps to_lower_def char_code_def exec_token_def)

lemma exec_accept:
  assumes "p_state p = ''EXEC''" and "p_stack p = stack_of es" and "length es \<le> 10"
  shows "accept_token call exec_token (STACK_STR ''--no-startup-id'') w p =
    (if length es < 10 then Some (Next w (p\<lparr>p_stack := stack_of (es @ [exec_option])\<rparr>)) else None)"
  using assms push_entry_stack_of[OF assms(3)]
  by (simp add: accept_token_def exec_token_def cmd_push_def cmd_next_state_def push_string_def exec_option_def
      INITIAL_def)

definition exec_options :: "nat \<Rightarrow> string" where
  "exec_options n = concat (replicate n '' --no-startup-id'')"

lemma exec_options_exit:
  "p_state p = ''EXEC'' \<Longrightarrow> p_stack p = stack_of es \<Longrightarrow> length es \<le> 10 \<Longrightarrow> 10 < length es + n \<Longrightarrow>
    parse_loop k call command_tokens input (exec_options n @ w) p = None"
proof (induction n arbitrary: es p k)
  case (Suc n)
  have blank: "dropWhile is_blank (exec_options (Suc n) @ w) = ''--no-startup-id'' @ exec_options n @ w"
    by (simp add: exec_options_def is_blank_def newlines_def)
  have scan: "try_tokens call (command_tokens (p_state p)) (dropWhile is_blank (exec_options (Suc n) @ w)) p =
      accept_token call exec_token (STACK_STR ''--no-startup-id'') (exec_options n @ w) p"
    unfolding blank Suc.prems(1) by (rule exec_scan)
  show ?case
  proof (cases k)
    case (Suc m)
    then show ?thesis
      unfolding Suc parse_loop.simps scan exec_accept[OF Suc.prems(1-3)]
      using Suc.prems Suc.IH[of "p\<lparr>p_stack := stack_of (es @ [exec_option])\<rparr>" "es @ [exec_option]" m] by simp
  qed simp
qed simp

lemma initial_exec:
  "p_state p = INITIAL \<Longrightarrow> try_tokens call (command_tokens (p_state p)) (''exec'' @ w) p =
    Some (Next w (p\<lparr>p_state := ''EXEC''\<rparr>))"
  by (simp only: INITIAL_def) (simp add: scan_simps accept_token_def)

lemma repeated_options_exit:
  assumes "p_stack p = clear_stack" and "10 < n"
  shows "parse_command call command_tokens (''exec'' @ exec_options n @ w) p = None"
proof -
  have fuel: "2 * length (''exec'' @ exec_options n @ w) + 2 = Suc (2 * length (''exec'' @ exec_options n @ w) + 1)"
    by simp
  have blank: "dropWhile is_blank (''exec'' @ exec_options n @ w) = ''exec'' @ exec_options n @ w"
    by (simp add: is_blank_def newlines_def)
  let ?p = "cmd_criteria_reset (p\<lparr>p_state := INITIAL, p_render := False\<rparr>)"
  have "parse_command call command_tokens (''exec'' @ exec_options n @ w) p =
      parse_loop (2 * length (''exec'' @ exec_options n @ w) + 1) call command_tokens
        (''exec'' @ exec_options n @ w) (exec_options n @ w) (?p\<lparr>p_state := ''EXEC''\<rparr>)"
    unfolding parse_command_def fuel
    by (rule parse_loop_step[OF blank], rule initial_exec) (simp add: cmd_criteria_reset_def)
  also have "\<dots> = None"
    using assms by (intro exec_options_exit[where es = "[]"]) (simp_all add: cmd_criteria_reset_def stack_of_Nil)
  finally show ?thesis .
qed

section \<open>Without repeated options\<close>

text \<open>
  Without the tokens that store a value and stay in their state, at most four values are on the
  stack.
\<close>

definition once_tokens :: tables where
  "once_tokens s = filter (\<lambda>t. token_ident t = None \<or> token_next t \<noteq> Goto s) (command_tokens s)"

definition spec_depths :: "(nat \<times> cmdp_state list) list" where
  "spec_depths = [
          (1, [''CRITERION'', ''CRITERION_FROM'', ''CRITERION_FROM_STR_START'',
       ''CRITERION_FROM_STR'', ''CRITERION_STR'', ''BORDER_WIDTH'', ''GAPS_WITH_TYPE'',
       ''FOCUS_AUTO'', ''FULLSCREEN_MODE'', ''FULLSCREEN_COMPAT'', ''RESIZE_DIRECTION'',
       ''RESIZE_SET'', ''RENAME_WORKSPACE_TO'', ''RENAME_WORKSPACE_TO_NEW_NAME'',
       ''MOVE_DIRECTION'', ''MOVE_TO_ABSOLUTE_POSITION'', ''MOVE_TO_POSITION'',
       ''SWAP_ARGUMENT'', ''TITLE_WINDOW_ICON_PADDING'', ''BAR_HIDDEN_STATE_ID'',
       ''BAR_MODE_ID'']),
          (2, [''CRITERION_FROM_STR_END'', ''GAPS_WITH_SCOPE'', ''RESIZE_PX'', ''RESIZE_WIDTH'',
       ''RESIZE_HEIGHT_GET_NUMBER'', ''MOVE_DIRECTION_NUMBER'', ''MOVE_TO_POSITION_X'']),
          (3, [''GAPS_WITH_MODE'', ''RESIZE_TILING'', ''RESIZE_TILING_OR'', ''RESIZE_HEIGHT'',
       ''MOVE_TO_POSITION_Y'']),
          (4, [''GAPS_END'', ''RESIZE_TILING_FINAL''])]"

definition spec_depth :: "cmdp_state \<Rightarrow> nat" where
  "spec_depth s = (case List.find (\<lambda>(d, ss). s \<in> set ss) spec_depths of Some (d, ss) \<Rightarrow> d | None \<Rightarrow> 0)"

lemma once_tokens_ok: "table_ok spec_depth once_tokens"
proof -
  have "list_all (\<lambda>(s, ts). end_ok ts \<and> stack_bounded spec_depth (spec_depth s)
      (filter (\<lambda>t. token_ident t = None \<or> token_next t \<noteq> Goto s) ts)) commands_spec"
    by code_simp
  then have "end_ok (command_tokens s) \<and> stack_bounded spec_depth (spec_depth s) (once_tokens s)" for s
    unfolding once_tokens_def
    by (rule command_tokens_all[where P = "\<lambda>s ts. end_ok ts \<and> stack_bounded spec_depth (spec_depth s)
      (filter (\<lambda>t. token_ident t = None \<or> token_next t \<noteq> Goto s) ts)"])
      (simp add: end_ok_def stack_bounded_def)
  then show ?thesis by (simp add: table_ok_def) (auto simp: end_ok_def once_tokens_def list_all_iff)
qed

lemma once_tokens_ranked: "table_ranked spec_rank once_tokens"
  using command_tokens_ranked by (auto simp: table_ranked_def once_tokens_def list_all_iff)

end
