(* ===== verification/Cmd_Sample.thy ===== *)
theory Cmd_Sample
  imports Sample Command_Run
begin

text \<open>
  A state of the commands on the sample screen, with a parser at rest and calls that only reply with
  their names.
\<close>

definition sample_cmd :: "match \<Rightarrow> cmd_state" where
  "sample_cmd m = \<lparr>wm = sample, current_match = m, owindows = [], needs_tree_render = False, replies = [],
     move_names = [], focus_names = [], barconfigs = [], shmlog_size = 0, debug_logging = False\<rparr>"

definition sample_world :: world where
  "sample_world = \<lparr>the_env = \<lparr>outputs = [], ws_assignments = [], binding_workspace_names = [], root_width = 1920,
     root_height = 1080\<rparr>, pattern_matches = (=), pattern_compiles = (\<lambda>_. True), type_atom = (\<lambda>_. 0),
     pointer = None, dpi = None, default_shmlog_size = 0, escape_markup = (\<lambda>x. x)\<rparr>"

definition echo :: calls where
  "echo i st c = Some (reply (R_Error i) c, if i = ''cmd_criteria_init(); CRITERIA'' then ''CRITERIA'' else INITIAL)"

definition idle_parser :: "cmd_state \<Rightarrow> cmd_parser" where
  "idle_parser c = \<lparr>p_state = INITIAL, p_stack = clear_stack, p_cmd = c, p_render = False\<rparr>"

end
