(* ===== verification/Config_Parser.thy ===== *)
theory Config_Parser
  imports Parser_Stack
begin

text \<open>
  The parser for configuration files (src/config_parser.c).  It works like the one for commands, but
  a line ends a directive, values of the same name are joined on the stack, and after an error the
  rest of the line is skipped and parsing goes on in the nearest state with an error token.  The
  configuration is an argument type: the calls of the directives and the initialisation of the
  criteria work on it.
\<close>

type_synonym 'c cfg_calls = "string \<Rightarrow> stack \<Rightarrow> 'c \<Rightarrow> ('c \<times> cmdp_state \<times> bool) option"

text \<open>What is logged for an error: the expected tokens, numbered lines, and the marked position.\<close>

record cfg_error =
  err_expected :: string
  err_before :: "(int \<times> string) list"
  err_line :: "int \<times> string"
  err_position :: string
  err_after :: "(int \<times> string) list"

text \<open>
  The list of states holds the entries in use, of ten; the error flag of the context is set when
  something has been logged.
\<close>

record 'c cfg_parser =
  c_state :: cmdp_state
  c_stack :: stack
  statelist :: "cmdp_state list"
  c_config :: 'c
  has_errors :: bool
  c_errors :: "cfg_error list"
  linecnt :: int

section \<open>The stack and the states\<close>

fun cfg_push_string :: "string \<Rightarrow> string \<Rightarrow> stack \<Rightarrow> stack option" where
  "cfg_push_string ident str [] = None"
| "cfg_push_string ident str (None # st) = Some (Some \<lparr>entry_id = ident, entry_val = STACK_STR str\<rparr> # st)"
| "cfg_push_string ident str (Some e # st) =
     (if entry_id e = ident then
        case entry_val e of
          STACK_STR prev \<Rightarrow> Some (Some (e\<lparr>entry_val := STACK_STR (prev @ '','' @ str)\<rparr>) # st)
        | STACK_LONG n \<Rightarrow> None
      else map_option ((#) (Some e)) (cfg_push_string ident str st))"

definition enter_state :: "cmdp_state \<Rightarrow> cmdp_state list \<Rightarrow> cmdp_state list option" where
  "enter_state s ss =
     (if s \<in> set ss then Some (takeWhile (\<lambda>x. x \<noteq> s) ss @ [s])
      else if length ss < 10 then Some (ss @ [s]) else None)"

definition cfg_next_state :: "'c cfg_calls \<Rightarrow> cmdp_token \<Rightarrow> 'c cfg_parser \<Rightarrow> 'c cfg_parser option" where
  "cfg_next_state call t p = do {
     (p, s) \<leftarrow> (case token_next t of
         CALL i \<Rightarrow> do {
           (c, s, err) \<leftarrow> call i (c_stack p) (c_config p);
           Some (p\<lparr>c_config := c, has_errors := (has_errors p \<or> err), c_stack := clear_stack\<rparr>, s)
         }
       | Goto s \<Rightarrow> Some (p, s));
     ss \<leftarrow> enter_state s (statelist p);
     Some (p\<lparr>c_state := s, statelist := ss, c_stack := (if s = INITIAL then clear_stack else c_stack p)\<rparr>)
   }"

definition cfg_push :: "cmdp_token \<Rightarrow> entry_val \<Rightarrow> 'c cfg_parser \<Rightarrow> 'c cfg_parser option" where
  "cfg_push t v p =
     (case token_ident t of
        None \<Rightarrow> Some p
      | Some ident \<Rightarrow> map_option (\<lambda>st. p\<lparr>c_stack := st\<rparr>)
          (case v of STACK_STR s \<Rightarrow> cfg_push_string ident s (c_stack p) | STACK_LONG n \<Rightarrow> push_long ident n (c_stack p)))"

section \<open>One token\<close>

text \<open>A quote ends a string unless the character before it is a backslash.\<close>

fun cfg_quoted_end :: "char \<Rightarrow> string \<Rightarrow> string" where
  "cfg_quoted_end prev [] = []"
| "cfg_quoted_end prev (c # cs) =
     (if c = dquote \<and> prev \<noteq> backslash then c # cs else cfg_quoted_end c cs)"

definition line_end :: "string \<Rightarrow> string" where
  "line_end walk = dropWhile (\<lambda>c. c \<notin> newlines) walk"

definition cfg_unquoted_end :: "bool \<Rightarrow> string \<Rightarrow> string" where
  "cfg_unquoted_end as_word walk =
     (if as_word then dropWhile (\<lambda>c. c \<notin> word_delims) walk else line_end walk)"

definition cfg_parse_string :: "string \<Rightarrow> bool \<Rightarrow> string \<times> cstr" where
  "cfg_parse_string walk as_word =
     (let quoted = starts_with [dquote] walk;
          beginning = (if quoted then tl walk else walk);
          stop = (if quoted then cfg_quoted_end dquote beginning else cfg_unquoted_end as_word beginning);
          n = length beginning - length stop
      in (stop, if n = 0 then None else Some (copy_unescaped {dquote} n beginning)))"

datatype 'c cfg_scan = Cfg_Next string "'c cfg_parser" | Cfg_Finished "'c cfg_parser" | Cfg_Unhandled string

definition is_line :: "cmdp_token \<Rightarrow> bool" where "is_line t \<longleftrightarrow> token_name t = ''line''"
definition cfg_is_number :: "cmdp_token \<Rightarrow> bool" where "cfg_is_number t \<longleftrightarrow> token_name t = ''number''"
definition cfg_is_string :: "cmdp_token \<Rightarrow> bool" where
  "cfg_is_string t \<longleftrightarrow> token_name t = ''string'' \<or> token_name t = ''word''"
definition cfg_is_end :: "cmdp_token \<Rightarrow> bool" where "cfg_is_end t \<longleftrightarrow> token_name t = ''end''"
definition is_error :: "cmdp_token \<Rightarrow> bool" where "is_error t \<longleftrightarrow> token_name t = ''error''"

definition cfg_accept ::
  "'c cfg_calls \<Rightarrow> cmdp_token \<Rightarrow> entry_val \<Rightarrow> string \<Rightarrow> 'c cfg_parser \<Rightarrow> 'c cfg_scan option" where
  "cfg_accept call t v walk p = do {
     p \<leftarrow> cfg_push t v p;
     p \<leftarrow> cfg_next_state call t p;
     Some (Cfg_Next walk p)
   }"

text \<open>Accepting the end of a line; behind the last line the input is finished.\<close>

definition cfg_accept_line ::
  "'c cfg_calls \<Rightarrow> ('c \<Rightarrow> 'c) \<Rightarrow> cmdp_token \<Rightarrow> string \<Rightarrow> 'c cfg_parser \<Rightarrow> 'c cfg_scan option" where
  "cfg_accept_line call after_end t walk p = do {
     p \<leftarrow> cfg_next_state call t p;
     let p = p\<lparr>c_config := after_end (c_config p), linecnt := linecnt p + 1\<rparr>;
     Some (if walk = [] then Cfg_Finished p else Cfg_Next (tl walk) p)
   }"

definition at_line_end :: "string \<Rightarrow> bool" where
  "at_line_end walk \<longleftrightarrow> walk = [] \<or> hd walk \<in> newlines"

fun cfg_try_tokens ::
  "'c cfg_calls \<Rightarrow> ('c \<Rightarrow> 'c) \<Rightarrow> cmdp_token list \<Rightarrow> string \<Rightarrow> 'c cfg_parser \<Rightarrow> 'c cfg_scan option" where
  "cfg_try_tokens call crit [] walk p = Some (Cfg_Unhandled walk)"
| "cfg_try_tokens call crit (t # ts) walk p =
     (if is_literal t then
        if strncasecmp_eq walk (literal_text t)
        then cfg_accept call t (STACK_STR (literal_text t)) (drop (length (literal_text t)) walk) p
        else cfg_try_tokens call crit ts walk p
      else if cfg_is_number t then
        let r = strtol 10 walk in
        if erange r \<or> num_rest r = walk then cfg_try_tokens call crit ts walk p
        else cfg_accept call t (STACK_LONG (num_value r)) (num_rest r) p
      else if cfg_is_string t then
        case cfg_parse_string walk (token_name t = ''word'') of
          (stop, Some str) \<Rightarrow> cfg_accept call t (STACK_STR str) (if starts_with [dquote] stop then tl stop else stop) p
        | (stop, None) \<Rightarrow> cfg_try_tokens call crit ts stop p
      else if is_line t then cfg_accept_line call id t (line_end walk) p
      else if cfg_is_end t \<and> at_line_end walk then cfg_accept_line call crit t walk p
      else cfg_try_tokens call crit ts walk p)"

section \<open>Reporting an error\<close>

definition newline_at :: "string \<Rightarrow> nat \<Rightarrow> bool" where
  "newline_at input i \<longleftrightarrow> i < length input \<and> input ! i \<in> newlines"

fun line_start :: "string \<Rightarrow> nat \<Rightarrow> nat" where
  "line_start input 0 = (if newline_at input 0 then 1 else 0)"
| "line_start input (Suc i) = (if newline_at input (Suc i) then Suc (Suc i) else line_start input i)"

definition start_of_line :: "string \<Rightarrow> int \<Rightarrow> int" where
  "start_of_line input i = (if i < 0 then i + 1 else int (line_start input (nat i)))"

text \<open>Reading outside the input is a failure.\<close>

definition single_line :: "string \<Rightarrow> int \<Rightarrow> string option" where
  "single_line input i =
     (if 0 \<le> i \<and> i \<le> int (length input) then Some (takeWhile (\<lambda>c. c \<noteq> CHR 0x0A) (drop (nat i) input)) else None)"

fun cfg_join_tokens :: "cmdp_token list \<Rightarrow> string" where
  "cfg_join_tokens [] = []"
| "cfg_join_tokens (t # ts) =
     (if \<not> is_literal t \<and> is_error t then []
      else token_display t @ (if ts = [] then [] else '', '')) @ cfg_join_tokens ts"

text \<open>The position is marked below the line, with tabs kept before it.\<close>

definition cfg_position :: "string \<Rightarrow> nat \<Rightarrow> nat \<Rightarrow> string" where
  "cfg_position input line pos =
     map (\<lambda>i. if pos \<le> i then CHR ''^'' else if input ! i = CHR 0x09 then CHR 0x09 else CHR '' '')
       [line..<length input - length (line_end (drop line input))]"

fun lines_after :: "nat \<Rightarrow> string \<Rightarrow> int \<Rightarrow> (int \<times> string) list" where
  "lines_after 0 s n = []"
| "lines_after (Suc k) s n =
     (let r = dropWhile (\<lambda>c. c \<noteq> CHR 0x0A) s in
      if length r \<le> 1 then lines_after k s (n + 1)
      else (n, takeWhile (\<lambda>c. c \<noteq> CHR 0x0A) (tl r)) # lines_after k (tl r) (n + 1))"

definition report_error :: "cmdp_token list \<Rightarrow> string \<Rightarrow> string \<Rightarrow> int \<Rightarrow> cfg_error option" where
  "report_error ts input walk cnt = do {
     let pos = length input - length walk;
     let line = start_of_line input (int pos);
     text \<leftarrow> single_line input line;
     before \<leftarrow> (if cnt > 1 then do {
         let p1 = start_of_line input (line - 2);
         l1 \<leftarrow> single_line input p1;
         (if cnt > 2 then do {
            l2 \<leftarrow> single_line input (start_of_line input (p1 - 2));
            Some [(cnt - 2, l2), (cnt - 1, l1)]
          } else Some [(cnt - 1, l1)])
       } else Some []);
     Some \<lparr>err_expected = ''Expected one of these tokens: '' @ cfg_join_tokens ts, err_before = before,
       err_line = (cnt, text), err_position = cfg_position input (nat line) pos,
       err_after = lines_after 2 (drop (nat line) input) (cnt + 1)\<rparr>
   }"

section \<open>The loop\<close>

fun find_error :: "(cmdp_state \<Rightarrow> cmdp_token list) \<Rightarrow> cmdp_state list \<Rightarrow> cmdp_token option" where
  "find_error T [] = None"
| "find_error T (s # ss) =
     (case List.find is_error (T s) of Some t \<Rightarrow> Some t | None \<Rightarrow> find_error T ss)"

text \<open>The rest of the line is skipped, its newline is not; without one the input is finished.\<close>

definition recover :: "'c cfg_calls \<Rightarrow> tables \<Rightarrow> string \<Rightarrow> string \<Rightarrow> 'c cfg_parser \<Rightarrow> 'c cfg_scan option" where
  "recover call T input walk p = do {
     e \<leftarrow> report_error (T (c_state p)) input walk (linecnt p);
     t \<leftarrow> find_error T (rev (statelist p));
     p \<leftarrow> cfg_next_state call t (p\<lparr>c_errors := c_errors p @ [e], c_stack := clear_stack\<rparr>);
     let rest = dropWhile (\<lambda>c. c \<noteq> CHR 0x0A) walk;
     Some (if rest = [] then Cfg_Finished p else Cfg_Next rest p)
   }"

definition cfg_blank :: "char \<Rightarrow> bool" where
  "cfg_blank c \<longleftrightarrow> c \<in> {CHR '' '', CHR 0x09}"

text \<open>
  \<open>k\<close> bounds the iterations: one consumes input or recovers from an error, and then the end of the
  line is consumed next.
\<close>

fun cfg_loop ::
  "nat \<Rightarrow> 'c cfg_calls \<Rightarrow> ('c \<Rightarrow> 'c) \<Rightarrow> tables \<Rightarrow> string \<Rightarrow> string \<Rightarrow> 'c cfg_parser \<Rightarrow> 'c cfg_parser option" where
  "cfg_loop 0 call crit T input walk p = None"
| "cfg_loop (Suc k) call crit T input walk p = do {
     r \<leftarrow> cfg_try_tokens call crit (T (c_state p)) (dropWhile cfg_blank walk) p;
     r \<leftarrow> (case r of Cfg_Unhandled w \<Rightarrow> recover call T input w p | _ \<Rightarrow> Some r);
     (case r of
        Cfg_Next w p \<Rightarrow> cfg_loop k call crit T input w p
      | Cfg_Finished p \<Rightarrow> Some p
      | Cfg_Unhandled w \<Rightarrow> None)
   }"

definition parse_config ::
  "'c cfg_calls \<Rightarrow> ('c \<Rightarrow> 'c) \<Rightarrow> tables \<Rightarrow> string \<Rightarrow> 'c cfg_parser \<Rightarrow> 'c cfg_parser option" where
  "parse_config call crit T input p =
     cfg_loop (2 * length input + 2) call crit T input input
       (p\<lparr>c_state := INITIAL, statelist := [INITIAL], linecnt := 1, c_config := crit (c_config p)\<rparr>)"

end
