(* ===== verification/Config_Parser_Facts.thy ===== *)
theory Config_Parser_Facts
  imports Config_Parser Command_Parser_Facts
begin

text \<open>
  The configuration parser: input is consumed, so that fuel never decides; the report of an error
  reads inside the input; an unparsable line changes nothing but the list of errors.
\<close>

section \<open>Input is consumed\<close>

lemma cfg_quoted_end_suffix: "suffix (cfg_quoted_end prev s) s"
  by (induction prev s rule: cfg_quoted_end.induct) (auto intro: suffix_ConsI)

lemma line_end_suffix: "suffix (line_end s) s"
  by (simp add: line_end_def suffix_dropWhile)

lemma cfg_unquoted_end_suffix: "suffix (cfg_unquoted_end w s) s"
  by (simp add: cfg_unquoted_end_def suffix_dropWhile line_end_suffix)

lemma cfg_parse_string_suffix:
  assumes "cfg_parse_string walk w = (stop, r)"
  shows "suffix stop walk" and "r \<noteq> None \<Longrightarrow> length stop < length walk"
proof -
  have beg: "suffix (if starts_with [dquote] walk then tl walk else walk) walk" by (simp add: suffix_tl)
  have stop: "suffix stop (if starts_with [dquote] walk then tl walk else walk)"
    using assms by (auto simp: cfg_parse_string_def Let_def cfg_quoted_end_suffix cfg_unquoted_end_suffix)
  show "suffix stop walk" using stop beg by (rule suffix_order.trans)
  show "length stop < length walk" if "r \<noteq> None"
    using that assms suffix_length_le[OF beg] by (auto simp: cfg_parse_string_def Let_def split: if_splits)
qed

text \<open>The lines counted are no more than the newlines passed.\<close>

definition newlines_in :: "string \<Rightarrow> int" where
  "newlines_in s = int (length (filter (\<lambda>c. c \<in> newlines) s))"

lemma newlines_in_simps [simp]:
  "newlines_in [] = 0" "newlines_in (c # s) = (if c \<in> newlines then 1 else 0) + newlines_in s"
  "newlines_in (s @ t) = newlines_in s + newlines_in t" "0 \<le> newlines_in s"
  by (simp_all add: newlines_in_def)

lemma newlines_in_suffix: "suffix t s \<Longrightarrow> newlines_in t \<le> newlines_in s"
  by (auto simp: suffix_def)

text \<open>What an iteration does: \<open>w\<close> is what is left of \<open>walk\<close>.\<close>

definition passes :: "string \<Rightarrow> string \<Rightarrow> 'c cfg_parser \<Rightarrow> 'c cfg_parser \<Rightarrow> bool" where
  "passes walk w p q \<longleftrightarrow> suffix w walk \<and> linecnt q \<le> linecnt p + (newlines_in walk - newlines_in w)"

lemma cfg_push_linecnt: "cfg_push t v p = Some q \<Longrightarrow> linecnt q = linecnt p"
  by (auto simp: cfg_push_def split: option.splits entry_val.splits)

lemma cfg_next_state_linecnt: "cfg_next_state call t p = Some q \<Longrightarrow> linecnt q = linecnt p"
  by (auto simp: cfg_next_state_def split: bind_split_asm next_state.splits)

lemma cfg_next_state_Goto: "cfg_next_state call t p = Some q \<Longrightarrow> token_next t = Goto s \<Longrightarrow> c_state q = s"
  by (auto simp: cfg_next_state_def split: bind_split_asm)

lemma cfg_accept_passes:
  assumes "cfg_accept call t v w p = Some (Cfg_Next w' q)" and "suffix w walk"
  shows "w' = w" and "passes walk w p q"
  using assms newlines_in_suffix[OF assms(2)]
  by (auto simp: cfg_accept_def passes_def cfg_push_linecnt cfg_next_state_linecnt split: bind_split_asm)

lemma cfg_accept_Next: "cfg_accept call t v w p = Some r \<Longrightarrow> \<exists>q. r = Cfg_Next w q"
  by (auto simp: cfg_accept_def split: bind_split_asm)

lemma cfg_accept_line_passes:
  assumes "cfg_accept_line call f t w p = Some (Cfg_Next w' q)" and "suffix w walk" and "at_line_end w"
  shows "length w' < length walk" and "passes walk w' p q"
proof -
  obtain c cs where w: "w = c # cs" "w' = cs" "c \<in> newlines" "linecnt q = linecnt p + 1"
    using assms(1,3)
    by (cases w) (auto simp: cfg_accept_line_def at_line_end_def cfg_next_state_linecnt Let_def split: bind_split_asm)
  have "newlines_in (c # cs) \<le> newlines_in walk" using newlines_in_suffix[OF assms(2)] w(1) by simp
  moreover have "suffix cs walk" using assms(2) w(1) by (auto dest: suffix_ConsD)
  ultimately show "passes walk w' p q" using w by (simp add: passes_def)
  show "length w' < length walk" using suffix_length_le[OF assms(2)] w by simp
qed

lemma cfg_accept_line_handled: "cfg_accept_line call f t w p \<noteq> Some (Cfg_Unhandled u)"
  by (auto simp: cfg_accept_line_def Let_def split: bind_split_asm if_splits)

fun cfg_consumes :: "string \<Rightarrow> 'c cfg_parser \<Rightarrow> 'c cfg_scan \<Rightarrow> bool" where
  "cfg_consumes walk p (Cfg_Next w q) \<longleftrightarrow> length w < length walk \<and> passes walk w p q"
| "cfg_consumes walk p (Cfg_Finished q) \<longleftrightarrow> True"
| "cfg_consumes walk p (Cfg_Unhandled w) \<longleftrightarrow> suffix w walk"

lemma cfg_consumes_suffix: "cfg_consumes stop p r \<Longrightarrow> suffix stop walk \<Longrightarrow> cfg_consumes walk p r"
  using suffix_length_le[of stop walk] newlines_in_suffix[of stop walk]
  by (cases r) (auto simp: passes_def intro: suffix_order.trans)

lemma cfg_accept_consumes:
  assumes "cfg_accept call t v w p = Some r" and "suffix w walk" and "w \<noteq> walk"
  shows "cfg_consumes walk p r"
proof -
  obtain q where r: "r = Cfg_Next w q" using cfg_accept_Next[OF assms(1)] by blast
  have "passes walk w p q" using assms(1,2) unfolding r by (rule cfg_accept_passes(2))
  then show ?thesis using assms(2,3) r by (simp add: suffix_length_less strict_suffix_def)
qed

lemma cfg_accept_line_consumes:
  assumes "cfg_accept_line call f t w p = Some r" and "suffix w walk" and "at_line_end w"
  shows "cfg_consumes walk p r"
proof (cases r)
  case (Cfg_Next w' q)
  from cfg_accept_line_passes[OF assms(1)[unfolded this] assms(2,3)] show ?thesis by (simp add: Cfg_Next)
qed (use assms(1) in \<open>auto simp: cfg_accept_line_handled\<close>)

lemma at_line_end_line_end: "at_line_end (line_end walk)"
  by (induction walk) (auto simp: at_line_end_def line_end_def)

definition cfg_literals_ok :: "cmdp_token list \<Rightarrow> bool" where
  "cfg_literals_ok ts \<longleftrightarrow> list_all (\<lambda>t. is_literal t \<longrightarrow> literal_text t \<noteq> []) ts"

lemma cfg_try_tokens_consumes:
  "cfg_literals_ok ts \<Longrightarrow> cfg_try_tokens call crit ts walk p = Some r \<Longrightarrow> cfg_consumes walk p r"
proof (induction ts arbitrary: walk)
  case (Cons t ts)
  then have t: "is_literal t \<Longrightarrow> literal_text t \<noteq> []"
    and IH: "\<And>w. cfg_try_tokens call crit ts w p = Some r \<Longrightarrow> cfg_consumes w p r"
    by (auto simp: cfg_literals_ok_def)
  note accept = cfg_accept_consumes[of call t _ _ p r]
  consider (literal) "is_literal t" | (number) "\<not> is_literal t" "cfg_is_number t"
    | (str) "\<not> is_literal t" "\<not> cfg_is_number t" "cfg_is_string t"
    | (line) "\<not> is_literal t" "\<not> cfg_is_number t" "\<not> cfg_is_string t" "is_line t"
    | (rest) "\<not> is_literal t" "\<not> cfg_is_number t" "\<not> cfg_is_string t" "\<not> is_line t" by blast
  then show ?case
  proof cases
    case literal
    show ?thesis
    proof (cases "strncasecmp_eq walk (literal_text t)")
      case True
      then have "drop (length (literal_text t)) walk \<noteq> walk"
        using strncasecmp_eq_length[OF True] t[OF literal]
        by (cases "literal_text t") (auto dest!: arg_cong[where f = length])
      then show ?thesis using literal True accept[OF _ suffix_drop] Cons.prems(2) by simp
    qed (use literal IH Cons.prems(2) in simp)
  next
    case number
    then show ?thesis using IH Cons.prems(2) accept[OF _ strtol_suffix] by (auto simp: Let_def split: if_splits)
  next
    case str
    obtain stop y where y: "cfg_parse_string walk (token_name t = ''word'') = (stop, y)" by fastforce
    note stop = cfg_parse_string_suffix[OF y]
    show ?thesis
    proof (cases y)
      case None
      then show ?thesis using str y IH[of stop] cfg_consumes_suffix[OF _ stop(1)] Cons.prems(2) by auto
    next
      case (Some z)
      define w where "w = (if starts_with [dquote] stop then tl stop else stop)"
      have "suffix w stop" by (simp add: w_def suffix_tl)
      then have "suffix w walk" "w \<noteq> walk"
        using stop Some suffix_length_le[of w stop] by (auto intro: suffix_order.trans)
      then show ?thesis using str y Some accept Cons.prems(2) by (simp add: w_def)
    qed
  next
    case line
    then show ?thesis
      using Cons.prems(2) cfg_accept_line_consumes[OF _ line_end_suffix at_line_end_line_end] by auto
  next
    case rest
    then show ?thesis
      using IH Cons.prems(2) cfg_accept_line_consumes[of call crit t walk p r walk] by (auto split: if_splits)
  qed
qed auto

text \<open>A state that begins with the end token accepts the end of a line.\<close>

definition ends_first :: "cmdp_token list \<Rightarrow> bool" where
  "ends_first ts \<longleftrightarrow> (case ts of [] \<Rightarrow> False | t # _ \<Rightarrow> cfg_is_end t)"

lemma cfg_is_end_names:
  "cfg_is_end t \<Longrightarrow> \<not> is_literal t \<and> \<not> cfg_is_number t \<and> \<not> cfg_is_string t \<and> \<not> is_line t"
  by (simp add: cfg_is_end_def is_literal_def starts_with_def squote_def cfg_is_number_def cfg_is_string_def
      is_line_def)

lemma ends_first_handled:
  "ends_first ts \<Longrightarrow> at_line_end walk \<Longrightarrow>
    cfg_try_tokens call crit ts walk p = cfg_accept_line call crit (hd ts) walk p"
  using cfg_is_end_names by (cases ts) (auto simp: ends_first_def)

definition cfg_table_ok :: "tables \<Rightarrow> bool" where
  "cfg_table_ok T \<longleftrightarrow> (\<forall>s. cfg_literals_ok (T s) \<and>
     list_all (\<lambda>t. is_error t \<longrightarrow> (case token_next t of Goto s' \<Rightarrow> ends_first (T s') | CALL i \<Rightarrow> False)) (T s))"

definition cfg_todo :: "tables \<Rightarrow> string \<Rightarrow> 'c cfg_parser \<Rightarrow> nat" where
  "cfg_todo T walk p = 2 * length walk + (if ends_first (T (c_state p)) \<and> at_line_end walk then 0 else 1)"

lemma cfg_todo_shorter: "length w < length walk \<Longrightarrow> cfg_todo T w q < cfg_todo T walk p"
  by (simp add: cfg_todo_def)

lemma find_error_is_error:
  "find_error T ss = Some t \<Longrightarrow> is_error t \<and> (\<exists>s. t \<in> set (T s))"
  by (induction ss) (auto split: option.splits dest: find_SomeD)

lemma recover_Next:
  assumes "cfg_table_ok T" and "recover call T input walk p = Some (Cfg_Next w q)"
  shows "suffix w walk" and "at_line_end w" and "ends_first (T (c_state q))" and "linecnt q = linecnt p"
proof -
  obtain e t q' where t: "find_error T (rev (statelist p)) = Some t"
      and q: "cfg_next_state call t (p\<lparr>c_errors := c_errors p @ [e], c_stack := clear_stack\<rparr>) = Some q"
      and w: "w = dropWhile (\<lambda>c. c \<noteq> CHR 0x0A) walk" "w \<noteq> []"
    using assms(2) by (auto simp: recover_def Let_def split: bind_split_asm if_splits)
  obtain s where "is_error t" "t \<in> set (T s)" using find_error_is_error[OF t] by blast
  then have "case token_next t of Goto s' \<Rightarrow> ends_first (T s') | CALL i \<Rightarrow> False"
    using assms(1) unfolding cfg_table_ok_def list_all_iff by blast
  then obtain s' where s': "token_next t = Goto s'" "ends_first (T s')" by (cases "token_next t") auto
  show "suffix w walk" by (simp add: w(1) suffix_dropWhile)
  have "hd w = CHR 0x0A" using w hd_dropWhile[of "\<lambda>c. c \<noteq> CHR 0x0A" walk] by auto
  then show "at_line_end w" by (simp add: at_line_end_def newlines_def)
  show "ends_first (T (c_state q))" using cfg_next_state_Goto[OF q s'(1)] s'(2) by simp
  show "linecnt q = linecnt p" using cfg_next_state_linecnt[OF q] by simp
qed

lemma recover_not_unhandled: "recover call T input walk p \<noteq> Some (Cfg_Unhandled w)"
  by (auto simp: recover_def Let_def split: bind_split_asm if_splits)

definition cfg_step :: "'c cfg_calls \<Rightarrow> ('c \<Rightarrow> 'c) \<Rightarrow> tables \<Rightarrow> string \<Rightarrow> string \<Rightarrow> 'c cfg_parser \<Rightarrow> 'c cfg_scan option" where
  "cfg_step call crit T input walk p = do {
     r \<leftarrow> cfg_try_tokens call crit (T (c_state p)) (dropWhile cfg_blank walk) p;
     (case r of Cfg_Unhandled w \<Rightarrow> recover call T input w p | _ \<Rightarrow> Some r)
   }"

lemma cfg_loop_step:
  "cfg_loop (Suc k) call crit T input walk p =
    (case cfg_step call crit T input walk p of
       Some (Cfg_Next w q) \<Rightarrow> cfg_loop k call crit T input w q
     | Some (Cfg_Finished q) \<Rightarrow> Some q
     | _ \<Rightarrow> None)"
  by (auto simp: cfg_step_def split: option.splits cfg_scan.splits bind_split)

lemma cfg_step_todo:
  assumes "cfg_table_ok T" and "cfg_step call crit T input walk p = Some (Cfg_Next w q)"
  shows "cfg_todo T w q < cfg_todo T walk p" and "passes walk w p q"
proof -
  let ?walk = "dropWhile cfg_blank walk"
  have lit: "cfg_literals_ok (T (c_state p))" using assms(1) by (simp add: cfg_table_ok_def)
  obtain r where r: "cfg_try_tokens call crit (T (c_state p)) ?walk p = Some r"
      "(case r of Cfg_Unhandled w \<Rightarrow> recover call T input w p | _ \<Rightarrow> Some r) = Some (Cfg_Next w q)"
    using assms(2) by (auto simp: cfg_step_def bind_eq_Some)
  have c: "cfg_consumes ?walk p r" using cfg_try_tokens_consumes[OF lit r(1)] .
  then have cw: "cfg_consumes walk p r" using cfg_consumes_suffix suffix_dropWhile by blast
  have "cfg_todo T w q < cfg_todo T walk p \<and> passes walk w p q"
  proof (cases r)
    case (Cfg_Next w' q')
    then show ?thesis using cw r(2) cfg_todo_shorter by auto
  next
    case (Cfg_Unhandled u)
    then have rec: "recover call T input u p = Some (Cfg_Next w q)" using r(2) by simp
    note R = recover_Next[OF assms(1) rec]
    have u: "suffix u ?walk" "suffix u walk" using c cw Cfg_Unhandled by auto
    have w: "suffix w walk" using R(1) u(2) by (rule suffix_order.trans)
    have "passes walk w p q" using w R(4) newlines_in_suffix[OF w] by (simp add: passes_def)
    moreover have "cfg_todo T w q = 2 * length w" using R(2,3) by (simp add: cfg_todo_def)
    moreover have "2 * length w < cfg_todo T walk p"
    proof (cases "?walk = walk")
      case True
      then have "\<not> (ends_first (T (c_state p)) \<and> at_line_end walk)"
        using r(1) Cfg_Unhandled ends_first_handled cfg_accept_line_handled by metis
      then show ?thesis using suffix_length_le[OF w] by (auto simp: cfg_todo_def)
    next
      case False
      have "suffix ?walk walk" by (rule suffix_dropWhile)
      then have "length ?walk < length walk" using False
        by (metis suffix_length_less strict_suffix_def)
      moreover have "length w \<le> length ?walk"
        using suffix_length_le[OF R(1)] suffix_length_le[OF u(1)] by simp
      ultimately show ?thesis by (simp add: cfg_todo_def)
    qed
    ultimately show ?thesis by simp
  qed (use r(2) in auto)
  then show "cfg_todo T w q < cfg_todo T walk p" "passes walk w p q" by auto
qed

lemma cfg_loop_fuel:
  assumes "cfg_table_ok T"
  shows "cfg_todo T walk p < k \<Longrightarrow> k \<le> m \<Longrightarrow>
    cfg_loop m call crit T input walk p = cfg_loop k call crit T input walk p"
proof (induction k arbitrary: m walk p)
  case (Suc k)
  then obtain m' where m: "m = Suc m'" "k \<le> m'" by (cases m) auto
  show ?case
  proof (cases "cfg_step call crit T input walk p")
    case (Some r)
    show ?thesis
    proof (cases r)
      case (Cfg_Next w q)
      then have "cfg_todo T w q < k"
        using cfg_step_todo(1)[OF assms, of call crit input walk p w q] Some Suc.prems(1) by simp
      from Suc.IH[OF this m(2)] show ?thesis by (simp only: m(1) cfg_loop_step Some Cfg_Next option.case cfg_scan.case)
    qed (simp_all only: m(1) cfg_loop_step Some option.case cfg_scan.case)
  qed (simp only: m(1) cfg_loop_step option.case)
qed simp

section \<open>The report of an error reads inside the input\<close>

lemma line_start_le: "line_start input i \<le> i + 1"
  by (induction i) auto

lemma line_start_passes: "j \<le> i \<Longrightarrow> newline_at input j \<Longrightarrow> j < line_start input i"
  by (induction i) (auto simp: le_Suc_eq)

lemma line_start_le_length: "i \<le> length input \<Longrightarrow> line_start input i \<le> length input"
  by (induction i) (auto simp: newline_at_def Suc_le_eq)

lemma newlines_in_one:
  assumes "1 \<le> newlines_in pre"
  obtains a where "a < length pre" and "newline_at (pre @ s) a"
proof -
  have "filter (\<lambda>c. c \<in> newlines) pre \<noteq> []" using assms by (auto simp: newlines_in_def)
  then obtain c where "c \<in> set pre" "c \<in> newlines" by (auto simp: filter_empty_conv)
  then obtain a where "a < length pre" "pre ! a \<in> newlines" by (auto simp: in_set_conv_nth)
  then show ?thesis using that[of a] by (simp add: newline_at_def nth_append)
qed

lemma newlines_in_two:
  "2 \<le> newlines_in pre \<Longrightarrow> \<exists>a b. a < b \<and> b < length pre \<and> newline_at (pre @ s) a \<and> newline_at (pre @ s) b"
proof (induction pre)
  case (Cons c pre)
  show ?case
  proof (cases "c \<in> newlines")
    case True
    then have "1 \<le> newlines_in pre" using Cons.prems by simp
    then obtain b where "b < length pre" "newline_at (pre @ s) b" by (rule newlines_in_one)
    then show ?thesis using True by (intro exI[of _ 0] exI[of _ "Suc b"]) (simp add: newline_at_def)
  next
    case False
    then obtain a b where "a < b" "b < length pre" "newline_at (pre @ s) a" "newline_at (pre @ s) b"
      using Cons by auto
    then show ?thesis by (intro exI[of _ "Suc a"] exI[of _ "Suc b"]) (simp add: newline_at_def)
  qed
qed simp

lemma single_line_inside: "0 \<le> i \<Longrightarrow> i \<le> int (length input) \<Longrightarrow> \<exists>l. single_line input i = Some l"
  by (simp add: single_line_def)

lemma start_of_line_bounds:
  assumes "-1 \<le> i" and "i \<le> int (length input)"
  shows "0 \<le> start_of_line input i" and "start_of_line input i \<le> int (length input)"
  using assms line_start_le_length[of "nat i" input] by (auto simp: start_of_line_def)

lemma report_error_total:
  assumes "suffix walk input" and "cnt \<le> 1 + (newlines_in input - newlines_in walk)"
  shows "\<exists>e. report_error ts input walk cnt = Some e"
proof -
  obtain pre where pre: "input = pre @ walk" using assms(1) by (auto simp: suffix_def)
  define pos where "pos = length input - length walk"
  have pos: "pos = length pre" by (simp add: pos_def pre)
  define line where "line = start_of_line input (int pos)"
  define p1 where "p1 = start_of_line input (line - 2)"
  have cnt: "cnt \<le> 1 + newlines_in pre" using assms(2) by (simp add: pre)
  have line: "0 \<le> line" "line \<le> int (length input)"
    using start_of_line_bounds[of "int pos" input] by (simp_all add: line_def pos pre)
  have past: "a < pos \<Longrightarrow> newline_at input a \<Longrightarrow> int a < line" for a
    using line_start_passes[of a pos input] by (simp add: line_def start_of_line_def)
  obtain l0 where l0: "single_line input line = Some l0" using single_line_inside[OF line] by blast
  show ?thesis
  proof (cases "cnt > 1")
    case True
    then obtain a where "a < length pre" "newline_at input a" using cnt newlines_in_one[of pre walk] pre by auto
    then have "0 < line" using past[of a] pos by simp
    then have p1: "0 \<le> p1" "p1 \<le> int (length input)"
      using start_of_line_bounds[of "line - 2" input] line by (simp_all add: p1_def)
    obtain l1 where l1: "single_line input p1 = Some l1" using single_line_inside[OF p1] by blast
    show ?thesis
    proof (cases "cnt > 2")
      case two: True
      then obtain a b where ab: "a < b" "b < pos" "newline_at input a" "newline_at input b"
        using cnt newlines_in_two[of pre walk] pre pos by auto
      have "int b < line" using past[of b] ab by simp
      then have "int a \<le> line - 2" using ab(1) by simp
      then have "int a < p1" using line_start_passes[of a "nat (line - 2)" input] ab(3)
        by (simp add: p1_def start_of_line_def)
      then have "\<exists>l2. single_line input (start_of_line input (p1 - 2)) = Some l2"
        using start_of_line_bounds[of "p1 - 2" input] p1 by (intro single_line_inside) simp_all
      then show ?thesis using True two l0 l1
        by (auto simp: report_error_def Let_def pos_def[symmetric] line_def[symmetric] p1_def[symmetric])
    next
      case False
      then show ?thesis using True l0 l1
        by (simp add: report_error_def Let_def pos_def[symmetric] line_def[symmetric] p1_def[symmetric])
    qed
  next
    case False
    then show ?thesis using l0 by (simp add: report_error_def Let_def pos_def[symmetric] line_def[symmetric])
  qed
qed

text \<open>
  When the error is the end of a line, the line that is shown and marked is the next one: the search
  for the start of the line stops at once.
\<close>

lemma start_of_line_at_newline:
  "newline_at input i \<Longrightarrow> start_of_line input (int i) = int i + 1"
proof -
  assume "newline_at input i"
  then have "line_start input i = Suc i" by (cases i) simp_all
  then show ?thesis by (simp add: start_of_line_def)
qed

lemma report_at_line_end:
  assumes "report_error ts (pre @ CHR 0x0A # rest) (CHR 0x0A # rest) cnt = Some e"
  shows "err_line e = (cnt, takeWhile (\<lambda>c. c \<noteq> CHR 0x0A) rest)"
proof -
  have "newline_at (pre @ CHR 0x0A # rest) (length pre)" by (simp add: newline_at_def newlines_def)
  then have "start_of_line (pre @ CHR 0x0A # rest) (int (length pre)) = int (length pre) + 1"
    by (rule start_of_line_at_newline)
  then have "single_line (pre @ CHR 0x0A # rest) (start_of_line (pre @ CHR 0x0A # rest) (int (length pre)))
      = Some (takeWhile (\<lambda>c. c \<noteq> CHR 0x0A) rest)"
    by (simp add: single_line_def nat_add_distrib)
  then show ?thesis using assms by (auto simp: report_error_def Let_def split: bind_split_asm if_splits)
qed

section \<open>An unparsable line\<close>

text \<open>The state \<open>INITIAL\<close> accepts the end of a line and is where errors lead to.\<close>

definition initial_ok :: "cmdp_token list \<Rightarrow> bool" where
  "initial_ok ts \<longleftrightarrow> ends_first ts \<and> token_next (hd ts) = Goto INITIAL \<and>
     (case List.find is_error ts of Some t \<Rightarrow> token_next t = Goto INITIAL | None \<Rightarrow> False)"

definition cfg_idle :: "'c cfg_parser \<Rightarrow> bool" where
  "cfg_idle p \<longleftrightarrow> c_state p = INITIAL \<and> statelist p = [INITIAL] \<and> c_stack p = clear_stack"

lemma enter_INITIAL:
  "cfg_idle p \<Longrightarrow> token_next t = Goto INITIAL \<Longrightarrow> cfg_next_state call t p = Some p"
  by (simp add: cfg_next_state_def enter_state_def cfg_idle_def)

lemma cfg_idle_update [simp]:
  "cfg_idle (p\<lparr>c_errors := es\<rparr>) = cfg_idle p" "cfg_idle (p\<lparr>c_config := c\<rparr>) = cfg_idle p"
  "cfg_idle (p\<lparr>linecnt := n\<rparr>) = cfg_idle p"
  by (simp_all add: cfg_idle_def)

lemma recover_idle:
  assumes "initial_ok (T INITIAL)" and "cfg_idle p" and w: "w = u @ CHR 0x0A # rest" "CHR 0x0A \<notin> set u"
    and e: "report_error (T INITIAL) input w (linecnt p) = Some e"
  shows "recover call T input w p = Some (Cfg_Next (CHR 0x0A # rest) (p\<lparr>c_errors := c_errors p @ [e]\<rparr>))"
proof -
  have p: "c_state p = INITIAL" "statelist p = [INITIAL]" "p\<lparr>c_stack := clear_stack\<rparr> = p"
    using assms(2) by (simp_all add: cfg_idle_def)
  obtain t where t: "List.find is_error (T INITIAL) = Some t" "token_next t = Goto INITIAL"
    using assms(1) by (auto simp: initial_ok_def split: option.splits)
  have rest: "dropWhile (\<lambda>c. c \<noteq> CHR 0x0A) w = CHR 0x0A # rest"
    using w by (auto simp: dropWhile_append3)
  have "cfg_idle (p\<lparr>c_errors := c_errors p @ [e], c_stack := clear_stack\<rparr>)"
    using assms(2) by (simp add: cfg_idle_def)
  from enter_INITIAL[OF this t(2)]
  have "cfg_next_state call t (p\<lparr>c_errors := c_errors p @ [e], c_stack := clear_stack\<rparr>) =
      Some (p\<lparr>c_errors := c_errors p @ [e]\<rparr>)"
    using p(3) by (metis (no_types, lifting) cfg_parser.surjective cfg_parser.update_convs(2,6))
  then show ?thesis by (simp add: recover_def p(1,2) e t(1) rest)
qed

lemma bad_line_skipped:
  assumes "initial_ok (T INITIAL)" and "cfg_idle p"
    and "cfg_try_tokens call crit (T INITIAL) (dropWhile cfg_blank walk) p = Some (Cfg_Unhandled (u @ CHR 0x0A # rest))"
    and "CHR 0x0A \<notin> set u" and "suffix (u @ CHR 0x0A # rest) input"
    and "linecnt p \<le> 1 + (newlines_in input - newlines_in (u @ CHR 0x0A # rest))"
  shows "\<exists>e. report_error (T INITIAL) input (u @ CHR 0x0A # rest) (linecnt p) = Some e \<and>
    cfg_loop (Suc (Suc k)) call crit T input walk p =
    cfg_loop k call crit T input rest
      (p\<lparr>c_errors := c_errors p @ [e], c_config := crit (c_config p), linecnt := linecnt p + 1\<rparr>)"
proof -
  obtain e where e: "report_error (T INITIAL) input (u @ CHR 0x0A # rest) (linecnt p) = Some e"
    using report_error_total[OF assms(5,6)] by blast
  let ?p = "p\<lparr>c_errors := c_errors p @ [e]\<rparr>"
  have state: "c_state p = INITIAL" using assms(2) by (simp add: cfg_idle_def)
  have "cfg_step call crit T input walk p = Some (Cfg_Next (CHR 0x0A # rest) ?p)"
    using recover_idle[of T p _ u rest input e call, OF assms(1,2) refl assms(4) e] assms(3) by (simp add: cfg_step_def state)
  moreover have "cfg_step call crit T input (CHR 0x0A # rest) ?p =
      Some (Cfg_Next rest (?p\<lparr>c_config := crit (c_config p), linecnt := linecnt p + 1\<rparr>))"
  proof -
    have "cfg_try_tokens call crit (T INITIAL) (CHR 0x0A # rest) ?p =
        cfg_accept_line call crit (hd (T INITIAL)) (CHR 0x0A # rest) ?p"
      using assms(1) by (intro ends_first_handled) (simp_all add: initial_ok_def at_line_end_def newlines_def)
    moreover have "cfg_next_state call (hd (T INITIAL)) ?p = Some ?p"
      using assms(1,2) by (intro enter_INITIAL) (simp_all add: initial_ok_def)
    ultimately show ?thesis
      by (simp add: cfg_step_def state cfg_blank_def cfg_accept_line_def)
  qed
  ultimately have "cfg_loop (Suc (Suc k)) call crit T input walk p =
    cfg_loop k call crit T input rest (?p\<lparr>c_config := crit (c_config p), linecnt := linecnt p + 1\<rparr>)"
    by (simp only: cfg_loop_step option.case cfg_scan.case)
  then show ?thesis using e by blast
qed

end
