(* ===== verification/Config_Vars.thy ===== *)
theory Config_Vars
  imports Parse_String
begin

text \<open>
  Variables of the configuration (\<open>parse_file\<close> and \<open>upsert_variable\<close>, src/config_parser.c): lines are
  read and joined, \<open>set\<close> lines define variables, and every occurrence of a variable is replaced.  The
  size of the new buffer is counted beforehand, variable by variable, in a copy in which what has
  been counted is blanked out.  The main result is that the two passes agree, so that the
  replacement fills the buffer exactly, when no name contains a second dollar sign.
\<close>

type_synonym vars = "(string \<times> string) list"

section \<open>Defining a variable\<close>

fun update_variable :: "vars \<Rightarrow> string \<Rightarrow> string \<Rightarrow> vars option" where
  "update_variable [] key val = None"
| "update_variable ((k, v) # vs) key val =
     (if k = key then Some ((k, val) # vs) else map_option ((#) (k, v)) (update_variable vs key val))"

text \<open>A new variable goes before the first one that is not longer.\<close>

fun insert_variable :: "vars \<Rightarrow> string \<Rightarrow> string \<Rightarrow> vars" where
  "insert_variable [] key val = [(key, val)]"
| "insert_variable ((k, v) # vs) key val =
     (if length k \<le> length key then (key, val) # (k, v) # vs else (k, v) # insert_variable vs key val)"

definition upsert_variable :: "vars \<Rightarrow> string \<Rightarrow> string \<Rightarrow> vars" where
  "upsert_variable vs key val =
     (case update_variable vs key val of Some vs' \<Rightarrow> vs' | None \<Rightarrow> insert_variable vs key val)"

section \<open>Reading the lines\<close>

text \<open>\<open>sscanf\<close> with \<open>%511s\<close>: at most \<open>n\<close> characters that are no white space, at least one.\<close>

definition scan_word :: "nat \<Rightarrow> string \<Rightarrow> (string \<times> string) option" where
  "scan_word n s =
     (let t = dropWhile is_space s; w = take n (takeWhile (\<lambda>c. \<not> is_space c) t)
      in if w = [] then None else Some (w, drop (length w) t))"

text \<open>A space and \<open>%4095[^\n]\<close>: the rest of the line, empty when there is none.\<close>

definition scan_rest :: "string \<Rightarrow> string" where
  "scan_rest s = take 4095 (takeWhile (\<lambda>c. c \<noteq> CHR 0x0A) (dropWhile is_space s))"

definition is_set :: "string \<Rightarrow> bool" where "is_set key \<longleftrightarrow> strcasecmp key ''set'' = 0"
definition is_set_from_resource :: "string \<Rightarrow> bool" where
  "is_set_from_resource key \<longleftrightarrow> strcasecmp key ''set_from_resource'' = 0"

text \<open>The result says whether the line is an invalid assignment; \<open>res\<close> looks up X resources.\<close>

definition set_line :: "string \<Rightarrow> vars \<Rightarrow> bool \<times> vars" where
  "set_line val vs =
     (case scan_word 511 val of
        None \<Rightarrow> (True, vs)
      | Some (v_key, r) \<Rightarrow>
          if hd v_key \<noteq> CHR ''$'' then (True, vs) else (False, upsert_variable vs v_key (scan_rest r)))"

definition set_from_resource_line :: "(string \<Rightarrow> cstr) \<Rightarrow> string \<Rightarrow> vars \<Rightarrow> bool \<times> vars" where
  "set_from_resource_line res val vs =
     (case scan_word 511 val of
        None \<Rightarrow> (True, vs)
      | Some (v_key, r) \<Rightarrow>
          if hd v_key \<noteq> CHR ''$'' then (True, vs)
          else let (res_name, fallback) =
                 (case scan_word 511 r of None \<Rightarrow> ([], []) | Some (n, r) \<Rightarrow> (n, scan_rest r))
               in (False, upsert_variable vs v_key (case res res_name of Some x \<Rightarrow> x | None \<Rightarrow> fallback)))"

definition variable_line :: "(string \<Rightarrow> cstr) \<Rightarrow> string \<Rightarrow> vars \<Rightarrow> bool \<times> vars" where
  "variable_line res line vs =
     (case scan_word 511 line of
        None \<Rightarrow> (False, vs)
      | Some (key, r) \<Rightarrow>
          let val = scan_rest r in
          if length key < 3 \<or> hd key = CHR ''#'' then (False, vs)
          else if is_set key \<and> val \<noteq> [] then set_line val vs
          else if is_set_from_resource key then set_from_resource_line res val vs
          else (False, vs))"

text \<open>
  A backslash before a newline joins the next line, except in a comment.  \<open>fgets\<close> reads up to the
  newline or the space left in the buffer of 4096 bytes.
\<close>

fun find_continuation :: "string \<Rightarrow> string option" where
  "find_continuation [] = None"
| "find_continuation [c] = None"
| "find_continuation (c # d # cs) =
     (if c = backslash \<and> d = CHR 0x0A then Some []
      else map_option ((#) c) (find_continuation (d # cs)))"

definition is_comment :: "string \<Rightarrow> bool" where
  "is_comment line = (case scan_word 511 line of None \<Rightarrow> False | Some (key, r) \<Rightarrow> hd key = CHR ''#'')"

definition fgets :: "nat \<Rightarrow> string \<Rightarrow> string \<times> string" where
  "fgets n s =
     (let l = takeWhile (\<lambda>c. c \<noteq> CHR 0x0A) s; m = min (n - 1) (length l + 1) in (take m s, drop m s))"

text \<open>
  The state is what is left of the file, the text before a continuation, the buffer read so far, the
  variables and whether an assignment was invalid.  \<open>k\<close> bounds the number of lines.
\<close>

fun read_lines :: "nat \<Rightarrow> (string \<Rightarrow> cstr) \<Rightarrow> string \<Rightarrow> string \<Rightarrow> string \<Rightarrow> vars \<Rightarrow> bool \<Rightarrow> (string \<times> vars \<times> bool) option" where
  "read_lines k res [] cont buf vs invalid = Some (buf, vs, invalid)"
| "read_lines 0 res (c # cs) cont buf vs invalid = None"
| "read_lines (Suc k) res (c # cs) cont buf vs invalid =
     (let (l, rest) = fgets (4096 - length cont) (c # cs);
          line = cont @ l
      in case (if is_comment line then None else find_continuation line) of
           Some cont' \<Rightarrow> read_lines k res rest cont' buf vs invalid
         | None \<Rightarrow>
             let (bad, vs) = variable_line res line vs
             in read_lines k res rest [] (buf @ line) vs (invalid \<or> bad))"

section \<open>Counting\<close>

fun blank_matches :: "string \<Rightarrow> string \<Rightarrow> nat \<times> string" where
  "blank_matches key [] = (0, [])"
| "blank_matches key (c # cs) =
     (if key \<noteq> [] \<and> strncasecmp_eq (c # cs) key
      then let (n, r) = blank_matches key (drop (length key) (c # cs))
           in (n + 1, replicate (length key) (CHR '' '') @ r)
      else let (n, r) = blank_matches key cs in (n, c # r))"

fun extra_bytes :: "vars \<Rightarrow> string \<Rightarrow> int" where
  "extra_bytes [] copy = 0"
| "extra_bytes ((k, v) # vs) copy =
     (let (n, copy) = blank_matches k copy
      in int n * (int (length v) - int (length k)) + extra_bytes vs copy)"

section \<open>Replacing\<close>

fun strcasestr :: "string \<Rightarrow> string \<Rightarrow> nat option" where
  "strcasestr [] key = (if key = [] then Some 0 else None)"
| "strcasestr (c # cs) key =
     (if strncasecmp_eq (c # cs) key then Some 0 else map_option Suc (strcasestr cs key))"

fun nearest :: "vars \<Rightarrow> string \<Rightarrow> nat \<Rightarrow> (string \<times> string) option \<Rightarrow> nat \<times> (string \<times> string) option" where
  "nearest [] walk distance cur = (distance, cur)"
| "nearest ((k, v) # vs) walk distance cur =
     (case strcasestr walk k of
        None \<Rightarrow> nearest vs walk distance cur
      | Some d \<Rightarrow> if d < distance then nearest vs walk d (Some (k, v)) else nearest vs walk distance cur)"

text \<open>\<open>fsize\<close> is the size of the file, which bounds the text; \<open>k\<close> bounds the replacements by its length.\<close>

fun replace_variables :: "nat \<Rightarrow> nat \<Rightarrow> vars \<Rightarrow> string \<Rightarrow> string option" where
  "replace_variables k fsize vs [] = Some []"
| "replace_variables 0 fsize vs (c # cs) = None"
| "replace_variables (Suc k) fsize vs (c # cs) =
     (case nearest vs (c # cs) fsize None of
        (d, None) \<Rightarrow> Some (c # cs)
      | (d, Some (key, val)) \<Rightarrow>
          map_option (\<lambda>r. take d (c # cs) @ val @ r)
            (replace_variables k fsize vs (drop (d + length key) (c # cs))))"

definition expand_file :: "nat \<Rightarrow> vars \<Rightarrow> string \<Rightarrow> string option" where
  "expand_file fsize vs buf = replace_variables (length buf) fsize vs buf"

text \<open>The space allocated, and what is written with the padding of \<open>strncpy\<close> and the terminating NUL.\<close>

definition new_size :: "nat \<Rightarrow> vars \<Rightarrow> string \<Rightarrow> int" where
  "new_size fsize vs buf = int fsize + extra_bytes vs buf + 1"

definition bytes_written :: "nat \<Rightarrow> string \<Rightarrow> string \<Rightarrow> int" where
  "bytes_written fsize buf result = int (length result) + (int fsize - int (length buf)) + 1"

end
