(* ===== verification/Config_Vars_Facts.thy ===== *)
theory Config_Vars_Facts
  imports Config_Vars
begin

text \<open>
  Variables are kept with the longest name first, so that the longest name that fits is replaced;
  and the replacement fills the buffer that was allocated for it.
\<close>

section \<open>Matching\<close>

abbreviation pci :: "string \<Rightarrow> string \<Rightarrow> bool" where "pci key s \<equiv> strncasecmp_eq s key"

definition first_var :: "vars \<Rightarrow> string \<Rightarrow> (string \<times> string) option" where
  "first_var vs s = List.find (\<lambda>(k, v). pci k s) vs"

lemma first_var_simps [simp]:
  "first_var [] s = None"
  "first_var ((k, v) # vs) s = (if pci k s then Some (k, v) else first_var vs s)"
  by (simp_all add: first_var_def)

lemma first_var_Some: "first_var vs s = Some (k, v) \<Longrightarrow> (k, v) \<in> set vs \<and> pci k s"
  by (auto simp: first_var_def dest: find_SomeD)

section \<open>The order of the variables\<close>

definition longest_first :: "vars \<Rightarrow> bool" where
  "longest_first vs \<longleftrightarrow> sorted_wrt (\<lambda>(k, v) (k', v'). length k' \<le> length k) vs"

lemma update_variable_keys: "update_variable vs key val = Some vs' \<Longrightarrow> map fst vs' = map fst vs"
  by (induction vs key val arbitrary: vs' rule: update_variable.induct) (auto split: if_splits)

lemma longest_first_keys: "longest_first vs \<longleftrightarrow> sorted_wrt (\<lambda>k k'. length k' \<le> length k) (map fst vs)"
  by (simp add: longest_first_def sorted_wrt_map split_def)

lemma set_insert_variable: "set (insert_variable vs key val) = insert (key, val) (set vs)"
  by (induction vs key val rule: insert_variable.induct) auto

lemma insert_variable_sorted: "longest_first vs \<Longrightarrow> longest_first (insert_variable vs key val)"
  unfolding longest_first_def
  by (induction vs key val rule: insert_variable.induct)
    (fastforce simp: set_insert_variable)+

lemma update_variable_None: "update_variable vs key val = None \<longleftrightarrow> key \<notin> fst ` set vs"
  by (induction vs key val rule: update_variable.induct) auto

lemma insert_variable_distinct:
  "key \<notin> fst ` set vs \<Longrightarrow> distinct (map fst vs) \<Longrightarrow> distinct (map fst (insert_variable vs key val))"
  by (induction vs key val rule: insert_variable.induct) (auto simp: set_insert_variable)

lemma map_of_insert_variable:
  "key \<notin> fst ` set vs \<Longrightarrow> map_of (insert_variable vs key val) = (map_of vs)(key \<mapsto> val)"
  by (induction vs key val rule: insert_variable.induct) (auto simp: fun_upd_twist)

lemma map_of_update_variable:
  "update_variable vs key val = Some vs' \<Longrightarrow> map_of vs' = (map_of vs)(key \<mapsto> val)"
  by (induction vs key val arbitrary: vs' rule: update_variable.induct) (auto split: if_splits)

lemma upsert_variable_spec:
  assumes "longest_first vs" and "distinct (map fst vs)"
  shows "longest_first (upsert_variable vs key val)" and "distinct (map fst (upsert_variable vs key val))"
    and "map_of (upsert_variable vs key val) = (map_of vs)(key \<mapsto> val)"
  using assms insert_variable_sorted insert_variable_distinct map_of_insert_variable map_of_update_variable
  by (auto simp: upsert_variable_def longest_first_keys update_variable_None split: option.split
      dest: update_variable_keys)

lemma first_var_longest:
  "longest_first vs \<Longrightarrow> first_var vs s = Some (k, v) \<Longrightarrow> (k', v') \<in> set vs \<Longrightarrow> pci k' s \<Longrightarrow> length k' \<le> length k"
  by (induction vs) (auto simp: longest_first_def split: if_splits)

section \<open>Names with one dollar sign\<close>

definition plain :: "string \<Rightarrow> bool" where
  "plain s \<longleftrightarrow> CHR ''$'' \<notin> set s \<and> CHR '' '' \<notin> set s"

definition one_dollar :: "string \<Rightarrow> bool" where
  "one_dollar k \<longleftrightarrow> (\<exists>w. k = CHR ''$'' # w \<and> plain w)"

definition names_ok :: "vars \<Rightarrow> bool" where
  "names_ok vs \<longleftrightarrow> (\<forall>(k, v) \<in> set vs. one_dollar k)"

lemma to_lower_special: "to_lower c = CHR ''$'' \<longleftrightarrow> c = CHR ''$''" "to_lower c = CHR '' '' \<longleftrightarrow> c = CHR '' ''"
  "to_lower (CHR ''$'') = CHR ''$''" "to_lower (CHR '' '') = CHR '' ''"
proof -
  have *: "to_lower c = d \<longleftrightarrow> c = d" if "char_code d < 65" for d
  proof -
    have "char_code (char_of (n::nat)) = n" if "n < 256" for n using that by (simp add: char_code_def)
    then have "char_code (to_lower c) \<ge> 97" if "65 \<le> char_code c" "char_code c \<le> 90"
      using that by (simp add: to_lower_def)
    then show ?thesis using that by (auto simp: to_lower_def)
  qed
  show "to_lower c = CHR ''$'' \<longleftrightarrow> c = CHR ''$''" "to_lower c = CHR '' '' \<longleftrightarrow> c = CHR '' ''"
    by (rule *, simp add: char_code_def)+
  show "to_lower (CHR ''$'') = CHR ''$''" "to_lower (CHR '' '') = CHR '' ''" by (simp_all add: to_lower_def char_code_def)
qed

lemma lower_special: "CHR ''$'' = to_lower c \<longleftrightarrow> c = CHR ''$''" "CHR '' '' = to_lower c \<longleftrightarrow> c = CHR '' ''"
  using to_lower_special by metis+

lemma one_dollar_no_match: "one_dollar k \<Longrightarrow> c \<noteq> CHR ''$'' \<Longrightarrow> \<not> pci k (c # s)"
  by (auto simp: one_dollar_def to_lower_special)

lemma first_var_dollar: "names_ok vs \<Longrightarrow> c \<noteq> CHR ''$'' \<Longrightarrow> first_var vs (c # s) = None"
  using one_dollar_no_match by (induction vs) (auto simp: names_ok_def)

lemma pci_split: "pci k s \<Longrightarrow> s = take (length k) s @ drop (length k) s \<and> length (take (length k) s) = length k"
  using strncasecmp_eq_length by fastforce

text \<open>The text of a match has no further dollar sign.\<close>

lemma match_plain: "pci w s \<Longrightarrow> CHR ''$'' \<notin> set w \<Longrightarrow> CHR ''$'' \<notin> set (take (length w) s)"
proof (induction w arbitrary: s)
  case (Cons c w)
  then show ?case by (cases s) (auto simp: to_lower_special lower_special)
qed simp

section \<open>The length of the result\<close>

definition delta :: "(string \<times> string) option \<Rightarrow> int" where
  "delta m = (case m of None \<Rightarrow> 0 | Some (k, v) \<Rightarrow> int (length v) - int (length k))"

fun gain :: "vars \<Rightarrow> string \<Rightarrow> int" where
  "gain vs [] = 0"
| "gain vs (c # cs) = delta (first_var vs (c # cs)) + gain vs cs"

lemma gain_no_dollar: "names_ok vs \<Longrightarrow> CHR ''$'' \<notin> set t \<Longrightarrow> gain vs (t @ u) = gain vs u"
  by (induction t) (auto simp: first_var_dollar delta_def)

lemma gain_match:
  assumes "names_ok vs" and "first_var vs s = Some (k, v)"
  shows "gain vs s = int (length v) - int (length k) + gain vs (drop (length k) s)"
proof -
  have kv: "(k, v) \<in> set vs" "pci k s" using first_var_Some[OF assms(2)] by auto
  then obtain w where w: "k = CHR ''$'' # w" "CHR ''$'' \<notin> set w"
    using assms(1) by (auto simp: names_ok_def one_dollar_def plain_def)
  then obtain c cs where s: "s = c # cs" "pci w cs" using kv(2) by (cases s) auto
  have "gain vs (take (length w) cs @ drop (length w) cs) = gain vs (drop (length w) cs)"
    using match_plain[OF s(2) w(2)] by (rule gain_no_dollar[OF assms(1)])
  then show ?thesis using assms(2) s w(1) by (simp add: delta_def)
qed

text \<open>Blanking one variable out does not change where the others match.\<close>

lemma blank_keeps_match:
  assumes "one_dollar key" and "plain w"
  shows "pci w (snd (blank_matches key s)) = pci w s"
  using assms(2)
proof (induction w arbitrary: s)
  case (Cons d w)
  show ?case
  proof (cases s)
    case s: (Cons c cs)
    show ?thesis
    proof (cases "pci key s")
      case True
      obtain u where key: "key = CHR ''$'' # u" using assms(1) by (auto simp: one_dollar_def)
      then have "c = CHR ''$''" using True s by (simp add: to_lower_special)
      moreover have "d \<noteq> CHR ''$''" "d \<noteq> CHR '' ''" using Cons.prems by (auto simp: plain_def)
      ultimately show ?thesis using True s key
        by (simp add: case_prod_beta Let_def to_lower_special lower_special)
    next
      case False
      then show ?thesis using s Cons by (simp add: case_prod_beta Let_def plain_def)
    qed
  qed simp
qed simp

lemma blank_keeps_first:
  assumes "one_dollar key" and "names_ok vs"
  shows "first_var vs (c # snd (blank_matches key cs)) = first_var vs (c # cs)"
proof (cases "c = CHR ''$''")
  case True
  have "pci k (c # snd (blank_matches key cs)) = pci k (c # cs)" if "(k, v) \<in> set vs" for k v
    using that assms(2) blank_keeps_match[OF assms(1), of _ cs] by (auto simp: names_ok_def one_dollar_def)
  then show ?thesis by (induction vs) (auto simp: first_var_def)
qed (simp add: first_var_dollar[OF assms(2)])

lemma gain_blank:
  assumes "one_dollar key" and "names_ok vs"
  shows "gain ((key, val) # vs) s =
    int (fst (blank_matches key s)) * (int (length val) - int (length key)) + gain vs (snd (blank_matches key s))"
  using assms(1)
proof (induction key s rule: blank_matches.induct)
  case (2 key c cs)
  have ok: "names_ok ((key, val) # vs)" using 2(3) assms(2) by (simp add: names_ok_def)
  have key: "key \<noteq> []" using 2(3) by (auto simp: one_dollar_def)
  show ?case
  proof (cases "pci key (c # cs)")
    case True
    have blanks: "gain vs (replicate (length key) (CHR '' '') @ r) = gain vs r" for r
      by (rule gain_no_dollar[OF assms(2)]) simp
    show ?thesis
      using 2(1)[OF conjI[OF key True] 2(3)] gain_match[OF ok, of "c # cs" key val] True key
      by (simp add: case_prod_beta Let_def blanks algebra_simps)
  next
    case False
    then show ?thesis
      using 2(2)[OF _ 2(3)] blank_keeps_first[OF 2(3) assms(2), of c cs]
      by (simp add: case_prod_beta Let_def)
  qed
qed simp

lemma extra_bytes_gain: "names_ok vs \<Longrightarrow> extra_bytes vs s = gain vs s"
proof (induction vs arbitrary: s)
  case Nil
  have "gain [] s = 0" by (induction s) (simp_all add: delta_def)
  then show ?case by simp
next
  case (Cons kv vs)
  obtain k v where kv: "kv = (k, v)" by (cases kv)
  then have "one_dollar k" "names_ok vs" using Cons.prems by (auto simp: names_ok_def)
  with Cons.IH gain_blank[of k vs v s] show ?case by (simp add: kv case_prod_beta)
qed

section \<open>The nearest match\<close>

lemma strcasestr_Some:
  "strcasestr s key = Some d \<Longrightarrow> pci key (drop d s) \<and> (\<forall>i<d. \<not> pci key (drop i s))"
proof (induction s arbitrary: d)
  case (Cons c cs)
  show ?case
  proof (cases "pci key (c # cs)")
    case False
    then obtain e where e: "d = Suc e" "strcasestr cs key = Some e" using Cons.prems by auto
    then show ?thesis using Cons.IH[OF e(2)] False by (auto simp: less_Suc_eq_0_disj)
  qed (use Cons.prems in simp)
qed (auto split: if_splits)

lemma strcasestr_None: "strcasestr s key = None \<Longrightarrow> key \<noteq> [] \<Longrightarrow> \<not> pci key (drop i s)"
proof (induction s arbitrary: i)
  case (Cons c cs)
  then show ?case by (cases i) (auto split: if_splits)
qed (cases key, auto)

lemma nearest_spec:
  assumes "nearest vs walk far cur = (d, m)" and "\<forall>(k, v) \<in> set vs. k \<noteq> []"
  shows "d \<le> far \<and> (\<forall>i<d. first_var vs (drop i walk) = None) \<and>
    (m = cur \<and> d = far \<or> (m \<noteq> None \<and> first_var vs (drop d walk) = m \<and> d < far))"
  using assms
proof (induction vs arbitrary: far cur)
  case (Cons kv vs)
  obtain k v where kv: "kv = (k, v)" by (cases kv)
  have k: "k \<noteq> []" and vs: "\<forall>(k, v) \<in> set vs. k \<noteq> []" using Cons.prems(2) kv by auto
  show ?case
  proof (cases "strcasestr walk k")
    case None
    then show ?thesis using Cons.IH[OF _ vs, of far cur] Cons.prems(1) strcasestr_None[OF None k]
      by (simp add: kv)
  next
    case (Some e)
    note e = strcasestr_Some[OF Some]
    show ?thesis
    proof (cases "e < far")
      case True
      then have "nearest vs walk e (Some (k, v)) = (d, m)" using Cons.prems(1) Some by (simp add: kv)
      from Cons.IH[OF this vs] True e show ?thesis by (auto simp: kv)
    next
      case False
      then have "nearest vs walk far cur = (d, m)" using Cons.prems(1) Some by (simp add: kv)
      from Cons.IH[OF this vs] False e show ?thesis by (auto simp: kv)
    qed
  qed
qed simp

lemma gain_skip: "\<forall>i<d. first_var vs (drop i s) = None \<Longrightarrow> gain vs s = gain vs (drop d s)"
proof (induction d arbitrary: s)
  case (Suc d)
  show ?case
  proof (cases s)
    case (Cons c cs)
    have "\<forall>i<d. first_var vs (drop i cs) = None" using Suc.prems Cons by force
    moreover have "first_var vs (c # cs) = None" using Suc.prems Cons by force
    ultimately show ?thesis using Suc.IH[of cs] Cons by (simp add: delta_def)
  qed simp
qed simp

section \<open>The buffer is filled exactly\<close>

lemma replace_variables_length:
  assumes "names_ok vs"
  shows "length s \<le> k \<Longrightarrow> length s \<le> fsize \<Longrightarrow>
    \<exists>r. replace_variables k fsize vs s = Some r \<and> int (length r) = int (length s) + gain vs s"
proof (induction k arbitrary: s)
  case (Suc k)
  have nonempty: "\<forall>(k, v) \<in> set vs. k \<noteq> []" using assms by (auto simp: names_ok_def one_dollar_def)
  show ?case
  proof (cases s)
    case (Cons c cs)
    obtain d m where dm: "nearest vs s fsize None = (d, m)" by fastforce
    note near = nearest_spec[OF dm nonempty]
    have skip: "gain vs s = gain vs (drop d s)" using near by (intro gain_skip) blast
    show ?thesis
    proof (cases m)
      case None
      then have "drop d s = []" using near Suc.prems(2) by auto
      then show ?thesis using dm None Cons skip by simp
    next
      case (Some kv)
      obtain key val where kv: "kv = (key, val)" by (cases kv)
      have first: "first_var vs (drop d s) = Some (key, val)" using near Some kv by auto
      have key: "key \<noteq> []" "pci key (drop d s)" using first_var_Some[OF first] nonempty by auto
      let ?rest = "drop (d + length key) s"
      have len: "d + length key \<le> length s" "d \<le> length s"
        using strncasecmp_eq_length[OF key(2)] key(1) by (cases key; auto)+
      then have "length ?rest \<le> k" using Suc.prems(1) key(1) by (cases key) auto
      moreover have "length ?rest \<le> fsize" using Suc.prems(2) by (simp add: le_diff_conv)
      ultimately obtain r where r: "replace_variables k fsize vs ?rest = Some r"
          "int (length r) = int (length ?rest) + gain vs ?rest"
        using Suc.IH[of ?rest] by blast
      have "gain vs s = int (length val) - int (length key) + gain vs ?rest"
        using skip gain_match[OF assms first] by (simp add: add.commute)
      moreover have "replace_variables (Suc k) fsize vs s = Some (take d s @ val @ r)"
        using dm Some kv r(1) Cons by simp
      ultimately show ?thesis using r(2) len by (simp add: of_nat_diff)
    qed
  qed simp
qed simp

lemma expand_file_fits:
  assumes "names_ok vs" and "length buf \<le> fsize"
  shows "\<exists>r. expand_file fsize vs buf = Some r \<and> bytes_written fsize buf r = new_size fsize vs buf"
  using replace_variables_length[OF assms(1), of buf "length buf" fsize] assms(2) extra_bytes_gain[OF assms(1)]
  by (auto simp: expand_file_def bytes_written_def new_size_def)

text \<open>
  With a second dollar sign in a name, occurrences can overlap: the count finds the longer name
  first, the replacement the one that comes first in the text.
\<close>

definition overlapping :: vars where
  "overlapping = upsert_variable (upsert_variable [] ''$x$abc'' ''value'') ''$abc$yy'' []"

lemma overlapping_overflow:
  "\<exists>r. expand_file 9 overlapping ''$x$abc$yy'' = Some r \<and>
     new_size 9 overlapping ''$x$abc$yy'' < bytes_written 9 ''$x$abc$yy'' r"
proof -
  have vs: "overlapping = [(''$abc$yy'', []), (''$x$abc'', ''value'')]"
    by (simp add: overlapping_def upsert_variable_def)
  show ?thesis
    unfolding vs
    by (simp add: expand_file_def new_size_def bytes_written_def to_lower_def char_code_def Let_def)
qed

end
