(* ===== verification/Windows.thy ===== *)
theory Windows
  imports Cmd_Misc
begin

text \<open>
  Properties of windows (src/window.c): what a client says about its window is stored in the window,
  and in the container that shows it.  A property is \<open>None\<close> when the reply is NULL; one of eight-bit
  values is a string, one of 32-bit values a list of words.
\<close>

type_synonym u64 = "64 word"
type_synonym atom = nat

definition c_string :: "string \<Rightarrow> string" where
  "c_string s = takeWhile (\<lambda>c. char_code c \<noteq> 0) s"

text \<open>The value of a property that is set and not empty.\<close>

definition present :: "'a list option \<Rightarrow> 'a list option" where
  "present prop = (case prop of None \<Rightarrow> None | Some v \<Rightarrow> if v = [] then None else Some v)"

section \<open>Strings\<close>

text \<open>\<open>WM_CLASS\<close> holds the instance and the class, with a NUL between them.\<close>

definition window_update_class :: "string option \<Rightarrow> window \<Rightarrow> window" where
  "window_update_class prop win =
     (case present prop of
        None \<Rightarrow> win
      | Some v \<Rightarrow>
          let i = length (c_string v) + 1
          in win\<lparr>win_instance := Some (c_string v),
                win_class := (if i < length v then Some (c_string (drop i v)) else None)\<rparr>)"

text \<open>The window is shared with its container, whose title may be shown by other programs.\<close>

definition title_changed :: "world \<Rightarrow> window \<Rightarrow> i3 \<Rightarrow> i3 option" where
  "title_changed w win s =
     (case con_by_window_id s (win_id win) of
        None \<Rightarrow> Some s
      | Some c \<Rightarrow>
          let s = upd c (\<lambda>n. n\<lparr>con_window := Some win\<rparr>) s in
          if title_format (heap s c) = None then Some s
          else map_option (\<lambda>t. emit (Ewmh_Update_Visible_Name (win_id win) (Some t)) s)
                 (con_parse_title_format w s c))"

definition share_window :: "window \<Rightarrow> i3 \<Rightarrow> i3" where
  "share_window win s =
     (case con_by_window_id s (win_id win) of
        None \<Rightarrow> s | Some c \<Rightarrow> upd c (\<lambda>n. n\<lparr>con_window := Some win\<rparr>) s)"

definition window_update_name :: "world \<Rightarrow> string option \<Rightarrow> window \<Rightarrow> i3 \<Rightarrow> (window \<times> i3) option" where
  "window_update_name w prop win s =
     (case present prop of
        None \<Rightarrow> Some (win, s)
      | Some v \<Rightarrow> do {
          s \<leftarrow> title_changed w (win\<lparr>win_name := Some (c_string v)\<rparr>) s;
          let win = win\<lparr>win_name := Some (c_string v), name_x_changed := True, uses_net_wm_name := True\<rparr>;
          Some (win, share_window win s)
        })"

definition window_update_name_legacy :: "world \<Rightarrow> string option \<Rightarrow> window \<Rightarrow> i3 \<Rightarrow> (window \<times> i3) option" where
  "window_update_name_legacy w prop win s =
     (case present prop of
        None \<Rightarrow> Some (win, s)
      | Some v \<Rightarrow>
          if uses_net_wm_name win then Some (win, s)
          else do {
            s \<leftarrow> title_changed w (win\<lparr>win_name := Some (c_string v)\<rparr>) s;
            let win = win\<lparr>win_name := Some (c_string v), name_x_changed := True\<rparr>;
            Some (win, share_window win s)
          })"

definition window_update_role :: "string option \<Rightarrow> window \<Rightarrow> window" where
  "window_update_role prop win =
     (case present prop of None \<Rightarrow> win | Some v \<Rightarrow> win\<lparr>win_role := Some (c_string v)\<rparr>)"

definition window_update_machine :: "string option \<Rightarrow> window \<Rightarrow> window" where
  "window_update_machine prop win =
     (case present prop of None \<Rightarrow> win | Some v \<Rightarrow> win\<lparr>machine := Some (c_string v)\<rparr>)"

section \<open>Other windows and the screen edges\<close>

definition window_update_leader :: "u32 list option \<Rightarrow> window \<Rightarrow> window" where
  "window_update_leader prop win =
     win\<lparr>leader := (case present prop of None \<Rightarrow> 0 | Some v \<Rightarrow> unat (hd v))\<rparr>"

text \<open>
  The inner option is what \<open>xcb_icccm_get_wm_transient_for_from_reply\<close> returns.
\<close>

definition window_update_transient_for :: "window_id option option \<Rightarrow> window \<Rightarrow> window" where
  "window_update_transient_for prop win =
     (case prop of
        None \<Rightarrow> win\<lparr>transient_for := 0\<rparr>
      | Some None \<Rightarrow> win
      | Some (Some w) \<Rightarrow> win\<lparr>transient_for := w\<rparr>)"

text \<open>A property with less than four values would be read behind its end.\<close>

definition window_update_strut_partial :: "u32 list option \<Rightarrow> window \<Rightarrow> window option" where
  "window_update_strut_partial prop win =
     (case present prop of
        None \<Rightarrow> Some win
      | Some (l # r # t # b # _) \<Rightarrow>
          Some (win\<lparr>reserved := \<lparr>res_left = l, res_right = r, res_top = t, res_bottom = b\<rparr>\<rparr>)
      | Some _ \<Rightarrow> None)"

section \<open>Sizes\<close>

text \<open>\<open>xcb_size_hints_t\<close>; each flag says whether a group of fields is set.\<close>

record size_hints =
  us_position :: bool
  us_size :: bool
  p_position :: bool
  p_size :: bool
  p_min_size :: bool
  p_max_size :: bool
  p_resize_inc :: bool
  p_aspect :: bool
  p_base_size :: bool
  hint_x :: int
  hint_y :: int
  hint_w :: int
  hint_h :: int
  hint_min_width :: int
  hint_min_height :: int
  hint_max_width :: int
  hint_max_height :: int
  width_inc :: int
  height_inc :: int
  min_aspect_num :: int
  min_aspect_den :: int
  max_aspect_num :: int
  max_aspect_den :: int
  hint_base_width :: int
  hint_base_height :: int

definition increment :: "int \<Rightarrow> int" where
  "increment v = (if 0 < v \<and> v < 65535 then v else 0)"

definition aspect_ok :: "size_hints \<Rightarrow> bool" where
  "aspect_ok h \<longleftrightarrow> p_aspect h \<and> 0 \<le> min_aspect_num h \<and> 0 < min_aspect_den h \<and>
     0 \<le> max_aspect_num h \<and> 0 < max_aspect_den h"

definition dbl_epsilon :: rat where "dbl_epsilon = 1 / 2 ^ 52"

text \<open>A ratio that differs by no more than rounding is kept.\<close>

definition new_aspect :: "rat \<Rightarrow> rat \<Rightarrow> rat" where
  "new_aspect old v = (if \<bar>old - v\<bar> > dbl_epsilon then v else old)"

definition hinted_sizes :: "size_hints \<Rightarrow> window \<Rightarrow> window" where
  "hinted_sizes h win =
     (let win = (if p_min_size h then win\<lparr>min_width := hint_min_width h, min_height := hint_min_height h\<rparr> else win);
          win = (if p_max_size h then win\<lparr>max_width := max 0 (hint_max_width h), max_height := max 0 (hint_max_height h)\<rparr>
                 else win\<lparr>max_width := 0, max_height := 0\<rparr>);
          win = (if p_resize_inc h then win\<lparr>width_increment := increment (width_inc h), height_increment := increment (height_inc h)\<rparr>
                 else win\<lparr>width_increment := 0, height_increment := 0\<rparr>);
          win = (if p_base_size h \<and> 0 \<le> base_width win \<and> 0 \<le> base_height win
                 then win\<lparr>base_width := hint_base_width h, base_height := hint_base_height h\<rparr>
                 else win\<lparr>base_width := 0, base_height := 0\<rparr>)
      in if aspect_ok h
         then win\<lparr>min_aspect_ratio := new_aspect (min_aspect_ratio win) (of_int (min_aspect_num h) / of_int (min_aspect_den h)),
                  max_aspect_ratio := new_aspect (max_aspect_ratio win) (of_int (max_aspect_num h) / of_int (max_aspect_den h))\<rparr>
         else win\<lparr>min_aspect_ratio := 0, max_aspect_ratio := 0\<rparr>)"

text \<open>The geometry of a new window is replaced when the client asks for position and size.\<close>

definition hinted_geometry :: "size_hints \<Rightarrow> int \<times> int \<times> int \<times> int \<Rightarrow> int \<times> int \<times> int \<times> int" where
  "hinted_geometry h geom =
     (if (us_position h \<or> p_position h) \<and> (us_size h \<or> p_size h) then (hint_x h, hint_y h, hint_w h, hint_h h)
      else geom)"

text \<open>The result says whether anything changed; without hints (\<open>None\<close>) nothing does.\<close>

definition window_update_normal_hints :: "size_hints option \<Rightarrow> window \<Rightarrow> bool \<times> window" where
  "window_update_normal_hints hints win =
     (case hints of None \<Rightarrow> (False, win) | Some h \<Rightarrow> (hinted_sizes h win \<noteq> win, hinted_sizes h win))"

section \<open>Focus, urgency, decoration\<close>

text \<open>\<open>xcb_icccm_wm_hints_t\<close> as far as it is used: the input hint, when set, and urgency.\<close>

record wm_hints =
  hint_input :: "bool option"
  hint_urgent :: bool

definition window_update_hints :: "wm_hints option \<Rightarrow> window \<Rightarrow> window \<times> bool" where
  "window_update_hints hints win =
     (case hints of
        None \<Rightarrow> (win, False)
      | Some h \<Rightarrow>
          (case hint_input h of None \<Rightarrow> win | Some i \<Rightarrow> win\<lparr>doesnt_accept_focus := \<not> i\<rparr>, hint_urgent h))"

definition MWM_DECOR_ALL :: nat where "MWM_DECOR_ALL = 0"
definition MWM_DECOR_BORDER :: nat where "MWM_DECOR_BORDER = 1"
definition MWM_DECOR_TITLE :: nat where "MWM_DECOR_TITLE = 3"

definition border_style_from_motif_value :: "u32 \<Rightarrow> border_style" where
  "border_style_from_motif_value v =
     (if bit v MWM_DECOR_ALL then
        if bit v MWM_DECOR_TITLE then (if bit v MWM_DECOR_BORDER then BS_NONE else BS_PIXEL) else BS_NORMAL
      else if bit v MWM_DECOR_TITLE then BS_NORMAL
      else if bit v MWM_DECOR_BORDER then BS_PIXEL
      else BS_NONE)"

text \<open>The outer option is a read behind the end of the property.\<close>

definition window_update_motif_hints :: "u32 list option \<Rightarrow> border_style option option" where
  "window_update_motif_hints prop =
     (case present prop of
        None \<Rightarrow> Some None
      | Some v \<Rightarrow>
          if \<not> bit (hd v) 1 then Some None
          else if length v < 3 then None
          else Some (Some (border_style_from_motif_value (v ! 2))))"

section \<open>Icons\<close>

text \<open>
  Each icon is its width, its height and its pixels.  The byte counts are 32-bit and 64-bit words, as
  in the code; \<open>data\<close> is the property from the icon on.
\<close>

record icon_choice =
  ic_width :: u32
  ic_height :: u32
  ic_len :: u64
  ic_data :: "u32 list"

definition better_icon :: "u32 \<Rightarrow> u32 \<Rightarrow> u32 \<Rightarrow> icon_choice option \<Rightarrow> bool" where
  "better_icon pref w h cur =
     (case cur of
        None \<Rightarrow> True
      | Some c \<Rightarrow>
          ic_len c = 0 \<or>
          (let at_least = (pref \<le> w \<and> pref \<le> h);
               smaller = (w < ic_width c \<or> h < ic_height c);
               larger = (w > ic_width c \<or> h > ic_height c);
               not_yet = (ic_width c < pref \<or> ic_height c < pref)
           in at_least \<and> (smaller \<or> not_yet) \<or> \<not> at_least \<and> not_yet \<and> larger))"

definition icon_bytes :: "u32 \<Rightarrow> u32 \<Rightarrow> u64" where
  "icon_bytes w h = (ucast w * ucast h + 2) * 4"

text \<open>\<open>k\<close> bounds the number of icons by the length of the property.\<close>

fun pick_icon :: "nat \<Rightarrow> u32 \<Rightarrow> u32 list \<Rightarrow> icon_choice option \<Rightarrow> icon_choice option" where
  "pick_icon 0 pref data cur = cur"
| "pick_icon (Suc k) pref data cur =
     (case data of
        w # h # p # ps \<Rightarrow>
          if w = 0 \<or> h = 0 then cur
          else if icon_bytes w h > of_nat (4 * length data) then cur
          else let cur = (if better_icon pref w h cur
                   then Some \<lparr>ic_width = w, ic_height = h, ic_len = ucast w * ucast h, ic_data = data\<rparr> else cur)
               in (case cur of
                     Some c \<Rightarrow>
                       if ic_width c = pref \<and> ic_height c = pref then cur
                       else pick_icon k pref (drop (unat (icon_bytes w h div 4)) data) cur
                   | None \<Rightarrow> None)
      | _ \<Rightarrow> cur)"

definition premultiply :: "u32 \<Rightarrow> u32" where
  "premultiply p =
     (let byte = (\<lambda>i. unat (drop_bit i p) mod 256); a = byte 24;
          scale = (\<lambda>i. byte i * a div 255)
      in of_nat (a * 2 ^ 24 + scale 16 * 2 ^ 16 + scale 8 * 2 ^ 8 + scale 0))"

text \<open>
  The buffer for the pixels has \<open>ic_len * 4\<close> bytes, as a 64-bit word.  Reading behind the property or
  writing behind the buffer is a failure.
\<close>

definition icon_pixels :: "icon_choice \<Rightarrow> u32 list option" where
  "icon_pixels c =
     (let n = unat (ic_len c) in
      if n + 2 \<le> length (ic_data c) \<and> 4 * n \<le> unat (ic_len c * 4)
      then Some (map premultiply (take n (drop 2 (ic_data c)))) else None)"

definition window_update_icon :: "u32 \<Rightarrow> u32 list option \<Rightarrow> window \<Rightarrow> window option" where
  "window_update_icon pref prop win =
     (case prop of
        None \<Rightarrow> Some win
      | Some v \<Rightarrow>
          (case pick_icon (length v) pref v None of
             None \<Rightarrow> Some win
           | Some c \<Rightarrow> do {
               px \<leftarrow> icon_pixels c;
               Some (win\<lparr>name_x_changed := True, win_icon := Some (ic_width c, ic_height c, px)\<rparr>)
             }))"

section \<open>Lemmas\<close>

text \<open>The sizes a window asks for are never negative maxima, and increments are below the limit.\<close>

lemma hinted_sizes_bounds:
  "0 \<le> max_width (hinted_sizes h win) \<and> 0 \<le> max_height (hinted_sizes h win) \<and>
   0 \<le> width_increment (hinted_sizes h win) \<and> width_increment (hinted_sizes h win) < 65535 \<and>
   0 \<le> height_increment (hinted_sizes h win) \<and> height_increment (hinted_sizes h win) < 65535"
  by (simp add: hinted_sizes_def Let_def increment_def)

text \<open>
  An icon whose size fits 62 bits is inside the property.
\<close>

lemma icon_bytes_exact:
  assumes "unat w * unat h + 2 < 2 ^ 62"
  shows "unat (icon_bytes w h) = 4 * (unat w * unat h + 2)"
    and "unat (ucast w * ucast h :: u64) = unat w * unat h"
proof -
  have wide: "unat (ucast x :: u64) = unat x" for x :: u32
  proof -
    have "unat x < 2 ^ 64" by (rule order.strict_trans2[OF unsigned_less]) simp
    then show ?thesis by (simp add: unsigned_ucast_eq take_bit_nat_eq_self)
  qed
  have *: "unat (ucast w * ucast h :: u64) = unat w * unat h"
    using assms by (simp add: unat_word_ariths wide)
  then show "unat (ucast w * ucast h :: u64) = unat w * unat h" .
  have "unat (icon_bytes w h) = (unat w * unat h + 2) * 4 mod 2 ^ 64"
    using assms by (simp add: icon_bytes_def unat_word_ariths * [simplified unat_word_ariths]) (simp add: wide mod_simps add.commute)
  moreover obtain x where "unat w * unat h = x" by simp
  ultimately show "unat (icon_bytes w h) = 4 * (unat w * unat h + 2)" using assms by simp
qed

definition icon_inside :: "icon_choice \<Rightarrow> bool" where
  "icon_inside c \<longleftrightarrow> ic_len c = ucast (ic_width c) * ucast (ic_height c) \<and>
     icon_bytes (ic_width c) (ic_height c) \<le> of_nat (4 * length (ic_data c)) \<and> 4 * length (ic_data c) < 2 ^ 32"

lemma pick_icon_inside:
  "pick_icon k pref data cur = Some c \<Longrightarrow> 4 * length data < 2 ^ 32 \<Longrightarrow> (\<And>d. cur = Some d \<Longrightarrow> icon_inside d) \<Longrightarrow>
    icon_inside c"
proof (induction k pref data cur rule: pick_icon.induct)
  case (2 k pref data cur)
  show ?case
  proof (cases "\<exists>w h p ps. data = w # h # p # ps")
    case True
    then obtain w h p ps where 3: "data = w # h # p # ps" by blast
    let ?new = "if better_icon pref w h cur
      then Some \<lparr>ic_width = w, ic_height = h, ic_len = ucast w * ucast h, ic_data = data\<rparr> else cur"
    show ?thesis
    proof (cases "w = 0 \<or> h = 0 \<or> icon_bytes w h > of_nat (4 * length data)")
      case True
      then show ?thesis using 2(2-4) 3 by (auto split: if_splits)
    next
      case False
      have new: "\<And>d. ?new = Some d \<Longrightarrow> icon_inside d"
        using False 2(3,4) by (auto simp: icon_inside_def not_less split: if_splits)
      have "?new \<noteq> None" by (cases cur) (simp_all add: better_icon_def split: if_splits)
      then obtain d where d: "?new = Some d" by blast
      show ?thesis
      proof (cases "ic_width d = pref \<and> ic_height d = pref")
        case True
        then have "c = d" using 2(2) 3 False by (simp add: Let_def d[unfolded 3])
        then show ?thesis using new[OF d] by simp
      next
        case rest: False
        let ?rest = "drop (unat (icon_bytes w h div 4)) data"
        have "pick_icon k pref ?rest (Some d) = Some c"
          using 2(2) 3 False rest by (simp add: Let_def d[unfolded 3] split: if_splits)
        then have "pick_icon k pref ?rest ?new = Some c" unfolding d .
        moreover have "4 * length ?rest < 2 ^ 32" using 2(3) by simp
        ultimately show ?thesis
          using 2(1)[OF 3 refl refl _ _ refl d rest] False new by blast
      qed
    qed
  next
    case False
    then show ?thesis using 2(2-4) by (auto split: list.splits)
  qed
qed auto

lemma icon_pixels_small:
  assumes "icon_inside c" and "unat (ic_width c) * unat (ic_height c) + 2 < 2 ^ 62"
  shows "\<exists>px. icon_pixels c = Some px \<and> length px = unat (ic_width c) * unat (ic_height c)"
proof -
  let ?n = "unat (ic_width c) * unat (ic_height c)"
  note exact = icon_bytes_exact[OF assms(2)]
  have c: "ic_len c = ucast (ic_width c) * ucast (ic_height c)" "4 * length (ic_data c) < 2 ^ 32"
    "icon_bytes (ic_width c) (ic_height c) \<le> of_nat (4 * length (ic_data c))"
    using assms(1) by (simp_all add: icon_inside_def)
  have len: "unat (ic_len c) = ?n" using exact(2) c(1) by simp
  have "unat (icon_bytes (ic_width c) (ic_height c)) \<le> 4 * length (ic_data c)"
  proof -
    have "unat (of_nat (4 * length (ic_data c)) :: u64) = 4 * length (ic_data c)"
      using c(2) unfolding unat_of_nat by simp
    then show ?thesis using c(3) unfolding word_le_nat_alt by simp
  qed
  then have "?n + 2 \<le> length (ic_data c)" using exact(1) by simp
  moreover have "4 * ?n \<le> unat (ic_len c * 4)"
    using assms(2) by (simp add: unat_word_ariths len mult.commute)
  ultimately show ?thesis by (simp add: icon_pixels_def len)
qed

text \<open>
  The byte count of a larger icon wraps around: an icon of 2^31 times 2^31 pixels passes the test on
  the length, and its pixels are read and written far outside of all buffers.
\<close>

lemma huge_icon_crashes:
  assumes "pref \<noteq> 2 ^ 31"
  shows "window_update_icon pref (Some [2 ^ 31, 2 ^ 31, 0]) win = None"
proof -
  have "icon_bytes (2 ^ 31) (2 ^ 31) = 8" by (simp add: icon_bytes_def)
  then have "pick_icon (Suc (Suc (Suc 0))) pref [2 ^ 31, 2 ^ 31, 0] None =
      Some \<lparr>ic_width = 2 ^ 31, ic_height = 2 ^ 31, ic_len = 2 ^ 62, ic_data = [2 ^ 31, 2 ^ 31, 0]\<rparr>"
    using assms by (simp add: better_icon_def Let_def)
  then show ?thesis by (simp add: window_update_icon_def icon_pixels_def)
qed

end
