(* ===== verification/Ewmh.thy ===== *)
theory Ewmh
  imports Cmd_State Workspace_Names
begin

text \<open>
  The workspaces as other programs see them (src/ewmh.c): the desktops of the EWMH standard are the
  workspaces that are not internal, output by output.  What the functions put into properties of the
  root window are values here; the requests for the windows are effects.  The index of a workspace
  and the workspace of an index are inverse to each other.
\<close>

definition NET_WM_DESKTOP_NONE :: u32 where "NET_WM_DESKTOP_NONE = 0xFFFFFFF0"
definition NET_WM_DESKTOP_ALL :: u32 where "NET_WM_DESKTOP_ALL = 0xFFFFFFFF"

text \<open>\<open>FOREACH_NONINTERNAL\<close>, on one output and on all; every output has a content container.\<close>

definition noninternal_on :: "i3 \<Rightarrow> con_id \<Rightarrow> con_id list option" where
  "noninternal_on s out = do {
     wss \<leftarrow> content_nodes s out;
     filter_opt (\<lambda>c. map_option Not (con_is_internal s c)) wss
   }"

definition noninternal :: "i3 \<Rightarrow> con_id list option" where
  "noninternal s = map_option concat (map_opt (noninternal_on s) (nodes_head (heap s (croot s))))"

section \<open>Properties of the root window\<close>

definition net_number_of_desktops :: "i3 \<Rightarrow> nat option" where
  "net_number_of_desktops s = map_option length (noninternal s)"

definition net_desktop_names :: "i3 \<Rightarrow> string option" where
  "net_desktop_names s = do {
     wss \<leftarrow> noninternal s;
     names \<leftarrow> map_opt (\<lambda>c. con_name (heap s c)) wss;
     Some (concat (map (\<lambda>n. n @ [CHR 0x00]) names))
   }"

definition net_desktop_viewport :: "i3 \<Rightarrow> u32 list option" where
  "net_desktop_viewport s =
     map_option concat (map_opt (\<lambda>out. map_option (\<lambda>wss.
         concat (map (\<lambda>ws. [rx (con_rect (heap s out)), ry (con_rect (heap s out))]) wss))
       (noninternal_on s out)) (nodes_head (heap s (croot s))))"

fun index_of :: "'a \<Rightarrow> 'a list \<Rightarrow> nat option" where
  "index_of x [] = None"
| "index_of x (y # ys) = (if y = x then Some 0 else map_option Suc (index_of x ys))"

definition ewmh_get_workspace_by_index :: "i3 \<Rightarrow> u32 \<Rightarrow> con_id option option" where
  "ewmh_get_workspace_by_index s idx =
     (if idx = NET_WM_DESKTOP_NONE then Some None
      else map_option (\<lambda>wss. if unat idx < length wss then Some (wss ! unat idx) else None) (noninternal s))"

definition ewmh_get_workspace_index :: "i3 \<Rightarrow> con_id \<Rightarrow> u32 option" where
  "ewmh_get_workspace_index s c = do {
     target \<leftarrow> con_get_workspace s c;
     wss \<leftarrow> noninternal s;
     Some (case target of
         None \<Rightarrow> NET_WM_DESKTOP_NONE
       | Some ws \<Rightarrow> (case index_of ws wss of Some i \<Rightarrow> of_nat i | None \<Rightarrow> NET_WM_DESKTOP_NONE))
   }"

text \<open>The property is only changed when the index is another one than the last.\<close>

definition ewmh_update_current_desktop :: "u32 \<Rightarrow> i3 \<Rightarrow> (u32 \<times> u32 option) option" where
  "ewmh_update_current_desktop old_idx s = do {
     f \<leftarrow> focused s;
     idx \<leftarrow> ewmh_get_workspace_index s f;
     Some (if idx = old_idx \<or> idx = NET_WM_DESKTOP_NONE then (old_idx, None) else (idx, Some idx))
   }"

section \<open>The desktops of the windows\<close>

definition wm_desktop_of :: "i3 \<Rightarrow> con_id \<Rightarrow> u32 \<Rightarrow> u32 option" where
  "wm_desktop_of s c desktop = do {
     stick \<leftarrow> con_is_sticky s c;
     ws \<leftarrow> con_get_workspace s c;
     internal \<leftarrow> (case ws of None \<Rightarrow> Some False | Some ws \<Rightarrow> con_is_internal s ws);
     Some (if internal \<or> stick \<and> con_is_floating s c then NET_WM_DESKTOP_ALL else desktop)
   }"

definition set_wm_desktop :: "con_id \<Rightarrow> u32 \<Rightarrow> i3 \<Rightarrow> i3 option" where
  "set_wm_desktop c desktop s = do {
     managed \<leftarrow> con_has_managed_window s (Some c);
     if \<not> managed then Some s
     else do {
       d \<leftarrow> wm_desktop_of s c desktop;
       win \<leftarrow> con_window (heap s c);
       Some (if wm_desktop win = d then s
         else emit (X_Set_Wm_Desktop (win_id win) (if d = NET_WM_DESKTOP_NONE then None else Some d))
           (upd c (\<lambda>n. n\<lparr>con_window := Some (win\<lparr>wm_desktop := d\<rparr>)\<rparr>) s))
     }
   }"

fun ewmh_update_wm_desktop_recursively :: "nat \<Rightarrow> u32 \<Rightarrow> con_id \<Rightarrow> i3 \<Rightarrow> i3 option" where
  "ewmh_update_wm_desktop_recursively 0 desktop c s = None"
| "ewmh_update_wm_desktop_recursively (Suc k) desktop c s = do {
     s \<leftarrow> fold_opt (ewmh_update_wm_desktop_recursively k desktop) (nodes_head (heap s c)) s;
     s \<leftarrow> (if con_type (heap s c) = CT_WORKSPACE
         then fold_opt (ewmh_update_wm_desktop_recursively k desktop) (floating_head (heap s c)) s else Some s);
     set_wm_desktop c desktop s
   }"

definition update_wm_desktop_ws :: "con_id \<Rightarrow> u32 \<times> i3 \<Rightarrow> (u32 \<times> i3) option" where
  "update_wm_desktop_ws ws = (\<lambda>(desktop, s). do {
     s \<leftarrow> ewmh_update_wm_desktop_recursively (up_fuel s) desktop ws s;
     internal \<leftarrow> con_is_internal s ws;
     Some (if internal then desktop else desktop + 1, s)
   })"

definition ewmh_update_wm_desktop :: "i3 \<Rightarrow> i3 option" where
  "ewmh_update_wm_desktop s =
     map_option snd (fold_opt (\<lambda>out (desktop, s). do {
         wss \<leftarrow> content_nodes s out;
         fold_opt update_wm_desktop_ws wss (desktop, s)
       }) (nodes_head (heap s (croot s))) (0, s))"

section \<open>Indices and workspaces\<close>

lemma index_of_Some: "index_of x xs = Some i \<Longrightarrow> i < length xs \<and> xs ! i = x"
  by (induction xs arbitrary: i) (auto split: if_splits)

lemma index_of_mem: "x \<in> set xs \<Longrightarrow> \<exists>i. index_of x xs = Some i"
  by (induction xs) auto

lemma index_of_nth: "distinct xs \<Longrightarrow> i < length xs \<Longrightarrow> index_of (xs ! i) xs = Some i"
proof (induction xs arbitrary: i)
  case (Cons x xs)
  then show ?case by (cases i) auto
qed simp

lemma distinct_concat_by:
  assumes "list_all2 (\<lambda>y xs. distinct xs \<and> (\<forall>x \<in> set xs. f x = y)) ys xss" and "distinct ys"
  shows "distinct (concat xss)"
  using assms
proof (induction rule: list_all2_induct)
  case (Cons y ys xs xss)
  have "f x \<in> set ys" if "x \<in> set (concat xss)" for x
    using Cons.hyps(2) that by (induction rule: list_all2_induct) auto
  then have "set xs \<inter> set (concat xss) = {}" using Cons.hyps(1) Cons.prems by force
  then show ?case using Cons by simp
qed simp

lemma map_opt_list_all2: "map_opt f xs = Some ys \<longleftrightarrow> list_all2 (\<lambda>x y. f x = Some y) xs ys"
proof (induction xs arbitrary: ys)
  case (Cons x xs)
  then show ?case by (cases ys) (auto simp: bind_eq_Some)
qed auto

lemma noninternal_on_nodes:
  assumes "wf_tree D s" and "out \<in> live s" and "noninternal_on s out = Some wss"
  shows "distinct wss" and "c \<in> set wss \<Longrightarrow> \<exists>ct. parent (heap s c) = Some ct \<and> parent (heap s ct) = Some out"
proof -
  obtain ct ns where ct: "output_get_content s out = Some ct" "ns = nodes_head (heap s ct)"
      "filter_opt (\<lambda>c. map_option Not (con_is_internal s c)) ns = Some wss"
    using assms(3) by (auto simp: noninternal_on_def content_nodes_def bind_eq_Some)
  have "ct \<in> children s out"
    using ct(1) by (auto simp: output_get_content_def children_def dest: find_SomeD)
  then have ctl: "ct \<in> live s" "parent (heap s ct) = Some out"
    using wf_conD(5,6)[OF wf_treeD(7)[OF assms(1,2)]] by auto
  note wfc = wf_treeD(7)[OF assms(1) ctl(1)]
  have wss: "wss = filter (\<lambda>c. map_option Not (con_is_internal s c) = Some True) ns"
    using filter_opt_eq[OF ct(3)] .
  show "distinct wss" using wf_conD(1)[OF wfc] by (simp add: wss ct(2))
  show "\<exists>ct. parent (heap s c) = Some ct \<and> parent (heap s ct) = Some out" if "c \<in> set wss"
    using that wf_conD(6)[OF wfc, of c] ctl(2) by (auto simp: wss ct(2) children_def)
qed

lemma noninternal_distinct:
  assumes "wf_tree D s" and "noninternal s = Some wss"
  shows "distinct wss"
proof -
  let ?outs = "nodes_head (heap s (croot s))"
  obtain xss where xss: "map_opt (noninternal_on s) ?outs = Some xss" "wss = concat xss"
    using assms(2) by (auto simp: noninternal_def)
  note wfr = wf_treeD(7)[OF assms(1) wf_treeD(2)[OF assms(1)]]
  have outs: "out \<in> live s" if "out \<in> set ?outs" for out
    using that wf_conD(5)[OF wfr, of out] by (simp add: children_def)
  let ?f = "\<lambda>c. the (parent (heap s (the (parent (heap s c)))))"
  have "list_all2 (\<lambda>out xs. noninternal_on s out = Some xs) ?outs xss"
    using xss(1) by (simp add: map_opt_list_all2)
  then have "list_all2 (\<lambda>out xs. distinct xs \<and> (\<forall>x \<in> set xs. ?f x = out)) ?outs xss"
  proof (rule list.rel_mono_strong)
    fix out xs
    assume "out \<in> set ?outs" "noninternal_on s out = Some xs"
    note on = noninternal_on_nodes[OF assms(1) outs[OF this(1)] this(2)]
    have "?f x = out" if "x \<in> set xs" for x using on(2)[OF that] by auto
    then show "distinct xs \<and> (\<forall>x \<in> set xs. ?f x = out)" using on(1) by blast
  qed
  from distinct_concat_by[OF this wf_conD(1)[OF wfr]] show ?thesis by (simp add: xss(2))
qed

lemma index_of_by_index:
  assumes "wf_tree D s" and "noninternal s = Some wss" and "length wss \<le> unat NET_WM_DESKTOP_NONE"
    and "con_get_workspace s c = Some (Some ws)" and "ws \<in> set wss"
  shows "\<exists>i. ewmh_get_workspace_index s c = Some i \<and> ewmh_get_workspace_by_index s i = Some (Some ws)"
proof -
  obtain i where i: "index_of ws wss = Some i" using index_of_mem[OF assms(5)] by blast
  then have "i < length wss" "wss ! i = ws" using index_of_Some[OF i] by auto
  moreover have u: "unat (of_nat i :: u32) = i"
    using \<open>i < length wss\<close> assms(3) by (simp add: NET_WM_DESKTOP_NONE_def unat_of_nat)
  moreover have "of_nat i \<noteq> NET_WM_DESKTOP_NONE"
    using u \<open>i < length wss\<close> assms(3) by (metis leD)
  ultimately show ?thesis
    using assms(2,4) i by (simp add: ewmh_get_workspace_index_def ewmh_get_workspace_by_index_def)
qed

lemma by_index_index_of:
  assumes "wf_tree D s" and "noninternal s = Some wss" and "length wss \<le> unat NET_WM_DESKTOP_NONE"
    and "ewmh_get_workspace_by_index s i = Some (Some ws)" and "con_get_workspace s c = Some (Some ws)"
  shows "ewmh_get_workspace_index s c = Some i"
proof -
  have i: "unat i < length wss" "ws = wss ! unat i" "i \<noteq> NET_WM_DESKTOP_NONE"
    using assms(2,4) by (auto simp: ewmh_get_workspace_by_index_def split: if_splits)
  have "index_of ws wss = Some (unat i)"
    using index_of_nth[OF noninternal_distinct[OF assms(1,2)] i(1)] i(2) by simp
  then show ?thesis using assms(2,5) by (simp add: ewmh_get_workspace_index_def)
qed

end
