(* ===== verification/Startup.thy ===== *)
theory Startup
  imports Cmd_State
begin

text \<open>
  Startup notification (src/startup.c): which workspace an application was started on.  The list of
  sequences is the state; the identifier of a launch and whether a sequence has been completed come
  from libstartup-notification, the time from the system, and the startup identifiers of windows from
  the X server.  A completed sequence is kept for another thirty seconds.
\<close>

record startup_sequence =
  seq_id :: string
  seq_workspace :: string
  delete_at :: nat

datatype cursor = CURSOR_POINTER | CURSOR_WATCH

definition find_sequence :: "string \<Rightarrow> startup_sequence list \<Rightarrow> startup_sequence option" where
  "find_sequence i seqs = List.find (\<lambda>q. seq_id q = i) seqs"

section \<open>Operations\<close>

text \<open>\<open>TAILQ_REMOVE\<close>: the element found first is the first of its value.\<close>

definition startup_sequence_delete :: "startup_sequence \<Rightarrow> startup_sequence list \<Rightarrow> startup_sequence list" where
  "startup_sequence_delete q seqs = remove1 q seqs"

fun prune_startup_sequences :: "nat \<Rightarrow> startup_sequence list \<Rightarrow> nat \<times> startup_sequence list" where
  "prune_startup_sequences now [] = (0, [])"
| "prune_startup_sequences now (q # qs) =
     (let (n, rest) = prune_startup_sequences now qs in
      if delete_at q = 0 then (Suc n, q # rest)
      else if now \<le> delete_at q then (n, q # rest)
      else (n, rest))"

text \<open>The sequence whose context is completed; its completion is reported by \<open>startup_monitor_event\<close>.\<close>

definition startup_timeout :: "string \<Rightarrow> startup_sequence list \<Rightarrow> string option" where
  "startup_timeout i seqs = map_option seq_id (find_sequence i seqs)"

text \<open>
  The word sent as the name of the program is the command up to its first space.  The result is the
  list of sequences, the name and the cursor of the root window.
\<close>

definition first_word :: "string \<Rightarrow> string" where
  "first_word command = takeWhile (\<lambda>c. c \<noteq> CHR '' '') command"

definition start_application ::
  "string \<Rightarrow> string \<Rightarrow> bool \<Rightarrow> i3 \<Rightarrow> startup_sequence list \<Rightarrow> (startup_sequence list \<times> (string \<times> cursor) option) option" where
  "start_application new_id command no_startup_id s seqs =
     (if no_startup_id then Some (seqs, None)
      else do {
        f \<leftarrow> focused s;
        ws \<leftarrow> con_get_workspace s f;
        ws \<leftarrow> ws;
        name \<leftarrow> con_name (heap s ws);
        Some (seqs @ [\<lparr>seq_id = new_id, seq_workspace = name, delete_at = 0\<rparr>],
          Some (first_word command, CURSOR_WATCH))
      })"

fun mark_completed :: "nat \<Rightarrow> string \<Rightarrow> startup_sequence list \<Rightarrow> startup_sequence list" where
  "mark_completed now i [] = []"
| "mark_completed now i (q # qs) =
     (if seq_id q = i then q\<lparr>delete_at := now + 30\<rparr> # qs else q # mark_completed now i qs)"

definition startup_monitor_event ::
  "nat \<Rightarrow> string \<Rightarrow> bool \<Rightarrow> startup_sequence list \<Rightarrow> startup_sequence list \<times> cursor option" where
  "startup_monitor_event now i completed seqs =
     (if find_sequence i seqs = None \<or> \<not> completed then (seqs, None)
      else let (n, seqs) = prune_startup_sequences now (mark_completed now i seqs)
           in (seqs, if n = 0 then Some CURSOR_POINTER else None))"

definition startup_sequence_rename_workspace ::
  "string \<Rightarrow> string \<Rightarrow> startup_sequence list \<Rightarrow> startup_sequence list" where
  "startup_sequence_rename_workspace old_name new_name seqs =
     map (\<lambda>q. if seq_workspace q = old_name then q\<lparr>seq_workspace := new_name\<rparr> else q) seqs"

text \<open>
  \<open>prop\<close> is the startup identifier of the window, \<open>leader_prop\<close> that of its leader; an empty one
  counts as none.
\<close>

definition startup_sequence_get ::
  "i3 \<Rightarrow> window \<Rightarrow> cstr \<Rightarrow> cstr \<Rightarrow> bool \<Rightarrow> startup_sequence list \<Rightarrow> startup_sequence option" where
  "startup_sequence_get s win prop leader_prop ignore_mapped_leader seqs =
     (if prop = None \<or> prop = Some [] then
        if leader win = 0 then None
        else if ignore_mapped_leader \<and> con_by_window_id s (leader win) \<noteq> None then None
        else if leader_prop = None \<or> leader_prop = Some [] then None
        else find_sequence (the leader_prop) seqs
      else find_sequence (the prop) seqs)"

definition startup_workspace_for_window ::
  "nat \<Rightarrow> i3 \<Rightarrow> window \<Rightarrow> cstr \<Rightarrow> cstr \<Rightarrow> startup_sequence list \<Rightarrow> cstr \<times> startup_sequence list" where
  "startup_workspace_for_window now s win prop leader_prop seqs =
     (case startup_sequence_get s win prop leader_prop False seqs of
        None \<Rightarrow> (None, seqs)
      | Some q \<Rightarrow>
          if delete_at q > 0 \<and> now > delete_at q then (None, startup_sequence_delete q seqs)
          else (Some (seq_workspace q), seqs))"

definition startup_sequence_delete_by_window ::
  "i3 \<Rightarrow> window \<Rightarrow> cstr \<Rightarrow> cstr \<Rightarrow> startup_sequence list \<Rightarrow> startup_sequence list" where
  "startup_sequence_delete_by_window s win prop leader_prop seqs =
     (case startup_sequence_get s win prop leader_prop True seqs of
        None \<Rightarrow> seqs | Some q \<Rightarrow> startup_sequence_delete q seqs)"

section \<open>The list of sequences\<close>

text \<open>
  Launch identifiers are unique.  Pruning removes exactly the sequences whose time is over, and
  counts those that have not been completed.
\<close>

definition sequences_ok :: "startup_sequence list \<Rightarrow> bool" where
  "sequences_ok seqs \<longleftrightarrow> distinct (map seq_id seqs)"

definition expired :: "nat \<Rightarrow> startup_sequence \<Rightarrow> bool" where
  "expired now q \<longleftrightarrow> 0 < delete_at q \<and> delete_at q < now"

lemma prune_startup_sequences_spec:
  "prune_startup_sequences now seqs =
    (length (filter (\<lambda>q. delete_at q = 0) seqs), filter (\<lambda>q. \<not> expired now q) seqs)"
  by (induction seqs) (auto simp: expired_def)

lemma find_sequence_Some: "find_sequence i seqs = Some q \<Longrightarrow> q \<in> set seqs \<and> seq_id q = i"
  unfolding find_sequence_def by (drule find_SomeD) simp

lemma find_sequence_None: "find_sequence i seqs = None \<longleftrightarrow> i \<notin> seq_id ` set seqs"
  unfolding find_sequence_def by (auto simp: find_None_iff)

lemma find_sequence_simps [simp]:
  "find_sequence i [] = None"
  "find_sequence i (q # qs) = (if seq_id q = i then Some q else find_sequence i qs)"
  by (simp_all add: find_sequence_def)

lemma find_sequence_append:
  "find_sequence i (ps @ qs) = (case find_sequence i ps of None \<Rightarrow> find_sequence i qs | r \<Rightarrow> r)"
  by (induction ps) simp_all

lemma find_sequence_distinct:
  "sequences_ok seqs \<Longrightarrow> q \<in> set seqs \<Longrightarrow> find_sequence (seq_id q) seqs = Some q"
  by (induction seqs) (auto simp: sequences_ok_def)

lemma find_mark_completed:
  "find_sequence j (mark_completed now i seqs) =
    map_option (\<lambda>q. if j = i then q\<lparr>delete_at := now + 30\<rparr> else q) (find_sequence j seqs)"
  by (induction seqs) (auto simp: option.map_ident)

lemma find_prune:
  assumes "sequences_ok seqs"
  shows "find_sequence i (snd (prune_startup_sequences now seqs)) =
    (case find_sequence i seqs of None \<Rightarrow> None | Some q \<Rightarrow> if expired now q then None else Some q)"
  using assms unfolding prune_startup_sequences_spec
proof (induction seqs)
  case (Cons q seqs)
  then have "find_sequence (seq_id q) seqs = None" "sequences_ok seqs"
    by (auto simp: find_sequence_None sequences_ok_def)
  moreover have "find_sequence i (filter P seqs) = None" if "find_sequence i seqs = None" for P
    using that by (auto simp: find_sequence_None)
  ultimately show ?case using Cons.IH by auto
qed simp

lemma map_id_mark_completed: "map seq_id (mark_completed now i seqs) = map seq_id seqs"
  by (induction seqs) auto

lemma distinct_filter_map: "distinct (map f xs) \<Longrightarrow> distinct (map f (filter P xs))"
  by (induction xs) auto

lemma sequences_ok_mark: "sequences_ok seqs \<Longrightarrow> sequences_ok (mark_completed now i seqs)"
  by (simp add: sequences_ok_def map_id_mark_completed)

lemma sequences_ok_steps:
  assumes "sequences_ok seqs"
  shows "sequences_ok (fst (startup_monitor_event now i completed seqs))"
    and "sequences_ok (startup_sequence_rename_workspace old_name new_name seqs)"
    and "sequences_ok (startup_sequence_delete q seqs)"
    and "sequences_ok (snd (startup_workspace_for_window now s win prop leader_prop seqs))"
    and "start_application j command no_id s seqs = Some (seqs', r) \<Longrightarrow> j \<notin> seq_id ` set seqs \<Longrightarrow>
      sequences_ok seqs'"
proof -
  have del: "sequences_ok (startup_sequence_delete q seqs)" for q
    using assms
  proof (induction seqs)
    case (Cons p seqs)
    then show ?case
      by (auto simp: startup_sequence_delete_def sequences_ok_def dest: subsetD[OF set_remove1_subset])
  qed (simp add: sequences_ok_def startup_sequence_delete_def)
  show "sequences_ok (fst (startup_monitor_event now i completed seqs))"
    using assms sequences_ok_mark[OF assms, of now i]
    by (auto simp: startup_monitor_event_def prune_startup_sequences_spec Let_def sequences_ok_def
        distinct_filter_map)
  have "map seq_id (startup_sequence_rename_workspace old_name new_name seqs) = map seq_id seqs"
    by (auto simp: startup_sequence_rename_workspace_def)
  then show "sequences_ok (startup_sequence_rename_workspace old_name new_name seqs)"
    using assms by (simp add: sequences_ok_def)
  show "sequences_ok (startup_sequence_delete q seqs)" by (rule del)
  show "sequences_ok (snd (startup_workspace_for_window now s win prop leader_prop seqs))"
    using assms del by (auto simp: startup_workspace_for_window_def split: option.split)
  show "sequences_ok seqs'"
    if "start_application j command no_id s seqs = Some (seqs', r)" "j \<notin> seq_id ` set seqs"
    using that assms by (auto simp: start_application_def sequences_ok_def bind_eq_Some split: if_splits)
qed

text \<open>
  What a window with the identifier of a launch gets: the workspace until thirty seconds after the
  completion, nothing later.
\<close>

lemma workspace_after_completion:
  assumes "sequences_ok seqs" and "find_sequence i seqs = Some q" and "i \<noteq> []"
  shows "fst (startup_workspace_for_window t s win (Some i) leader_prop
      (fst (startup_monitor_event now i True seqs))) =
    (if t \<le> now + 30 then Some (seq_workspace q) else None)"
proof -
  have id: "seq_id q = i" using find_sequence_Some[OF assms(2)] by simp
  have "find_sequence i (fst (startup_monitor_event now i True seqs)) = Some (q\<lparr>delete_at := now + 30\<rparr>)"
    using find_prune[OF sequences_ok_mark[OF assms(1)], of i now now i] assms(2) id
    by (simp add: startup_monitor_event_def case_prod_beta find_mark_completed expired_def)
  then show ?thesis
    using assms(3) by (simp add: startup_workspace_for_window_def startup_sequence_get_def)
qed

lemma workspace_after_start:
  assumes "start_application i command False s seqs = Some (seqs', r)" and "i \<notin> seq_id ` set seqs"
    and "i \<noteq> []"
  shows "\<exists>f ws. focused s = Some f \<and> con_get_workspace s f = Some (Some ws) \<and>
    startup_workspace_for_window t s' win (Some i) leader_prop seqs' = (con_name (heap s ws), seqs')"
proof -
  have "find_sequence i seqs = None" using assms(2) by (simp add: find_sequence_None)
  then show ?thesis
    using assms(1,3)
    by (auto simp: start_application_def bind_eq_Some startup_workspace_for_window_def startup_sequence_get_def
        find_sequence_append)
qed

end
