(* ===== verification/Assignments.thy ===== *)
theory Assignments
  imports Command_Run Startup Workspace_Names
begin

text \<open>
  Assignments (src/assignments.c): what the configuration wants done with windows that match a
  criterion.  The state of the window manager around the tree is the record \<open>manager\<close>: the parser,
  whose commands hold the tree, the assignments, the startup sequences and the placeholder windows
  of restored layouts.  A window remembers the assignments that ran for it by their index.
\<close>

datatype (plugins only: ) assign_dest =
    A_COMMAND string
  | A_TO_WORKSPACE string
  | A_NO_FOCUS
  | A_TO_WORKSPACE_NUMBER string
  | A_TO_OUTPUT string

record assignment =
  a_match :: match
  a_dest :: assign_dest

record manager =
  mparser :: cmd_parser
  assignments :: "assignment list"
  sequences :: "startup_sequence list"
  placeholders :: "window_id list"

definition tree_of :: "manager \<Rightarrow> i3" where
  "tree_of m = wm (p_cmd (mparser m))"

definition with_tree :: "i3 \<Rightarrow> manager \<Rightarrow> manager" where
  "with_tree s m = m\<lparr>mparser := (mparser m)\<lparr>p_cmd := (p_cmd (mparser m))\<lparr>wm := s\<rparr>\<rparr>\<rparr>"

definition on_tree :: "(i3 \<Rightarrow> i3 option) \<Rightarrow> manager \<Rightarrow> manager option" where
  "on_tree f m = map_option (\<lambda>s. with_tree s m) (f (tree_of m))"

lemma tree_of_with_tree [simp]: "tree_of (with_tree s m) = s"
  by (simp add: tree_of_def with_tree_def)

lemma with_tree_sel [simp]:
  "assignments (with_tree s m) = assignments m" "sequences (with_tree s m) = sequences m"
  "placeholders (with_tree s m) = placeholders m" "with_tree (tree_of m) m = m"
  by (simp_all add: with_tree_def tree_of_def)

text \<open>A window is one object, which all that refer to it share.\<close>

definition upd_window :: "window_id \<Rightarrow> (window \<Rightarrow> window) \<Rightarrow> i3 \<Rightarrow> i3" where
  "upd_window i f s =
     (case con_by_window_id s i of
        None \<Rightarrow> s
      | Some c \<Rightarrow> upd c (\<lambda>n. n\<lparr>con_window := map_option f (con_window n)\<rparr>) s)"

definition the_window :: "window_id \<Rightarrow> i3 \<Rightarrow> window option" where
  "the_window i s = do { c \<leftarrow> con_by_window_id s i; con_window (heap s c) }"

section \<open>Looking up an assignment\<close>

fun assignment_for :: "world \<Rightarrow> (assign_dest \<Rightarrow> bool) \<Rightarrow> assignment list \<Rightarrow> i3 \<Rightarrow> window \<Rightarrow> assignment option option" where
  "assignment_for w kind [] s win = Some None"
| "assignment_for w kind (a # as) s win =
     (if \<not> kind (a_dest a) then assignment_for w kind as s win
      else do {
        b \<leftarrow> match_matches_window (pattern_matches w) s (a_match a) win;
        if b then Some (Some a) else assignment_for w kind as s win
      })"

section \<open>Running commands for a window\<close>

definition print_int :: "int \<Rightarrow> string" where
  "print_int n = (if n < 0 then ''-'' else []) @ digits (nat \<bar>n\<bar>)"

text \<open>The identifier is printed as a signed integer.\<close>

definition full_command :: "window_id \<Rightarrow> string \<Rightarrow> string" where
  "full_command i command =
     ''[id='' @ [dquote] @ print_int (sint (of_nat i :: u32)) @ [dquote] @ ''] '' @ command"

definition run_assignment :: "world \<Rightarrow> calls \<Rightarrow> window_id \<Rightarrow> nat \<times> assignment \<Rightarrow> bool \<times> cmd_parser \<Rightarrow> (bool \<times> cmd_parser) option" where
  "run_assignment w others i = (\<lambda>(k, a) (rend, p).
     case a_dest a of
       A_COMMAND command \<Rightarrow> do {
         let s = wm (p_cmd p);
         win \<leftarrow> the_window i s;
         b \<leftarrow> match_matches_window (pattern_matches w) s (a_match a) win;
         if \<not> b \<or> k \<in> set (ran_assignments win) then Some (rend, p)
         else do {
           let s = upd_window i (\<lambda>v. v\<lparr>ran_assignments := ran_assignments v @ [k]\<rparr>) s;
           (r, p) \<leftarrow> parse_command (dispatch w others) command_tokens (full_command i command)
             (p\<lparr>p_cmd := (p_cmd p)\<lparr>wm := s\<rparr>\<rparr>);
           Some (rend \<or> result_needs_tree_render r, p)
         }
       }
     | _ \<Rightarrow> Some (rend, p))"

definition run_assignments :: "world \<Rightarrow> calls \<Rightarrow> window_id \<Rightarrow> manager \<Rightarrow> manager option" where
  "run_assignments w others i m = do {
     (rend, p) \<leftarrow> fold_opt (run_assignment w others i) (enumerate 0 (assignments m)) (False, mparser m);
     let m = m\<lparr>mparser := p\<rparr>;
     if rend then on_tree tree_render m else Some m
   }"

section \<open>Facts\<close>

text \<open>The assignment found is the first one of its kind that matches.\<close>

lemma assignment_for_first:
  assumes "assignment_for w kind as s win = Some (Some a)"
  shows "\<exists>before after. as = before @ a # after \<and> kind (a_dest a) \<and>
    match_matches_window (pattern_matches w) s (a_match a) win = Some True \<and>
    (\<forall>b \<in> set before. \<not> kind (a_dest b) \<or>
      match_matches_window (pattern_matches w) s (a_match b) win = Some False)"
  using assms
proof (induction as)
  case (Cons b as)
  show ?case
  proof (cases "kind (a_dest b) \<and> match_matches_window (pattern_matches w) s (a_match b) win = Some True")
    case True
    then have "b = a" using Cons.prems by simp
    then show ?thesis using True by (intro exI[of _ "[]"] exI[of _ as]) simp
  next
    case False
    then have f: "\<not> kind (a_dest b) \<or> match_matches_window (pattern_matches w) s (a_match b) win = Some False"
      using Cons.prems by (auto simp: bind_eq_Some split: if_splits)
    then have "assignment_for w kind as s win = Some (Some a)"
      using Cons.prems by (simp split: if_splits)
    with Cons.IH obtain before after' where as: "as = before @ a # after'" "kind (a_dest a)"
      "match_matches_window (pattern_matches w) s (a_match a) win = Some True"
      "\<forall>b \<in> set before. \<not> kind (a_dest b) \<or>
        match_matches_window (pattern_matches w) s (a_match b) win = Some False"
      by blast
    with f show ?thesis by (intro exI[of _ "b # before"] exI[of _ after']) simp
  qed
qed simp

lemma assignment_for_None:
  assumes "assignment_for w kind as s win = Some None" and "a \<in> set as"
  shows "\<not> kind (a_dest a) \<or> match_matches_window (pattern_matches w) s (a_match a) win = Some False"
  using assms by (induction as) (auto simp: bind_eq_Some split: if_splits)

text \<open>Nothing happens for a window whose matching assignments have run.\<close>

definition settled :: "world \<Rightarrow> window \<Rightarrow> i3 \<Rightarrow> nat \<times> assignment \<Rightarrow> bool" where
  "settled w win s = (\<lambda>(k, a).
     case a_dest a of
       A_COMMAND _ \<Rightarrow>
         (case match_matches_window (pattern_matches w) s (a_match a) win of
            None \<Rightarrow> False | Some b \<Rightarrow> b \<longrightarrow> k \<in> set (ran_assignments win))
     | _ \<Rightarrow> True)"

lemma run_assignment_settled:
  assumes "the_window i (wm (p_cmd p)) = Some win" and "settled w win (wm (p_cmd p)) ka"
  shows "run_assignment w others i ka (rend, p) = Some (rend, p)"
  using assms by (cases ka) (auto simp: run_assignment_def settled_def Let_def split: assign_dest.splits option.splits)

lemma run_assignments_settled:
  assumes "the_window i (tree_of m) = Some win"
    and "list_all (settled w win (tree_of m)) (enumerate 0 (assignments m))"
  shows "run_assignments w others i m = Some m"
proof -
  have "fold_opt (run_assignment w others i) kas (False, mparser m) = Some (False, mparser m)"
    if "list_all (settled w win (tree_of m)) kas" for kas
    using that
  proof (induction kas)
    case (Cons ka kas)
    then show ?case
      using run_assignment_settled[of i "mparser m" win w ka others False] assms(1) by (simp add: tree_of_def)
  qed simp
  then show ?thesis using assms(2) by (simp add: run_assignments_def)
qed

text \<open>The command is run after the assignment has been recorded, with the window as its criterion.\<close>

lemma run_assignment_once:
  assumes "the_window i (wm (p_cmd p)) = Some win" and "a_dest a = A_COMMAND command"
    and "match_matches_window (pattern_matches w) (wm (p_cmd p)) (a_match a) win = Some True"
    and "k \<notin> set (ran_assignments win)"
  shows "run_assignment w others i (k, a) (rend, p) =
    map_option (\<lambda>(r, p). (rend \<or> result_needs_tree_render r, p))
      (parse_command (dispatch w others) command_tokens (full_command i command)
        (p\<lparr>p_cmd := (p_cmd p)\<lparr>wm :=
          upd_window i (\<lambda>v. v\<lparr>ran_assignments := ran_assignments v @ [k]\<rparr>) (wm (p_cmd p))\<rparr>\<rparr>))"
    (is "_ = map_option _ ?r")
  using assms by (cases ?r) (auto simp: run_assignment_def Let_def)

end
