(* ===== verification/Manage.thy ===== *)
theory Manage
  imports Assignments Windows Ewmh
begin

text \<open>
  Managing windows (src/manage.c): from the request to map a window to its place in the tree.  The
  replies of the X server about a client are the record \<open>client\<close>; atoms are their names.  A new
  window is first read, then given a container, then its state hints, focus and floating mode are
  settled, then it is reparented and the assigned commands run.
\<close>

section \<open>What the X server says about a client\<close>

record geometry =
  geo_x :: int
  geo_y :: int
  geo_width :: int
  geo_height :: int
  geo_border :: int

text \<open>
  The first fields say whether the requests succeeded.  The 16-bit fields of a geometry are integers.
\<close>

record client =
  cl_window :: window_id
  cl_attributes :: bool
  cl_viewable :: bool
  cl_override_redirect :: bool
  cl_geometry :: "geometry option"
  cl_events_ok :: bool
  cl_reparent_ok :: bool
  cl_depth :: nat
  cl_class :: "string option"
  cl_title :: "string option"
  cl_utf8_title :: "string option"
  cl_icon :: "u32 list option"
  cl_leader :: "u32 list option"
  cl_transient :: "window_id option option"
  cl_strut :: "u32 list option"
  cl_role :: "string option"
  cl_hints :: "wm_hints option"
  cl_motif :: "u32 list option"
  cl_normal_hints :: "size_hints option"
  cl_machine :: "string option"
  cl_startup_id :: "string option"
  cl_leader_startup_id :: "string option"
  cl_desktop :: "u32 list option"
  cl_take_focus :: bool
  cl_types :: "string list"
  cl_states :: "string list"
  cl_user_time :: "u32 list option"
  cl_shaped :: bool

definition wrap_s16 :: "int \<Rightarrow> int" where "wrap_s16 n = sint (of_int n :: 16 word)"
definition wrap_u16 :: "int \<Rightarrow> int" where "wrap_u16 n = uint (of_int n :: 16 word)"

definition geometry_after_hints :: "size_hints option \<Rightarrow> geometry \<Rightarrow> geometry" where
  "geometry_after_hints hints g =
     (case hints of
        None \<Rightarrow> g
      | Some h \<Rightarrow>
          let (x, y, wd, ht) = hinted_geometry h (geo_x g, geo_y g, geo_width g, geo_height g)
          in g\<lparr>geo_x := wrap_s16 x, geo_y := wrap_s16 y, geo_width := wrap_u16 wd, geo_height := wrap_u16 ht\<rparr>)"

definition geo_rect :: "geometry \<Rightarrow> rect" where
  "geo_rect g = mk_rect (of_int (geo_x g)) (of_int (geo_y g)) (of_int (geo_width g)) (of_int (geo_height g))"

text \<open>\<open>xcb_get_preferred_window_type\<close>, with the atoms as numbers; the prefix is that of the atoms.\<close>

definition preferred_window_type :: "world \<Rightarrow> string list \<Rightarrow> nat" where
  "preferred_window_type w types =
     (case List.find (\<lambda>t. t \<in> set window_types) types of None \<Rightarrow> 0 | Some t \<Rightarrow> type_atom w t)"

section \<open>Reading the window\<close>

definition blank_window :: "window_id \<Rightarrow> nat \<Rightarrow> window" where
  "blank_window i depth =
     \<lparr>win_id = i, leader = 0, transient_for = 0, win_class = None, win_instance = None, win_name = None,
      win_role = None, machine = None, window_type = 0, win_dock = W_NODOCK, urgent_time = (0, 0),
      base_width = 0, base_height = 0, width_increment = 0, height_increment = 0, min_width = 0,
      min_height = 0, max_width = 0, max_height = 0, min_aspect_ratio = 0, max_aspect_ratio = 0,
      name_x_changed = False, needs_take_focus = False, doesnt_accept_focus = False,
      ran_assignments = [], uses_net_wm_name = False, wm_desktop = 0,
      reserved = \<lparr>res_left = 0, res_right = 0, res_top = 0, res_bottom = 0\<rparr>,
      win_depth = depth, win_icon = None, shaped = False, managed_since = 0, swallowed = False\<rparr>"

text \<open>The result is the window, whether it is urgent, and the border style it asks for.\<close>

definition read_window ::
  "world \<Rightarrow> client \<Rightarrow> i3 \<Rightarrow> (window \<times> bool \<times> border_style option \<times> i3) option" where
  "read_window w cl s = do {
     let win = window_update_class (cl_class cl) (blank_window (cl_window cl) (cl_depth cl));
     (win, s) \<leftarrow> window_update_name_legacy w (cl_title cl) win s;
     (win, s) \<leftarrow> window_update_name w (cl_utf8_title cl) win s;
     win \<leftarrow> window_update_icon (of_int (render_deco_height (cfg s) - logical_px w 2)) (cl_icon cl) win;
     let win = window_update_transient_for (cl_transient cl) (window_update_leader (cl_leader cl) win);
     win \<leftarrow> window_update_strut_partial (cl_strut cl) win;
     let (win, urgency_hint) = window_update_hints (cl_hints cl) (window_update_role (cl_role cl) win);
     motif \<leftarrow> window_update_motif_hints (cl_motif cl);
     let win = snd (window_update_normal_hints (cl_normal_hints cl) win);
     let win = window_update_machine (cl_machine cl) win;
     let win = win\<lparr>wm_desktop := (case present (cl_desktop cl) of None \<Rightarrow> NET_WM_DESKTOP_NONE | Some v \<Rightarrow> hd v),
       needs_take_focus := cl_take_focus cl, window_type := preferred_window_type w (cl_types cl)\<rparr>;
     Some (win, urgency_hint, motif, s)
   }"

text \<open>Where a dock client wants to be: by its strut, else by its position on the output.\<close>

definition dock_position :: "reservedpx \<Rightarrow> geometry \<Rightarrow> rect \<Rightarrow> dock" where
  "dock_position res g r =
     (if res_top res > 0 \<and> res_bottom res = 0 then W_DOCK_TOP
      else if res_top res = 0 \<and> res_bottom res > 0 then W_DOCK_BOTTOM
      else if geo_y g < wrap_s16 (uint (rheight r div 2)) then W_DOCK_TOP else W_DOCK_BOTTOM)"

text \<open>Where the search for a container starts; an output without container would be dereferenced.\<close>

definition place_dock :: "world \<Rightarrow> client \<Rightarrow> geometry \<Rightarrow> i3 \<Rightarrow> window \<Rightarrow> (con_id \<times> window) option" where
  "place_dock w cl g s win =
     (if ''dock'' \<notin> set (cl_types cl) then Some (croot s, win)
      else do {
        search \<leftarrow> (case get_output_containing (outputs (the_env w)) (of_int (geo_x g)) (of_int (geo_y g)) of
            None \<Rightarrow> Some (croot s) | Some out \<Rightarrow> out_con out);
        Some (search, win\<lparr>win_dock := dock_position (reserved win) g (con_rect (heap s search))\<rparr>)
      })"

section \<open>Finding a container\<close>

definition open_on_workspace :: "con_id \<Rightarrow> window \<Rightarrow> i3 \<Rightarrow> (con_id \<times> i3) option" where
  "open_on_workspace ws win s = do {
     d \<leftarrow> con_descend_tiling_focused s ws;
     if con_type (heap s d) = CT_WORKSPACE then tree_open_con (Some d) (Some win) s
     else do { p \<leftarrow> parent (heap s d); tree_open_con (Some p) (Some win) s }
   }"

definition assigned_workspace :: "world \<Rightarrow> assign_dest \<Rightarrow> i3 \<Rightarrow> (con_id \<times> i3) option" where
  "assigned_workspace w dest s =
     (case dest of
        A_TO_WORKSPACE name \<Rightarrow> workspace_get (the_env w) name s
      | A_TO_WORKSPACE_NUMBER name \<Rightarrow> do {
          r \<leftarrow> get_existing_workspace_by_num s (ws_name_to_number name);
          (case r of Some ws \<Rightarrow> Some (ws, s) | None \<Rightarrow> workspace_get (the_env w) name s)
        }
      | _ \<Rightarrow> None)"

definition is_to_workspace :: "assign_dest \<Rightarrow> bool" where
  "is_to_workspace d = (case d of A_TO_WORKSPACE _ \<Rightarrow> True | _ \<Rightarrow> False)"
definition is_to_number :: "assign_dest \<Rightarrow> bool" where
  "is_to_number d = (case d of A_TO_WORKSPACE_NUMBER _ \<Rightarrow> True | _ \<Rightarrow> False)"
definition is_to_output :: "assign_dest \<Rightarrow> bool" where
  "is_to_output d = (case d of A_TO_OUTPUT _ \<Rightarrow> True | _ \<Rightarrow> False)"
definition is_no_focus :: "assign_dest \<Rightarrow> bool" where
  "is_no_focus d = (case d of A_NO_FOCUS \<Rightarrow> True | _ \<Rightarrow> False)"

definition workspace_assignment :: "world \<Rightarrow> assignment list \<Rightarrow> i3 \<Rightarrow> window \<Rightarrow> assignment option option" where
  "workspace_assignment w as s win = do {
     a \<leftarrow> assignment_for w is_to_workspace as s win;
     (case a of Some a \<Rightarrow> Some (Some a) | None \<Rightarrow> assignment_for w is_to_number as s win)
   }"

definition requested_desktop :: "i3 \<Rightarrow> window \<Rightarrow> con_id option option" where
  "requested_desktop s win =
     (if wm_desktop win = NET_WM_DESKTOP_NONE \<or> wm_desktop win = NET_WM_DESKTOP_ALL then Some None
      else ewmh_get_workspace_by_index s (wm_desktop win))"

text \<open>
  A window no container waits for: on the assigned workspace, the desktop it asks for, the workspace
  it was started on, or where the focus is.  A window assigned to an invisible workspace is urgent.
\<close>

definition place_window ::
  "world \<Rightarrow> assignment list \<Rightarrow> window \<Rightarrow> cstr \<Rightarrow> bool \<Rightarrow> i3 \<Rightarrow> (con_id \<times> bool \<times> i3) option" where
  "place_window w as win startup_ws urgency_hint s = do {
     a \<leftarrow> workspace_assignment w as s win;
     case a of
       Some a \<Rightarrow> do {
         (ws, s) \<leftarrow> assigned_workspace w (a_dest a) s;
         (nc, s) \<leftarrow> open_on_workspace ws win s;
         vis \<leftarrow> workspace_is_visible s ws;
         Some (nc, urgency_hint \<or> \<not> vis, s)
       }
     | None \<Rightarrow> do {
         desktop \<leftarrow> requested_desktop s win;
         (nc, s) \<leftarrow> (case (desktop, startup_ws) of
             (Some ws, _) \<Rightarrow> open_on_workspace ws win s
           | (None, Some name) \<Rightarrow> do {
               (ws, s) \<leftarrow> workspace_get (the_env w) name s;
               open_on_workspace ws win s
             }
           | (None, None) \<Rightarrow> do {
               f \<leftarrow> focused s;
               if con_type (heap s f) = CT_CON \<and> con_accepts_window s f then Some (f, s)
               else tree_open_con None (Some win) s
             });
         Some (nc, urgency_hint, s)
       }
   }"

definition place_on_output :: "world \<Rightarrow> assignment list \<Rightarrow> window \<Rightarrow> con_id \<Rightarrow> i3 \<Rightarrow> i3 option" where
  "place_on_output w as win nc s = do {
     a \<leftarrow> assignment_for w is_to_output as s win;
     (case map_option a_dest a of
        Some (A_TO_OUTPUT name) \<Rightarrow> map_option snd (con_move_to_output_name (the_env w) nc name True s)
      | _ \<Rightarrow> Some s)
   }"

text \<open>
  A container that waits for the window: either the window goes below it, or it replaces the
  placeholder, and the criterion that matched is used up.
\<close>

definition swallow_window :: "con_id \<Rightarrow> match \<Rightarrow> window \<Rightarrow> i3 \<Rightarrow> (con_id \<times> i3) option" where
  "swallow_window nc m win s =
     (if insert_where m = M_BELOW then tree_open_con (Some nc) (Some win) s
      else if m \<in> set (swallow_head (heap s nc))
        then Some (nc, upd nc (\<lambda>n. n\<lparr>swallow_head := remove1 m (swallow_head n)\<rparr>) s)
      else None)"

definition remove_matches :: "con_id \<Rightarrow> i3 \<Rightarrow> i3" where
  "remove_matches c = upd c (\<lambda>n. n\<lparr>swallow_head := []\<rparr>)"

definition restore_kill_placeholder :: "window_id \<Rightarrow> window_id list \<Rightarrow> (window_id list) option" where
  "restore_kill_placeholder i phs = (if i \<in> set phs then Some (remove1 i phs) else None)"

text \<open>The result says whether the old frame has to be destroyed in the end.\<close>

definition match_depth :: "nat \<Rightarrow> window \<Rightarrow> con_id \<Rightarrow> i3 \<Rightarrow> bool \<times> i3" where
  "match_depth root_depth win c s =
     (if (case con_depth (heap s c) of None \<Rightarrow> root_depth | Some d \<Rightarrow> d) \<noteq> win_depth win
      then (True, emit (X_Con_Reframe c) (upd c (\<lambda>n. n\<lparr>con_depth := Some (win_depth win)\<rparr>) s))
      else (False, s))"

text \<open>A container that holds another window is a placeholder, whose window goes.\<close>

definition replace_placeholder ::
  "nat \<Rightarrow> window \<Rightarrow> con_id \<Rightarrow> window_id list \<times> i3 \<Rightarrow> bool \<times> window_id list \<times> i3" where
  "replace_placeholder root_depth win nc = (\<lambda>(phs, s).
     case con_window (heap s nc) of
       None \<Rightarrow> (False, phs, s)
     | Some v \<Rightarrow>
         if win_id v = win_id win then (False, phs, s)
         else let (phs, s) = (case restore_kill_placeholder (win_id v) phs of
                None \<Rightarrow> (phs, s) | Some phs \<Rightarrow> (phs, remove_matches nc s));
              (old_frame, s) = match_depth root_depth win nc s
         in (old_frame, phs, s))"

definition take_window :: "con_id \<Rightarrow> window \<Rightarrow> geometry \<Rightarrow> i3 \<Rightarrow> i3" where
  "take_window nc win g s =
     emit (X_Set_Name nc ''[i3 con] container'') (upd nc (\<lambda>n. n\<lparr>border_width := geo_border g\<rparr>)
       (emit (X_Reinit nc) (upd nc (\<lambda>n. n\<lparr>con_window := Some win\<rparr>) s)))"

section \<open>Fullscreen, focus and floating\<close>

text \<open>The result is the fullscreen container that covers the workspace, if the window does not replace it.\<close>

definition manage_fullscreen ::
  "world \<Rightarrow> client \<Rightarrow> geometry \<Rightarrow> con_id \<Rightarrow> con_id option \<Rightarrow> i3 \<Rightarrow> (con_id option \<times> i3) option" where
  "manage_fullscreen w cl g nc ws s = do {
     fs \<leftarrow> con_get_fullscreen_covering_ws s ws;
     if ''fullscreen'' \<notin> set (cl_states cl) then Some (fs, s)
     else if fs = Some nc then Some (None, s)
     else do {
       s \<leftarrow> (case get_output_with_dimensions (outputs (the_env w)) (geo_rect g) of
           None \<Rightarrow> Some s | Some out \<Rightarrow> con_move_to_output nc out False s);
       s \<leftarrow> con_toggle_fullscreen workspace_show nc CF_OUTPUT s;
       Some (None, s)
     }
   }"

text \<open>Behind a fullscreen container, the window becomes the second in the focus stack.\<close>

definition second_in_focus :: "con_id \<Rightarrow> i3 \<Rightarrow> i3 option" where
  "second_in_focus nc s = do {
     p \<leftarrow> parent (heap s nc);
     let st = focus_head (heap s p);
     first \<leftarrow> list_first st;
     if first = nc then Some s
     else Some (upd p (\<lambda>n. n\<lparr>focus_head := insert_after first nc (remove1 nc st)\<rparr>) s)
   }"

definition manage_focus ::
  "con_id \<Rightarrow> con_id option \<Rightarrow> con_id option \<Rightarrow> window \<Rightarrow> bool \<Rightarrow> i3 \<Rightarrow> (bool \<times> i3) option" where
  "manage_focus nc ws fs win from_restart s =
     (if fs \<noteq> None then map_option (Pair False) (second_in_focus nc s)
      else if win_dock win \<noteq> W_NODOCK then Some (False, s)
      else do {
        f \<leftarrow> focused s;
        cur \<leftarrow> con_get_output s f;
        ws \<leftarrow> ws;
        target \<leftarrow> con_get_output s ws;
        vis \<leftarrow> workspace_is_visible s ws;
        Some (vis \<and> cur = target \<and> \<not> from_restart, s)
      })"

definition dialog_types :: "string list" where
  "dialog_types = [''dialog'', ''utility'', ''toolbar'', ''notification'', ''splash'']"

definition wants_floating :: "client \<Rightarrow> window \<Rightarrow> bool" where
  "wants_floating cl win \<longleftrightarrow>
     (\<exists>t \<in> set dialog_types. t \<in> set (cl_types cl)) \<or> ''modal'' \<in> set (cl_states cl) \<or>
     (0 < max_width win \<and> 0 < max_height win \<and> min_height win = max_height win \<and> min_width win = max_width win)"

definition is_popup :: "i3 \<Rightarrow> window \<Rightarrow> bool" where
  "is_popup s win \<longleftrightarrow>
     transient_for win \<noteq> 0 \<or>
     leader win \<noteq> 0 \<and> leader win \<noteq> win_id win \<and> con_by_window_id s (leader win) \<noteq> None"

definition manage_popup ::
  "con_id \<Rightarrow> con_id option \<Rightarrow> bool \<Rightarrow> i3 \<Rightarrow> (bool \<times> i3) option" where
  "manage_popup nc fs set_focus s =
     (case (cfg_popup_during_fullscreen (cfg s), fs) of
        (PDF_LEAVE_FULLSCREEN, Some f) \<Rightarrow> Some (set_focus, con_disable_fullscreen f s)
      | (PDF_SMART, Some f) \<Rightarrow>
          (case con_window (heap s f) of
             None \<Rightarrow> Some (set_focus, s)
           | Some v \<Rightarrow> map_option (\<lambda>b. (b, s)) (con_find_transient_for_window s (Some nc) (win_id v)))
      | _ \<Rightarrow> Some (set_focus, s))"

text \<open>
  Sticky windows, dialogs and popups; the result says whether the window is to be focused, and
  whether it is to float.
\<close>

definition manage_hints ::
  "client \<Rightarrow> geometry \<Rightarrow> con_id \<Rightarrow> con_id option \<Rightarrow> con_id option \<Rightarrow> window \<Rightarrow> bool \<Rightarrow> i3 \<Rightarrow> (bool \<times> bool \<times> i3) option" where
  "manage_hints cl g nc ws fs win set_focus s = do {
     let s = (if ''sticky'' \<in> set (cl_states cl) then upd nc (\<lambda>n. n\<lparr>sticky := True\<rparr>) s else s);
     internal \<leftarrow> (case ws of None \<Rightarrow> Some False | Some ws \<Rightarrow> con_is_internal s ws);
     let everywhere = (wm_desktop win = NET_WM_DESKTOP_ALL \<and> \<not> internal);
     let s = (if everywhere then upd nc (\<lambda>n. n\<lparr>sticky := True\<rparr>) s else s);
     let popup = is_popup s win;
     (set_focus, s) \<leftarrow> (if popup then manage_popup nc fs set_focus s else Some (set_focus, s));
     let want_floating = (win_dock win = W_NODOCK \<and> (wants_floating cl win \<or> everywhere \<or> popup));
     let s = (if rwidth (con_geometry (heap s nc)) = 0 then upd nc (\<lambda>n. n\<lparr>con_geometry := geo_rect g\<rparr>) s else s);
     let set_focus = (set_focus \<or> cfg_popup_during_fullscreen (cfg s) = PDF_ALL \<and> want_floating \<and> fs \<noteq> None);
     Some (set_focus, want_floating, s)
   }"

definition manage_float :: "world \<Rightarrow> border_style option \<Rightarrow> bool \<Rightarrow> con_id \<Rightarrow> i3 \<Rightarrow> i3 option" where
  "manage_float w motif want_floating nc s = do {
     s \<leftarrow> (if want_floating then do {
         (ok, s) \<leftarrow> floating_enable (the_env w) nc True s;
         Some (if ok then upd nc (\<lambda>n. n\<lparr>con_floating := FLOATING_AUTO_ON\<rparr>) s else s) }
       else Some s);
     let bw = (if want_floating then default_floating_border_width (cfg s) else default_border_width (cfg s));
     s \<leftarrow> (case motif of None \<Rightarrow> Some s | Some style \<Rightarrow> con_set_border_style nc style bw s);
     Some (if current_border_width (heap s nc) = -1
       then upd nc (\<lambda>n. n\<lparr>current_border_width := bw\<rparr>) s else s)
   }"

section \<open>The end of managing a window\<close>

text \<open>A window on an invisible workspace gets its size all the same, but not the focus.\<close>

definition render_managed :: "con_id option \<Rightarrow> bool \<Rightarrow> i3 \<Rightarrow> (bool \<times> i3) option" where
  "render_managed ws set_focus s = do {
     (set_focus, s) \<leftarrow> (case ws of
         None \<Rightarrow> Some (set_focus, s)
       | Some ws \<Rightarrow> do {
           vis \<leftarrow> workspace_is_visible s ws;
           if vis then Some (set_focus, s)
           else do {
             p \<leftarrow> parent (heap s ws);
             s \<leftarrow> render ws (set_rect ws (con_rect (heap s p)) s);
             Some (False, s)
           }
         });
     s \<leftarrow> render (croot s) s;
     Some (set_focus, s)
   }"

text \<open>The rules \<open>no_focus\<close>, \<open>_NET_WM_USER_TIME\<close> and the input model of the client.\<close>

definition keeps_focus ::
  "world \<Rightarrow> client \<Rightarrow> assignment list \<Rightarrow> con_id \<Rightarrow> con_id option \<Rightarrow> bool \<Rightarrow> i3 \<Rightarrow> bool option" where
  "keeps_focus w cl as nc ws set_focus s = do {
     win \<leftarrow> the_window (cl_window cl) s;
     set_focus \<leftarrow> (if \<not> set_focus then Some False
       else do {
         a \<leftarrow> assignment_for w is_no_focus as s win;
         if a = None then Some True
         else do { n \<leftarrow> con_num_windows s ws; Some (n = 1) }
       });
     let set_focus = (set_focus \<and> (case present (cl_user_time cl) of None \<Rightarrow> True | Some v \<Rightarrow> hd v \<noteq> 0));
     v \<leftarrow> con_window (heap s nc);
     Some (set_focus \<and> \<not> (doesnt_accept_focus v \<and> \<not> needs_take_focus v))
   }"

definition finish_managing :: "con_id \<Rightarrow> window_id \<Rightarrow> bool \<Rightarrow> bool \<Rightarrow> bool \<Rightarrow> i3 \<Rightarrow> i3 option" where
  "finish_managing nc i old_frame set_focus urgency_hint s = do {
     s \<leftarrow> (if set_focus \<and> mapped (heap s nc) then con_activate nc s else Some s);
     s \<leftarrow> tree_render s;
     let s = (if old_frame then emit (X_Destroy_Frame nc) s else s);
     s \<leftarrow> con_set_urgency nc urgency_hint s;
     let s = upd_window i (\<lambda>v. v\<lparr>wm_desktop := NET_WM_DESKTOP_NONE\<rparr>) s;
     s \<leftarrow> ewmh_update_wm_desktop s;
     output_push_sticky_windows (focused s) s
   }"

text \<open>After the window has been put into its frame.\<close>

definition manage_reparented ::
  "world \<Rightarrow> calls \<Rightarrow> client \<Rightarrow> con_id \<Rightarrow> bool \<Rightarrow> bool \<Rightarrow> bool \<Rightarrow> manager \<Rightarrow> manager option" where
  "manage_reparented w others cl nc old_frame set_focus urgency_hint m = do {
     let i = cl_window cl;
     m \<leftarrow> on_tree (\<lambda>s. Some (upd_window i (\<lambda>v. v\<lparr>shaped := (shaped v \<or> cl_shaped cl)\<rparr>) s)) m;
     m \<leftarrow> run_assignments w others i m;
     let s = tree_of m;
     nc \<leftarrow> deref s nc;
     ws \<leftarrow> con_get_workspace s nc;
     (set_focus, s) \<leftarrow> render_managed ws set_focus s;
     let s = emit (Ipc_Window ''new'' nc) (upd_window i (\<lambda>v. v\<lparr>managed_since := fst (clock s)\<rparr>) s);
     set_focus \<leftarrow> keeps_focus w cl (assignments m) nc ws set_focus s;
     s \<leftarrow> finish_managing nc i old_frame set_focus urgency_hint s;
     Some (with_tree s m)
   }"

section \<open>Managing a window\<close>

text \<open>Whether a window is managed at all; \<open>needs_to_be_mapped\<close> holds for the windows found at the start.\<close>

definition manageable :: "client \<Rightarrow> bool \<Rightarrow> i3 \<Rightarrow> geometry option" where
  "manageable cl needs_to_be_mapped s =
     (if \<not> cl_attributes cl then None
      else if needs_to_be_mapped \<and> \<not> cl_viewable cl then None
      else if cl_override_redirect cl then None
      else if con_by_window_id s (cl_window cl) \<noteq> None then None
      else if \<not> cl_events_ok cl then None
      else cl_geometry cl)"

definition find_container ::
  "world \<Rightarrow> assignment list \<Rightarrow> con_id \<Rightarrow> window \<Rightarrow> cstr \<Rightarrow> bool \<Rightarrow> i3 \<Rightarrow> (con_id \<times> match option \<times> bool \<times> i3) option" where
  "find_container w as search win startup_ws urgency_hint s = do {
     r \<leftarrow> con_for_window (pattern_matches w) s search win;
     (case r of
        None \<Rightarrow> do {
          (nc, urgency_hint, s) \<leftarrow> place_window w as win startup_ws urgency_hint s;
          s \<leftarrow> place_on_output w as win nc s;
          Some (nc, None, urgency_hint, s)
        }
      | Some (nc, mt) \<Rightarrow> do {
          (nc, s) \<leftarrow> swallow_window nc mt win s;
          Some (nc, Some mt, urgency_hint, s)
        })
   }"

definition manage_window :: "world \<Rightarrow> calls \<Rightarrow> nat \<Rightarrow> client \<Rightarrow> bool \<Rightarrow> manager \<Rightarrow> manager option" where
  "manage_window w others root_depth cl needs_to_be_mapped m =
     (case manageable cl needs_to_be_mapped (tree_of m) of
        None \<Rightarrow> Some m
      | Some g \<Rightarrow> do {
          let s = tree_of m;
          (win, urgency_hint, motif, s) \<leftarrow> read_window w cl s;
          let g = geometry_after_hints (cl_normal_hints cl) g;
          let (startup_ws, seqs) = startup_workspace_for_window (fst (clock s)) s win (cl_startup_id cl)
            (cl_leader_startup_id cl) (sequences m);
          (search, win) \<leftarrow> place_dock w cl g s win;
          (nc, mt, urgency_hint, s) \<leftarrow> find_container w (assignments m) search win startup_ws urgency_hint s;
          let win = win\<lparr>swallowed := (mt \<noteq> None)\<rparr>;
          let (old_frame, phs, s) = replace_placeholder root_depth win nc (placeholders m, s);
          let s = take_window nc win g s;
          ws \<leftarrow> con_get_workspace s nc;
          (fs, s) \<leftarrow> manage_fullscreen w cl g nc ws s;
          (set_focus, s) \<leftarrow> manage_focus nc ws fs win (case mt of None \<Rightarrow> False | Some mt \<Rightarrow> restart_mode mt) s;
          (set_focus, want_floating, s) \<leftarrow> manage_hints cl g nc ws fs win set_focus s;
          s \<leftarrow> manage_float w motif want_floating nc s;
          let m = with_tree (emit (X_Reparent_Window (cl_window cl) nc) s)
            (m\<lparr>sequences := seqs, placeholders := phs\<rparr>);
          if \<not> cl_reparent_ok cl then Some m
          else manage_reparented w others cl nc old_frame set_focus urgency_hint m
        })"

text \<open>\<open>manage_existing_windows\<close>: the children of the root window, when the window manager starts.\<close>

definition manage_existing_windows :: "world \<Rightarrow> calls \<Rightarrow> nat \<Rightarrow> client list \<Rightarrow> manager \<Rightarrow> manager option" where
  "manage_existing_windows w others root_depth cls =
     fold_opt (\<lambda>cl. manage_window w others root_depth cl True) cls"

section \<open>Managing a window again\<close>

definition placeholder_for_con :: "world \<Rightarrow> con_id \<Rightarrow> i3 \<Rightarrow> con_id option option" where
  "placeholder_for_con w c s = do {
     win \<leftarrow> con_window (heap s c);
     if swallowed win then Some None
     else do {
       r \<leftarrow> con_for_window (pattern_matches w) s (croot s) win;
       Some (case r of
           None \<Rightarrow> None
         | Some (nc, _) \<Rightarrow>
             (case con_window (heap s nc) of
                None \<Rightarrow> None
              | Some v \<Rightarrow>
                  if win_id v = win_id win then None
                  else if managed_since v > managed_since win then None
                  else Some nc))
     }
   }"

text \<open>The container of the window afterwards; \<open>seq_prop\<close> are the startup identifiers of the window and its leader.\<close>

definition remanage_window ::
  "world \<Rightarrow> calls \<Rightarrow> nat \<Rightarrow> cstr \<times> cstr \<Rightarrow> con_id \<Rightarrow> manager \<Rightarrow> (con_id \<times> manager) option" where
  "remanage_window w others root_depth seq_prop c m = do {
     let s = tree_of m;
     win \<leftarrow> con_window (heap s c);
     r \<leftarrow> placeholder_for_con w c s;
     case r of
       None \<Rightarrow> map_option (Pair c) (run_assignments w others (win_id win) m)
     | Some nc \<Rightarrow> do {
         let (old_frame, phs, s) = replace_placeholder root_depth win nc (placeholders m, s);
         let s = emit (X_Reparent_Child nc c) s;
         to_ws \<leftarrow> con_get_workspace s nc;
         from_ws \<leftarrow> con_get_workspace s c;
         s \<leftarrow> con_merge_into c nc s;
         let s = (if old_frame then emit (X_Destroy_Frame nc) s else s);
         m \<leftarrow> run_assignments w others (win_id win) (with_tree s (m\<lparr>placeholders := phs\<rparr>));
         nc \<leftarrow> deref (tree_of m) nc;
         win \<leftarrow> con_window (heap (tree_of m) nc);
         m \<leftarrow> (if to_ws \<noteq> from_ws then
             on_tree ewmh_update_wm_desktop
               (m\<lparr>sequences := startup_sequence_delete_by_window (tree_of m) win (fst seq_prop) (snd seq_prop)
                 (sequences m)\<rparr>)
           else Some m);
         m \<leftarrow> on_tree (\<lambda>s. Some (upd_window (win_id win) (\<lambda>v. v\<lparr>swallowed := True\<rparr>) s)) m;
         Some (nc, m)
       }
   }"

section \<open>Giving the windows back\<close>

text \<open>The rectangles and positions the windows get before the window manager ends.\<close>

definition restored_rect :: "con \<Rightarrow> rect" where
  "restored_rect n =
     (window_rect n)\<lparr>rwidth := rwidth (window_rect n) + of_int (2 * border_width n),
       rheight := rheight (window_rect n) + of_int (2 * border_width n)\<rparr>"

definition restore_geometry :: "i3 \<Rightarrow> (window_id \<times> rect \<times> u32 \<times> u32) list \<times> i3" where
  "restore_geometry s =
     (let cs = filter (\<lambda>c. con_window (heap s c) \<noteq> None) (all_cons s) in
      (map (\<lambda>c. (win_id (the (con_window (heap s c))), restored_rect (heap s c), rx (con_rect (heap s c)),
          ry (con_rect (heap s c)))) cs,
       fold (\<lambda>c. upd c (\<lambda>n. n\<lparr>window_rect := restored_rect n\<rparr>)) cs s))"

end
