(* ===== verification/Manage_Facts.thy ===== *)
theory Manage_Facts
  imports Manage
begin

text \<open>
  Where a new window ends up: a window that is assigned to a workspace, asks for a desktop or belongs
  to a launch is opened on exactly that workspace, in a well-formed tree, and nothing else moves.
\<close>

section \<open>Trees that only grow\<close>

definition grown :: "i3 \<Rightarrow> i3 \<Rightarrow> bool" where
  "grown s t \<longleftrightarrow> live s \<subseteq> live t \<and>
     (\<forall>x \<in> live s. parent (heap t x) = parent (heap s x) \<and> con_type (heap t x) = con_type (heap s x))"

lemma grown_refl [simp]: "grown s s" by (simp add: grown_def)

lemma grown_trans: "grown s t \<Longrightarrow> grown t u \<Longrightarrow> grown s u"
  unfolding grown_def by (metis subset_iff)

lemma grown_links: "same_links s t \<Longrightarrow> grown s t"
  by (auto simp: grown_def dest: same_linksD)

lemma grown_chain: "up_chain s c xs \<Longrightarrow> set xs \<subseteq> live s \<Longrightarrow> grown s t \<Longrightarrow> up_chain t c xs"
  by (induction rule: up_chain.induct) (auto intro!: up_chain.intros simp: grown_def)

lemma grown_climb:
  assumes "wf_tree {} s" "wf_tree {} t" and "grown s t" and "c \<in> live s"
    and "\<And>x. x \<in> live s \<Longrightarrow> stop (heap t x) = stop (heap s x)"
  shows "climb (up_fuel t) t stop (Some c) = climb (up_fuel s) s stop (Some c)"
proof -
  obtain xs where xs: "up_chain s c xs" "length xs \<le> up_fuel s" "set xs \<subseteq> live s"
    by (rule chain_of_live[OF assms(1,4)])
  have t: "up_chain t c xs" by (rule grown_chain[OF xs(1,3) assms(3)])
  have "c \<in> live t" using assms(3,4) by (auto simp: grown_def)
  from climb_chain[OF t less_imp_le[OF up_chain_length[OF assms(2) this t]], of stop]
  have "climb (up_fuel t) t stop (Some c) = Some (List.find (\<lambda>x. stop (heap t x)) xs)" .
  also have "List.find (\<lambda>x. stop (heap t x)) xs = List.find (\<lambda>x. stop (heap s x)) xs"
    using xs(3) assms(5) by (intro find_cong) auto
  finally show ?thesis using climb_chain[OF xs(1,2), of stop] by simp
qed

lemma grown_workspace:
  "wf_tree {} s \<Longrightarrow> wf_tree {} t \<Longrightarrow> grown s t \<Longrightarrow> c \<in> live s \<Longrightarrow> con_get_workspace t c = con_get_workspace s c"
  unfolding con_get_workspace_def by (rule grown_climb) (auto simp: grown_def)

lemma grown_output:
  assumes "wf_tree {} s" "wf_tree {} t" "grown s t" "c \<in> live s"
  shows "con_get_output t c = con_get_output s c"
proof -
  have "climb (up_fuel t) t (\<lambda>n. con_type n = CT_OUTPUT) (Some c) = climb (up_fuel s) s (\<lambda>n. con_type n = CT_OUTPUT) (Some c)"
    by (rule grown_climb[OF assms]) (use assms(3) in \<open>auto simp: grown_def\<close>)
  then show ?thesis by (simp add: con_get_output_def)
qed

lemma workspace_of_parent:
  assumes "wf_tree {} s" and "c \<in> live s" and "parent (heap s c) = Some p" and "con_type (heap s c) \<noteq> CT_WORKSPACE"
  shows "con_get_workspace s c = con_get_workspace s p"
proof -
  obtain xs where xs: "up_chain s c xs" "length xs \<le> up_fuel s" by (rule chain_of_live[OF assms(1,2)])
  from xs(1) obtain ys where ys: "xs = c # ys" "up_chain s p ys"
    using assms(3) by cases auto
  then have "length ys \<le> up_fuel s" using xs(2) by simp
  from climb_chain[OF ys(2) this] climb_chain[OF xs] show ?thesis
    using assms(4) by (simp add: con_get_workspace_def ys(1))
qed

lemma workspace_of_itself:
  "con_type (heap s c) = CT_WORKSPACE \<Longrightarrow> con_get_workspace s c = Some (Some c)"
  by (simp add: con_get_workspace_def up_fuel_def)

text \<open>Below a workspace without another one in between.\<close>

definition plain_below :: "i3 \<Rightarrow> con_id \<Rightarrow> bool" where
  "plain_below s ws \<longleftrightarrow> (\<forall>x \<in> subtree s ws - {ws}. con_type (heap s x) \<noteq> CT_WORKSPACE \<and> con_type (heap s x) \<noteq> CT_DOCKAREA)"

lemma workspace_of_below:
  assumes "wf_tree {} s" and "con_type (heap s ws) = CT_WORKSPACE" and "plain_below s ws" and "c \<in> subtree s ws"
  shows "con_get_workspace s c = Some (Some ws)"
proof -
  have "(c, ws) \<in> (child_rel s)\<^sup>*" using assms(4) by (simp add: subtree_def)
  then show ?thesis
  proof (induction rule: converse_rtrancl_induct)
    case base
    show ?case by (rule workspace_of_itself[OF assms(2)])
  next
    case (step c p)
    show ?case
    proof (cases "c = ws")
      case True
      then show ?thesis by (simp add: workspace_of_itself assms(2))
    next
      case False
      have "c \<in> subtree s ws" using step(1,2) by (simp add: subtree_def)
      then have "con_type (heap s c) \<noteq> CT_WORKSPACE" using assms(3) False by (auto simp: plain_below_def)
      then show ?thesis
        using workspace_of_parent[OF assms(1) child_rel_live(1,3)[OF assms(1) step(1)]] step(3) by simp
    qed
  qed
qed

section \<open>Attaching\<close>

text \<open>An attached container hangs below its new parent, perhaps with a new container in between.\<close>

lemma attach_grows:
  assumes a: "con_attach c p ign s = Some t" and wf: "wf_tree (insert c D) s" and cD: "c \<notin> D"
    and p: "p \<in> live s" and np: "p \<notin> subtree s c"
    and dock: "con_type (heap s p) = CT_DOCKAREA \<Longrightarrow> con_type (heap s c) \<noteq> CT_FLOATING_CON"
  shows "live s \<subseteq> live t"
    and "x \<in> live s \<Longrightarrow> con_type (heap t x) = con_type (heap s x)"
    and "x \<in> live s \<Longrightarrow> x \<noteq> c \<Longrightarrow> parent (heap t x) = parent (heap s x)"
    and "parent (heap t c) = Some p \<or>
      (\<exists>q \<in> live t. parent (heap t c) = Some q \<and> parent (heap t q) = Some p \<and> con_type (heap t q) = CT_CON)"
proof -
  have cp: "c \<noteq> p" using np by auto
  have cl: "c \<in> live s" using wf_treeD(5)[OF wf] by simp
  have "live s \<subseteq> live t \<and> (\<forall>x \<in> live s. con_type (heap t x) = con_type (heap s x)) \<and>
    (\<forall>x \<in> live s. x \<noteq> c \<longrightarrow> parent (heap t x) = parent (heap s x)) \<and>
    (parent (heap t c) = Some p \<or>
      (\<exists>q \<in> live t. parent (heap t c) = Some q \<and> parent (heap t q) = Some p \<and> con_type (heap t q) = CT_CON))"
    (is "?g")
  proof (cases "wraps s c p")
    case False
    have "links_in c p s t"
      by (rule attach_plain_links[OF a[unfolded con_attach_def attach_fuel_def numeral_2_eq_2] cp False dock])
    then show ?thesis by (auto simp: links_in_def live_def)
  next
    case True
    let ?s = "upd c (\<lambda>n. n\<lparr>parent := Some p\<rparr>) s"
    obtain new v where nv: "workspace_attach_with (\<lambda>new ws. attach (Suc 0) new ws None False) p ?s = Some (new, v)"
      and t: "con_force_split_parents_redraw c
        (upd new (\<lambda>n. n\<lparr>focus_head := focus_head n @ [c]\<rparr>)
         (upd new (\<lambda>n. n\<lparr>nodes_head := nodes_head n @ [c]\<rparr>)
           (upd c (\<lambda>n. n\<lparr>parent := Some new\<rparr>) v))) = Some t"
      by (rule wraps_attach[OF True a[unfolded con_attach_def attach_fuel_def numeral_2_eq_2] cp])
    note dp = detached_parent[OF wf insertI1, of "Some p"]
    have pl: "p \<in> live ?s" "workspace_layout (heap ?s p) \<noteq> L_DEFAULT" using p True by (auto simp: wraps_def)
    note sp = wraps_split[OF nv pl(2) dp(1) pl(1)]
    note sf = split_state_facts[OF dp(1)]
    have n: "new \<notin> live ?s" using sf(8) sp(1) by simp
    have nc: "new \<noteq> c" using n cl by auto
    have li: "links_in c new v t"
      by (rule links_in_then[OF links_in_tail redraw_links[OF t]])
        (use True cl n sp(5)[of c] in \<open>auto simp: wraps_def\<close>)
    have types: "con_type (heap t x) = con_type (heap s x)" if "x \<in> live s" for x
      using li sp(5)[of x] that by (simp add: links_in_def)
    have parents: "parent (heap t x) = parent (heap s x)" if "x \<in> live s" "x \<noteq> c" for x
    proof -
      have "x \<noteq> new" using that n by auto
      then have "parent (heap v x) = parent (heap ?s x)"
        using sp(2) sf(7)[of x] that by (simp add: links_in_def)
      then show ?thesis using li that by (simp add: links_in_def)
    qed
    have "parent (heap t c) = Some new" "new \<in> live t" "live s \<subseteq> live t"
      using li sp(4) by (auto simp: links_in_def live_def)
    moreover have "parent (heap t new) = Some p" "con_type (heap t new) = CT_CON"
      using li sp(2) nc sf(5) sp(1) by (auto simp: links_in_def)
    ultimately show ?thesis using types parents by blast
  qed
  then show "live s \<subseteq> live t" "x \<in> live s \<Longrightarrow> con_type (heap t x) = con_type (heap s x)"
    "x \<in> live s \<Longrightarrow> x \<noteq> c \<Longrightarrow> parent (heap t x) = parent (heap s x)"
    "parent (heap t c) = Some p \<or>
      (\<exists>q \<in> live t. parent (heap t c) = Some q \<and> parent (heap t q) = Some p \<and> con_type (heap t q) = CT_CON)"
    by blast+
qed

text \<open>Opening a container below another one that is not a dock area.\<close>

lemma tree_open_con_grows:
  assumes wf: "wf_tree {} s" and p: "p \<in> live s" and nd: "con_type (heap s p) \<noteq> CT_DOCKAREA"
  shows "\<exists>nc t. tree_open_con (Some p) w s = Some (nc, t) \<and> wf_tree {} t \<and> grown s t \<and> nc \<in> live t \<and> nc \<notin> live s \<and>
    con_get_workspace t nc = con_get_workspace t p"
proof -
  let ?n = "next_id s" and ?a = "snd (con_alloc w s)"
  note al = con_alloc_wf[OF wf]
  have pa: "p \<in> live ?a" using p al(3) by simp
  have h: "heap ?a x = heap s x" if "x \<in> live s" for x
    using that al(2) by (auto simp: con_alloc_def)
  have hn: "heap ?a ?n = new_con (cfg s) w" by (simp add: con_alloc_def)
  have nsub: "p \<notin> subtree ?a ?n"
    using subtree_unfold[of ?n ?a] al(2,3,4) p by auto
  have dr: "dock_ready ?a ?n p" using nd h[OF p] by (simp add: dock_ready_def)
  from con_attach_total[of ?n "{}" ?a p False] al(1) pa nsub dr
  obtain u where u: "con_attach ?n p False ?a = Some u" "wf_tree {} u" by auto
  have fresh: "?n \<notin> {}" by simp
  have dk: "con_type (heap ?a p) = CT_DOCKAREA \<Longrightarrow> con_type (heap ?a ?n) \<noteq> CT_FLOATING_CON"
    using nd h[OF p] by simp
  note gr = attach_grows[OF u(1) al(1) fresh pa nsub dk]
  let ?t = "con_fix_percent p (upd ?n (\<lambda>n. n\<lparr>layout := L_SPLITH\<rparr>) (emit (X_Con_Init ?n) u))"
  have "same_links (upd ?n (\<lambda>n. n\<lparr>layout := L_SPLITH\<rparr>) (emit (X_Con_Init ?n) u)) ?t"
    by (rule con_fix_percent_links)
  moreover have "same_links (emit (X_Con_Init ?n) u) (upd ?n (\<lambda>n. n\<lparr>layout := L_SPLITH\<rparr>) (emit (X_Con_Init ?n) u))"
    by (rule same_links_upd) simp_all
  ultimately have sl: "same_links u ?t" using same_links_emit same_links_trans by blast
  have wt: "wf_tree {} ?t" using u(2) by (simp only: same_links_wf[OF sl])
  have nl: "?n \<in> live u" using gr(1) al(3) by blast
  have gu: "grown s u"
    unfolding grown_def using gr(1-3) al(2,3) h by auto
  have g: "grown s ?t" by (rule grown_trans[OF gu grown_links[OF sl]])
  have nt: "?n \<in> live ?t" using nl same_linksD[OF sl] by (simp add: live_def)
  have pu: "p \<in> live u" using gu p by (auto simp: grown_def)
  have tn: "con_type (heap u ?n) = CT_CON" using gr(2)[of ?n] al(3) hn by simp
  have "con_get_workspace u ?n = con_get_workspace u p"
    using gr(4)
  proof
    assume "parent (heap u ?n) = Some p"
    then show ?thesis using workspace_of_parent[OF u(2) nl] tn by simp
  next
    assume "\<exists>q \<in> live u. parent (heap u ?n) = Some q \<and> parent (heap u q) = Some p \<and> con_type (heap u q) = CT_CON"
    then obtain q where q: "q \<in> live u" "parent (heap u ?n) = Some q" "parent (heap u q) = Some p"
        "con_type (heap u q) = CT_CON" by blast
    have "con_get_workspace u ?n = con_get_workspace u q"
      using workspace_of_parent[OF u(2) nl q(2)] tn by simp
    also have "\<dots> = con_get_workspace u p" using workspace_of_parent[OF u(2) q(1,3)] q(4) by simp
    finally show ?thesis .
  qed
  then have ws: "con_get_workspace ?t ?n = con_get_workspace ?t p"
    by (simp add: same_links_workspace[OF sl])
  have "fst (con_alloc w s) = ?n" by (simp add: con_alloc_def)
  then have "con_new (Some p) w s = Some (?n, emit (X_Con_Init ?n) u)"
    using u(1) by (simp add: con_new_def con_new_skeleton_def case_prod_beta)
  then have "tree_open_con (Some p) w s = Some (?n, ?t)" by (simp add: tree_open_con_def)
  then show ?thesis using wt g nt al(2) ws by blast
qed

section \<open>Opening a window on a workspace\<close>

lemma open_on_workspace_spec:
  assumes wf: "wf_tree {} s" and ws: "ws \<in> live s" "con_type (heap s ws) = CT_WORKSPACE" and pl: "plain_below s ws"
  shows "\<exists>nc t. open_on_workspace ws win s = Some (nc, t) \<and> wf_tree {} t \<and> grown s t \<and> nc \<in> live t \<and> nc \<notin> live s \<and>
    con_get_workspace t nc = Some (Some ws)"
proof -
  obtain d where d: "con_descend_tiling_focused s ws = Some d" "d \<in> tiling_subtree s ws"
    using con_descend_tiling_focused_spec[OF wf ws(1)] by blast
  have dsub: "d \<in> subtree s ws" using d(2) tiling_subtree_sub by blast
  obtain p where p: "p \<in> subtree s ws"
      "open_on_workspace ws win s = tree_open_con (Some p) (Some win) s"
  proof (cases "d = ws")
    case True
    then show thesis using that[of ws] d(1) ws(2) by (simp add: open_on_workspace_def)
  next
    case False
    have "(d, ws) \<in> (child_rel s)\<^sup>*" using dsub by (simp add: subtree_def)
    with False obtain p where p: "(d, p) \<in> child_rel s" "(p, ws) \<in> (child_rel s)\<^sup>*"
      by (auto elim: converse_rtranclE)
    have "con_type (heap s d) \<noteq> CT_WORKSPACE" using pl dsub False by (auto simp: plain_below_def)
    then show thesis
      using that[of p] p child_rel_live(3)[OF wf p(1)] d(1) by (simp add: open_on_workspace_def subtree_def)
  qed
  have pl': "p \<in> live s" using p(1) subtree_live[OF wf ws(1)] by blast
  have nd: "con_type (heap s p) \<noteq> CT_DOCKAREA" using p(1) pl ws(2) by (auto simp: plain_below_def)
  from tree_open_con_grows[OF wf pl' nd, of "Some win"] obtain nc t where t:
    "tree_open_con (Some p) (Some win) s = Some (nc, t)" "wf_tree {} t" "grown s t" "nc \<in> live t" "nc \<notin> live s"
    "con_get_workspace t nc = con_get_workspace t p" by blast
  have "con_get_workspace t p = Some (Some ws)"
    using grown_workspace[OF wf t(2,3) pl'] workspace_of_below[OF wf ws(2) pl p(1)] by simp
  then show ?thesis using t p(2) by auto
qed

lemma workspace_is_visible_total:
  assumes "wf_tree {} s" and "ws \<in> live s" and "con_get_output s ws = Some out"
  shows "\<exists>b. workspace_is_visible s ws = Some b"
proof -
  obtain xs where xs: "up_chain s ws xs" "length xs \<le> up_fuel s" "set xs \<subseteq> live s"
    by (rule chain_of_live[OF assms(1,2)])
  then have "out \<in> live s"
    using assms(3) climb_chain[OF xs(1,2)] by (auto simp: con_get_output_def dest!: find_SomeD)
  from con_get_fullscreen_con_spec[OF assms(1) this] obtain r where
    "con_get_fullscreen_con s out CF_OUTPUT = Some r" by blast
  then show ?thesis using assms(3) by (simp add: workspace_is_visible_def)
qed

text \<open>
  A window that matches an assignment to an existing workspace is opened there, and becomes urgent
  when the workspace cannot be seen.
\<close>

lemma place_window_assigned:
  assumes wf: "wf_tree {} s" and ws: "ws \<in> live s" "con_type (heap s ws) = CT_WORKSPACE" and pl: "plain_below s ws"
    and out: "con_get_output s ws = Some out"
    and a: "workspace_assignment w as s win = Some (Some a)" "assigned_workspace w (a_dest a) s = Some (ws, s)"
  shows "\<exists>nc t vis. place_window w as win startup_ws urgency_hint s = Some (nc, urgency_hint \<or> \<not> vis, t) \<and>
    wf_tree {} t \<and> nc \<in> live t \<and> nc \<notin> live s \<and> con_get_workspace t nc = Some (Some ws) \<and>
    workspace_is_visible t ws = Some vis"
proof -
  obtain nc t where t: "open_on_workspace ws win s = Some (nc, t)" "wf_tree {} t" "grown s t" "nc \<in> live t"
      "nc \<notin> live s" "con_get_workspace t nc = Some (Some ws)"
    using open_on_workspace_spec[OF wf ws pl] by blast
  have "con_get_output t ws = Some out" using grown_output[OF wf t(2,3) ws(1)] out by simp
  moreover have "ws \<in> live t" using t(3) ws(1) by (auto simp: grown_def)
  ultimately obtain vis where "workspace_is_visible t ws = Some vis"
    using workspace_is_visible_total[OF t(2)] by blast
  then show ?thesis using a t by (auto simp: place_window_def)
qed

text \<open>Without an assignment, the desktop the window asks for comes before the workspace of its launch.\<close>

lemma place_window_desktop:
  assumes wf: "wf_tree {} s" and ws: "ws \<in> live s" "con_type (heap s ws) = CT_WORKSPACE" and pl: "plain_below s ws"
    and a: "workspace_assignment w as s win = Some None" "requested_desktop s win = Some (Some ws)"
  shows "\<exists>nc t. place_window w as win startup_ws urgency_hint s = Some (nc, urgency_hint, t) \<and>
    wf_tree {} t \<and> nc \<in> live t \<and> nc \<notin> live s \<and> con_get_workspace t nc = Some (Some ws)"
  using open_on_workspace_spec[OF wf ws pl, of win] a by (auto simp: place_window_def)

lemma place_window_startup:
  assumes wf: "wf_tree {} s" and ws: "ws \<in> live s" "con_type (heap s ws) = CT_WORKSPACE" and pl: "plain_below s ws"
    and a: "workspace_assignment w as s win = Some None" "requested_desktop s win = Some None"
    and name: "get_existing_workspace_by_name s name = Some (Some ws)"
  shows "\<exists>nc t. place_window w as win (Some name) urgency_hint s = Some (nc, urgency_hint, t) \<and>
    wf_tree {} t \<and> nc \<in> live t \<and> nc \<notin> live s \<and> con_get_workspace t nc = Some (Some ws)"
  using open_on_workspace_spec[OF wf ws pl, of win] a name
  by (auto simp: place_window_def workspace_get_def)

end
