(* ===== verification/Randr_Query.thy ===== *)
theory Randr_Query
  imports Workspace_Ops Scratchpad
begin

text \<open>
  Following the screens (src/randr.c): what the RandR extension reports becomes the list of outputs,
  every active output gets a container with dock areas and at least one workspace, and the workspaces
  of an output that disappears move to the first one.  The replies of the X server are arguments.  The
  state is the environment, which holds the outputs, and the tree; an output is changed in place, so
  the loops go over the positions in the list.  The output of the root window is the one with
  identifier 0 and the name \<open>xroot-0\<close>.
\<close>

type_synonym screens = "env \<times> i3"

definition root_name :: string where "root_name = ''xroot-0''"

definition create_root_output :: "env \<Rightarrow> xoutput" where
  "create_root_output e =
     \<lparr>out_id = 0, active = False, changed = False, to_be_disabled = False, primary = False,
      names_head = [root_name], out_con = None, out_rect = mk_rect 0 0 (root_width e) (root_height e)\<rparr>"

definition is_root_output :: "xoutput \<Rightarrow> bool" where
  "is_root_output out \<longleftrightarrow> names_head out = [root_name]"

definition upd_output :: "nat \<Rightarrow> (xoutput \<Rightarrow> xoutput) \<Rightarrow> env \<Rightarrow> env" where
  "upd_output k f e = (if k < length (outputs e) then e\<lparr>outputs := (outputs e)[k := f (outputs e ! k)]\<rparr> else e)"

text \<open>\<open>TAILQ_FOREACH\<close> over the outputs, whose number does not change in the loop.\<close>

definition each_output :: "(nat \<Rightarrow> screens \<Rightarrow> screens option) \<Rightarrow> screens \<Rightarrow> screens option" where
  "each_output f = (\<lambda>(e, s). fold_opt f [0..<length (outputs e)] (e, s))"

section \<open>The container of an output\<close>

definition dock_match :: "match_dock \<Rightarrow> match" where
  "dock_match d = match_init\<lparr>m_dock := d, insert_where := M_BELOW\<rparr>"

definition add_dockarea :: "string \<Rightarrow> match_dock \<Rightarrow> con_id \<Rightarrow> string \<Rightarrow> i3 \<Rightarrow> i3 option" where
  "add_dockarea name d con title s = do {
     (dock, s) \<leftarrow> con_new None None s;
     let s = upd dock (\<lambda>n. n\<lparr>con_type := CT_DOCKAREA, layout := L_DOCKAREA,
       swallow_head := swallow_head n @ [dock_match d], con_name := Some name\<rparr>) s;
     con_attach dock con False (emit (X_Set_Name dock title) s)
   }"

definition add_content :: "con_id \<Rightarrow> string \<Rightarrow> i3 \<Rightarrow> (con_id \<times> i3) option" where
  "add_content con title s = do {
     (content, s) \<leftarrow> con_new None None s;
     let s = upd content (\<lambda>n. n\<lparr>con_type := CT_CON, layout := L_SPLITH, con_name := Some ''content''\<rparr>) s;
     s \<leftarrow> con_attach content con False (emit (X_Set_Name content title) s);
     Some (content, s)
   }"

text \<open>An output container that is already there, from a restored layout, is used again.\<close>

definition output_primary :: "xoutput \<Rightarrow> string option" where
  "output_primary out = list_first (names_head out)"

definition find_output_con :: "string \<Rightarrow> i3 \<Rightarrow> con_id option option" where
  "find_output_con name s =
     first_opt (\<lambda>c. map_option (\<lambda>n. if n = name then Some c else None) (con_name (heap s c)))
       (nodes_head (heap s (croot s)))"

definition output_init_con :: "nat \<Rightarrow> screens \<Rightarrow> screens option" where
  "output_init_con k = (\<lambda>(e, s). do {
     let out = outputs e ! k;
     name \<leftarrow> output_primary out;
     existing \<leftarrow> find_output_con name s;
     (con, s) \<leftarrow> (case existing of
         Some c \<Rightarrow> Some (c, s)
       | None \<Rightarrow> do {
           (c, s) \<leftarrow> con_new (Some (croot s)) None s;
           let s = upd c (\<lambda>n. n\<lparr>con_name := Some name, con_type := CT_OUTPUT, layout := L_OUTPUT\<rparr>) s;
           Some (c, con_fix_percent (croot s) s)
         });
     let s = set_rect con (out_rect out) s;
     let e = upd_output k (\<lambda>out. out\<lparr>out_con := Some con\<rparr>) e;
     let s = emit (X_Set_Name con (''[i3 con] output '' @ name)) s;
     if existing \<noteq> None then Some (e, s)
     else do {
       s \<leftarrow> add_dockarea ''topdock'' M_DOCK_TOP con (''[i3 con] top dockarea '' @ name) s;
       (content, s) \<leftarrow> add_content con (''[i3 con] content '' @ name) s;
       s \<leftarrow> add_dockarea ''bottomdock'' M_DOCK_BOTTOM con (''[i3 con] bottom dockarea '' @ name) s;
       Some (e, upd con (\<lambda>n. n\<lparr>focus_head := content # remove1 content (focus_head n)\<rparr>) s)
     }
   })"

section \<open>Workspaces for an output\<close>

text \<open>
  The workspaces assigned to the output come first, then the first assignment it triggers, then a
  free name.  The loop goes over \<open>all_cons\<close>, which only grows at its end meanwhile, and shrinks when
  a workspace that has become empty is closed.
\<close>

definition move_assigned :: "xoutput \<Rightarrow> con_id \<Rightarrow> con_id \<Rightarrow> env \<Rightarrow> con_id \<Rightarrow> i3 \<Rightarrow> i3 option" where
  "move_assigned out oc content e c s =
     (if con_type (heap s c) \<noteq> CT_WORKSPACE then Some s
      else do {
        internal \<leftarrow> con_is_internal s c;
        if internal then Some s
        else if get_assigned_output (outputs e) (ws_assignments e) (con_name (heap s c)) (ws_num (heap s c)) \<noteq> Some oc
        then Some s
        else workspace_move_to_output e c out (set_rect content (con_rect (heap s oc)) s)
      })"

fun move_assigned_loop :: "nat \<Rightarrow> (con_id \<Rightarrow> i3 \<Rightarrow> i3 option) \<Rightarrow> con_id option \<Rightarrow> i3 \<Rightarrow> i3 option" where
  "move_assigned_loop n f None s = Some s"
| "move_assigned_loop 0 f (Some c) s = None"
| "move_assigned_loop (Suc n) f (Some c) s = do {
     s \<leftarrow> f c s;
     c \<leftarrow> deref s c;
     move_assigned_loop n f (next_of c (all_cons s)) s
   }"

text \<open>Each workspace that is moved creates at most one container, and a new one is not moved again.\<close>

definition scan_fuel :: "i3 \<Rightarrow> nat" where "scan_fuel s = 2 * length (all_cons s) + 2"

definition first_visible :: "con_id list \<Rightarrow> i3 \<Rightarrow> con_id option" where
  "first_visible cs s = List.find (\<lambda>c. fullscreen_mode (heap s c) = CF_OUTPUT) cs"

definition init_ws_for_output :: "nat \<Rightarrow> screens \<Rightarrow> i3 option" where
  "init_ws_for_output k = (\<lambda>(e, s). do {
     let out = outputs e ! k;
     oc \<leftarrow> out_con out;
     content \<leftarrow> output_get_content s oc;
     f \<leftarrow> focused s;
     previous_focus \<leftarrow> con_get_workspace s f;
     s \<leftarrow> move_assigned_loop (scan_fuel s) (move_assigned out oc content e) (list_first (all_cons s)) s;
     let s = s\<lparr>focused := Some content\<rparr>;
     let wss = nodes_head (heap s content);
     s \<leftarrow> (case wss of
         ws # _ \<Rightarrow> if first_visible wss s = None then workspace_show ws s else Some s
       | [] \<Rightarrow>
           (case List.find (output_triggers_assignment (outputs e) (ws_assignments e) out) (ws_assignments e) of
              Some a \<Rightarrow> workspace_show_by_name e (asg_name a) s
            | None \<Rightarrow> do { (ws, s) \<leftarrow> create_workspace_on_output e out content s; workspace_show ws s }));
     (case previous_focus of None \<Rightarrow> Some s | Some ws \<Rightarrow> workspace_show ws s)
   })"

section \<open>A new mode\<close>

text \<open>Without a default orientation, workspaces with one child at most follow the shape of the output.\<close>

definition orient_workspace :: "rect \<Rightarrow> con_id \<Rightarrow> i3 \<Rightarrow> i3" where
  "orient_workspace r ws s =
     (if con_num_children s ws > 1 then s
      else let l = (if rheight r > rwidth r then L_SPLITV else L_SPLITH);
               s = upd ws (\<lambda>n. n\<lparr>layout := l\<rparr>) s
           in case nodes_head (heap s ws) of
                [] \<Rightarrow> s
              | c # _ \<Rightarrow> upd c (\<lambda>n. if layout n = L_SPLITV \<or> layout n = L_SPLITH then n\<lparr>layout := l\<rparr> else n) s)"

definition output_change_mode :: "nat \<Rightarrow> screens \<Rightarrow> i3 option" where
  "output_change_mode k = (\<lambda>(e, s). do {
     let out = outputs e ! k;
     oc \<leftarrow> out_con out;
     oc \<leftarrow> deref s oc;
     let s = set_rect oc (out_rect out) s;
     content \<leftarrow> output_get_content s oc;
     s \<leftarrow> fold_opt (\<lambda>ws s. fold_opt (\<lambda>c s.
         floating_fix_coordinates c (con_rect (heap s ws)) (con_rect (heap s oc)) s)
       (floating_head (heap s ws)) s) (nodes_head (heap s content)) s;
     Some (if default_orientation (cfg s) = NO_ORIENTATION
       then fold (orient_workspace (out_rect out)) (nodes_head (heap s content)) s else s)
   })"

section \<open>An output disappears\<close>

text \<open>
  Its workspaces move to the first output, except that empty ones without the focus are closed.  Each
  turn takes one workspace away from the old output.
\<close>

definition move_one_workspace :: "con_id \<Rightarrow> con_id \<Rightarrow> con_id \<Rightarrow> con_id option \<Rightarrow> con_id \<Rightarrow> i3 \<Rightarrow> i3 option" where
  "move_one_workspace con first first_content next c s =
     (if Some c \<noteq> next \<and> focus_head (heap s c) = []
      then map_option snd (tree_close_internal c DONT_KILL_WINDOW False s)
      else do {
        s \<leftarrow> con_detach c s;
        s \<leftarrow> con_attach c first_content False s;
        fold_opt (\<lambda>f s. floating_fix_coordinates f (con_rect (heap s con)) (con_rect (heap s first)) s)
          (floating_head (heap s c)) s
      })"

fun empty_nodes :: "nat \<Rightarrow> (con_id \<Rightarrow> i3 \<Rightarrow> i3 option) \<Rightarrow> con_id \<Rightarrow> i3 \<Rightarrow> i3 option" where
  "empty_nodes 0 f p s = None"
| "empty_nodes (Suc n) f p s =
     (case nodes_head (heap s p) of [] \<Rightarrow> Some s | c # _ \<Rightarrow> do { s \<leftarrow> f c s; empty_nodes n f p s })"

definition move_dock :: "(string \<Rightarrow> string \<Rightarrow> bool) \<Rightarrow> con_id \<Rightarrow> con_id \<Rightarrow> i3 \<Rightarrow> i3 option" where
  "move_dock rm first dock s = do {
     win \<leftarrow> con_window (heap s dock);
     r \<leftarrow> con_for_window rm s first win;
     (nc, m) \<leftarrow> r;
     s \<leftarrow> con_detach dock s;
     con_attach dock nc False s
   }"

definition move_content :: "(string \<Rightarrow> string \<Rightarrow> bool) \<Rightarrow> env \<Rightarrow> con_id \<Rightarrow> i3 \<Rightarrow> i3 option" where
  "move_content rm e con s = do {
     out \<leftarrow> get_first_output (outputs e);
     first \<leftarrow> out_con out;
     first_content \<leftarrow> output_get_content s first;
     let next = focused s;
     old_content \<leftarrow> output_get_content s con;
     s \<leftarrow> empty_nodes (up_fuel s) (move_one_workspace con first first_content next) old_content s;
     s \<leftarrow> (case next of
         None \<Rightarrow> Some s
       | Some c \<Rightarrow> do {
           c \<leftarrow> deref s c;
           s \<leftarrow> con_focus c s;
           ws \<leftarrow> con_get_workspace s c;
           ws \<leftarrow> ws;
           workspace_show ws s
         });
     s \<leftarrow> fold_opt (\<lambda>c s. if con_type (heap s c) \<noteq> CT_DOCKAREA then Some s
         else empty_nodes (up_fuel s) (move_dock rm first) c s) (nodes_head (heap s con)) s;
     map_option snd (tree_close_internal con DONT_KILL_WINDOW True s)
   }"

definition randr_disable_output :: "(string \<Rightarrow> string \<Rightarrow> bool) \<Rightarrow> nat \<Rightarrow> screens \<Rightarrow> screens option" where
  "randr_disable_output rm k = (\<lambda>(e, s).
     if \<not> to_be_disabled (outputs e ! k) then None
     else do {
       let con = out_con (outputs e ! k);
       let e = upd_output k (\<lambda>out. out\<lparr>active := False, out_con := None\<rparr>) e;
       s \<leftarrow> (case con of None \<Rightarrow> Some s | Some c \<Rightarrow> move_content rm e c s);
       Some (upd_output k (\<lambda>out. out\<lparr>to_be_disabled := False, changed := False\<rparr>) e, s)
     })"

section \<open>What RandR reports\<close>

text \<open>
  A monitor of RandR 1.5, with the names of its outputs that have a CRTC; the name is \<open>None\<close> when its
  atom could not be read.  An output of RandR 1.4 has the geometry of its CRTC: none, one that could
  not be read, or a rectangle.
\<close>

record monitor =
  mon_name :: "string option"
  mon_outputs :: "string list"
  mon_primary :: bool
  mon_rect :: rect

datatype crtc = No_Crtc | Crtc_Failed | Crtc rect

record randr_output =
  ro_id :: nat
  ro_name :: string
  ro_crtc :: crtc

text \<open>A primary output is put in front of the others.\<close>

definition insert_output :: "xoutput \<Rightarrow> xoutput list \<Rightarrow> xoutput list" where
  "insert_output out outs = (if primary out then out # outs else outs @ [out])"

definition index_by :: "('a \<Rightarrow> bool) \<Rightarrow> 'a list \<Rightarrow> nat option" where
  "index_by P xs = List.find (\<lambda>k. P (xs ! k)) [0..<length xs]"

text \<open>The position of the output that \<open>get_output_by_name\<close> without \<open>require_active\<close> finds.\<close>

definition output_named :: "string \<Rightarrow> xoutput \<Rightarrow> bool" where
  "output_named name out \<longleftrightarrow>
     primary out \<and> strcasecmp ''primary'' name = 0 \<or> \<not> primary out \<and> strcasecmp ''nonprimary'' name = 0 \<or>
     (\<exists>n \<in> set (names_head out). strcasecmp n name = 0)"

definition fresh_output :: "nat \<Rightarrow> string list \<Rightarrow> bool \<Rightarrow> xoutput" where
  "fresh_output i names pr =
     \<lparr>out_id = i, active = False, changed = False, to_be_disabled = False, primary = pr,
      names_head = names, out_con = None, out_rect = mk_rect 0 0 0 0\<rparr>"

text \<open>The names of a new monitor: its own first, then those of its outputs, the last one first.\<close>

definition monitor_names :: "string \<Rightarrow> string list \<Rightarrow> string list" where
  "monitor_names name outs = name # rev (filter (\<lambda>n. n \<noteq> name) outs)"

definition show_monitor :: "monitor \<Rightarrow> xoutput \<Rightarrow> xoutput" where
  "show_monitor mon out =
     out\<lparr>active := True, to_be_disabled := False, primary := mon_primary mon,
       changed := (out_rect out \<noteq> mon_rect mon), out_rect := mon_rect mon\<rparr>"

definition handle_monitor :: "monitor \<Rightarrow> xoutput list \<Rightarrow> xoutput list" where
  "handle_monitor mon outs =
     (case mon_name mon of
        None \<Rightarrow> outs
      | Some name \<Rightarrow>
          (case index_by (output_named name) outs of
             Some k \<Rightarrow> outs[k := show_monitor mon (outs ! k)]
           | None \<Rightarrow> insert_output (show_monitor mon (fresh_output 0 (monitor_names name (mon_outputs mon)) (mon_primary mon))) outs))"

definition randr_query_outputs_15 :: "monitor list \<Rightarrow> xoutput list \<Rightarrow> xoutput list" where
  "randr_query_outputs_15 mons outs =
     fold handle_monitor mons
       (map (\<lambda>out. if is_root_output out then out else out\<lparr>to_be_disabled := True\<rparr>) outs)"

text \<open>
  \<open>handle_output\<close>.  When the CRTC cannot be read, the output is freed, but a known one stays in the
  list: the next access to it reads freed memory, so the query fails here.
\<close>

definition handle_output :: "nat option \<Rightarrow> randr_output \<Rightarrow> xoutput list \<Rightarrow> xoutput list option" where
  "handle_output primary_id ro outs =
     (let pr = (primary_id = Some (ro_id ro));
          k = index_by (\<lambda>out. out_id out = ro_id ro) outs;
          new = (case k of Some k \<Rightarrow> (outs ! k)\<lparr>primary := pr, names_head := [ro_name ro]\<rparr>
                 | None \<Rightarrow> fresh_output (ro_id ro) [ro_name ro] pr)
      in case ro_crtc ro of
           No_Crtc \<Rightarrow>
             Some (case k of
                 None \<Rightarrow> insert_output new outs
               | Some k \<Rightarrow> outs[k := (if active new then new\<lparr>to_be_disabled := True\<rparr> else new)])
         | Crtc_Failed \<Rightarrow> (case k of None \<Rightarrow> Some outs | Some _ \<Rightarrow> None)
         | Crtc r \<Rightarrow>
             (let updated = (out_rect new \<noteq> r);
                  on = (rwidth r \<noteq> 0 \<and> rheight r \<noteq> 0);
                  new = new\<lparr>out_rect := r, active := on\<rparr>
              in Some (case k of
                   None \<Rightarrow> if on then insert_output new outs else outs
                 | Some k \<Rightarrow> outs[k := (if on \<and> updated then new\<lparr>changed := True\<rparr> else new)])))"

text \<open>The outputs whose information could not be read are not in the list \<open>ros\<close>.\<close>

definition randr_query_outputs_14 :: "nat option \<Rightarrow> randr_output list option \<Rightarrow> xoutput list \<Rightarrow> xoutput list option" where
  "randr_query_outputs_14 primary_id ros outs =
     (case ros of None \<Rightarrow> Some outs | Some ros \<Rightarrow> fold_opt (handle_output primary_id) ros outs)"

section \<open>Clones\<close>

text \<open>
  Outputs at the same position show the same; the first of them gets the lowest common mode and the
  others are disabled.
\<close>

definition usable :: "xoutput \<Rightarrow> bool" where
  "usable out \<longleftrightarrow> active out \<and> \<not> to_be_disabled out"

definition same_position :: "xoutput \<Rightarrow> xoutput \<Rightarrow> bool" where
  "same_position a b \<longleftrightarrow> rx (out_rect a) = rx (out_rect b) \<and> ry (out_rect a) = ry (out_rect b)"

definition min_mode :: "xoutput \<Rightarrow> xoutput \<Rightarrow> rect" where
  "min_mode a b = (out_rect a)\<lparr>rwidth := min (rwidth (out_rect b)) (rwidth (out_rect a)),
     rheight := min (rheight (out_rect b)) (rheight (out_rect a))\<rparr>"

definition merge_clone :: "xoutput \<Rightarrow> xoutput \<Rightarrow> xoutput \<times> xoutput" where
  "merge_clone out other =
     (let r = min_mode out other in
      (out\<lparr>changed := (changed out \<or> r \<noteq> out_rect out), out_rect := r\<rparr>,
       other\<lparr>out_rect := r, to_be_disabled := True\<rparr>))"

fun merge_clones_of :: "xoutput \<Rightarrow> xoutput list \<Rightarrow> xoutput \<times> xoutput list" where
  "merge_clones_of out [] = (out, [])"
| "merge_clones_of out (b # bs) =
     (if \<not> usable b \<or> \<not> same_position b out
      then let (out, bs) = merge_clones_of out bs in (out, b # bs)
      else let m = merge_clone out b; (out, bs) = merge_clones_of (fst m) bs in (out, snd m # bs))"

lemma length_merge_clones_of: "length (snd (merge_clones_of out bs)) = length bs"
  by (induction bs arbitrary: out) (auto simp: case_prod_beta Let_def)

function merge_clones :: "xoutput list \<Rightarrow> xoutput list" where
  "merge_clones [] = []"
| "merge_clones (out # outs) =
     (if \<not> usable out then out # merge_clones outs
      else fst (merge_clones_of out outs) # merge_clones (snd (merge_clones_of out outs)))"
  by pat_completeness auto
termination by (relation "measure length") (simp_all add: length_merge_clones_of)

section \<open>The query\<close>

definition enable_root :: "xoutput list \<Rightarrow> xoutput list option" where
  "enable_root outs =
     (if \<exists>out \<in> set outs. \<not> is_root_output out \<and> \<not> to_be_disabled out \<and> active out
      then Some (map (\<lambda>out. if is_root_output out \<and> active out then out\<lparr>to_be_disabled := True\<rparr> else out) outs)
      else if \<exists>out \<in> set outs. is_root_output out
      then Some (map (\<lambda>out. if is_root_output out then out\<lparr>active := True\<rparr> else out) outs)
      else None)"

definition ensure_con :: "nat \<Rightarrow> screens \<Rightarrow> screens option" where
  "ensure_con k = (\<lambda>(e, s).
     if active (outputs e ! k) \<and> out_con (outputs e ! k) = None
     then map_option (\<lambda>(e, s). (upd_output k (\<lambda>out. out\<lparr>changed := False\<rparr>) e, s)) (output_init_con k (e, s))
     else Some (e, s))"

text \<open>The containers of outputs that are not known any more; the next one is read before.\<close>

fun drop_unknown :: "nat \<Rightarrow> (string \<Rightarrow> string \<Rightarrow> bool) \<Rightarrow> env \<Rightarrow> con_id option \<Rightarrow> i3 \<Rightarrow> i3 option" where
  "drop_unknown n rm e None s = Some s"
| "drop_unknown 0 rm e (Some c) s = None"
| "drop_unknown (Suc n) rm e (Some c) s = do {
     c \<leftarrow> deref s c;
     let next = next_of c (nodes_head (heap s (croot s)));
     internal \<leftarrow> con_is_internal s c;
     s \<leftarrow> (if internal then Some s
         else do {
           name \<leftarrow> con_name (heap s c);
           if get_output_by_name (outputs e) name True = None then move_content rm e c s else Some s
         });
     drop_unknown n rm e next s
   }"

definition apply_change :: "(string \<Rightarrow> string \<Rightarrow> bool) \<Rightarrow> nat \<Rightarrow> screens \<Rightarrow> screens option" where
  "apply_change rm k es = do {
     es \<leftarrow> (if to_be_disabled (outputs (fst es) ! k) then randr_disable_output rm k es else Some es);
     if changed (outputs (fst es) ! k)
     then do {
       s \<leftarrow> output_change_mode k es;
       Some (upd_output k (\<lambda>out. out\<lparr>changed := False\<rparr>) (fst es), s)
     }
     else Some es
   }"

definition ensure_workspace :: "nat \<Rightarrow> screens \<Rightarrow> screens option" where
  "ensure_workspace k = (\<lambda>(e, s).
     if \<not> active (outputs e ! k) then Some (e, s)
     else do {
       oc \<leftarrow> out_con (outputs e ! k);
       oc \<leftarrow> deref s oc;
       content \<leftarrow> output_get_content s oc;
       if nodes_head (heap s content) \<noteq> [] then Some (e, s)
       else map_option (Pair e) (init_ws_for_output k (e, s))
     })"

definition focus_primary :: "nat \<Rightarrow> screens \<Rightarrow> screens option" where
  "focus_primary k = (\<lambda>(e, s).
     case (primary (outputs e ! k), out_con (outputs e ! k)) of
       (True, Some oc) \<Rightarrow> do {
         oc \<leftarrow> deref s oc;
         content \<leftarrow> output_get_content s oc;
         ws \<leftarrow> list_first (focus_head (heap s content));
         map_option (Pair e) (workspace_show ws s)
       }
     | _ \<Rightarrow> Some (e, s))"

text \<open>\<open>reported\<close> is the list of outputs after one of the two queries.\<close>

definition randr_query_outputs ::
  "(string \<Rightarrow> string \<Rightarrow> bool) \<Rightarrow> xoutput list \<Rightarrow> screens \<Rightarrow> screens option" where
  "randr_query_outputs rm reported = (\<lambda>(e, s). do {
     outs \<leftarrow> enable_root reported;
     let e = e\<lparr>outputs := merge_clones outs\<rparr>;
     (e, s) \<leftarrow> each_output ensure_con (e, s);
     s \<leftarrow> drop_unknown (up_fuel s) rm e (list_first (nodes_head (heap s (croot s)))) s;
     (e, s) \<leftarrow> each_output (apply_change rm) (e, s);
     (e, s) \<leftarrow> each_output ensure_workspace (e, s);
     (e, s) \<leftarrow> each_output focus_primary (e, s);
     s \<leftarrow> tree_render (emit Ewmh_Update_Desktop_Properties s);
     Some (e, s)
   })"

definition fallback_to_root_output :: "nat \<Rightarrow> screens \<Rightarrow> screens option" where
  "fallback_to_root_output k = (\<lambda>(e, s). do {
     (e, s) \<leftarrow> output_init_con k (upd_output k (\<lambda>out. out\<lparr>active := True\<rparr>) e, s);
     s \<leftarrow> init_ws_for_output k (e, s);
     Some (e, s)
   })"

text \<open>RandR 1.5 is used for versions whose minor number is at least 5.\<close>

definition has_randr_1_5 :: "nat \<Rightarrow> nat \<Rightarrow> bool \<Rightarrow> bool" where
  "has_randr_1_5 major minor disable_randr15 \<longleftrightarrow> major \<ge> 1 \<and> minor \<ge> 5 \<and> \<not> disable_randr15"

section \<open>Facts\<close>

text \<open>After the clones have been merged, no two usable outputs are at the same position.\<close>

lemma merge_clone_facts [simp]:
  "same_position (fst (merge_clone out b)) c = same_position out c"
  "usable (fst (merge_clone out b)) = usable out" "\<not> usable (snd (merge_clone out b))"
  by (simp_all add: merge_clone_def Let_def min_mode_def same_position_def usable_def)

lemma merge_clones_of_first:
  "same_position (fst (merge_clones_of out bs)) c = same_position out c"
  "usable (fst (merge_clones_of out bs)) = usable out"
  by (induction bs arbitrary: out) (simp_all add: case_prod_beta Let_def)

lemma merge_clones_of_rest:
  "b \<in> set (snd (merge_clones_of out bs)) \<Longrightarrow> usable b \<Longrightarrow> b \<in> set bs \<and> \<not> same_position out b"
proof (induction bs arbitrary: out)
  case (Cons c bs)
  show ?case
  proof (cases "\<not> usable c \<or> \<not> same_position c out")
    case True
    then show ?thesis using Cons by (auto simp: case_prod_beta Let_def same_position_def)
  next
    case False
    then have "b \<in> set (snd (merge_clones_of (fst (merge_clone out c)) bs))"
      using Cons.prems by (auto simp: case_prod_beta Let_def)
    from Cons.IH[OF this Cons.prems(2)] show ?thesis by simp
  qed
qed simp

lemma merge_clones_usable: "b \<in> set (merge_clones outs) \<Longrightarrow> usable b \<Longrightarrow>
    \<exists>a \<in> set outs. usable a \<and> same_position a b"
proof (induction outs rule: merge_clones.induct)
  case (2 out outs)
  show ?case
  proof (cases "usable out")
    case True
    show ?thesis
    proof (cases "b = fst (merge_clones_of out outs)")
      case True
      then have "same_position out b"
        using merge_clones_of_first(1)[of out outs b] by (simp add: same_position_def)
      then show ?thesis using \<open>usable out\<close> by auto
    next
      case False
      then have "b \<in> set (merge_clones (snd (merge_clones_of out outs)))" using "2.prems" True by simp
      then obtain a where a: "a \<in> set (snd (merge_clones_of out outs))" "usable a" "same_position a b"
        using 2 True by blast
      then show ?thesis using merge_clones_of_rest[OF a(1,2)] by auto
    qed
  next
    case False
    then show ?thesis using 2 by auto
  qed
qed simp

lemma merge_clones_distinct_positions:
  "sorted_wrt (\<lambda>a b. usable a \<longrightarrow> usable b \<longrightarrow> \<not> same_position a b) (merge_clones outs)"
proof (induction outs rule: merge_clones.induct)
  case (2 out outs)
  show ?case
  proof (cases "usable out")
    case True
    let ?out = "fst (merge_clones_of out outs)" and ?rest = "snd (merge_clones_of out outs)"
    have "\<not> same_position ?out b" if b: "b \<in> set (merge_clones ?rest)" "usable b" for b
    proof -
      obtain a where a: "a \<in> set ?rest" "usable a" "same_position a b"
        using merge_clones_usable[OF b] by blast
      then have "\<not> same_position out a" using merge_clones_of_rest by blast
      then show ?thesis using a(3) merge_clones_of_first(1)[of out outs b] by (simp add: same_position_def)
    qed
    then show ?thesis using 2 True by auto
  next
    case False
    then show ?thesis using 2 by auto
  qed
qed simp

lemma length_merge_clones: "length (merge_clones outs) = length outs"
  by (induction outs rule: merge_clones.induct) (simp_all add: length_merge_clones_of)

text \<open>
  An output whose CRTC has the size 0 becomes inactive, but neither loses its container nor is marked
  to be disabled.  Its container is then destroyed as that of an unknown output, and the pointer
  dangles.
\<close>

lemma mode_0_keeps_con:
  assumes "index_by (\<lambda>out. out_id out = ro_id ro) outs = Some k" and "k < length outs"
    and "ro_crtc ro = Crtc r" and "rwidth r = 0"
  shows "\<exists>outs'. handle_output pid ro outs = Some outs' \<and> \<not> active (outs' ! k) \<and>
    out_con (outs' ! k) = out_con (outs ! k) \<and> to_be_disabled (outs' ! k) = to_be_disabled (outs ! k)"
  using assms by (simp add: handle_output_def Let_def)

text \<open>After the query there is always an output that shows something.\<close>

lemma enable_root_active:
  assumes "enable_root outs = Some outs'"
  shows "\<exists>out \<in> set outs'. active out \<and> (is_root_output out \<or> \<not> to_be_disabled out)"
proof (cases "\<exists>out \<in> set outs. \<not> is_root_output out \<and> \<not> to_be_disabled out \<and> active out")
  case True
  then obtain out where out: "out \<in> set outs" "\<not> is_root_output out" "\<not> to_be_disabled out" "active out"
    by blast
  have outs': "outs' = map (\<lambda>out. if is_root_output out \<and> active out then out\<lparr>to_be_disabled := True\<rparr> else out) outs"
    using assms by (simp only: enable_root_def True if_True option.inject)
  have "out \<in> set outs'" unfolding outs' using out by (auto intro!: image_eqI[of _ _ out])
  with out show ?thesis by blast
next
  case False
  then obtain r where r: "r \<in> set outs" "is_root_output r"
      "outs' = map (\<lambda>out. if is_root_output out then out\<lparr>active := True\<rparr> else out) outs"
    using assms unfolding enable_root_def by (auto split: if_splits)
  have "r\<lparr>active := True\<rparr> \<in> set outs'" using r by (auto intro!: image_eqI[of _ _ r])
  then show ?thesis using r(2) by (intro bexI[of _ "r\<lparr>active := True\<rparr>"]) (simp_all add: is_root_output_def)
qed

end
