(* ===== verification/Handlers.thy ===== *)
theory Handlers
  imports Manage Randr_Query
begin

text \<open>
  The event handlers (src/handlers.c): which events are ignored, and what pointer movements, requests
  and messages of clients, changed properties, unmapped windows and changed screens do to the tree.
  An event names the root window, the frame of a container or a client's window (\<open>xtarget\<close>).  What
  a handler asks the X server about is part of the event.  Calls with no effect on the tree are
  effects.
\<close>

section \<open>State\<close>

text \<open>A response type of \<open>None\<close> stands for -1: the sequence is ignored for all types.\<close>

record ignore_event =
  ign_sequence :: nat
  ign_type :: "nat option"
  ign_added :: nat

record xstate =
  xworld :: world
  xcalls :: calls
  root_depth :: nat
  xmgr :: manager
  ignored :: "ignore_event list"

type_synonym handler = "xstate \<Rightarrow> xstate option"

datatype xtarget = Root_Window | Frame con_id | Client window_id

definition xtree :: "xstate \<Rightarrow> i3" where "xtree h = tree_of (xmgr h)"

definition on_x :: "(i3 \<Rightarrow> i3 option) \<Rightarrow> handler" where
  "on_x f h = map_option (\<lambda>m. h\<lparr>xmgr := m\<rparr>) (on_tree f (xmgr h))"

definition on_mgr :: "(manager \<Rightarrow> manager option) \<Rightarrow> handler" where
  "on_mgr f h = map_option (\<lambda>m. h\<lparr>xmgr := m\<rparr>) (f (xmgr h))"

definition xemit :: "effect \<Rightarrow> xstate \<Rightarrow> xstate" where
  "xemit e h = h\<lparr>xmgr := with_tree (emit e (xtree h)) (xmgr h)\<rparr>"

definition xenv :: "xstate \<Rightarrow> env" where "xenv h = the_env (xworld h)"

definition con_by_frame_id :: "i3 \<Rightarrow> xtarget \<Rightarrow> con_id option" where
  "con_by_frame_id s t = (case t of Frame c \<Rightarrow> deref s c | _ \<Rightarrow> None)"

definition con_by_client :: "i3 \<Rightarrow> xtarget \<Rightarrow> con_id option" where
  "con_by_client s t = (case t of Client i \<Rightarrow> con_by_window_id s i | _ \<Rightarrow> None)"

section \<open>Ignored events\<close>

definition NOTIFY_ENTER :: nat where "NOTIFY_ENTER = 7"

definition add_ignore_event :: "nat \<Rightarrow> nat \<Rightarrow> nat option \<Rightarrow> ignore_event list \<Rightarrow> ignore_event list" where
  "add_ignore_event now sequence response_type igs =
     \<lparr>ign_sequence = sequence, ign_type = response_type, ign_added = now\<rparr> # igs"

definition event_is_ignored :: "nat \<Rightarrow> nat \<Rightarrow> nat \<Rightarrow> ignore_event list \<Rightarrow> bool \<times> ignore_event list" where
  "event_is_ignored now sequence response_type igs =
     (let igs = filter (\<lambda>i. \<not> now - ign_added i > 5) igs in
      (list_ex (\<lambda>i. ign_sequence i = sequence \<and> (ign_type i = None \<or> ign_type i = Some response_type)) igs, igs))"

section \<open>The pointer\<close>

definition check_crossing_screen_boundary :: "u32 \<Rightarrow> u32 \<Rightarrow> env \<Rightarrow> i3 \<Rightarrow> i3 option" where
  "check_crossing_screen_boundary x y e s =
     (if disable_focus_follows_mouse (cfg s) then Some s
      else case get_output_containing (outputs e) x y of
        None \<Rightarrow> Some s
      | Some out \<Rightarrow>
          (case out_con out of
             None \<Rightarrow> Some s
           | Some oc \<Rightarrow> do {
               content \<leftarrow> output_get_content s oc;
               next \<leftarrow> con_descend_focused s content;
               ws \<leftarrow> con_get_workspace s next;
               ws \<leftarrow> ws;
               t \<leftarrow> workspace_show ws s;
               next \<leftarrow> deref t next;
               t \<leftarrow> con_focus next t;
               if focused t \<noteq> focused s then tree_render t else Some t
             }))"

record pointer_event =
  pe_target :: xtarget
  pe_normal :: bool
  pe_child :: bool
  pe_sequence :: nat
  pe_x :: int
  pe_y :: int
  pe_root_x :: int
  pe_root_y :: int

text \<open>The decoration under the pointer, from the last child on.\<close>

definition decoration_at :: "i3 \<Rightarrow> con_id \<Rightarrow> int \<Rightarrow> int \<Rightarrow> con_id option" where
  "decoration_at s c x y =
     List.find (\<lambda>d. rect_contains (deco_rect (heap s d)) (of_int x) (of_int y)) (rev (nodes_head (heap s c)))"

definition enter_con :: "pointer_event \<Rightarrow> bool \<Rightarrow> con_id \<Rightarrow> con_id \<Rightarrow> i3 \<Rightarrow> i3 option" where
  "enter_con ev enter_child p c s =
     (let l = (if enter_child then layout (heap s p) else layout (heap s c));
          c = (if l = L_DEFAULT then (case decoration_at s c (pe_x ev) (pe_y ev) of None \<Rightarrow> c | Some d \<Rightarrow> d) else c)
      in if disable_focus_follows_mouse (cfg s) \<or> focused s = Some c then Some s
         else do {
           ws \<leftarrow> con_get_workspace s c;
           f \<leftarrow> focused s;
           fws \<leftarrow> con_get_workspace s f;
           s \<leftarrow> (if ws \<noteq> fws then do { w \<leftarrow> ws; workspace_show w s } else Some s);
           let s = emit (X_Set_Focused_Id None) s;
           c \<leftarrow> deref s c;
           d \<leftarrow> con_descend_focused s c;
           s \<leftarrow> con_focus d s;
           tree_render s
         })"

definition handle_enter_notify :: "pointer_event \<Rightarrow> handler" where
  "handle_enter_notify ev h =
     (if \<not> pe_normal ev then Some h
      else let (ign, igs) = event_is_ignored (fst (clock (xtree h))) (pe_sequence ev) NOTIFY_ENTER (ignored h);
               h = h\<lparr>ignored := igs\<rparr>; s = xtree h;
               boundary = on_x (check_crossing_screen_boundary (of_int (pe_root_x ev)) (of_int (pe_root_y ev)) (xenv h)) h
           in if ign then Some h
              else case (con_by_frame_id s (pe_target ev), con_by_client s (pe_target ev)) of
                (None, None) \<Rightarrow> boundary
              | (frame, client) \<Rightarrow> do {
                  c \<leftarrow> (case frame of Some c \<Rightarrow> Some c | None \<Rightarrow> client);
                  p \<leftarrow> parent (heap s c);
                  if con_type (heap s p) = CT_DOCKAREA then boundary
                  else on_x (enter_con ev (frame = None) p c) h
                })"

text \<open>Whether a container is the first in the focus stack of its parent.\<close>

definition focus_decoration :: "con_id \<Rightarrow> con_id \<Rightarrow> i3 \<Rightarrow> i3 option" where
  "focus_decoration p c s =
     (if list_first (focus_head (heap s p)) = Some c then Some s
      else map_option (emit X_Push_Changes) (con_focus c s))"

definition motion_over :: "pointer_event \<Rightarrow> con_id \<Rightarrow> i3 \<Rightarrow> i3 option" where
  "motion_over ev c s =
     (if disable_focus_follows_mouse (cfg s) \<or> layout (heap s c) \<notin> {L_DEFAULT, L_SPLITV, L_SPLITH} then Some s
      else if con_window (heap s c) \<noteq> None then
        if rect_contains (deco_rect (heap s c)) (of_int (pe_x ev)) (of_int (pe_y ev))
        then do { p \<leftarrow> parent (heap s c); focus_decoration p c s } else Some s
      else (case decoration_at s c (pe_x ev) (pe_y ev) of None \<Rightarrow> Some s | Some d \<Rightarrow> focus_decoration c d s))"

definition handle_motion_notify :: "pointer_event \<Rightarrow> handler" where
  "handle_motion_notify ev h =
     (if pe_child ev then Some h
      else case con_by_frame_id (xtree h) (pe_target ev) of
        None \<Rightarrow> on_x (check_crossing_screen_boundary (of_int (pe_root_x ev)) (of_int (pe_root_y ev)) (xenv h)) h
      | Some c \<Rightarrow> on_x (motion_over ev c) h)"

section \<open>Windows that appear and disappear\<close>

definition handle_map_request :: "nat \<Rightarrow> client \<Rightarrow> handler" where
  "handle_map_request sequence cl h =
     on_mgr (manage_window (xworld h) (xcalls h) (root_depth h) cl False)
       (h\<lparr>ignored := add_ignore_event (fst (clock (xtree h))) sequence None (ignored h)\<rparr>)"

text \<open>An unmap notification the window manager caused itself only decrements a counter.\<close>

definition count_unmap :: "con_id \<Rightarrow> i3 \<Rightarrow> i3" where
  "count_unmap c = upd c (\<lambda>n. if ignore_unmap n > 0 then n\<lparr>ignore_unmap := ignore_unmap n - 1\<rparr> else n)"

definition unmap_client :: "window_id \<Rightarrow> con_id \<Rightarrow> i3 \<Rightarrow> i3 option" where
  "unmap_client i c s =
     (if ignore_unmap (heap s c) > 0 then Some (count_unmap c s)
      else do {
        (_, s) \<leftarrow> tree_close_internal c DONT_KILL_WINDOW False (emit (X_Delete_State i) s);
        tree_render s
      })"

definition handle_unmap_notify_event :: "xtarget \<Rightarrow> nat \<Rightarrow> handler" where
  "handle_unmap_notify_event t sequence h =
     (let s = xtree h;
          ignore = (\<lambda>h. h\<lparr>ignored := add_ignore_event (fst (clock (xtree h))) sequence (Some NOTIFY_ENTER) (ignored h)\<rparr>)
      in case (con_by_client s t, t) of
           (Some c, Client i) \<Rightarrow> map_option ignore (on_x (unmap_client i c) h)
         | _ \<Rightarrow>
             (case con_by_frame_id s t of
                None \<Rightarrow> Some h
              | Some c \<Rightarrow> map_option ignore (on_x (\<lambda>s. Some (count_unmap c s)) h)))"

definition handle_destroy_notify_event :: "xtarget \<Rightarrow> nat \<Rightarrow> handler" where
  "handle_destroy_notify_event = handle_unmap_notify_event"

section \<open>Managing again\<close>

text \<open>The startup identifiers of the window and its leader, which are only asked for when it is swallowed.\<close>

type_synonym ids = "cstr \<times> cstr"

definition xremanage :: "ids \<Rightarrow> con_id \<Rightarrow> xstate \<Rightarrow> (con_id \<times> xstate) option" where
  "xremanage i c h =
     map_option (\<lambda>(c, m). (c, h\<lparr>xmgr := m\<rparr>))
       (remanage_window (xworld h) (xcalls h) (root_depth h) i c (xmgr h))"

section \<open>Requests for another size, position or place in the stack\<close>

record configure_event =
  cr_window :: window_id
  cr_x :: "int option"
  cr_y :: "int option"
  cr_width :: "int option"
  cr_height :: "int option"
  cr_border_width :: "int option"
  cr_sibling :: "int option"
  cr_stack_mode :: "int option"

definition STACK_MODE_ABOVE :: int where "STACK_MODE_ABOVE = 0"

definition configure_values :: "configure_event \<Rightarrow> (string \<times> int) list" where
  "configure_values ev =
     concat (map (\<lambda>(n, v). case v of None \<Rightarrow> [] | Some x \<Rightarrow> [(n, x)])
       [(''x'', cr_x ev), (''y'', cr_y ev), (''width'', cr_width ev), (''height'', cr_height ev),
        (''border_width'', cr_border_width ev), (''sibling'', cr_sibling ev), (''stack_mode'', cr_stack_mode ev)])"

text \<open>The rectangle of the floating container that shows the client's area where it asks for.\<close>

definition requested_rect :: "configure_event \<Rightarrow> rect \<Rightarrow> int \<Rightarrow> rect \<Rightarrow> rect" where
  "requested_rect ev bsr bw r =
     (let r = (case cr_x ev of None \<Rightarrow> r | Some x \<Rightarrow> r\<lparr>rx := of_int x - rx bsr\<rparr>);
          r = (case cr_y ev of None \<Rightarrow> r | Some y \<Rightarrow> r\<lparr>ry := of_int y - ry bsr\<rparr>);
          r = (case cr_width ev of None \<Rightarrow> r | Some v \<Rightarrow> r\<lparr>rwidth := of_int v - rwidth bsr + of_int (bw * 2)\<rparr>)
      in case cr_height ev of None \<Rightarrow> r | Some v \<Rightarrow> r\<lparr>rheight := of_int v - rheight bsr + of_int (bw * 2)\<rparr>)"

definition move_dock_to :: "world \<Rightarrow> con_id \<Rightarrow> con_id \<Rightarrow> i3 \<Rightarrow> i3 option" where
  "move_dock_to w c oc s = do {
     win \<leftarrow> con_window (heap s c);
     r \<leftarrow> con_for_window (pattern_matches w) s oc win;
     (nc, m) \<leftarrow> r;
     s \<leftarrow> con_detach c s;
     s \<leftarrow> con_attach c nc False s;
     tree_render s
   }"

definition configure_dock :: "world \<Rightarrow> configure_event \<Rightarrow> con_id \<Rightarrow> i3 \<Rightarrow> i3 option" where
  "configure_dock w ev c s = do {
     s \<leftarrow> (case cr_height ev of
         None \<Rightarrow> Some s
       | Some v \<Rightarrow> tree_render (upd c (\<lambda>n. n\<lparr>con_geometry := (con_geometry n)\<lparr>rheight := of_int v\<rparr>\<rparr>) s));
     if cr_x ev = None \<and> cr_y ev = None then Some s
     else do {
       let g = con_geometry (heap s c);
       let x = (case cr_x ev of Some x \<Rightarrow> x | None \<Rightarrow> wrap_s16 (uint (rx g)));
       let y = (case cr_y ev of Some y \<Rightarrow> y | None \<Rightarrow> wrap_s16 (uint (ry g)));
       cur \<leftarrow> con_get_output s c;
       (case get_output_containing (outputs (the_env w)) (of_int x) (of_int y) of
          None \<Rightarrow> Some s
        | Some out \<Rightarrow>
            if out_con out = Some cur then Some s
            else do { oc \<leftarrow> out_con out; move_dock_to w c oc s })
     }
   }"

text \<open>What becomes of a request for activation; the visibility only matters for \<open>smart\<close>.\<close>

datatype activation = Activate | Make_Urgent | Ignore_Request

definition activation_for :: "con_id \<Rightarrow> i3 \<Rightarrow> activation option" where
  "activation_for ws s =
     (case focus_on_window_activation (cfg s) of
        FOWA_FOCUS \<Rightarrow> Some Activate
      | FOWA_URGENT \<Rightarrow> Some Make_Urgent
      | FOWA_NONE \<Rightarrow> Some Ignore_Request
      | FOWA_SMART \<Rightarrow> map_option (\<lambda>v. if v then Activate else Make_Urgent) (workspace_is_visible s ws))"

definition make_urgent :: "ids \<Rightarrow> con_id \<Rightarrow> xstate \<Rightarrow> (con_id \<times> xstate) option" where
  "make_urgent i c h = do {
     h \<leftarrow> on_x (con_set_urgency c True) h;
     xremanage i c h
   }"

definition configure_stack :: "ids \<Rightarrow> configure_event \<Rightarrow> con_id option \<Rightarrow> con_id option \<Rightarrow> con_id \<Rightarrow> xstate \<Rightarrow> (con_id \<times> xstate) option" where
  "configure_stack i ev ws fs c h =
     (case (cr_stack_mode ev, ws) of
        (Some mode, Some ws) \<Rightarrow>
          if mode \<noteq> STACK_MODE_ABOVE \<or> fs \<noteq> None \<or> \<not> con_is_leaf (xtree h) c then Some (c, h)
          else do {
            a \<leftarrow> activation_for ws (xtree h);
            (case a of
               Activate \<Rightarrow> do {
                 h \<leftarrow> on_x (workspace_show ws) h;
                 c \<leftarrow> deref (xtree h) c;
                 h \<leftarrow> on_x (con_activate_unblock c) h;
                 map_option (Pair c) (on_x tree_render h) }
             | Make_Urgent \<Rightarrow> do {
                 (c, h) \<leftarrow> make_urgent i c h;
                 map_option (Pair c) (on_x tree_render h) }
             | Ignore_Request \<Rightarrow> Some (c, h))
          }
      | _ \<Rightarrow> Some (c, h))"

definition handle_configure_request :: "ids \<Rightarrow> configure_event \<Rightarrow> handler" where
  "handle_configure_request i ev h =
     (let s = xtree h in
      case con_by_window_id s (cr_window ev) of
        None \<Rightarrow> Some (xemit (X_Configure_Window (cr_window ev) (configure_values ev)) h)
      | Some c \<Rightarrow> do {
          ws \<leftarrow> con_get_workspace s c;
          scratch \<leftarrow> (case ws of None \<Rightarrow> Some False
            | Some ws \<Rightarrow> map_option (\<lambda>n. n = ''__i3_scratch'') (con_name (heap s ws)));
          if scratch then Some (xemit (X_Fake_Configure_Notify c) h)
          else do {
            fs \<leftarrow> con_get_fullscreen_covering_ws s ws;
            if fs \<noteq> Some c \<and> con_is_floating s c \<and> con_is_leaf s c then do {
              bsr \<leftarrow> con_border_style_rect s c;
              p \<leftarrow> parent (heap s c);
              let r = requested_rect ev bsr (border_width (heap s c)) (con_rect (heap s p));
              on_x (\<lambda>s. map_option snd (floating_reposition (xenv h) p r s)) h
            }
            else if (case parent (heap s c) of None \<Rightarrow> False | Some p \<Rightarrow> con_type (heap s p) = CT_DOCKAREA)
            then map_option (xemit (X_Fake_Configure_Notify c)) (on_x (configure_dock (xworld h) ev c) h)
            else map_option (\<lambda>(c, h). xemit (X_Fake_Configure_Notify c) h) (configure_stack i ev ws fs c h)
          }
        })"

section \<open>Screens\<close>

text \<open>\<open>geometry\<close> is that of the root window; without one the program exits.\<close>

definition xquery_outputs :: "xoutput list \<Rightarrow> handler" where
  "xquery_outputs reported h = do {
     (e, s) \<leftarrow> randr_query_outputs (pattern_matches (xworld h)) reported (xenv h, xtree h);
     Some (h\<lparr>xworld := (xworld h)\<lparr>the_env := e\<rparr>, xmgr := with_tree s (xmgr h)\<rparr>)
   }"

definition handle_screen_change :: "(u32 \<times> u32) option \<Rightarrow> xoutput list \<Rightarrow> handler" where
  "handle_screen_change geometry reported h = do {
     (wd, ht) \<leftarrow> geometry;
     h \<leftarrow> on_x (\<lambda>s. Some (upd (croot s) (\<lambda>n. n\<lparr>con_rect := (con_rect n)\<lparr>rwidth := wd, rheight := ht\<rparr>\<rparr>) s)) h;
     h \<leftarrow> xquery_outputs reported h;
     h \<leftarrow> on_x (scratchpad_fix_resolution (xenv h)) h;
     Some (xemit (Ipc_Output ''unspecified'') h)
   }"

definition handle_configure_notify :: "xtarget \<Rightarrow> bool \<Rightarrow> xoutput list \<Rightarrow> handler" where
  "handle_configure_notify t force_xinerama reported h =
     (if t \<noteq> Root_Window \<or> force_xinerama then Some h
      else map_option (xemit (Ipc_Output ''unspecified'')) (xquery_outputs reported h))"

section \<open>Client messages\<close>

datatype state_change = State_Remove | State_Add | State_Toggle | State_Other
datatype state_atom = Atom_None | Atom_Fullscreen | Atom_Attention | Atom_Sticky | Atom_Unknown

definition changed_flag :: "state_change \<Rightarrow> bool \<Rightarrow> bool" where
  "changed_flag ch b = (case ch of State_Add \<Rightarrow> True | State_Remove \<Rightarrow> False | State_Toggle \<Rightarrow> \<not> b | State_Other \<Rightarrow> b)"

text \<open>
  The container is a parameter by value: when the window has been swallowed by a placeholder in
  \<open>remanage_window\<close>, it does not exist any more.
\<close>

definition handle_net_wm_state_change :: "ids \<Rightarrow> con_id \<Rightarrow> state_change \<Rightarrow> state_atom \<Rightarrow> handler" where
  "handle_net_wm_state_change i c ch a h =
     (case a of
        Atom_None \<Rightarrow> Some h
      | Atom_Unknown \<Rightarrow> Some h
      | Atom_Fullscreen \<Rightarrow> do {
          c \<leftarrow> deref (xtree h) c;
          let fm = fullscreen_mode (heap (xtree h) c);
          h \<leftarrow> (if ch = State_Toggle \<or> fm \<noteq> CF_NONE \<and> ch = State_Remove \<or> fm = CF_NONE \<and> ch = State_Add
            then on_x (con_toggle_fullscreen workspace_show c CF_OUTPUT) h else Some h);
          on_x tree_render h }
      | Atom_Attention \<Rightarrow> do {
          c \<leftarrow> deref (xtree h) c;
          h \<leftarrow> (if ch = State_Other then Some h
            else do {
              h \<leftarrow> on_x (con_set_urgency c (changed_flag ch (urgent (heap (xtree h) c)))) h;
              map_option snd (xremanage i c h) });
          on_x tree_render h }
      | Atom_Sticky \<Rightarrow> do {
          c \<leftarrow> deref (xtree h) c;
          on_x (\<lambda>s. do {
            let s = upd c (\<lambda>n. n\<lparr>sticky := changed_flag ch (sticky n)\<rparr>) s;
            win \<leftarrow> con_window (heap s c);
            s \<leftarrow> output_push_sticky_windows (focused s) (emit (Ewmh_Update_Sticky (win_id win) (sticky (heap s c))) s);
            s \<leftarrow> ewmh_update_wm_desktop s;
            tree_render s }) h })"

datatype activate_source = From_Application | From_Pager

definition activate_window :: "ids \<Rightarrow> activate_source \<Rightarrow> con_id \<Rightarrow> handler" where
  "activate_window i src c h = do {
     ws \<leftarrow> con_get_workspace (xtree h) c;
     (case ws of
        None \<Rightarrow> Some h
      | Some ws \<Rightarrow> do {
          internal \<leftarrow> con_is_internal (xtree h) ws;
          (scratch, h) \<leftarrow> (if \<not> internal then Some (False, h)
            else do {
              (sc, s) \<leftarrow> workspace_get (xenv h) ''__i3_scratch'' (xtree h);
              Some (sc = ws, h\<lparr>xmgr := with_tree s (xmgr h)\<rparr>) });
          if internal \<and> \<not> scratch then Some h
          else if src = From_Pager then do {
            h \<leftarrow> (if internal then on_x (\<lambda>s. map_option snd (scratchpad_show (xenv h) (Some c) s)) h
              else do {
                h \<leftarrow> on_x (workspace_show ws) h;
                c \<leftarrow> deref (xtree h) c;
                on_x (con_activate_unblock c) (xemit (X_Set_Focused_Id None) h) });
            on_x tree_render h }
          else if internal then Some h
          else do {
            a \<leftarrow> activation_for ws (xtree h);
            h \<leftarrow> (case a of
                Activate \<Rightarrow> on_x (con_activate_unblock c) h
              | Make_Urgent \<Rightarrow> map_option snd (make_urgent i c h)
              | Ignore_Request \<Rightarrow> Some h);
            on_x tree_render h }
        })
   }"

definition request_desktop :: "u32 \<Rightarrow> con_id \<Rightarrow> handler" where
  "request_desktop idx c h =
     (if idx = NET_WM_DESKTOP_ALL then
        on_x (\<lambda>s. do {
          (ok, s) \<leftarrow> floating_enable (xenv h) c False s;
          s \<leftarrow> (if ok then do {
              let s = upd c (\<lambda>n. n\<lparr>con_floating := FLOATING_AUTO_ON, sticky := True\<rparr>) s;
              win \<leftarrow> con_window (heap s c);
              output_push_sticky_windows (focused s) (emit (Ewmh_Update_Sticky (win_id win) True) s) }
            else Some s);
          s \<leftarrow> tree_render s;
          ewmh_update_wm_desktop s }) h
      else do {
        r \<leftarrow> ewmh_get_workspace_by_index (xtree h) idx;
        (case r of
           None \<Rightarrow> Some h
         | Some ws \<Rightarrow> on_x (\<lambda>s. do {
             s \<leftarrow> con_move_to_workspace c ws True False False s;
             s \<leftarrow> tree_render s;
             ewmh_update_wm_desktop s }) h) })"

text \<open>The directions of \<open>_NET_WM_MOVERESIZE\<close>; the pointer loops themselves are effects.\<close>

definition moveresize :: "nat \<Rightarrow> con_id \<Rightarrow> handler" where
  "moveresize dir c h =
     (if \<not> con_is_floating (xtree h) c then Some h
      else do {
        p \<leftarrow> parent (heap (xtree h) c);
        Some (if dir = 8 then xemit (Drag_Floating p) h
          else if dir \<le> 7 then xemit (Resize_Floating p) h else h) })"

text \<open>The fields that the flags of \<open>_NET_MOVERESIZE_WINDOW\<close> select, cut to the width of a request.\<close>

definition faked_configure :: "window_id \<Rightarrow> u32 list \<Rightarrow> configure_event" where
  "faked_configure i d =
     (let field = (\<lambda>b k f. if bit (d ! 0) b then Some (f (uint (d ! k))) else None)
      in \<lparr>cr_window = i, cr_x = field 8 1 wrap_s16, cr_y = field 9 2 wrap_s16, cr_width = field 10 3 wrap_u16,
          cr_height = field 11 4 wrap_u16, cr_border_width = None, cr_sibling = None, cr_stack_mode = None\<rparr>)"

datatype (plugins only: ) client_message =
    Net_Wm_State window_id state_change "state_atom list"
  | Net_Active_Window window_id activate_source
  | I3_Sync window_id u32
  | Net_Request_Frame_Extents window_id
  | Wm_Change_State window_id bool
  | Net_Current_Desktop u32
  | Net_Wm_Desktop window_id u32
  | Net_Close_Window window_id
  | Net_Wm_Moveresize window_id nat
  | Net_Moveresize_Window window_id "u32 list"

definition for_client :: "window_id \<Rightarrow> (con_id \<Rightarrow> handler) \<Rightarrow> handler" where
  "for_client i f h = (case con_by_window_id (xtree h) i of None \<Rightarrow> Some h | Some c \<Rightarrow> f c h)"

definition handle_client_message :: "ids \<Rightarrow> client_message \<Rightarrow> handler" where
  "handle_client_message i msg h =
     (case msg of
        Net_Wm_State w ch atoms \<Rightarrow>
          for_client w (\<lambda>c. fold_opt (handle_net_wm_state_change i c ch) (take 4 atoms)) h
      | Net_Active_Window w src \<Rightarrow> for_client w (activate_window i src) h
      | I3_Sync w rnd \<Rightarrow> Some (xemit (Sync_Respond w rnd) h)
      | Net_Request_Frame_Extents w \<Rightarrow>
          let g = cfg (xtree h); bw = default_border_width g
          in Some (xemit (X_Set_Frame_Extents w [bw, bw, render_deco_height g, bw]) h)
      | Wm_Change_State w iconic \<Rightarrow> Some (if iconic then xemit (X_Set_Wm_State_Normal w) h else h)
      | Net_Current_Desktop idx \<Rightarrow> do {
          r \<leftarrow> ewmh_get_workspace_by_index (xtree h) idx;
          (case r of
             None \<Rightarrow> Some h
           | Some ws \<Rightarrow> on_x (\<lambda>s. do { s \<leftarrow> workspace_show ws s; tree_render s }) h) }
      | Net_Wm_Desktop w idx \<Rightarrow> for_client w (request_desktop idx) h
      | Net_Close_Window w \<Rightarrow>
          for_client w (\<lambda>c. on_x (\<lambda>s. do { (_, s) \<leftarrow> tree_close_internal c KILL_WINDOW False s; tree_render s })) h
      | Net_Wm_Moveresize w dir \<Rightarrow> for_client w (moveresize dir) h
      | Net_Moveresize_Window w d \<Rightarrow> handle_configure_request i (faked_configure w d) h)"

section \<open>Changed properties\<close>

datatype (plugins only: ) property =
    P_Name "string option"
  | P_Hints "wm_hints option"
  | P_Name_Legacy "string option"
  | P_Normal_Hints "size_hints option"
  | P_Leader "u32 list option"
  | P_Transient "window_id option option"
  | P_Role "string option"
  | P_Class "string option"
  | P_Strut "u32 list option"
  | P_Type "string list"
  | P_Floating
  | P_Machine "string option"
  | P_Motif "u32 list option"
  | P_Icon "u32 list option"

definition set_window :: "con_id \<Rightarrow> window \<Rightarrow> handler" where
  "set_window c win = on_x (\<lambda>s. Some (upd c (\<lambda>n. n\<lparr>con_window := Some win\<rparr>) s))"

definition window_name_changed :: "window \<Rightarrow> cstr \<Rightarrow> bool" where
  "window_name_changed win old \<longleftrightarrow> old \<noteq> win_name win"

definition name_changed ::
  "(window \<Rightarrow> i3 \<Rightarrow> (window \<times> i3) option) \<Rightarrow> ids \<Rightarrow> con_id \<Rightarrow> handler" where
  "name_changed update i c h = do {
     win \<leftarrow> con_window (heap (xtree h) c);
     let old = win_name win;
     h \<leftarrow> on_x (\<lambda>s. map_option snd (update win s)) h;
     (c, h) \<leftarrow> xremanage i c h;
     let h = xemit X_Push_Changes h;
     win \<leftarrow> con_window (heap (xtree h) c);
     Some (if window_name_changed win old then xemit (Ipc_Window ''title'' c) h else h)
   }"

definition handle_normal_hints :: "size_hints option \<Rightarrow> con_id \<Rightarrow> handler" where
  "handle_normal_hints hints c h = do {
     win \<leftarrow> con_window (heap (xtree h) c);
     let (ch, win) = window_update_normal_hints hints win;
     h \<leftarrow> set_window c win h;
     if \<not> ch then Some h
     else do {
       fl \<leftarrow> con_inside_floating (xtree h) c;
       if fl = None then Some h
       else on_x (\<lambda>s. do { s \<leftarrow> floating_check_size (xenv h) c False s; tree_render s }) h
     }
   }"

definition handle_hints :: "wm_hints option \<Rightarrow> ids \<Rightarrow> con_id \<Rightarrow> handler" where
  "handle_hints hints i c h = do {
     win \<leftarrow> con_window (heap (xtree h) c);
     let (win, urgency_hint) = window_update_hints hints win;
     h \<leftarrow> set_window c win h;
     h \<leftarrow> on_x (con_set_urgency c urgency_hint) h;
     (_, h) \<leftarrow> xremanage i c h;
     on_x tree_render h
   }"

text \<open>The comparison of the fallback is unsigned here.\<close>

definition strut_dock :: "reservedpx \<Rightarrow> u32 \<Rightarrow> rect \<Rightarrow> dock" where
  "strut_dock res y r =
     (if res_top res > 0 \<and> res_bottom res = 0 then W_DOCK_TOP
      else if res_top res = 0 \<and> res_bottom res > 0 then W_DOCK_BOTTOM
      else if y < rheight r div 2 then W_DOCK_TOP else W_DOCK_BOTTOM)"

definition handle_strut_partial_change :: "u32 list option \<Rightarrow> con_id \<Rightarrow> handler" where
  "handle_strut_partial_change prop c h = do {
     win \<leftarrow> con_window (heap (xtree h) c);
     win \<leftarrow> window_update_strut_partial prop win;
     h \<leftarrow> set_window c win h;
     let s = xtree h;
     if (case parent (heap s c) of None \<Rightarrow> True | Some p \<Rightarrow> con_type (heap s p) \<noteq> CT_DOCKAREA) then Some h
     else do {
       search \<leftarrow> con_get_output s c;
       let win = win\<lparr>win_dock := strut_dock (reserved win) (ry (con_geometry (heap s c))) (con_rect (heap s search))\<rparr>;
       h \<leftarrow> set_window c win h;
       r \<leftarrow> con_for_window (pattern_matches (xworld h)) (xtree h) search win;
       (dockarea, m) \<leftarrow> r;
       on_x (\<lambda>s. do { s \<leftarrow> con_detach c s; s \<leftarrow> con_attach c dockarea True s; tree_render s }) h
     }
   }"

definition update_and_remanage :: "(window \<Rightarrow> window) \<Rightarrow> ids \<Rightarrow> con_id \<Rightarrow> handler" where
  "update_and_remanage f i c h = do {
     win \<leftarrow> con_window (heap (xtree h) c);
     h \<leftarrow> set_window c (f win) h;
     map_option snd (xremanage i c h)
   }"

definition update_only :: "(window \<Rightarrow> window) \<Rightarrow> con_id \<Rightarrow> handler" where
  "update_only f c h = do { win \<leftarrow> con_window (heap (xtree h) c); set_window c (f win) h }"

definition window_update_type :: "string list \<Rightarrow> con_id \<Rightarrow> handler" where
  "window_update_type types c h =
     (let t = preferred_window_type (xworld h) types in
      if t = 0 then Some h
      else do {
        win \<leftarrow> con_window (heap (xtree h) c);
        h \<leftarrow> set_window c (win\<lparr>window_type := t\<rparr>) h;
        on_mgr (run_assignments (xworld h) (xcalls h) (win_id win)) h
      })"

definition handle_motif_hints_change :: "u32 list option \<Rightarrow> con_id \<Rightarrow> handler" where
  "handle_motif_hints_change prop c h = do {
     motif \<leftarrow> window_update_motif_hints prop;
     (case motif of
        None \<Rightarrow> Some h
      | Some style \<Rightarrow>
          if style = con_border_style_field (heap (xtree h) c) then Some h
          else map_option (xemit X_Push_Changes)
            (on_x (\<lambda>s. con_set_border_style c style (current_border_width (heap s c)) s) h))
   }"

definition handle_windowicon_change :: "u32 list option \<Rightarrow> con_id \<Rightarrow> handler" where
  "handle_windowicon_change prop c h = do {
     win \<leftarrow> con_window (heap (xtree h) c);
     win \<leftarrow> window_update_icon (of_int (render_deco_height (cfg (xtree h)) - logical_px (xworld h) 2)) prop win;
     map_option (xemit X_Push_Changes) (set_window c win h)
   }"

definition handle_property :: "property \<Rightarrow> ids \<Rightarrow> con_id \<Rightarrow> handler" where
  "handle_property p i c h =
     (case p of
        P_Name v \<Rightarrow> name_changed (window_update_name (xworld h) v) i c h
      | P_Hints v \<Rightarrow> handle_hints v i c h
      | P_Name_Legacy v \<Rightarrow> name_changed (window_update_name_legacy (xworld h) v) i c h
      | P_Normal_Hints v \<Rightarrow> handle_normal_hints v c h
      | P_Leader v \<Rightarrow> update_only (window_update_leader v) c h
      | P_Transient v \<Rightarrow> update_only (window_update_transient_for v) c h
      | P_Role v \<Rightarrow> update_and_remanage (window_update_role v) i c h
      | P_Class v \<Rightarrow> update_and_remanage (window_update_class v) i c h
      | P_Strut v \<Rightarrow> handle_strut_partial_change v c h
      | P_Type v \<Rightarrow> window_update_type v c h
      | P_Floating \<Rightarrow> map_option snd (xremanage i c h)
      | P_Machine v \<Rightarrow> update_and_remanage (window_update_machine v) i c h
      | P_Motif v \<Rightarrow> handle_motif_hints_change v c h
      | P_Icon v \<Rightarrow> handle_windowicon_change v c h)"

definition property_notify :: "window_id \<Rightarrow> property option \<Rightarrow> ids \<Rightarrow> handler" where
  "property_notify w p i h =
     (case p of None \<Rightarrow> Some h | Some p \<Rightarrow> for_client w (handle_property p i) h)"

section \<open>The input focus\<close>

text \<open>\<open>focused_id\<close> is the window that last got the input focus from the window manager.\<close>

definition handle_focus_in :: "window_id option \<Rightarrow> xtarget \<Rightarrow> bool \<Rightarrow> bool \<Rightarrow> handler" where
  "handle_focus_in focused_id t grab_mode pointer_detail h = do {
     h \<leftarrow> (if t = Root_Window then do {
         f \<leftarrow> focused (xtree h);
         h \<leftarrow> on_x (con_focus f) h;
         Some (xemit X_Push_Changes (xemit (X_Set_Focused_Id None) h)) }
       else Some h);
     (case t of
        Client w \<Rightarrow> for_client w (\<lambda>c h.
          if grab_mode \<or> pointer_detail then Some h
          else do {
            fl \<leftarrow> con_inside_floating (xtree h) c;
            if focused_id = Some w \<and> fl = None then Some h
            else do {
              p \<leftarrow> parent (heap (xtree h) c);
              if con_type (heap (xtree h) p) = CT_DOCKAREA then Some h
              else do {
                h \<leftarrow> on_x (con_activate_unblock c) h;
                on_x tree_render (xemit (X_Set_Focused_Id (Some w)) h) } } }) h
      | _ \<Rightarrow> Some h)
   }"

definition handle_expose_event :: "xtarget \<Rightarrow> handler" where
  "handle_expose_event t h =
     (case con_by_frame_id (xtree h) t of None \<Rightarrow> Some h | Some c \<Rightarrow> Some (xemit (X_Copy_Frame c) h))"

definition handle_mapping_notify :: "bool \<Rightarrow> handler" where
  "handle_mapping_notify keyboard_or_modifier h =
     Some (if keyboard_or_modifier then xemit (X_Regrab_Keys True) h else h)"

text \<open>Losing the selection of the window manager ends the program.\<close>

definition handle_selection_clear :: "bool \<Rightarrow> handler" where
  "handle_selection_clear wm_selection h = (if wm_selection then None else Some h)"

section \<open>Dispatching\<close>

text \<open>
  Key presses and clicks are handled in other files.  A map notification of the keyboard is handled
  once for each sequence number.
\<close>

datatype (plugins only: ) xkb_event = Xkb_New_Keyboard | Xkb_Map nat nat | Xkb_State bool

datatype (plugins only: ) xevent =
    Ev_Screen_Change "(u32 \<times> u32) option" "xoutput list"
  | Ev_Xkb xkb_event
  | Ev_Shape window_id bool bool
  | Ev_Map_Request nat client
  | Ev_Unmap xtarget nat
  | Ev_Destroy xtarget nat
  | Ev_Expose xtarget nat
  | Ev_Motion pointer_event
  | Ev_Enter pointer_event
  | Ev_Message ids client_message
  | Ev_Configure_Request ids configure_event
  | Ev_Mapping bool
  | Ev_Focus_In "window_id option" xtarget bool bool
  | Ev_Focus_Out xtarget
  | Ev_Property window_id "property option" ids
  | Ev_Configure_Notify xtarget bool "xoutput list"
  | Ev_Selection_Clear bool
  | Ev_Unknown

definition handle_xkb :: "xkb_event \<Rightarrow> handler" where
  "handle_xkb ev h =
     (case ev of
        Xkb_New_Keyboard \<Rightarrow> Some (xemit (X_Regrab_Keys True) h)
      | Xkb_Map sequence t \<Rightarrow>
          let now = fst (clock (xtree h)); (ign, igs) = event_is_ignored now sequence t (ignored h)
          in if ign then Some (h\<lparr>ignored := igs\<rparr>)
             else Some (xemit (X_Regrab_Keys True) (h\<lparr>ignored := add_ignore_event now sequence (Some t) igs\<rparr>))
      | Xkb_State same_group \<Rightarrow> Some (if same_group then h else xemit (X_Regrab_Keys False) h))"

definition handle_event :: "xevent \<Rightarrow> handler" where
  "handle_event ev h =
     (case ev of
        Ev_Screen_Change g reported \<Rightarrow> handle_screen_change g reported h
      | Ev_Xkb x \<Rightarrow> handle_xkb x h
      | Ev_Shape w kind sh \<Rightarrow> for_client w (\<lambda>c h. Some (xemit (X_Set_Shape c kind sh) h)) h
      | Ev_Map_Request sequence cl \<Rightarrow> handle_map_request sequence cl h
      | Ev_Unmap t sequence \<Rightarrow> handle_unmap_notify_event t sequence h
      | Ev_Destroy t sequence \<Rightarrow> handle_destroy_notify_event t sequence h
      | Ev_Expose t cnt \<Rightarrow> if cnt = 0 then handle_expose_event t h else Some h
      | Ev_Motion p \<Rightarrow> handle_motion_notify p h
      | Ev_Enter p \<Rightarrow> handle_enter_notify p h
      | Ev_Message i m \<Rightarrow> handle_client_message i m h
      | Ev_Configure_Request i c \<Rightarrow> handle_configure_request i c h
      | Ev_Mapping b \<Rightarrow> handle_mapping_notify b h
      | Ev_Focus_In fid t g p \<Rightarrow> handle_focus_in fid t g p h
      | Ev_Focus_Out t \<Rightarrow> Some h
      | Ev_Property w p i \<Rightarrow> property_notify w p i h
      | Ev_Configure_Notify t f reported \<Rightarrow> handle_configure_notify t f reported h
      | Ev_Selection_Clear b \<Rightarrow> handle_selection_clear b h
      | Ev_Unknown \<Rightarrow> Some h)"

end
