(* ===== verification/Handlers_Facts.thy ===== *)
theory Handlers_Facts
  imports Handlers
begin

text \<open>
  Facts about the event handlers: which events are ignored and for how long, that an unmap
  notification i3 caused itself closes nothing, and that the pointer moves no
  focus when \<open>focus_follows_mouse\<close> is off.
\<close>

section \<open>Ignored events\<close>

lemma event_is_ignored_iff:
  "fst (event_is_ignored now sequence t igs) \<longleftrightarrow>
     (\<exists>i\<in>set igs. now - ign_added i \<le> 5 \<and> ign_sequence i = sequence \<and>
        (ign_type i = None \<or> ign_type i = Some t))"
  by (simp add: event_is_ignored_def Let_def list_ex_iff not_less) blast

lemma event_is_ignored_keeps_recent:
  "snd (event_is_ignored now sequence t igs) = filter (\<lambda>i. now - ign_added i \<le> 5) igs"
  by (simp add: event_is_ignored_def Let_def not_less)

lemma added_event_is_ignored:
  assumes "now' \<le> now + 5" "t = None \<or> t = Some t'"
  shows "fst (event_is_ignored now' sequence t' (add_ignore_event now sequence t igs))"
  using assms by (auto simp: event_is_ignored_iff add_ignore_event_def)

text \<open>Asking once does not change the answer to a later question.\<close>

lemma event_is_ignored_later:
  assumes "now \<le> now'"
  shows "fst (event_is_ignored now' sequence t (snd (event_is_ignored now sequence' t' igs))) =
    fst (event_is_ignored now' sequence t igs)"
  using assms by (auto simp: event_is_ignored_iff event_is_ignored_keeps_recent)

section \<open>Reading and changing the state\<close>

lemma on_xE:
  assumes "on_x f h = Some h'"
  obtains m where "on_tree f (xmgr h) = Some m" "h' = h\<lparr>xmgr := m\<rparr>"
  using assms by (auto simp: on_x_def)

lemma on_x_Some:
  "f (xtree h) = Some s \<Longrightarrow> on_x f h = Some (h\<lparr>xmgr := with_tree s (xmgr h)\<rparr>)"
  by (simp add: on_x_def on_tree_def xtree_def)

lemma xtree_ignored [simp]: "xtree (h\<lparr>ignored := igs\<rparr>) = xtree h"
  by (simp add: xtree_def)

lemma xtree_with_tree [simp]: "xtree (h\<lparr>xmgr := with_tree s m\<rparr>) = s"
  by (simp add: xtree_def)

lemma on_x_tree:
  assumes "on_x f h = Some h'"
  shows "f (xtree h) = Some (xtree h')"
  using assms by (auto simp: on_x_def on_tree_def xtree_def)

section \<open>The pointer\<close>

lemma crossing_without_ffm [simp]:
  "disable_focus_follows_mouse (cfg s) \<Longrightarrow> check_crossing_screen_boundary x y e s = Some s"
  by (simp add: check_crossing_screen_boundary_def)

lemma enter_without_ffm [simp]:
  "disable_focus_follows_mouse (cfg s) \<Longrightarrow> enter_con ev b p c s = Some s"
  by (simp add: enter_con_def Let_def)

lemma motion_without_ffm [simp]:
  "disable_focus_follows_mouse (cfg s) \<Longrightarrow> motion_over ev c s = Some s"
  by (simp add: motion_over_def)

lemma on_x_unchanged:
  assumes "on_x f h = Some h'" "f (xtree h) = Some (xtree h)"
  shows "xtree h' = xtree h"
  using on_x_tree[OF assms(1)] assms(2) by simp

lemma enter_notify_without_ffm:
  assumes "disable_focus_follows_mouse (cfg (xtree h))" "handle_enter_notify ev h = Some h'"
  shows "xtree h' = xtree h"
proof -
  define h1 where "h1 = h\<lparr>ignored := snd (event_is_ignored (fst (clock (xtree h))) (pe_sequence ev) NOTIFY_ENTER (ignored h))\<rparr>"
  have t: "xtree h1 = xtree h" by (simp add: h1_def)
  have a: "xtree h' = xtree h" if "on_x f h1 = Some h'" "f (xtree h1) = Some (xtree h1)" for f
    using on_x_unchanged[OF that] t by simp
  show ?thesis
    using assms a t
    by (auto simp: handle_enter_notify_def Let_def h1_def[symmetric] case_prod_beta
        split: if_splits option.splits Option.bind_splits)
qed

lemma motion_notify_without_ffm:
  assumes "disable_focus_follows_mouse (cfg (xtree h))" "handle_motion_notify ev h = Some h'"
  shows "xtree h' = xtree h"
  using assms by (auto simp: handle_motion_notify_def dest: on_x_unchanged split: if_splits option.splits)

section \<open>Unmap notifications\<close>

lemma heap_count_unmap:
  "heap (count_unmap c s) = (heap s)(c := (heap s c)\<lparr>ignore_unmap := (if ignore_unmap (heap s c) > 0 then ignore_unmap (heap s c) - 1 else ignore_unmap (heap s c))\<rparr>)"
  by (auto simp: count_unmap_def upd_def)

lemma expected_unmap_counts:
  assumes c: "con_by_client (xtree h) (Client i) = Some c" and n: "ignore_unmap (heap (xtree h) c) > 0"
  shows "handle_unmap_notify_event (Client i) sequence h =
    Some (h\<lparr>xmgr := with_tree (count_unmap c (xtree h)) (xmgr h),
      ignored := add_ignore_event (fst (clock (xtree h))) sequence (Some NOTIFY_ENTER) (ignored h)\<rparr>)"
proof -
  have u: "unmap_client i c (xtree h) = Some (count_unmap c (xtree h))"
    using n by (simp add: unmap_client_def)
  show ?thesis
    using c by (simp add: handle_unmap_notify_event_def Let_def on_x_Some[where f = "unmap_client i c", OF u]
        count_unmap_def upd_def)
qed

end
