(* ===== verification/Command_Types.thy ===== *)
theory Command_Types
  imports Command_Run
begin

text \<open>
  The types of the grammar of the commands: an identifier always stands for a number or always for a
  string, and wherever a command function is called, the strings it needs are on the stack.  The
  generated code relies on this: it reads the members of a union without a test and hands null
  pointers to the functions.
\<close>

section \<open>The typing\<close>

definition number_idents :: "string list" where
  "number_idents = [''border_width'', ''resize_px'', ''resize_ppt'', ''width'', ''height'', ''amount'',
     ''coord_x'', ''coord_y'', ''padding'']"

text \<open>The identifiers that are on the stack in a state.\<close>

definition bound_idents :: "(cmdp_state \<times> string list) list" where
  "bound_idents = [
   (''CRITERION'', [''ctype'']),
   (''CRITERION_STR'', [''ctype'']),
   (''CRITERION_FROM'', [''ctype'']),
   (''CRITERION_FROM_STR_START'', [''ctype'']),
   (''CRITERION_FROM_STR'', [''ctype'']),
   (''CRITERION_FROM_STR_END'', [''ctype'', ''kind'']),
   (''BORDER_WIDTH'', [''border_style'']),
   (''GAPS_WITH_TYPE'', [''type'']),
   (''GAPS_WITH_SCOPE'', [''type'', ''scope'']),
   (''GAPS_WITH_MODE'', [''type'', ''scope'', ''mode'']),
   (''GAPS_END'', [''type'', ''scope'', ''mode'', ''value'']),
   (''FOCUS_AUTO'', [''direction'']),
   (''FULLSCREEN_MODE'', [''action'']),
   (''FULLSCREEN_COMPAT'', [''action'']),
   (''RESIZE_DIRECTION'', [''way'']),
   (''RESIZE_PX'', [''way'', ''direction'']),
   (''RESIZE_TILING'', [''way'', ''direction'']),
   (''RESIZE_TILING_OR'', [''way'', ''direction'']),
   (''RESIZE_TILING_FINAL'', [''way'', ''direction'']),
   (''RENAME_WORKSPACE_TO'', [''old_name'']),
   (''RENAME_WORKSPACE_TO_NEW_NAME'', [''old_name'']),
   (''MOVE_DIRECTION'', [''direction'']),
   (''MOVE_DIRECTION_NUMBER'', [''direction'']),
   (''MOVE_TO_ABSOLUTE_POSITION'', [''method'']),
   (''MOVE_TO_POSITION'', [''method'']),
   (''SWAP_ARGUMENT'', [''mode'']),
   (''BAR_HIDDEN_STATE_ID'', [''bar_value'']),
   (''BAR_MODE_ID'', [''bar_value''])]"

definition bound :: "cmdp_state \<Rightarrow> string list" where
  "bound s = (case map_of bound_idents s of None \<Rightarrow> [] | Some xs \<Rightarrow> xs)"

text \<open>The strings that the functions need, for each of the calls.\<close>

definition call_needs :: "(string \<times> string list) list" where
  "call_needs = [
   (''cmd_criteria_init(); CRITERIA'', []),
   (''cmd_open()'', []),
   (''cmd_criteria_add($ctype, NULL); CRITERIA'', [''ctype'']),
   (''cmd_criteria_match_windows(); INITIAL'', []),
   (''cmd_criteria_add($ctype, $kind); CRITERIA'', [''ctype'']),
   (''cmd_criteria_add($ctype, $cvalue); CRITERIA'', [''ctype'']),
   (''cmd_exec($nosn, $command)'', [''command'']),
   (''cmd_shmlog($argument)'', [''argument'']),
   (''cmd_debuglog($argument)'', [''argument'']),
   (''cmd_border($border_style, 0)'', [''border_style'']),
   (''cmd_border(\"pixel\", 1)'', []),
   (''cmd_border($border_style, -1)'', [''border_style'']),
   (''cmd_border($border_style, &border_width)'', [''border_style'']),
   (''cmd_gaps($type, $scope, $mode, $value)'', [''type'', ''scope'', ''mode'', ''value'']),
   (''cmd_layout($layout_mode)'', [''layout_mode'']),
   (''cmd_layout_toggle($toggle_mode)'', []),
   (''cmd_workspace($direction)'', [''direction'']),
   (''cmd_workspace_back_and_forth()'', []),
   (''cmd_workspace_name($workspace, $no_auto_back_and_forth)'', [''workspace'']),
   (''cmd_workspace_number($workspace, $no_auto_back_and_forth)'', [''workspace'']),
   (''cmd_focus_direction($direction)'', [''direction'']),
   (''cmd_focus_window_mode($window_mode)'', [''window_mode'']),
   (''cmd_focus_level($level)'', [''level'']),
   (''cmd_focus(1)'', []),
   (''cmd_focus(0)'', []),
   (''cmd_focus_sibling($direction)'', [''direction'']),
   (''cmd_focus_output($output); FOCUS_OUTPUT'', []),
   (''cmd_focus_output(NULL); INITIAL'', []),
   (''cmd_kill($kill_mode)'', []),
   (''cmd_fullscreen($action, \"output\")'', [''action'']),
   (''cmd_fullscreen($action, $mode)'', [''action'', ''mode'']),
   (''cmd_fullscreen(\"toggle\", $mode)'', [''mode'']),
   (''cmd_fullscreen(\"toggle\", \"output\")'', []),
   (''cmd_sticky($action)'', [''action'']),
   (''cmd_split($direction)'', [''direction'']),
   (''cmd_floating($floating)'', [''floating'']),
   (''cmd_mark($mark, $mode, $toggle)'', [''mark'']),
   (''cmd_unmark($mark)'', []),
   (''cmd_resize($way, $direction, 10, 10)'', [''way'', ''direction'']),
   (''cmd_resize($way, $direction, &resize_px, 0)'', [''way'', ''direction'']),
   (''cmd_resize($way, $direction, &resize_px, &resize_ppt)'', [''way'', ''direction'']),
   (''cmd_resize_set(&width, $mode_width, 0, 0)'', []),
   (''cmd_resize_set(&width, $mode_width, &height, $mode_height)'', []),
   (''cmd_rename_workspace(NULL, $new_name)'', [''new_name'']),
   (''cmd_rename_workspace(\"to\", $new_name)'', [''new_name'']),
   (''cmd_rename_workspace(NULL, \"to\")'', []),
   (''cmd_rename_workspace($old_name, $new_name)'', [''new_name'']),
   (''cmd_move_scratchpad()'', []),
   (''cmd_move_direction($direction, 10, \"px\")'', [''direction'']),
   (''cmd_move_direction($direction, &amount, $mode)'', [''direction'']),
   (''cmd_move_direction($direction, &amount, \"px\")'', [''direction'']),
   (''cmd_move_con_to_workspace($workspace)'', [''workspace'']),
   (''cmd_move_con_to_workspace_back_and_forth()'', []),
   (''cmd_move_con_to_workspace_name($workspace, $no_auto_back_and_forth)'', [''workspace'']),
   (''cmd_move_con_to_workspace_number($number, $no_auto_back_and_forth)'', [''number'']),
   (''cmd_move_con_to_output($output, 0); MOVE_TO_OUTPUT'', []),
   (''cmd_move_con_to_output(NULL, 0); INITIAL'', []),
   (''cmd_move_con_to_mark($mark)'', [''mark'']),
   (''cmd_move_con_to_output($output, 1); MOVE_WORKSPACE_TO_OUTPUT_WORD'', []),
   (''cmd_move_con_to_output(NULL, 1); INITIAL'', []),
   (''cmd_move_window_to_center($method)'', [''method'']),
   (''cmd_move_window_to_mouse()'', []),
   (''cmd_move_window_to_position(&coord_x, $mode_x, &coord_y, $mode_y)'', []),
   (''cmd_move_window_to_position(&coord_x, $mode_x, &coord_y, 0)'', []),
   (''cmd_mode($mode)'', [''mode'']),
   (''cmd_nop($comment)'', []),
   (''cmd_nop(NULL)'', []),
   (''cmd_scratchpad_show()'', []),
   (''cmd_swap($mode, $arg)'', [''mode'', ''arg'']),
   (''cmd_title_format($format)'', [''format'']),
   (''cmd_title_window_icon($enable, 0)'', []),
   (''cmd_title_window_icon($enable, &padding)'', []),
   (''cmd_bar_hidden_state($bar_value, $bar_id)'', [''bar_value'']),
   (''cmd_bar_mode($bar_value, $bar_id)'', [''bar_value''])]"

definition needs :: "string \<Rightarrow> string list" where
  "needs i = (case map_of call_needs i of None \<Rightarrow> [] | Some xs \<Rightarrow> xs)"

definition yields_number :: "cmdp_token \<Rightarrow> bool" where
  "yields_number t \<longleftrightarrow> \<not> is_literal t \<and> is_number t"

definition bound_after :: "cmdp_state \<Rightarrow> cmdp_token \<Rightarrow> string list" where
  "bound_after s t = (case token_ident t of None \<Rightarrow> bound s | Some i \<Rightarrow> i # bound s)"

definition contains_all :: "string list \<Rightarrow> string list \<Rightarrow> bool" where
  "contains_all ys xs = list_all (\<lambda>x. x \<in> set ys) xs"

definition token_typed :: "cmdp_state \<Rightarrow> cmdp_token \<Rightarrow> bool" where
  "token_typed s t \<longleftrightarrow>
     (case token_ident t of None \<Rightarrow> True | Some i \<Rightarrow> i \<in> set number_idents \<longleftrightarrow> yields_number t) \<and>
     (is_end t \<longrightarrow> token_ident t = None) \<and>
     (case token_next t of
        Goto s' \<Rightarrow> contains_all (bound_after s t) (bound s')
      | CALL i \<Rightarrow> contains_all (bound_after s t) (needs i))"

text \<open>Comparing strings letter by letter.\<close>

lemmas lookup_simps = map_of.simps fst_conv snd_conv fun_upd_apply list.inject char.inject simp_thms if_True
  if_False list.distinct option.case

lemma bound_simps:
  "bound ''INITIAL'' = []"
  "bound ''CRITERIA'' = []"
  "bound ''CRITERION'' = [''ctype'']"
  "bound ''CRITERION_FROM'' = [''ctype'']"
  "bound ''CRITERION_FROM_STR_START'' = [''ctype'']"
  "bound ''CRITERION_FROM_STR'' = [''ctype'']"
  "bound ''CRITERION_FROM_STR_END'' = [''ctype'', ''kind'']"
  "bound ''CRITERION_STR'' = [''ctype'']"
  "bound ''EXEC'' = []"
  "bound ''SHMLOG'' = []"
  "bound ''DEBUGLOG'' = []"
  "bound ''BORDER'' = []"
  "bound ''BORDER_WIDTH'' = [''border_style'']"
  "bound ''GAPS'' = []"
  "bound ''GAPS_WITH_TYPE'' = [''type'']"
  "bound ''GAPS_WITH_SCOPE'' = [''type'', ''scope'']"
  "bound ''GAPS_WITH_MODE'' = [''type'', ''scope'', ''mode'']"
  "bound ''GAPS_END'' = [''type'', ''scope'', ''mode'', ''value'']"
  "bound ''LAYOUT'' = []"
  "bound ''LAYOUT_TOGGLE'' = []"
  "bound ''APPEND_LAYOUT'' = []"
  "bound ''WORKSPACE'' = []"
  "bound ''WORKSPACE_NUMBER'' = []"
  "bound ''FOCUS'' = []"
  "bound ''FOCUS_AUTO'' = [''direction'']"
  "bound ''FOCUS_OUTPUT'' = []"
  "bound ''KILL'' = []"
  "bound ''FULLSCREEN'' = []"
  "bound ''FULLSCREEN_MODE'' = [''action'']"
  "bound ''FULLSCREEN_COMPAT'' = [''action'']"
  "bound ''STICKY'' = []"
  "bound ''SPLIT'' = []"
  "bound ''FLOATING'' = []"
  "bound ''MARK'' = []"
  "bound ''UNMARK'' = []"
  "bound ''RESIZE'' = []"
  "bound ''RESIZE_DIRECTION'' = [''way'']"
  "bound ''RESIZE_PX'' = [''way'', ''direction'']"
  "bound ''RESIZE_TILING'' = [''way'', ''direction'']"
  "bound ''RESIZE_TILING_OR'' = [''way'', ''direction'']"
  "bound ''RESIZE_TILING_FINAL'' = [''way'', ''direction'']"
  "bound ''RESIZE_SET'' = []"
  "bound ''RESIZE_WIDTH'' = []"
  "bound ''RESIZE_HEIGHT_GET_NUMBER'' = []"
  "bound ''RESIZE_HEIGHT'' = []"
  "bound ''RENAME'' = []"
  "bound ''RENAME_WORKSPACE'' = []"
  "bound ''RENAME_WORKSPACE_LIKELY_TO'' = []"
  "bound ''RENAME_WORKSPACE_LIKELY_TO_NEW_NAME'' = []"
  "bound ''RENAME_WORKSPACE_TO'' = [''old_name'']"
  "bound ''RENAME_WORKSPACE_TO_NEW_NAME'' = [''old_name'']"
  "bound ''MOVE'' = []"
  "bound ''MOVE_DIRECTION'' = [''direction'']"
  "bound ''MOVE_DIRECTION_NUMBER'' = [''direction'']"
  "bound ''MOVE_WORKSPACE'' = []"
  "bound ''MOVE_WORKSPACE_NUMBER'' = []"
  "bound ''MOVE_TO_OUTPUT'' = []"
  "bound ''MOVE_TO_MARK'' = []"
  "bound ''MOVE_WORKSPACE_TO_OUTPUT'' = []"
  "bound ''MOVE_WORKSPACE_TO_OUTPUT_WORD'' = []"
  "bound ''MOVE_TO_ABSOLUTE_POSITION'' = [''method'']"
  "bound ''MOVE_TO_POSITION'' = [''method'']"
  "bound ''MOVE_TO_POSITION_X'' = []"
  "bound ''MOVE_TO_POSITION_Y'' = []"
  "bound ''MODE'' = []"
  "bound ''NOP'' = []"
  "bound ''SCRATCHPAD'' = []"
  "bound ''SWAP'' = []"
  "bound ''SWAP_ARGUMENT'' = [''mode'']"
  "bound ''TITLE_FORMAT'' = []"
  "bound ''TITLE_WINDOW_ICON'' = []"
  "bound ''TITLE_WINDOW_ICON_PADDING'' = []"
  "bound ''BAR'' = []"
  "bound ''BAR_HIDDEN_STATE'' = []"
  "bound ''BAR_HIDDEN_STATE_ID'' = [''bar_value'']"
  "bound ''BAR_MODE'' = []"
  "bound ''BAR_MODE_ID'' = [''bar_value'']"
  by (simp_all only: bound_def bound_idents_def lookup_simps)

lemma needs_simps:
  "needs ''cmd_criteria_init(); CRITERIA'' = []"
  "needs ''cmd_open()'' = []"
  "needs ''cmd_criteria_add($ctype, NULL); CRITERIA'' = [''ctype'']"
  "needs ''cmd_criteria_match_windows(); INITIAL'' = []"
  "needs ''cmd_criteria_add($ctype, $kind); CRITERIA'' = [''ctype'']"
  "needs ''cmd_criteria_add($ctype, $cvalue); CRITERIA'' = [''ctype'']"
  "needs ''cmd_exec($nosn, $command)'' = [''command'']"
  "needs ''cmd_shmlog($argument)'' = [''argument'']"
  "needs ''cmd_debuglog($argument)'' = [''argument'']"
  "needs ''cmd_border($border_style, 0)'' = [''border_style'']"
  "needs ''cmd_border(\"pixel\", 1)'' = []"
  "needs ''cmd_border($border_style, -1)'' = [''border_style'']"
  "needs ''cmd_border($border_style, &border_width)'' = [''border_style'']"
  "needs ''cmd_gaps($type, $scope, $mode, $value)'' = [''type'', ''scope'', ''mode'', ''value'']"
  "needs ''cmd_layout($layout_mode)'' = [''layout_mode'']"
  "needs ''cmd_layout_toggle($toggle_mode)'' = []"
  "needs ''cmd_workspace($direction)'' = [''direction'']"
  "needs ''cmd_workspace_back_and_forth()'' = []"
  "needs ''cmd_workspace_name($workspace, $no_auto_back_and_forth)'' = [''workspace'']"
  "needs ''cmd_workspace_number($workspace, $no_auto_back_and_forth)'' = [''workspace'']"
  "needs ''cmd_focus_direction($direction)'' = [''direction'']"
  "needs ''cmd_focus_window_mode($window_mode)'' = [''window_mode'']"
  "needs ''cmd_focus_level($level)'' = [''level'']"
  "needs ''cmd_focus(1)'' = []"
  "needs ''cmd_focus(0)'' = []"
  "needs ''cmd_focus_sibling($direction)'' = [''direction'']"
  "needs ''cmd_focus_output($output); FOCUS_OUTPUT'' = []"
  "needs ''cmd_focus_output(NULL); INITIAL'' = []"
  "needs ''cmd_kill($kill_mode)'' = []"
  "needs ''cmd_fullscreen($action, \"output\")'' = [''action'']"
  "needs ''cmd_fullscreen($action, $mode)'' = [''action'', ''mode'']"
  "needs ''cmd_fullscreen(\"toggle\", $mode)'' = [''mode'']"
  "needs ''cmd_fullscreen(\"toggle\", \"output\")'' = []"
  "needs ''cmd_sticky($action)'' = [''action'']"
  "needs ''cmd_split($direction)'' = [''direction'']"
  "needs ''cmd_floating($floating)'' = [''floating'']"
  "needs ''cmd_mark($mark, $mode, $toggle)'' = [''mark'']"
  "needs ''cmd_unmark($mark)'' = []"
  "needs ''cmd_resize($way, $direction, 10, 10)'' = [''way'', ''direction'']"
  "needs ''cmd_resize($way, $direction, &resize_px, 0)'' = [''way'', ''direction'']"
  "needs ''cmd_resize($way, $direction, &resize_px, &resize_ppt)'' = [''way'', ''direction'']"
  "needs ''cmd_resize_set(&width, $mode_width, 0, 0)'' = []"
  "needs ''cmd_resize_set(&width, $mode_width, &height, $mode_height)'' = []"
  "needs ''cmd_rename_workspace(NULL, $new_name)'' = [''new_name'']"
  "needs ''cmd_rename_workspace(\"to\", $new_name)'' = [''new_name'']"
  "needs ''cmd_rename_workspace(NULL, \"to\")'' = []"
  "needs ''cmd_rename_workspace($old_name, $new_name)'' = [''new_name'']"
  "needs ''cmd_move_scratchpad()'' = []"
  "needs ''cmd_move_direction($direction, 10, \"px\")'' = [''direction'']"
  "needs ''cmd_move_direction($direction, &amount, $mode)'' = [''direction'']"
  "needs ''cmd_move_direction($direction, &amount, \"px\")'' = [''direction'']"
  "needs ''cmd_move_con_to_workspace($workspace)'' = [''workspace'']"
  "needs ''cmd_move_con_to_workspace_back_and_forth()'' = []"
  "needs ''cmd_move_con_to_workspace_name($workspace, $no_auto_back_and_forth)'' = [''workspace'']"
  "needs ''cmd_move_con_to_workspace_number($number, $no_auto_back_and_forth)'' = [''number'']"
  "needs ''cmd_move_con_to_output($output, 0); MOVE_TO_OUTPUT'' = []"
  "needs ''cmd_move_con_to_output(NULL, 0); INITIAL'' = []"
  "needs ''cmd_move_con_to_mark($mark)'' = [''mark'']"
  "needs ''cmd_move_con_to_output($output, 1); MOVE_WORKSPACE_TO_OUTPUT_WORD'' = []"
  "needs ''cmd_move_con_to_output(NULL, 1); INITIAL'' = []"
  "needs ''cmd_move_window_to_center($method)'' = [''method'']"
  "needs ''cmd_move_window_to_mouse()'' = []"
  "needs ''cmd_move_window_to_position(&coord_x, $mode_x, &coord_y, $mode_y)'' = []"
  "needs ''cmd_move_window_to_position(&coord_x, $mode_x, &coord_y, 0)'' = []"
  "needs ''cmd_mode($mode)'' = [''mode'']"
  "needs ''cmd_nop($comment)'' = []"
  "needs ''cmd_nop(NULL)'' = []"
  "needs ''cmd_scratchpad_show()'' = []"
  "needs ''cmd_swap($mode, $arg)'' = [''mode'', ''arg'']"
  "needs ''cmd_title_format($format)'' = [''format'']"
  "needs ''cmd_title_window_icon($enable, 0)'' = []"
  "needs ''cmd_title_window_icon($enable, &padding)'' = []"
  "needs ''cmd_bar_hidden_state($bar_value, $bar_id)'' = [''bar_value'']"
  "needs ''cmd_bar_mode($bar_value, $bar_id)'' = [''bar_value'']"
  "needs ''cmd_exit()'' = []" "needs ''cmd_restart()'' = []" "needs ''cmd_reload()'' = []"
  "needs ''cmd_append_layout($path)'' = []"
  by (simp_all only: needs_def call_needs_def lookup_simps)

lemma contains_all_iff: "contains_all ys xs \<longleftrightarrow> set xs \<subseteq> set ys"
  by (auto simp: contains_all_def list_all_iff)

lemma spec_typed: "list_all (\<lambda>(s, ts). list_all (token_typed s) ts) commands_spec"
  unfolding commands_spec_def token_def list.map append_Cons append_Nil list.pred_inject case_prod_conv
  apply (intro conjI TrueI)
  apply (simp_all only: token_typed_def bound_after_def cmdp_token.simps option.case next_state.case bound_simps
      needs_simps contains_all_def list.pred_inject)
  apply (simp_all add: token_simps yields_number_def number_idents_def)
  done

lemma command_tokens_typed: "t \<in> set (command_tokens s) \<Longrightarrow> token_typed s t"
  using command_tokens_all[where P = "\<lambda>s ts. list_all (token_typed s) ts", OF spec_typed, of s]
  by (simp add: list_all_iff)

section \<open>Reading arguments\<close>

definition entry_typed :: "stack_entry \<Rightarrow> bool" where
  "entry_typed e \<longleftrightarrow> (case entry_val e of STACK_LONG n \<Rightarrow> True | STACK_STR s \<Rightarrow> False) = (entry_id e \<in> set number_idents)"

definition stack_typed :: "string list \<Rightarrow> stack \<Rightarrow> bool" where
  "stack_typed xs st \<longleftrightarrow> (\<exists>es. st = stack_of es \<and> length es \<le> 10 \<and> list_all entry_typed es \<and> set xs \<subseteq> entry_id ` set es)"

lemma stack_typed_clear: "stack_typed [] clear_stack"
  unfolding stack_typed_def by (intro exI[of _ "[]"]) (simp add: stack_of_Nil)

lemma stack_typed_find:
  assumes "stack_typed xs st" and "stack_find i st = Some v"
  shows "(case v of STACK_LONG n \<Rightarrow> True | STACK_STR s \<Rightarrow> False) = (i \<in> set number_idents)"
  using assms by (auto simp: stack_typed_def stack_find_stack_of list_all_iff entry_typed_def dest!: find_SomeD)

lemma get_string_typed:
  assumes "stack_typed xs st" and "i \<notin> set number_idents" shows "\<exists>v. get_string st i = Some v"
  using stack_typed_find[OF assms(1), of i] assms(2)
  by (auto simp: get_string_def split: option.split entry_val.split)

lemma get_long_typed:
  assumes "stack_typed xs st" and "i \<in> set number_idents" shows "\<exists>v. get_long st i = Some v"
  using stack_typed_find[OF assms(1), of i] assms(2)
  by (auto simp: get_long_def split: option.split entry_val.split)

lemma str_arg_typed:
  assumes "stack_typed xs st" and "i \<notin> set number_idents" and "i \<in> set xs" shows "\<exists>v. str_arg st i = Some v"
proof -
  have "stack_find i st \<noteq> None"
  proof
    assume "stack_find i st = None"
    then have "\<forall>es. st = stack_of es \<longrightarrow> i \<notin> entry_id ` set es" by (auto simp: stack_find_stack_of find_None_iff)
    then show False using assms(1,3) by (auto simp: stack_typed_def)
  qed
  then show ?thesis
    using stack_typed_find[OF assms(1), of i] assms(2)
    by (auto simp: str_arg_def get_string_def split: entry_val.split)
qed

definition args_readable :: "string list \<Rightarrow> (stack \<Rightarrow> command option) \<Rightarrow> bool" where
  "args_readable xs f \<longleftrightarrow> (\<forall>st. stack_typed xs st \<longrightarrow> f st \<noteq> None)"

lemma readable_const: "args_readable xs (\<lambda>st. Some c)"
  by (simp add: args_readable_def)

lemma readable_str:
  assumes "i \<in> set xs" and "i \<notin> set number_idents" and "\<And>v. args_readable xs (\<lambda>st. f v st)"
  shows "args_readable xs (\<lambda>st. str_arg st i \<bind> (\<lambda>v. f v st))"
  using assms str_arg_typed[of xs _ i] by (fastforce simp: args_readable_def)

lemma readable_string:
  assumes "i \<notin> set number_idents" and "\<And>v. args_readable xs (\<lambda>st. f v st)"
  shows "args_readable xs (\<lambda>st. get_string st i \<bind> (\<lambda>v. f v st))"
  using assms get_string_typed[of xs _ i] by (fastforce simp: args_readable_def)

lemma readable_long:
  assumes "i \<in> set number_idents" and "\<And>v. args_readable xs (\<lambda>st. f v st)"
  shows "args_readable xs (\<lambda>st. get_long st i \<bind> (\<lambda>v. f v st))"
  using assms get_long_typed[of xs _ i] by (fastforce simp: args_readable_def)

lemmas readable = readable_const readable_str readable_string readable_long

lemma calls_readable:
  "list_all2 (\<lambda>(i, xs) (j, f, s). i = j \<and> bound s = [] \<and> args_readable xs f) call_needs command_calls"
  unfolding call_needs_def command_calls_def
  apply (simp only: list_all2_Cons list_all2_Nil case_prod_conv simp_thms INITIAL_def)
  apply (intro conjI; (intro readable | simp add: bound_simps))
  apply (simp_all add: number_idents_def)
  done


lemma call_readable:
  assumes "map_of command_calls i = Some (f, s)"
  shows "bound s = [] \<and> args_readable (needs i) f"
proof -
  have "map_of cs i = Some (f, s) \<Longrightarrow> list_all2 (\<lambda>(i, xs) (j, f, s). i = j \<and> bound s = [] \<and> args_readable xs f) ns cs \<Longrightarrow>
      bound s = [] \<and> (\<exists>xs. map_of ns i = Some xs \<and> args_readable xs f)" for cs ns
  proof (induction ns arbitrary: cs)
    case (Cons n ns)
    then show ?case by (auto simp: list_all2_Cons1 split: if_splits)
  qed simp
  from this[OF assms calls_readable] show ?thesis by (auto simp: needs_def)
qed

section \<open>The parser keeps to the types\<close>

text \<open>A call whose arguments cannot be read is passed over instead of failing.\<close>

definition arguments_readable :: "string \<Rightarrow> stack \<Rightarrow> bool" where
  "arguments_readable i st \<longleftrightarrow> (case map_of command_calls i of None \<Rightarrow> True | Some (f, s) \<Rightarrow> f st \<noteq> None)"

definition tolerant :: "calls \<Rightarrow> calls" where
  "tolerant call i st c = (if arguments_readable i st then call i st c else Some (c, INITIAL))"

definition parser_typed :: "cmd_parser \<Rightarrow> bool" where
  "parser_typed p \<longleftrightarrow> stack_typed (bound (p_state p)) (p_stack p)"

definition follows :: "calls \<Rightarrow> bool" where
  "follows call \<longleftrightarrow> (\<forall>i st c c' s. call i st c = Some (c', s) \<longrightarrow> bound s = [])"

lemma bound_INITIAL [simp]: "bound INITIAL = []"
  by (simp add: INITIAL_def bound_simps)

lemma stack_typed_mono: "stack_typed ys st \<Longrightarrow> set xs \<subseteq> set ys \<Longrightarrow> stack_typed xs st"
  by (auto simp: stack_typed_def)

lemma push_typed:
  assumes "stack_typed xs st" and "push_entry e st = Some st'" and "entry_typed e"
  shows "stack_typed (entry_id e # xs) st'"
proof -
  obtain es where es: "st = stack_of es" "length es \<le> 10" "list_all entry_typed es" "set xs \<subseteq> entry_id ` set es"
    using assms(1) by (auto simp: stack_typed_def)
  then have "st' = stack_of (es @ [e])" "length (es @ [e]) \<le> 10"
    using assms(2) push_entry_stack_of[OF es(2), of e] by (auto split: if_splits)
  then show ?thesis
    unfolding stack_typed_def using es(3,4) assms(3) by (intro exI[of _ "es @ [e]"]) auto
qed

definition value_fits :: "cmdp_token \<Rightarrow> entry_val \<Rightarrow> bool" where
  "value_fits t v \<longleftrightarrow> (case v of STACK_LONG n \<Rightarrow> yields_number t | STACK_STR s \<Rightarrow> \<not> yields_number t)"

lemma cmd_push_typed:
  assumes p: "parser_typed p" and t: "token_typed (p_state p) t" and v: "value_fits t v" and q: "cmd_push t v p = Some q"
  shows "stack_typed (bound_after (p_state p) t) (p_stack q) \<and> p_state q = p_state p"
proof (cases "token_ident t")
  case None
  then show ?thesis using p q by (simp add: cmd_push_def parser_typed_def bound_after_def)
next
  case (Some i)
  let ?e = "\<lparr>entry_id = i, entry_val = v\<rparr>"
  obtain st where st: "push_entry ?e (p_stack p) = Some st" "q = p\<lparr>p_stack := st\<rparr>"
    using q Some by (auto simp: cmd_push_def push_string_def push_long_def split: entry_val.splits)
  have "entry_typed ?e"
    using t v Some by (auto simp: token_typed_def entry_typed_def value_fits_def split: entry_val.splits)
  from push_typed[OF p[unfolded parser_typed_def] st(1) this] show ?thesis
    using st(2) Some by (simp add: bound_after_def)
qed

lemma next_state_tolerant:
  assumes st: "stack_typed (bound_after (p_state q) t) (p_stack q)" and t: "token_typed (p_state q) t"
  shows "cmd_next_state (tolerant call) t q = cmd_next_state call t q"
proof (cases "token_next t")
  case (CALL i)
  have "arguments_readable i (p_stack q)"
  proof (cases "map_of command_calls i")
    case (Some fs)
    moreover obtain f s where "fs = (f, s)" by (cases fs)
    ultimately have "args_readable (needs i) f" using call_readable[of i f s] by simp
    moreover have "stack_typed (needs i) (p_stack q)"
      using stack_typed_mono[OF st] t CALL by (simp add: token_typed_def contains_all_iff)
    ultimately show ?thesis using Some \<open>fs = (f, s)\<close> by (simp add: arguments_readable_def args_readable_def)
  qed (simp add: arguments_readable_def)
  then show ?thesis using CALL by (simp add: cmd_next_state_def tolerant_def)
qed (simp add: cmd_next_state_def)

lemma next_state_typed:
  assumes st: "stack_typed (bound_after (p_state q) t) (p_stack q)" and t: "token_typed (p_state q) t"
    and "follows call" and "cmd_next_state call t q = Some r"
  shows "parser_typed r"
proof (cases "token_next t")
  case (Goto s)
  then show ?thesis
    using assms(4) t stack_typed_mono[OF st] stack_typed_clear
    by (auto simp: cmd_next_state_def parser_typed_def token_typed_def contains_all_iff)
next
  case (CALL i)
  then show ?thesis
    using assms(3,4) stack_typed_clear
    by (auto simp: cmd_next_state_def parser_typed_def follows_def bind_eq_Some_conv)
qed

lemma accept_token_typed:
  assumes "parser_typed p" and "token_typed (p_state p) t" and "value_fits t v" and "follows call"
  shows "accept_token (tolerant call) t v w p = accept_token call t v w p \<and>
    (\<forall>w' q. accept_token call t v w p = Some (Next w' q) \<longrightarrow> parser_typed q)"
proof (cases "cmd_push t v p")
  case (Some q)
  note q = cmd_push_typed[OF assms(1-3) Some]
  then show ?thesis
    using Some next_state_tolerant[of q t call] next_state_typed[of q t call] assms(2,4)
    by (auto simp: accept_token_def bind_eq_Some_conv)
qed (simp add: accept_token_def)

lemma accept_end_typed:
  assumes "parser_typed p" and "token_typed (p_state p) t" and "is_end t" and "follows call"
  shows "accept_end (tolerant call) t w p = accept_end call t w p \<and>
    (\<forall>w' q. accept_end call t w p = Some (Next w' q) \<longrightarrow> parser_typed q)"
proof -
  have "token_ident t = None" using assms(2,3) by (simp add: token_typed_def)
  then have st: "stack_typed (bound_after (p_state p) t) (p_stack p)"
    using assms(1) by (simp add: parser_typed_def bound_after_def)
  show ?thesis
    using next_state_tolerant[OF st assms(2), of call] next_state_typed[OF st assms(2,4)]
    by (auto simp: accept_end_def Let_def bind_eq_Some_conv cmd_criteria_reset_def parser_typed_def split: if_splits)
qed

lemma try_tokens_typed:
  assumes "parser_typed p" and "\<forall>t \<in> set ts. token_typed (p_state p) t" and "follows call"
  shows "try_tokens (tolerant call) ts w p = try_tokens call ts w p \<and>
    (\<forall>w' q. try_tokens call ts w p = Some (Next w' q) \<longrightarrow> parser_typed q)"
  using assms(2)
proof (induction ts arbitrary: w)
  case (Cons t ts)
  have t: "token_typed (p_state p) t" and ts: "\<forall>t \<in> set ts. token_typed (p_state p) t" using Cons.prems by auto
  note IH = Cons.IH[OF ts]
  note tok = accept_token_typed[OF assms(1) t _ assms(3)]
  note acc = tok[THEN conjunct1] tok[THEN conjunct2, rule_format, rotated]
  note stop = accept_end_typed[OF assms(1) t _ assms(3)]
  note fin = stop[THEN conjunct1] stop[THEN conjunct2, rule_format, rotated]
  consider (lit) "is_literal t" | (num) "\<not> is_literal t" "is_number t"
    | (str) "\<not> is_literal t" "\<not> is_number t" "is_string t \<or> is_word t"
    | (other) "\<not> is_literal t" "\<not> is_number t" "\<not> is_string t" "\<not> is_word t" by blast
  then show ?case
  proof cases
    case lit
    then have "value_fits t (STACK_STR s)" for s by (simp add: value_fits_def yields_number_def)
    with lit IH show ?thesis by (auto simp: acc(1) intro: acc(2))
  next
    case num
    then have "value_fits t (STACK_LONG n)" for n by (simp add: value_fits_def yields_number_def)
    with num IH show ?thesis by (auto simp: Let_def acc(1) intro: acc(2))
  next
    case str
    then have "value_fits t (STACK_STR s)" for s by (simp add: value_fits_def yields_number_def)
    with str IH show ?thesis by (auto simp: acc(1) intro: acc(2) split: prod.splits option.splits)
  next
    case other
    then show ?thesis using IH by (auto simp: fin(1) intro: fin(2))
  qed
qed simp

lemma parse_loop_typed:
  assumes "follows call" and "parser_typed p"
  shows "parse_loop k (tolerant call) command_tokens input w p = parse_loop k call command_tokens input w p"
  using assms(2)
proof (induction k arbitrary: w p)
  case (Suc k)
  have ts: "\<forall>t \<in> set (command_tokens (p_state p)). token_typed (p_state p) t" using command_tokens_typed by blast
  note step = try_tokens_typed[OF Suc.prems ts assms(1), of "dropWhile is_blank w"]
  show ?case
  proof (cases "try_tokens call (command_tokens (p_state p)) (dropWhile is_blank w) p")
    case (Some r)
    then show ?thesis using step Suc.IH by (cases r) simp_all
  qed (use step in simp)
qed simp

lemma parse_command_typed:
  assumes "follows call" and "p_stack p = clear_stack"
  shows "parse_command (tolerant call) command_tokens input p = parse_command call command_tokens input p"
  unfolding parse_command_def
  by (rule parse_loop_typed[OF assms(1)])
    (simp add: parser_typed_def cmd_criteria_reset_def assms(2) stack_typed_clear)

lemma dispatch_follows:
  assumes "follows others" shows "follows (dispatch w others)"
  using assms call_readable by (fastforce simp: follows_def dispatch_def bind_eq_Some_conv split: option.splits)

end
