(* ===== verification/Bindings.thy ===== *)
theory Bindings
  imports Cmd_State Parse_String
begin

unbundle bit_operations_syntax

text \<open>
  Key and mouse bindings (src/bindings.c): configuring them in modes, translating symbols to key
  codes, finding the binding of an event, and checking them.  What xkbcommon knows about the keyboard
  is the record \<open>keymap\<close>; a state of xkbcommon is given by the modifiers and the group it was set to.
\<close>

section \<open>Data\<close>

datatype input_type = B_KEYBOARD | B_MOUSE
datatype binding_release = B_UPON_KEYPRESS | B_UPON_KEYRELEASE | B_UPON_KEYRELEASE_IGNORE_MODS

record binding_keycode =
  bk_keycode :: nat
  bk_modifiers :: u32

record binding =
  b_input_type :: input_type
  b_release :: binding_release
  b_border :: bool
  b_whole_window :: bool
  b_exclude_titlebar :: bool
  b_keycode :: u32
  b_state_mask :: u32
  b_symbol :: cstr
  b_keycodes :: "binding_keycode list"
  b_command :: string

record mode =
  mode_name :: string
  mode_pango_markup :: bool
  mode_bindings :: "binding list"

text \<open>
  \<open>current_binding_mode\<close> also says which bindings are the current ones, as there is one mode of each
  name.  The requests and messages are recorded in their order.
\<close>

datatype key_effect =
    Ungrab_All_Keys
  | Grab_Key u32 nat
  | Regrab_Buttons "int list"
  | Ipc_Mode_Change string bool
  | Ipc_Binding_Run binding string
  | Config_Error_Nagbar
  | Command_Error_Nagbar

record keys =
  modes :: "mode list"
  current_binding_mode :: string
  xkb_current_group :: nat
  xcb_numlock_mask :: u32
  key_effects :: "key_effect list"

definition log_keys :: "key_effect list \<Rightarrow> keys \<Rightarrow> keys" where
  "log_keys es k = k\<lparr>key_effects := key_effects k @ es\<rparr>"

definition MASK_SHIFT :: u32 where "MASK_SHIFT = 1"
definition MASK_LOCK :: u32 where "MASK_LOCK = 2"
definition DEFAULT_BINDING_MODE :: string where "DEFAULT_BINDING_MODE = ''default''"

section \<open>Configuring\<close>

fun strstr :: "string \<Rightarrow> string \<Rightarrow> bool" where
  "strstr [] needle \<longleftrightarrow> needle = []"
| "strstr (c # cs) needle \<longleftrightarrow> starts_with needle (c # cs) \<or> strstr cs needle"

definition modifier_bits :: "(string \<times> u32) list" where
  "modifier_bits = [(''Mod1'', 8), (''Mod2'', 16), (''Mod3'', 32), (''Mod4'', 64), (''Mod5'', 128),
     (''Control'', 4), (''Ctrl'', 4), (''Shift'', 1),
     (''Group1'', 0x10000), (''Group2'', 0x20000), (''Mode_switch'', 0x20000), (''Group3'', 0x40000),
     (''Group4'', 0x80000)]"

definition event_state_from_str :: "cstr \<Rightarrow> u32" where
  "event_state_from_str str =
     (case str of
        None \<Rightarrow> 0
      | Some s \<Rightarrow> foldl (\<lambda>m (name, b). if strstr s name then m OR b else m) 0 modifier_bits)"

definition find_mode :: "string \<Rightarrow> mode list \<Rightarrow> mode option" where
  "find_mode name ms = List.find (\<lambda>m. mode_name m = name) ms"

definition mode_from_name :: "string \<Rightarrow> bool \<Rightarrow> mode list \<Rightarrow> mode list" where
  "mode_from_name name pango_markup ms =
     (if find_mode name ms \<noteq> None then ms
      else \<lparr>mode_name = name, mode_pango_markup = pango_markup, mode_bindings = []\<rparr> # ms)"

definition set_bindings :: "string \<Rightarrow> (binding list \<Rightarrow> binding list) \<Rightarrow> mode list \<Rightarrow> mode list" where
  "set_bindings name f ms = map (\<lambda>m. if mode_name m = name then m\<lparr>mode_bindings := f (mode_bindings m)\<rparr> else m) ms"

record binding_options =
  o_release :: cstr
  o_border :: cstr
  o_whole_window :: cstr
  o_exclude_titlebar :: cstr

definition new_binding :: "string \<Rightarrow> cstr \<Rightarrow> string \<Rightarrow> binding_options \<Rightarrow> string \<Rightarrow> binding option" where
  "new_binding bindtype modifiers input_code opts command =
     (let b = \<lparr>b_input_type = B_KEYBOARD,
            b_release = (if o_release opts \<noteq> None then B_UPON_KEYRELEASE else B_UPON_KEYPRESS),
            b_border = (o_border opts \<noteq> None), b_whole_window = (o_whole_window opts \<noteq> None),
            b_exclude_titlebar = (o_exclude_titlebar opts \<noteq> None), b_keycode = 0,
            b_state_mask = event_state_from_str modifiers, b_symbol = None, b_keycodes = [], b_command = command\<rparr>
      in if bindtype = ''bindsym''
         then Some (b\<lparr>b_input_type := (if strncasecmp_eq input_code ''button'' then B_MOUSE else B_KEYBOARD),
           b_symbol := Some input_code\<rparr>)
         else let (ok, n) = parse_long input_code 10 in if ok then Some (b\<lparr>b_keycode := of_int n\<rparr>) else None)"

definition configure_binding ::
  "string \<Rightarrow> cstr \<Rightarrow> string \<Rightarrow> binding_options \<Rightarrow> string \<Rightarrow> string \<Rightarrow> bool \<Rightarrow> keys \<Rightarrow> binding option \<times> keys" where
  "configure_binding bindtype modifiers input_code opts command modename pango_markup k =
     (case new_binding bindtype modifiers input_code opts command of
        None \<Rightarrow> (None, k)
      | Some b \<Rightarrow> (Some b, k\<lparr>modes := set_bindings modename (\<lambda>bs. bs @ [b]) (mode_from_name modename pango_markup (modes k))\<rparr>))"

definition bindings :: "keys \<Rightarrow> binding list" where
  "bindings k = (case find_mode (current_binding_mode k) (modes k) of None \<Rightarrow> [] | Some m \<Rightarrow> mode_bindings m)"

definition upd_bindings :: "(binding list \<Rightarrow> binding list) \<Rightarrow> keys \<Rightarrow> keys" where
  "upd_bindings f k = k\<lparr>modes := set_bindings (current_binding_mode k) f (modes k)\<rparr>"

section \<open>Grabbing\<close>

definition group_mask :: "u32 \<Rightarrow> u32" where "group_mask m = m AND 0xFFFF0000"
definition mods_mask :: "u32 \<Rightarrow> u32" where "mods_mask m = m AND 0xFFFF"

definition binding_in_current_group :: "nat \<Rightarrow> binding \<Rightarrow> bool" where
  "binding_in_current_group grp b \<longleftrightarrow>
     group_mask (b_state_mask b) = 0 \<or> grp \<le> 3 \<and> bit (b_state_mask b) (16 + grp)"

definition grab_keycode_for_binding :: "u32 \<Rightarrow> binding \<Rightarrow> nat \<Rightarrow> key_effect list" where
  "grab_keycode_for_binding numlock b keycode =
     (let mods = mods_mask (b_state_mask b) in
      [Grab_Key mods keycode, Grab_Key (mods OR numlock) keycode, Grab_Key (mods OR MASK_LOCK) keycode,
       Grab_Key (mods OR numlock OR MASK_LOCK) keycode])"

definition grabs_of_binding :: "nat \<Rightarrow> u32 \<Rightarrow> binding \<Rightarrow> key_effect list" where
  "grabs_of_binding grp numlock b =
     (if b_input_type b \<noteq> B_KEYBOARD \<or> \<not> binding_in_current_group grp b then []
      else if b_keycode b > 0 then grab_keycode_for_binding numlock b (unat (b_keycode b))
      else map (\<lambda>bk. Grab_Key (mods_mask (bk_modifiers bk)) (bk_keycode bk)) (b_keycodes b))"

definition grab_all_keys :: "keys \<Rightarrow> key_effect list" where
  "grab_all_keys k = concat (map (grabs_of_binding (xkb_current_group k) (xcb_numlock_mask k)) (bindings k))"

text \<open>
  The buttons to grab on windows.  The buffer has 25 places; the list ends with 0.  \<open>button\<close> is a
  \<open>long\<close>, a place of the buffer an \<open>int\<close>.
\<close>

definition button_number :: "binding \<Rightarrow> bool \<times> int" where
  "button_number b = parse_long (drop 6 (case b_symbol b of None \<Rightarrow> [] | Some s \<Rightarrow> s)) 10"

fun add_buttons :: "int list \<Rightarrow> binding list \<Rightarrow> int list" where
  "add_buttons buf [] = buf"
| "add_buttons buf (b # bs) =
     (if length buf + 1 = 25 then buf
      else if b_input_type b \<noteq> B_MOUSE \<or> \<not> b_whole_window b then add_buttons buf bs
      else let (ok, button) = button_number b in
        if \<not> ok \<or> button \<in> set buf then add_buttons buf bs
        else add_buttons (buf @ [sint (of_int button :: u32)]) bs)"

definition bindings_get_buttons_to_grab :: "binding list \<Rightarrow> int list" where
  "bindings_get_buttons_to_grab bs = add_buttons [1, 2, 3] bs @ [0]"

section \<open>Finding a binding\<close>

definition reset_release :: "input_type \<Rightarrow> binding \<Rightarrow> binding" where
  "reset_release ty b =
     (if b_input_type b = ty \<and> b_release b = B_UPON_KEYRELEASE_IGNORE_MODS then b\<lparr>b_release := B_UPON_KEYRELEASE\<rparr> else b)"

definition mods_match :: "u32 \<Rightarrow> bool \<Rightarrow> binding \<Rightarrow> binding_keycode \<Rightarrow> bool" where
  "mods_match state is_release b bk \<longleftrightarrow> mods_mask (bk_modifiers bk) = mods_mask state \<or>
     b_release b = B_UPON_KEYRELEASE_IGNORE_MODS \<and> is_release"

definition groups_match :: "u32 \<Rightarrow> binding \<Rightarrow> bool" where
  "groups_match state b \<longleftrightarrow> group_mask state AND group_mask (b_state_mask b) = group_mask (b_state_mask b)"

text \<open>A binding by symbol looks for the key code among its translations, as an 8-bit number.\<close>

definition binding_matches :: "u32 \<Rightarrow> bool \<Rightarrow> nat \<Rightarrow> input_type \<Rightarrow> binding \<Rightarrow> bool" where
  "binding_matches state is_release input_code ty b \<longleftrightarrow>
     b_input_type b = ty \<and> groups_match state b \<and>
     (if ty = B_KEYBOARD \<and> b_symbol b \<noteq> None
      then list_ex (\<lambda>bk. bk_keycode bk = input_code mod 256 \<and> mods_match state is_release b bk) (b_keycodes b)
      else unat (b_keycode b) = input_code \<and> list_ex (mods_match state is_release b) (b_keycodes b))"

fun search_binding ::
  "u32 \<Rightarrow> bool \<Rightarrow> nat \<Rightarrow> input_type \<Rightarrow> nat \<Rightarrow> nat option \<Rightarrow> binding list \<Rightarrow> nat option \<times> binding list" where
  "search_binding state is_release code ty k result [] = (result, [])"
| "search_binding state is_release code ty k result (b # bs) =
     (if \<not> binding_matches state is_release code ty b then
        let (r, bs) = search_binding state is_release code ty (Suc k) result bs in (r, b # bs)
      else if b_release b = B_UPON_KEYRELEASE \<and> \<not> is_release then
        let b = b\<lparr>b_release := B_UPON_KEYRELEASE_IGNORE_MODS\<rparr> in
        if result \<noteq> None then (result, b # bs)
        else let (r, bs) = search_binding state is_release code ty (Suc k) result bs in (r, b # bs)
      else if b_release b = B_UPON_KEYPRESS \<and> is_release then
        let (r, bs) = search_binding state is_release code ty (Suc k) result bs in (r, b # bs)
      else if is_release then (Some k, b # bs)
      else let (r, bs) = search_binding state is_release code ty (Suc k)
             (if result = None then Some k else result) bs
           in (r, b # bs))"

definition get_binding :: "u32 \<Rightarrow> bool \<Rightarrow> nat \<Rightarrow> input_type \<Rightarrow> binding list \<Rightarrow> nat option \<times> binding list" where
  "get_binding state is_release code ty bs =
     search_binding state is_release code ty 0 None (if is_release then bs else map (reset_release ty) bs)"

text \<open>A key or button event; \<open>ev_state\<close> has 16 bits.\<close>

record input_event =
  ev_button :: bool
  ev_release :: bool
  ev_state :: u32
  ev_detail :: nat

text \<open>The group of the keyboard is in bits 13 and 14 of the event.\<close>

definition filtered_state :: "u32 \<Rightarrow> u32" where
  "filtered_state st =
     (let s = st AND NOT MASK_LOCK;
          grp = drop_bit 13 (st AND 0x6000);
          s = s OR (if grp = 0 then 0x10000 else if grp = 1 then 0x20000 else if grp = 2 then 0x40000 else 0x80000)
      in s AND NOT 0x6000)"

definition get_binding_from_xcb_event :: "input_event \<Rightarrow> keys \<Rightarrow> binding option \<times> keys" where
  "get_binding_from_xcb_event ev k =
     (let (r, bs) = get_binding (filtered_state (ev_state ev)) (ev_release ev) (ev_detail ev)
            (if ev_button ev then B_MOUSE else B_KEYBOARD) (bindings k)
      in (map_option (\<lambda>i. bs ! i) r, upd_bindings (\<lambda>_. bs) k))"

section \<open>Translating symbols\<close>

text \<open>
  \<open>km_sym\<close>, \<open>km_layout\<close> and \<open>km_level\<close> take the modifiers, the group and the key code.  No symbol is 0.
\<close>

record keymap =
  km_keys :: "nat list"
  km_sym :: "u32 \<Rightarrow> nat \<Rightarrow> nat \<Rightarrow> nat"
  km_layout :: "u32 \<Rightarrow> nat \<Rightarrow> nat \<Rightarrow> nat option"
  km_level :: "u32 \<Rightarrow> nat \<Rightarrow> nat \<Rightarrow> nat \<Rightarrow> nat"
  km_from_name :: "string \<Rightarrow> nat"
  km_states :: bool

record resolve =
  rs_keysym :: nat
  rs_group :: nat
  rs_mods :: u32
  rs_no_shift :: u32
  rs_numlock :: u32
  rs_numlock_no_shift :: u32

definition translated_key :: "nat \<Rightarrow> u32 \<Rightarrow> binding_keycode" where
  "translated_key code mods = \<lparr>bk_keycode = code mod 256, bk_modifiers = mods\<rparr>"

text \<open>The key with its modifiers, with CapsLock, and, where it means the same, with NumLock.\<close>

definition translated_keys :: "u32 \<Rightarrow> u32 \<Rightarrow> bool \<Rightarrow> nat \<Rightarrow> binding_keycode list" where
  "translated_keys numlock msk same_with_numlock key =
     [translated_key key msk, translated_key key (msk OR MASK_LOCK)] @
     (if msk AND numlock \<noteq> numlock \<and> same_with_numlock
      then [translated_key key (msk OR numlock), translated_key key (msk OR numlock OR MASK_LOCK)] else [])"

text \<open>The state that tells what the key means with NumLock, if it results in the symbol at all.\<close>

definition matching_numlock_state :: "keymap \<Rightarrow> resolve \<Rightarrow> nat \<Rightarrow> u32 option" where
  "matching_numlock_state km r key =
     (let g = rs_group r; sym = km_sym km (rs_mods r) g key in
      if sym = rs_keysym r then Some (rs_numlock r)
      else case km_layout km (rs_mods r) g key of
        None \<Rightarrow> None
      | Some l \<Rightarrow>
          if km_level km (rs_mods r) g key l > 1 then None
          else if 0xff80 \<le> sym \<and> sym \<le> 0xffbd then None
          else if km_sym km (rs_no_shift r) g key \<noteq> rs_keysym r then None
          else Some (rs_numlock_no_shift r))"

definition add_keycode_if_matches :: "keymap \<Rightarrow> u32 \<Rightarrow> resolve \<Rightarrow> u32 \<Rightarrow> nat \<Rightarrow> binding_keycode list" where
  "add_keycode_if_matches km numlock r msk key =
     (case matching_numlock_state km r key of
        None \<Rightarrow> []
      | Some st \<Rightarrow> translated_keys numlock msk (km_sym km st (rs_group r) key = rs_keysym r) key)"

definition binding_group :: "u32 \<Rightarrow> nat" where
  "binding_group msk = (if bit msk 17 then 1 else if bit msk 18 then 2 else if bit msk 19 then 3 else 0)"

definition resolve_for :: "u32 \<Rightarrow> u32 \<Rightarrow> nat \<Rightarrow> resolve" where
  "resolve_for numlock msk keysym =
     (let m = msk AND 0x1FFF in
      \<lparr>rs_keysym = keysym, rs_group = binding_group msk, rs_mods = m, rs_no_shift = m XOR MASK_SHIFT,
       rs_numlock = m OR numlock, rs_numlock_no_shift = (m OR numlock) XOR MASK_SHIFT\<rparr>)"

text \<open>A binding without a code or a symbol has a null pointer for its symbol.\<close>

definition translate_binding :: "keymap \<Rightarrow> u32 \<Rightarrow> binding \<Rightarrow> binding option" where
  "translate_binding km numlock b = do {
     b \<leftarrow> (if b_input_type b = B_MOUSE then do {
         s \<leftarrow> b_symbol b;
         Some (b\<lparr>b_keycode := of_int (snd (parse_long (drop 6 s) 10) mod 256)\<rparr>) }
       else Some b);
     let msk = b_state_mask b;
     if b_keycode b > 0 then
       let key = unat (b_keycode b); r = resolve_for numlock msk 0 in
       Some (b\<lparr>b_keycodes := translated_keys numlock msk
         (km_sym km (rs_mods r) (rs_group r) key = km_sym km (rs_numlock r) (rs_group r) key) key\<rparr>)
     else do {
       s \<leftarrow> b_symbol b;
       let keysym = km_from_name km s;
       if keysym = 0 then Some b
       else Some (b\<lparr>b_keycodes :=
         concat (map (add_keycode_if_matches km numlock (resolve_for numlock msk keysym) msk) (km_keys km))\<rparr>)
     }
   }"

text \<open>A translated symbol that a binding by code also binds.\<close>

definition clashes :: "binding \<Rightarrow> binding \<Rightarrow> bool" where
  "clashes b chk \<longleftrightarrow> b_keycode b = 0 \<and> b_symbol chk = None \<and>
     list_ex (\<lambda>bk. unat (b_keycode chk) = bk_keycode bk \<and> b_state_mask chk = bk_modifiers bk \<and> b_release chk = b_release b)
       (b_keycodes b)"

definition translate_all :: "keymap \<Rightarrow> u32 \<Rightarrow> binding list \<Rightarrow> (binding list \<times> bool) option" where
  "translate_all km numlock bs = do {
     bs' \<leftarrow> map_opt (translate_binding km numlock) bs;
     Some (bs', list_ex (\<lambda>(s, b). km_from_name km (case b_symbol s of None \<Rightarrow> [] | Some n \<Rightarrow> n) \<noteq> 0 \<and>
       list_ex (clashes b) bs') (zip bs bs'))
   }"

definition translate_keysyms :: "keymap \<Rightarrow> keys \<Rightarrow> keys option" where
  "translate_keysyms km k =
     (if \<not> km_states km then Some k
      else do {
        (bs, has_errors) \<leftarrow> translate_all km (xcb_numlock_mask k) (bindings k);
        Some (log_keys (if has_errors then [Config_Error_Nagbar] else []) (upd_bindings (\<lambda>_. bs) k))
      })"

section \<open>Modes\<close>

definition unmark_release :: "binding \<Rightarrow> binding" where
  "unmark_release b =
     (if b_release b = B_UPON_KEYRELEASE_IGNORE_MODS then b\<lparr>b_release := B_UPON_KEYRELEASE\<rparr> else b)"

definition switch_mode :: "keymap \<Rightarrow> string \<Rightarrow> keys \<Rightarrow> keys option" where
  "switch_mode km new_mode k =
     (case find_mode new_mode (modes k) of
        None \<Rightarrow> Some k
      | Some m \<Rightarrow> do {
          let k = log_keys [Ungrab_All_Keys] (k\<lparr>current_binding_mode := mode_name m\<rparr>);
          k \<leftarrow> translate_keysyms km k;
          let k = log_keys (grab_all_keys k @ [Regrab_Buttons (bindings_get_buttons_to_grab (bindings k))]) k;
          Some (log_keys [Ipc_Mode_Change (mode_name m) (mode_pango_markup m)] (upd_bindings (map unmark_release) k))
        })"

section \<open>Order and duplicates\<close>

text \<open>\<open>qsort\<close> on equal masks is taken to keep the order, as the one of the GNU library does.\<close>

definition reorder_bindings_of_mode :: "mode \<Rightarrow> mode" where
  "reorder_bindings_of_mode m =
     m\<lparr>mode_bindings := sort_key (\<lambda>b. - int (unat (b_state_mask b))) (mode_bindings m)\<rparr>"

definition reorder_bindings :: "keys \<Rightarrow> keys" where
  "reorder_bindings k = k\<lparr>modes := map reorder_bindings_of_mode (modes k)\<rparr>"

definition binding_same_key :: "binding \<Rightarrow> binding \<Rightarrow> bool" where
  "binding_same_key a b \<longleftrightarrow>
     b_input_type a = b_input_type b \<and>
     (case (b_symbol a, b_symbol b) of
        (None, None) \<Rightarrow> True
      | (Some x, Some y) \<Rightarrow> strcasecmp x y = 0
      | _ \<Rightarrow> False) \<and>
     b_keycode a = b_keycode b \<and> b_state_mask a = b_state_mask b \<and> b_release a = b_release b"

fun duplicates_after :: "binding list \<Rightarrow> binding list \<Rightarrow> bool" where
  "duplicates_after before [] = False"
| "duplicates_after before (b # bs) \<longleftrightarrow>
     list_ex (\<lambda>a. binding_same_key a b) before \<or> duplicates_after (before @ [b]) bs"

definition check_for_duplicate_bindings :: "keys \<Rightarrow> bool" where
  "check_for_duplicate_bindings k = duplicates_after [] (bindings k)"

end
