(* ===== verification/Bindings_Facts.thy ===== *)
theory Bindings_Facts
  imports Bindings Randr_Query
begin

unbundle bit_operations_syntax

text \<open>
  Facts about the bindings: the binding an event finds, that a release is found although the modifiers
  have been released before, that after sorting the most specific binding is found, and that the list of
  buttons to grab fits its buffer.
\<close>

section \<open>Searching\<close>

text \<open>The first element with a property.\<close>

lemma index_by_Cons:
  "index_by P (x # xs) = (if P x then Some 0 else map_option Suc (index_by P xs))"
proof -
  have shift: "List.find Q (map Suc ks) = map_option Suc (List.find (\<lambda>k. Q (Suc k)) ks)" for Q ks
    by (induction ks) auto
  have "[0..<length (x # xs)] = 0 # map Suc [0..<length xs]"
    by (simp add: map_Suc_upt upt_conv_Cons del: upt_Suc)
  then show ?thesis by (simp add: index_by_def shift)
qed

lemma index_by_Nil: "index_by P [] = None"
  by (simp add: index_by_def)

lemma index_by_Some:
  "index_by P xs = Some k \<longleftrightarrow> k < length xs \<and> P (xs ! k) \<and> (\<forall>j < k. \<not> P (xs ! j))"
proof (induction xs arbitrary: k)
  case (Cons x xs)
  show ?case
  proof (cases k)
    case (Suc i)
    then show ?thesis using Cons.IH[of i] by (auto simp: index_by_Cons All_less_Suc2 less_Suc_eq_0_disj)
  qed (auto simp: index_by_Cons)
qed (simp add: index_by_Nil)

lemma index_by_None: "index_by P xs = None \<longleftrightarrow> (\<forall>x \<in> set xs. \<not> P x)"
  by (induction xs) (auto simp: index_by_Nil index_by_Cons)

text \<open>The state of a binding is changed in its release type only.\<close>

definition marked :: "u32 \<Rightarrow> nat \<Rightarrow> input_type \<Rightarrow> binding \<Rightarrow> bool" where
  "marked state code ty b \<longleftrightarrow> binding_matches state False code ty b \<and> b_release b = B_UPON_KEYRELEASE"

definition pressed :: "u32 \<Rightarrow> nat \<Rightarrow> input_type \<Rightarrow> binding \<Rightarrow> bool" where
  "pressed state code ty b \<longleftrightarrow> binding_matches state False code ty b \<and> b_release b = B_UPON_KEYPRESS"

lemma plus_Suc_fun: "(+) (Suc k) = (\<lambda>x. Suc (k + x))"
  by (simp add: fun_eq_iff)

lemma search_press:
  assumes "\<forall>b \<in> set bs. b_release b = B_UPON_KEYRELEASE_IGNORE_MODS \<longrightarrow> b_input_type b \<noteq> ty"
  shows "fst (search_binding state False code ty k r bs) =
    (case r of Some i \<Rightarrow> Some i | None \<Rightarrow> map_option (\<lambda>i. k + i) (index_by (pressed state code ty) bs))"
  using assms
proof (induction bs arbitrary: k r)
  case (Cons b bs)
  then have IH: "fst (search_binding state False code ty k r bs) =
      (case r of Some i \<Rightarrow> Some i | None \<Rightarrow> map_option (\<lambda>i. k + i) (index_by (pressed state code ty) bs))" for k r
    by simp
  have ign: "binding_matches state False code ty b \<Longrightarrow> b_release b \<noteq> B_UPON_KEYRELEASE_IGNORE_MODS"
    using Cons.prems by (auto simp: binding_matches_def)
  show ?case
    using ign by (cases "b_release b"; cases r)
      (auto simp: Let_def case_prod_beta IH index_by_Cons pressed_def option.map_comp comp_def plus_Suc_fun)
qed (auto simp: index_by_Nil split: option.split)

lemma search_release:
  "fst (search_binding state True code ty k None bs) =
    map_option (\<lambda>i. k + i) (index_by (\<lambda>b. binding_matches state True code ty b \<and> b_release b \<noteq> B_UPON_KEYPRESS) bs)"
  by (induction bs arbitrary: k) (auto simp: Let_def case_prod_beta index_by_Nil index_by_Cons option.map_comp comp_def plus_Suc_fun)

lemma reset_not_ignored:
  "b \<in> set (map (reset_release ty) bs) \<Longrightarrow> b_release b = B_UPON_KEYRELEASE_IGNORE_MODS \<Longrightarrow> b_input_type b \<noteq> ty"
proof -
  have "b_release (reset_release ty a) = B_UPON_KEYRELEASE_IGNORE_MODS \<Longrightarrow> b_input_type (reset_release ty a) \<noteq> ty" for a
    by (simp add: reset_release_def split: if_splits)
  then show "b \<in> set (map (reset_release ty) bs) \<Longrightarrow> b_release b = B_UPON_KEYRELEASE_IGNORE_MODS \<Longrightarrow> b_input_type b \<noteq> ty"
    by auto
qed

text \<open>The binding a press finds is the first one for a press that matches.\<close>

lemma get_binding_press:
  "fst (get_binding state False code ty bs) = index_by (pressed state code ty) (map (reset_release ty) bs)"
proof -
  have "\<forall>b \<in> set (map (reset_release ty) bs). b_release b = B_UPON_KEYRELEASE_IGNORE_MODS \<longrightarrow> b_input_type b \<noteq> ty"
    using reset_not_ignored by blast
  from search_press[OF this, of state code 0 None] show ?thesis
    by (cases "index_by (pressed state code ty) (map (reset_release ty) bs)") (simp_all add: get_binding_def)
qed

lemma get_binding_release:
  "fst (get_binding state True code ty bs) =
    index_by (\<lambda>b. binding_matches state True code ty b \<and> b_release b \<noteq> B_UPON_KEYPRESS) bs"
  using search_release[of state code ty 0 bs]
  by (cases "index_by (\<lambda>b. binding_matches state True code ty b \<and> b_release b \<noteq> B_UPON_KEYPRESS) bs")
    (simp_all add: get_binding_def)

section \<open>Press, then release\<close>

text \<open>The first matching binding for a release is marked, whatever is found.\<close>

lemma search_marks:
  assumes "b \<in> set bs" and "marked state code ty b"
  shows "\<exists>b' \<in> set bs. marked state code ty b' \<and>
    b'\<lparr>b_release := B_UPON_KEYRELEASE_IGNORE_MODS\<rparr> \<in> set (snd (search_binding state False code ty k r bs))"
  using assms
proof (induction bs arbitrary: k r)
  case (Cons a bs)
  show ?case
  proof (cases "marked state code ty a")
    case True
    then show ?thesis by (intro bexI[of _ a]) (auto simp: marked_def Let_def case_prod_beta)
  next
    case False
    then have "b \<in> set bs" using Cons.prems by auto
    note IH = Cons.IH[OF this Cons.prems(2)]
    then show ?thesis using False
      by (auto simp: marked_def Let_def case_prod_beta)
  qed
qed simp

text \<open>The marked binding matches the release of the key with any modifiers.\<close>

lemma marked_matches_release:
  assumes "marked state code ty b" and "group_mask state' = group_mask state"
  shows "binding_matches state' True code ty (b\<lparr>b_release := B_UPON_KEYRELEASE_IGNORE_MODS\<rparr>)"
  using assms
  by (auto simp: marked_def binding_matches_def groups_match_def mods_match_def list_ex_iff)

lemma release_after_press_found:
  assumes "b \<in> set bs" and "marked state code ty (reset_release ty b)" and "group_mask state' = group_mask state"
  shows "fst (get_binding state' True code ty (snd (get_binding state False code ty bs))) \<noteq> None"
proof -
  let ?bs = "map (reset_release ty) bs"
  have "reset_release ty b \<in> set ?bs" using assms(1) by simp
  from search_marks[OF this assms(2), of 0 None]
  obtain b' where b': "marked state code ty b'"
      "b'\<lparr>b_release := B_UPON_KEYRELEASE_IGNORE_MODS\<rparr> \<in> set (snd (get_binding state False code ty bs))"
    by (auto simp: get_binding_def)
  then show ?thesis
    unfolding get_binding_release index_by_None using marked_matches_release[OF b'(1) assms(3)]
    by (auto intro!: bexI[OF _ b'(2)])
qed

section \<open>The most specific binding\<close>

lemma sorted_by_mask:
  "sorted_wrt (\<lambda>a b. b_state_mask b \<le> b_state_mask a) (mode_bindings (reorder_bindings_of_mode m))"
proof -
  have "sorted (map (\<lambda>b. - int (unat (b_state_mask b))) (mode_bindings (reorder_bindings_of_mode m)))"
    by (simp add: reorder_bindings_of_mode_def)
  then show ?thesis
    by (simp add: sorted_wrt_map word_le_def)
qed

lemma reset_release_mask [simp]: "b_state_mask (reset_release ty b) = b_state_mask b"
  by (simp add: reset_release_def)

lemma most_specific_found:
  assumes "bs = mode_bindings (reorder_bindings_of_mode m)"
    and "fst (get_binding state False code ty bs) = Some k"
    and "b \<in> set bs" and "pressed state code ty (reset_release ty b)"
  shows "k < length bs \<and> pressed state code ty (reset_release ty (bs ! k)) \<and> b_state_mask b \<le> b_state_mask (bs ! k)"
proof -
  have k: "k < length bs" "pressed state code ty (reset_release ty (bs ! k))"
    "\<forall>j < k. \<not> pressed state code ty (map (reset_release ty) bs ! j)"
    using assms(2) by (auto simp: get_binding_press index_by_Some)
  obtain j where j: "j < length bs" "b = bs ! j" using assms(3) by (auto simp: in_set_conv_nth)
  then have "k \<le> j" using k(3) assms(4) by (metis leI nth_map)
  then have "b_state_mask (bs ! j) \<le> b_state_mask (bs ! k)"
    using sorted_by_mask[of m] j(1) unfolding assms(1)[symmetric]
    by (cases "j = k") (auto simp: sorted_wrt_iff_nth_less)
  then show ?thesis using k j(2) by simp
qed

section \<open>Events\<close>

text \<open>What a search returns is the binding as it is after the search; only one for a release is changed.\<close>

lemma reset_release_simps [simp]: "b_input_type (reset_release ty b) = b_input_type b"
  by (simp add: reset_release_def)

lemma search_length [simp]: "length (snd (search_binding state rel code ty k r bs)) = length bs"
  by (induction bs arbitrary: k r) (auto simp: Let_def case_prod_beta)

lemma search_nth:
  "i < length bs \<Longrightarrow> b_release (bs ! i) \<noteq> B_UPON_KEYRELEASE \<or> rel \<Longrightarrow>
    snd (search_binding state rel code ty k r bs) ! i = bs ! i"
proof (induction bs arbitrary: i k r)
  case (Cons b bs)
  then show ?case by (cases i) (auto simp: Let_def case_prod_beta)
qed simp

lemma find_mode_reorder:
  "find_mode n (map reorder_bindings_of_mode ms) = map_option reorder_bindings_of_mode (find_mode n ms)"
  by (induction ms) (auto simp: find_mode_def reorder_bindings_of_mode_def)

lemma bindings_reorder:
  "b \<in> set (bindings (reorder_bindings k)) \<Longrightarrow>
    \<exists>m. bindings (reorder_bindings k) = mode_bindings (reorder_bindings_of_mode m)"
  by (auto simp: bindings_def reorder_bindings_def find_mode_reorder split: option.splits)

lemma set_bindings_reorder [simp]: "set (bindings (reorder_bindings k)) = set (bindings k)"
  by (simp add: bindings_def reorder_bindings_def find_mode_reorder reorder_bindings_of_mode_def split: option.split)

definition event_type :: "input_event \<Rightarrow> input_type" where
  "event_type ev = (if ev_button ev then B_MOUSE else B_KEYBOARD)"

section \<open>Buttons\<close>

lemma add_buttons_length: "length buf \<le> 24 \<Longrightarrow> length (add_buttons buf bs) \<le> 24"
  by (induction bs arbitrary: buf) (auto simp: Let_def case_prod_beta)

lemma add_buttons_prefix: "\<exists>more. add_buttons buf bs = buf @ more"
proof (induction bs arbitrary: buf)
  case (Cons b bs)
  then show ?case by (auto simp: Let_def case_prod_beta) (metis append.assoc append_Cons)+
qed simp

lemma buttons_fit:
  "length (bindings_get_buttons_to_grab bs) \<le> 25 \<and> (\<exists>more. bindings_get_buttons_to_grab bs = [1, 2, 3] @ more @ [0])"
proof -
  obtain more where "add_buttons [1, 2, 3] bs = [1, 2, 3] @ more" using add_buttons_prefix by blast
  then show ?thesis
    using add_buttons_length[of "[1, 2, 3]" bs] by (auto simp: bindings_get_buttons_to_grab_def)
qed

text \<open>
  A whole-window binding for the symbol \<open>button\<close> alone is number 0, which ends the list for its reader:
  the buttons behind it are not grabbed.
\<close>

definition whole_window :: "string \<Rightarrow> binding" where
  "whole_window s = \<lparr>b_input_type = B_MOUSE, b_release = B_UPON_KEYPRESS, b_border = False, b_whole_window = True,
     b_exclude_titlebar = False, b_keycode = 0, b_state_mask = 0, b_symbol = Some s, b_keycodes = [], b_command = []\<rparr>"

lemma button_without_number:
  "bindings_get_buttons_to_grab [whole_window ''button'', whole_window ''button8''] = [1, 2, 3, 0, 8, 0]"
  by code_simp

section \<open>Translation\<close>

text \<open>A binding for code 0 has neither a code nor a symbol.\<close>

lemma bindcode_0_fails:
  assumes "new_binding ''bindcode'' mods ''0'' opts cmd = Some b" shows "translate_binding km numlock b = None"
proof -
  have "parse_long ''0'' 10 = (True, 0)" by code_simp
  then show ?thesis using assms by (auto simp: new_binding_def Let_def translate_binding_def)
qed

text \<open>
  The modifier Shift is toggled, not removed: a binding without Shift is also resolved with Shift.
\<close>

lemma shift_is_toggled:
  assumes "\<not> bit msk 0" shows "bit (rs_no_shift (resolve_for numlock msk keysym)) 0"
  using assms by (simp add: resolve_for_def Let_def MASK_SHIFT_def bit_xor_iff bit_and_iff bit_1_iff)

section \<open>Duplicates\<close>

lemma duplicates_after_iff:
  "duplicates_after before bs \<longleftrightarrow>
    \<not> sorted_wrt (\<lambda>a b. \<not> binding_same_key a b) bs \<or> (\<exists>a \<in> set before. \<exists>b \<in> set bs. binding_same_key a b)"
  by (induction bs arbitrary: before) (auto simp: list_ex_iff)

lemma check_for_duplicates_iff:
  "check_for_duplicate_bindings k \<longleftrightarrow>
    (\<exists>i j. i < j \<and> j < length (bindings k) \<and> binding_same_key (bindings k ! i) (bindings k ! j))"
  by (auto simp: check_for_duplicate_bindings_def duplicates_after_iff sorted_wrt_iff_nth_less)

section \<open>Modes\<close>

lemma find_mode_set_bindings:
  "find_mode n (set_bindings name f ms) =
    map_option (\<lambda>m. if mode_name m = name then m\<lparr>mode_bindings := f (mode_bindings m)\<rparr> else m) (find_mode n ms)"
  by (induction ms) (auto simp: find_mode_def set_bindings_def)

lemma find_mode_Some: "find_mode n ms = Some m \<Longrightarrow> mode_name m = n"
  by (auto simp: find_mode_def dest: find_SomeD)

lemma bindings_upd_bindings: "find_mode (current_binding_mode k) (modes k) \<noteq> None \<Longrightarrow>
    bindings (upd_bindings f k) = f (bindings k)"
  by (auto simp: bindings_def upd_bindings_def find_mode_set_bindings dest: find_mode_Some)

definition mode_names_distinct :: "keys \<Rightarrow> bool" where
  "mode_names_distinct k \<longleftrightarrow> distinct (map mode_name (modes k))"

lemma set_bindings_names [simp]: "map mode_name (set_bindings name f ms) = map mode_name ms"
  by (induction ms) (auto simp: set_bindings_def)

lemma find_mode_None: "find_mode name ms = None \<longleftrightarrow> name \<notin> mode_name ` set ms"
  by (auto simp: find_mode_def find_None_iff)

lemma mode_names_distinct_steps:
  assumes "mode_names_distinct k"
  shows "mode_names_distinct (snd (configure_binding bt mods code opts cmd modename pm k))"
    and "mode_names_distinct (reorder_bindings k)"
    and "switch_mode km new_mode k = Some k' \<Longrightarrow> mode_names_distinct k'"
    and "mode_names_distinct (snd (get_binding_from_xcb_event ev k))"
proof -
  note d = mode_names_distinct_def upd_bindings_def log_keys_def
  show "mode_names_distinct (snd (configure_binding bt mods code opts cmd modename pm k))"
    using assms by (auto simp: d configure_binding_def mode_from_name_def find_mode_None split: option.split)
  have "map mode_name (map reorder_bindings_of_mode ms) = map mode_name ms" for ms
    by (simp add: reorder_bindings_of_mode_def)
  then show "mode_names_distinct (reorder_bindings k)"
    using assms by (simp add: d reorder_bindings_def del: map_map)
  have tr: "translate_keysyms km k = Some k' \<Longrightarrow> map mode_name (modes k') = map mode_name (modes k)" for k k'
    by (auto simp: translate_keysyms_def d bind_eq_Some_conv split: if_splits)
  show "switch_mode km new_mode k = Some k' \<Longrightarrow> mode_names_distinct k'"
    using assms by (auto simp: switch_mode_def d Let_def bind_eq_Some_conv split: option.splits dest!: tr)
  show "mode_names_distinct (snd (get_binding_from_xcb_event ev k))"
    using assms by (simp add: d get_binding_from_xcb_event_def Let_def case_prod_beta)
qed

end
