(* ===== verification/Input.thy ===== *)
theory Input
  imports Handlers Bindings Command_Run
begin

text \<open>
  Running bindings (src/bindings.c) and key presses (src/key_press.c).  The state of a session is that of
  the event handlers together with the bindings; the clicks read three settings more.  A \<open>mode\<close> command
  takes effect on the bindings while the command is run.
\<close>

datatype tiling_drag_mode =
  TILING_DRAG_OFF | TILING_DRAG_MODIFIER | TILING_DRAG_TITLEBAR | TILING_DRAG_MODIFIER_OR_TITLEBAR

record session =
  sx :: xstate
  skeys :: keys
  skeymap :: keymap
  floating_modifier :: u32
  swap_modifier :: u32
  tiling_drag_setting :: tiling_drag_mode

type_synonym action = "session \<Rightarrow> session option"

definition on_s :: "handler \<Rightarrow> action" where
  "on_s f ss = map_option (\<lambda>h. ss\<lparr>sx := h\<rparr>) (f (sx ss))"

definition on_i3 :: "(i3 \<Rightarrow> i3 option) \<Rightarrow> action" where
  "on_i3 f = on_s (on_x f)"

definition stree :: "session \<Rightarrow> i3" where "stree ss = xtree (sx ss)"
definition semit :: "effect \<Rightarrow> action" where "semit e = on_i3 (\<lambda>s. Some (emit e s))"
definition senv :: "session \<Rightarrow> env" where "senv ss = xenv (sx ss)"

section \<open>Pointers in criteria\<close>

text \<open>What \<open>%p\<close> prints.\<close>

definition hex_digit :: "nat \<Rightarrow> char" where "hex_digit d = ''0123456789abcdef'' ! d"

fun hex_digits :: "nat \<Rightarrow> string" where
  "hex_digits n = (if n < 16 then [hex_digit n] else hex_digits (n div 16) @ [hex_digit (n mod 16)])"

declare hex_digits.simps [simp del]

definition print_pointer :: "nat \<Rightarrow> string" where "print_pointer n = ''0x'' @ hex_digits n"

definition binding_command :: "binding \<Rightarrow> con_id option \<Rightarrow> string" where
  "binding_command b c =
     (case c of
        None \<Rightarrow> b_command b
      | Some c \<Rightarrow> ''[con_id='' @ [dquote] @ print_pointer c @ [dquote] @ ''] '' @ b_command b)"

section \<open>Running a binding\<close>

definition mode_switches :: "effect list \<Rightarrow> string list" where
  "mode_switches es = concat (map (\<lambda>e. case e of Switch_Mode m \<Rightarrow> [m] | _ \<Rightarrow> []) es)"

definition run_binding :: "binding \<Rightarrow> con_id option \<Rightarrow> session \<Rightarrow> (command_result \<times> session) option" where
  "run_binding b c ss = do {
     let h = sx ss;
     let modename = current_binding_mode (skeys ss);
     (r, p) \<leftarrow> parse_command (dispatch (xworld h) (xcalls h)) command_tokens (binding_command b c) (mparser (xmgr h));
     let switches = mode_switches (drop (length (effects (xtree h))) (effects (wm (p_cmd p))));
     k \<leftarrow> fold_opt (switch_mode (skeymap ss)) switches (skeys ss);
     h \<leftarrow> (if result_needs_tree_render r then on_x tree_render (h\<lparr>xmgr := (xmgr h)\<lparr>mparser := p\<rparr>\<rparr>)
       else Some (h\<lparr>xmgr := (xmgr h)\<lparr>mparser := p\<rparr>\<rparr>));
     Some (r, ss\<lparr>sx := h,
       skeys := log_keys ((if parse_error r then [Command_Error_Nagbar] else []) @ [Ipc_Binding_Run b modename]) k\<rparr>)
   }"

definition handle_key_press :: "input_event \<Rightarrow> action" where
  "handle_key_press ev ss =
     (let (b, k) = get_binding_from_xcb_event ev (skeys ss); ss = ss\<lparr>skeys := k\<rparr> in
      case b of None \<Rightarrow> Some ss | Some b \<Rightarrow> map_option snd (run_binding b None ss))"

section \<open>Facts\<close>

lemma digit_of_hex_digit: "d < 16 \<Longrightarrow> digit_of (hex_digit d) = Some d"
proof -
  have "list_all (\<lambda>d. digit_of (hex_digit d) = Some d) [0..<16]" by code_simp
  then show "d < 16 \<Longrightarrow> digit_of (hex_digit d) = Some d" by (simp add: list_all_iff)
qed

lemma read_hex_digits:
  "\<exists>k. \<forall>a. read_digits 16 a (hex_digits n @ r) = read_digits 16 (a * 16 ^ k + n) r"
proof (induction n arbitrary: r rule: hex_digits.induct)
  case (1 n)
  show ?case
  proof (cases "n < 16")
    case True
    then show ?thesis by (intro exI[of _ 1]) (simp add: hex_digits.simps digit_of_hex_digit)
  next
    case False
    obtain k where k: "\<forall>a. read_digits 16 a (hex_digits (n div 16) @ [hex_digit (n mod 16)] @ r) =
        read_digits 16 (a * 16 ^ k + n div 16) ([hex_digit (n mod 16)] @ r)"
      using 1[OF False, of "[hex_digit (n mod 16)] @ r"] by blast
    have "16 * (a * 16 ^ k + n div 16) + n mod 16 = a * 16 ^ Suc k + n" for a
      by (simp add: algebra_simps)
    moreover have "read_digits 16 (a * 16 ^ k + n div 16) ([hex_digit (n mod 16)] @ r) =
        read_digits 16 (16 * (a * 16 ^ k + n div 16) + n mod 16) r" for a
      by (simp add: digit_of_hex_digit mult.commute)
    ultimately have "read_digits 16 a (hex_digits n @ r) = read_digits 16 (a * 16 ^ Suc k + n) r" for a
      using k False by (simp only: hex_digits.simps[of n] if_False append_assoc)
    then show ?thesis by blast
  qed
qed

lemma hex_digits_Cons: "\<exists>d cs. d < 16 \<and> hex_digits n = hex_digit d # cs"
proof (induction n rule: hex_digits.induct)
  case (1 n)
  then show ?case by (cases "n < 16") (auto simp: hex_digits.simps[of n])
qed

text \<open>A printed pointer is read back.\<close>

lemma parse_print_pointer:
  assumes "int n < long_max" shows "parse_long (print_pointer n) 0 = (True, int n)"
proof -
  obtain d cs where d: "d < 16" "hex_digits n = hex_digit d # cs" using hex_digits_Cons by blast
  obtain k where k: "\<forall>a. read_digits 16 a (hex_digits n) = (a * 16 ^ k + n, [])"
    using read_hex_digits[of n "[]"] by auto
  have "starts_digit 16 (hex_digits n)" using d by (simp add: starts_digit_def digit_of_hex_digit)
  moreover have "hex_prefix (''0x'' @ hex_digits n)"
    using calculation by (simp add: hex_prefix_def to_lower_def char_code_def)
  moreover have "dropWhile is_space (''0x'' @ hex_digits n) = ''0x'' @ hex_digits n"
    by (simp add: is_space_def char_code_def)
  ultimately show ?thesis
    using k assms
    by (simp add: parse_long_def print_pointer_def strtol_def sign_of_def base_of_def clamp_long_def Let_def
        long_max_def long_min_def)
qed

end
