(* ===== verification/Drag.thy ===== *)
theory Drag
  imports Input
begin

unbundle bit_operations_syntax

text \<open>
  Dragging with the pointer: the loop of src/drag.c, and what is done in it with floating windows
  (src/floating.c), with the border between two containers (src/resize.c) and with tiled windows
  (src/tiling_drag.c).  What the user and the X server do during a drag is a \<open>script\<close>: whether pointer
  and keyboard could be grabbed, and the events in the batches in which they arrive.  A script that does
  not end the drag has no result.  The indicator windows are left out.
\<close>

section \<open>The loop\<close>

datatype drag_result = DRAGGING | DRAG_SUCCESS | DRAG_REVERT | DRAG_ABORT

datatype (plugins only: ) drag_event =
    D_Error
  | D_Button_Release
  | D_Key_Press input_event
  | D_Unmap xtarget nat
  | D_Motion int int
  | D_Other xevent

record drag_script =
  grabbed :: bool
  batches :: "drag_event list list"

record button_event =
  be_target :: xtarget
  be_input :: input_event
  be_child :: bool
  be_x :: int
  be_y :: int
  be_root_x :: int
  be_root_y :: int

definition threshold_exceeded :: "world \<Rightarrow> u32 \<Rightarrow> u32 \<Rightarrow> u32 \<Rightarrow> u32 \<Rightarrow> bool" where
  "threshold_exceeded w x1 y1 x2 y2 =
     (let t = of_int (logical_px w 15) :: u32 in (x1 - x2) * (x1 - x2) + (y1 - y2) * (y1 - y2) > t * t)"

definition unmap_aborts :: "xtarget \<Rightarrow> i3 \<Rightarrow> bool option" where
  "unmap_aborts t s =
     (case con_by_client s t of
        None \<Rightarrow> Some False
      | Some c \<Rightarrow> do {
          ws \<leftarrow> con_get_workspace s c;
          f \<leftarrow> focused s;
          fws \<leftarrow> con_get_workspace s f;
          Some (ws = fws) })"

text \<open>The result, the last movement and the session after the events that are there.\<close>

fun poll_drag_events ::
  "drag_event list \<Rightarrow> (int \<times> int) option \<Rightarrow> session \<Rightarrow> (drag_result \<times> (int \<times> int) option \<times> session) option" where
  "poll_drag_events [] seen ss = Some (DRAGGING, seen, ss)"
| "poll_drag_events (e # es) seen ss =
     (case e of
        D_Error \<Rightarrow> poll_drag_events es seen ss
      | D_Button_Release \<Rightarrow> Some (DRAG_SUCCESS, seen, ss)
      | D_Key_Press ev \<Rightarrow> map_option (\<lambda>ss. (DRAG_REVERT, None, ss)) (handle_key_press ev ss)
      | D_Unmap t sequence \<Rightarrow> do {
          aborts \<leftarrow> unmap_aborts t (stree ss);
          ss \<leftarrow> on_s (handle_event (Ev_Unmap t sequence)) ss;
          if aborts then Some (DRAG_ABORT, None, ss) else poll_drag_events es seen ss }
      | D_Motion x y \<Rightarrow> poll_drag_events es (Some (x, y)) ss
      | D_Other ev \<Rightarrow> do { ss \<leftarrow> on_s (handle_event ev) ss; poll_drag_events es seen ss })"

text \<open>
  The callback gets the rectangle at the start and the position of the pointer; its state \<open>'p\<close> stands for
  the variables its parameters point to.
\<close>

type_synonym 'p drag_callback = "rect \<Rightarrow> u32 \<Rightarrow> u32 \<Rightarrow> 'p \<times> session \<Rightarrow> ('p \<times> session) option"

definition drain_drag_events ::
  "con_id option \<Rightarrow> button_event \<Rightarrow> rect \<Rightarrow> 'p drag_callback \<Rightarrow> drag_event list \<Rightarrow> bool \<times> 'p \<times> session \<Rightarrow>
     (drag_result \<times> bool \<times> 'p \<times> session) option" where
  "drain_drag_events c ev old cb es = (\<lambda>(exceeded, p, ss). do {
     (res, seen, ss) \<leftarrow> poll_drag_events es None ss;
     (case seen of
        None \<Rightarrow> Some (res, exceeded, p, ss)
      | Some (x, y) \<Rightarrow> do {
          let x = of_int x;
          let y = of_int y;
          let exceeded = (exceeded \<or> threshold_exceeded (xworld (sx ss)) x y (of_int (be_root_x ev)) (of_int (be_root_y ev)));
          (p, ss) \<leftarrow> (if exceeded \<and> (case c of None \<Rightarrow> True | Some c \<Rightarrow> con_exists (stree ss) c)
            then cb old x y (p, ss) else Some (p, ss));
          Some (res, exceeded, p, ss) })
   })"

fun drag_loop ::
  "con_id option \<Rightarrow> button_event \<Rightarrow> rect \<Rightarrow> 'p drag_callback \<Rightarrow> drag_event list list \<Rightarrow> bool \<times> 'p \<times> session \<Rightarrow>
     (drag_result \<times> 'p \<times> session) option" where
  "drag_loop c ev old cb [] st = None"
| "drag_loop c ev old cb (es # bs) st = do {
     (res, exceeded, p, ss) \<leftarrow> drain_drag_events c ev old cb es st;
     if res \<noteq> DRAGGING then Some (res, p, ss) else drag_loop c ev old cb bs (exceeded, p, ss)
   }"

definition drag_pointer ::
  "con_id option \<Rightarrow> button_event \<Rightarrow> bool \<Rightarrow> 'p drag_callback \<Rightarrow> drag_script \<Rightarrow> 'p \<times> session \<Rightarrow>
     (drag_result \<times> 'p \<times> session) option" where
  "drag_pointer c ev use_threshold cb scr = (\<lambda>(p, ss).
     if \<not> grabbed scr then Some (DRAG_ABORT, p, ss)
     else let old = (case c of None \<Rightarrow> mk_rect 0 0 0 0 | Some c \<Rightarrow> con_rect (heap (stree ss) c))
          in drag_loop c ev old cb (batches scr) (\<not> use_threshold, p, ss))"

section \<open>Floating windows\<close>

definition set_rect :: "con_id \<Rightarrow> (rect \<Rightarrow> rect) \<Rightarrow> i3 \<Rightarrow> i3" where
  "set_rect c f = upd c (\<lambda>n. n\<lparr>con_rect := f (con_rect n)\<rparr>)"

definition drag_window_callback :: "env \<Rightarrow> con_id \<Rightarrow> button_event \<Rightarrow> rect \<Rightarrow> u32 \<Rightarrow> u32 \<Rightarrow> i3 \<Rightarrow> i3 option" where
  "drag_window_callback e c ev old x y s = do {
     let s = set_rect c (\<lambda>r. r\<lparr>rx := rx old + (x - of_int (be_root_x ev)), ry := ry old + (y - of_int (be_root_y ev))\<rparr>) s;
     s \<leftarrow> render c s;
     (moved, s) \<leftarrow> floating_maybe_reassign_ws e c (emit (X_Push_Node c) s);
     if \<not> moved then Some s else tree_render (emit (X_Set_Warp_To None) s)
   }"

text \<open>A callback without parameters.\<close>

definition plain_callback :: "(rect \<Rightarrow> u32 \<Rightarrow> u32 \<Rightarrow> session \<Rightarrow> i3 \<Rightarrow> i3 option) \<Rightarrow> unit drag_callback" where
  "plain_callback f old x y = (\<lambda>(p, ss). map_option (Pair p) (on_i3 (f old x y ss) ss))"

definition forget_fresh :: "con_id \<Rightarrow> i3 \<Rightarrow> i3" where
  "forget_fresh c = upd c (\<lambda>n. if scratchpad_state n = SCRATCHPAD_FRESH then n\<lparr>scratchpad_state := SCRATCHPAD_CHANGED\<rparr> else n)"

definition floating_drag_window :: "con_id \<Rightarrow> button_event \<Rightarrow> bool \<Rightarrow> drag_script \<Rightarrow> action" where
  "floating_drag_window c ev use_threshold scr ss = do {
     ss \<leftarrow> on_i3 tree_render ss;
     let initial_rect = con_rect (heap (stree ss) c);
     (res, _, ss) \<leftarrow> drag_pointer (Some c) ev use_threshold
       (plain_callback (\<lambda>old x y ss. drag_window_callback (senv ss) c ev old x y)) scr ((), ss);
     if \<not> con_exists (stree ss) c then Some ss
     else if res = DRAG_REVERT then on_i3 (\<lambda>s. map_option snd (floating_reposition (senv ss) c initial_rect s)) ss
     else on_i3 (\<lambda>s. tree_render (forget_fresh c s)) ss
   }"

text \<open>The corner that is dragged: whether it is a left and whether it is a top one.\<close>

definition trunc_int :: "rat \<Rightarrow> int" where "trunc_int q = (if q \<ge> 0 then \<lfloor>q\<rfloor> else \<lceil>q\<rceil>)"

definition max_s32 :: "u32 \<Rightarrow> int \<Rightarrow> u32" where
  "max_s32 a b = (if sint a > sint (of_int b :: u32) then a else of_int b)"

text \<open>Dividing by a width or height of 0 is a failure.\<close>

definition proportional_size :: "rect \<Rightarrow> u32 \<Rightarrow> u32 \<Rightarrow> (u32 \<times> u32) option" where
  "proportional_size old dw dh =
     (if rwidth old = 0 \<or> rheight old = 0 then None
      else let ratio = of_nat (unat (rwidth old)) / of_nat (unat (rheight old)) :: rat;
               dw = max_s32 dw (trunc_int (of_nat (unat dh) * ratio));
               dh = max_s32 dh (trunc_int (of_nat (unat dw) / ratio))
           in Some (dw, dh))"

definition resize_window_callback ::
  "env \<Rightarrow> con_id \<Rightarrow> bool \<times> bool \<Rightarrow> bool \<Rightarrow> button_event \<Rightarrow> rect \<Rightarrow> u32 \<Rightarrow> u32 \<Rightarrow> i3 \<Rightarrow> i3 option" where
  "resize_window_callback e c = (\<lambda>(left, top) proportional ev old x y s. do {
     let dx = x - of_int (be_root_x ev);
     let dy = y - of_int (be_root_y ev);
     let dw = (if left then rwidth old - dx else rwidth old + dx);
     let dh = (if top then rheight old - dy else rheight old + dy);
     (dw, dh) \<leftarrow> (if proportional then proportional_size old dw dh else Some (dw, dh));
     let r = con_rect (heap s c);
     s \<leftarrow> floating_check_size e c False (set_rect c (\<lambda>_. mk_rect (rx r) (ry r) dw dh) s);
     let n = con_rect (heap s c);
     let x' = (if left then rx old + (rwidth old - rwidth n) else rx r);
     let y' = (if top then ry old + (rheight old - rheight n) else ry r);
     s \<leftarrow> render c (set_rect c (\<lambda>r. r\<lparr>rx := x', ry := y'\<rparr>) s);
     Some (emit X_Push_Changes s)
   })"

definition grabbed_corner :: "button_event \<Rightarrow> rect \<Rightarrow> bool \<times> bool" where
  "grabbed_corner ev r = (be_x ev \<le> wrap_s16 (uint (rwidth r div 2)), be_y ev \<le> wrap_s16 (uint (rheight r div 2)))"

definition floating_resize_window :: "con_id \<Rightarrow> bool \<Rightarrow> button_event \<Rightarrow> drag_script \<Rightarrow> action" where
  "floating_resize_window c proportional ev scr ss = do {
     ss \<leftarrow> on_i3 tree_render ss;
     let initial_rect = con_rect (heap (stree ss) c);
     (res, _, ss) \<leftarrow> drag_pointer (Some c) ev False
       (plain_callback (\<lambda>old x y ss. resize_window_callback (senv ss) c (grabbed_corner ev initial_rect) proportional ev old x y))
       scr ((), ss);
     if \<not> con_exists (stree ss) c then Some ss
     else do {
       ss \<leftarrow> (if res = DRAG_REVERT then on_i3 (\<lambda>s. map_option snd (floating_reposition (senv ss) c initial_rect s)) ss
         else Some ss);
       on_i3 (\<lambda>s. Some (forget_fresh c s)) ss
     }
   }"

section \<open>The border between two containers\<close>

text \<open>The state of the callback: the new position and whether the resize bar is shown.\<close>

definition resize_callback :: "orientation \<Rightarrow> rect \<Rightarrow> u32 \<Rightarrow> u32 \<Rightarrow> u32 \<times> bool \<Rightarrow> u32 \<times> bool" where
  "resize_callback ori r x y = (\<lambda>(pos, shown).
     if \<not> shown then (pos, True)
     else if ori = HORIZ
     then (if x > rx r + rwidth r - 25 \<or> x < rx r + 25 then (pos, shown) else (x, shown))
     else (if y > ry r + rheight r - 25 \<or> y < ry r + 25 then (pos, shown) else (y, shown)))"

definition resize_start :: "orientation \<Rightarrow> rect \<Rightarrow> rect \<Rightarrow> u32" where
  "resize_start ori a b =
     (if ori = HORIZ then rx b - (rx b - (rx a + rwidth a)) div 2 else ry b - (ry b - (ry a + rheight a)) div 2)"

definition resize_graphical_handler :: "con_id \<Rightarrow> con_id \<Rightarrow> orientation \<Rightarrow> button_event \<Rightarrow> bool \<Rightarrow> drag_script \<Rightarrow> action" where
  "resize_graphical_handler first second ori ev use_threshold scr ss = do {
     let s = stree ss;
     out \<leftarrow> con_get_output s first;
     ffirst \<leftarrow> con_descend_focused s first;
     fsecond \<leftarrow> con_descend_focused s second;
     let start = resize_start ori (con_rect (heap s ffirst)) (con_rect (heap s fsecond));
     ss \<leftarrow> on_i3 tree_render ss;
     (res, (pos, _), ss) \<leftarrow> drag_pointer None ev use_threshold
       (\<lambda>_ x y (p, ss). do {
          out \<leftarrow> deref (stree ss) out;
          Some (resize_callback ori (con_rect (heap (stree ss) out)) x y p, ss) })
       scr ((start, \<not> use_threshold), ss);
     let pixels = sint (pos - start);
     if res = DRAG_REVERT \<or> pixels = 0 then Some ss
     else do {
       first \<leftarrow> deref (stree ss) first;
       second \<leftarrow> deref (stree ss) second;
       if percent (heap (stree ss) first) \<le> 0 \<or> percent (heap (stree ss) second) \<le> 0 then None
       else on_i3 (\<lambda>s. map_option snd (resize_neighboring_cons first second pixels 0 s)) ss
     }
   }"

section \<open>Tiled windows\<close>

definition is_tiling_drop_target :: "i3 \<Rightarrow> con_id \<Rightarrow> bool option" where
  "is_tiling_drop_target s c = do {
     b \<leftarrow> con_has_managed_window s (Some c);
     if \<not> b \<or> con_is_floating s c then Some False
     else do {
       hidden \<leftarrow> con_is_hidden s c;
       if hidden then Some False
       else do {
         ws \<leftarrow> con_get_workspace s c;
         ws \<leftarrow> ws;
         internal \<leftarrow> con_is_internal s ws;
         if internal then Some False
         else do {
           visible \<leftarrow> workspace_is_visible s ws;
           if \<not> visible then Some False
           else do {
             fs \<leftarrow> con_get_fullscreen_covering_ws s (Some ws);
             Some (fs = None \<or> fs = Some c) } } } }
   }"

fun first_visible :: "i3 \<Rightarrow> con_id list \<Rightarrow> con_id option option" where
  "first_visible s [] = Some None"
| "first_visible s (ws # wss) = do { v \<leftarrow> workspace_is_visible s ws; if v then Some (Some ws) else first_visible s wss }"

definition empty_visible_workspace :: "i3 \<Rightarrow> con_id \<Rightarrow> bool option" where
  "empty_visible_workspace s out = do {
     internal \<leftarrow> con_is_internal s out;
     if internal then Some False
     else do {
       content \<leftarrow> output_get_content s out;
       ws \<leftarrow> first_visible s (nodes_head (heap s content));
       Some (case ws of None \<Rightarrow> False | Some ws \<Rightarrow> con_num_children s ws = 0) }
   }"

definition has_drop_targets :: "i3 \<Rightarrow> bool option" where
  "has_drop_targets s = do {
     targets \<leftarrow> map_opt (is_tiling_drop_target s) (all_cons s);
     empties \<leftarrow> map_opt (empty_visible_workspace s) (focus_head (heap s (croot s)));
     Some (length (filter id targets) + length (filter id empties) > 1)
   }"

fun target_at :: "i3 \<Rightarrow> u32 \<Rightarrow> u32 \<Rightarrow> con_id list \<Rightarrow> con_id option option" where
  "target_at s x y [] = Some None"
| "target_at s x y (c # cs) =
     (if \<not> rect_contains (con_rect (heap s c)) x y then target_at s x y cs
      else do {
        b \<leftarrow> is_tiling_drop_target s c;
        if \<not> b then target_at s x y cs
        else do {
          ws \<leftarrow> con_get_workspace s c;
          fs \<leftarrow> con_get_fullscreen_covering_ws s ws;
          Some (Some (case fs of None \<Rightarrow> c | Some f \<Rightarrow> f)) } })"

definition find_drop_target :: "env \<Rightarrow> i3 \<Rightarrow> u32 \<Rightarrow> u32 \<Rightarrow> con_id option option" where
  "find_drop_target e s x y = do {
     t \<leftarrow> target_at s x y (all_cons s);
     (case t of
        Some c \<Rightarrow> Some (Some c)
      | None \<Rightarrow>
          (case get_output_containing (outputs e) x y of
             None \<Rightarrow> Some None
           | Some out \<Rightarrow> do {
               oc \<leftarrow> out_con out;
               content \<leftarrow> output_get_content s oc;
               map_option Some (con_descend_tiling_focused s content) }))
   }"

datatype drop_type = DT_SIBLING | DT_CENTER | DT_PARENT

definition reverse_direction :: "direction \<Rightarrow> direction" where
  "reverse_direction d = (case d of D_LEFT \<Rightarrow> D_RIGHT | D_RIGHT \<Rightarrow> D_LEFT | D_UP \<Rightarrow> D_DOWN | D_DOWN \<Rightarrow> D_UP)"

definition con_on_side_of_parent :: "i3 \<Rightarrow> con_id \<Rightarrow> direction \<Rightarrow> bool option" where
  "con_on_side_of_parent s c d = do {
     p \<leftarrow> parent (heap s c);
     ori \<leftarrow> con_orientation s p;
     if ori \<noteq> orientation_from_direction d \<or> layout (heap s p) = L_STACKED \<or> layout (heap s p) = L_TABBED then Some True
     else do { e \<leftarrow> con_descend_direction s p (reverse_direction d); Some (e = c) }
   }"

text \<open>Where the pointer is in the rectangle: the nearest edge, and what a drop there means.\<close>

definition sibling_indicator_size :: "world \<Rightarrow> rect \<Rightarrow> u32" where
  "sibling_indicator_size w r =
     (let m = min (sint (rwidth r)) (sint (rheight r))
      in of_int (max (logical_px w 2) (trunc_int (3 / 10 * of_int (uint (of_int m :: u32))))))"

definition parent_indicator_size :: "world \<Rightarrow> config \<Rightarrow> u32 \<Rightarrow> u32" where
  "parent_indicator_size w g sib = of_int (min (render_deco_height g + logical_px w 5) (sint (sib - 1)))"

definition nearest_edge :: "rect \<Rightarrow> u32 \<Rightarrow> u32 \<Rightarrow> direction \<times> u32" where
  "nearest_edge r x y =
     (let l = x - rx r; t = y - ry r; rt = rx r + rwidth r - x; b = ry r + rheight r - y;
          m = (\<lambda>a b. if sint a < sint b then a else b);
          d = m (m l rt) (m t b)
      in (if l = d then D_LEFT else if t = d then D_UP else if rt = d then D_RIGHT else D_DOWN, d))"

fun climb_target :: "nat \<Rightarrow> i3 \<Rightarrow> con_id \<Rightarrow> direction \<Rightarrow> con_id option" where
  "climb_target 0 s t d = None"
| "climb_target (Suc k) s t d = do {
     p \<leftarrow> parent (heap s t);
     if con_type (heap s p) = CT_WORKSPACE then Some t
     else do { b \<leftarrow> con_on_side_of_parent s p d; if b then climb_target k s p d else Some t }
   }"

type_synonym drop = "(con_id \<times> direction \<times> drop_type) option"

definition drag_callback :: "world \<Rightarrow> con_id \<Rightarrow> i3 \<Rightarrow> u32 \<Rightarrow> u32 \<Rightarrow> drop \<Rightarrow> drop option" where
  "drag_callback w c s x y p = do {
     t \<leftarrow> find_drop_target (the_env w) s x y;
     (case t of
        None \<Rightarrow> Some p
      | Some target \<Rightarrow>
          if con_type (heap s target) = CT_WORKSPACE then Some (Some (target, D_LEFT, DT_CENTER))
          else do {
            let r = con_rect (heap s target);
            let sib = sibling_indicator_size w r;
            let (d, dist_min) = nearest_edge r x y;
            side \<leftarrow> (if dist_min < parent_indicator_size w (cfg s) sib then con_on_side_of_parent s target d else Some False);
            let dt = (if side then DT_PARENT else if dist_min < sib then DT_SIBLING else DT_CENTER);
            target \<leftarrow> (if dt = DT_PARENT then climb_target (up_fuel s) s target d else Some target);
            Some (Some (target, d, dt)) })
   }"

definition drop_center :: "env \<Rightarrow> bool \<Rightarrow> con_id \<Rightarrow> con_id \<Rightarrow> i3 \<Rightarrow> (bool \<times> i3) option" where
  "drop_center e swap c target s =
     (if swap then con_swap c target s
      else map_option (\<lambda>(_, s). (True, s)) (con_move_to_target e c target s))"

definition drop_sibling :: "con_id \<Rightarrow> con_id \<Rightarrow> direction \<Rightarrow> i3 \<Rightarrow> i3 option" where
  "drop_sibling c target d s = do {
     let ori = orientation_from_direction d;
     tp \<leftarrow> parent (heap s target);
     tori \<leftarrow> con_orientation s tp;
     s \<leftarrow> (if tori = ori then Some s
       else if parent (heap s c) = Some tp \<and> con_num_children s tp = 2
       then Some (upd tp (\<lambda>n. n\<lparr>layout := (if ori = VERT then L_SPLITV else L_SPLITH)\<rparr>) s)
       else tree_split target ori s);
     s \<leftarrow> insert_con_into c target (position_from_direction d) s;
     Some (emit (Ipc_Window ''move'' c) s)
   }"

definition drop_parent :: "env \<Rightarrow> con_id \<Rightarrow> con_id \<Rightarrow> direction \<Rightarrow> i3 \<Rightarrow> i3 option" where
  "drop_parent e c target d s = do {
     tp \<leftarrow> parent (heap s target);
     target \<leftarrow> (if layout (heap s tp) = L_TABBED \<or> layout (heap s tp) = L_STACKED
       then (if position_from_direction d = BEFORE then list_first (nodes_head (heap s tp)) else list_last (nodes_head (heap s tp)))
       else Some target);
     s \<leftarrow> (if c \<noteq> target then insert_con_into c target (position_from_direction d) s else Some s);
     let old_focus = focused s;
     s \<leftarrow> tree_move e c d s;
     if focused s \<noteq> old_focus then do { f \<leftarrow> old_focus; f \<leftarrow> deref s f; con_activate f s } else Some s
   }"

text \<open>Fullscreen and focus of the dropped container.\<close>

definition settle_drop :: "bool \<Rightarrow> bool \<Rightarrow> con_id \<Rightarrow> i3 \<Rightarrow> i3 option" where
  "settle_drop set_focus set_fs c s = do {
     (set_focus, set_fs, s) \<leftarrow> (if set_focus \<or> set_fs then do {
         ws \<leftarrow> con_get_workspace s c;
         fs \<leftarrow> con_get_fullscreen_covering_ws s ws;
         (case fs of
            Some f \<Rightarrow>
              if f = c then None
              else if set_focus \<and> set_fs then Some (set_focus, set_fs, con_disable_fullscreen f s)
              else Some (False, False, s)
          | None \<Rightarrow>
              if set_focus then Some (set_focus, set_fs, s)
              else do {
                f \<leftarrow> focused s;
                fws \<leftarrow> con_get_workspace s f;
                Some (set_fs \<and> fws = ws, set_fs, s) }) }
       else Some (set_focus, set_fs, s));
     s \<leftarrow> (if set_fs then con_enable_fullscreen workspace_show c CF_OUTPUT s else Some s);
     s \<leftarrow> (if set_focus then do {
         ws \<leftarrow> con_get_workspace s c;
         ws \<leftarrow> ws;
         s \<leftarrow> workspace_show ws s;
         con_focus c s }
       else Some s);
     tree_render s
   }"

text \<open>
  After the drag the target is known to exist.  The dragged container itself may have been closed, and then
  the drag was aborted, not reverted.
\<close>

definition tiling_drag :: "con_id \<Rightarrow> button_event \<Rightarrow> bool \<Rightarrow> drag_script \<Rightarrow> action" where
  "tiling_drag c ev use_threshold scr ss = do {
     let set_focus = (focused (stree ss) = Some c);
     let set_fs = (fullscreen_mode (heap (stree ss) c) \<noteq> CF_NONE);
     (res, p, ss) \<leftarrow> drag_pointer (Some c) ev use_threshold
       (\<lambda>_ x y (p, ss). map_option (\<lambda>p. (p, ss)) (drag_callback (xworld (sx ss)) c (stree ss) x y p)) scr (None, ss);
     (case p of
        None \<Rightarrow> Some ss
      | Some (target, d, dt) \<Rightarrow>
          if res = DRAG_REVERT \<or> target = c \<and> dt \<noteq> DT_PARENT \<or> \<not> con_exists (stree ss) target then Some ss
          else on_i3 (\<lambda>s. do {
            c \<leftarrow> deref s c;
            let s = con_disable_fullscreen c s;
            let swap = (mods_mask (swap_modifier ss) \<noteq> 0 \<and> ev_state (be_input ev) AND mods_mask (swap_modifier ss) = mods_mask (swap_modifier ss));
            (go_on, s) \<leftarrow> (case dt of
                DT_CENTER \<Rightarrow> drop_center (senv ss) swap c target s
              | DT_SIBLING \<Rightarrow> map_option (Pair True) (drop_sibling c target d s)
              | DT_PARENT \<Rightarrow> map_option (Pair True) (drop_parent (senv ss) c target d s));
            if \<not> go_on then Some s else settle_drop set_focus set_fs c s }) ss)
   }"

end
