(* ===== verification/Clicks.thy ===== *)
theory Clicks
  imports Drag
begin

unbundle bit_operations_syntax

text \<open>
  Mouse clicks (src/click.c): where a click went, which binding or default behaviour it has, and which
  border of a tiled window is resized.  A click carries the script of the drag that it may start.
\<close>

datatype click_destination = CLICK_BORDER | CLICK_DECORATION | CLICK_INSIDE
datatype border = BORDER_LEFT | BORDER_RIGHT | BORDER_TOP | BORDER_BOTTOM

definition border_direction :: "border \<Rightarrow> direction" where
  "border_direction b = (case b of BORDER_LEFT \<Rightarrow> D_LEFT | BORDER_RIGHT \<Rightarrow> D_RIGHT | BORDER_TOP \<Rightarrow> D_UP | BORDER_BOTTOM \<Rightarrow> D_DOWN)"

definition tiling_resize_for_border ::
  "con_id \<Rightarrow> border \<Rightarrow> button_event \<Rightarrow> bool \<Rightarrow> drag_script \<Rightarrow> session \<Rightarrow> (bool \<times> session) option" where
  "tiling_resize_for_border c b ev use_threshold scr ss = do {
     let s = stree ss;
     let d = border_direction b;
     (ok, first, second) \<leftarrow> resize_find_tiling_participants s (Some c) None d False;
     if \<not> ok then Some (False, ss)
     else do {
       first \<leftarrow> first;
       second \<leftarrow> second;
       if fullscreen_mode (heap s first) \<noteq> fullscreen_mode (heap s second) then Some (False, ss)
       else if first = second \<or> parent (heap s first) \<noteq> parent (heap s second) then None
       else do {
         let (first, second) = (if d = D_UP \<or> d = D_LEFT then (second, first) else (first, second));
         let ori = (if b = BORDER_LEFT \<or> b = BORDER_RIGHT then HORIZ else VERT);
         ss \<leftarrow> resize_graphical_handler first second ori ev use_threshold scr ss;
         map_option (Pair True) (on_i3 tree_render ss)
       }
     }
   }"

definition nearest_border :: "rect \<Rightarrow> int \<Rightarrow> int \<Rightarrow> border option" where
  "nearest_border r x y =
     (let to_right = sint (rwidth r - of_int x); to_left = x; to_top = y; to_bottom = sint (rheight r - of_int y)
      in if to_right < to_left \<and> to_right < to_top \<and> to_right < to_bottom then Some BORDER_RIGHT
         else if to_left < to_right \<and> to_left < to_top \<and> to_left < to_bottom then Some BORDER_LEFT
         else if to_top < to_right \<and> to_top < to_left \<and> to_top < to_bottom then Some BORDER_TOP
         else if to_bottom < to_right \<and> to_bottom < to_left \<and> to_bottom < to_top then Some BORDER_BOTTOM
         else None)"

definition floating_mod_on_tiled_client :: "con_id \<Rightarrow> button_event \<Rightarrow> drag_script \<Rightarrow> session \<Rightarrow> (bool \<times> session) option" where
  "floating_mod_on_tiled_client c ev scr ss =
     (case nearest_border (con_rect (heap (stree ss) c)) (be_x ev) (be_y ev) of
        None \<Rightarrow> Some (False, ss)
      | Some b \<Rightarrow> tiling_resize_for_border c b ev False scr ss)"

text \<open>The border of the window that was hit, from the inside of its border outwards.\<close>

definition clicked_border :: "rect \<Rightarrow> rect \<Rightarrow> rect \<Rightarrow> click_destination \<Rightarrow> int \<Rightarrow> int \<Rightarrow> border option" where
  "clicked_border bsr r wr dest x y =
     (let high = (y \<ge> sint (ry bsr) \<and> y \<le> sint (rheight r + rheight bsr)) in
      if dest = CLICK_DECORATION then Some BORDER_TOP
      else if dest = CLICK_BORDER \<and> y \<ge> 0 \<and> y \<le> sint (ry bsr) \<and> x \<ge> sint (rx bsr) \<and> x \<le> sint (rwidth r + rwidth bsr)
      then Some BORDER_TOP
      else if x \<ge> 0 \<and> x \<le> sint (rx bsr) \<and> high then Some BORDER_LEFT
      else if x \<ge> sint (rx wr + rwidth wr) \<and> high then Some BORDER_RIGHT
      else if y \<ge> sint (ry wr + rheight wr) then Some BORDER_BOTTOM
      else None)"

definition tiling_resize ::
  "con_id \<Rightarrow> button_event \<Rightarrow> click_destination \<Rightarrow> bool \<Rightarrow> drag_script \<Rightarrow> session \<Rightarrow> (bool \<times> session) option" where
  "tiling_resize c ev dest use_threshold scr ss = do {
     let s = stree ss;
     bsr \<leftarrow> con_border_style_rect s c;
     (case clicked_border bsr (con_rect (heap s c)) (window_rect (heap s c)) dest (be_x ev) (be_y ev) of
        None \<Rightarrow> Some (False, ss)
      | Some b \<Rightarrow> tiling_resize_for_border c b ev (dest = CLICK_DECORATION \<and> use_threshold) scr ss)
   }"

text \<open>The parameter of the effect says that the event is replayed to the client.\<close>

definition allow_replay_pointer :: action where
  "allow_replay_pointer = on_i3 (\<lambda>s. tree_render (emit (X_Allow_Events True) s))"

section \<open>The default behaviour\<close>

text \<open>What a click is; the buttons of the scroll wheel are 4 to 7.\<close>

record click_kind =
  mod_pressed :: bool
  is_left_click :: bool
  is_right_click :: bool
  is_scroll :: bool
  scroll_back :: bool
  proportional :: bool

definition click_kind :: "u32 \<Rightarrow> input_event \<Rightarrow> click_kind" where
  "click_kind floating_mod ev =
     (let m = mods_mask floating_mod in
      \<lparr>mod_pressed = (m \<noteq> 0 \<and> ev_state ev AND m = m), is_left_click = (ev_detail ev = 1), is_right_click = (ev_detail ev = 3),
       is_scroll = (ev_detail ev \<in> {4, 5, 6, 7}), scroll_back = (ev_detail ev \<in> {4, 6}),
       proportional = (ev_state ev AND MASK_SHIFT = MASK_SHIFT)\<rparr>)"

definition binding_applies :: "click_destination \<Rightarrow> binding \<Rightarrow> bool" where
  "binding_applies dest b \<longleftrightarrow>
     dest = CLICK_DECORATION \<and> \<not> b_exclude_titlebar b \<or> dest = CLICK_INSIDE \<and> b_whole_window b \<or>
     dest = CLICK_BORDER \<and> b_border b"

fun first_focus :: "nat \<Rightarrow> i3 \<Rightarrow> con_id \<Rightarrow> con_id option" where
  "first_focus 0 s c = None"
| "first_focus (Suc k) s c = (case focus_head (heap s c) of [] \<Rightarrow> Some c | d # _ \<Rightarrow> first_focus k s d)"

definition scroll_tabs :: "con_id \<Rightarrow> bool \<Rightarrow> con_id \<Rightarrow> i3 \<Rightarrow> i3 option" where
  "scroll_tabs ws back p s = do {
     s \<leftarrow> workspace_show ws s;
     p \<leftarrow> deref s p;
     cur \<leftarrow> list_first (focus_head (heap s p));
     next \<leftarrow> get_tree_next_sibling s cur (if back then BEFORE else AFTER);
     d \<leftarrow> con_descend_focused s (case next of None \<Rightarrow> cur | Some n \<Rightarrow> n);
     con_activate d s
   }"

text \<open>A click on a tab goes to its contents, unless they are focused already.\<close>

definition click_focus :: "con_id \<Rightarrow> bool \<Rightarrow> i3 \<Rightarrow> con_id option" where
  "click_focus c on_tab s = do {
     f \<leftarrow> focused s;
     descends \<leftarrow> (if \<not> on_tab then Some False else if f = c then Some True
       else map_option Not (con_has_parent s f c));
     if descends then first_focus (up_fuel s) s c else Some c
   }"

definition click_floating :: "con_id \<Rightarrow> con_id \<Rightarrow> click_destination \<Rightarrow> click_kind \<Rightarrow> bool \<Rightarrow> button_event \<Rightarrow> drag_script \<Rightarrow> action" where
  "click_floating fl c dest k was_focused ev scr ss =
     (if mod_pressed k \<and> is_left_click k then floating_drag_window fl ev False scr ss
      else if mod_pressed k \<and> is_right_click k then floating_resize_window fl (proportional k) ev scr ss
      else do {
        let outside = (dest = CLICK_BORDER \<or> dest = CLICK_DECORATION);
        let either = (is_left_click k \<or> is_right_click k);
        (resized, ss) \<leftarrow> (if outside \<and> either
          then tiling_resize c ev dest (dest = CLICK_DECORATION \<and> \<not> was_focused) scr ss else Some (False, ss));
        if resized then allow_replay_pointer ss
        else if dest = CLICK_DECORATION \<and> is_right_click k \<or> dest = CLICK_BORDER \<and> either
        then floating_resize_window fl (proportional k) ev scr ss
        else if dest = CLICK_DECORATION \<and> is_left_click k then floating_drag_window fl ev (\<not> was_focused) scr ss
        else allow_replay_pointer ss
      })"

definition click_tiling :: "con_id \<Rightarrow> click_destination \<Rightarrow> click_kind \<Rightarrow> bool \<Rightarrow> button_event \<Rightarrow> drag_script \<Rightarrow> action" where
  "click_tiling c dest k was_focused ev scr ss = do {
     let setting = tiling_drag_setting ss;
     drags \<leftarrow> (if is_left_click k \<and>
         (setting = TILING_DRAG_TITLEBAR \<and> dest = CLICK_DECORATION \<or>
          setting = TILING_DRAG_MODIFIER_OR_TITLEBAR \<and> (mod_pressed k \<or> dest = CLICK_DECORATION))
       then has_drop_targets (stree ss) else Some False);
     if drags then do { ss \<leftarrow> allow_replay_pointer ss; tiling_drag c ev (\<not> mod_pressed k) scr ss }
     else if dest = CLICK_INSIDE \<and> mod_pressed k \<and> is_right_click k
     then do {
       (done_it, ss) \<leftarrow> floating_mod_on_tiled_client c ev scr ss;
       if done_it then Some ss else semit (X_Allow_Events False) ss }
     else do {
       (_, ss) \<leftarrow> (if (dest = CLICK_BORDER \<or> dest = CLICK_DECORATION) \<and> (is_left_click k \<or> is_right_click k)
         then tiling_resize c ev dest (dest = CLICK_DECORATION \<and> \<not> was_focused) scr ss else Some (False, ss));
       allow_replay_pointer ss }
   }"

definition default_click :: "con_id \<Rightarrow> con_id \<Rightarrow> click_destination \<Rightarrow> button_event \<Rightarrow> drag_script \<Rightarrow> action" where
  "default_click c p dest ev scr ss = do {
     let s = stree ss;
     f \<leftarrow> focused s;
     ws \<leftarrow> con_get_workspace s c;
     fws \<leftarrow> con_get_workspace s f;
     ws \<leftarrow> (case ws of
         Some ws \<Rightarrow> Some (Some ws)
       | None \<Rightarrow> do {
           out \<leftarrow> con_get_output s c;
           content \<leftarrow> output_get_content s out;
           Some (list_first (focus_head (heap s content))) });
     (case ws of
        None \<Rightarrow> allow_replay_pointer ss
      | Some ws \<Rightarrow> do {
          fl \<leftarrow> con_inside_floating s c;
          let k = click_kind (floating_modifier ss) (be_input ev);
          let on_tab = ((layout (heap s p) = L_STACKED \<or> layout (heap s p) = L_TABBED) \<and> dest = CLICK_DECORATION);
          let was_focused = (f = c);
          drags \<leftarrow> (if \<not> (on_tab \<and> is_scroll k) \<and> mod_pressed k \<and> is_left_click k \<and> fl = None \<and>
              tiling_drag_setting ss \<in> {TILING_DRAG_MODIFIER, TILING_DRAG_MODIFIER_OR_TITLEBAR}
            then has_drop_targets s else Some False);
          if on_tab \<and> is_scroll k then do {
            ss \<leftarrow> on_i3 (scroll_tabs ws (scroll_back k) p) ss;
            allow_replay_pointer ss }
          else if drags then do {
            ss \<leftarrow> tiling_drag c ev (\<not> mod_pressed k) scr ss;
            allow_replay_pointer ss }
          else do {
            goal \<leftarrow> click_focus c on_tab s;
            ss \<leftarrow> on_i3 (\<lambda>s. do {
              s \<leftarrow> (if Some ws \<noteq> fws then workspace_show ws s else Some s);
              goal \<leftarrow> deref s goal;
              con_activate goal s }) ss;
            c \<leftarrow> deref (stree ss) c;
            ws \<leftarrow> deref (stree ss) ws;
            fs \<leftarrow> con_get_fullscreen_covering_ws (stree ss) (Some ws);
            (case fl of
               Some fl \<Rightarrow>
                 if fs \<noteq> Some c then click_floating fl c dest k was_focused ev scr ss
                 else click_tiling c dest k was_focused ev scr ss
             | None \<Rightarrow> click_tiling c dest k was_focused ev scr ss) } })
   }"

text \<open>A binding for the click comes before its default behaviour.\<close>

definition route_click :: "con_id \<Rightarrow> button_event \<Rightarrow> click_destination \<Rightarrow> drag_script \<Rightarrow> action" where
  "route_click c ev dest scr ss = do {
     p \<leftarrow> parent (heap (stree ss) c);
     if con_type (heap (stree ss) p) = CT_DOCKAREA then allow_replay_pointer ss
     else do {
       let (b, ks) = get_binding_from_xcb_event (be_input ev) (skeys ss);
       let ss = ss\<lparr>skeys := ks\<rparr>;
       (case b of
          Some b \<Rightarrow>
            if binding_applies dest b then do { (_, ss) \<leftarrow> run_binding b (Some c) ss; semit (X_Allow_Events False) ss }
            else if ev_release (be_input ev) then allow_replay_pointer ss
            else default_click c p dest ev scr ss
        | None \<Rightarrow>
            if ev_release (be_input ev) then allow_replay_pointer ss
            else default_click c p dest ev scr ss)
     }
   }"

section \<open>Where the click went\<close>

fun click_output :: "i3 \<Rightarrow> int \<Rightarrow> int \<Rightarrow> con_id list \<Rightarrow> con_id option option" where
  "click_output s x y [] = Some None"
| "click_output s x y (out # outs) = do {
     internal \<leftarrow> con_is_internal s out;
     if internal \<or> \<not> rect_contains (con_rect (heap s out)) (of_int x) (of_int y) then click_output s x y outs
     else Some (Some out)
   }"

definition click_root :: "button_event \<Rightarrow> action" where
  "click_root ev ss = do {
     let (b, ks) = get_binding_from_xcb_event (be_input ev) (skeys ss);
     let ss = ss\<lparr>skeys := ks\<rparr>;
     ss \<leftarrow> (case b of
         Some b \<Rightarrow> if b_whole_window b then map_option snd (run_binding b None ss) else Some ss
       | None \<Rightarrow> Some ss);
     if ev_release (be_input ev) then semit (X_Allow_Events True) ss
     else on_i3 (\<lambda>s. do {
       out \<leftarrow> click_output s (be_x ev) (be_y ev) (nodes_head (heap s (croot s)));
       (case out of
          None \<Rightarrow> Some s
        | Some out \<Rightarrow> do {
            content \<leftarrow> output_get_content s out;
            f \<leftarrow> focused s;
            fws \<leftarrow> con_get_workspace s f;
            let ws = list_first (focus_head (heap s content));
            if ws = fws then Some s
            else do { ws \<leftarrow> ws; s \<leftarrow> workspace_show ws s; tree_render s } }) }) ss
   }"

definition handle_button_press :: "button_event \<Rightarrow> drag_script \<Rightarrow> action" where
  "handle_button_press ev scr ss =
     (let s = stree ss in
      case (con_by_client s (be_target ev), con_by_frame_id s (be_target ev)) of
        (Some c, _) \<Rightarrow> route_click c ev CLICK_INSIDE scr ss
      | (None, None) \<Rightarrow> if be_target ev = Root_Window then click_root ev ss else semit (X_Allow_Events True) ss
      | (None, Some c) \<Rightarrow>
          let inside = (if be_child ev then CLICK_INSIDE else CLICK_BORDER) in
          if con_window (heap s c) \<noteq> None then
            if rect_contains (deco_rect (heap s c)) (of_int (be_x ev)) (of_int (be_y ev))
            then route_click c ev CLICK_DECORATION scr ss else route_click c ev inside scr ss
          else (case decoration_at s c (be_x ev) (be_y ev) of
                  Some d \<Rightarrow> route_click d ev CLICK_DECORATION scr ss
                | None \<Rightarrow> route_click c ev inside scr ss))"

end
