(* ===== verification/Clicks_Facts.thy ===== *)
theory Clicks_Facts
  imports Clicks
begin

unbundle bit_operations_syntax

text \<open>
  Facts about dragging and clicking: what an invariant of a drag's callback says about the drag, how far
  the border between two containers can be dragged, which border of a window is the nearest, and what
  happens when a container is closed while it is dragged.
\<close>

section \<open>Drags in which only the pointer moves\<close>

definition pointer_only :: "drag_script \<Rightarrow> bool" where
  "pointer_only scr \<longleftrightarrow> list_all (list_all (\<lambda>e. case e of
     D_Error \<Rightarrow> True | D_Button_Release \<Rightarrow> True | D_Motion _ _ \<Rightarrow> True | _ \<Rightarrow> False)) (batches scr)"

lemma poll_pointer_only:
  assumes "list_all (\<lambda>e. case e of D_Error \<Rightarrow> True | D_Button_Release \<Rightarrow> True | D_Motion _ _ \<Rightarrow> True | _ \<Rightarrow> False) es"
  shows "\<exists>res seen'. poll_drag_events es seen ss = Some (res, seen', ss) \<and> res \<in> {DRAGGING, DRAG_SUCCESS}"
  using assms by (induction es arbitrary: seen) (auto split: drag_event.splits)

text \<open>A callback that leaves the session alone and keeps an invariant of its own state.\<close>

definition callback_keeps :: "session \<Rightarrow> ('p \<Rightarrow> bool) \<Rightarrow> 'p drag_callback \<Rightarrow> bool" where
  "callback_keeps ss I cb \<longleftrightarrow> (\<forall>old x y p. I p \<longrightarrow> (\<forall>q t. cb old x y (p, ss) = Some (q, t) \<longrightarrow> t = ss \<and> I q))"

lemma drain_keeps:
  assumes "callback_keeps ss I cb" and "I p"
    and "list_all (\<lambda>e. case e of D_Error \<Rightarrow> True | D_Button_Release \<Rightarrow> True | D_Motion _ _ \<Rightarrow> True | _ \<Rightarrow> False) es"
    and "drain_drag_events c ev old cb es (exceeded, p, ss) = Some (res, exceeded', q, t)"
  shows "t = ss \<and> I q \<and> res \<in> {DRAGGING, DRAG_SUCCESS}"
proof -
  obtain r seen where r: "poll_drag_events es None ss = Some (r, seen, ss)" "r \<in> {DRAGGING, DRAG_SUCCESS}"
    using poll_pointer_only[OF assms(3)] by blast
  show ?thesis
  proof (cases seen)
    case (Some xy)
    obtain x y where xy: "xy = (x, y)" by (cases xy)
    define e where "e = (exceeded \<or> threshold_exceeded (xworld (sx ss)) (of_int x) (of_int y) (of_int (be_root_x ev)) (of_int (be_root_y ev)))"
    show ?thesis
    proof (cases "e \<and> (case c of None \<Rightarrow> True | Some c \<Rightarrow> con_exists (stree ss) c)")
      case True
      then have "cb old (of_int x) (of_int y) (p, ss) = Some (q, t)" "r = res"
        using assms(4) r(1) Some xy
        by (auto simp: drain_drag_events_def Let_def e_def bind_eq_Some_conv)
      then show ?thesis using assms(1,2) r(2) by (auto simp: callback_keeps_def)
    next
      case False
      then show ?thesis
        using assms(2,4) r Some xy by (simp add: drain_drag_events_def Let_def e_def split: if_splits)
    qed
  qed (use assms(2,4) r in \<open>simp add: drain_drag_events_def\<close>)
qed

lemma drag_pointer_keeps:
  assumes "callback_keeps ss I cb" and "I p" and "pointer_only scr"
    and "drag_pointer c ev use_threshold cb scr (p, ss) = Some (res, q, t)"
  shows "t = ss \<and> I q \<and> res \<in> {DRAG_SUCCESS, DRAG_ABORT}"
proof (cases "grabbed scr")
  case True
  have "drag_loop c ev old cb bs (exceeded, p, ss) = Some (res, q, t) \<Longrightarrow> t = ss \<and> I q \<and> res = DRAG_SUCCESS"
    if "list_all (list_all (\<lambda>e. case e of
       D_Error \<Rightarrow> True | D_Button_Release \<Rightarrow> True | D_Motion _ _ \<Rightarrow> True | _ \<Rightarrow> False)) bs" and "I p" for old bs exceeded p
    using that
  proof (induction bs arbitrary: exceeded p)
    case (Cons es bs)
    from Cons.prems(1) obtain r e' p' t' where d: "drain_drag_events c ev old cb es (exceeded, p, ss) = Some (r, e', p', t')"
        and rest: "(if r \<noteq> DRAGGING then Some (r, p', t') else drag_loop c ev old cb bs (e', p', t')) = Some (res, q, t)"
      by (auto simp: bind_eq_Some_conv)
    have "t' = ss \<and> I p' \<and> r \<in> {DRAGGING, DRAG_SUCCESS}"
      using drain_keeps[OF assms(1) Cons.prems(3) _ d] Cons.prems(2) by simp
    then show ?case using rest Cons.IH[of e' p'] Cons.prems(2) by (auto split: if_splits)
  qed simp
  then show ?thesis using assms True by (auto simp: drag_pointer_def Let_def pointer_only_def)
next
  case False
  then show ?thesis using assms by (simp add: drag_pointer_def)
qed

section \<open>The border between two containers\<close>

definition inside_screen :: "orientation \<Rightarrow> rect \<Rightarrow> u32 \<Rightarrow> bool" where
  "inside_screen ori r pos \<longleftrightarrow>
     (if ori = HORIZ then rx r + 25 \<le> pos \<and> pos \<le> rx r + rwidth r - 25
      else ry r + 25 \<le> pos \<and> pos \<le> ry r + rheight r - 25)"

text \<open>
  While the user only moves the pointer, the border ends where it was or at least 25 pixels inside the
  screen, and the shares change by exactly this distance.
\<close>

lemma graphical_resize_inside:
  assumes "resize_graphical_handler first second ori ev use_threshold scr ss = Some ss'" and "pointer_only scr"
    and "con_get_output (stree ss) first = Some out" and "on_i3 tree_render ss = Some ss1"
    and "out \<in> live (stree ss1)"
    and "con_descend_focused (stree ss) first = Some ffirst" and "con_descend_focused (stree ss) second = Some fsecond"
    and "start = resize_start ori (con_rect (heap (stree ss) ffirst)) (con_rect (heap (stree ss) fsecond))"
  shows "\<exists>pos. (pos = start \<or> inside_screen ori (con_rect (heap (stree ss1) out)) pos) \<and>
    (if pos = start then ss' = ss1
     else on_i3 (\<lambda>s. map_option snd (resize_neighboring_cons first second (sint (pos - start)) 0 s)) ss1 = Some ss')"
proof -
  let ?cb = "\<lambda>(_ :: rect) x y (p, ss). do {
          out \<leftarrow> deref (stree ss) out;
          Some (resize_callback ori (con_rect (heap (stree ss) out)) x y p, ss) }"
  define J where "J = (\<lambda>(pos, shown :: bool). pos = start \<or> inside_screen ori (con_rect (heap (stree ss1) out)) pos)"
  have step: "J p \<Longrightarrow> J (resize_callback ori (con_rect (heap (stree ss1) out)) x y p)" for p x y
    unfolding J_def by (cases p) (auto simp: resize_callback_def inside_screen_def split: if_splits)
  have keeps: "callback_keeps ss1 J ?cb"
    by (auto simp: callback_keeps_def deref_def bind_eq_Some_conv split: if_splits) (metis step)
  obtain res pos shown t where d: "drag_pointer None ev use_threshold ?cb scr ((start, \<not> use_threshold), ss1) = Some (res, (pos, shown), t)"
    and rest: "(if res = DRAG_REVERT \<or> sint (pos - start) = 0 then Some t
     else do {
       first \<leftarrow> deref (stree t) first;
       second \<leftarrow> deref (stree t) second;
       if percent (heap (stree t) first) \<le> 0 \<or> percent (heap (stree t) second) \<le> 0 then None
       else on_i3 (\<lambda>s. map_option snd (resize_neighboring_cons first second (sint (pos - start)) 0 s)) t
     }) = Some ss'"
    using assms by (auto simp: resize_graphical_handler_def Let_def bind_eq_Some_conv)
  have t: "t = ss1" "J (pos, shown)" "res \<noteq> DRAG_REVERT"
    using drag_pointer_keeps[OF keeps _ assms(2) d] by (auto simp: J_def)
  have same: "sint (pos - start) = 0 \<longleftrightarrow> pos = start" using signed_eq_0_iff[where 'b = 32, of "pos - start"] by (simp add: right_minus_eq)
  show ?thesis
    using t rest unfolding same
    by (intro exI[of _ pos]) (auto simp: J_def deref_def bind_eq_Some_conv split: if_splits)
qed

section \<open>Clicking\<close>

definition border_distance :: "rect \<Rightarrow> int \<Rightarrow> int \<Rightarrow> border \<Rightarrow> int" where
  "border_distance r x y b = (case b of BORDER_LEFT \<Rightarrow> x | BORDER_TOP \<Rightarrow> y
     | BORDER_RIGHT \<Rightarrow> sint (rwidth r - of_int x) | BORDER_BOTTOM \<Rightarrow> sint (rheight r - of_int y))"

lemma nearest_border_iff:
  "nearest_border r x y = Some b \<longleftrightarrow> (\<forall>b'. b' \<noteq> b \<longrightarrow> border_distance r x y b < border_distance r x y b')"
proof -
  have all: "(\<forall>b'. P b') \<longleftrightarrow> P BORDER_LEFT \<and> P BORDER_RIGHT \<and> P BORDER_TOP \<and> P BORDER_BOTTOM" for P
    by (metis border.exhaust)
  show ?thesis
    unfolding all by (cases b) (auto simp: nearest_border_def border_distance_def Let_def)
qed

section \<open>Closing a container that is dragged\<close>

text \<open>
  When the dragged window closes, its unmap notification only aborts the drag.  The drop goes on with
  the container that does not exist any more.
\<close>

lemma closed_while_dragged:
  assumes "drag_pointer (Some c) ev use_threshold
      (\<lambda>_ x y (p, ss). map_option (\<lambda>p. (p, ss)) (drag_callback (xworld (sx ss)) c (stree ss) x y p)) scr (None, ss) =
      Some (DRAG_ABORT, Some (target, d, dt), ss1)"
    and "c \<notin> live (stree ss1)" and "con_exists (stree ss1) target" and "target \<noteq> c"
  shows "tiling_drag c ev use_threshold scr ss = None"
  using assms by (simp add: tiling_drag_def Let_def on_i3_def on_s_def on_x_def on_tree_def stree_def xtree_def
      deref_def live_def)

end
