(* ===== verification/Spec2Isabelle.thy ===== *)
theory Spec2Isabelle
  imports Sample Move Scratchpad Format Cmd_Tree Cmd_Facts Cmd_Sample
    Config_Parser_Facts Config_Vars_Facts Windows Ewmh Startup
    Manage_Facts Randr_Query Handlers_Facts Command_Types Bindings_Facts
    Clicks_Facts
begin

text \<open>
  A verification library for the core of the i3 window manager (src/custom/i3/src).

  i3 keeps everything it manages in one tree of containers (\<open>Con\<close> of include/data.h): the root,
  the outputs, their dock areas and content containers, workspaces, split containers, windows, and
  floating containers beside the tiling children of a workspace.  Commands and X11 events change
  the tree through con.c, tree.c, workspace.c, resize.c and floating.c; afterwards render.c
  computes the rectangle of every container and x.c pushes the result to the X server.

  State.  The tree is an explicit store (\<open>i3.heap\<close>, from identifiers to records with the fields of
  \<open>struct Con\<close>), because the code aliases containers through the parent pointer, the queues
  \<open>nodes_head\<close>, \<open>floating_head\<close> and \<open>focus_head\<close>, the list \<open>all_cons\<close> and the globals \<open>croot\<close> and
  \<open>focused\<close>.  Calls into X11, IPC and EWMH are appended to a trace (\<open>effects\<close>) in their order.  A
  null dereference, a failed assertion or the unlinking of an element that is not in its queue is
  the value \<open>None\<close>; so a theorem that an operation returns \<open>Some\<close> excludes all of these.

  Theories, in the order of their imports.
  Prelude: the option monad's helpers (\<open>exists_opt\<close>, \<open>fold_opt\<close>, \<open>map_opt\<close>) and list lemmas.
  Tailq: the TAILQ macros of include/queue.h on an explicit store of next and back pointers, the
  representation relation to lists and, through the locale \<open>tail_queue\<close>, the refinement that lets
  all other theories use lists for queues.
  Con_Data, Con_Heap: the enumerations and structs of data.h, the state, the invariant \<open>wf_tree\<close>
  (parent pointers, queues and focus stacks agree, the containers form a forest) and parent chains.
  Con_Query, Con_Down, Con_Descend: the functions of con.c that ascend or descend the tree, with
  their totality and what they find.
  Con_Links, Con_Percent, Con_Attach: con_new, con_attach, con_detach, con_free, con_fix_percent;
  they keep the invariant, and attaching never fails in a well-formed tree.
  Con_Order: the order of workspaces and dock clients among their siblings.
  Con_Urgency, Con_Focus: urgency hints and focus stacks.  Con_Preserve: what these operations
  leave alone, as interpretations of the locale \<open>frame_op\<close>.
  Con_Marks: marks.  Util: util.c.  Randr: looking up outputs (randr.c, output.c).  Match: match.c.
  Workspace, Workspace_Order, Con_Encapsulate: looking up workspaces, their order, next and
  previous workspace, and wrapping the children of a workspace into a split container.
  Con_Resize, Gaps, Borders: resize.c, gaps.c, border styles.
  Render_Sizes, Render: the sizes of the children of a split and render.c.
  Tree, Tree_Close: tree.c: opening, splitting, closing and rendering, and what closing keeps.
  Sample: a concrete screen on which the properties are evaluated.
  Con_Fullscreen: fullscreen modes (con.c).
  Floating_Geom, Floating: floating.c: bounds and coordinates of floating windows, making a
  container floating or tiling, and following a change of the output.
  Con_Move: moving containers to workspaces, containers and outputs (con.c), and showing a
  workspace (workspace.c), which call each other through sticky windows.
  Workspace_Ops, Workspace_Names: creating workspaces, switching to them and moving them between
  outputs (workspace.c); the name a new workspace gets.
  Insert, Tree_Nav, Tree_Flatten, Move: inserting next to a container, finding the neighbour in a
  direction, flattening the tree (con.c, tree.c), and the move command (move.c).
  Con_Layout, Con_Swap: layouts, swapping and merging containers (con.c).
  Scratchpad: scratchpad.c.  Format: libi3/format_placeholders.c.
  Cmd_State, Cmd_Move, Cmd_Resize, Cmd_Misc, Commands: commands.c.  A command works on the tree, the
  criteria and the containers they select, and appends its replies; what it reads from outside is
  the record \<open>world\<close>.  Commands collects the command functions in the datatype \<open>command\<close>.
  Cmd_Tree, Cmd_Facts: which commands leave the tree as it is, and what single commands do.
  Parse_String, Parser_Stack, Command_Parser: scanning strings, the stack of identified tokens and
  the state machine of commands_parser.c, for any table and any calls; the quoting of workspace
  names in i3bar.  Command_Parser_Facts: it consumes its input, so that fuel never decides, and
  returns.  Command_Spec: the grammar parser-specs/commands.spec as a table, and the calls of the
  commands with their arguments from the stack (\<open>dispatch\<close>).  Command_Run: the parser on this
  grammar.  Command_Types: the grammar is well-typed, so that every call finds its arguments.
  Cmd_Sample: a state of the commands on the sample screen.
  Config_Parser, Config_Parser_Facts: the state machine of config_parser.c for any table and any
  directives; it consumes its input, its error reports read inside the input, and it recovers from
  an unparsable line.  Config_Vars, Config_Vars_Facts: reading the lines of a file, the variables it
  sets, and their replacement, which fills the buffer counted out for it.
  Windows: what window.c reads from the properties of a window: names, hints, struts, decorations
  and icons; a size wraps around for huge icons.
  Startup: startup notification (startup.c).  Assignments: looking up assignments and running their
  commands (assignments.c).  Manage: managing a window from its request to its place, focus and
  floating mode (manage.c); Manage_Facts: where a window is opened.
  Randr_Query: outputs that appear, change, are clones or disappear (randr.c).
  Handlers: the event handlers and their dispatch (handlers.c); Handlers_Facts: ignored events,
  counted unmap notifications and the pointer without \<open>focus_follows_mouse\<close>.
  Bindings: configuring, translating, finding and checking key and mouse bindings, and modes
  (bindings.c); the keyboard map of xkbcommon is a record of functions.  Bindings_Facts: which
  binding an event finds, and the list of buttons to grab.
  Input: running a binding and key presses (bindings.c, key_press.c); the record \<open>session\<close> adds the
  bindings to the state of the handlers.
  Drag: the loop of a drag and what is dragged in it (drag.c, floating.c, resize.c, tiling_drag.c).
  Clicks: what a click does (click.c).  Clicks_Facts: invariants of drags, the border between two
  containers, the nearest border of a window.
  Ewmh: the workspaces as desktops of the EWMH standard (ewmh.c), and their indices.

  Environment.  What the operations read outside the tree is the record \<open>env\<close>: the outputs and
  workspace assignments, the names found in the key bindings and the size of the root window.
  An operation that uses a container after it may have been freed goes through \<open>deref\<close>, which is
  \<open>None\<close> when the container no longer exists.

  Numbers.  The sizes and coordinates of \<open>Rect\<close> are \<open>32 word\<close>, with the code's wrap-around;
  \<open>int\<close> fields such as \<open>ws_num\<close> and border widths are unbounded integers, shares (\<open>double\<close>) are
  exact rationals.

  Recursion.  Loops that ascend are run with \<open>up_fuel\<close>, one more than the number of containers,
  and loops that descend recurse on the same fuel; the lemmas \<open>up_chain_length\<close>, \<open>down_induct\<close> and
  \<open>card_subtree_fuel\<close> show that in a well-formed tree it is never used up.  Closing containers goes
  up and down the tree with the same fuel.  The mutual recursion of moving, showing and sticky
  windows has one unit of fuel for each container moved or workspace shown.  The search for a free
  workspace number has one unit for each workspace and each assignment, which is enough
  (\<open>free_number_spec\<close>).

  Scripts.  What the user and the X server do during a drag is given as a script, the batches of
  events as they arrive; a drag that its script does not end has no result.

  Not modelled.  Drawing (x.c), IPC, i3bar and the companion programs are mostly input and output of
  the X server or of sockets.  The directives of the configuration, saved layouts, signals and the
  start of the process are not modelled.  Of the commands, append_layout, reload, exit and restart read
  files or do not return.
\<close>

section \<open>Properties\<close>






text \<open>C3: after \<open>con_focus\<close> the container is focused, its tree is well-formed and it, and every
  ancestor of it, is at the front of its parent's focus stack, so that descending along the focus
  stacks from any of its ancestors ends at it.\<close>

theorem focus_reaches:
  assumes "wf_tree {} s" and "c \<in> live s" "c \<noteq> croot s"
    and "\<forall>x. c \<in> subtree s x \<longrightarrow> clears_ok s x"
  shows "\<exists>t. con_focus c s = Some t \<and> wf_tree {} t \<and> focused t = Some c \<and>
    (\<forall>xs x. up_chain s c xs \<longrightarrow> x \<in> set xs \<longrightarrow> con_descend_focused t x = Some c)"
proof -
  obtain t xs where t: "con_focus c s = Some t" "up_chain s c xs" "chain_raised xs s t"
    "focused t = Some c" "wf_tree {} t" "cfg t = cfg s"
    by (rule con_focus_spec[OF assms(1-3)]) (use assms(4) in blast)+
  have "con_descend_focused t x = Some c" if "up_chain s c ys" "x \<in> set ys" for ys x
  proof (rule con_focus_descend[OF t(2-4)])
    show "x \<in> set xs" using up_chain_unique[OF that(1) t(2)] that(2) by simp
    show "length xs \<le> up_fuel s" using up_chain_length[OF assms(1,2) t(2)] by simp
  qed
  with t show ?thesis by blast
qed

lemma focus_reaches_witness:
  "\<exists>t. con_focus 4 sample = Some t \<and> wf_tree {} t \<and> focused t = Some 4 \<and>
    (\<forall>xs x. up_chain sample 4 xs \<longrightarrow> x \<in> set xs \<longrightarrow> con_descend_focused t x = Some 4)"
  by (rule focus_reaches) (auto simp: sample_live intro: sample_clears[of 4])

text \<open>C4: any sequence of \<open>TAILQ\<close> operations the code may apply keeps the pointers of the queue
  consistent and has the effect of the corresponding list operations; in particular the first and
  last element and the neighbours of every element are read off the pointers correctly.\<close>

theorem tailq_refines_lists:
  assumes "tq_repr q xs" and "ops_ok ps xs"
  shows "tq_repr (fold tq_exec ps q) (fold list_exec ps xs) \<and>
    TAILQ_FIRST (fold tq_exec ps q) = list_first (fold list_exec ps xs) \<and>
    TAILQ_LAST (fold tq_exec ps q) = list_last (fold list_exec ps xs) \<and>
    (\<forall>x \<in> set (fold list_exec ps xs).
       TAILQ_NEXT x (fold tq_exec ps q) = next_of x (fold list_exec ps xs) \<and>
       TAILQ_PREV x (fold tq_exec ps q) = prev_of x (fold list_exec ps xs))"
proof -
  have r: "tq_repr (fold tq_exec ps q) (fold list_exec ps xs)" by (rule tq_run_repr[OF assms])
  then show ?thesis by (simp add: tq_repr_first tq_repr_last tq_repr_next tq_repr_prev)
qed

definition nil_queue :: "nat tailq" where
  "nil_queue = \<lparr>tqh_first = None, tqh_last = Head_First, tqe_next = \<lambda>_. None, tqe_prev = \<lambda>_. Head_First\<rparr>"

lemma tailq_refines_lists_witness:
  "tq_repr (fold tq_exec [Ins_Tail 1, Ins_Head 2, Ins_After 1 3, Remove 1] nil_queue) [2, 3]"
proof -
  have "tq_repr nil_queue []" by (simp add: nil_queue_def tq_repr_def)
  from tailq_refines_lists[OF this, of "[Ins_Tail 1, Ins_Head 2, Ins_After 1 3, Remove 1]"]
  show ?thesis by simp
qed



text \<open>C6: the grammar of the commands is well-typed: wherever the parser calls a command function, each
  argument on its stack has the type the function reads, and each string it dereferences is there.  So a
  parser that would pass over unreadable calls does the same.\<close>

theorem calls_get_their_arguments:
  assumes "follows others" and "p_stack p = clear_stack"
  shows "parse_command (tolerant (dispatch w others)) command_tokens input p =
    parse_command (dispatch w others) command_tokens input p"
  by (rule parse_command_typed[OF dispatch_follows[OF assms(1)] assms(2)])

lemma calls_get_their_arguments_witness:
  "parse_command (tolerant (dispatch sample_world echo)) command_tokens ''resize grow left 5 px; border''
      (idle_parser (sample_cmd match_init)) =
   parse_command (dispatch sample_world echo) command_tokens ''resize grow left 5 px; border''
      (idle_parser (sample_cmd match_init))"
  by (rule calls_get_their_arguments)
    (simp_all add: idle_parser_def follows_def echo_def bound_simps del: bound_INITIAL add: bound_INITIAL)

text \<open>C7: setting the urgency hint of a window succeeds and leaves the flags consistent: every split
  container is urgent exactly if a window below it is, and the workspace of the window is urgent
  exactly if something on it is.  The focused window is never made urgent.\<close>

theorem urgency_consistent:
  assumes "wf_tree {} s" and "floats_on_ws s" and "c \<in> live s" "c \<noteq> croot s" "con_is_leaf s c"
    and "con_type (heap s c) \<noteq> CT_WORKSPACE" and "urgency_ok s"
  shows "\<exists>t. con_set_urgency c u s = Some t \<and> same_links s t \<and> urgency_ok t \<and>
    urgent (heap t c) = (if (u \<and> focused s = Some c) \<or> urgency_timer (heap s c)
      then urgent (heap s c) else u) \<and>
    (\<forall>w. \<not> (u \<and> focused s = Some c) \<longrightarrow> con_get_workspace s c = Some (Some w) \<longrightarrow>
      urgent (heap t w) = (\<exists>d \<in> subtree s w - {w}. urgent (heap t d)))"
  by (rule con_set_urgency_ok[OF assms]) blast

lemma urgency_consistent_witness:
  "\<exists>t. con_set_urgency 4 True sample = Some t \<and> same_links sample t \<and> urgency_ok t \<and>
    urgent (heap t 4) = (if (True \<and> focused sample = Some 4) \<or> urgency_timer (heap sample 4)
      then urgent (heap sample 4) else True) \<and>
    (\<forall>w. \<not> (True \<and> focused sample = Some 4) \<longrightarrow> con_get_workspace sample 4 = Some (Some w) \<longrightarrow>
      urgent (heap t w) = (\<exists>d \<in> subtree sample w - {w}. urgent (heap t d)))"
  by (rule urgency_consistent)
    (use sample_quiet in \<open>auto simp: sample_live con_is_leaf_def floats_on_ws_def\<close>)

text \<open>C8: Moving the border between two tiled neighbours either changes nothing, because one of them
  would become smaller than its minimum, or moves exactly the requested share from one to the
  other; in both cases the shares of all siblings stay positive and add up to one.\<close>

theorem resize_moves_share:
  fixes px ppt :: int
  assumes "parent (heap s a) = Some p" "parent (heap s b) = Some p"
    and "a \<in> set (nodes_head (heap s p))" "b \<in> set (nodes_head (heap s p))" "a \<noteq> b"
    and "distinct (nodes_head (heap s p))"
    and "\<forall>c \<in> set (nodes_head (heap s p)). 0 < percent (heap s c)"
    and "sum_list (map (\<lambda>c. percent (heap s c)) (nodes_head (heap s p))) = 1"
    and "con_rect_size_in_orientation s p = Some z" "0 < sint z"
    and "px = 0 \<or> ppt = 0"
    and "0 < min_pixels s p a" "0 < min_pixels s p b"
    and "q = (if ppt \<noteq> 0 then of_int ppt / 100 else of_int px / of_int (sint z))"
    and "roomy \<longleftrightarrow> of_int (min_pixels s p a) / of_int (sint z) \<le> percent (heap s a) + q \<and>
      of_int (min_pixels s p b) / of_int (sint z) \<le> percent (heap s b) - q"
  shows "\<exists>t. resize_neighboring_cons a b px ppt s = Some (roomy, t) \<and>
    (if roomy then t = upd b (\<lambda>n. n\<lparr>percent := percent (heap s b) - q\<rparr>)
       (upd a (\<lambda>n. n\<lparr>percent := percent (heap s a) + q\<rparr>) s) else t = s) \<and>
    sum_list (map (\<lambda>c. percent (heap t c)) (nodes_head (heap t p))) = 1 \<and>
    (\<forall>c \<in> set (nodes_head (heap t p)). 0 < percent (heap t c))"
  by (rule resize_neighboring_cons_spec[OF assms]) (cases roomy; simp)

lemma resize_moves_share_witness:
  "\<exists>t. resize_neighboring_cons 4 5 0 10 sample = Some (True, t) \<and>
    percent (heap t 4) = 3/5 \<and> percent (heap t 5) = 2/5"
proof -
  have o: "con_orientation sample 3 = Some HORIZ" by (simp add: con_orientation_def)
  have m: "min_pixels sample 3 4 = 1" "min_pixels sample 3 5 = 1" using o by (simp_all add: min_pixels_def)
  have z: "con_rect_size_in_orientation sample 3 = Some 1920"
    using o by (simp add: con_rect_size_in_orientation_def screen_def mk_rect_def)
  have "\<exists>t. resize_neighboring_cons 4 5 0 10 sample = Some (True, t) \<and>
    (if True then t = upd 5 (\<lambda>n. n\<lparr>percent := percent (heap sample 5) - 1/10\<rparr>)
       (upd 4 (\<lambda>n. n\<lparr>percent := percent (heap sample 4) + 1/10\<rparr>) sample) else t = sample) \<and>
    sum_list (map (\<lambda>c. percent (heap t c)) (nodes_head (heap t 3))) = 1 \<and>
    (\<forall>c \<in> set (nodes_head (heap t 3)). 0 < percent (heap t c))"
    by (rule resize_moves_share[where p = 3 and z = 1920]) (use z m in \<open>simp_all add: leaf_def\<close>)
  then show ?thesis by auto
qed

text \<open>C9: with \<open>focus_follows_mouse\<close> switched off, moving the pointer never changes the tree, the focus or
  what is shown.\<close>

theorem pointer_moves_nothing:
  assumes "disable_focus_follows_mouse (cfg (xtree h))"
    and "handle_event ev h = Some h'" and "\<exists>p. ev = Ev_Enter p \<or> ev = Ev_Motion p"
  shows "xtree h' = xtree h"
  using assms(2,3) enter_notify_without_ffm[OF assms(1)] motion_notify_without_ffm[OF assms(1)]
  by (auto simp: handle_event_def)

definition still_state :: xstate where
  "still_state = \<lparr>xworld = sample_world, xcalls = echo, root_depth = 24,
     xmgr = \<lparr>mparser = idle_parser ((sample_cmd match_init)\<lparr>wm := sample\<lparr>cfg := sample_cfg\<lparr>disable_focus_follows_mouse := True\<rparr>\<rparr>\<rparr>),
       assignments = [], sequences = [], placeholders = []\<rparr>, ignored = []\<rparr>"

definition enter_4 :: pointer_event where
  "enter_4 = \<lparr>pe_target = Frame 4, pe_normal = True, pe_child = False, pe_sequence = 1, pe_x = 5, pe_y = 5,
     pe_root_x = 5, pe_root_y = 5\<rparr>"

lemma pointer_moves_nothing_witness:
  "\<exists>h'. handle_event (Ev_Enter enter_4) still_state = Some h' \<and> xtree h' = xtree still_state"
proof -
  have t: "xtree still_state = sample\<lparr>cfg := sample_cfg\<lparr>disable_focus_follows_mouse := True\<rparr>\<rparr>"
    by (simp add: xtree_def still_state_def tree_of_def idle_parser_def sample_cmd_def)
  have "handle_event (Ev_Enter enter_4) still_state \<noteq> None"
    using t by (simp add: handle_event_def handle_enter_notify_def enter_4_def Let_def case_prod_beta
        con_by_frame_id_def con_by_client_def deref_def on_x_def on_tree_def xtree_def)
  then show ?thesis
    using pointer_moves_nothing[of still_state "Ev_Enter enter_4"] t by auto
qed

text \<open>C10: when a press meets a binding that waits for the release of its key, the release finds a binding of
  that key for a release, whatever modifiers have been released before the key.\<close>

theorem release_finds_binding:
  assumes "\<not> ev_release press" and "release = press\<lparr>ev_release := True, ev_state := st\<rparr>"
    and "group_mask (filtered_state st) = group_mask (filtered_state (ev_state press))"
    and "find_mode (current_binding_mode k) (modes k) \<noteq> None" and "b \<in> set (bindings k)"
    and "marked (filtered_state (ev_state press)) (ev_detail press) (event_type press) (reset_release (event_type press) b)"
  shows "\<exists>c. fst (get_binding_from_xcb_event release (snd (get_binding_from_xcb_event press k))) = Some c \<and>
    binding_matches (filtered_state st) True (ev_detail press) (event_type press) c \<and> b_release c \<noteq> B_UPON_KEYPRESS"
proof -
  define bs where "bs = snd (get_binding (filtered_state (ev_state press)) False (ev_detail press) (event_type press) (bindings k))"
  obtain i where i: "fst (get_binding (filtered_state st) True (ev_detail press) (event_type press) bs) = Some i"
    using release_after_press_found[OF assms(5,6,3)] by (auto simp: bs_def)
  then have "i < length bs" "binding_matches (filtered_state st) True (ev_detail press) (event_type press) (bs ! i)"
      "b_release (bs ! i) \<noteq> B_UPON_KEYPRESS"
    by (auto simp: get_binding_release index_by_Some)
  moreover have "bindings (snd (get_binding_from_xcb_event press k)) = bs"
    using assms(1,4) by (simp add: get_binding_from_xcb_event_def Let_def case_prod_beta bindings_upd_bindings bs_def event_type_def)
  ultimately show ?thesis
    using i assms(2) search_nth[of i bs True]
    by (intro exI[of _ "bs ! i"]) (simp add: get_binding_from_xcb_event_def Let_def case_prod_beta event_type_def get_binding_def)
qed

definition mod1_keys :: keys where
  "mod1_keys = (let b = \<lambda>r m c. \<lparr>b_input_type = B_KEYBOARD, b_release = r, b_border = False, b_whole_window = False,
       b_exclude_titlebar = False, b_keycode = 38, b_state_mask = m, b_symbol = None,
       b_keycodes = [\<lparr>bk_keycode = 38, bk_modifiers = 8\<rparr>], b_command = c\<rparr> in
     \<lparr>modes = [\<lparr>mode_name = ''default'', mode_pango_markup = False,
        mode_bindings = [b B_UPON_KEYPRESS 8 ''kill'', b B_UPON_KEYPRESS 0x10008 ''split h'', b B_UPON_KEYRELEASE 8 ''nop'']\<rparr>],
      current_binding_mode = ''default'', xkb_current_group = 0, xcb_numlock_mask = 0, key_effects = []\<rparr>)"

definition mod1_a :: input_event where
  "mod1_a = \<lparr>ev_button = False, ev_release = False, ev_state = 8, ev_detail = 38\<rparr>"

lemma mod1_bindings: "bindings mod1_keys ! 0 \<in> set (bindings (reorder_bindings mod1_keys))" "bindings mod1_keys ! 2 \<in> set (bindings mod1_keys)"
  unfolding set_bindings_reorder by (simp_all add: bindings_def find_mode_def mod1_keys_def Let_def)

lemma release_finds_binding_witness:
  "\<exists>c. fst (get_binding_from_xcb_event (mod1_a\<lparr>ev_release := True, ev_state := 0\<rparr>) (snd (get_binding_from_xcb_event mod1_a mod1_keys))) = Some c \<and>
    binding_matches (filtered_state 0) True 38 B_KEYBOARD c \<and> b_release c \<noteq> B_UPON_KEYPRESS"
proof -
  have "group_mask (filtered_state 0) = group_mask (filtered_state (ev_state mod1_a))"
    "find_mode (current_binding_mode mod1_keys) (modes mod1_keys) \<noteq> None"
    "marked (filtered_state (ev_state mod1_a)) (ev_detail mod1_a) (event_type mod1_a) (reset_release (event_type mod1_a) (bindings mod1_keys ! 2))"
    by code_simp+
  from release_finds_binding[OF _ refl this(1,2) mod1_bindings(2) this(3)] show ?thesis
    by (simp add: mod1_a_def event_type_def)
qed

text \<open>C11: after the bindings have been sorted, a press for which some binding is meant finds one for a press
  whose modifiers and groups are no fewer as a number: the more specific binding wins.\<close>

theorem specific_binding_wins:
  assumes "\<not> ev_release ev" and "a \<in> set (bindings (reorder_bindings k))"
    and "pressed (filtered_state (ev_state ev)) (ev_detail ev) (event_type ev) (reset_release (event_type ev) a)"
  shows "\<exists>c. fst (get_binding_from_xcb_event ev (reorder_bindings k)) = Some c \<and>
    pressed (filtered_state (ev_state ev)) (ev_detail ev) (event_type ev) c \<and> b_state_mask a \<le> b_state_mask c"
proof -
  let ?g = "get_binding (filtered_state (ev_state ev)) False (ev_detail ev) (event_type ev) (bindings (reorder_bindings k))"
  let ?bs = "map (reset_release (event_type ev)) (bindings (reorder_bindings k))"
  obtain m where m: "bindings (reorder_bindings k) = mode_bindings (reorder_bindings_of_mode m)"
    using bindings_reorder[OF assms(2)] by blast
  have "fst ?g \<noteq> None"
    unfolding get_binding_press index_by_None using assms(2,3) by auto
  then obtain i where i: "fst ?g = Some i" by blast
  note w = most_specific_found[OF m i assms(2,3)]
  moreover have "snd ?g ! i = ?bs ! i"
    using w search_nth[of i ?bs False] by (simp add: get_binding_def pressed_def)
  ultimately show ?thesis
    using i assms(1) by (intro exI[of _ "?bs ! i"])
      (simp add: get_binding_from_xcb_event_def Let_def case_prod_beta event_type_def)
qed

lemma specific_binding_wins_witness:
  "\<exists>c. fst (get_binding_from_xcb_event mod1_a (reorder_bindings mod1_keys)) = Some c \<and>
    pressed (filtered_state 8) 38 B_KEYBOARD c \<and> 8 \<le> b_state_mask c"
proof -
  have "pressed (filtered_state (ev_state mod1_a)) (ev_detail mod1_a) (event_type mod1_a)
      (reset_release (event_type mod1_a) (bindings mod1_keys ! 0))" "b_state_mask (bindings mod1_keys ! 0) = 8"
    by code_simp+
  then show ?thesis
    using specific_binding_wins[OF _ mod1_bindings(1), of mod1_a] by (simp add: mod1_a_def event_type_def)
qed

text \<open>C12: marking a container succeeds and keeps every mark unique in the whole tree: the container
  that had the mark before loses it, and the mark now finds the marked container.\<close>

theorem mark_unique:
  assumes "marks_unique s" and "c \<in> live s"
  shows "\<exists>t. con_mark c m mode s = Some t \<and> marks_unique t \<and> con_by_mark t m = Some c \<and>
    (\<forall>d \<in> live s. marks (heap t d) =
       (if d = c then (if mode = MM_REPLACE then [] else remove1 m (marks (heap s c))) @ [m]
        else remove1 m (marks (heap s d))))"
  by (rule con_mark_spec[OF assms]) blast

lemma mark_unique_witness:
  "\<exists>t. con_mark 4 ''a'' MM_ADD sample = Some t \<and> marks_unique t \<and> con_by_mark t ''a'' = Some 4 \<and>
    (\<forall>d \<in> live sample. marks (heap t d) =
       (if d = 4 then (if MM_ADD = MM_REPLACE then [] else remove1 ''a'' (marks (heap sample 4))) @ [''a'']
        else remove1 ''a'' (marks (heap sample d))))"
  by (rule mark_unique) (auto simp: sample_live marks_unique_def con_has_mark_def)

text \<open>C13: after the clones have been merged, no two outputs that are left usable have the same position, and
  none is lost from the list.\<close>

theorem no_two_outputs_in_one_place:
  "length (merge_clones outs) = length outs \<and>
   sorted_wrt (\<lambda>a b. usable a \<longrightarrow> usable b \<longrightarrow> \<not> same_position a b) (merge_clones outs)"
  by (simp only: length_merge_clones merge_clones_distinct_positions simp_thms)

lemma no_two_outputs_in_one_place_witness:
  "sorted_wrt (\<lambda>a b. \<not> (usable a \<and> usable b \<and> same_position a b)) (merge_clones [screen_at 0, screen_at 1920, screen_at 0])"
  by (rule sorted_wrt_mono_rel[OF _ no_two_outputs_in_one_place[THEN conjunct2]]) blast

text \<open>C14: the workspace an application was started on is remembered for thirty seconds after the application
  says that it has started, and not longer.\<close>

theorem startup_workspace_remembered:
  assumes "sequences_ok seqs" and "find_sequence i seqs = Some q" and "i \<noteq> []"
  shows "fst (startup_workspace_for_window t s win (Some i) leader_prop
      (fst (startup_monitor_event now i True seqs))) =
    (if t \<le> now + 30 then Some (seq_workspace q) else None)"
  by (rule workspace_after_completion[OF assms])

lemma startup_workspace_remembered_witness:
  "fst (startup_workspace_for_window 31 sample (sample_window 103 ''d'') (Some ''x'') None
      (fst (startup_monitor_event 0 ''x'' True [\<lparr>seq_id = ''x'', seq_workspace = ''2'', delete_at = 0\<rparr>]))) = None \<and>
   fst (startup_workspace_for_window 30 sample (sample_window 103 ''d'') (Some ''x'') None
      (fst (startup_monitor_event 0 ''x'' True [\<lparr>seq_id = ''x'', seq_workspace = ''2'', delete_at = 0\<rparr>]))) = Some ''2''"
  using startup_workspace_remembered[of "[\<lparr>seq_id = ''x'', seq_workspace = ''2'', delete_at = 0\<rparr>]" "''x''"]
  by (simp add: sequences_ok_def)

text \<open>C15: wrapping the contents of a workspace into a split container succeeds, keeps the order of
  the windows on the screen and in the focus stack, and leaves the floating windows where they
  were.\<close>

theorem encapsulate_keeps_order:
  assumes "wf_tree {} s" and "ws \<in> live s" and "con_type (heap s ws) = CT_WORKSPACE"
    and "\<forall>c \<in> set (nodes_head (heap s ws)). con_type (heap s c) = CT_CON"
    and "\<forall>c \<in> insert ws (set (nodes_head (heap s ws))). \<not> floating_on (con_floating (heap s c))"
    and "nodes_head (heap s ws) \<noteq> []"
  shows "\<exists>t. workspace_encapsulate ws s = Some (Some (next_id s), t) \<and>
    encapsulated ws (next_id s) s t \<and> layout (heap t ws) = layout (heap s ws)"
  by (rule workspace_encapsulate_ok[OF assms])

lemma encapsulate_keeps_order_witness:
  "\<exists>t. workspace_encapsulate 3 sample = Some (Some (next_id sample), t) \<and>
    encapsulated 3 (next_id sample) sample t \<and> layout (heap t 3) = layout (heap sample 3)"
  by (rule encapsulate_keeps_order) (auto simp: sample_live)

text \<open>C16: forcing an orientation on a workspace succeeds, keeps the order of its windows inside the
  new split container and gives the workspace the layout of the orientation.\<close>

theorem force_orientation_keeps_order:
  assumes "wf_tree {} s" and "ws \<in> live s" and "con_type (heap s ws) = CT_WORKSPACE"
    and "\<forall>c \<in> set (nodes_head (heap s ws)). con_type (heap s c) = CT_CON"
    and "\<forall>c \<in> insert ws (set (nodes_head (heap s ws))). \<not> floating_on (con_floating (heap s c))"
  shows "\<exists>t. ws_force_orientation ws ori s = Some t \<and> encapsulated ws (next_id s) s t \<and>
    layout (heap t ws) = (if ori = HORIZ then L_SPLITH else L_SPLITV)"
  by (rule ws_force_orientation_ok[OF assms])

lemma force_orientation_keeps_order_witness:
  "\<exists>t. ws_force_orientation 3 VERT sample = Some t \<and> encapsulated 3 (next_id sample) sample t \<and>
    layout (heap t 3) = (if VERT = HORIZ then L_SPLITH else L_SPLITV)"
  by (rule force_orientation_keeps_order) (auto simp: sample_live)

text \<open>C17: Activating a container focuses it, and puts the floating container it is in, if any, on top
  of the floating stack of its workspace.\<close>

theorem activate_focuses_and_raises:
  assumes "wf_tree {} s" and "c \<in> live s" "c \<noteq> croot s"
    and "\<forall>x. c \<in> subtree s x \<longrightarrow> clears_ok s x"
    and "con_inside_floating s c = Some r"
    and "case r of None \<Rightarrow> True
      | Some f \<Rightarrow> f \<in> live s \<and> f \<noteq> croot s \<and> con_type (heap s f) = CT_FLOATING_CON"
  shows "\<exists>t. con_activate c s = Some t \<and> focused t = Some c \<and> wf_tree {} t \<and>
    con_descend_focused t (croot t) = Some c \<and> con_inside_floating t c = Some r \<and>
    (\<forall>f p. r = Some f \<longrightarrow> parent (heap t f) = Some p \<longrightarrow> last (floating_head (heap t p)) = f)"
proof -
  have ok: "\<And>x. c \<in> subtree s x \<Longrightarrow> clears_ok s x" using assms(4) by blast
  show ?thesis by (rule con_activate_spec[OF assms(1-3) ok assms(5,6)]) blast+
qed

lemma activate_focuses_and_raises_witness:
  "\<exists>t. con_activate 7 sample = Some t \<and> focused t = Some 7 \<and> wf_tree {} t \<and>
    con_descend_focused t (croot t) = Some 7 \<and> con_inside_floating t 7 = Some (Some 6) \<and>
    (\<forall>f p. Some 6 = Some f \<longrightarrow> parent (heap t f) = Some p \<longrightarrow> last (floating_head (heap t p)) = f)"
  by (rule activate_focuses_and_raises)
    (auto simp: sample_live con_inside_floating_def sample_fuel intro: sample_clears[of 7])

text \<open>C18: Changing the border style of a floating window never moves or resizes the window itself: the
  rectangle inside the new border is the rectangle inside the old one.\<close>

theorem border_change_keeps_window:
  assumes "con_is_floating s c" and "parent (heap s c) = Some p" "p \<noteq> c"
    and "con_set_border_style c style bw s = Some t"
  shows "\<exists>b b'. con_border_style_rect s c = Some b \<and> con_border_style_rect t c = Some b' \<and>
    rect_add (con_rect (heap t c)) b' = rect_add (con_rect (heap s c)) b \<and>
    rect_add (con_rect (heap t p)) b' = rect_add (con_rect (heap s p)) b \<and>
    con_border_style_field (heap t c) = min style (max_user_border_style (heap s c)) \<and>
    current_border_width (heap t c) = bw"
  by (rule con_set_border_style_spec[OF assms]) blast

lemma border_change_keeps_window_witness:
  "\<exists>b b' t. con_set_border_style 7 BS_NONE 0 sample = Some t \<and> con_border_style_rect sample 7 = Some b \<and>
    con_border_style_rect t 7 = Some b' \<and>
    rect_add (con_rect (heap t 7)) b' = rect_add (con_rect (heap sample 7)) b"
proof -
  have f: "con_is_floating sample 7" by (simp add: con_is_floating_def)
  have p: "parent (heap sample 7) = Some 6" "(6::nat) \<noteq> 7" by simp_all
  obtain t where t: "con_set_border_style 7 BS_NONE 0 sample = Some t"
    using con_set_border_style_total[OF f p(1), of BS_NONE 0] by (auto simp: sample_cfg_def)
  from border_change_keeps_window[OF f p t] t show ?thesis by blast
qed

text \<open>C19: Whatever shares the children of a container had, and however many of them are new,
  \<open>con_fix_percent\<close> leaves all shares positive with sum one.\<close>

theorem fix_percent_normalises:
  assumes "distinct (nodes_head (heap s p))" and "nodes_head (heap s p) \<noteq> []"
  shows "sum_list (map (\<lambda>c. percent (heap (con_fix_percent p s) c)) (nodes_head (heap s p))) = 1 \<and>
    (\<forall>c \<in> set (nodes_head (heap s p)). percent (heap (con_fix_percent p s) c) > 0)"
proof -
  note h = con_fix_percent_heap(1)[OF assms(1)]
  have "map (\<lambda>c. percent (heap s c)) (nodes_head (heap s p)) \<noteq> []" using assms(2) by simp
  note d = fix_percents_distribution[OF this, folded h]
  from d(2) have "\<forall>c \<in> set (nodes_head (heap s p)). percent (heap (con_fix_percent p s) c) > 0"
    by (simp only: set_map ball_simps)
  with d(1) show ?thesis ..
qed

lemma fix_percent_normalises_witness:
  "sum_list (map (\<lambda>c. percent (heap (con_fix_percent 2 sample) c)) [3, 8, 9]) = 1 \<and>
    percent (heap (con_fix_percent 2 sample) 8) > 0"
  using fix_percent_normalises[of sample 2] by simp

text \<open>C20: The pixel sizes of the children of a split container add up to its size, each is within a
  pixel and a half of its share, and the loop that hands out the rounding error terminates.\<close>

theorem split_sizes_exact:
  assumes "\<forall>p \<in> set ps. p > 0" and "sum_list ps = 1"
  shows "\<exists>sizes. split_sizes tot ps = Some sizes \<and> sum_list sizes = tot \<and> length sizes = length ps \<and>
    list_all2 (\<lambda>z p. \<bar>of_int z - p * of_int tot\<bar> \<le> 3/2) sizes ps"
  by (rule split_sizes_ok[OF assms]) blast

lemma split_sizes_exact_witness:
  "\<exists>sizes. split_sizes 1000 [1/3, 1/3, 1/3] = Some sizes \<and> sum_list sizes = 1000"
  using split_sizes_exact[of "[1/3, 1/3, 1/3]" 1000] by auto

text \<open>C21: attaching a workspace keeps the workspaces of its output sorted: by number, the unnumbered
  ones last.\<close>

theorem attach_workspace_sorted:
  assumes "con_attach c p ign s = Some t" and "con_type (heap s c) = CT_WORKSPACE" and "c \<noteq> p"
    and "ws_sorted s (nodes_head (heap s p))"
    and "\<forall>d \<in> insert c (set (nodes_head (heap s p))). ws_num (heap s d) \<ge> -1"
  shows "ws_sorted t (nodes_head (heap t p)) \<and>
    mset (nodes_head (heap t p)) = add_mset c (mset (nodes_head (heap s p)))"
proof -
  note a = attach_workspace_nodes[OF assms(1-3)]
  have "ws_sorted s (nodes_head (heap t p))"
    unfolding a(1) by (rule insert_workspace_sorted[OF assms(4,5)])
  then show ?thesis using a(1) mset_insert_workspace by (simp add: ws_sorted_def links_onlyD[OF a(2)])
qed

lemma attach_workspace_sorted_witness:
  "\<exists>s t. con_detach 8 sample = Some s \<and> con_attach 8 2 False s = Some t \<and>
    ws_sorted t (nodes_head (heap t 2))"
proof -
  obtain p s where s: "con_detach 8 sample = Some s" "parent (heap sample 8) = Some p"
    "links_out 8 p sample s" "wf_tree (insert 8 {}) s" "links_only sample s"
    by (rule con_detach_links[OF sample_wf, of 8]) (simp_all add: sample_live)
  note lo = links_onlyD[OF s(5)]
  have n: "nodes_head (heap s 2) = [3, 9]" using s(2,3) by (auto simp: links_out_def)
  obtain u t where "con_detach 8 sample = Some u" "con_attach 8 2 False u = Some t"
    by (rule detach_attach[OF sample_wf, of 8 2 False]) (simp_all add: sample_live sample_subtree dock_ready_def)
  then have t: "con_attach 8 2 False s = Some t" using s(1) by simp
  have "ws_sorted t (nodes_head (heap t 2)) \<and>
      mset (nodes_head (heap t 2)) = add_mset 8 (mset (nodes_head (heap s 2)))"
    by (rule attach_workspace_sorted[OF t]) (simp_all add: lo n ws_sorted_def ws_le_def)
  with s(1) t show ?thesis by blast
qed

text \<open>C22: \<open>output_containing_rect\<close> never updates the largest area it has seen: it returns the last
  active output that the rectangle intersects, not the one with the largest intersection.\<close>

theorem output_containing_rect_takes_last:
  "output_containing_rect outs r = list_last (filter (\<lambda>out. active out \<and> overlaps r (out_rect out)) outs)"
  using containing_loop_last[of r outs None]
  by (auto simp: output_containing_rect_def split: option.splits)




text \<open>C24: Other programs name a workspace by its index among the workspaces that are not internal.  As
  long as there are fewer of them than the value that stands for no desktop, the index the window
  manager publishes for a container's workspace denotes this workspace, it is the only one that
  does, and an internal workspace has none.\<close>

theorem workspace_index_roundtrip:
  assumes "wf_tree D s" and "noninternal s = Some wss" and "length wss \<le> unat NET_WM_DESKTOP_NONE"
    and "con_get_workspace s c = Some (Some ws)"
  shows "if ws \<in> set wss
    then \<exists>i. ewmh_get_workspace_index s c = Some i \<and> ewmh_get_workspace_by_index s i = Some (Some ws) \<and>
      (\<forall>j. ewmh_get_workspace_by_index s j = Some (Some ws) \<longrightarrow> j = i)
    else ewmh_get_workspace_index s c = Some NET_WM_DESKTOP_NONE"
proof (cases "ws \<in> set wss")
  case True
  obtain i where i: "ewmh_get_workspace_index s c = Some i" "ewmh_get_workspace_by_index s i = Some (Some ws)"
    using index_of_by_index[OF assms True] by blast
  have "j = i" if "ewmh_get_workspace_by_index s j = Some (Some ws)" for j
    using by_index_index_of[OF assms(1-3) that assms(4)] i(1) by simp
  then have "\<forall>j. ewmh_get_workspace_by_index s j = Some (Some ws) \<longrightarrow> j = i" by (intro allI impI)
  with i have "\<exists>i. ewmh_get_workspace_index s c = Some i \<and> ewmh_get_workspace_by_index s i = Some (Some ws) \<and>
      (\<forall>j. ewmh_get_workspace_by_index s j = Some (Some ws) \<longrightarrow> j = i)"
    by (intro exI[of _ i] conjI)
  then show ?thesis by (simp only: True if_True)
next
  case False
  then have "index_of ws wss = None" using index_of_Some[of ws wss] nth_mem by (cases "index_of ws wss") auto
  then show ?thesis using assms(2,4) False by (simp add: ewmh_get_workspace_index_def)
qed

lemma workspace_index_roundtrip_witness:
  "ewmh_get_workspace_index sample 7 = Some 0 \<and> ewmh_get_workspace_by_index sample 0 = Some (Some 3) \<and>
   ewmh_get_workspace_by_index sample 1 \<noteq> Some (Some 3)"
proof -
  have n: "noninternal sample = Some [3, 8, 9]"
    by (simp add: noninternal_def noninternal_on_def sample_scan con_is_internal_def starts_with_def)
  have i: "ewmh_get_workspace_index sample 7 = Some 0"
    by (simp add: ewmh_get_workspace_index_def sample_workspace n)
  have "ewmh_get_workspace_by_index sample 0 = Some (Some 3) \<and>
      (\<forall>j. ewmh_get_workspace_by_index sample j = Some (Some 3) \<longrightarrow> j = 0)"
    using workspace_index_roundtrip[OF sample_wf n, of 7 3] i
    by (simp add: sample_workspace NET_WM_DESKTOP_NONE_def)
  with i show ?thesis using zero_neq_one by metis
qed

text \<open>C25: the name of the workspace created for an output without one is always found: it is a name
  from the key bindings that no workspace uses, or else the smallest positive number that neither a
  workspace nor an assignment to another output uses.\<close>

theorem new_workspace_name_unused:
  assumes "workspaces_in s = Some cs" and "set cs \<subseteq> live s"
  shows "\<exists>name n. free_workspace_name e out s = Some (name, n) \<and>
    ((name \<in> set (binding_workspace_names e) \<and> n = ws_name_to_number name \<and> \<not> name_used s cs name n) \<or>
     (\<exists>m. n = int m \<and> name = digits m \<and> 0 < m \<and> \<not> number_taken e out s cs m \<and>
        (\<forall>j. 0 < j \<and> j < m \<longrightarrow> number_taken e out s cs j)))"
  by (rule free_workspace_name_spec[OF assms]) blast

definition sample_env :: env where
  "sample_env = \<lparr>outputs = [], ws_assignments = [], binding_workspace_names = [''1'', ''2''],
     root_width = 1920, root_height = 1080\<rparr>"

lemma new_workspace_name_unused_witness:
  "\<forall>x. \<exists>name n. free_workspace_name sample_env x sample = Some (name, n)"
proof -
  have c: "workspaces_in sample = Some [3, 8, 9]"
    by (simp add: workspaces_in_def content_nodes_def output_get_content_def)
  have "set [3, 8, 9] \<subseteq> live sample" by (simp add: sample_live)
  from new_workspace_name_unused[OF c this, of sample_env] show ?thesis by meson
qed



text \<open>C27: merging a container with marks into another one moves its first mark only: the loop that
  moves the marks inserts each into the queue of the new container, which ends the iteration
  because it overwrites the link the loop follows.\<close>

theorem merge_moves_one_mark:
  assumes "tq_repr q ys" and "tq_repr old (m # ms)" and "m \<notin> set ys"
  shows "tq_repr (move_marks_loop (Suc k) (TAILQ_FIRST old) q) (merged_marks (m # ms) ys)"
  using move_marks_once(2)[OF assms(1,3)] tq_repr_first[OF assms(2)] by (simp add: merged_marks_def)

definition mark_queue :: "string tailq" where
  "mark_queue = \<lparr>tqh_first = None, tqh_last = Head_First, tqe_next = \<lambda>_. None, tqe_prev = \<lambda>_. Head_First\<rparr>"

definition two_marks :: "string tailq" where
  "two_marks = TAILQ_INSERT_TAIL ''b'' (TAILQ_INSERT_TAIL ''a'' mark_queue)"

lemma merge_moves_one_mark_witness:
  "tq_repr (move_marks_loop 9 (TAILQ_FIRST two_marks)
     (two_marks\<lparr>tqh_first := None, tqh_last := Head_First\<rparr>)) [''a'']"
proof -
  have e: "tq_repr mark_queue []" by (simp add: mark_queue_def tq_repr_def)
  have t: "tq_repr two_marks (''a'' # [''b''])"
    unfolding two_marks_def using tq_repr_insert_tail[OF tq_repr_insert_tail[OF e, of "''a''"], of "''b''"] by simp
  have n: "tq_repr (two_marks\<lparr>tqh_first := None, tqh_last := Head_First\<rparr>) []" by (simp add: tq_repr_def)
  from merge_moves_one_mark[OF n t, of 8] show ?thesis by (simp add: merged_marks_def)
qed

text \<open>C28: a command that checks the criteria first does nothing after an error in them: it replies with
  the error, and neither the tree, the bars nor any other state changes.\<close>

theorem invalid_criteria_reject:
  assumes "guarded c" and "m_error (current_match st) = Some e"
  shows "run_command w c st = Some (yerror (''Invalid match: '' @ e) st)"
  by (rule guarded_invalid[OF assms])

lemma invalid_criteria_reject_witness:
  "map_option replies (run_command sample_world (Split ''h'')
     (sample_cmd (match_init\<lparr>m_error := Some ''invalid con_id''\<rparr>))) =
   Some [R_Error (''Invalid match: '' @ ''invalid con_id'')]"
proof -
  have "guarded (Split ''h'')" by (simp add: guarded_def)
  moreover have "m_error (current_match (sample_cmd (match_init\<lparr>m_error := Some ''invalid con_id''\<rparr>))) =
    Some ''invalid con_id''" by (simp add: sample_cmd_def)
  ultimately show ?thesis
    by (subst invalid_criteria_reject[where e = "''invalid con_id''"]) (simp_all add: sample_cmd_def)
qed

text \<open>C29: the commands that select, resize, mark, name and decorate containers, or change gaps, bars,
  modes and logging, leave the tree exactly as it is, in any sequence: all containers keep their
  parents, the order of their children, their floating windows and their focus stacks, and the
  focus stays where it was.\<close>

theorem in_place_commands_keep_tree:
  assumes "list_all in_place cs" and "fold_opt (run_command w) cs st = Some st'"
  shows "live (wm st') = live (wm st) \<and> focused (wm st') = focused (wm st) \<and>
    wf_i3 (wm st') = wf_i3 (wm st) \<and>
    (\<forall>c. parent (heap (wm st') c) = parent (heap (wm st) c) \<and>
       nodes_head (heap (wm st') c) = nodes_head (heap (wm st) c) \<and>
       floating_head (heap (wm st') c) = floating_head (heap (wm st) c) \<and>
       focus_head (heap (wm st') c) = focus_head (heap (wm st) c))"
proof -
  have i: "inert (wm st) (wm st')" by (rule in_place_run[OF assms])
  then have "same_links (wm st) (wm st')" "focused (wm st') = focused (wm st)" by (simp_all add: inert_def)
  with inert_wf[OF i] show ?thesis by (simp add: same_linksD)
qed

lemma in_place_commands_keep_tree_witness:
  "\<exists>t. fold_opt (run_command sample_world) [Debuglog ''on'', Unmark (Some ''m''), Nop] (sample_cmd match_init) = Some t \<and>
     focused (wm t) = Some 5"
proof -
  have "\<exists>t. fold_opt (run_command sample_world) [Debuglog ''on'', Unmark (Some ''m''), Nop] (sample_cmd match_init) = Some t"
    by (simp add: cmd_debuglog_def cmd_unmark_def cmd_nop_def sample_cmd_def ysuccess_def reply_def match_init_empty)
  then obtain t where t: "fold_opt (run_command sample_world) [Debuglog ''on'', Unmark (Some ''m''), Nop] (sample_cmd match_init) = Some t"
    by blast
  have "focused (wm t) = focused (wm (sample_cmd match_init))"
    using in_place_commands_keep_tree[OF _ t] by (simp add: in_place_def)
  with t show ?thesis by (auto simp: sample_cmd_def)
qed



text \<open>C31: with a list of outputs, \<open>move to output\<close> and \<open>focus output\<close> go to the first existing output
  in the list turned so that it begins behind the current output, and ends with it.\<close>

theorem output_list_cycles:
  "find_next_output (\<lambda>n. Some (g n)) cur None ns = Some (first_available g (turned cur ns))"
  by (rule find_next_output_turned)

text \<open>C32: after \<open>gaps\<close> with scope \<open>all\<close> no workspace is left with gaps that are negative in total by more
  than the inner gaps make up for.\<close>

theorem gaps_stay_above_minimum:
  assumes "gaps_update g ''all'' mode px s = Some (True, t)" and "workspaces_in s = Some cs" and "ws \<in> set cs"
  shows "gap_get g (cfg_gaps (cfg t)) + gap_get g (con_gaps (heap t ws)) +
    (if g = GAP_INNER then 0 else g_inner (cfg_gaps (cfg s))) \<ge> 0"
  by (rule gaps_update_bound[OF assms])

lemma gaps_stay_above_minimum_witness:
  "\<exists>t. gaps_update GAP_TOP ''all'' ''minus'' 7 sample = Some (True, t) \<and>
     gap_get GAP_TOP (cfg_gaps (cfg t)) + gap_get GAP_TOP (con_gaps (heap t 8)) \<ge> 0"
proof -
  have w: "workspaces_in sample = Some [3, 8, 9]"
    by (simp add: workspaces_in_def content_nodes_def output_get_content_def)
  have "\<exists>t. gaps_update GAP_TOP ''all'' ''minus'' 7 sample = Some (True, t)"
    by (simp add: gaps_update_def sample_workspace gaps_value_def gaps_update_all_def output_get_content_def Let_def)
  then obtain t where t: "gaps_update GAP_TOP ''all'' ''minus'' 7 sample = Some (True, t)" ..
  have "g_inner (cfg_gaps (cfg sample)) = 0" by (simp add: sample_cfg_def no_gaps_def)
  with gaps_stay_above_minimum[OF t w, of 8] t show ?thesis by simp
qed



text \<open>C34: for a grammar whose paths hold at most ten identified tokens, the command parser processes every
  input to the end, if the command functions return: it leaves an empty stack, and either the
  state the commands lead to or, after a parse error, the reply with the message, the input and a
  line of the same length that marks the rest from the position of the error on.\<close>

theorem commands_are_processed:
  assumes "calls_return I call" and "\<And>c. I c \<Longrightarrow> I (cmd_criteria_init c)"
    and "table_ok depth T" and "table_ranked rank T"
    and "I (p_cmd p)" and "p_stack p = clear_stack"
  shows "\<exists>r q. parse_command call T input p = Some (r, q) \<and> p_stack q = clear_stack \<and>
    (if parse_error r
     then \<exists>c msg n. I c \<and> error_message r = Some msg \<and> n \<le> length input \<and>
       p_cmd q = reply (R_Parse_Error msg input
         (replicate (length input - n) (CHR '' '') @ replicate n (CHR ''^''))) c
     else I (p_cmd q))"
proof -
  obtain r q where "parse_command call T input p = Some (r, q)" "loop_ok I input (r, q)"
    using parse_command_ok[OF assms(1,2) assms(3-6)] by (metis surj_pair)
  then show ?thesis by (cases "parse_error r") (auto dest: suffix_length_le)
qed

lemma commands_are_processed_witness:
  "\<forall>input. \<exists>r q. parse_command echo once_tokens input (idle_parser (sample_cmd match_init)) = Some (r, q) \<and>
     p_stack q = clear_stack"
proof
  fix input
  have "calls_return (\<lambda>_. True) echo" by (simp add: calls_return_def echo_def)
  from commands_are_processed[OF this _ once_tokens_ok once_tokens_ranked, of "idle_parser (sample_cmd match_init)" input]
  show "\<exists>r q. parse_command echo once_tokens input (idle_parser (sample_cmd match_init)) = Some (r, q) \<and>
     p_stack q = clear_stack" by (auto simp: idle_parser_def)
qed

text \<open>C35: an option that may be repeated is stored each time: after eleven \<open>--no-startup-id\<close> the stack of the
  parser is full and i3 exits, whatever follows.\<close>

theorem repeated_options_terminate_i3:
  assumes "p_stack p = clear_stack" and "10 < n"
  shows "parse_command call command_tokens (''exec'' @ exec_options n @ w) p = None"
  using assms by (rule repeated_options_exit)

lemma repeated_options_terminate_i3_witness:
  "parse_command echo command_tokens (''exec'' @ exec_options 11 @ '' true'') (idle_parser (sample_cmd match_init)) = None"
  by (rule repeated_options_terminate_i3) (simp_all add: idle_parser_def)





text \<open>C38: whatever variables are set, and how often, each has one value, the last one, and of the names that
  fit at a place the longest is replaced.\<close>

theorem longest_variable_replaced:
  assumes "vs = foldl (\<lambda>vs (k, v). upsert_variable vs k v) [] defs" and "\<forall>(k, v) \<in> set defs. k \<noteq> []"
    and "nearest vs walk fsize None = (d, Some (key, val))"
  shows "map_of (rev defs) key = Some val \<and>
    (\<forall>k. map_of (rev defs) k \<noteq> None \<and> strncasecmp_eq (drop d walk) k \<longrightarrow> length k \<le> length key)"
proof -
  have "longest_first vs \<and> distinct (map fst vs) \<and> map_of vs = map_of (rev defs)"
    unfolding assms(1)
  proof (induction defs rule: rev_induct)
    case (snoc kv defs)
    then show ?case using upsert_variable_spec by (cases kv) simp
  qed (simp add: longest_first_def)
  then have vs: "longest_first vs" "distinct (map fst vs)" "map_of vs = map_of (rev defs)" by auto
  have keys: "fst ` set vs = fst ` set defs"
    using arg_cong[OF vs(3), of dom] by (simp add: dom_map_of_conv_image_fst)
  have "k \<noteq> []" if "(k, v) \<in> set vs" for k v
  proof -
    have "k \<in> fst ` set defs" using that keys by (metis fst_conv image_eqI)
    then show ?thesis using assms(2) by auto
  qed
  then have "\<forall>(k, v) \<in> set vs. k \<noteq> []" by blast
  then have first: "first_var vs (drop d walk) = Some (key, val)" using nearest_spec[OF assms(3)] by auto
  have "map_of vs key = Some val" using first_var_Some[OF first] vs(2) by simp
  moreover have "length k \<le> length key" if "map_of vs k = Some v" "strncasecmp_eq (drop d walk) k" for k v
    using first_var_longest[OF vs(1) first map_of_SomeD[OF that(1)] that(2)] .
  ultimately show ?thesis using vs(3) by auto
qed

lemma longest_variable_replaced_witness:
  "map_of (rev [(''$a'', ''x''), (''$abc'', ''z''), (''$ab'', ''y''), (''$ab'', ''w'')]) ''$ab'' = Some ''w''"
proof -
  have "nearest (foldl (\<lambda>vs (k, v). upsert_variable vs k v) [] [(''$a'', ''x''), (''$abc'', ''z''), (''$ab'', ''y''), (''$ab'', ''w'')])
      ''1 $ab'' 9 None = (2, Some (''$ab'', ''w''))"
    by (simp add: upsert_variable_def to_lower_def char_code_def)
  from longest_variable_replaced[OF refl _ this] show ?thesis by simp
qed





text \<open>C40: the list of the buttons to grab, with the number 0 at its end, never overruns the 25 places of its
  buffer, and it always begins with the buttons 1 to 3.\<close>

theorem grabbed_buttons_fit:
  "length (bindings_get_buttons_to_grab bs) \<le> 25 \<and> (\<exists>more. bindings_get_buttons_to_grab bs = [1, 2, 3] @ more @ [0])"
  by (rule buttons_fit)

end
